(* ===== verification/Prelude.thy ===== *)
theory Prelude
  imports Main "HOL-Library.Char_ord" "HOL-Library.List_Lexorder"
begin

text \<open>
  Shared vocabulary of the development: Go's error values and the ways a Go call can end,
  contexts, and the generic facts on strings, lists and association lists that the
  component theories use.

  \<^item> An \<open>error\<close> is a tree, as \<open>fmt.Errorf\<close> with \<open>%w\<close> and \<open>errors.Join\<close> build it. Sentinels are
    the package-level \<open>errors.New\<close> values; \<open>errors.Is\<close> compares them by identity, so two
    sentinels with the same message (the database's, the service's and the engine's
    "torrent not found") are different constructors.
  \<^item> A call that takes and returns the state ends in a value of type \<open>'a res\<close> and a new
    state. \<open>call\<close> is the shape of every \<open>x, err := f(); if err != nil {...}\<close> in the program: a
    panic passes through, and so does a call that blocks for ever (\<open>Hang\<close>).
  \<^item> A context is the moment from which it is done. Once done it stays done.
\<close>

section \<open>Collections of facts\<close>

named_theorems world_simps \<open>effects of operations on the fields of the world\<close>
named_theorems repo_defs \<open>definitions of the repository operations\<close>
named_theorems engine_defs \<open>definitions of the engine operations\<close>
named_theorems service_defs \<open>definitions of the service operations\<close>
named_theorems handler_defs \<open>definitions of the HTTP handlers\<close>
named_theorems disk_defs \<open>definitions of the operations on files\<close>

section \<open>Machine integers\<close>

text \<open>Go's \<open>int64\<close>, and \<open>int\<close> on the 64-bit platforms the server is built for, as an integer with the
  wrap-around written out: \<open>i64\<close> is the value of an operation whose exact result is \<open>x\<close>. Sums,
  differences and products may be wrapped once at the end, as they are computed modulo \<open>2 ^ 64\<close>.
  \<open>u32\<close> is the conversion to \<open>uint32\<close>.\<close>

definition i64 :: "int \<Rightarrow> int" where
  "i64 x = (x + 2 ^ 63) mod 2 ^ 64 - 2 ^ 63"

definition u32 :: "int \<Rightarrow> int" where
  "u32 x = x mod 2 ^ 32"

definition fits64 :: "int \<Rightarrow> bool" where
  "fits64 i \<longleftrightarrow> - (2 ^ 63) \<le> i \<and> i < 2 ^ 63"

lemma i64_fits: "fits64 x \<Longrightarrow> i64 x = x"
  by (simp add: i64_def fits64_def)

lemma fits64_i64 [simp]: "fits64 (i64 x)"
  by (simp add: i64_def fits64_def)

lemma i64_nonneg: "0 \<le> x \<Longrightarrow> x < 2 ^ 63 \<Longrightarrow> i64 x = x"
  by (simp add: i64_fits fits64_def)

lemma i64_0 [simp]: "i64 0 = 0"
  by (simp add: i64_nonneg)

lemma i64_mod: "i64 x mod 2 ^ 64 = x mod 2 ^ 64"
  by (simp add: i64_def mod_diff_left_eq)

lemma i64_cong: "x mod 2 ^ 64 = y mod 2 ^ 64 \<Longrightarrow> i64 x = i64 y"
  unfolding i64_def by (metis mod_add_left_eq)

lemma i64_add_i64 [simp]: "i64 (i64 x + y) = i64 (x + y)" "i64 (x + i64 y) = i64 (x + y)"
  by (rule i64_cong, metis i64_mod mod_add_left_eq mod_add_right_eq)+

lemma i64_diff_i64 [simp]: "i64 (i64 x - y) = i64 (x - y)" "i64 (x - i64 y) = i64 (x - y)"
  by (rule i64_cong, metis i64_mod mod_diff_left_eq mod_diff_right_eq)+

section \<open>Errors\<close>

datatype sentinel =
    DbTorrentNotFound | DbTorrentAlreadyExists
  | SvcTorrentNotFound | SvcTorrentAlreadyExists | SvcInvalidTorrentFile
  | EngNotFound | EngInvalidFile
  | SqlNoRows
  | UiMissingMagnet | UiMissingFile
  | ContextCanceled
  | HttpServerClosed | MigrateNoChange
  | IoEOF | IoUnexpectedEOF | IoShortWrite
  | FsNotExist | FsPermission | FsInvalid

datatype go_error =
    Sentinel sentinel
  | ErrorString string               \<comment> \<open>\<open>errors.New\<close> or \<open>fmt.Errorf\<close> without \<open>%w\<close>\<close>
  | Errorf string go_error string    \<comment> \<open>\<open>fmt.Errorf("pre%wpost", err)\<close>\<close>
  | Joined "go_error list"           \<comment> \<open>\<open>errors.Join\<close>\<close>
  | SqliteError int string           \<comment> \<open>\<open>*sqlite.Error\<close>: result code and message\<close>
  | DriverError string               \<comment> \<open>any other failure the SQL driver reports\<close>
  | ErrorResponse int string         \<comment> \<open>\<open>api.ErrorResponse\<close>: status and message\<close>
  | UnmarshalTypeError string string \<comment> \<open>\<open>*bencode.UnmarshalTypeError\<close>: bencode type and Go type\<close>

primrec sentinel_msg :: "sentinel \<Rightarrow> string" where
  "sentinel_msg DbTorrentNotFound = ''torrent not found''"
| "sentinel_msg DbTorrentAlreadyExists = ''torrent already exists''"
| "sentinel_msg SvcTorrentNotFound = ''torrent not found''"
| "sentinel_msg SvcTorrentAlreadyExists = ''torrent already exists''"
| "sentinel_msg SvcInvalidTorrentFile = ''invalid torrent file''"
| "sentinel_msg EngNotFound = ''torrent not found''"
| "sentinel_msg EngInvalidFile = ''invalid torrent file''"
| "sentinel_msg SqlNoRows = ''sql: no rows in result set''"
| "sentinel_msg UiMissingMagnet = ''missing magnet''"
| "sentinel_msg UiMissingFile = ''missing file''"
| "sentinel_msg ContextCanceled = ''context canceled''"
| "sentinel_msg HttpServerClosed = ''http: Server closed''"
| "sentinel_msg MigrateNoChange = ''no change''"
| "sentinel_msg IoEOF = ''EOF''"
| "sentinel_msg IoUnexpectedEOF = ''unexpected EOF''"
| "sentinel_msg IoShortWrite = ''short write''"
| "sentinel_msg FsNotExist = ''no such file or directory''"
| "sentinel_msg FsPermission = ''permission denied''"
| "sentinel_msg FsInvalid = ''invalid argument''"

fun join_lines :: "string list \<Rightarrow> string" where
  "join_lines [] = []"
| "join_lines [m] = m"
| "join_lines (m # ms) = m @ CHR 10 # join_lines ms"

text \<open>\<open>err.Error()\<close>.\<close>

primrec error_msg :: "go_error \<Rightarrow> string" where
  "error_msg (Sentinel s) = sentinel_msg s"
| "error_msg (ErrorString m) = m"
| "error_msg (Errorf pre e post) = pre @ error_msg e @ post"
| "error_msg (Joined es) = join_lines (map error_msg es)"
| "error_msg (SqliteError code m) = m"
| "error_msg (DriverError m) = m"
| "error_msg (ErrorResponse status m) = m"
| "error_msg (UnmarshalTypeError b t) = ''can't unmarshal a bencode '' @ b @ '' into a '' @ t"

text \<open>\<open>errors.Is(err, sentinel)\<close>: the tree of wrapped errors holds the sentinel.\<close>

primrec errors_is :: "go_error \<Rightarrow> sentinel \<Rightarrow> bool" where
  "errors_is (Sentinel s) t = (s = t)"
| "errors_is (ErrorString m) t = False"
| "errors_is (Errorf pre e post) t = errors_is e t"
| "errors_is (Joined es) t = list_ex (\<lambda>f. f t) (map errors_is es)"
| "errors_is (SqliteError code m) t = False"
| "errors_is (DriverError m) t = False"
| "errors_is (ErrorResponse status m) t = False"
| "errors_is (UnmarshalTypeError b g) t = False"

text \<open>\<open>errors.As(err, &e)\<close> for a \<open>*sqlite.Error\<close> and for an \<open>api.ErrorResponse\<close>: the first such
  value in the tree, in depth-first order; for a \<open>*bencode.UnmarshalTypeError\<close>, whether there is one.\<close>

definition first_some :: "'a option list \<Rightarrow> 'a option" where
  "first_some xs = (case filter (\<lambda>x. x \<noteq> None) xs of [] \<Rightarrow> None | x # _ \<Rightarrow> x)"

primrec as_sqlite :: "go_error \<Rightarrow> int option" where
  "as_sqlite (Sentinel s) = None"
| "as_sqlite (ErrorString m) = None"
| "as_sqlite (Errorf pre e post) = as_sqlite e"
| "as_sqlite (Joined es) = first_some (map as_sqlite es)"
| "as_sqlite (SqliteError code m) = Some code"
| "as_sqlite (DriverError m) = None"
| "as_sqlite (ErrorResponse status m) = None"
| "as_sqlite (UnmarshalTypeError b t) = None"

primrec as_error_response :: "go_error \<Rightarrow> (int \<times> string) option" where
  "as_error_response (Sentinel s) = None"
| "as_error_response (ErrorString m) = None"
| "as_error_response (Errorf pre e post) = as_error_response e"
| "as_error_response (Joined es) = first_some (map as_error_response es)"
| "as_error_response (SqliteError code m) = None"
| "as_error_response (DriverError m) = None"
| "as_error_response (ErrorResponse status m) = Some (status, m)"
| "as_error_response (UnmarshalTypeError b t) = None"

primrec as_unmarshal_type :: "go_error \<Rightarrow> bool" where
  "as_unmarshal_type (Sentinel s) = False"
| "as_unmarshal_type (ErrorString m) = False"
| "as_unmarshal_type (Errorf pre e post) = as_unmarshal_type e"
| "as_unmarshal_type (Joined es) = list_ex (\<lambda>b. b) (map as_unmarshal_type es)"
| "as_unmarshal_type (SqliteError code m) = False"
| "as_unmarshal_type (DriverError m) = False"
| "as_unmarshal_type (ErrorResponse status m) = False"
| "as_unmarshal_type (UnmarshalTypeError b t) = True"

text \<open>\<open>errors.Join\<close>: nil when every argument is nil.\<close>

definition errors_Join :: "go_error option list \<Rightarrow> go_error option" where
  "errors_Join es =
     (let fs = concat (map (\<lambda>e. case e of None \<Rightarrow> [] | Some x \<Rightarrow> [x]) es) in if fs = [] then None else Some (Joined fs))"

lemma errors_Join_None: "errors_Join es = None \<longleftrightarrow> (\<forall>e \<in> set es. e = None)"
  by (auto simp: errors_Join_def Let_def split: option.splits)

section \<open>How a call ends\<close>

datatype 'a res = Ok 'a | Err go_error | Panic string | Hang

primrec returns :: "'a res \<Rightarrow> bool" where
  "returns (Ok a) = True"
| "returns (Err e) = True"
| "returns (Panic p) = False"
| "returns Hang = False"

lemma returnsE:
  assumes "returns r"
  obtains a where "r = Ok a" | e where "r = Err e"
  using assms by (cases r) auto

definition call ::
  "'a res \<times> 'w \<Rightarrow> ('a \<Rightarrow> 'w \<Rightarrow> 'b res \<times> 'w) \<Rightarrow> (go_error \<Rightarrow> 'w \<Rightarrow> 'b res \<times> 'w) \<Rightarrow> 'b res \<times> 'w"
  where
  "call m ok err =
     (case m of
        (Ok a, w) \<Rightarrow> ok a w
      | (Err e, w) \<Rightarrow> err e w
      | (Panic p, w) \<Rightarrow> (Panic p, w)
      | (Hang, w) \<Rightarrow> (Hang, w))"

lemma call_simps [simp]:
  "call (Ok a, w) ok err = ok a w"
  "call (Err e, w) ok err = err e w"
  "call (Panic p, w) ok err = (Panic p, w)"
  "call (Hang, w) ok err = (Hang, w)"
  by (simp_all add: call_def)

lemma call_split:
  "P (call m ok err) \<longleftrightarrow>
     (\<forall>a w. m = (Ok a, w) \<longrightarrow> P (ok a w)) \<and>
     (\<forall>e w. m = (Err e, w) \<longrightarrow> P (err e w)) \<and>
     (\<forall>p w. m = (Panic p, w) \<longrightarrow> P (Panic p, w)) \<and>
     (\<forall>w. m = (Hang, w) \<longrightarrow> P (Hang, w))"
  by (cases m; cases "fst m") auto

lemma call_split_asm:
  "P (call m ok err) \<longleftrightarrow>
     \<not> ((\<exists>a w. m = (Ok a, w) \<and> \<not> P (ok a w)) \<or>
        (\<exists>e w. m = (Err e, w) \<and> \<not> P (err e w)) \<or>
        (\<exists>p w. m = (Panic p, w) \<and> \<not> P (Panic p, w)) \<or>
        (\<exists>w. m = (Hang, w) \<and> \<not> P (Hang, w)))"
  by (cases m; cases "fst m") auto

lemmas call_splits = call_split call_split_asm

lemma call_eqE:
  assumes "call m ok err = r"
  obtains (ok) a w where "m = (Ok a, w)" "ok a w = r"
    | (err) e w where "m = (Err e, w)" "err e w = r"
    | (panic) p w where "m = (Panic p, w)" "r = (Panic p, w)"
    | (hang) w where "m = (Hang, w)" "r = (Hang, w)"
  using assms by (cases m; cases "fst m") auto

text \<open>When the first call returns, only its two ordinary ends are left.\<close>

lemma call_returnsE:
  assumes "call m ok err = r" and "returns (fst m)"
  obtains (ok) a w where "m = (Ok a, w)" "ok a w = r"
    | (err) e w where "m = (Err e, w)" "err e w = r"
  using assms by (cases m; cases "fst m") auto

section \<open>Contexts\<close>

text \<open>\<open>Some d\<close>: done from tick \<open>d\<close> on (the client went away, the server was told to stop);
  \<open>None\<close>: never done, as \<open>context.Background()\<close>.\<close>

type_synonym ctx = "nat option"

abbreviation background :: ctx where
  "background \<equiv> None"

definition ctx_done :: "ctx \<Rightarrow> nat \<Rightarrow> bool" where
  "ctx_done c n = (case c of None \<Rightarrow> False | Some d \<Rightarrow> d \<le> n)"

lemma ctx_done_background [simp]: "\<not> ctx_done background n"
  by (simp add: ctx_done_def)

lemma ctx_done_mono: "ctx_done c m \<Longrightarrow> m \<le> n \<Longrightarrow> ctx_done c n"
  by (auto simp: ctx_done_def split: option.splits)

section \<open>Strings\<close>

text \<open>\<open>strings.HasPrefix\<close>, \<open>strings.CutPrefix\<close>, \<open>strings.Cut\<close> at a one-byte separator, \<open>strings.ToLower\<close> on
  ASCII, and \<open>strconv.FormatBool\<close>. A Go string is a list of bytes.\<close>

fun has_prefix :: "string \<Rightarrow> string \<Rightarrow> bool" where
  "has_prefix s [] = True"
| "has_prefix [] (p # ps) = False"
| "has_prefix (c # s) (p # ps) = (c = p \<and> has_prefix s ps)"

lemma has_prefix_append [simp]: "has_prefix (p @ s) p"
  by (induction p) auto

lemma has_prefix_iff: "has_prefix s p \<longleftrightarrow> (\<exists>r. s = p @ r)"
  by (induction s p rule: has_prefix.induct) auto

definition cut_prefix :: "string \<Rightarrow> string \<Rightarrow> string option" where
  "cut_prefix s p = (if has_prefix s p then Some (drop (length p) s) else None)"

lemma cut_prefix_append [simp]: "cut_prefix (p @ s) p = Some s"
  by (simp add: cut_prefix_def)

text \<open>\<open>strings.Cut(s, sep)\<close>: before, after, found.\<close>

fun cut_at :: "char \<Rightarrow> string \<Rightarrow> string \<times> string \<times> bool" where
  "cut_at sep [] = ([], [], False)"
| "cut_at sep (c # cs) =
     (if c = sep then ([], cs, True)
      else (let (b, a, f) = cut_at sep cs in (c # b, a, f)))"

lemma cut_at_notin: "sep \<notin> set s \<Longrightarrow> cut_at sep s = (s, [], False)"
  by (induction s) auto

lemma cut_at_append: "sep \<notin> set b \<Longrightarrow> cut_at sep (b @ sep # a) = (b, a, True)"
  by (induction b) auto

definition ascii_lower :: "char \<Rightarrow> char" where
  "ascii_lower c =
     (if 65 \<le> (of_char c :: nat) \<and> (of_char c :: nat) \<le> 90
      then char_of ((of_char c :: nat) + 32) else c)"

definition to_lower :: "string \<Rightarrow> string" where
  "to_lower s = map ascii_lower s"

definition format_bool :: "bool \<Rightarrow> string" where
  "format_bool b = (if b then ''true'' else ''false'')"

text \<open>\<open>%q\<close>: \<open>strconv.Quote\<close>. Printable ASCII stands for itself, quote and backslash are escaped, the
  control characters take their letter or \<open>\xNN\<close> form; bytes of printable multi-byte runes are
  written as they are.\<close>

definition quote_char :: "char \<Rightarrow> string" where
  "quote_char c =
     (let n = (of_char c :: nat); bs = CHR 0x5C; hex = (\<lambda>d. ''0123456789abcdef'' ! d) in
      if n = 34 \<or> n = 92 then [bs, c]
      else if n = 7 then [bs, CHR ''a''] else if n = 8 then [bs, CHR ''b'']
      else if n = 9 then [bs, CHR ''t''] else if n = 10 then [bs, CHR ''n'']
      else if n = 11 then [bs, CHR ''v''] else if n = 12 then [bs, CHR ''f'']
      else if n = 13 then [bs, CHR ''r'']
      else if n < 32 \<or> n = 127 then [bs, CHR ''x'', hex (n div 16), hex (n mod 16)]
      else [c])"

definition go_quote :: "string \<Rightarrow> string" where
  "go_quote s = CHR 0x22 # concat (map quote_char s) @ [CHR 0x22]"

text \<open>Decimal notation, as \<open>%d\<close> and \<open>strconv.Itoa\<close> write it.\<close>

definition digit_char :: "nat \<Rightarrow> char" where
  "digit_char d = ''0123456789'' ! d"

lemma less_10_cases: "(d::nat) < 10 \<Longrightarrow> d \<in> {0, 1, 2, 3, 4, 5, 6, 7, 8, 9}"
  by auto

lemma of_char_digit_char [simp]: "d < 10 \<Longrightarrow> (of_char (digit_char d) :: nat) = 48 + d"
  by (drule less_10_cases) (auto simp: digit_char_def)

fun nat_dec :: "nat \<Rightarrow> string" where
  "nat_dec n = (if n < 10 then [digit_char n] else nat_dec (n div 10) @ [digit_char (n mod 10)])"

declare nat_dec.simps [simp del]

definition int_dec :: "int \<Rightarrow> string" where
  "int_dec i = (if i < 0 then CHR ''-'' # nat_dec (nat (- i)) else nat_dec (nat i))"

section \<open>Pure results\<close>

lemma map_sum_id_Inr_iff [simp]: "map_sum id f x = Inr y \<longleftrightarrow> (\<exists>z. x = Inr z \<and> y = f z)"
  by (cases x) auto

lemma map_sum_id_Inl_iff [simp]: "map_sum id f x = Inl e \<longleftrightarrow> x = Inl e"
  by (cases x) auto

section \<open>Association lists and updates by key\<close>

text \<open>A table is a list of rows in insertion order; \<open>key\<close> reads the column that identifies a
  row. \<open>lookup_by\<close> is the first match.\<close>

definition lookup_by :: "('r \<Rightarrow> 'k) \<Rightarrow> 'k \<Rightarrow> 'r list \<Rightarrow> 'r option" where
  "lookup_by key k rs = find (\<lambda>r. key r = k) rs"

definition update_by :: "('r \<Rightarrow> 'k) \<Rightarrow> 'k \<Rightarrow> ('r \<Rightarrow> 'r) \<Rightarrow> 'r list \<Rightarrow> 'r list" where
  "update_by key k f rs = map (\<lambda>r. if key r = k then f r else r) rs"

definition delete_by :: "('r \<Rightarrow> 'k) \<Rightarrow> 'k \<Rightarrow> 'r list \<Rightarrow> 'r list" where
  "delete_by key k rs = filter (\<lambda>r. key r \<noteq> k) rs"

lemma lookup_by_simps [simp]:
  "lookup_by key k [] = None"
  "lookup_by key k (r # rs) = (if key r = k then Some r else lookup_by key k rs)"
  by (simp_all add: lookup_by_def)

lemma lookup_by_None: "lookup_by key k rs = None \<longleftrightarrow> k \<notin> key ` set rs"
  by (induction rs) auto

lemma lookup_by_SomeD: "lookup_by key k rs = Some r \<Longrightarrow> r \<in> set rs \<and> key r = k"
  by (induction rs) (auto split: if_splits)

lemma lookup_by_append:
  "lookup_by key k (rs @ ss) =
     (case lookup_by key k rs of None \<Rightarrow> lookup_by key k ss | Some r \<Rightarrow> Some r)"
  by (induction rs) auto

lemma lookup_by_unique:
  "distinct (map key rs) \<Longrightarrow> r \<in> set rs \<Longrightarrow> lookup_by key (key r) rs = Some r"
  by (induction rs) auto

lemma lookup_update_by:
  assumes "\<And>r. key (f r) = key r"
  shows "lookup_by key j (update_by key k f rs) =
    (if j = k then map_option f (lookup_by key k rs) else lookup_by key j rs)"
  using assms by (induction rs) (auto simp: update_by_def)

lemma keys_update_by [simp]:
  assumes "\<And>r. key (f r) = key r"
  shows "map key (update_by key k f rs) = map key rs"
  using assms by (induction rs) (auto simp: update_by_def)

lemma update_by_absent: "lookup_by key k rs = None \<Longrightarrow> update_by key k f rs = rs"
  by (induction rs) (auto simp: update_by_def split: if_splits)

lemma lookup_delete_by:
  "lookup_by key j (delete_by key k rs) = (if j = k then None else lookup_by key j rs)"
  by (induction rs) (auto simp: delete_by_def)

lemma delete_by_absent: "lookup_by key k rs = None \<Longrightarrow> delete_by key k rs = rs"
  by (induction rs) (auto simp: delete_by_def split: if_splits)

lemma distinct_delete_by: "distinct (map key rs) \<Longrightarrow> distinct (map key (delete_by key k rs))"
  by (simp add: delete_by_def distinct_map_filter)

lemma set_delete_by: "set (delete_by key k rs) = {r \<in> set rs. key r \<noteq> k}"
  by (auto simp: delete_by_def)

end
