(* ===== verification/Timestamps.thy ===== *)
theory Timestamps
  imports Prelude
begin

text \<open>
  Timestamps as the database keeps them (\<open>formatTime\<close> and \<open>parseTimestamps\<close> of
  \<open>internal/server/database/database.go\<close>): a UTC instant written with the layout
  \<open>time.RFC3339Nano\<close>, which drops trailing zeros of the fraction and the whole fraction when it is
  zero. The text is what the \<open>ORDER BY created_at\<close> of the repository compares.

  A time is its UTC calendar reading. \<open>general\<close> stands for the part of \<open>time.Parse\<close> behind the fast
  path for RFC 3339 text in UTC (numeric zone offsets, the layout-driven parser).
\<close>

record utc =
  year :: nat
  month :: nat
  day :: nat
  hour :: nat
  minute :: nat
  second :: nat
  nanos :: nat

text \<open>The zero \<open>time.Time\<close>.\<close>

definition zero_time :: utc where
  "zero_time = \<lparr>year = 1, month = 1, day = 1, hour = 0, minute = 0, second = 0, nanos = 0\<rparr>"

definition is_leap :: "nat \<Rightarrow> bool" where
  "is_leap y = (y mod 4 = 0 \<and> (y mod 100 \<noteq> 0 \<or> y mod 400 = 0))"

definition days_in :: "nat \<Rightarrow> nat \<Rightarrow> nat" where
  "days_in m y =
     (if m = 2 then (if is_leap y then 29 else 28)
      else if m \<in> {4, 6, 9, 11} then 30 else 31)"

definition valid_utc :: "utc \<Rightarrow> bool" where
  "valid_utc t \<longleftrightarrow>
     year t \<le> 9999 \<and> 1 \<le> month t \<and> month t \<le> 12 \<and>
     1 \<le> day t \<and> day t \<le> days_in (month t) (year t) \<and>
     hour t \<le> 23 \<and> minute t \<le> 59 \<and> second t \<le> 59 \<and> nanos t < 1000000000"

section \<open>Fixed-width decimals\<close>

primrec pad :: "nat \<Rightarrow> nat \<Rightarrow> string" where
  "pad 0 n = []"
| "pad (Suc w) n = pad w (n div 10) @ [digit_char (n mod 10)]"

definition is_digit :: "char \<Rightarrow> bool" where
  "is_digit c = (48 \<le> (of_char c :: nat) \<and> (of_char c :: nat) \<le> 57)"

definition digit_val :: "char \<Rightarrow> nat" where
  "digit_val c = (of_char c :: nat) - 48"

definition dec_val :: "string \<Rightarrow> nat" where
  "dec_val s = foldl (\<lambda>n c. 10 * n + digit_val c) 0 s"

text \<open>\<open>parseUint(s, min, max)\<close> of the standard library's RFC 3339 parser: digits only, in range.\<close>

definition parse_uint :: "string \<Rightarrow> nat \<Rightarrow> nat \<Rightarrow> nat option" where
  "parse_uint s lo hi =
     (if list_all is_digit s \<and> lo \<le> dec_val s \<and> dec_val s \<le> hi then Some (dec_val s) else None)"

section \<open>Writing\<close>

definition drop_zeros :: "string \<Rightarrow> string" where
  "drop_zeros s = rev (dropWhile (\<lambda>c. c = CHR ''0'') (rev s))"

definition format_fraction :: "nat \<Rightarrow> string" where
  "format_fraction ns =
     (let f = drop_zeros (pad 9 ns) in if f = [] then [] else CHR ''.'' # f)"

definition format_seconds :: "utc \<Rightarrow> string" where
  "format_seconds t =
     pad 4 (year t) @ ''-'' @ pad 2 (month t) @ ''-'' @ pad 2 (day t) @ ''T'' @
     pad 2 (hour t) @ '':'' @ pad 2 (minute t) @ '':'' @ pad 2 (second t)"

text \<open>\<open>t.UTC().Format(time.RFC3339Nano)\<close>\<close>

definition formatTime :: "utc \<Rightarrow> string" where
  "formatTime t = format_seconds t @ format_fraction (nanos t) @ ''Z''"

section \<open>Reading\<close>

definition parse_fraction :: "string \<Rightarrow> nat \<times> string" where
  "parse_fraction s =
     (case s of CHR ''.'' # c # cs \<Rightarrow>
        (if is_digit c
         then (let ds = takeWhile is_digit (c # cs); ds9 = take 9 ds
               in (dec_val ds9 * 10 ^ (9 - length ds9), drop (length ds) (c # cs)))
         else (0, s))
      | _ \<Rightarrow> (0, s))"

definition parse_rfc3339 :: "string \<Rightarrow> utc option" where
  "parse_rfc3339 s =
     (if length s < 19 then None
      else case (parse_uint (take 4 s) 0 9999, parse_uint (take 2 (drop 5 s)) 1 12) of
        (Some y, Some mo) \<Rightarrow>
          (case (parse_uint (take 2 (drop 8 s)) 1 (days_in mo y), parse_uint (take 2 (drop 11 s)) 0 23,
                 parse_uint (take 2 (drop 14 s)) 0 59, parse_uint (take 2 (drop 17 s)) 0 59) of
            (Some d, Some h, Some mi, Some sec) \<Rightarrow>
              (if s ! 4 = CHR ''-'' \<and> s ! 7 = CHR ''-'' \<and> s ! 10 = CHR ''T'' \<and>
                  s ! 13 = CHR '':'' \<and> s ! 16 = CHR '':''
               then (let (ns, rest) = parse_fraction (drop 19 s) in
                 if rest = ''Z''
                 then Some \<lparr>year = y, month = mo, day = d, hour = h, minute = mi, second = sec,
                            nanos = ns\<rparr>
                 else None)
               else None)
          | _ \<Rightarrow> None)
      | _ \<Rightarrow> None)"

definition time_Parse :: "(string \<Rightarrow> go_error + utc) \<Rightarrow> string \<Rightarrow> go_error + utc" where
  "time_Parse general s = (case parse_rfc3339 s of Some t \<Rightarrow> Inr t | None \<Rightarrow> general s)"

definition parseTimestamps ::
  "(string \<Rightarrow> go_error + utc) \<Rightarrow> string \<Rightarrow> string \<Rightarrow> go_error + (utc \<times> utc)" where
  "parseTimestamps general createdAt updatedAt =
     (case time_Parse general createdAt of
        Inl e \<Rightarrow> Inl (Errorf ''failed to parse created_at: '' e [])
      | Inr created \<Rightarrow>
        (case time_Parse general updatedAt of
           Inl e \<Rightarrow> Inl (Errorf ''failed to parse updated_at: '' e [])
         | Inr updated \<Rightarrow> Inr (created, updated)))"

section \<open>Decimals round-trip\<close>

lemma pad_numeral: "pad (numeral k) n = pad (pred_numeral k) (n div 10) @ [digit_char (n mod 10)]"
  by (simp only: numeral_eq_Suc [of k] pad.simps)

lemma digit_char_props [simp]:
  assumes "d < 10"
  shows "is_digit (digit_char d)" "digit_val (digit_char d) = d"
  using assms by (simp_all add: is_digit_def digit_val_def)

lemma length_pad [simp]: "length (pad w n) = w"
  by (induction w arbitrary: n) auto

lemma digits_pad [simp]: "list_all is_digit (pad w n)"
  by (induction w arbitrary: n) auto

lemma dec_val_snoc [simp]: "dec_val (s @ [c]) = 10 * dec_val s + digit_val c"
  by (simp add: dec_val_def)

lemma dec_val_Nil [simp]: "dec_val [] = 0"
  by (simp add: dec_val_def)

lemma dec_val_pad: "dec_val (pad w n) = n mod 10 ^ w"
proof (induction w arbitrary: n)
  case (Suc w)
  have "10 * (n div 10 mod 10 ^ w) + n mod 10 = n mod (10 * 10 ^ w)"
    by (simp add: mod_mult2_eq)
  with Suc show ?case by simp
qed simp

lemma parse_uint_pad: "lo \<le> n \<Longrightarrow> n \<le> hi \<Longrightarrow> n < 10 ^ w \<Longrightarrow> parse_uint (pad w n) lo hi = Some n"
  by (simp add: parse_uint_def dec_val_pad)

lemma dec_val_zeros: "dec_val (s @ replicate k (CHR ''0'')) = dec_val s * 10 ^ k"
proof (induction k)
  case (Suc k)
  have "dec_val (s @ replicate (Suc k) (CHR ''0'')) = dec_val ((s @ replicate k (CHR ''0'')) @ [CHR ''0''])"
    by (simp add: replicate_append_same)
  also have "\<dots> = 10 * dec_val (s @ replicate k (CHR ''0''))"
    by (simp only: dec_val_snoc) (simp add: digit_val_def)
  finally show ?case using Suc by simp
qed simp

lemma drop_zeros_split: "\<exists>k. s = drop_zeros s @ replicate k (CHR ''0'')"
proof -
  let ?z = "\<lambda>c. c = CHR ''0''"
  have "takeWhile ?z (rev s) = replicate (length (takeWhile ?z (rev s))) (CHR ''0'')"
    by (rule replicate_length_same [symmetric]) (auto dest: set_takeWhileD)
  then have k: "\<exists>k. takeWhile ?z (rev s) = replicate k (CHR ''0'')" ..
  have "rev (rev s) = rev (dropWhile ?z (rev s)) @ rev (takeWhile ?z (rev s))"
    unfolding rev_append [symmetric] by simp
  with k show ?thesis by (auto simp: drop_zeros_def)
qed

lemma pad_zero: "pad w 0 = replicate w (CHR ''0'')"
  by (induction w) (simp_all add: digit_char_def replicate_append_same)

section \<open>The text of a time reads back to it\<close>

lemma drop_zeros_Nil: "drop_zeros (pad 9 n) = [] \<Longrightarrow> n < 10 ^ 9 \<Longrightarrow> n = 0"
proof -
  assume d: "drop_zeros (pad 9 n) = []" and n: "n < 10 ^ 9"
  obtain k where "pad 9 n = drop_zeros (pad 9 n) @ replicate k (CHR ''0'')"
    using drop_zeros_split by blast
  with d have "dec_val (pad 9 n) = 0" using dec_val_zeros [of "[]" k] by simp
  with n show "n = 0" by (simp add: dec_val_pad)
qed

lemma drop_zeros_value:
  assumes "n < 10 ^ 9"
  shows "dec_val (drop_zeros (pad 9 n)) * 10 ^ (9 - length (drop_zeros (pad 9 n))) = n"
    and "length (drop_zeros (pad 9 n)) \<le> 9"
    and "list_all is_digit (drop_zeros (pad 9 n))"
proof -
  obtain k where k: "pad 9 n = drop_zeros (pad 9 n) @ replicate k (CHR ''0'')"
    using drop_zeros_split by blast
  then have len: "9 = length (drop_zeros (pad 9 n)) + k"
    by (metis length_append length_pad length_replicate)
  from k have "dec_val (drop_zeros (pad 9 n)) * 10 ^ k = n"
    using dec_val_zeros [of "drop_zeros (pad 9 n)" k] assms by (simp add: dec_val_pad)
  with len show "dec_val (drop_zeros (pad 9 n)) * 10 ^ (9 - length (drop_zeros (pad 9 n))) = n"
    by (metis add_diff_cancel_left')
  show "length (drop_zeros (pad 9 n)) \<le> 9" using len by linarith
  show "list_all is_digit (drop_zeros (pad 9 n))"
    using digits_pad [of 9 n] k by (metis list_all_append)
qed

lemma parse_fraction_format:
  assumes "n < 10 ^ 9"
  shows "parse_fraction (format_fraction n @ ''Z'') = (n, ''Z'')"
proof (cases "drop_zeros (pad 9 n)")
  case Nil
  with drop_zeros_Nil assms have "n = 0" by blast
  with Nil show ?thesis by (simp add: format_fraction_def parse_fraction_def)
next
  case (Cons c cs)
  note v = drop_zeros_value [OF assms, unfolded Cons]
  have z: "\<not> is_digit (CHR ''Z'')" by (simp add: is_digit_def)
  have tw: "takeWhile is_digit (c # cs @ ''Z'') = c # cs"
    using v(3) z by (simp add: takeWhile_append list_all_iff)
  have c: "is_digit c" using v(3) by simp
  have "format_fraction n @ ''Z'' = CHR ''.'' # c # (cs @ ''Z'')"
    using Cons by (simp add: format_fraction_def)
  with c tw v(1,2) show ?thesis by (simp add: parse_fraction_def Let_def)
qed

lemma length_format_seconds [simp]: "length (format_seconds t) = 19"
  by (simp add: format_seconds_def)

lemma days_in_bound: "days_in m y \<le> 31"
  by (simp add: days_in_def)

lemma parse_rfc3339_formatTime:
  assumes "valid_utc t"
  shows "parse_rfc3339 (formatTime t) = Some t"
proof -
  let ?tail = "format_fraction (nanos t) @ ''Z''"
  have fields:
    "take 4 (formatTime t) = pad 4 (year t)" "take 2 (drop 5 (formatTime t)) = pad 2 (month t)"
    "take 2 (drop 8 (formatTime t)) = pad 2 (day t)" "take 2 (drop 11 (formatTime t)) = pad 2 (hour t)"
    "take 2 (drop 14 (formatTime t)) = pad 2 (minute t)" "take 2 (drop 17 (formatTime t)) = pad 2 (second t)"
    "drop 19 (formatTime t) = ?tail" "\<not> length (formatTime t) < 19"
    by (simp_all add: formatTime_def format_seconds_def)
  have seps: "formatTime t ! 4 = CHR ''-''" "formatTime t ! 7 = CHR ''-''" "formatTime t ! 10 = CHR ''T''"
    "formatTime t ! 13 = CHR '':''" "formatTime t ! 16 = CHR '':''"
    by (simp_all add: formatTime_def format_seconds_def nth_append)
  have v: "year t \<le> 9999" "1 \<le> month t" "month t \<le> 12" "1 \<le> day t"
    "day t \<le> days_in (month t) (year t)" "hour t \<le> 23" "minute t \<le> 59" "second t \<le> 59"
    "nanos t < 10 ^ 9"
    using assms by (simp_all add: valid_utc_def)
  have "day t < 10 ^ 2" using v(5) days_in_bound [of "month t" "year t"] by simp
  then show ?thesis
    unfolding parse_rfc3339_def fields
    using v seps fields(8) by (simp add: parse_uint_pad parse_fraction_format)
qed

lemma time_Parse_formatTime: "valid_utc t \<Longrightarrow> time_Parse general (formatTime t) = Inr t"
  by (simp add: time_Parse_def parse_rfc3339_formatTime)

lemma parseTimestamps_formatTime:
  "valid_utc c \<Longrightarrow> valid_utc u \<Longrightarrow> parseTimestamps general (formatTime c) (formatTime u) = Inr (c, u)"
  by (simp add: parseTimestamps_def time_Parse_formatTime)

section \<open>The order of the text\<close>

text \<open>The order of instants, as the order of their calendar readings; \<open>seconds_stamp\<close> leaves the
  fraction out.\<close>

definition seconds_stamp :: "utc \<Rightarrow> nat list" where
  "seconds_stamp t = [year t, month t, day t, hour t, minute t, second t]"

definition earlier :: "utc \<Rightarrow> utc \<Rightarrow> bool" where
  "earlier a b \<longleftrightarrow> seconds_stamp a < seconds_stamp b \<or>
     seconds_stamp a = seconds_stamp b \<and> nanos a < nanos b"

lemma append_less_iff:
  fixes xs ys us vs :: "'a::linorder list"
  shows "length xs = length ys \<Longrightarrow> xs @ us < ys @ vs \<longleftrightarrow> xs < ys \<or> xs = ys \<and> us < vs"
  by (induction xs ys rule: list_induct2) auto

lemma pad_eq_iff: "m < 10 ^ w \<Longrightarrow> n < 10 ^ w \<Longrightarrow> pad w m = pad w n \<longleftrightarrow> m = n"
  by (metis dec_val_pad mod_less)

lemma digit_char_less: "d < 10 \<Longrightarrow> e < 10 \<Longrightarrow> digit_char d < digit_char e \<longleftrightarrow> d < e"
  by (simp add: less_char_def)

lemma pad_less_iff: "m < 10 ^ w \<Longrightarrow> n < 10 ^ w \<Longrightarrow> pad w m < pad w n \<longleftrightarrow> m < n"
proof (induction w arbitrary: m n)
  case (Suc w)
  have "m div 10 < 10 ^ w" "n div 10 < 10 ^ w" using Suc.prems by auto
  with Suc.IH pad_eq_iff have "pad (Suc w) m < pad (Suc w) n \<longleftrightarrow>
    m div 10 < n div 10 \<or> m div 10 = n div 10 \<and> m mod 10 < n mod 10"
    by (simp add: append_less_iff digit_char_less)
  also have "\<dots> \<longleftrightarrow> m < n"
  proof -
    have "m = 10 * (m div 10) + m mod 10" "n = 10 * (n div 10) + n mod 10"
      "m mod 10 < 10" "n mod 10 < 10" by simp_all
    then show ?thesis by linarith
  qed
  finally show ?case .
qed simp

lemma format_seconds_less:
  assumes "valid_utc a" "valid_utc b"
  shows "format_seconds a < format_seconds b \<longleftrightarrow> seconds_stamp a < seconds_stamp b"
    and "format_seconds a = format_seconds b \<longleftrightarrow> seconds_stamp a = seconds_stamp b"
proof -
  have "day a < 10 ^ 2" "day b < 10 ^ 2"
    using assms days_in_bound [of "month a" "year a"] days_in_bound [of "month b" "year b"]
    by (auto simp: valid_utc_def)
  moreover have "year a < 10 ^ 4" "month a < 10 ^ 2" "hour a < 10 ^ 2" "minute a < 10 ^ 2" "second a < 10 ^ 2"
    "year b < 10 ^ 4" "month b < 10 ^ 2" "hour b < 10 ^ 2" "minute b < 10 ^ 2" "second b < 10 ^ 2"
    using assms by (auto simp: valid_utc_def)
  ultimately show "format_seconds a < format_seconds b \<longleftrightarrow> seconds_stamp a < seconds_stamp b"
    "format_seconds a = format_seconds b \<longleftrightarrow> seconds_stamp a = seconds_stamp b"
    by (auto simp: format_seconds_def seconds_stamp_def append_less_iff pad_less_iff pad_eq_iff)
qed

text \<open>Times in different seconds are ordered as their text is.\<close>

lemma formatTime_less_seconds:
  assumes "valid_utc a" "valid_utc b" "seconds_stamp a < seconds_stamp b"
  shows "formatTime a < formatTime b"
  using assms by (simp add: formatTime_def append_less_iff format_seconds_less)

text \<open>Within one second they are not: a whole second sorts after every later instant of it,
  since its text goes on with \<open>Z\<close> where the others go on with a dot.\<close>

lemma formatTime_whole_second:
  assumes "valid_utc a" "nanos a = 0" "0 < n" "n < 10 ^ 9"
  shows "formatTime (a\<lparr>nanos := n\<rparr>) < formatTime a"
proof -
  have "format_seconds (a\<lparr>nanos := n\<rparr>) = format_seconds a" by (simp add: format_seconds_def)
  moreover have "drop_zeros (pad 9 n) \<noteq> []" using drop_zeros_Nil assms by force
  moreover have "format_fraction 0 = []"
    by (simp add: format_fraction_def drop_zeros_def pad_zero Let_def)
  moreover have "CHR ''.'' < CHR ''Z''" by (simp add: less_char_def)
  ultimately show ?thesis
    using assms by (simp add: formatTime_def append_less_iff format_fraction_def [of n] Let_def)
qed

section \<open>Decimal notation read back\<close>

lemma nat_dec_digits: "list_all is_digit (nat_dec n) \<and> nat_dec n \<noteq> []"
proof (induction n rule: nat_dec.induct)
  case (1 n)
  then show ?case by (subst (1 2) nat_dec.simps) auto
qed

lemma nat_dec_head: "n > 0 \<Longrightarrow> hd (nat_dec n) \<noteq> CHR ''0''"
proof (induction n rule: nat_dec.induct)
  case (1 n)
  have "digit_char n \<noteq> CHR ''0''" if "n < 10"
    using less_10_cases [OF that] "1.prems" by (auto simp: digit_char_def)
  with 1 nat_dec_digits [of "n div 10"] show ?case by (subst nat_dec.simps) (auto simp: hd_append)
qed

lemma dec_val_nat_dec: "dec_val (nat_dec n) = n"
proof (induction n rule: nat_dec.induct)
  case (1 n)
  have "dec_val [digit_char n] = n" if "n < 10" using that dec_val_snoc [of "[]" "digit_char n"] by simp
  with 1 show ?case by (subst nat_dec.simps) auto
qed

lemma digit_char_val:
  assumes "is_digit c"
  shows "digit_val c < 10" "digit_char (digit_val c) = c"
proof -
  show d: "digit_val c < 10" using assms by (auto simp: digit_val_def is_digit_def)
  have "(of_char (digit_char (digit_val c)) :: nat) = of_char c"
    using assms by (simp add: of_char_digit_char [OF d]) (simp add: digit_val_def is_digit_def)
  then show "digit_char (digit_val c) = c" by simp
qed

lemma digit_val_zero: "is_digit c \<Longrightarrow> digit_val c = 0 \<Longrightarrow> c = CHR ''0''"
  using digit_char_val(2) [of c] by (simp add: digit_char_def)

lemma dec_val_pos: "list_all is_digit s \<Longrightarrow> s \<noteq> [] \<Longrightarrow> hd s \<noteq> CHR ''0'' \<Longrightarrow> 0 < dec_val s"
proof (induction s rule: rev_induct)
  case (snoc c s)
  then show ?case using digit_val_zero [of c] dec_val_snoc [of "[]" c] by (cases "s = []") auto
qed simp

lemma nat_dec_dec_val:
  "list_all is_digit s \<Longrightarrow> s \<noteq> [] \<Longrightarrow> length s = 1 \<or> hd s \<noteq> CHR ''0'' \<Longrightarrow> nat_dec (dec_val s) = s"
proof (induction s rule: rev_induct)
  case (snoc c s)
  then have c: "is_digit c" by simp
  show ?case
  proof (cases "s = []")
    case True
    then show ?thesis
      using digit_char_val [OF c] dec_val_snoc [of "[]" c] by (simp add: nat_dec.simps)
  next
    case False
    then have "hd s \<noteq> CHR ''0''" using snoc.prems by auto
    then have "0 < dec_val s" "nat_dec (dec_val s) = s" using snoc False dec_val_pos by auto
    then show ?thesis using digit_char_val [OF c] by (subst nat_dec.simps) simp
  qed
qed simp

end
