(* ===== verification/InfoHash.thy ===== *)
theory InfoHash
  imports Prelude
begin

text \<open>
  The info hash type \<open>infohash.T\<close> (also \<open>metainfo.Hash\<close>) of
  \<open>licenses/github.com/anacrolix/torrent/types/infohash/infohash.go\<close>: a 20-byte array, written
  as 40 lower-case hex digits and read from hex digits of either case. The server keys its
  rows and cache by the written form and the torrent client by the bytes.
\<close>

type_synonym hash = "char list"

definition Size :: nat where
  "Size = 20"

definition wf_hash :: "hash \<Rightarrow> bool" where
  "wf_hash h = (length h = Size)"

section \<open>Hexadecimal\<close>

definition hex_char :: "nat \<Rightarrow> char" where
  "hex_char d = (if d < 10 then char_of (48 + d) else char_of (87 + d))"

text \<open>\<open>hex.fromHexChar\<close>: the value of a digit of either case.\<close>

definition hex_val :: "char \<Rightarrow> nat option" where
  "hex_val c =
     (let n = (of_char c :: nat) in
      if 48 \<le> n \<and> n \<le> 57 then Some (n - 48)
      else if 97 \<le> n \<and> n \<le> 102 then Some (n - 87)
      else if 65 \<le> n \<and> n \<le> 70 then Some (n - 55)
      else None)"

definition hex_byte :: "char \<Rightarrow> string" where
  "hex_byte b = [hex_char (of_char b div 16), hex_char (of_char b mod 16)]"

text \<open>\<open>hex.Decode\<close> on the whole input: \<open>Inl\<close> when a byte is no digit or the length is odd.\<close>

fun hex_decode :: "string \<Rightarrow> go_error + char list" where
  "hex_decode [] = Inr []"
| "hex_decode [c] =
     (if hex_val c = None then Inl (ErrorString ''encoding/hex: invalid byte'')
      else Inl (ErrorString ''encoding/hex: odd length hex string''))"
| "hex_decode (c # d # cs) =
     (case hex_val c of None \<Rightarrow> Inl (ErrorString ''encoding/hex: invalid byte'')
      | Some x \<Rightarrow>
        (case hex_val d of None \<Rightarrow> Inl (ErrorString ''encoding/hex: invalid byte'')
         | Some y \<Rightarrow> map_sum id (\<lambda>bs. char_of (16 * x + y) # bs) (hex_decode cs)))"

section \<open>The operations of the type\<close>

definition HexString :: "hash \<Rightarrow> string" where
  "HexString t = concat (map hex_byte t)"

definition FromHexString :: "string \<Rightarrow> go_error + hash" where
  "FromHexString s =
     (if length s \<noteq> 2 * Size
      then Inl (ErrorString (''hash hex string has bad length: '' @ nat_dec (length s)))
      else hex_decode s)"

definition IsZero :: "hash \<Rightarrow> bool" where
  "IsZero t = (t = replicate Size (CHR 0x00))"

text \<open>\<open>bytes.Compare\<close>: -1, 0 or 1 by the lexicographic order of the bytes.\<close>

definition hash_Compare :: "hash \<Rightarrow> hash \<Rightarrow> int" where
  "hash_Compare l r = (if l < r then -1 else if l = r then 0 else 1)"

section \<open>The two forms determine each other\<close>

lemma of_char_less_256 [simp]: "(of_char c :: nat) < 256"
  by (metis of_char_mod_256 mod_less_divisor zero_less_numeral)

lemma char_of_nat_of_char [simp]: "char_of (of_char c :: nat) = c"
  by simp

lemma of_char_char_of_small: "n < 256 \<Longrightarrow> (of_char (char_of n) :: nat) = n"
  by simp

lemma hex_val_hex_char [simp]: "d < 16 \<Longrightarrow> hex_val (hex_char d) = Some d"
  by (auto simp: hex_val_def hex_char_def Let_def)

lemma hex_val_bound: "hex_val c = Some x \<Longrightarrow> x < 16"
  by (auto simp: hex_val_def Let_def split: if_splits)

lemma hex_char_hex_val: "hex_val c = Some x \<Longrightarrow> hex_char x = ascii_lower c"
  by (auto simp: hex_val_def hex_char_def ascii_lower_def Let_def split: if_splits)

lemma hex_byte_decode [simp]:
  "hex_decode (hex_byte b @ cs) = map_sum id (\<lambda>bs. b # bs) (hex_decode cs)"
proof -
  have "16 * (of_char b div 16) + of_char b mod 16 = (of_char b :: nat)" by simp
  moreover have "of_char b div 16 < (16 :: nat)"
    using of_char_less_256 [of b] by linarith
  ultimately show ?thesis by (simp add: hex_byte_def)
qed

lemma hex_decode_HexString: "hex_decode (HexString t) = Inr t"
  by (induction t) (auto simp: HexString_def)

lemma length_HexString [simp]: "length (HexString t) = 2 * length t"
  by (induction t) (auto simp: HexString_def hex_byte_def)

lemma HexString_inject [simp]: "HexString s = HexString t \<longleftrightarrow> s = t"
  by (metis hex_decode_HexString sum.inject(2))

lemma hex_decode_length: "hex_decode s = Inr bs \<Longrightarrow> length s = 2 * length bs"
  by (induction s arbitrary: bs rule: hex_decode.induct) (auto split: if_splits option.splits)

lemma hex_byte_char_of:
  assumes "hex_val c = Some x" "hex_val d = Some y"
  shows "hex_byte (char_of (16 * x + y)) = [ascii_lower c, ascii_lower d]"
proof -
  have "x < 16" "y < 16" using assms by (auto dest: hex_val_bound)
  then show ?thesis using assms by (simp add: hex_byte_def hex_char_hex_val)
qed

lemma HexString_hex_decode: "hex_decode s = Inr bs \<Longrightarrow> HexString bs = to_lower s"
proof (induction s arbitrary: bs rule: hex_decode.induct)
  case (3 c d cs)
  then obtain x y zs where "hex_val c = Some x" "hex_val d = Some y"
    "hex_decode cs = Inr zs" "bs = char_of (16 * x + y) # zs"
    by (auto split: option.splits)
  with "3.IH" show ?case
    by (simp add: HexString_def to_lower_def hex_byte_char_of)
qed (auto simp: HexString_def to_lower_def split: if_splits)

lemma FromHexString_HexString: "wf_hash t \<Longrightarrow> FromHexString (HexString t) = Inr t"
  by (simp add: FromHexString_def wf_hash_def hex_decode_HexString)

lemma FromHexString_wf: "FromHexString s = Inr t \<Longrightarrow> wf_hash t"
  by (auto simp: FromHexString_def wf_hash_def split: if_splits dest: hex_decode_length)

lemma FromHexString_lower: "FromHexString s = Inr t \<Longrightarrow> HexString t = to_lower s"
  by (auto simp: FromHexString_def HexString_hex_decode split: if_splits)

text \<open>A refused string is reported by a plain error, never by a sentinel.\<close>

lemma hex_decode_err: "hex_decode s = Inl e \<Longrightarrow> \<not> errors_is e x"
  by (induction s rule: hex_decode.induct) (auto split: if_splits option.splits)

lemma FromHexString_err: "FromHexString s = Inl e \<Longrightarrow> \<not> errors_is e x"
  by (auto simp: FromHexString_def hex_decode_err split: if_splits)

text \<open>Which strings name a hash: exactly those of 40 hex digits.\<close>

lemma hex_decode_Inr_iff:
  "(\<exists>bs. hex_decode s = Inr bs) \<longleftrightarrow> even (length s) \<and> (\<forall>c \<in> set s. hex_val c \<noteq> None)"
  by (induction s rule: hex_decode.induct) (auto split: option.splits)

lemma FromHexString_Inr_iff:
  "(\<exists>t. FromHexString s = Inr t) \<longleftrightarrow> length s = 40 \<and> (\<forall>c \<in> set s. hex_val c \<noteq> None)"
  by (auto simp: FromHexString_def Size_def hex_decode_Inr_iff)

text \<open>The written form of a hash is a fixed point of lower-casing, so the canonical
  spelling is the only one that reads back to itself.\<close>

lemma to_lower_HexString [simp]: "to_lower (HexString t) = HexString t"
  using HexString_hex_decode [OF hex_decode_HexString] by simp

lemma canonical_spelling:
  "FromHexString s = Inr t \<Longrightarrow> HexString t = s \<longleftrightarrow> to_lower s = s"
  using FromHexString_lower by auto

lemma hash_Compare_range: "hash_Compare l r \<in> {-1, 0, 1}"
  by (simp add: hash_Compare_def)

lemma hash_Compare_zero: "hash_Compare l r = 0 \<longleftrightarrow> l = r"
  by (simp add: hash_Compare_def)

lemma hash_Compare_antisym: "hash_Compare l r = - hash_Compare r l"
  by (auto simp: hash_Compare_def)

end
