(* ===== verification/Database.thy ===== *)
theory Database
  imports Timestamps InfoHash
begin

text \<open>
  The SQLite database behind the two repositories: the tables the migrations of
  \<open>internal/server/database/migrations\<close> create, the SQL statements the repositories issue on
  them, and the driver and clock around them (\<open>internal/server/database/database.go\<close>).

  SQLite and its driver are not part of the repository. What the code relies on is the
  meaning of its own SQL text on the two tables, which is written out here, and that any call
  may fail: \<open>fault n\<close> is what the driver reports at the \<open>n\<close>-th interaction (\<open>None\<close>: it works). \<open>now_at n\<close> is
  the wall clock then. Every theorem holds for every such schedule unless it says otherwise.
\<close>

section \<open>Tables and world\<close>

text \<open>Columns of \<open>torrent\<close> (migrations 1 and 2) and of \<open>piece_completion\<close> (migration 3).\<close>

record torrent_row =
  info_hash :: string
  magnet :: string
  label :: string
  target_dir :: string
  is_paused :: bool
  name :: string
  length' :: int
  bytes_completed :: int
  created_at :: string
  updated_at :: string

record piece_row =
  p_info_hash :: string
  piece_index :: int
  complete :: bool

record sql_world =
  tick :: nat
  fault :: "nat \<Rightarrow> string option"
  now_at :: "nat \<Rightarrow> utc"
  parse_general :: "string \<Rightarrow> go_error + utc"
  torrent_tbl :: "torrent_row list"
  piece_tbl :: "piece_row list"

text \<open>\<open>time.Now()\<close> read through the clock of the world.\<close>

definition time_Now :: "'a sql_world_scheme \<Rightarrow> utc" where
  "time_Now w = now_at w (tick w)"

section \<open>The driver\<close>

definition tock :: "'a sql_world_scheme \<Rightarrow> 'a sql_world_scheme" where
  "tock w = w\<lparr>tick := Suc (tick w)\<rparr>"

text \<open>A call fails when its context is done or when the driver reports a fault.\<close>

definition driver_error :: "ctx \<Rightarrow> 'a sql_world_scheme \<Rightarrow> go_error option" where
  "driver_error c w =
     (if ctx_done c (tick w) then Some (Sentinel ContextCanceled)
      else map_option DriverError (fault w (tick w)))"

text \<open>A statement yields a constraint violation or the number of rows it affected.\<close>

type_synonym 'a stmt = "'a sql_world_scheme \<Rightarrow> (go_error + nat) \<times> 'a sql_world_scheme"

definition ExecContext :: "ctx \<Rightarrow> 'a stmt \<Rightarrow> 'a sql_world_scheme \<Rightarrow> nat res \<times> 'a sql_world_scheme" where
  "ExecContext c stmt w =
     (case driver_error c w of
        Some e \<Rightarrow> (Err e, tock w)
      | None \<Rightarrow>
        (case stmt w of
           (Inl e, w') \<Rightarrow> (Err e, tock w')
         | (Inr n, w') \<Rightarrow> (Ok n, tock w')))"

definition RowsAffected :: "nat \<Rightarrow> 'a sql_world_scheme \<Rightarrow> nat res \<times> 'a sql_world_scheme" where
  "RowsAffected n w =
     (case fault w (tick w) of
        Some m \<Rightarrow> (Err (DriverError m), tock w)
      | None \<Rightarrow> (Ok n, tock w))"

text \<open>A query for one row, scanned: \<open>sql.ErrNoRows\<close> when there is none.\<close>

definition QueryRow ::
  "ctx \<Rightarrow> ('a sql_world_scheme \<Rightarrow> 'r option) \<Rightarrow> 'a sql_world_scheme \<Rightarrow> 'r res \<times> 'a sql_world_scheme" where
  "QueryRow c q w =
     (case driver_error c w of
        Some e \<Rightarrow> (Err e, tock w)
      | None \<Rightarrow> ((case q w of None \<Rightarrow> Err (Sentinel SqlNoRows) | Some r \<Rightarrow> Ok r), tock w))"

definition QueryContext ::
  "ctx \<Rightarrow> ('a sql_world_scheme \<Rightarrow> 'r list) \<Rightarrow> 'a sql_world_scheme \<Rightarrow> 'r list res \<times> 'a sql_world_scheme" where
  "QueryContext c q w =
     (case driver_error c w of
        Some e \<Rightarrow> (Err e, tock w)
      | None \<Rightarrow> (Ok (q w), tock w))"

text \<open>The loop \<open>for rows.Next() { rows.Scan(...); body }\<close> over a cursor. \<open>rows.Next\<close> stops early when the
  cursor fails, which the caller sees in \<open>rows.Err\<close>, the second part of the result; a failing
  \<open>Scan\<close> or body returns at once.\<close>

fun scan_rows ::
  "ctx \<Rightarrow> string \<Rightarrow> ('r \<Rightarrow> go_error + 'x) \<Rightarrow> 'r list \<Rightarrow> 'x list \<Rightarrow> 'a sql_world_scheme \<Rightarrow>
   ('x list \<times> go_error option) res \<times> 'a sql_world_scheme" where
  "scan_rows c msg body [] acc w = (Ok (rev acc, driver_error c w), tock w)"
| "scan_rows c msg body (r # rs) acc w =
     (case driver_error c w of
        Some e \<Rightarrow> (Ok (rev acc, Some e), tock w)
      | None \<Rightarrow>
        (let w1 = tock w in
         case fault w1 (tick w1) of
           Some m \<Rightarrow> (Err (Errorf msg (DriverError m) []), tock w1)
         | None \<Rightarrow>
           (case body r of
              Inl e \<Rightarrow> (Err e, tock w1)
            | Inr x \<Rightarrow> scan_rows c msg body rs (x # acc) (tock w1))))"

section \<open>Constraint violations\<close>

definition sqliteConstraintPrimaryKey :: int where
  "sqliteConstraintPrimaryKey = 1555"

definition sqliteConstraintUnique :: int where
  "sqliteConstraintUnique = 2067"

definition IsUniqueError :: "go_error \<Rightarrow> bool" where
  "IsUniqueError err =
     (case as_sqlite err of
        None \<Rightarrow> False
      | Some code \<Rightarrow> code = sqliteConstraintPrimaryKey \<or> code = sqliteConstraintUnique)"

section \<open>The statements\<close>

text \<open>\<open>INSERT INTO torrent\<close>: the primary key is \<open>info_hash\<close>; the columns the statement does not name
  take their defaults.\<close>

definition insert_torrent :: "torrent_row \<Rightarrow> 'a stmt" where
  "insert_torrent r w =
     (if lookup_by info_hash (info_hash r) (torrent_tbl w) \<noteq> None
      then (Inl (SqliteError sqliteConstraintPrimaryKey
                   ''constraint failed: UNIQUE constraint failed: torrent.info_hash (1555)''), w)
      else (Inr 1, w\<lparr>torrent_tbl := torrent_tbl w @ [r]\<rparr>))"

text \<open>\<open>SELECT ... WHERE info_hash = ?\<close> and \<open>SELECT ... ORDER BY created_at ASC\<close>: text compares byte by
  byte, and the index on \<open>created_at\<close> keeps rows of equal text in insertion order.\<close>

definition select_torrent :: "string \<Rightarrow> 'a sql_world_scheme \<Rightarrow> torrent_row option" where
  "select_torrent h w = lookup_by info_hash h (torrent_tbl w)"

definition select_torrents :: "'a sql_world_scheme \<Rightarrow> torrent_row list" where
  "select_torrents w = sort_key created_at (torrent_tbl w)"

text \<open>\<open>UPDATE torrent SET ... WHERE info_hash = ?\<close>\<close>

definition update_torrent :: "string \<Rightarrow> (torrent_row \<Rightarrow> torrent_row) \<Rightarrow> 'a stmt" where
  "update_torrent h f w =
     (Inr (length (filter (\<lambda>r. info_hash r = h) (torrent_tbl w))),
      w\<lparr>torrent_tbl := update_by info_hash h f (torrent_tbl w)\<rparr>)"

text \<open>\<open>DELETE FROM torrent WHERE info_hash = ?\<close>, with the trigger \<open>piece_completion_cascade\<close>: for each
  deleted row it deletes the piece rows of the same \<open>info_hash\<close>.\<close>

definition delete_torrent :: "string \<Rightarrow> 'a stmt" where
  "delete_torrent h w =
     (let gone = filter (\<lambda>r. info_hash r = h) (torrent_tbl w) in
      (Inr (length gone),
       w\<lparr>torrent_tbl := delete_by info_hash h (torrent_tbl w),
         piece_tbl := foldl (\<lambda>ps r. delete_by p_info_hash (info_hash r) ps) (piece_tbl w) gone\<rparr>))"

text \<open>\<open>INSERT OR REPLACE INTO piece_completion\<close>; the primary key is \<open>(info_hash, piece_index)\<close>.\<close>

definition piece_pk :: "piece_row \<Rightarrow> string \<times> int" where
  "piece_pk r = (p_info_hash r, piece_index r)"

definition upsert_piece :: "piece_row \<Rightarrow> 'a stmt" where
  "upsert_piece r w =
     (Inr 1, w\<lparr>piece_tbl := delete_by piece_pk (piece_pk r) (piece_tbl w) @ [r]\<rparr>)"

definition select_pieces :: "'a sql_world_scheme \<Rightarrow> piece_row list" where
  "select_pieces w = piece_tbl w"

end
