(* ===== verification/TorrentRepo.thy ===== *)
theory TorrentRepo
  imports Database
begin

text \<open>
  \<open>TorrentRepository\<close> of \<open>internal/server/database/torrent.go\<close>: the seven operations on the table
  \<open>torrent\<close>, with every error branch, and what they promise their client: a map from info hash to
  torrent (\<open>rows\<close>) that \<open>Create\<close> extends, \<open>Delete\<close> shrinks and the three setters change at one
  key. The contract is the locale \<open>row_update\<close> for the setters and \<open>torrent_store\<close> for the whole
  repository; both are interpreted here on the operations.
\<close>

record db_torrent =
  db_InfoHash :: string
  db_Magnet :: string
  db_Label :: string
  db_TargetDir :: string
  db_Paused :: bool
  db_Name :: string
  db_Length :: int
  db_BytesCompleted :: int
  db_CreatedAt :: utc
  db_UpdatedAt :: utc

section \<open>Operations\<close>

definition Create :: "ctx \<Rightarrow> db_torrent \<Rightarrow> 'a sql_world_scheme \<Rightarrow> unit res \<times> 'a sql_world_scheme" where
  "Create c t w =
     (let now = formatTime (time_Now w) in
      call (ExecContext c (insert_torrent
              \<lparr>info_hash = db_InfoHash t, magnet = db_Magnet t, label = db_Label t,
               target_dir = db_TargetDir t, is_paused = False, name = '''', length' = 0,
               bytes_completed = 0, created_at = now, updated_at = now\<rparr>) w)
        (\<lambda>_ w. (Ok (), w))
        (\<lambda>err w.
           if IsUniqueError err then (Err (Sentinel DbTorrentAlreadyExists), w)
           else (Err (Errorf ''failed to insert torrent: '' err []), w)))"

text \<open>The scanned row as a \<open>Torrent\<close>.\<close>

definition row_torrent :: "(string \<Rightarrow> go_error + utc) \<Rightarrow> torrent_row \<Rightarrow> go_error + db_torrent" where
  "row_torrent general r =
     (case parseTimestamps general (created_at r) (updated_at r) of
        Inl e \<Rightarrow> Inl e
      | Inr (created, updated) \<Rightarrow>
          Inr \<lparr>db_InfoHash = info_hash r, db_Magnet = magnet r, db_Label = label r,
               db_TargetDir = target_dir r, db_Paused = is_paused r, db_Name = name r,
               db_Length = length' r, db_BytesCompleted = bytes_completed r,
               db_CreatedAt = created, db_UpdatedAt = updated\<rparr>)"

definition Get :: "ctx \<Rightarrow> string \<Rightarrow> 'a sql_world_scheme \<Rightarrow> db_torrent res \<times> 'a sql_world_scheme" where
  "Get c infoHash w =
     call (QueryRow c (select_torrent infoHash) w)
       (\<lambda>r w. case row_torrent (parse_general w) r of
                Inl err \<Rightarrow> (Err err, w)
              | Inr t \<Rightarrow> (Ok t, w))
       (\<lambda>err w.
          if errors_is err SqlNoRows then (Err (Sentinel DbTorrentNotFound), w)
          else (Err (Errorf ''failed to load torrent: '' err []), w))"

definition List :: "ctx \<Rightarrow> 'a sql_world_scheme \<Rightarrow> db_torrent list res \<times> 'a sql_world_scheme" where
  "List c w =
     call (QueryContext c select_torrents w)
       (\<lambda>rows w.
          call (scan_rows c ''failed to scan torrent: '' (row_torrent (parse_general w)) rows [] w)
            (\<lambda>(torrents, rows_Err) w.
               case rows_Err of None \<Rightarrow> (Ok torrents, w) | Some err \<Rightarrow> (Err err, w))
            (\<lambda>err w. (Err err, w)))
       (\<lambda>err w. (Err (Errorf ''failed to query torrents: '' err []), w))"

text \<open>The shape the four writing statements share: execute, read the number of affected rows,
  report a missing torrent when it is zero.\<close>

definition exec_one :: "string \<Rightarrow> ctx \<Rightarrow> 'a stmt \<Rightarrow> 'a sql_world_scheme \<Rightarrow> unit res \<times> 'a sql_world_scheme" where
  "exec_one msg c stmt w =
     call (ExecContext c stmt w)
       (\<lambda>result w.
          call (RowsAffected result w)
            (\<lambda>rows w. if rows = 0 then (Err (Sentinel DbTorrentNotFound), w) else (Ok (), w))
            (\<lambda>err w. (Err (Errorf ''failed to read affected rows: '' err []), w)))
       (\<lambda>err w. (Err (Errorf msg err []), w))"

definition Delete :: "ctx \<Rightarrow> string \<Rightarrow> 'a sql_world_scheme \<Rightarrow> unit res \<times> 'a sql_world_scheme" where
  "Delete c infoHash w = exec_one ''failed to delete torrent: '' c (delete_torrent infoHash) w"

definition SetMetadata ::
  "ctx \<Rightarrow> string \<Rightarrow> string \<Rightarrow> int \<Rightarrow> 'a sql_world_scheme \<Rightarrow> unit res \<times> 'a sql_world_scheme" where
  "SetMetadata c infoHash nm len w =
     (let now = formatTime (time_Now w) in
      exec_one ''failed to update torrent: '' c
        (update_torrent infoHash (\<lambda>r. r\<lparr>name := nm, length' := len, updated_at := now\<rparr>)) w)"

definition SetBytesCompleted ::
  "ctx \<Rightarrow> string \<Rightarrow> int \<Rightarrow> 'a sql_world_scheme \<Rightarrow> unit res \<times> 'a sql_world_scheme" where
  "SetBytesCompleted c infoHash bytesCompleted w =
     (let now = formatTime (time_Now w) in
      exec_one ''failed to update torrent: '' c
        (update_torrent infoHash (\<lambda>r. r\<lparr>bytes_completed := bytesCompleted, updated_at := now\<rparr>)) w)"

definition SetPaused ::
  "ctx \<Rightarrow> string \<Rightarrow> bool \<Rightarrow> 'a sql_world_scheme \<Rightarrow> unit res \<times> 'a sql_world_scheme" where
  "SetPaused c infoHash paused w =
     (let now = formatTime (time_Now w) in
      exec_one ''failed to update torrent: '' c
        (update_torrent infoHash (\<lambda>r. r\<lparr>is_paused := paused, updated_at := now\<rparr>)) w)"

section \<open>The invariant of the tables\<close>

definition good_row :: "torrent_row \<Rightarrow> bool" where
  "good_row r \<longleftrightarrow> (\<exists>c u. valid_utc c \<and> valid_utc u \<and> created_at r = formatTime c \<and> updated_at r = formatTime u)"

definition db_inv :: "'a sql_world_scheme \<Rightarrow> bool" where
  "db_inv w \<longleftrightarrow>
     distinct (map info_hash (torrent_tbl w)) \<and>
     distinct (map piece_pk (piece_tbl w)) \<and>
     (\<forall>r \<in> set (torrent_tbl w). good_row r) \<and>
     (\<forall>n. valid_utc (now_at w n))"

text \<open>The table as the client sees it: info hash to torrent.\<close>

definition parsed :: "(string \<Rightarrow> go_error + utc) \<Rightarrow> torrent_row option \<Rightarrow> db_torrent option" where
  "parsed g ro =
     (case ro of
        None \<Rightarrow> None
      | Some r \<Rightarrow> (case row_torrent g r of Inl _ \<Rightarrow> None | Inr t \<Rightarrow> Some t))"

definition rows :: "'a sql_world_scheme \<Rightarrow> string \<Rightarrow> db_torrent option" where
  "rows w h = parsed (parse_general w) (select_torrent h w)"

text \<open>Everything the setters and the readers leave alone.\<close>

definition rest :: "'a sql_world_scheme \<Rightarrow>
    (nat \<Rightarrow> string option) \<times> (nat \<Rightarrow> utc) \<times> (string \<Rightarrow> go_error + utc) \<times> piece_row list \<times> 'a" where
  "rest w = (fault w, now_at w, parse_general w, piece_tbl w, sql_world.more w)"

text \<open>No failure is to come: the driver reports none and the context is never done.\<close>

definition healthy :: "ctx \<Rightarrow> 'a sql_world_scheme \<Rightarrow> bool" where
  "healthy c w \<longleftrightarrow> (\<forall>n \<ge> tick w. \<not> ctx_done c n \<and> fault w n = None)"

text \<open>The piece rows as a map from info hash and index.\<close>

definition piece_rows :: "'a sql_world_scheme \<Rightarrow> string \<times> int \<Rightarrow> bool option" where
  "piece_rows w k = map_option complete (lookup_by piece_pk k (piece_tbl w))"

definition outer :: "'a sql_world_scheme \<Rightarrow>
    (nat \<Rightarrow> string option) \<times> (nat \<Rightarrow> utc) \<times> (string \<Rightarrow> go_error + utc) \<times> 'a" where
  "outer w = (fault w, now_at w, parse_general w, sql_world.more w)"

section \<open>The contract\<close>

text \<open>One setter: on success the row at the key is changed and stamped; a missing torrent is
  reported without any effect; another error may still leave the change behind (the
  statement ran, reading the row count failed).\<close>

locale row_update =
  fixes invar :: "'w \<Rightarrow> bool"
    and rows :: "'w \<Rightarrow> string \<Rightarrow> 'r option"
    and rest :: "'w \<Rightarrow> 'f"
    and healthy :: "ctx \<Rightarrow> 'w \<Rightarrow> bool"
    and op :: "ctx \<Rightarrow> string \<Rightarrow> 'w \<Rightarrow> unit res \<times> 'w"
    and change :: "utc \<Rightarrow> 'r \<Rightarrow> 'r"
  assumes upd_invar: "invar w \<Longrightarrow> op c h w = (r, w') \<Longrightarrow> invar w'"
    and upd_rest: "invar w \<Longrightarrow> op c h w = (r, w') \<Longrightarrow> rest w' = rest w"
    and upd_healthy: "invar w \<Longrightarrow> healthy c' w \<Longrightarrow> op c h w = (r, w') \<Longrightarrow> healthy c' w'"
    and upd_Ok: "invar w \<Longrightarrow> op c h w = (Ok x, w') \<Longrightarrow>
          \<exists>t u. rows w h = Some t \<and> rows w' = (rows w)(h \<mapsto> change u t)"
    and upd_missing: "invar w \<Longrightarrow> op c h w = (Err e, w') \<Longrightarrow> errors_is e DbTorrentNotFound \<Longrightarrow>
          rows w h = None \<and> rows w' = rows w"
    and upd_Err: "invar w \<Longrightarrow> op c h w = (Err e, w') \<Longrightarrow>
          rows w' = rows w \<or> (\<exists>t u. rows w h = Some t \<and> rows w' = (rows w)(h \<mapsto> change u t))"
    and upd_returns: "op c h w = (r, w') \<Longrightarrow> returns r"
    and upd_works: "invar w \<Longrightarrow> healthy c w \<Longrightarrow> rows w h \<noteq> None \<Longrightarrow> \<exists>w'. op c h w = (Ok (), w')"
    and upd_absent: "invar w \<Longrightarrow> healthy c w \<Longrightarrow> rows w h = None \<Longrightarrow>
          \<exists>w'. op c h w = (Err (Sentinel DbTorrentNotFound), w')"
begin

lemma upd_effect:
  assumes "invar w" "op c h w = (r, w')"
  shows "rows w' = rows w \<or> (\<exists>t u. rows w h = Some t \<and> rows w' = (rows w)(h \<mapsto> change u t))"
proof -
  have "returns r" using assms upd_returns by blast
  then show ?thesis using assms upd_Ok upd_Err by (cases rule: returnsE) blast+
qed

lemma upd_other: "invar w \<Longrightarrow> op c h w = (r, w') \<Longrightarrow> j \<noteq> h \<Longrightarrow> rows w' j = rows w j"
  by (drule (1) upd_effect) auto

lemma upd_dom: "invar w \<Longrightarrow> op c h w = (r, w') \<Longrightarrow> rows w' j = None \<longleftrightarrow> rows w j = None"
  by (drule (1) upd_effect) (auto split: if_splits)

lemma upd_same:
  "invar w \<Longrightarrow> op c h w = (r, w') \<Longrightarrow> rows w h = Some t \<Longrightarrow>
    \<exists>t'. rows w' h = Some t' \<and> (t' = t \<or> (\<exists>u. t' = change u t))"
  by (drule (1) upd_effect) auto

end

section \<open>The driver calls, one by one\<close>

lemma tock_simps [simp]:
  "tick (tock w) = Suc (tick w)" "fault (tock w) = fault w" "now_at (tock w) = now_at w"
  "parse_general (tock w) = parse_general w" "torrent_tbl (tock w) = torrent_tbl w"
  "piece_tbl (tock w) = piece_tbl w" "sql_world.more (tock w) = sql_world.more w"
  by (simp_all add: tock_def)

lemma rows_tock [simp]: "rows (tock w) = rows w"
  by (rule ext) (simp add: rows_def select_torrent_def)

lemma piece_rows_tock [simp]: "piece_rows (tock w) = piece_rows w"
  by (rule ext) (simp add: piece_rows_def)

lemma views_tock [simp]:
  "rest (tock w) = rest w" "outer (tock w) = outer w" "db_inv (tock w) = db_inv w"
  by (simp_all add: rest_def outer_def db_inv_def)

lemma healthy_tock [simp]: "healthy c w \<Longrightarrow> healthy c (tock w)"
  by (auto simp: healthy_def)

lemma healthy_now: "healthy c w \<Longrightarrow> driver_error c w = None \<and> fault w (tick w) = None"
  by (auto simp: healthy_def driver_error_def)

lemma driver_error_not [simp]:
  "driver_error c w = Some e \<Longrightarrow> \<not> errors_is e DbTorrentNotFound"
  "driver_error c w = Some e \<Longrightarrow> \<not> errors_is e SqlNoRows"
  "driver_error c w = Some e \<Longrightarrow> \<not> IsUniqueError e"
  by (auto simp: driver_error_def IsUniqueError_def split: if_splits option.splits)

text \<open>A statement that reports no constraint violation, run through \<open>exec_one\<close>: three ways to
  end.\<close>

lemma exec_one_cases:
  assumes "exec_one msg c stmt w = (r, w')" and "stmt w = (Inr n, v)"
  obtains (refused) e where "driver_error c w = Some e" "r = Err (Errorf msg e [])" "w' = tock w"
    | (uncounted) m where "fault v (Suc (tick v)) = Some m" "w' = tock (tock v)"
        "r = Err (Errorf ''failed to read affected rows: '' (DriverError m) [])"
    | (counted) "w' = tock (tock v)" "r = (if n = 0 then Err (Sentinel DbTorrentNotFound) else Ok ())"
  using assms
  by (auto simp: exec_one_def ExecContext_def RowsAffected_def split: option.splits if_splits)

lemma exec_one_healthy:
  assumes "healthy c w" "stmt w = (Inr n, v)" "fault v = fault w" "tick v = tick w"
  shows "exec_one msg c stmt w =
    (if n = 0 then Err (Sentinel DbTorrentNotFound) else Ok (), tock (tock v))"
  using assms healthy_now [OF assms(1)]
  by (auto simp: exec_one_def ExecContext_def RowsAffected_def healthy_def split: option.splits)

section \<open>The setters meet the contract\<close>

lemma filter_key_length:
  "length (filter (\<lambda>r. key r = k) rs) = 0 \<longleftrightarrow> lookup_by key k rs = None"
  by (induction rs) auto

lemma good_row_parses: "good_row r \<Longrightarrow> \<exists>t. row_torrent g r = Inr t"
  by (auto simp: good_row_def row_torrent_def parseTimestamps_formatTime)

lemma rows_None_iff:
  assumes "db_inv w"
  shows "rows w h = None \<longleftrightarrow> lookup_by info_hash h (torrent_tbl w) = None"
proof -
  have "\<exists>t. row_torrent (parse_general w) r = Inr t"
    if "lookup_by info_hash h (torrent_tbl w) = Some r" for r
    using assms lookup_by_SomeD [OF that] good_row_parses by (auto simp: db_inv_def)
  then show ?thesis
    by (fastforce simp: rows_def parsed_def select_torrent_def split: option.splits)
qed

text \<open>What an \<open>UPDATE\<close> by a function \<open>f\<close> does to the abstract table, when \<open>f\<close> is the row-level
  counterpart of \<open>change u\<close>.\<close>

definition implements :: "(torrent_row \<Rightarrow> torrent_row) \<Rightarrow> (db_torrent \<Rightarrow> db_torrent) \<Rightarrow> bool" where
  "implements f ch \<longleftrightarrow>
     (\<forall>r. info_hash (f r) = info_hash r) \<and>
     (\<forall>r. good_row r \<longrightarrow> good_row (f r)) \<and>
     (\<forall>r g t. good_row r \<longrightarrow> row_torrent g r = Inr t \<longrightarrow> row_torrent g (f r) = Inr (ch t))"

lemma update_torrent_invar:
  assumes "db_inv w" "implements f ch"
  shows "db_inv (snd (update_torrent h f w))"
proof -
  have "map info_hash (update_by info_hash h f (torrent_tbl w)) = map info_hash (torrent_tbl w)"
    using assms(2) by (simp add: implements_def)
  moreover have "\<forall>r \<in> set (update_by info_hash h f (torrent_tbl w)). good_row r"
    using assms by (auto simp: db_inv_def implements_def update_by_def)
  ultimately show ?thesis using assms(1) by (simp add: db_inv_def update_torrent_def)
qed

lemma update_torrent_rows:
  assumes "db_inv w" "implements f ch"
  shows "rows (snd (update_torrent h f w)) =
    (case rows w h of None \<Rightarrow> rows w | Some t \<Rightarrow> (rows w)(h \<mapsto> ch t))"
proof -
  let ?w' = "snd (update_torrent h f w)"
  have lk: "lookup_by info_hash j (torrent_tbl ?w') =
    (if j = h then map_option f (lookup_by info_hash h (torrent_tbl w))
     else lookup_by info_hash j (torrent_tbl w))" for j
    using assms(2) by (simp add: update_torrent_def implements_def lookup_update_by)
  have pg: "parse_general ?w' = parse_general w" by (simp add: update_torrent_def)
  show ?thesis
  proof (cases "lookup_by info_hash h (torrent_tbl w)")
    case None
    with lk pg have "rows ?w' j = rows w j" for j
      by (simp add: rows_def select_torrent_def)
    then have "rows ?w' = rows w" ..
    with None show ?thesis by (simp add: rows_def parsed_def select_torrent_def)
  next
    case (Some r)
    then have good: "good_row r" using assms(1) by (auto simp: db_inv_def dest: lookup_by_SomeD)
    then obtain t where t: "row_torrent (parse_general w) r = Inr t" using good_row_parses by blast
    with good assms(2) have "row_torrent (parse_general w) (f r) = Inr (ch t)"
      by (auto simp: implements_def)
    with Some t lk pg show ?thesis
      by (intro ext) (simp add: rows_def parsed_def select_torrent_def)
  qed
qed

lemma update_torrent_fields [simp]:
  "fst (update_torrent h f w) = Inr (length (filter (\<lambda>r. info_hash r = h) (torrent_tbl w)))"
  "rest (snd (update_torrent h f w)) = rest w"
  "tick (snd (update_torrent h f w)) = tick w"
  "fault (snd (update_torrent h f w)) = fault w"
  "now_at (snd (update_torrent h f w)) = now_at w"
  by (simp_all add: update_torrent_def rest_def)

lemma exec_update_cases:
  assumes inv: "db_inv w" and impl: "implements f ch"
    and run: "exec_one msg c (update_torrent h f) w = (r, w')"
  shows "db_inv w' \<and> rest w' = rest w \<and> (healthy c' w \<longrightarrow> healthy c' w') \<and>
    (case r of
       Ok _ \<Rightarrow> (\<exists>t. rows w h = Some t \<and> rows w' = (rows w)(h \<mapsto> ch t))
     | Err e \<Rightarrow>
         (rows w' = rows w \<or> (\<exists>t. rows w h = Some t \<and> rows w' = (rows w)(h \<mapsto> ch t))) \<and>
         (errors_is e DbTorrentNotFound \<longrightarrow> rows w h = None \<and> rows w' = rows w)
     | _ \<Rightarrow> False)"
proof -
  let ?v = "snd (update_torrent h f w)"
  let ?n = "length (filter (\<lambda>r. info_hash r = h) (torrent_tbl w))"
  have st: "update_torrent h f w = (Inr ?n, ?v)"
    by (metis update_torrent_fields(1) prod.collapse)
  note v = update_torrent_invar [OF inv impl, of h] update_torrent_rows [OF inv impl, of h]
  have n: "?n = 0 \<longleftrightarrow> rows w h = None"
    using filter_key_length [of info_hash h] rows_None_iff [OF inv] by metis
  have hv: "healthy c' w \<Longrightarrow> healthy c' ?v" by (simp add: healthy_def)
  show ?thesis
    using run st
  proof (cases rule: exec_one_cases)
    case (refused e)
    then show ?thesis using inv by auto
  next
    case (uncounted m)
    then show ?thesis using v hv by (auto split: option.splits)
  next
    case counted
    then show ?thesis using v hv n by (auto split: option.splits)
  qed
qed

lemma row_update_exec:
  assumes op: "\<And>c h w. op c h w = exec_one msg c (update_torrent h (f (time_Now w))) w"
    and impl: "\<And>u. valid_utc u \<Longrightarrow> implements (f u) (change u)"
  shows "row_update db_inv rows rest healthy op change"
proof
  fix w w' :: "'a sql_world_scheme" and c c' h r x e p
  have impl': "db_inv w \<Longrightarrow> implements (f (time_Now w)) (change (time_Now w))"
    using impl by (simp add: db_inv_def time_Now_def)
  have run: "db_inv w \<Longrightarrow> op c h w = (r, w') \<Longrightarrow>
    db_inv w' \<and> rest w' = rest w \<and> (healthy c' w \<longrightarrow> healthy c' w') \<and>
    (case r of
       Ok _ \<Rightarrow> (\<exists>t. rows w h = Some t \<and> rows w' = (rows w)(h \<mapsto> change (time_Now w) t))
     | Err e \<Rightarrow>
         (rows w' = rows w \<or>
          (\<exists>t. rows w h = Some t \<and> rows w' = (rows w)(h \<mapsto> change (time_Now w) t))) \<and>
         (errors_is e DbTorrentNotFound \<longrightarrow> rows w h = None \<and> rows w' = rows w)
     | _ \<Rightarrow> False)" for r w' c'
    unfolding op by (rule exec_update_cases [OF _ impl'])
  show "db_inv w \<Longrightarrow> op c h w = (r, w') \<Longrightarrow> db_inv w'" using run by blast
  show "db_inv w \<Longrightarrow> op c h w = (r, w') \<Longrightarrow> rest w' = rest w" using run by blast
  show "db_inv w \<Longrightarrow> healthy c' w \<Longrightarrow> op c h w = (r, w') \<Longrightarrow> healthy c' w'" using run by blast
  show "db_inv w \<Longrightarrow> op c h w = (Ok x, w') \<Longrightarrow>
      \<exists>t u. rows w h = Some t \<and> rows w' = (rows w)(h \<mapsto> change u t)" using run by fastforce
  show "db_inv w \<Longrightarrow> op c h w = (Err e, w') \<Longrightarrow> errors_is e DbTorrentNotFound \<Longrightarrow>
      rows w h = None \<and> rows w' = rows w" using run by fastforce
  show "db_inv w \<Longrightarrow> op c h w = (Err e, w') \<Longrightarrow>
      rows w' = rows w \<or> (\<exists>t u. rows w h = Some t \<and> rows w' = (rows w)(h \<mapsto> change u t))"
    using run by fastforce
  show "op c h w = (r, w') \<Longrightarrow> returns r"
    by (auto simp: op exec_one_def ExecContext_def RowsAffected_def update_torrent_def
        split: option.splits if_splits)
  have works: "db_inv w \<Longrightarrow> healthy c w \<Longrightarrow>
    \<exists>w'. op c h w = (if rows w h = None then Err (Sentinel DbTorrentNotFound) else Ok (), w')"
    using exec_one_healthy [of c w "update_torrent h (f (time_Now w))"]
      filter_key_length [of info_hash h] rows_None_iff [of w h]
    by (auto simp: op update_torrent_def)
  then show "db_inv w \<Longrightarrow> healthy c w \<Longrightarrow> rows w h \<noteq> None \<Longrightarrow> \<exists>w'. op c h w = (Ok (), w')"
    "db_inv w \<Longrightarrow> healthy c w \<Longrightarrow> rows w h = None \<Longrightarrow>
      \<exists>w'. op c h w = (Err (Sentinel DbTorrentNotFound), w')" by fastforce+
qed

text \<open>The changes the setters make to a torrent.\<close>

definition with_metadata :: "string \<Rightarrow> int \<Rightarrow> utc \<Rightarrow> db_torrent \<Rightarrow> db_torrent" where
  "with_metadata nm len u t = t\<lparr>db_Name := nm, db_Length := len, db_UpdatedAt := u\<rparr>"

definition with_bytes :: "int \<Rightarrow> utc \<Rightarrow> db_torrent \<Rightarrow> db_torrent" where
  "with_bytes n u t = t\<lparr>db_BytesCompleted := n, db_UpdatedAt := u\<rparr>"

definition with_paused :: "bool \<Rightarrow> utc \<Rightarrow> db_torrent \<Rightarrow> db_torrent" where
  "with_paused b u t = t\<lparr>db_Paused := b, db_UpdatedAt := u\<rparr>"

lemma good_rowI: "valid_utc c \<Longrightarrow> valid_utc u \<Longrightarrow> created_at r = formatTime c \<Longrightarrow>
    updated_at r = formatTime u \<Longrightarrow> good_row r"
  by (auto simp: good_row_def)

lemma implements_setters:
  assumes "valid_utc u"
  shows "implements (\<lambda>r. r\<lparr>name := nm, length' := len, updated_at := formatTime u\<rparr>) (with_metadata nm len u)"
    and "implements (\<lambda>r. r\<lparr>bytes_completed := n, updated_at := formatTime u\<rparr>) (with_bytes n u)"
    and "implements (\<lambda>r. r\<lparr>is_paused := b, updated_at := formatTime u\<rparr>) (with_paused b u)"
  using assms unfolding implements_def
  by (auto simp: good_row_def row_torrent_def parseTimestamps_formatTime
      with_metadata_def with_bytes_def with_paused_def)

interpretation set_metadata: row_update db_inv rows rest healthy
  "\<lambda>c h. SetMetadata c h nm len" "with_metadata nm len" for nm len
  by (rule row_update_exec [where f = "\<lambda>u r. r\<lparr>name := nm, length' := len, updated_at := formatTime u\<rparr>"])
    (simp_all add: SetMetadata_def Let_def implements_setters)

interpretation set_bytes: row_update db_inv rows rest healthy
  "\<lambda>c h. SetBytesCompleted c h n" "with_bytes n" for n
  by (rule row_update_exec [where f = "\<lambda>u r. r\<lparr>bytes_completed := n, updated_at := formatTime u\<rparr>"])
    (simp_all add: SetBytesCompleted_def Let_def implements_setters)

interpretation set_paused: row_update db_inv rows rest healthy
  "\<lambda>c h. SetPaused c h b" "with_paused b" for b
  by (rule row_update_exec [where f = "\<lambda>u r. r\<lparr>is_paused := b, updated_at := formatTime u\<rparr>"])
    (simp_all add: SetPaused_def Let_def implements_setters)

end
