(* ===== verification/TorrentStore.thy ===== *)
theory TorrentStore
  imports TorrentRepo
begin

text \<open>
  The contract of the whole torrent repository, as the service relies on it: the interface
  \<open>TorrentRepository\<close> of \<open>internal/server/service/torrent.go\<close> with the laws its comments promise,
  and the proof that the repository of \<open>internal/server/database/torrent.go\<close> keeps them.
\<close>

section \<open>The contract\<close>

text \<open>A torrent as \<open>Create\<close> stores it: the four fields it takes, everything else fresh.\<close>

definition fresh_torrent :: "db_torrent \<Rightarrow> utc \<Rightarrow> db_torrent" where
  "fresh_torrent t u =
     \<lparr>db_InfoHash = db_InfoHash t, db_Magnet = db_Magnet t, db_Label = db_Label t,
      db_TargetDir = db_TargetDir t, db_Paused = False, db_Name = '''', db_Length = 0,
      db_BytesCompleted = 0, db_CreatedAt = u, db_UpdatedAt = u\<rparr>"

definition without_hash :: "string \<Rightarrow> (string \<times> int \<Rightarrow> bool option) \<Rightarrow> string \<times> int \<Rightarrow> bool option" where
  "without_hash h m k = (if fst k = h then None else m k)"

locale torrent_store =
  fixes invar :: "'w \<Rightarrow> bool"
    and rows :: "'w \<Rightarrow> string \<Rightarrow> db_torrent option"
    and rest :: "'w \<Rightarrow> 'f"
    and outer :: "'w \<Rightarrow> 'o"
    and piece_rows :: "'w \<Rightarrow> string \<times> int \<Rightarrow> bool option"
    and healthy :: "ctx \<Rightarrow> 'w \<Rightarrow> bool"
    and create :: "ctx \<Rightarrow> db_torrent \<Rightarrow> 'w \<Rightarrow> unit res \<times> 'w"
    and get :: "ctx \<Rightarrow> string \<Rightarrow> 'w \<Rightarrow> db_torrent res \<times> 'w"
    and list :: "ctx \<Rightarrow> 'w \<Rightarrow> db_torrent list res \<times> 'w"
    and delete :: "ctx \<Rightarrow> string \<Rightarrow> 'w \<Rightarrow> unit res \<times> 'w"
    and set_metadata :: "ctx \<Rightarrow> string \<Rightarrow> string \<Rightarrow> int \<Rightarrow> 'w \<Rightarrow> unit res \<times> 'w"
    and set_bytes :: "ctx \<Rightarrow> string \<Rightarrow> int \<Rightarrow> 'w \<Rightarrow> unit res \<times> 'w"
    and set_paused :: "ctx \<Rightarrow> string \<Rightarrow> bool \<Rightarrow> 'w \<Rightarrow> unit res \<times> 'w"
  assumes row_key: "rows w h = Some t \<Longrightarrow> db_InfoHash t = h"
    and rest_outer: "rest w' = rest w \<Longrightarrow> outer w' = outer w \<and> piece_rows w' = piece_rows w"
    and metadata_law: "row_update invar rows rest healthy (\<lambda>c h. set_metadata c h nm len) (with_metadata nm len)"
    and bytes_law: "row_update invar rows rest healthy (\<lambda>c h. set_bytes c h n) (with_bytes n)"
    and paused_law: "row_update invar rows rest healthy (\<lambda>c h. set_paused c h b) (with_paused b)"
    and get_pure: "get c h w = (r, w') \<Longrightarrow> rows w' = rows w \<and> rest w' = rest w"
    and get_invar: "get c h w = (r, w') \<Longrightarrow> invar w \<Longrightarrow> invar w'"
    and get_healthy: "get c h w = (r, w') \<Longrightarrow> healthy c' w \<Longrightarrow> healthy c' w'"
    and get_Ok: "invar w \<Longrightarrow> get c h w = (Ok t, w') \<Longrightarrow> rows w h = Some t"
    and get_missing: "invar w \<Longrightarrow> get c h w = (Err e, w') \<Longrightarrow> errors_is e DbTorrentNotFound \<Longrightarrow> rows w h = None"
    and get_returns: "get c h w = (r, w') \<Longrightarrow> returns r"
    and get_works: "invar w \<Longrightarrow> healthy c w \<Longrightarrow>
          \<exists>w'. get c h w = (case rows w h of None \<Rightarrow> Err (Sentinel DbTorrentNotFound) | Some t \<Rightarrow> Ok t, w')"
    and list_pure: "list c w = (rl, w') \<Longrightarrow> rows w' = rows w \<and> rest w' = rest w"
    and list_invar: "list c w = (rl, w') \<Longrightarrow> invar w \<Longrightarrow> invar w'"
    and list_healthy: "list c w = (rl, w') \<Longrightarrow> healthy c' w \<Longrightarrow> healthy c' w'"
    and list_Ok: "invar w \<Longrightarrow> list c w = (Ok ts, w') \<Longrightarrow>
          distinct (map db_InfoHash ts) \<and> (\<forall>t. t \<in> set ts \<longleftrightarrow> rows w (db_InfoHash t) = Some t)"
    and list_returns: "list c w = (rl, w') \<Longrightarrow> returns rl"
    and list_works: "invar w \<Longrightarrow> healthy c w \<Longrightarrow> \<exists>ts w'. list c w = (Ok ts, w')"
    and create_rest: "create c t w = (ru, w') \<Longrightarrow> rest w' = rest w"
    and create_invar: "create c t w = (ru, w') \<Longrightarrow> invar w \<Longrightarrow> invar w'"
    and create_healthy: "create c t w = (ru, w') \<Longrightarrow> healthy c' w \<Longrightarrow> healthy c' w'"
    and create_Ok: "invar w \<Longrightarrow> create c t w = (Ok x, w') \<Longrightarrow>
          rows w (db_InfoHash t) = None \<and> (\<exists>u. rows w' = (rows w)(db_InfoHash t \<mapsto> fresh_torrent t u))"
    and create_Err: "create c t w = (Err e, w') \<Longrightarrow> rows w' = rows w"
    and create_dup: "invar w \<Longrightarrow> create c t w = (Err e, w') \<Longrightarrow> errors_is e DbTorrentAlreadyExists \<Longrightarrow>
          rows w (db_InfoHash t) \<noteq> None"
    and create_returns: "create c t w = (ru, w') \<Longrightarrow> returns ru"
    and create_works: "invar w \<Longrightarrow> healthy c w \<Longrightarrow>
          \<exists>w'. create c t w =
            (if rows w (db_InfoHash t) = None then Ok () else Err (Sentinel DbTorrentAlreadyExists), w')"
    and delete_outer: "delete c h w = (ru, w') \<Longrightarrow> invar w \<Longrightarrow> outer w' = outer w"
    and delete_invar: "delete c h w = (ru, w') \<Longrightarrow> invar w \<Longrightarrow> invar w'"
    and delete_healthy: "delete c h w = (ru, w') \<Longrightarrow> invar w \<Longrightarrow> healthy c' w \<Longrightarrow> healthy c' w'"
    and delete_Ok: "invar w \<Longrightarrow> delete c h w = (Ok x, w') \<Longrightarrow>
          rows w h \<noteq> None \<and> rows w' = (rows w)(h := None) \<and> piece_rows w' = without_hash h (piece_rows w)"
    and delete_missing: "invar w \<Longrightarrow> delete c h w = (Err e, w') \<Longrightarrow> errors_is e DbTorrentNotFound \<Longrightarrow>
          rows w h = None \<and> rows w' = rows w \<and> piece_rows w' = piece_rows w"
    and delete_Err: "invar w \<Longrightarrow> delete c h w = (Err e, w') \<Longrightarrow>
          rows w' = rows w \<and> piece_rows w' = piece_rows w \<or>
          rows w' = (rows w)(h := None) \<and> piece_rows w' = without_hash h (piece_rows w)"
    and delete_returns: "delete c h w = (ru, w') \<Longrightarrow> returns ru"
    and delete_works: "invar w \<Longrightarrow> healthy c w \<Longrightarrow>
          \<exists>w'. delete c h w = (if rows w h = None then Err (Sentinel DbTorrentNotFound) else Ok (), w')"
begin

text \<open>A created torrent can be read back, a deleted one cannot.\<close>

lemma get_after_create:
  assumes "invar w" "create c t w = (Ok x, w1)" "healthy c' w1"
  shows "\<exists>u w2. get c' (db_InfoHash t) w1 = (Ok (fresh_torrent t u), w2)"
proof -
  from assms(1,2) obtain u where "rows w1 = (rows w)(db_InfoHash t \<mapsto> fresh_torrent t u)"
    using create_Ok by blast
  moreover have "invar w1" using assms create_invar by blast
  ultimately show ?thesis using get_works [OF _ assms(3), of "db_InfoHash t"] by auto
qed

lemma get_after_delete:
  assumes "invar w" "delete c h w = (Ok x, w1)" "healthy c' w1"
  shows "\<exists>w2. get c' h w1 = (Err (Sentinel DbTorrentNotFound), w2)"
proof -
  have "rows w1 h = None" "invar w1" using assms delete_Ok delete_invar by auto
  then show ?thesis using get_works [OF _ assms(3), of h] by auto
qed

end

section \<open>Reading\<close>

lemma rows_key: "rows w h = Some t \<Longrightarrow> db_InfoHash t = h"
  by (auto simp: rows_def parsed_def select_torrent_def row_torrent_def
      dest!: lookup_by_SomeD split: option.splits sum.splits prod.splits)

lemma Get_cases:
  assumes "Get c h w = (r, w')"
  shows "w' = tock w" and "returns r"
  using assms
  by (auto simp: Get_def QueryRow_def split: call_splits option.splits sum.splits if_splits)

lemma Get_Ok: "Get c h w = (Ok t, w') \<Longrightarrow> rows w h = Some t"
  by (auto simp: Get_def QueryRow_def rows_def parsed_def split: option.splits sum.splits if_splits)

lemma select_good: "db_inv w \<Longrightarrow> select_torrent h w = Some r \<Longrightarrow> good_row r"
  by (auto simp: db_inv_def select_torrent_def dest: lookup_by_SomeD)

lemma Get_missing:
  assumes "db_inv w" "Get c h w = (Err e, w')" "errors_is e DbTorrentNotFound"
  shows "rows w h = None"
proof (cases "driver_error c w")
  case None
  show ?thesis
  proof (cases "select_torrent h w")
    case (Some r)
    then obtain t where "row_torrent (parse_general w) r = Inr t"
      using good_row_parses select_good [OF assms(1)] by blast
    with assms(2) None Some show ?thesis by (simp add: Get_def QueryRow_def)
  qed (simp add: rows_def parsed_def)
next
  case (Some d)
  with assms show ?thesis by (auto simp: Get_def QueryRow_def)
qed

lemma Get_works:
  assumes "db_inv w" "healthy c w"
  shows "\<exists>w'. Get c h w =
    (case rows w h of None \<Rightarrow> Err (Sentinel DbTorrentNotFound) | Some t \<Rightarrow> Ok t, w')"
proof (cases "select_torrent h w")
  case None
  with healthy_now [OF assms(2)] show ?thesis
    by (simp add: Get_def QueryRow_def rows_def parsed_def)
next
  case (Some r)
  then obtain t where "row_torrent (parse_general w) r = Inr t"
    using good_row_parses select_good [OF assms(1)] by blast
  with Some healthy_now [OF assms(2)] show ?thesis
    by (simp add: Get_def QueryRow_def rows_def parsed_def)
qed

section \<open>Listing\<close>

text \<open>The scan loop changes nothing but the tick; when it reports no cursor error it has
  processed every row, in order.\<close>

lemma scan_rows_tick: "scan_rows c msg body rs acc w = (r, w') \<Longrightarrow> \<exists>k. w' = (tock ^^ k) w"
proof (induction rs arbitrary: acc w)
  case Nil
  then have "w' = (tock ^^ 1) w" by simp
  then show ?case by blast
next
  case (Cons x rs)
  consider "w' = tock w" | "w' = tock (tock w)"
    | y where "scan_rows c msg body rs (y # acc) (tock (tock w)) = (r, w')"
    using Cons.prems by (auto simp: Let_def split: option.splits sum.splits)
  then show ?case
  proof cases
    case 1
    then show ?thesis by (intro exI [of _ 1]) simp
  next
    case 2
    then show ?thesis by (intro exI [of _ 2]) (simp add: eval_nat_numeral)
  next
    case 3
    from Cons.IH [OF 3] obtain k where "w' = (tock ^^ k) (tock (tock w))" by blast
    then show ?thesis by (intro exI [of _ "Suc (Suc k)"]) (simp add: funpow_swap1)
  qed
qed

lemma funpow_tock_views [simp]:
  "rows ((tock ^^ k) w) = rows w" "rest ((tock ^^ k) w) = rest w" "db_inv ((tock ^^ k) w) = db_inv w"
  by (induction k) auto

lemma funpow_tock_healthy: "healthy c w \<Longrightarrow> healthy c ((tock ^^ k) w)"
  by (induction k) auto

lemma scan_rows_returns: "scan_rows c msg body rs acc w = (r, w') \<Longrightarrow> returns r"
  by (induction rs arbitrary: acc w) (auto simp: Let_def split: option.splits sum.splits)

lemma scan_rows_Ok:
  "scan_rows c msg body rs acc w = (Ok (xs, None), w') \<Longrightarrow>
    \<exists>ys. xs = rev acc @ ys \<and> map body rs = map Inr ys"
proof (induction rs arbitrary: acc w)
  case (Cons r rs)
  then obtain x v where x: "body r = Inr x"
    and rec: "scan_rows c msg body rs (x # acc) v = (Ok (xs, None), w')"
    by (auto simp: Let_def split: option.splits sum.splits)
  from Cons.IH [OF rec] obtain ys where "xs = rev (x # acc) @ ys" "map body rs = map Inr ys"
    by blast
  with x show ?case by (intro exI [of _ "x # ys"]) simp
qed (auto split: option.splits)

lemma scan_rows_works:
  assumes "healthy c w" "\<And>r. r \<in> set rs \<Longrightarrow> \<exists>x. body r = Inr x"
  shows "\<exists>xs w'. scan_rows c msg body rs acc w = (Ok (xs, None), w')"
  using assms
proof (induction rs arbitrary: acc w)
  case Nil
  then show ?case using healthy_now by auto
next
  case (Cons r rs)
  obtain x where x: "body r = Inr x" using Cons.prems(2) by auto
  have h: "healthy c (tock w)" "healthy c (tock (tock w))" using Cons.prems(1) by auto
  from Cons.IH [OF h(2), of "x # acc"] Cons.prems(2) obtain xs w' where
    "scan_rows c msg body rs (x # acc) (tock (tock w)) = (Ok (xs, None), w')" by auto
  with x healthy_now [OF Cons.prems(1)] healthy_now [OF h(1)] show ?case
    by (auto simp: Let_def)
qed

lemma List_tick: "List c w = (r, w') \<Longrightarrow> \<exists>k. w' = (tock ^^ k) w"
proof -
  assume run: "List c w = (r, w')"
  consider "w' = tock w"
    | r' where "scan_rows c ''failed to scan torrent: ''
        (row_torrent (parse_general w)) (select_torrents w) [] (tock w) = (r', w')"
    using run by (auto simp: List_def QueryContext_def split: call_splits option.splits prod.splits)
  then show ?thesis
  proof cases
    case 1
    then show ?thesis by (intro exI [of _ 1]) simp
  next
    case 2
    from scan_rows_tick [OF 2] obtain k where "w' = (tock ^^ k) (tock w)" by blast
    then show ?thesis by (intro exI [of _ "Suc k"]) (simp add: funpow_swap1)
  qed
qed

lemma List_Ok_map:
  assumes "List c w = (Ok ts, w')"
  shows "map (row_torrent (parse_general w)) (select_torrents w) = map Inr ts"
proof -
  from assms obtain v where "scan_rows c ''failed to scan torrent: ''
      (row_torrent (parse_general w)) (select_torrents w) [] (tock w) = (Ok (ts, None), v)"
    by (auto simp: List_def QueryContext_def split: call_splits option.splits prod.splits)
  from scan_rows_Ok [OF this] show ?thesis by simp
qed

lemma row_torrent_key: "row_torrent g r = Inr t \<Longrightarrow> db_InfoHash t = info_hash r"
  by (auto simp: row_torrent_def split: sum.splits)

lemma map_Inr_keys:
  "map (row_torrent g) rs = map Inr ts \<Longrightarrow> map db_InfoHash ts = map info_hash rs"
proof (induction ts arbitrary: rs)
  case (Cons t ts)
  then show ?case by (cases rs) (auto dest: row_torrent_key)
qed simp

lemma List_Ok:
  assumes inv: "db_inv w" and run: "List c w = (Ok ts, w')"
  shows "distinct (map db_InfoHash ts) \<and> (\<forall>t. t \<in> set ts \<longleftrightarrow> rows w (db_InfoHash t) = Some t)"
proof -
  let ?g = "parse_general w" and ?rs = "select_torrents w"
  note m = List_Ok_map [OF run]
  have set_rs: "set ?rs = set (torrent_tbl w)" by (simp add: select_torrents_def)
  have d: "distinct (map info_hash (torrent_tbl w))" using inv by (simp add: db_inv_def)
  then have "distinct (map info_hash ?rs)"
    by (simp add: select_torrents_def distinct_map)
  then have 1: "distinct (map db_InfoHash ts)" using map_Inr_keys [OF m] by simp
  have ts: "Inr ` set ts = row_torrent ?g ` set (torrent_tbl w)"
    using m set_rs by (metis list.set_map)
  have "t \<in> set ts \<longleftrightarrow> rows w (db_InfoHash t) = Some t" for t
  proof
    assume "t \<in> set ts"
    then have "Inr t \<in> row_torrent ?g ` set (torrent_tbl w)" using ts by blast
    then obtain r where r: "r \<in> set (torrent_tbl w)" "row_torrent ?g r = Inr t" by force
    then have "lookup_by info_hash (db_InfoHash t) (torrent_tbl w) = Some r"
      using lookup_by_unique [OF d] row_torrent_key by metis
    with r show "rows w (db_InfoHash t) = Some t"
      by (simp add: rows_def parsed_def select_torrent_def)
  next
    assume "rows w (db_InfoHash t) = Some t"
    then obtain r where "r \<in> set (torrent_tbl w)" "row_torrent ?g r = Inr t"
      by (auto simp: rows_def parsed_def select_torrent_def
          dest!: lookup_by_SomeD split: option.splits sum.splits)
    then have "Inr t \<in> row_torrent ?g ` set (torrent_tbl w)" by force
    with ts show "t \<in> set ts" by blast
  qed
  with 1 show ?thesis by blast
qed

lemma List_works:
  assumes "db_inv w" "healthy c w"
  shows "\<exists>ts w'. List c w = (Ok ts, w')"
proof -
  have "\<exists>t. row_torrent (parse_general w) r = Inr t" if "r \<in> set (select_torrents w)" for r
    using that assms(1) good_row_parses by (auto simp: select_torrents_def db_inv_def)
  then obtain xs v where "scan_rows c ''failed to scan torrent: ''
      (row_torrent (parse_general w)) (select_torrents w) [] (tock w) = (Ok (xs, None), v)"
    using scan_rows_works [OF healthy_tock [OF assms(2)]] by blast
  with healthy_now [OF assms(2)] show ?thesis
    by (auto simp: List_def QueryContext_def)
qed

text \<open>The list is in the order of the creation text.\<close>

lemma List_sorted:
  assumes "db_inv w" "List c w = (Ok ts, w')"
  shows "sorted (map (\<lambda>t. formatTime (db_CreatedAt t)) ts)"
proof -
  have key: "formatTime (db_CreatedAt t) = created_at r"
    if "good_row r" "row_torrent g r = Inr t" for r t g
    using that by (auto simp: good_row_def row_torrent_def parseTimestamps_formatTime)
  have "map (\<lambda>t. formatTime (db_CreatedAt t)) ts = map created_at rs"
    if "map (row_torrent g) rs = map Inr ts" "\<forall>r \<in> set rs. good_row r" for rs g
    using that
  proof (induction ts arbitrary: rs)
    case (Cons t ts)
    then show ?case by (cases rs) (auto simp: key)
  qed simp
  from this [OF List_Ok_map [OF assms(2)]] assms(1) show ?thesis
    by (simp add: select_torrents_def db_inv_def)
qed

section \<open>Creating\<close>

lemma row_torrent_fresh:
  assumes "valid_utc u" "created_at r = formatTime u" "updated_at r = formatTime u"
    "info_hash r = db_InfoHash t" "magnet r = db_Magnet t" "label r = db_Label t"
    "target_dir r = db_TargetDir t" "\<not> is_paused r" "name r = []" "length' r = 0" "bytes_completed r = 0"
  shows "row_torrent g r = Inr (fresh_torrent t u)"
  using assms by (simp add: row_torrent_def parseTimestamps_formatTime fresh_torrent_def)

lemma Create_cases:
  assumes "Create c t w = (r, w')"
  obtains (refused) e where "driver_error c w = Some e" "w' = tock w"
      "r = Err (Errorf ''failed to insert torrent: '' e [])"
    | (dup) "lookup_by info_hash (db_InfoHash t) (torrent_tbl w) \<noteq> None" "w' = tock w"
      "r = Err (Sentinel DbTorrentAlreadyExists)"
    | (ins) row where "lookup_by info_hash (db_InfoHash t) (torrent_tbl w) = None"
      "w' = tock (w\<lparr>torrent_tbl := torrent_tbl w @ [row]\<rparr>)" "r = Ok ()"
      "info_hash row = db_InfoHash t"
      "\<And>g. valid_utc (time_Now w) \<Longrightarrow> row_torrent g row = Inr (fresh_torrent t (time_Now w))"
      "valid_utc (time_Now w) \<Longrightarrow> good_row row"
proof (cases "driver_error c w")
  case (Some e)
  with assms refused show ?thesis
    by (auto simp: Create_def ExecContext_def Let_def split: if_splits)
next
  case None
  let ?n = "formatTime (time_Now w)"
  let ?row = "\<lparr>info_hash = db_InfoHash t, magnet = db_Magnet t, label = db_Label t,
    target_dir = db_TargetDir t, is_paused = False, name = '''', length' = 0,
    bytes_completed = 0, created_at = ?n, updated_at = ?n\<rparr>"
  show ?thesis
  proof (cases "lookup_by info_hash (db_InfoHash t) (torrent_tbl w)")
    case (Some r')
    with assms None dup show ?thesis
      by (auto simp: Create_def ExecContext_def insert_torrent_def IsUniqueError_def Let_def)
  next
    case none: None
    with assms None have "w' = tock (w\<lparr>torrent_tbl := torrent_tbl w @ [?row]\<rparr>)" "r = Ok ()"
      by (auto simp: Create_def ExecContext_def insert_torrent_def Let_def)
    with none show ?thesis
      by (rule ins) (auto simp: row_torrent_fresh good_row_def)
  qed
qed

lemma Create_frame:
  assumes "Create c t w = (r, w')"
  shows "rest w' = rest w" and "healthy c' w \<Longrightarrow> healthy c' w'" and "returns r"
  using assms by (cases rule: Create_cases; auto simp: rest_def healthy_def)+

lemma Create_Ok:
  assumes inv: "db_inv w" and run: "Create c t w = (Ok x, w')"
  shows "rows w (db_InfoHash t) = None \<and> (\<exists>u. rows w' = (rows w)(db_InfoHash t \<mapsto> fresh_torrent t u))"
  using run
proof (cases rule: Create_cases)
  case (ins row)
  have v: "valid_utc (time_Now w)" using inv by (simp add: db_inv_def time_Now_def)
  have "rows w' = (rows w)(db_InfoHash t \<mapsto> fresh_torrent t (time_Now w))"
  proof
    fix h
    show "rows w' h = ((rows w)(db_InfoHash t \<mapsto> fresh_torrent t (time_Now w))) h"
      using ins(1) ins(4) ins(5) [OF v]
      by (simp add: ins(2) rows_def parsed_def select_torrent_def lookup_by_append split: option.split)
  qed
  with ins(1) show ?thesis by (auto simp: rows_def parsed_def select_torrent_def)
qed auto

lemma Create_Err: "Create c t w = (Err e, w') \<Longrightarrow> rows w' = rows w"
  by (erule Create_cases) auto

lemma Create_dup:
  assumes "db_inv w" "Create c t w = (Err e, w')" "errors_is e DbTorrentAlreadyExists"
  shows "rows w (db_InfoHash t) \<noteq> None"
  using assms(2)
proof (cases rule: Create_cases)
  case (refused d)
  with assms(3) show ?thesis by (auto simp: driver_error_def split: if_splits option.splits)
qed (use rows_None_iff [OF assms(1)] in auto)

lemma Create_invar:
  assumes "Create c t w = (r, w')" "db_inv w"
  shows "db_inv w'"
  using assms(1)
proof (cases rule: Create_cases)
  case (ins row)
  have "valid_utc (time_Now w)" using assms(2) by (simp add: db_inv_def time_Now_def)
  with ins assms(2) show ?thesis by (auto simp: db_inv_def lookup_by_None)
qed (use assms(2) in auto)

lemma Create_works:
  assumes "db_inv w" "healthy c w"
  shows "\<exists>w'. Create c t w =
    (if rows w (db_InfoHash t) = None then Ok () else Err (Sentinel DbTorrentAlreadyExists), w')"
  using healthy_now [OF assms(2)] rows_None_iff [OF assms(1), of "db_InfoHash t"]
  by (auto simp: Create_def ExecContext_def insert_torrent_def Let_def IsUniqueError_def)

section \<open>Deleting\<close>

text \<open>The statement with its trigger: one torrent row goes, and the piece rows of that hash.\<close>

lemma gone_single:
  "distinct (map key rs) \<Longrightarrow>
    filter (\<lambda>r. key r = k) rs = (case lookup_by key k rs of None \<Rightarrow> [] | Some r \<Rightarrow> [r])"
proof (induction rs)
  case (Cons r rs)
  then have "key r = k \<Longrightarrow> lookup_by key k rs = None" by (auto simp: lookup_by_None)
  with Cons show ?case by auto
qed simp

lemma lookup_piece_delete:
  "map_option complete (lookup_by piece_pk k (delete_by p_info_hash h ps)) =
    without_hash h (\<lambda>k. map_option complete (lookup_by piece_pk k ps)) k"
  by (induction ps) (auto simp: delete_by_def without_hash_def piece_pk_def)

lemma delete_torrent_effect:
  assumes "db_inv w"
  obtains v where "delete_torrent h w = (Inr (length (filter (\<lambda>r. info_hash r = h) (torrent_tbl w))), v)"
    "rows v = (rows w)(h := None)" "db_inv v" "outer v = outer w" "tick v = tick w" "fault v = fault w"
    "piece_rows v = (if rows w h = None then piece_rows w else without_hash h (piece_rows w))"
proof (rule that)
  let ?v = "snd (delete_torrent h w)"
  have d: "distinct (map info_hash (torrent_tbl w))" "distinct (map piece_pk (piece_tbl w))"
    using assms by (auto simp: db_inv_def)
  have pt: "piece_tbl ?v = (case lookup_by info_hash h (torrent_tbl w) of
      None \<Rightarrow> piece_tbl w | Some r \<Rightarrow> delete_by p_info_hash h (piece_tbl w))"
    by (auto simp: delete_torrent_def Let_def gone_single [OF d(1)] dest: lookup_by_SomeD split: option.split)
  show "delete_torrent h w = (Inr (length (filter (\<lambda>r. info_hash r = h) (torrent_tbl w))), ?v)"
    by (simp add: delete_torrent_def Let_def)
  show "rows ?v = (rows w)(h := None)"
    by (rule ext) (simp add: rows_def parsed_def select_torrent_def delete_torrent_def Let_def lookup_delete_by)
  show "outer ?v = outer w" "tick ?v = tick w" "fault ?v = fault w"
    by (simp_all add: outer_def delete_torrent_def Let_def)
  have "distinct (map piece_pk (piece_tbl ?v))"
    using d(2) by (auto simp: pt delete_by_def distinct_map_filter split: option.splits)
  with assms d(1) show "db_inv ?v"
    by (simp add: db_inv_def delete_torrent_def Let_def distinct_delete_by set_delete_by)
  show "piece_rows ?v = (if rows w h = None then piece_rows w else without_hash h (piece_rows w))"
  proof
    fix k
    show "piece_rows ?v k = (if rows w h = None then piece_rows w else without_hash h (piece_rows w)) k"
      using lookup_piece_delete [of k h "piece_tbl w"]
      by (auto simp: piece_rows_def [abs_def] pt rows_None_iff [OF assms] without_hash_def
          split: option.split if_splits)
  qed
qed

lemma Delete_effect:
  assumes inv: "db_inv w" and run: "Delete c h w = (r, w')"
  shows "db_inv w' \<and> outer w' = outer w \<and> (healthy c' w \<longrightarrow> healthy c' w') \<and>
    (case r of
       Ok _ \<Rightarrow> rows w h \<noteq> None \<and> rows w' = (rows w)(h := None) \<and> piece_rows w' = without_hash h (piece_rows w)
     | Err e \<Rightarrow>
         (rows w' = rows w \<and> piece_rows w' = piece_rows w \<or>
          rows w' = (rows w)(h := None) \<and> piece_rows w' = without_hash h (piece_rows w)) \<and>
         (errors_is e DbTorrentNotFound \<longrightarrow>
            rows w h = None \<and> rows w' = rows w \<and> piece_rows w' = piece_rows w)
     | _ \<Rightarrow> False)"
proof -
  let ?n = "length (filter (\<lambda>r. info_hash r = h) (torrent_tbl w))"
  obtain v where st: "delete_torrent h w = (Inr ?n, v)"
    and v: "rows v = (rows w)(h := None)" "db_inv v" "outer v = outer w" "tick v = tick w"
      "fault v = fault w"
      "piece_rows v = (if rows w h = None then piece_rows w else without_hash h (piece_rows w))"
    using delete_torrent_effect [OF inv] by blast
  have n: "?n = 0 \<longleftrightarrow> rows w h = None"
    using filter_key_length [of info_hash h] rows_None_iff [OF inv] by metis
  have hv: "healthy c' w \<Longrightarrow> healthy c' v" using v by (simp add: healthy_def)
  have same: "rows w h = None \<Longrightarrow> (rows w)(h := None) = rows w" by (auto simp: fun_upd_idem_iff)
  from run st show ?thesis unfolding Delete_def
  proof (cases rule: exec_one_cases)
    case (refused e)
    then show ?thesis using inv by auto
  next
    case (uncounted m)
    then show ?thesis using v hv same by (cases "rows w h") auto
  next
    case counted
    then show ?thesis using v hv n same by (cases "rows w h") auto
  qed
qed

lemma Delete_works:
  assumes "db_inv w" "healthy c w"
  shows "\<exists>w'. Delete c h w = (if rows w h = None then Err (Sentinel DbTorrentNotFound) else Ok (), w')"
proof -
  obtain v where "delete_torrent h w = (Inr (length (filter (\<lambda>r. info_hash r = h) (torrent_tbl w))), v)"
    "tick v = tick w" "fault v = fault w"
    using delete_torrent_effect [OF assms(1)] by metis
  from exec_one_healthy [where stmt = "delete_torrent h", OF assms(2) this(1,3,2)] show ?thesis
    using filter_key_length [of info_hash h "torrent_tbl w"] rows_None_iff [OF assms(1), of h]
    by (simp add: Delete_def)
qed

section \<open>The repository meets the contract\<close>

lemma rest_outer_piece: "rest w' = rest w \<Longrightarrow> outer w' = outer w \<and> piece_rows w' = piece_rows w"
  by (simp add: rest_def outer_def piece_rows_def [abs_def])

interpretation store: torrent_store db_inv rows rest outer piece_rows healthy
  Create Get List Delete SetMetadata SetBytesCompleted SetPaused
proof (rule torrent_store.intro)
  fix w w' :: "'a sql_world_scheme" and c c' :: ctx and h :: string and t r rl ru ts e p
    and x :: unit and nm :: string and len n :: int and b :: bool
  show "rows w h = Some t \<Longrightarrow> db_InfoHash t = h" by (rule rows_key)
  show "rest w' = rest w \<Longrightarrow> outer w' = outer w \<and> piece_rows w' = piece_rows w"
    by (rule rest_outer_piece)
  show "row_update db_inv rows rest healthy (\<lambda>c h. SetMetadata c h nm len) (with_metadata nm len)"
    "row_update db_inv rows rest healthy (\<lambda>c h. SetBytesCompleted c h n) (with_bytes n)"
    "row_update db_inv rows rest healthy (\<lambda>c h. SetPaused c h b) (with_paused b)"
    by unfold_locales
  show "Get c h w = (r, w') \<Longrightarrow> rows w' = rows w \<and> rest w' = rest w"
    "Get c h w = (r, w') \<Longrightarrow> db_inv w \<Longrightarrow> db_inv w'"
    "Get c h w = (r, w') \<Longrightarrow> healthy c' w \<Longrightarrow> healthy c' w'"
    by (auto dest!: Get_cases(1))
  show "Get c h w = (r, w') \<Longrightarrow> returns r" using Get_cases(2) by blast
  show "List c w = (rl, w') \<Longrightarrow> rows w' = rows w \<and> rest w' = rest w"
    "List c w = (rl, w') \<Longrightarrow> db_inv w \<Longrightarrow> db_inv w'"
    "List c w = (rl, w') \<Longrightarrow> healthy c' w \<Longrightarrow> healthy c' w'"
    using List_tick funpow_tock_healthy by fastforce+
  show "List c w = (rl, w') \<Longrightarrow> returns rl"
    by (auto simp: List_def QueryContext_def split: call_splits option.splits prod.splits
        dest: scan_rows_returns)
  show "Create c t w = (ru, w') \<Longrightarrow> rest w' = rest w"
    "Create c t w = (ru, w') \<Longrightarrow> healthy c' w \<Longrightarrow> healthy c' w'"
    "Create c t w = (ru, w') \<Longrightarrow> returns ru"
    using Create_frame by blast+
  show "Delete c h w = (ru, w') \<Longrightarrow> db_inv w \<Longrightarrow> outer w' = outer w"
    "Delete c h w = (ru, w') \<Longrightarrow> db_inv w \<Longrightarrow> db_inv w'"
    "Delete c h w = (ru, w') \<Longrightarrow> db_inv w \<Longrightarrow> healthy c' w \<Longrightarrow> healthy c' w'"
    using Delete_effect by blast+
  show "db_inv w \<Longrightarrow> Delete c h w = (Ok x, w') \<Longrightarrow>
      rows w h \<noteq> None \<and> rows w' = (rows w)(h := None) \<and> piece_rows w' = without_hash h (piece_rows w)"
    using Delete_effect by fastforce
  show "db_inv w \<Longrightarrow> Delete c h w = (Err e, w') \<Longrightarrow> errors_is e DbTorrentNotFound \<Longrightarrow>
      rows w h = None \<and> rows w' = rows w \<and> piece_rows w' = piece_rows w"
    using Delete_effect by fastforce
  show "db_inv w \<Longrightarrow> Delete c h w = (Err e, w') \<Longrightarrow>
      rows w' = rows w \<and> piece_rows w' = piece_rows w \<or>
      rows w' = (rows w)(h := None) \<and> piece_rows w' = without_hash h (piece_rows w)"
    using Delete_effect by fastforce
  show "Delete c h w = (ru, w') \<Longrightarrow> returns ru"
    by (auto simp: Delete_def exec_one_def ExecContext_def RowsAffected_def delete_torrent_def Let_def
        split: option.splits if_splits)
qed (erule Get_Ok Get_missing Get_works List_Ok List_works Create_invar Create_Ok Create_Err
      Create_dup Create_works Delete_works; assumption)+

end
