(* ===== verification/PieceRepo.thy ===== *)
theory PieceRepo
  imports TorrentStore
begin

text \<open>
  \<open>PieceRepository\<close> of \<open>internal/server/database/piece.go\<close>: the persistent piece-completion store
  behind an in-memory cache. \<open>agree\<close> is the promise in the comments of \<open>Set\<close>, \<open>Load\<close> and
  \<open>Forget\<close>: the cache says what the table says. The mutex makes every operation atomic, which is
  how the definitions run.
\<close>

record piece_world = sql_world +
  piece_cache :: "hash \<times> int \<Rightarrow> bool option"

text \<open>\<open>storage.Completion\<close>.\<close>

record completion =
  cmp_Err :: "go_error option"
  cmp_Ok :: bool
  cmp_Complete :: bool

section \<open>Operations\<close>

definition NewPieceRepository :: "'a piece_world_scheme \<Rightarrow> 'a piece_world_scheme" where
  "NewPieceRepository w = w\<lparr>piece_cache := \<lambda>_. None\<rparr>"

definition load_row :: "piece_row \<Rightarrow> go_error + (hash \<times> int) \<times> bool" where
  "load_row r =
     (case FromHexString (p_info_hash r) of
        Inl err \<Rightarrow>
          Inl (Errorf (''failed to parse piece completion info hash '' @ go_quote (p_info_hash r) @ '': '') err [])
      | Inr hash \<Rightarrow> Inr ((hash, piece_index r), complete r))"

text \<open>\<open>loaded[key] = complete\<close>.\<close>

definition cache_put :: "('k \<Rightarrow> bool option) \<Rightarrow> 'k \<times> bool \<Rightarrow> 'k \<Rightarrow> bool option" where
  "cache_put m x = m(fst x \<mapsto> snd x)"

definition Load :: "ctx \<Rightarrow> 'a piece_world_scheme \<Rightarrow> unit res \<times> 'a piece_world_scheme" where
  "Load c w =
     call (QueryContext c select_pieces w)
       (\<lambda>rows w.
          call (scan_rows c ''failed to scan piece completion row: '' load_row rows [] w)
            (\<lambda>(loaded, rows_Err) w.
               case rows_Err of
                 Some err \<Rightarrow> (Err (Errorf ''failed to read piece completion rows: '' err []), w)
               | None \<Rightarrow>
                   (Ok (), w\<lparr>piece_cache := foldl cache_put (\<lambda>_. None) loaded\<rparr>))
            (\<lambda>err w. (Err err, w)))
       (\<lambda>err w. (Err (Errorf ''failed to load piece completion cache: '' err []), w))"

definition piece_Get :: "hash \<times> int \<Rightarrow> 'a piece_world_scheme \<Rightarrow> completion res \<times> 'a piece_world_scheme" where
  "piece_Get pk w =
     (case piece_cache w pk of
        None \<Rightarrow> (Ok \<lparr>cmp_Err = None, cmp_Ok = False, cmp_Complete = False\<rparr>, w)
      | Some b \<Rightarrow> (Ok \<lparr>cmp_Err = None, cmp_Ok = True, cmp_Complete = b\<rparr>, w))"

definition piece_Set :: "hash \<times> int \<Rightarrow> bool \<Rightarrow> 'a piece_world_scheme \<Rightarrow> unit res \<times> 'a piece_world_scheme" where
  "piece_Set pk b w =
     call (ExecContext background
             (upsert_piece \<lparr>p_info_hash = HexString (fst pk), piece_index = snd pk, complete = b\<rparr>) w)
       (\<lambda>_ w. (Ok (), w\<lparr>piece_cache := (piece_cache w)(pk \<mapsto> b)\<rparr>))
       (\<lambda>err w. (Err (Errorf ''failed to upsert piece completion: '' err []), w))"

definition Forget :: "string \<Rightarrow> 'a piece_world_scheme \<Rightarrow> 'a piece_world_scheme" where
  "Forget infoHash w =
     w\<lparr>piece_cache := \<lambda>pk. if HexString (fst pk) = infoHash then None else piece_cache w pk\<rparr>"

definition piece_Close :: "'a piece_world_scheme \<Rightarrow> unit res \<times> 'a piece_world_scheme" where
  "piece_Close w = (Ok (), w)"

definition Persistent :: bool where
  "Persistent = True"

section \<open>The cache agrees with the table\<close>

definition canonical_pieces :: "'a sql_world_scheme \<Rightarrow> bool" where
  "canonical_pieces w \<longleftrightarrow> (\<forall>r \<in> set (piece_tbl w). \<exists>h. wf_hash h \<and> p_info_hash r = HexString h)"

text \<open>What the table says about a piece key.\<close>

definition stored :: "'a sql_world_scheme \<Rightarrow> hash \<times> int \<Rightarrow> bool option" where
  "stored w pk = (if wf_hash (fst pk) then piece_rows w (HexString (fst pk), snd pk) else None)"

definition agree :: "'a piece_world_scheme \<Rightarrow> bool" where
  "agree w \<longleftrightarrow> canonical_pieces w \<and> piece_cache w = stored w"

text \<open>What holds also when a deletion is reported as failed after the database has done it, so that \<open>Forget\<close> is
  not called: the cache has everything that is stored.\<close>

definition covers :: "'a piece_world_scheme \<Rightarrow> bool" where
  "covers w \<longleftrightarrow> canonical_pieces w \<and> stored w \<subseteq>\<^sub>m piece_cache w"

lemma agree_covers: "agree w \<Longrightarrow> covers w"
  by (simp add: agree_def covers_def)

text \<open>\<open>agree\<close> up to the entries of one hash: the state between the deletion of a torrent's row and
  \<open>Forget\<close>.\<close>

definition agree_but :: "string \<Rightarrow> 'a piece_world_scheme \<Rightarrow> bool" where
  "agree_but s w \<longleftrightarrow> canonical_pieces w \<and> (\<forall>pk. HexString (fst pk) \<noteq> s \<longrightarrow> piece_cache w pk = stored w pk)"

lemma agree_agree_but: "agree w \<Longrightarrow> agree_but s w"
  by (simp add: agree_def agree_but_def)

subsection \<open>Set\<close>

lemma piece_Set_cases:
  assumes "piece_Set pk b w = (r, w')"
  obtains (refused) m where "fault w (tick w) = Some m" "w' = tock w"
      "r = Err (Errorf ''failed to upsert piece completion: '' (DriverError m) [])"
    | (stored) "fault w (tick w) = None" "r = Ok ()"
      "w' = tock (w\<lparr>piece_tbl := delete_by piece_pk (HexString (fst pk), snd pk) (piece_tbl w) @
               [\<lparr>p_info_hash = HexString (fst pk), piece_index = snd pk, complete = b\<rparr>],
             piece_cache := (piece_cache w)(pk \<mapsto> b)\<rparr>)"
  using assms
  by (cases "fault w (tick w)")
    (auto simp: piece_Set_def ExecContext_def driver_error_def upsert_piece_def piece_pk_def tock_def)

lemma piece_rows_upsert:
  "map_option complete (lookup_by piece_pk k (delete_by piece_pk (piece_pk r) ps @ [r])) =
    ((\<lambda>k. map_option complete (lookup_by piece_pk k ps))(piece_pk r \<mapsto> complete r)) k"
  by (simp add: lookup_by_append lookup_delete_by split: option.split)

lemma piece_tock [simp]:
  "piece_cache (tock w) = piece_cache w" "stored (tock w) = stored w"
  "canonical_pieces (tock w) = canonical_pieces w"
  by (auto simp: tock_def stored_def [abs_def] piece_rows_def [abs_def] canonical_pieces_def)

lemma stored_upsert:
  assumes "wf_hash (fst pk)"
  shows "stored (w\<lparr>piece_tbl := delete_by piece_pk (HexString (fst pk), snd pk) (piece_tbl w) @
      [\<lparr>p_info_hash = HexString (fst pk), piece_index = snd pk, complete = b\<rparr>], piece_cache := m\<rparr>) =
    (stored w)(pk \<mapsto> b)"
proof
  fix k :: "hash \<times> int"
  let ?r = "\<lparr>p_info_hash = HexString (fst pk), piece_index = snd pk, complete = b\<rparr>"
  show "stored (w\<lparr>piece_tbl := delete_by piece_pk (HexString (fst pk), snd pk) (piece_tbl w) @ [?r],
      piece_cache := m\<rparr>) k = ((stored w)(pk \<mapsto> b)) k"
    using piece_rows_upsert [of "(HexString (fst k), snd k)" ?r "piece_tbl w"] assms
    by (cases k; cases pk) (auto simp: stored_def piece_rows_def piece_pk_def)
qed

lemma canonical_upsert:
  assumes "canonical_pieces w" "wf_hash (fst pk)"
  shows "canonical_pieces (w\<lparr>piece_tbl := delete_by piece_pk (HexString (fst pk), snd pk) (piece_tbl w) @
      [\<lparr>p_info_hash = HexString (fst pk), piece_index = snd pk, complete = b\<rparr>], piece_cache := m\<rparr>)"
  using assms by (auto simp: canonical_pieces_def set_delete_by)

lemma piece_Set_agree:
  assumes "agree w" "wf_hash (fst pk)" "piece_Set pk b w = (r, w')"
  shows "agree w'"
  using assms(3)
proof (cases rule: piece_Set_cases)
  case stored
  then show ?thesis using assms(1,2) by (simp add: agree_def stored_upsert canonical_upsert)
qed (use assms(1) in \<open>simp add: agree_def\<close>)

lemma piece_Set_covers:
  assumes "covers w" "wf_hash (fst pk)" "piece_Set pk b w = (r, w')"
  shows "covers w'"
  using assms(3)
proof (cases rule: piece_Set_cases)
  case stored
  then show ?thesis using assms(1,2) by (simp add: covers_def stored_upsert canonical_upsert map_le_upd)
qed (use assms(1) in \<open>simp add: covers_def\<close>)

lemma piece_Set_effect:
  assumes "piece_Set pk b w = (r, w')"
  shows "piece_cache w' = (case r of Ok _ \<Rightarrow> (piece_cache w)(pk \<mapsto> b) | _ \<Rightarrow> piece_cache w)"
  using assms by (cases rule: piece_Set_cases) (auto simp: tock_def)

lemma piece_Set_frame:
  assumes "piece_Set pk b w = (r, w')"
  shows "rows w' = rows w" "db_inv w \<Longrightarrow> db_inv w'" "healthy c w \<Longrightarrow> healthy c w'" "returns r"
    "torrent_tbl w' = torrent_tbl w" "piece_world.more w' = piece_world.more w" "fault w' = fault w"
    "now_at w' = now_at w" "parse_general w' = parse_general w"
proof -
  show "rows w' = rows w"
    using assms by (cases rule: piece_Set_cases)
      (auto simp: tock_def rows_def [abs_def] select_torrent_def)
  show "db_inv w \<Longrightarrow> db_inv w'"
    using assms by (cases rule: piece_Set_cases)
      (auto simp: tock_def db_inv_def distinct_delete_by set_delete_by piece_pk_def)
  show "healthy c w \<Longrightarrow> healthy c w'"
    using assms by (cases rule: piece_Set_cases) (auto simp: tock_def healthy_def)
qed (use assms in \<open>cases rule: piece_Set_cases; simp add: tock_def\<close>)+

subsection \<open>Load\<close>

lemma foldl_upd_notin:
  "pk \<notin> fst ` set xs \<Longrightarrow> foldl cache_put m xs pk = m pk"
  by (induction xs arbitrary: m) (auto simp: cache_put_def)

lemma foldl_upd_lookup:
  "distinct (map fst xs) \<Longrightarrow> foldl cache_put m xs pk =
    (case map_of xs pk of None \<Rightarrow> m pk | Some b \<Rightarrow> Some b)"
proof (induction xs arbitrary: m)
  case (Cons x xs)
  obtain k b where x: "x = (k, b)" by (cases x)
  show ?case
  proof (cases "pk = k")
    case True
    with Cons.prems x have "map_of xs pk = None" "pk \<notin> fst ` set xs" by (auto simp: map_of_eq_None_iff)
    moreover have "cache_put m x pk = Some b" using True x by (simp add: cache_put_def)
    ultimately show ?thesis using True x by (simp add: foldl_upd_notin)
  next
    case False
    then have "cache_put m x pk = m pk" using x by (simp add: cache_put_def)
    with False Cons x show ?thesis by (simp split: option.splits)
  qed
qed simp

lemma load_row_canonical:
  "wf_hash h \<Longrightarrow> p_info_hash r = HexString h \<Longrightarrow> load_row r = Inr ((h, piece_index r), complete r)"
  by (simp add: load_row_def FromHexString_HexString)

lemma loaded_map_of:
  assumes "map load_row rs = map Inr xs"
    "\<forall>r \<in> set rs. \<exists>h. wf_hash h \<and> p_info_hash r = HexString h" "distinct (map piece_pk rs)"
  shows "distinct (map fst xs) \<and> (\<forall>h i. map_of xs (h, i) =
    (if wf_hash h then map_option complete (lookup_by piece_pk (HexString h, i) rs) else None))"
  using assms
proof (induction rs arbitrary: xs)
  case (Cons r rs)
  then obtain h where h: "wf_hash h" "p_info_hash r = HexString h" by auto
  from Cons.prems(1) obtain ys where xs: "xs = ((h, piece_index r), complete r) # ys"
    and ys: "map load_row rs = map Inr ys"
    by (cases xs) (auto simp: load_row_canonical [OF h])
  have ih: "distinct (map fst ys) \<and> (\<forall>h i. map_of ys (h, i) =
    (if wf_hash h then map_option complete (lookup_by piece_pk (HexString h, i) rs) else None))"
    using Cons.IH [OF ys] Cons.prems by auto
  have "lookup_by piece_pk (HexString h, piece_index r) rs = None"
    using Cons.prems(3) h by (auto simp: lookup_by_None piece_pk_def)
  with ih h have "map_of ys (h, piece_index r) = None" by simp
  then have "(h, piece_index r) \<notin> fst ` set ys" by (simp add: map_of_eq_None_iff)
  with ih h show ?case by (auto simp: xs piece_pk_def)
qed simp

lemma Load_Ok:
  assumes inv: "db_inv w" and can: "canonical_pieces w" and run: "Load c w = (Ok x, w')"
  shows "agree w' \<and> rows w' = rows w \<and> piece_rows w' = piece_rows w \<and> db_inv w'"
proof -
  from run obtain xs v where scan: "scan_rows c ''failed to scan piece completion row: '' load_row
      (piece_tbl w) [] (tock w) = (Ok (xs, None), v)"
    and w': "w' = v\<lparr>piece_cache := foldl cache_put (\<lambda>_. None) xs\<rparr>"
    by (auto simp: Load_def QueryContext_def select_pieces_def split: call_splits option.splits prod.splits)
  from scan_rows_tick [OF scan] obtain k where v: "v = (tock ^^ Suc k) w" by (auto simp: funpow_swap1)
  have tbl: "piece_tbl v = piece_tbl w" "torrent_tbl v = torrent_tbl w" "parse_general v = parse_general w"
    "now_at v = now_at w"
    unfolding v by (induction k) auto
  have "map load_row (piece_tbl w) = map Inr xs" using scan_rows_Ok [OF scan] by simp
  moreover have "distinct (map piece_pk (piece_tbl w))" using inv by (simp add: db_inv_def)
  ultimately have m: "distinct (map fst xs)" "\<And>h i. map_of xs (h, i) =
    (if wf_hash h then map_option complete (lookup_by piece_pk (HexString h, i) (piece_tbl w)) else None)"
    using loaded_map_of can unfolding canonical_pieces_def by blast+
  have "piece_cache w' = stored w'"
    by (rule ext) (auto simp: w' foldl_upd_lookup [OF m(1)] m(2) stored_def piece_rows_def tbl
        split: option.splits if_splits)
  with can inv show ?thesis
    by (simp add: agree_def canonical_pieces_def w' tbl rows_def [abs_def] select_torrent_def
        piece_rows_def [abs_def] db_inv_def)
qed

lemma Load_works:
  assumes "canonical_pieces w" "healthy c w"
  shows "\<exists>w'. Load c w = (Ok (), w')"
proof -
  have "\<exists>x. load_row r = Inr x" if "r \<in> set (piece_tbl w)" for r
    using that assms(1) load_row_canonical by (auto simp: canonical_pieces_def)
  then obtain xs v where "scan_rows c ''failed to scan piece completion row: '' load_row
      (piece_tbl w) [] (tock w) = (Ok (xs, None), v)"
    using scan_rows_works [OF healthy_tock [OF assms(2)]] by blast
  with healthy_now [OF assms(2)] show ?thesis
    by (auto simp: Load_def QueryContext_def select_pieces_def)
qed

subsection \<open>Forget\<close>

lemma Forget_agree: "agree_but s w \<Longrightarrow> (\<And>i. piece_rows w (s, i) = None) \<Longrightarrow> agree (Forget s w)"
proof -
  assume but: "agree_but s w" and gone: "\<And>i. piece_rows w (s, i) = None"
  have "piece_cache (Forget s w) = stored (Forget s w)"
  proof
    fix pk
    have same: "stored (Forget s w) pk = stored w pk"
      by (simp add: stored_def piece_rows_def Forget_def)
    show "piece_cache (Forget s w) pk = stored (Forget s w) pk"
      using but gone unfolding same by (cases pk) (auto simp: Forget_def agree_but_def stored_def)
  qed
  with but show ?thesis by (simp add: agree_def agree_but_def canonical_pieces_def Forget_def)
qed

lemma Forget_frame [simp]:
  "torrent_tbl (Forget s w) = torrent_tbl w" "piece_tbl (Forget s w) = piece_tbl w"
  "tick (Forget s w) = tick w" "fault (Forget s w) = fault w" "now_at (Forget s w) = now_at w"
  "parse_general (Forget s w) = parse_general w"
  "piece_world.more (Forget s w) = piece_world.more w"
  "rows (Forget s w) = rows w" "piece_rows (Forget s w) = piece_rows w"
  "db_inv (Forget s w) = db_inv w" "healthy c (Forget s w) = healthy c w"
  by (auto simp: Forget_def rows_def [abs_def] select_torrent_def piece_rows_def [abs_def]
      db_inv_def healthy_def)

end
