(* ===== verification/Paths.thy ===== *)
theory Paths
  imports Prelude
begin

text \<open>
  Slash-separated paths: \<open>path.Join\<close>, \<open>filepath.Join\<close> and \<open>filepath.Clean\<close> of Go's standard library
  on Unix, and \<open>ToSafeFilePath\<close> of the storage package
  (\<open>licenses/github.com/anacrolix/torrent/storage/safe-path.go\<close>), which the torrent client applies to
  the names a torrent brings. The server's own code joins such names with \<open>filepath.Join\<close> only.
  The lemmas say when a join stays below the directory it starts from.
\<close>

section \<open>Splitting and joining\<close>

text \<open>\<open>strings.Split(s, sep)\<close> and \<open>strings.Join(xs, sep)\<close> for a one-byte separator.\<close>

fun split_on :: "char \<Rightarrow> string \<Rightarrow> string list" where
  "split_on sep [] = [[]]"
| "split_on sep (c # cs) =
     (if c = sep then [] # split_on sep cs
      else (case split_on sep cs of [] \<Rightarrow> [[c]] | x # xs \<Rightarrow> (c # x) # xs))"

fun join_with :: "string \<Rightarrow> string list \<Rightarrow> string" where
  "join_with sep [] = []"
| "join_with sep [x] = x"
| "join_with sep (x # y # xs) = x @ sep @ join_with sep (y # xs)"

abbreviation slash :: char where
  "slash \<equiv> CHR 0x2F"

lemma split_on_not_Nil [simp]: "split_on sep s \<noteq> []"
  by (induction s) (auto split: list.splits)

lemma split_on_notin: "sep \<notin> set s \<Longrightarrow> split_on sep s = [s]"
  by (induction s) auto

lemma split_on_append: "split_on sep (a @ sep # b) = split_on sep a @ split_on sep b"
  by (induction a) (auto split: list.splits)

lemma split_on_notin_append: "sep \<notin> set a \<Longrightarrow> split_on sep (a @ sep # b) = a # split_on sep b"
  by (simp add: split_on_append split_on_notin)

lemma set_split_on: "x \<in> set (split_on sep s) \<Longrightarrow> sep \<notin> set x"
proof (induction s arbitrary: x)
  case (Cons c cs)
  then show ?case
    by (cases "split_on sep cs") (auto split: if_splits)
qed simp

lemma split_on_join:
  "xs \<noteq> [] \<Longrightarrow> (\<And>x. x \<in> set xs \<Longrightarrow> sep \<notin> set x) \<Longrightarrow> split_on sep (join_with [sep] xs) = xs"
proof (induction xs rule: induct_list012)
  case (3 x y zs)
  then show ?case by (simp add: split_on_notin_append)
qed (auto simp: split_on_notin)

lemma join_split_on: "join_with [sep] (split_on sep s) = s"
proof (induction s)
  case (Cons c cs)
  obtain x xs where x: "split_on sep cs = x # xs" by (cases "split_on sep cs") auto
  show ?case
  proof (cases "c = sep")
    case True
    with Cons x show ?thesis by simp
  next
    case False
    with Cons x show ?thesis by (cases xs) auto
  qed
qed simp

section \<open>filepath.Clean and filepath.Join\<close>

text \<open>\<open>Clean\<close> keeps a stack of components (innermost first): empty components and \<open>.\<close> vanish, \<open>..\<close>
  removes the component before it, or disappears at the root of an absolute path, or stays
  at the front of a relative one.\<close>

definition clean_step :: "bool \<Rightarrow> string list \<Rightarrow> string \<Rightarrow> string list" where
  "clean_step rooted st c =
     (if c = [] \<or> c = ''.'' then st
      else if c = ''..'' then
        (case st of [] \<Rightarrow> (if rooted then [] else [''..''])
         | t # ts \<Rightarrow> (if t = ''..'' then ''..'' # st else ts))
      else c # st)"

definition is_abs :: "string \<Rightarrow> bool" where
  "is_abs s = (case s of [] \<Rightarrow> False | c # _ \<Rightarrow> c = slash)"

definition clean_comps :: "string \<Rightarrow> string list" where
  "clean_comps s = rev (foldl (clean_step (is_abs s)) [] (split_on slash s))"

definition render_path :: "bool \<Rightarrow> string list \<Rightarrow> string" where
  "render_path rooted cs =
     (if rooted then slash # join_with [slash] cs
      else if cs = [] then ''.'' else join_with [slash] cs)"

definition Clean :: "string \<Rightarrow> string" where
  "Clean s = render_path (is_abs s) (clean_comps s)"

text \<open>\<open>Join\<close> drops leading empty elements, joins the rest with slashes and cleans the result.\<close>

definition path_Join :: "string list \<Rightarrow> string" where
  "path_Join elems =
     (case dropWhile (\<lambda>e. e = []) elems of [] \<Rightarrow> [] | es \<Rightarrow> Clean (join_with [slash] es))"

text \<open>\<open>a\<close> is \<open>b\<close> or lies below it, component by component.\<close>

definition path_comps :: "string \<Rightarrow> string list" where
  "path_comps s = filter (\<lambda>c. c \<noteq> []) (split_on slash s)"

definition under :: "string \<Rightarrow> string \<Rightarrow> bool" where
  "under b a = (take (length (path_comps b)) (path_comps a) = path_comps b \<and> is_abs a = is_abs b)"

definition strictly_under :: "string \<Rightarrow> string \<Rightarrow> bool" where
  "strictly_under b a = (under b a \<and> length (path_comps b) < length (path_comps a))"

text \<open>One ordinary path component: what a well-behaved torrent name is.\<close>

definition plain_component :: "string \<Rightarrow> bool" where
  "plain_component c = (c \<noteq> [] \<and> c \<noteq> ''.'' \<and> c \<noteq> ''..'' \<and> slash \<notin> set c)"

section \<open>Facts about cleaning\<close>

lemma clean_step_simps [simp]:
  "clean_step r st [] = st"
  "clean_step r st ''.'' = st"
  "plain_component c \<Longrightarrow> clean_step r st c = c # st"
  by (auto simp: clean_step_def plain_component_def)

text \<open>What the stack of a clean path looks like: ordinary components on top of leading
  \<open>..\<close> components, and no \<open>..\<close> at all in an absolute path.\<close>

definition good_stack :: "bool \<Rightarrow> string list \<Rightarrow> bool" where
  "good_stack r st =
     (\<exists>ps n. st = ps @ replicate n ''..'' \<and> list_all plain_component ps \<and> (r \<longrightarrow> n = 0))"

lemma good_stack_Nil [simp]: "good_stack r []"
  by (simp add: good_stack_def)

lemma good_stackI:
  "list_all plain_component ps \<Longrightarrow> (r \<Longrightarrow> n = 0) \<Longrightarrow> good_stack r (ps @ replicate n ''..'')"
  by (auto simp: good_stack_def)

lemma good_stack_comp: "good_stack r st \<Longrightarrow> c \<in> set st \<Longrightarrow> c = ''..'' \<or> plain_component c"
  by (auto simp: good_stack_def list_all_iff)

lemma good_stack_step:
  assumes "good_stack r st" and "slash \<notin> set c"
  shows "good_stack r (clean_step r st c)"
proof -
  from assms(1) obtain ps n where st: "st = ps @ replicate n ''..''"
    and ps: "list_all plain_component ps" and n: "r \<longrightarrow> n = 0"
    by (auto simp: good_stack_def)
  consider "c = [] \<or> c = ''.''" | "c = ''..''" | "plain_component c"
    using assms(2) by (auto simp: plain_component_def)
  then show ?thesis
  proof cases
    case 1
    with assms(1) show ?thesis by auto
  next
    case 2
    show ?thesis
    proof (cases ps)
      case Nil
      then have "clean_step r st c = (if r then [] else replicate (Suc n) ''..'')"
        using 2 st n by (cases n) (auto simp: clean_step_def)
      then show ?thesis
        using good_stackI [of "[]" r "Suc n"] by auto
    next
      case (Cons p qs)
      then have "clean_step r st c = qs @ replicate n ''..''"
        using 2 st ps by (auto simp: clean_step_def plain_component_def)
      with Cons ps n show ?thesis by (auto simp: good_stack_def)
    qed
  next
    case 3
    with st ps n show ?thesis
      by (auto simp: good_stack_def intro!: exI [of _ "c # ps"])
  qed
qed

lemma good_stack_foldl:
  "good_stack r st \<Longrightarrow> (\<And>c. c \<in> set cs \<Longrightarrow> slash \<notin> set c) \<Longrightarrow>
    good_stack r (foldl (clean_step r) st cs)"
  by (induction cs arbitrary: st) (auto intro: good_stack_step)

lemma clean_comps_good: "good_stack (is_abs s) (rev (clean_comps s))"
  by (auto simp: clean_comps_def intro!: good_stack_foldl dest: set_split_on)

text \<open>An absolute path never keeps a \<open>..\<close>.\<close>

lemma clean_comps_abs: "is_abs s \<Longrightarrow> list_all plain_component (clean_comps s)"
  using clean_comps_good [of s] by (auto simp: good_stack_def list_all_iff)

lemma clean_comps_noslash:
  assumes "c \<in> set (clean_comps s)"
  shows "slash \<notin> set c \<and> c \<noteq> []"
proof -
  from assms have "c = ''..'' \<or> plain_component c"
    using good_stack_comp [OF clean_comps_good] by simp
  then show ?thesis by (auto simp: plain_component_def)
qed

lemma path_comps_render:
  assumes "\<And>c. c \<in> set cs \<Longrightarrow> slash \<notin> set c \<and> c \<noteq> []" "r \<or> cs \<noteq> []"
  shows "path_comps (render_path r cs) = cs"
proof (cases "cs = []")
  case True
  with assms(2) show ?thesis by (simp add: path_comps_def render_path_def)
next
  case False
  have "filter (\<lambda>c. c \<noteq> []) cs = cs"
    using assms(1) by (simp add: filter_id_conv)
  with False show ?thesis
    using split_on_join [of cs slash] assms(1)
    by (auto simp: path_comps_def render_path_def)
qed

lemma is_abs_join_with:
  assumes "c \<noteq> []" "slash \<notin> set c"
  shows "\<not> is_abs (join_with sep (c # cs))"
  using assms by (cases c; cases cs) (auto simp: is_abs_def)

lemma is_abs_render:
  assumes "\<And>c. c \<in> set cs \<Longrightarrow> slash \<notin> set c \<and> c \<noteq> []"
  shows "is_abs (render_path r cs) = r"
proof (cases cs)
  case Nil
  then show ?thesis by (simp add: render_path_def is_abs_def)
next
  case (Cons c ds)
  have abs: "is_abs (slash # x)" for x by (simp add: is_abs_def)
  from Cons assms have "c \<noteq> []" "slash \<notin> set c" by auto
  then show ?thesis using Cons is_abs_join_with [of c "[slash]" ds] abs
    by (simp add: render_path_def)
qed

lemma is_abs_Clean [simp]: "is_abs (Clean s) = is_abs s"
  unfolding Clean_def by (rule is_abs_render) (simp add: clean_comps_noslash)

lemma path_comps_Clean: "is_abs s \<Longrightarrow> path_comps (Clean s) = clean_comps s"
  unfolding Clean_def by (rule path_comps_render) (auto simp: clean_comps_noslash)

section \<open>Joining a name to a directory\<close>

lemma Join_two: "d \<noteq> [] \<Longrightarrow> path_Join [d, n] = Clean (d @ slash # n)"
  by (simp add: path_Join_def)

lemma is_abs_append [simp]: "d \<noteq> [] \<Longrightarrow> is_abs (d @ x) = is_abs d"
  by (auto simp: is_abs_def split: list.splits)

lemma clean_comps_join:
  "d \<noteq> [] \<Longrightarrow> clean_comps (d @ slash # n) =
     rev (foldl (clean_step (is_abs d)) (rev (clean_comps d)) (split_on slash n))"
  by (simp add: clean_comps_def split_on_append)

lemma foldl_clean_plain:
  "(\<And>c. c \<in> set cs \<Longrightarrow> c = [] \<or> c = ''.'' \<or> plain_component c) \<Longrightarrow>
    foldl (clean_step r) st cs = rev (filter plain_component cs) @ st"
  by (induction cs arbitrary: st) (auto simp: plain_component_def clean_step_def)

text \<open>A name with no \<open>..\<close> component appends its ordinary components, so the join stays below
  the directory.\<close>

lemma clean_comps_join_plain:
  assumes "d \<noteq> []" "''..'' \<notin> set (split_on slash n)"
  shows "clean_comps (d @ slash # n) = clean_comps d @ filter plain_component (split_on slash n)"
proof -
  have "c = [] \<or> c = ''.'' \<or> plain_component c" if "c \<in> set (split_on slash n)" for c
    using that assms(2) set_split_on [OF that] by (auto simp: plain_component_def)
  then show ?thesis
    using assms(1) by (simp add: clean_comps_join foldl_clean_plain)
qed

lemma Join_strictly_under:
  assumes "is_abs d" "plain_component n"
  shows "strictly_under (Clean d) (path_Join [d, n])"
proof -
  have d: "d \<noteq> []" using assms(1) by (auto simp: is_abs_def)
  have s: "split_on slash n = [n]" using assms(2) by (simp add: split_on_notin plain_component_def)
  with assms(2) have "clean_comps (d @ slash # n) = clean_comps d @ [n]"
    using clean_comps_join_plain [OF d, of n] by (auto simp: plain_component_def)
  then show ?thesis
    using assms(1) d
    by (simp add: strictly_under_def under_def Join_two path_comps_Clean)
qed

text \<open>A name \<open>..\<close> escapes: the join is the parent of the directory.\<close>

lemma Join_dotdot:
  assumes "is_abs d"
  shows "path_comps (path_Join [d, ''..'']) = butlast (path_comps (Clean d))"
proof -
  have d: "d \<noteq> []" using assms by (auto simp: is_abs_def)
  have "list_all plain_component (rev (clean_comps d))"
    using clean_comps_abs [OF assms] by simp
  then have "clean_step True (rev (clean_comps d)) ''..'' = tl (rev (clean_comps d))"
    by (cases "rev (clean_comps d)") (auto simp: clean_step_def plain_component_def)
  then have "clean_comps (d @ slash # ''..'') = rev (tl (rev (clean_comps d)))"
    using d assms by (simp add: clean_comps_join)
  then show ?thesis
    using d assms by (simp add: Join_two path_comps_Clean butlast_rev [of "rev _", simplified])
qed

text \<open>A name \<open>.\<close> is the directory itself.\<close>

lemma Join_dot:
  assumes "is_abs d"
  shows "path_comps (path_Join [d, ''.'']) = path_comps (Clean d)"
proof -
  have d: "d \<noteq> []" using assms by (auto simp: is_abs_def)
  then show ?thesis
    using assms by (simp add: Join_two path_comps_Clean clean_comps_join)
qed

section \<open>Safe file paths of the storage package\<close>

definition firstComponent :: "string \<Rightarrow> string" where
  "firstComponent filePath = hd (split_on slash filePath)"

definition ToSafeFilePath :: "string list \<Rightarrow> go_error + string" where
  "ToSafeFilePath fileInfoComponents =
     (let safeFilePath = path_Join (map Clean fileInfoComponents) in
      if firstComponent safeFilePath = ''..'' then Inl (ErrorString ''escapes root dir'')
      else Inr safeFilePath)"

lemma split_render:
  assumes "\<And>c. c \<in> set cs \<Longrightarrow> slash \<notin> set c"
  shows "set (split_on slash (render_path r cs)) \<subseteq> set cs \<union> {[], ''.''}"
  using assms split_on_join [of cs slash] by (cases "cs = []") (auto simp: render_path_def)

lemma hd_split_render:
  assumes "\<And>c. c \<in> set cs \<Longrightarrow> slash \<notin> set c" "cs \<noteq> []"
  shows "hd (split_on slash (render_path False cs)) = hd cs"
  using assms split_on_join [of cs slash] by (simp add: render_path_def)

text \<open>A clean path that does not start with \<open>..\<close> holds no \<open>..\<close> at all.\<close>

lemma Clean_no_dotdot:
  assumes "firstComponent (Clean s) \<noteq> ''..''"
  shows "''..'' \<notin> set (split_on slash (Clean s))"
proof -
  let ?cs = "clean_comps s"
  obtain ps n where cs: "?cs = replicate n ''..'' @ rev ps"
    and ps: "list_all plain_component ps" and n: "is_abs s \<Longrightarrow> n = 0"
    using clean_comps_good [of s] by (auto simp: good_stack_def rev_swap)
  have noslash: "slash \<notin> set c" if "c \<in> set ?cs" for c
    using clean_comps_noslash [OF that] by simp
  have "n = 0"
  proof (cases "is_abs s")
    case False
    show ?thesis
    proof (rule ccontr)
      assume "n \<noteq> 0"
      then have "?cs \<noteq> []" "hd ?cs = ''..''" using cs by (cases n; simp)+
      with hd_split_render [OF noslash] False assms show False
        by (simp add: firstComponent_def Clean_def)
    qed
  qed (simp add: n)
  with cs ps have "''..'' \<notin> set ?cs"
    by (auto simp: list_all_iff plain_component_def)
  with split_render [OF noslash] show ?thesis by (auto simp: Clean_def)
qed

lemma Join_under:
  assumes "is_abs d" "''..'' \<notin> set (split_on slash p)"
  shows "under (Clean d) (path_Join [d, p])"
proof -
  have d: "d \<noteq> []" using assms(1) by (auto simp: is_abs_def)
  then show ?thesis
    using assms by (simp add: under_def Join_two path_comps_Clean clean_comps_join_plain)
qed

lemma ToSafeFilePath_under:
  assumes "ToSafeFilePath cs = Inr p" "is_abs d"
  shows "under (Clean d) (path_Join [d, p])"
proof -
  have p: "p = path_Join (map Clean cs)" and f: "firstComponent p \<noteq> ''..''"
    using assms(1) by (auto simp: ToSafeFilePath_def Let_def split: if_splits)
  have "''..'' \<notin> set (split_on slash p)"
  proof (cases "dropWhile (\<lambda>e. e = []) (map Clean cs)")
    case Nil
    have "path_Join (map Clean cs) = []" unfolding path_Join_def Nil by simp
    then show ?thesis using p by simp
  next
    case (Cons e es)
    then show ?thesis using p f Clean_no_dotdot by (simp add: path_Join_def)
  qed
  then show ?thesis by (rule Join_under [OF assms(2)])
qed

end
