(* ===== verification/Engine.thy ===== *)
theory Engine
  imports PieceRepo Paths
begin

text \<open>
  The torrent engine, \<open>internal/server/torrent/engine.go\<close>, over the two interfaces of
  \<open>internal/server/torrent/client.go\<close> it is written against. An interface value is a record of
  functions on the world \<open>'w\<close>, as the Go value is a table of methods; \<open>'t\<close> are the client's torrent
  handles and \<open>'m\<close> its parsed metainfo files. The locale \<open>torrent_client\<close> states what the engine
  relies on; theory \<open>TorrentLib\<close> interprets it on a model of the library's client.
\<close>

section \<open>Interfaces and types\<close>

record TorrentStats =
  ActivePeers :: int
  ConnectedSeeders :: int

record FileProgress =
  fp_Path :: string
  fp_Length :: int
  fp_BytesCompleted :: int

record Progress =
  pr_InfoHash :: string
  pr_Name :: string
  pr_Length :: int
  pr_BytesCompleted :: int
  pr_ActivePeers :: int
  pr_Seeders :: int

text \<open>How the statement \<open>select { case <-t.GotInfo(): case <-ctx.Done(): }\<close> ends: with the first
  case, with the second, or never.\<close>

datatype wakeup = GotInfo | CtxDone | Never

text \<open>The methods of \<open>Client\<close> and \<open>Torrent\<close>. \<open>t_select\<close> is the statement above on \<open>t.GotInfo()\<close>.
  \<open>t_Files\<close> is \<open>None\<close> when the handle does not implement \<open>Files\<close>.\<close>

record ('w, 't, 'm) Client =
  cl_AddMagnet :: "string \<Rightarrow> 'w \<Rightarrow> 't res \<times> 'w"
  cl_AddTorrent :: "'m \<Rightarrow> 'w \<Rightarrow> 't res \<times> 'w"
  cl_Torrent :: "hash \<Rightarrow> 'w \<Rightarrow> 't option"
  cl_Close :: "'w \<Rightarrow> go_error list \<times> 'w"
  t_select :: "ctx \<Rightarrow> 't \<Rightarrow> 'w \<Rightarrow> wakeup \<times> 'w"
  t_VerifyDataContext :: "ctx \<Rightarrow> 't \<Rightarrow> 'w \<Rightarrow> unit res \<times> 'w"
  t_DownloadAll :: "'t \<Rightarrow> 'w \<Rightarrow> 'w"
  t_Drop :: "'t \<Rightarrow> 'w \<Rightarrow> 'w"
  t_InfoHash :: "'t \<Rightarrow> 'w \<Rightarrow> hash"
  t_Name :: "'t \<Rightarrow> 'w \<Rightarrow> string"
  t_Length :: "'t \<Rightarrow> 'w \<Rightarrow> int"
  t_BytesCompleted :: "'t \<Rightarrow> 'w \<Rightarrow> int"
  t_Stats :: "'t \<Rightarrow> 'w \<Rightarrow> TorrentStats"
  t_Files :: "('t \<Rightarrow> 'w \<Rightarrow> FileProgress list res) option"

text \<open>The engine; \<open>metainfo_Load\<close> and \<open>os_RemoveAll\<close> are the two package functions it calls.\<close>

record ('w, 't, 'm) Engine =
  client :: "('w, 't, 'm) Client"
  dataDir :: string
  metainfo_Load :: "string \<Rightarrow> go_error + 'm"
  os_RemoveAll :: "string \<Rightarrow> 'w \<Rightarrow> unit res \<times> 'w"

section \<open>Operations\<close>

text \<open>The common second half of \<open>AddMagnet\<close> and \<open>AddFile\<close>: wait for the metainfo, verify what is on
  disk, start the download.\<close>

definition start :: "('w, 't, 'm) Engine \<Rightarrow> ctx \<Rightarrow> 't \<Rightarrow> 'w \<Rightarrow> string res \<times> 'w" where
  "start e c t w =
     (let cl = client e in
      case t_select cl c t w of
        (GotInfo, w) \<Rightarrow>
          call (t_VerifyDataContext cl c t w)
            (\<lambda>_ w. let w = t_DownloadAll cl t w in (Ok (HexString (t_InfoHash cl t w)), w))
            (\<lambda>err w. (Err (Errorf ''failed to verify torrent data: '' err []), t_Drop cl t w))
      | (CtxDone, w) \<Rightarrow> (Err (Sentinel ContextCanceled), t_Drop cl t w)
      | (Never, w) \<Rightarrow> (Hang, w))"

definition eng_AddMagnet :: "('w, 't, 'm) Engine \<Rightarrow> ctx \<Rightarrow> string \<Rightarrow> 'w \<Rightarrow> string res \<times> 'w" where
  "eng_AddMagnet e c uri w =
     call (cl_AddMagnet (client e) uri w)
       (start e c)
       (\<lambda>err w. (Err (Errorf ''failed to add magnet: '' err []), w))"

definition eng_AddFile :: "('w, 't, 'm) Engine \<Rightarrow> ctx \<Rightarrow> string \<Rightarrow> 'w \<Rightarrow> string res \<times> 'w" where
  "eng_AddFile e c r w =
     (case metainfo_Load e r of
        Inl err \<Rightarrow> (Err (Errorf [] (Sentinel EngInvalidFile) ('': '' @ error_msg err)), w)
      | Inr mi \<Rightarrow>
        call (cl_AddTorrent (client e) mi w)
          (start e c)
          (\<lambda>err w. (Err (Errorf ''failed to add torrent: '' err []), w)))"

definition find :: "('w, 't, 'm) Engine \<Rightarrow> string \<Rightarrow> 'w \<Rightarrow> go_error + 't option" where
  "find e hash w =
     (case FromHexString hash of
        Inl err \<Rightarrow> Inl (Errorf (''invalid info hash '' @ go_quote hash @ '': '') err [])
      | Inr h \<Rightarrow> Inr (cl_Torrent (client e) h w))"

text \<open>The loop over the two paths of \<open>Remove\<close>.\<close>

fun remove_paths :: "('w, 't, 'm) Engine \<Rightarrow> string list \<Rightarrow> 'w \<Rightarrow> unit res \<times> 'w" where
  "remove_paths e [] w = (Ok (), w)"
| "remove_paths e (p # ps) w =
     call (os_RemoveAll e p w)
       (\<lambda>_ w. remove_paths e ps w)
       (\<lambda>err w. (Err (Errorf ''failed to remove torrent data: '' err []), w))"

definition eng_Remove :: "('w, 't, 'm) Engine \<Rightarrow> ctx \<Rightarrow> string \<Rightarrow> bool \<Rightarrow> 'w \<Rightarrow> unit res \<times> 'w" where
  "eng_Remove e c hash deleteFiles w =
     (case find e hash w of
        Inl err \<Rightarrow> (Err err, w)
      | Inr None \<Rightarrow> (Err (Sentinel EngNotFound), w)
      | Inr (Some t) \<Rightarrow>
        (let name = t_Name (client e) t w; w = t_Drop (client e) t w in
         if deleteFiles \<and> name \<noteq> []
         then remove_paths e [path_Join [dataDir e, name], path_Join [dataDir e, name @ ''.part'']] w
         else (Ok (), w)))"

definition eng_Snapshot :: "('w, 't, 'm) Engine \<Rightarrow> string \<Rightarrow> 'w \<Rightarrow> go_error + Progress" where
  "eng_Snapshot e hash w =
     (case find e hash w of
        Inl err \<Rightarrow> Inl err
      | Inr None \<Rightarrow> Inl (Sentinel EngNotFound)
      | Inr (Some t) \<Rightarrow>
        (let cl = client e; stats = t_Stats cl t w in
         Inr \<lparr>pr_InfoHash = hash, pr_Name = t_Name cl t w, pr_Length = t_Length cl t w,
              pr_BytesCompleted = t_BytesCompleted cl t w,
              pr_ActivePeers = ActivePeers stats, pr_Seeders = ConnectedSeeders stats\<rparr>))"

definition eng_Files :: "('w, 't, 'm) Engine \<Rightarrow> string \<Rightarrow> 'w \<Rightarrow> FileProgress list res" where
  "eng_Files e hash w =
     (case find e hash w of
        Inl err \<Rightarrow> Err err
      | Inr None \<Rightarrow> Err (Sentinel EngNotFound)
      | Inr (Some t) \<Rightarrow>
        (case t_Files (client e) of
           None \<Rightarrow> Err (Sentinel EngNotFound)
         | Some f \<Rightarrow> f t w))"

text \<open>\<open>anacrolixClient.Close\<close>: the errors of the inner client joined.\<close>

definition client_Close :: "('w, 't, 'm) Client \<Rightarrow> 'w \<Rightarrow> unit res \<times> 'w" where
  "client_Close cl w =
     (let (errs, w) = cl_Close cl w in
      if errs \<noteq> [] then (Err (Joined errs), w) else (Ok (), w))"

section \<open>What the engine relies on\<close>

text \<open>The live state of the torrent with hash \<open>k\<close>.\<close>

definition live_of :: "('w, 't, 'm) Client \<Rightarrow> 'w \<Rightarrow> hash \<Rightarrow> Progress option" where
  "live_of cl w k =
     map_option
       (\<lambda>t. \<lparr>pr_InfoHash = HexString k, pr_Name = t_Name cl t w, pr_Length = t_Length cl t w,
             pr_BytesCompleted = t_BytesCompleted cl t w,
             pr_ActivePeers = ActivePeers (t_Stats cl t w), pr_Seeders = ConnectedSeeders (t_Stats cl t w)\<rparr>)
       (cl_Torrent cl k w)"

lemma live_of_None_iff: "live_of cl w k = None \<longleftrightarrow> cl_Torrent cl k w = None"
  by (simp add: live_of_def)

text \<open>Every call on behalf of one torrent leaves every other torrent and everything outside the
  client (\<open>keep\<close>) as it was. \<open>magnet_hash\<close> is the info hash a magnet URI names.\<close>

locale torrent_client =
  fixes eng :: "('w, 't, 'm) Engine"
    and inv :: "'w \<Rightarrow> bool"
    and keep :: "'w \<Rightarrow> 'k"
    and healthy :: "ctx \<Rightarrow> 'w \<Rightarrow> bool"
    and magnet_hash :: "'k \<Rightarrow> string \<Rightarrow> hash option"
    and stored_pieces :: "'w \<Rightarrow> 'p"
  assumes torrent_hash: "inv w \<Longrightarrow> cl_Torrent (client eng) k w = Some t \<Longrightarrow>
            t_InfoHash (client eng) t w = k \<and> wf_hash k"
    and add_magnet_frame: "inv w \<Longrightarrow> cl_AddMagnet (client eng) uri w = (rt, w') \<Longrightarrow>
            inv w' \<and> keep w' = keep w \<and> (healthy c w \<longrightarrow> healthy c w')"
    and add_magnet_Ok: "inv w \<Longrightarrow> cl_AddMagnet (client eng) uri w = (Ok t, w') \<Longrightarrow>
            \<exists>k. cl_Torrent (client eng) k w' = Some t \<and> magnet_hash (keep w) uri = Some k \<and>
                (\<forall>j. j \<noteq> k \<longrightarrow> live_of (client eng) w' j = live_of (client eng) w j)"
    and add_magnet_refused: "inv w \<Longrightarrow> cl_AddMagnet (client eng) uri w = (rt, w') \<Longrightarrow> (\<forall>t. rt \<noteq> Ok t) \<Longrightarrow>
            live_of (client eng) w' = live_of (client eng) w"
    and add_torrent_frame: "inv w \<Longrightarrow> cl_AddTorrent (client eng) mi w = (rt, w') \<Longrightarrow>
            inv w' \<and> keep w' = keep w \<and> (healthy c w \<longrightarrow> healthy c w')"
    and add_torrent_Ok: "inv w \<Longrightarrow> cl_AddTorrent (client eng) mi w = (Ok t, w') \<Longrightarrow>
            \<exists>k. cl_Torrent (client eng) k w' = Some t \<and>
                (\<forall>j. j \<noteq> k \<longrightarrow> live_of (client eng) w' j = live_of (client eng) w j)"
    and add_torrent_refused: "inv w \<Longrightarrow> cl_AddTorrent (client eng) mi w = (rt, w') \<Longrightarrow> (\<forall>t. rt \<noteq> Ok t) \<Longrightarrow>
            \<exists>k. \<forall>j. j \<noteq> k \<longrightarrow> live_of (client eng) w' j = live_of (client eng) w j"
    and select_frame: "inv w \<Longrightarrow> cl_Torrent (client eng) k w = Some t \<Longrightarrow>
            t_select (client eng) c t w = (wk, w') \<Longrightarrow>
            inv w' \<and> keep w' = keep w \<and> (healthy c' w \<longrightarrow> healthy c' w') \<and>
            cl_Torrent (client eng) k w' = Some t \<and>
            (\<forall>j. j \<noteq> k \<longrightarrow> live_of (client eng) w' j = live_of (client eng) w j)"
    and select_background: "t_select (client eng) background t w \<noteq> (CtxDone, w')"
    and select_never: "t_select (client eng) c t w = (Never, w') \<Longrightarrow> c = background"
    and verify_frame: "inv w \<Longrightarrow> cl_Torrent (client eng) k w = Some t \<Longrightarrow>
            t_VerifyDataContext (client eng) c t w = (ru, w') \<Longrightarrow>
            inv w' \<and> keep w' = keep w \<and> (healthy c' w \<longrightarrow> healthy c' w') \<and> returns ru \<and>
            cl_Torrent (client eng) k w' = Some t \<and>
            (\<forall>j. j \<noteq> k \<longrightarrow> live_of (client eng) w' j = live_of (client eng) w j)"
    and download_frame: "inv w \<Longrightarrow> cl_Torrent (client eng) k w = Some t \<Longrightarrow>
            t_DownloadAll (client eng) t w = w' \<Longrightarrow>
            inv w' \<and> keep w' = keep w \<and> (healthy c' w \<longrightarrow> healthy c' w') \<and>
            cl_Torrent (client eng) k w' = Some t \<and>
            (\<forall>j. j \<noteq> k \<longrightarrow> live_of (client eng) w' j = live_of (client eng) w j)"
    and drop_effect: "inv w \<Longrightarrow> cl_Torrent (client eng) k w = Some t \<Longrightarrow> t_Drop (client eng) t w = w' \<Longrightarrow>
            inv w' \<and> keep w' = keep w \<and> stored_pieces w' = stored_pieces w \<and>
            (healthy c' w \<longrightarrow> healthy c' w') \<and>
            live_of (client eng) w' = (live_of (client eng) w)(k := None)"
    and remove_all_frame: "inv w \<Longrightarrow> os_RemoveAll eng p w = (ru, w') \<Longrightarrow>
            inv w' \<and> keep w' = keep w \<and> stored_pieces w' = stored_pieces w \<and>
            (healthy c' w \<longrightarrow> healthy c' w') \<and> returns ru \<and>
            live_of (client eng) w' = live_of (client eng) w"
    and remove_all_err: "os_RemoveAll eng p w = (Err err, w') \<Longrightarrow> \<not> errors_is err EngNotFound"
begin

text \<open>From \<open>w\<close> to \<open>w'\<close> only the torrent \<open>k\<close> was touched.\<close>

definition touch :: "hash \<Rightarrow> 'w \<Rightarrow> 'w \<Rightarrow> bool" where
  "touch k w w' \<longleftrightarrow> inv w' \<and> keep w' = keep w \<and> (\<forall>c. healthy c w \<longrightarrow> healthy c w') \<and>
     (\<forall>j. j \<noteq> k \<longrightarrow> live_of (client eng) w' j = live_of (client eng) w j)"

lemma touch_trans: "touch k w v \<Longrightarrow> touch k v u \<Longrightarrow> touch k w u"
  by (auto simp: touch_def)

lemma touch_refl: "inv w \<Longrightarrow> touch k w w"
  by (auto simp: touch_def)

lemma touch_drop:
  "inv w \<Longrightarrow> cl_Torrent (client eng) k w = Some t \<Longrightarrow>
    touch k w (t_Drop (client eng) t w) \<and> live_of (client eng) (t_Drop (client eng) t w) k = None"
  using drop_effect by (auto simp: touch_def)

lemma start_effect:
  assumes inv: "inv w" and t: "cl_Torrent (client eng) k w = Some t"
    and run: "start eng c t w = (r, w')"
  shows "touch k w w' \<and> (case r of
      Ok s \<Rightarrow> s = HexString k \<and> wf_hash k \<and> live_of (client eng) w' k \<noteq> None
    | Err e \<Rightarrow> live_of (client eng) w' k = None
    | Panic p \<Rightarrow> False
    | Hang \<Rightarrow> c = background)"
proof -
  obtain wk v where sel: "t_select (client eng) c t w = (wk, v)" by force
  note s = select_frame [OF inv t sel]
  have wv: "touch k w v" using s by (auto simp: touch_def)
  have v: "inv v" "cl_Torrent (client eng) k v = Some t" using s by auto
  show ?thesis
  proof (cases wk)
    case CtxDone
    with run sel wv touch_drop [OF v] touch_trans show ?thesis by (auto simp: start_def)
  next
    case Never
    with run sel wv select_never show ?thesis by (auto simp: start_def)
  next
    case GotInfo
    obtain ru u where ver: "t_VerifyDataContext (client eng) c t v = (ru, u)" by force
    note f = verify_frame [OF v ver]
    have wu: "touch k w u" using touch_trans [OF wv, of u] f by (auto simp: touch_def)
    have u: "inv u" "cl_Torrent (client eng) k u = Some t" using f by auto
    let ?d = "t_DownloadAll (client eng) t u"
    note d = download_frame [OF u refl]
    have wd: "touch k w ?d" using touch_trans [OF wu, of ?d] d by (auto simp: touch_def)
    have "returns ru" using f by blast
    then show ?thesis
    proof (cases rule: returnsE)
      case (1 a)
      with run sel GotInfo ver wd d torrent_hash [of ?d k t] show ?thesis
        by (auto simp: start_def Let_def live_of_None_iff)
    next
      case (2 e)
      with run sel GotInfo ver wu touch_drop [OF u] touch_trans show ?thesis
        by (auto simp: start_def Let_def)
    qed
  qed
qed

text \<open>The operations of the engine as the service sees them.\<close>

lemma AddMagnet_effect:
  assumes inv: "inv w" and run: "eng_AddMagnet eng c uri w = (r, w')"
  shows "\<exists>k. touch k w w' \<and> (case r of
      Ok s \<Rightarrow> s = HexString k \<and> wf_hash k \<and> live_of (client eng) w' k \<noteq> None \<and>
              magnet_hash (keep w) uri = Some k
    | Err e \<Rightarrow> live_of (client eng) w' = live_of (client eng) w \<or>
              magnet_hash (keep w) uri = Some k \<and> live_of (client eng) w' k = None
    | Panic p \<Rightarrow> live_of (client eng) w' = live_of (client eng) w
    | Hang \<Rightarrow> c = background \<or> live_of (client eng) w' = live_of (client eng) w)"
proof -
  obtain rt v where add: "cl_AddMagnet (client eng) uri w = (rt, v)" by force
  note f = add_magnet_frame [OF inv add]
  show ?thesis
  proof (cases rt)
    case (Ok t)
    from add_magnet_Ok [OF inv add [unfolded Ok]] obtain k where
      k: "cl_Torrent (client eng) k v = Some t" "magnet_hash (keep w) uri = Some k"
        "\<forall>j. j \<noteq> k \<longrightarrow> live_of (client eng) v j = live_of (client eng) w j" by blast
    have "touch k w v" using f k(3) by (auto simp: touch_def)
    moreover from run add Ok have "start eng c t v = (r, w')" by (simp add: eng_AddMagnet_def)
    with start_effect [of v k t] f k(1) have "touch k v w' \<and> (case r of
      Ok s \<Rightarrow> s = HexString k \<and> wf_hash k \<and> live_of (client eng) w' k \<noteq> None
    | Err e \<Rightarrow> live_of (client eng) w' k = None | Panic p \<Rightarrow> False | Hang \<Rightarrow> c = background)" by blast
    ultimately show ?thesis
      using touch_trans k(2) by (intro exI [of _ k]) (auto split: res.splits)
  qed (use run add add_magnet_refused [OF inv add] f in \<open>auto simp: eng_AddMagnet_def touch_def\<close>)
qed

lemma AddFile_effect:
  assumes inv: "inv w" and run: "eng_AddFile eng c bytes w = (r, w')"
  shows "\<exists>k. touch k w w' \<and> (case r of
      Ok s \<Rightarrow> s = HexString k \<and> wf_hash k \<and> live_of (client eng) w' k \<noteq> None
    | _ \<Rightarrow> True)"
proof (cases "metainfo_Load eng bytes")
  case (Inl err)
  with run inv touch_refl show ?thesis by (auto simp: eng_AddFile_def)
next
  case (Inr mi)
  obtain rt v where add: "cl_AddTorrent (client eng) mi w = (rt, v)" by force
  note f = add_torrent_frame [OF inv add]
  show ?thesis
  proof (cases rt)
    case (Ok t)
    from add_torrent_Ok [OF inv add [unfolded Ok]] obtain k where
      k: "cl_Torrent (client eng) k v = Some t"
        "\<forall>j. j \<noteq> k \<longrightarrow> live_of (client eng) v j = live_of (client eng) w j" by blast
    have "touch k w v" using f k(2) by (auto simp: touch_def)
    moreover from run add Ok Inr have st: "start eng c t v = (r, w')" by (simp add: eng_AddFile_def)
    have "touch k v w' \<and> (case r of
      Ok s \<Rightarrow> s = HexString k \<and> wf_hash k \<and> live_of (client eng) w' k \<noteq> None | _ \<Rightarrow> True)"
      using start_effect [OF _ k(1) st] f by (auto split: res.splits)
    ultimately show ?thesis using touch_trans [of k w v w'] by (intro exI [of _ k]) (auto split: res.splits)
  next
    case (Err e)
    with add_torrent_refused [OF inv add] f run add Inr show ?thesis
      by (auto simp: eng_AddFile_def touch_def)
  next
    case (Panic p)
    with add_torrent_refused [OF inv add] f run add Inr show ?thesis
      by (auto simp: eng_AddFile_def touch_def)
  next
    case Hang
    with add_torrent_refused [OF inv add] f run add Inr show ?thesis
      by (auto simp: eng_AddFile_def touch_def)
  qed
qed

lemma remove_paths_effect:
  "inv w \<Longrightarrow> remove_paths eng ps w = (r, w') \<Longrightarrow>
    inv w' \<and> keep w' = keep w \<and> stored_pieces w' = stored_pieces w \<and>
    (\<forall>c. healthy c w \<longrightarrow> healthy c w') \<and> returns r \<and>
    live_of (client eng) w' = live_of (client eng) w \<and> (\<forall>e. r = Err e \<longrightarrow> \<not> errors_is e EngNotFound)"
proof (induction ps arbitrary: w)
  case (Cons p ps)
  obtain ru v where rm: "os_RemoveAll eng p w = (ru, v)" by force
  note f = remove_all_frame [OF Cons.prems(1) rm]
  have "returns ru" using f by blast
  then show ?case
  proof (cases rule: returnsE)
    case (1 a)
    with Cons.prems rm have "remove_paths eng ps v = (r, w')" by simp
    with Cons.IH f show ?thesis by metis
  next
    case (2 e)
    with Cons.prems rm f remove_all_err show ?thesis by auto
  qed
qed auto

lemma Remove_untracked:
  assumes "FromHexString h = Inr k" "live_of (client eng) w k = None"
  shows "eng_Remove eng c h b w = (Err (Sentinel EngNotFound), w)"
  using assms by (simp add: eng_Remove_def find_def live_of_None_iff)

lemma Remove_tracked:
  assumes inv: "inv w" and h: "FromHexString h = Inr k" and tr: "live_of (client eng) w k \<noteq> None"
    and run: "eng_Remove eng c h b w = (r, w')"
  shows "inv w' \<and> keep w' = keep w \<and> stored_pieces w' = stored_pieces w \<and>
    (\<forall>c. healthy c w \<longrightarrow> healthy c w') \<and> returns r \<and>
    live_of (client eng) w' = (live_of (client eng) w)(k := None) \<and>
    (\<forall>e. r = Err e \<longrightarrow> \<not> errors_is e EngNotFound) \<and> (\<not> b \<longrightarrow> r = Ok ())"
proof -
  obtain t where t: "cl_Torrent (client eng) k w = Some t" using tr by (auto simp: live_of_None_iff)
  let ?n = "t_Name (client eng) t w" and ?d = "t_Drop (client eng) t w"
  note d = drop_effect [OF inv t refl]
  have fd: "find eng h w = Inr (Some t)" using h t by (simp add: find_def)
  show ?thesis
  proof (cases "b \<and> ?n \<noteq> []")
    case True
    with run fd have "remove_paths eng [path_Join [dataDir eng, ?n], path_Join [dataDir eng, ?n @ ''.part'']] ?d =
      (r, w')" by (simp add: eng_Remove_def Let_def)
    with remove_paths_effect [of ?d] d True show ?thesis by (smt (verit))
  next
    case False
    with run fd d show ?thesis by (auto simp: eng_Remove_def Let_def)
  qed
qed

lemma Snapshot_live:
  "eng_Snapshot eng h w =
    (case FromHexString h of
       Inl err \<Rightarrow> Inl (Errorf (''invalid info hash '' @ go_quote h @ '': '') err [])
     | Inr k \<Rightarrow> (case live_of (client eng) w k of
                 None \<Rightarrow> Inl (Sentinel EngNotFound)
               | Some p \<Rightarrow> Inr (p\<lparr>pr_InfoHash := h\<rparr>)))"
  by (auto simp: eng_Snapshot_def find_def live_of_def Let_def split: sum.splits option.splits)

end

end
