(* ===== verification/Service.thy ===== *)
theory Service
  imports Engine
begin

text \<open>
  The orchestration layer, \<open>internal/server/service/torrent.go\<close>: the three interfaces it is written
  against, its types, and each of its methods with every branch. Logging is the only effect left
  out. The theorems about it are in theory \<open>ServiceFacts\<close>.
\<close>

section \<open>Interfaces\<close>

record 'w TorrentEngine =
  te_AddMagnet :: "ctx \<Rightarrow> string \<Rightarrow> 'w \<Rightarrow> string res \<times> 'w"
  te_AddFile :: "ctx \<Rightarrow> string \<Rightarrow> 'w \<Rightarrow> string res \<times> 'w"
  te_Remove :: "ctx \<Rightarrow> string \<Rightarrow> bool \<Rightarrow> 'w \<Rightarrow> unit res \<times> 'w"
  te_Snapshot :: "string \<Rightarrow> 'w \<Rightarrow> go_error + Progress"
  te_Files :: "string \<Rightarrow> 'w \<Rightarrow> FileProgress list res"

record 'w PieceRepository =
  pr_Forget :: "string \<Rightarrow> 'w \<Rightarrow> 'w"

record 'w TorrentRepository =
  tr_Create :: "ctx \<Rightarrow> db_torrent \<Rightarrow> 'w \<Rightarrow> unit res \<times> 'w"
  tr_Get :: "ctx \<Rightarrow> string \<Rightarrow> 'w \<Rightarrow> db_torrent res \<times> 'w"
  tr_List :: "ctx \<Rightarrow> 'w \<Rightarrow> db_torrent list res \<times> 'w"
  tr_Delete :: "ctx \<Rightarrow> string \<Rightarrow> 'w \<Rightarrow> unit res \<times> 'w"
  tr_SetMetadata :: "ctx \<Rightarrow> string \<Rightarrow> string \<Rightarrow> int \<Rightarrow> 'w \<Rightarrow> unit res \<times> 'w"
  tr_SetBytesCompleted :: "ctx \<Rightarrow> string \<Rightarrow> int \<Rightarrow> 'w \<Rightarrow> unit res \<times> 'w"
  tr_SetPaused :: "ctx \<Rightarrow> string \<Rightarrow> bool \<Rightarrow> 'w \<Rightarrow> unit res \<times> 'w"

section \<open>Types\<close>

record Torrent =
  InfoHash :: string
  Magnet :: string
  Label :: string
  TargetDir :: string
  Paused :: bool
  CreatedAt :: utc
  UpdatedAt :: utc
  Name :: string
  Length :: int
  BytesCompleted :: int
  t_ActivePeers :: int
  t_Seeders :: int

record File =
  f_Path :: string
  f_Length :: int
  f_BytesCompleted :: int

record AddOptions =
  opt_Label :: string
  opt_TargetDir :: string

record 'w TorrentService =
  engine :: "'w TorrentEngine"
  torrents :: "'w TorrentRepository"
  pieces :: "'w PieceRepository"

section \<open>Reading\<close>

definition hydrate :: "'w TorrentService \<Rightarrow> db_torrent \<Rightarrow> 'w \<Rightarrow> Torrent" where
  "hydrate s row w =
     (let t = \<lparr>InfoHash = db_InfoHash row, Magnet = db_Magnet row, Label = db_Label row,
               TargetDir = db_TargetDir row, Paused = db_Paused row, CreatedAt = db_CreatedAt row,
               UpdatedAt = db_UpdatedAt row, Name = db_Name row, Length = db_Length row,
               BytesCompleted = db_BytesCompleted row, t_ActivePeers = 0, t_Seeders = 0\<rparr>
      in case te_Snapshot (engine s) (db_InfoHash row) w of
           Inl err \<Rightarrow> t
         | Inr progress \<Rightarrow>
           (let t = (if pr_Name progress \<noteq> [] then t\<lparr>Name := pr_Name progress\<rparr> else t);
                t = (if pr_Length progress > 0 then t\<lparr>Length := pr_Length progress\<rparr> else t)
            in t\<lparr>BytesCompleted := pr_BytesCompleted progress,
                 t_ActivePeers := pr_ActivePeers progress, t_Seeders := pr_Seeders progress\<rparr>))"

text \<open>The two error branches \<open>Get\<close>, \<open>Files\<close>, \<open>Remove\<close> and \<open>Resume\<close> share after reading the row.\<close>

definition load_error :: "go_error \<Rightarrow> go_error" where
  "load_error err =
     (if errors_is err DbTorrentNotFound then Sentinel SvcTorrentNotFound
      else Errorf ''failed to load torrent: '' err [])"

definition svc_Get :: "'w TorrentService \<Rightarrow> ctx \<Rightarrow> string \<Rightarrow> 'w \<Rightarrow> Torrent res \<times> 'w" where
  "svc_Get s c infoHash w =
     call (tr_Get (torrents s) c infoHash w)
       (\<lambda>row w. (Ok (hydrate s row w), w))
       (\<lambda>err w. (Err (load_error err), w))"

text \<open>The result is a slice that is nil (\<open>None\<close>) when the engine does not know the torrent.\<close>

definition svc_Files :: "'w TorrentService \<Rightarrow> ctx \<Rightarrow> string \<Rightarrow> 'w \<Rightarrow> File list option res \<times> 'w" where
  "svc_Files s c infoHash w =
     call (tr_Get (torrents s) c infoHash w)
       (\<lambda>_ w.
          call (te_Files (engine s) infoHash w, w)
            (\<lambda>fp w. (Ok (Some (map (\<lambda>f. \<lparr>f_Path = fp_Path f, f_Length = fp_Length f,
                                         f_BytesCompleted = fp_BytesCompleted f\<rparr>) fp)), w))
            (\<lambda>err w. (Ok None, w)))
       (\<lambda>err w. (Err (load_error err), w))"

definition svc_List :: "'w TorrentService \<Rightarrow> ctx \<Rightarrow> 'w \<Rightarrow> Torrent list res \<times> 'w" where
  "svc_List s c w =
     call (tr_List (torrents s) c w)
       (\<lambda>rows w. (Ok (map (\<lambda>row. hydrate s row w) rows), w))
       (\<lambda>err w. (Err (Errorf ''failed to list torrents: '' err []), w))"

section \<open>Capturing the engine's state\<close>

definition persistMetadata :: "'w TorrentService \<Rightarrow> ctx \<Rightarrow> string \<Rightarrow> 'w \<Rightarrow> unit res \<times> 'w" where
  "persistMetadata s c hash w =
     (case te_Snapshot (engine s) hash w of
        Inl err \<Rightarrow> (Ok (), w)
      | Inr progress \<Rightarrow>
        if pr_Name progress = [] then (Ok (), w)
        else call (tr_SetMetadata (torrents s) c hash (pr_Name progress) (pr_Length progress) w)
               (\<lambda>_ w. (Ok (), w))
               (\<lambda>err w. (Ok (), w)))"

definition persistBytesCompleted :: "'w TorrentService \<Rightarrow> ctx \<Rightarrow> string \<Rightarrow> 'w \<Rightarrow> unit res \<times> 'w" where
  "persistBytesCompleted s c hash w =
     (case te_Snapshot (engine s) hash w of
        Inl err \<Rightarrow> (Ok (), w)
      | Inr progress \<Rightarrow>
        call (tr_SetBytesCompleted (torrents s) c hash (pr_BytesCompleted progress) w)
          (\<lambda>_ w. (Ok (), w))
          (\<lambda>err w. (Ok (), w)))"

section \<open>Adding\<close>

definition persist ::
  "'w TorrentService \<Rightarrow> ctx \<Rightarrow> string \<Rightarrow> string \<Rightarrow> AddOptions \<Rightarrow> 'w \<Rightarrow> Torrent res \<times> 'w" where
  "persist s c hash uri opts w =
     call (tr_Create (torrents s) c
             \<lparr>db_InfoHash = hash, db_Magnet = uri, db_Label = opt_Label opts,
              db_TargetDir = opt_TargetDir opts, db_Paused = False, db_Name = [], db_Length = 0,
              db_BytesCompleted = 0, db_CreatedAt = zero_time, db_UpdatedAt = zero_time\<rparr> w)
       (\<lambda>_ w. call (persistMetadata s c hash w)
                (\<lambda>_ w. svc_Get s c hash w)
                (\<lambda>err w. (Err err, w)))
       (\<lambda>err w.
          if errors_is err DbTorrentAlreadyExists then (Err (Sentinel SvcTorrentAlreadyExists), w)
          else (Err (Errorf ''failed to persist torrent: '' err []), w))"

definition svc_AddMagnet ::
  "'w TorrentService \<Rightarrow> ctx \<Rightarrow> string \<Rightarrow> AddOptions \<Rightarrow> 'w \<Rightarrow> Torrent res \<times> 'w" where
  "svc_AddMagnet s c uri opts w =
     call (te_AddMagnet (engine s) c uri w)
       (\<lambda>hash w. persist s c hash uri opts w)
       (\<lambda>err w. (Err (Errorf ''failed to add magnet: '' err []), w))"

definition svc_AddFile ::
  "'w TorrentService \<Rightarrow> ctx \<Rightarrow> string \<Rightarrow> AddOptions \<Rightarrow> 'w \<Rightarrow> Torrent res \<times> 'w" where
  "svc_AddFile s c r opts w =
     call (te_AddFile (engine s) c r w)
       (\<lambda>hash w. persist s c hash (''magnet:?xt=urn:btih:'' @ hash) opts w)
       (\<lambda>err w.
          if errors_is err EngInvalidFile then (Err (Sentinel SvcInvalidTorrentFile), w)
          else (Err (Errorf ''failed to add torrent file: '' err []), w))"

section \<open>Removing\<close>

definition isComplete :: "'w TorrentService \<Rightarrow> db_torrent \<Rightarrow> 'w \<Rightarrow> bool" where
  "isComplete s row w =
     (case te_Snapshot (engine s) (db_InfoHash row) w of
        Inr progress \<Rightarrow>
          if pr_Length progress > 0 then pr_BytesCompleted progress \<ge> pr_Length progress
          else db_Length row > 0 \<and> db_BytesCompleted row \<ge> db_Length row
      | Inl err \<Rightarrow> db_Length row > 0 \<and> db_BytesCompleted row \<ge> db_Length row)"

text \<open>The call of \<open>engine.Remove\<close> in \<open>Remove\<close> and \<open>Pause\<close>: a torrent the engine does not know is
  no error.\<close>

definition engine_remove :: "'w TorrentService \<Rightarrow> ctx \<Rightarrow> string \<Rightarrow> bool \<Rightarrow> 'w \<Rightarrow> unit res \<times> 'w" where
  "engine_remove s c infoHash deleteFiles w =
     call (te_Remove (engine s) c infoHash deleteFiles w)
       (\<lambda>_ w. (Ok (), w))
       (\<lambda>err w.
          if errors_is err EngNotFound then (Ok (), w)
          else (Err (Errorf ''failed to remove torrent from engine: '' err []), w))"

definition svc_Remove :: "'w TorrentService \<Rightarrow> ctx \<Rightarrow> string \<Rightarrow> bool \<Rightarrow> 'w \<Rightarrow> unit res \<times> 'w" where
  "svc_Remove s c infoHash deleteFiles w =
     call (tr_Get (torrents s) c infoHash w)
       (\<lambda>row w.
          let actuallyDeleteFiles = deleteFiles \<or> \<not> isComplete s row w in
          call (engine_remove s c infoHash actuallyDeleteFiles w)
            (\<lambda>_ w.
               call (tr_Delete (torrents s) c infoHash w)
                 (\<lambda>_ w. (Ok (), pr_Forget (pieces s) infoHash w))
                 (\<lambda>err w.
                    if errors_is err DbTorrentNotFound then (Err (Sentinel SvcTorrentNotFound), w)
                    else (Err (Errorf ''failed to delete torrent: '' err []), w)))
            (\<lambda>err w. (Err err, w)))
       (\<lambda>err w. (Err (load_error err), w))"

section \<open>Pausing and resuming\<close>

definition state_error :: "go_error \<Rightarrow> go_error" where
  "state_error err =
     (if errors_is err DbTorrentNotFound then Sentinel SvcTorrentNotFound
      else Errorf ''failed to persist torrent state: '' err [])"

definition svc_Pause :: "'w TorrentService \<Rightarrow> ctx \<Rightarrow> string \<Rightarrow> 'w \<Rightarrow> unit res \<times> 'w" where
  "svc_Pause s c infoHash w =
     call (persistBytesCompleted s c infoHash w)
       (\<lambda>_ w.
          call (engine_remove s c infoHash False w)
            (\<lambda>_ w.
               call (tr_SetPaused (torrents s) c infoHash True w)
                 (\<lambda>_ w. (Ok (), w))
                 (\<lambda>err w. (Err (state_error err), w)))
            (\<lambda>err w. (Err err, w)))
       (\<lambda>err w. (Err err, w))"

definition svc_Resume :: "'w TorrentService \<Rightarrow> ctx \<Rightarrow> string \<Rightarrow> 'w \<Rightarrow> unit res \<times> 'w" where
  "svc_Resume s c infoHash w =
     call (tr_Get (torrents s) c infoHash w)
       (\<lambda>row w.
          call (tr_SetPaused (torrents s) c infoHash False w)
            (\<lambda>_ w.
               call (te_AddMagnet (engine s) c (db_Magnet row) w)
                 (\<lambda>hash w. persistMetadata s c hash w)
                 (\<lambda>err w.
                    let failed = Err (Errorf ''failed to re-add torrent to engine: '' err []) in
                    call (tr_SetPaused (torrents s) c infoHash True w)
                      (\<lambda>_ w. (failed, w))
                      (\<lambda>rollbackErr w. (failed, w))))
            (\<lambda>err w. (Err (state_error err), w)))
       (\<lambda>err w. (Err (load_error err), w))"

section \<open>Restoring at startup\<close>

text \<open>\<open>ctx.Err()\<close> at the moment the clock shows.\<close>

definition ctx_Err :: "ctx \<Rightarrow> nat \<Rightarrow> go_error option" where
  "ctx_Err c n = (if ctx_done c n then Some (Sentinel ContextCanceled) else None)"

text \<open>The body of one goroutine.\<close>

definition restore_one ::
  "('w \<Rightarrow> nat) \<Rightarrow> 'w TorrentService \<Rightarrow> ctx \<Rightarrow> db_torrent \<Rightarrow> 'w \<Rightarrow> unit res \<times> 'w" where
  "restore_one clock s c row w =
     call (te_AddMagnet (engine s) c (db_Magnet row) w)
       (\<lambda>hash w.
          call (persistMetadata s c hash w)
            (\<lambda>_ w. case ctx_Err c (clock w) of None \<Rightarrow> (Ok (), w) | Some e \<Rightarrow> (Err e, w))
            (\<lambda>err w. (Err err, w)))
       (\<lambda>err w. (Ok (), w))"

text \<open>The group: one goroutine per torrent that is not paused. They are run one after the other,
  in the order they are started; \<open>group.Wait\<close> returns the first error, and waits for ever when one
  of them does.\<close>

fun restore_group ::
  "('w \<Rightarrow> nat) \<Rightarrow> 'w TorrentService \<Rightarrow> ctx \<Rightarrow> db_torrent list \<Rightarrow> go_error option \<Rightarrow> bool \<Rightarrow> 'w \<Rightarrow>
   unit res \<times> 'w" where
  "restore_group clock s c [] failed waiting w =
     (if waiting then Hang else case failed of None \<Rightarrow> Ok () | Some e \<Rightarrow> Err e, w)"
| "restore_group clock s c (row # rs) failed waiting w =
     (if db_Paused row then restore_group clock s c rs failed waiting w
      else case restore_one clock s c row w of
             (Ok _, w) \<Rightarrow> restore_group clock s c rs failed waiting w
           | (Err e, w) \<Rightarrow>
               restore_group clock s c rs (case failed of None \<Rightarrow> Some e | Some d \<Rightarrow> Some d) waiting w
           | (Panic p, w) \<Rightarrow> (Panic p, w)
           | (Hang, w) \<Rightarrow> restore_group clock s c rs failed True w)"

definition Restore :: "('w \<Rightarrow> nat) \<Rightarrow> 'w TorrentService \<Rightarrow> ctx \<Rightarrow> 'w \<Rightarrow> unit res \<times> 'w" where
  "Restore clock s c w =
     call (tr_List (torrents s) c w)
       (\<lambda>rows w. restore_group clock s c rows None False w)
       (\<lambda>err w. (Err (Errorf ''failed to list torrents: '' err []), w))"

end
