(* ===== verification/ServiceFacts.thy ===== *)
theory ServiceFacts
  imports Service
begin

text \<open>
  What the orchestration layer guarantees, given that its three ports keep their promises. The
  locale \<open>torrent_service\<close> extends the repository contract by that of the engine and of the
  piece cache; each lemma says what one method returns and what it did to the managed torrents
  (\<open>rows\<close>), to the running ones (\<open>live\<close>) and to the piece completion.
\<close>

section \<open>The ports\<close>

text \<open>What one engine call may do: only the running torrent \<open>k\<close> changes.\<close>

definition only_torrent :: "('w \<Rightarrow> hash \<Rightarrow> Progress option) \<Rightarrow> hash \<Rightarrow> 'w \<Rightarrow> 'w \<Rightarrow> bool" where
  "only_torrent live k w w' \<longleftrightarrow> (\<forall>j. j \<noteq> k \<longrightarrow> live w' j = live w j)"

text \<open>Every managed torrent is filed under the canonical spelling of the hash its magnet names.\<close>

definition well_keyed ::
  "('w \<Rightarrow> string \<Rightarrow> db_torrent option) \<Rightarrow> ('w \<Rightarrow> string \<Rightarrow> hash option) \<Rightarrow> 'w \<Rightarrow> bool" where
  "well_keyed rs magnet_hash w \<longleftrightarrow>
     (\<forall>h row. rs w h = Some row \<longrightarrow>
        (\<exists>k. wf_hash k \<and> h = HexString k \<and> magnet_hash w (db_Magnet row) = Some k))"

lemma well_keyedD:
  "well_keyed rs mh w \<Longrightarrow> rs w h = Some row \<Longrightarrow>
    \<exists>k. wf_hash k \<and> h = HexString k \<and> FromHexString h = Inr k \<and> mh w (db_Magnet row) = Some k"
  unfolding well_keyed_def using FromHexString_HexString by blast

text \<open>The rows of the two worlds are the same but for fields that do not matter for their keys.\<close>

definition same_magnets :: "(string \<Rightarrow> db_torrent option) \<Rightarrow> (string \<Rightarrow> db_torrent option) \<Rightarrow> bool" where
  "same_magnets m m' \<longleftrightarrow> (\<forall>h. map_option db_Magnet (m' h) = map_option db_Magnet (m h))"

lemma same_magnets_refl [simp]: "same_magnets m m"
  by (simp add: same_magnets_def)

lemma same_magnets_trans: "same_magnets a b \<Longrightarrow> same_magnets b c \<Longrightarrow> same_magnets a c"
  by (simp add: same_magnets_def)

lemma same_magnets_upd:
  "m h = Some row \<Longrightarrow> db_Magnet row' = db_Magnet row \<Longrightarrow> same_magnets m (m(h \<mapsto> row'))"
  by (simp add: same_magnets_def)

lemma well_keyed_same:
  assumes "well_keyed rs mh w" "same_magnets (rs w) (rs w')" "mh w' = mh w"
  shows "well_keyed rs mh w'"
  unfolding well_keyed_def
proof (intro allI impI)
  fix h row'
  assume "rs w' h = Some row'"
  moreover have "map_option db_Magnet (rs w' h) = map_option db_Magnet (rs w h)"
    using assms(2) by (simp add: same_magnets_def)
  ultimately obtain row where "rs w h = Some row" "db_Magnet row = db_Magnet row'"
    by (cases "rs w h") auto
  with assms(1,3) show "\<exists>k. wf_hash k \<and> h = HexString k \<and> mh w' (db_Magnet row') = Some k"
    by (metis well_keyed_def)
qed

lemma with_magnet [simp]:
  "db_Magnet (with_metadata n l u t) = db_Magnet t" "db_Magnet (with_bytes b u t) = db_Magnet t"
  "db_Magnet (with_paused p u t) = db_Magnet t"
  by (simp_all add: with_metadata_def with_bytes_def with_paused_def)

locale torrent_service =
  torrent_store invar rows rest outer piece_rows healthy
    "tr_Create (torrents s)" "tr_Get (torrents s)" "tr_List (torrents s)" "tr_Delete (torrents s)"
    "tr_SetMetadata (torrents s)" "tr_SetBytesCompleted (torrents s)" "tr_SetPaused (torrents s)"
  for s :: "'w TorrentService" and invar :: "'w \<Rightarrow> bool" and rows rest outer piece_rows healthy +
  fixes einv :: "'w \<Rightarrow> bool"
    and live :: "'w \<Rightarrow> hash \<Rightarrow> Progress option"
    and magnet_hash :: "'w \<Rightarrow> string \<Rightarrow> hash option"
    and agree :: "'w \<Rightarrow> bool"
  assumes outer_live: "outer w' = outer w \<Longrightarrow>
            live w' = live w \<and> einv w' = einv w \<and> magnet_hash w' = magnet_hash w"
    and rest_agree: "rest w' = rest w \<Longrightarrow> agree w' = agree w"
    and live_wf: "einv w \<Longrightarrow> live w k \<noteq> None \<Longrightarrow> wf_hash k"
    and snapshot_live: "te_Snapshot (engine s) h w =
          (case FromHexString h of
             Inl err \<Rightarrow> Inl (Errorf (''invalid info hash '' @ go_quote h @ '': '') err [])
           | Inr k \<Rightarrow> (case live w k of
                       None \<Rightarrow> Inl (Sentinel EngNotFound)
                     | Some p \<Rightarrow> Inr (p\<lparr>pr_InfoHash := h\<rparr>)))"
    and add_magnet_law: "invar w \<Longrightarrow> einv w \<Longrightarrow> te_AddMagnet (engine s) c uri w = (ra, w') \<Longrightarrow>
          invar w' \<and> einv w' \<and> rows w' = rows w \<and> magnet_hash w' = magnet_hash w \<and>
          (healthy c' w \<longrightarrow> healthy c' w') \<and> (agree w \<longrightarrow> agree w') \<and>
          (\<exists>k. only_torrent live k w w' \<and> (case ra of
             Ok h \<Rightarrow> h = HexString k \<and> wf_hash k \<and> live w' k \<noteq> None \<and> magnet_hash w uri = Some k
           | Err e \<Rightarrow> live w' = live w \<or> magnet_hash w uri = Some k \<and> live w' k = None
           | Panic p \<Rightarrow> True
           | Hang \<Rightarrow> True))"
    and add_file_law: "invar w \<Longrightarrow> einv w \<Longrightarrow> te_AddFile (engine s) c bytes w = (ra, w') \<Longrightarrow>
          invar w' \<and> einv w' \<and> rows w' = rows w \<and> magnet_hash w' = magnet_hash w \<and>
          (healthy c' w \<longrightarrow> healthy c' w') \<and> (agree w \<longrightarrow> agree w') \<and>
          (\<exists>k. only_torrent live k w w' \<and>
             (\<forall>h. ra = Ok h \<longrightarrow> h = HexString k \<and> wf_hash k \<and> live w' k \<noteq> None))"
    and btih_magnet: "einv w \<Longrightarrow> live w k \<noteq> None \<Longrightarrow>
          magnet_hash w (''magnet:?xt=urn:btih:'' @ HexString k) = Some k"
    and remove_invalid: "FromHexString h = Inl err \<Longrightarrow>
          te_Remove (engine s) c h b w = (Err (Errorf (''invalid info hash '' @ go_quote h @ '': '') err []), w)"
    and remove_untracked: "FromHexString h = Inr k \<Longrightarrow> live w k = None \<Longrightarrow>
          te_Remove (engine s) c h b w = (Err (Sentinel EngNotFound), w)"
    and remove_tracked: "invar w \<Longrightarrow> einv w \<Longrightarrow> FromHexString h = Inr k \<Longrightarrow> live w k \<noteq> None \<Longrightarrow>
          te_Remove (engine s) c h b w = (ru, w') \<Longrightarrow>
          invar w' \<and> einv w' \<and> rows w' = rows w \<and> piece_rows w' = piece_rows w \<and>
          magnet_hash w' = magnet_hash w \<and>
          (healthy c' w \<longrightarrow> healthy c' w') \<and> (agree w \<longrightarrow> agree w') \<and> returns ru \<and>
          live w' = (live w)(k := None) \<and> (\<forall>e. ru = Err e \<longrightarrow> \<not> errors_is e EngNotFound) \<and>
          (\<not> b \<longrightarrow> ru = Ok ())"
    and forget_frame: "rows (pr_Forget (pieces s) h w) = rows w \<and> live (pr_Forget (pieces s) h w) = live w \<and>
          invar (pr_Forget (pieces s) h w) = invar w \<and> einv (pr_Forget (pieces s) h w) = einv w \<and>
          piece_rows (pr_Forget (pieces s) h w) = piece_rows w \<and>
          magnet_hash (pr_Forget (pieces s) h w) = magnet_hash w"
    and delete_forget_agree: "invar w \<Longrightarrow> agree w \<Longrightarrow> tr_Delete (torrents s) c h w = (Ok x, w') \<Longrightarrow>
          agree (pr_Forget (pieces s) h w')"
begin

lemma rest_live:
  "rest w' = rest w \<Longrightarrow> live w' = live w \<and> einv w' = einv w \<and> magnet_hash w' = magnet_hash w \<and>
    agree w' = agree w \<and> piece_rows w' = piece_rows w"
  using rest_outer outer_live rest_agree by blast

subsection \<open>The swallowed writes\<close>

lemma persistMetadata_effect:
  assumes inv: "invar w" and run: "persistMetadata s c h w = (r, w')"
  shows "r = Ok () \<and> invar w' \<and> rest w' = rest w \<and> (healthy c' w \<longrightarrow> healthy c' w') \<and>
    (rows w' = rows w \<or>
     (\<exists>k p t u. FromHexString h = Inr k \<and> live w k = Some p \<and> rows w h = Some t \<and>
        rows w' = (rows w)(h \<mapsto> with_metadata (pr_Name p) (pr_Length p) u t)))"
proof (cases "te_Snapshot (engine s) h w")
  case (Inl e)
  with inv run show ?thesis by (auto simp: persistMetadata_def)
next
  case (Inr p)
  then obtain k q where k: "FromHexString h = Inr k" "live w k = Some q" "p = q\<lparr>pr_InfoHash := h\<rparr>"
    by (auto simp: snapshot_live split: sum.splits option.splits)
  show ?thesis
  proof (cases "pr_Name p = []")
    case True
    with Inr inv run show ?thesis by (auto simp: persistMetadata_def)
  next
    case False
    obtain ru v where set: "tr_SetMetadata (torrents s) c h (pr_Name p) (pr_Length p) w = (ru, v)" by force
    note f = row_update.upd_invar [OF metadata_law inv set] row_update.upd_rest [OF metadata_law inv set]
      row_update.upd_healthy [OF metadata_law inv _ set, of c'] row_update.upd_effect [OF metadata_law inv set]
    have "returns ru" using row_update.upd_returns [OF metadata_law set] .
    then have "r = Ok () \<and> w' = v"
      using run Inr False set by (cases rule: returnsE) (auto simp: persistMetadata_def)
    with f k show ?thesis by auto
  qed
qed

lemma persistBytes_effect:
  assumes inv: "invar w" and run: "persistBytesCompleted s c h w = (r, w')"
  shows "r = Ok () \<and> invar w' \<and> rest w' = rest w \<and> (healthy c' w \<longrightarrow> healthy c' w') \<and>
    (rows w' = rows w \<or>
     (\<exists>k p t u. FromHexString h = Inr k \<and> live w k = Some p \<and> rows w h = Some t \<and>
        rows w' = (rows w)(h \<mapsto> with_bytes (pr_BytesCompleted p) u t)))"
proof (cases "te_Snapshot (engine s) h w")
  case (Inl e)
  with inv run show ?thesis by (auto simp: persistBytesCompleted_def)
next
  case (Inr p)
  then obtain k q where k: "FromHexString h = Inr k" "live w k = Some q" "p = q\<lparr>pr_InfoHash := h\<rparr>"
    by (auto simp: snapshot_live split: sum.splits option.splits)
  obtain ru v where set: "tr_SetBytesCompleted (torrents s) c h (pr_BytesCompleted p) w = (ru, v)" by force
  note f = row_update.upd_invar [OF bytes_law inv set] row_update.upd_rest [OF bytes_law inv set]
    row_update.upd_healthy [OF bytes_law inv _ set, of c'] row_update.upd_effect [OF bytes_law inv set]
  have "returns ru" using row_update.upd_returns [OF bytes_law set] .
  then have "r = Ok () \<and> w' = v"
    using run Inr set by (cases rule: returnsE) (auto simp: persistBytesCompleted_def)
  with f k show ?thesis by auto
qed

text \<open>With a working database the counter of a running torrent is really recorded.\<close>

lemma persistBytes_works:
  assumes inv: "invar w" and hl: "healthy c w" and k: "FromHexString h = Inr k" "live w k = Some p"
    and t: "rows w h = Some t" and run: "persistBytesCompleted s c h w = (r, w')"
  shows "\<exists>u. rows w' = (rows w)(h \<mapsto> with_bytes (pr_BytesCompleted p) u t)"
proof -
  have snap: "te_Snapshot (engine s) h w = Inr (p\<lparr>pr_InfoHash := h\<rparr>)"
    using k by (simp add: snapshot_live)
  obtain v where set: "tr_SetBytesCompleted (torrents s) c h (pr_BytesCompleted p) w = (Ok (), v)"
    using row_update.upd_works [OF bytes_law inv hl] t by blast
  with run snap have "w' = v" by (simp add: persistBytesCompleted_def)
  with row_update.upd_Ok [OF bytes_law inv set] t show ?thesis by auto
qed

subsection \<open>Stopping a torrent in the engine\<close>

lemma engine_remove_invalid:
  assumes "FromHexString h = Inl err"
  shows "engine_remove s c h b w =
    (Err (Errorf ''failed to remove torrent from engine: ''
       (Errorf (''invalid info hash '' @ go_quote h @ '': '') err []) []), w)"
  using assms FromHexString_err [OF assms] by (simp add: engine_remove_def remove_invalid)

lemma engine_remove_valid:
  assumes inv: "invar w" "einv w" and k: "FromHexString h = Inr k"
    and run: "engine_remove s c h b w = (r, w')"
  shows "invar w' \<and> einv w' \<and> rows w' = rows w \<and> piece_rows w' = piece_rows w \<and>
    magnet_hash w' = magnet_hash w \<and> (healthy c' w \<longrightarrow> healthy c' w') \<and> (agree w \<longrightarrow> agree w') \<and>
    returns r \<and> live w' = (live w)(k := None) \<and> (\<not> b \<or> live w k = None \<longrightarrow> r = Ok ())"
proof (cases "live w k")
  case None
  with k run have "r = Ok ()" "w' = w" by (auto simp: engine_remove_def remove_untracked)
  with inv None show ?thesis by (auto simp: fun_upd_idem_iff)
next
  case (Some p)
  obtain ru v where rm: "te_Remove (engine s) c h b w = (ru, v)" by force
  from Some have "live w k \<noteq> None" by simp
  note f = remove_tracked [OF inv k this rm, of c']
  from f have "returns ru" by blast
  then show ?thesis
  proof (cases rule: returnsE)
    case (1 a)
    with run rm have "r = Ok ()" "w' = v" by (auto simp: engine_remove_def)
    with f Some show ?thesis by auto
  next
    case (2 e)
    with run rm f have "w' = v" "returns r" "b" by (auto simp: engine_remove_def)
    with f Some show ?thesis by auto
  qed
qed

subsection \<open>Reading\<close>

lemma hydrate_live:
  assumes "live w' = live w"
  shows "hydrate s row w' = hydrate s row w"
  unfolding hydrate_def snapshot_live assms ..

lemma Get_effect:
  assumes inv: "invar w" and run: "svc_Get s c h w = (r, w')"
  shows "returns r \<and> invar w' \<and> rows w' = rows w \<and> rest w' = rest w \<and> (healthy c' w \<longrightarrow> healthy c' w') \<and>
    (\<forall>t. r = Ok t \<longrightarrow> (\<exists>row. rows w h = Some row \<and> t = hydrate s row w)) \<and>
    (r = Err (Sentinel SvcTorrentNotFound) \<longrightarrow> rows w h = None)"
proof -
  obtain rg v where get: "tr_Get (torrents s) c h w = (rg, v)" by force
  note f = get_pure [OF get] get_invar [OF get inv] get_healthy [OF get, of c']
  have hyd: "hydrate s row v = hydrate s row w" for row
    using rest_live f(1) hydrate_live by blast
  have "returns rg" using get_returns [OF get] .
  then show ?thesis
  proof (cases rule: returnsE)
    case (1 t)
    with run get get_Ok [OF inv, of c h t v] f hyd show ?thesis by (auto simp: svc_Get_def)
  next
    case (2 e)
    with run get get_missing [OF inv, of c h e v] f show ?thesis
      by (auto simp: svc_Get_def load_error_def split: if_splits)
  qed
qed

lemma Get_result:
  assumes inv: "invar w" and hl: "healthy c w"
  shows "\<exists>w'. svc_Get s c h w =
    (case rows w h of None \<Rightarrow> Err (Sentinel SvcTorrentNotFound) | Some row \<Rightarrow> Ok (hydrate s row w), w')"
proof -
  obtain v where get: "tr_Get (torrents s) c h w =
      (case rows w h of None \<Rightarrow> Err (Sentinel DbTorrentNotFound) | Some t \<Rightarrow> Ok t, v)"
    using get_works [OF inv hl] by blast
  have "hydrate s row v = hydrate s row w" for row
    using rest_live get_pure [OF get] hydrate_live by blast
  with get show ?thesis by (auto simp: svc_Get_def load_error_def split: option.splits)
qed

lemma List_result:
  assumes inv: "invar w" and run: "svc_List s c w = (Ok ts, w')"
  shows "distinct (map InfoHash ts) \<and>
    (\<forall>t. t \<in> set ts \<longleftrightarrow> (\<exists>h row. rows w h = Some row \<and> t = hydrate s row w))"
proof -
  from run obtain rs where l: "tr_List (torrents s) c w = (Ok rs, w')"
    and ts: "ts = map (\<lambda>row. hydrate s row w') rs"
    by (auto simp: svc_List_def split: call_splits)
  have hyd: "hydrate s row w' = hydrate s row w" for row
    using rest_live list_pure [OF l] hydrate_live by blast
  have key: "InfoHash (hydrate s row w) = db_InfoHash row" for row
    by (simp add: hydrate_def Let_def split: sum.split)
  note lo = list_Ok [OF inv l]
  have "map InfoHash ts = map db_InfoHash rs" by (simp add: ts hyd key)
  moreover have "t \<in> set ts \<longleftrightarrow> (\<exists>h row. rows w h = Some row \<and> t = hydrate s row w)" for t
    using lo row_key by (auto simp: ts hyd) blast+
  ultimately show ?thesis using lo by simp
qed

subsection \<open>Adding\<close>

text \<open>The row \<open>persist\<close> writes for the torrent \<open>h\<close>, and how it may look once the metadata is there.\<close>

definition added_row :: "string \<Rightarrow> string \<Rightarrow> AddOptions \<Rightarrow> db_torrent \<Rightarrow> bool" where
  "added_row h uri opts row \<longleftrightarrow>
     db_InfoHash row = h \<and> db_Magnet row = uri \<and> db_Label row = opt_Label opts \<and>
     db_TargetDir row = opt_TargetDir opts \<and> \<not> db_Paused row \<and> db_BytesCompleted row = 0"

lemma added_row_fresh:
  "added_row h uri opts (fresh_torrent \<lparr>db_InfoHash = h, db_Magnet = uri, db_Label = opt_Label opts,
     db_TargetDir = opt_TargetDir opts, db_Paused = p, db_Name = n, db_Length = l,
     db_BytesCompleted = b, db_CreatedAt = c, db_UpdatedAt = d\<rparr> u)"
  by (simp add: added_row_def fresh_torrent_def)

lemma added_row_metadata: "added_row h uri opts row \<Longrightarrow> added_row h uri opts (with_metadata n l u row)"
  by (simp add: added_row_def with_metadata_def)

lemma persist_effect:
  assumes inv: "invar w" and run: "persist s c h uri opts w = (r, w')"
  shows "returns r \<and> invar w' \<and> rest w' = rest w \<and> (healthy c' w \<longrightarrow> healthy c' w') \<and>
    (rows w h \<noteq> None \<longrightarrow> rows w' = rows w \<and> (\<forall>t. r \<noteq> Ok t)) \<and>
    (rows w' = rows w \<or> (\<exists>row. rows w' = (rows w)(h \<mapsto> row) \<and> added_row h uri opts row)) \<and>
    (\<forall>t. r = Ok t \<longrightarrow> (\<exists>row. rows w' = (rows w)(h \<mapsto> row) \<and> added_row h uri opts row \<and> t = hydrate s row w))"
proof -
  let ?t = "\<lparr>db_InfoHash = h, db_Magnet = uri, db_Label = opt_Label opts, db_TargetDir = opt_TargetDir opts,
    db_Paused = False, db_Name = [], db_Length = 0, db_BytesCompleted = 0,
    db_CreatedAt = zero_time, db_UpdatedAt = zero_time\<rparr>"
  obtain rc v where cr: "tr_Create (torrents s) c ?t w = (rc, v)" by force
  note f = create_invar [OF cr inv] create_rest [OF cr] create_healthy [OF cr, of c']
  have "returns rc" using create_returns [OF cr] .
  then show ?thesis
  proof (cases rule: returnsE)
    case (2 e)
    with run cr f create_Err [of c ?t w e v] show ?thesis by (auto simp: persist_def split: if_splits)
  next
    case (1 x)
    from create_Ok [OF inv cr [unfolded 1]] obtain u where
      new: "rows w h = None" "rows v = (rows w)(h \<mapsto> fresh_torrent ?t u)" by auto
    obtain rm m where md: "persistMetadata s c h v = (rm, m)" by force
    note g = persistMetadata_effect [OF f(1) md, of c']
    obtain rg z where get: "svc_Get s c h m = (rg, z)" by force
    note k = Get_effect [OF _ get, of c'] g
    have end_: "r = rg" "w' = z" using run cr 1 md get g by (auto simp: persist_def)
    obtain row where row: "rows m = (rows w)(h \<mapsto> row)" "added_row h uri opts row"
      using g new added_row_fresh added_row_metadata by (cases "rows m = rows v") auto
    have "live m = live w" using g f rest_live by metis
    then have "hydrate s row m = hydrate s row w" by (rule hydrate_live)
    with k row new end_ f show ?thesis by auto
  qed
qed

lemma AddMagnet_effect:
  assumes inv: "invar w" "einv w" and run: "svc_AddMagnet s c uri opts w = (r, w')"
  shows "invar w' \<and> einv w' \<and> magnet_hash w' = magnet_hash w \<and> (agree w \<longrightarrow> agree w') \<and>
    (\<exists>k. only_torrent live k w w' \<and>
       (rows w' = rows w \<or> (\<exists>row. rows w (HexString k) = None \<and> wf_hash k \<and> magnet_hash w uri = Some k \<and>
          rows w' = (rows w)(HexString k \<mapsto> row) \<and> added_row (HexString k) uri opts row)) \<and>
       (\<forall>t. r = Ok t \<longrightarrow> live w' k \<noteq> None \<and> (\<exists>row. rows w' = (rows w)(HexString k \<mapsto> row) \<and>
          added_row (HexString k) uri opts row \<and> t = hydrate s row w')))"
proof -
  obtain ra v where add: "te_AddMagnet (engine s) c uri w = (ra, v)" by force
  note f = add_magnet_law [OF inv add]
  then obtain k where k: "only_torrent live k w v" "case ra of
       Ok h \<Rightarrow> h = HexString k \<and> wf_hash k \<and> live v k \<noteq> None \<and> magnet_hash w uri = Some k
     | Err e \<Rightarrow> live v = live w \<or> magnet_hash w uri = Some k \<and> live v k = None
     | Panic p \<Rightarrow> True | Hang \<Rightarrow> True" by blast
  show ?thesis
  proof (cases ra)
    case (Ok h)
    with run add have p: "persist s c h uri opts v = (r, w')" by (simp add: svc_AddMagnet_def)
    note g = persist_effect [OF _ p] rest_live
    from f have iv: "invar v" by blast
    have lw: "live w' = live v \<and> einv w' = einv v \<and> magnet_hash w' = magnet_hash v \<and> agree w' = agree v"
      using persist_effect [OF iv p] rest_live by metis
    have hy: "hydrate s row w' = hydrate s row v" for row using lw hydrate_live by blast
    show ?thesis
      using persist_effect [OF iv p] f k Ok lw hy
      by (auto simp: only_torrent_def intro!: exI [of _ k])
  qed (use run add f k in \<open>auto simp: svc_AddMagnet_def intro!: exI [of _ k]\<close>)
qed

text \<open>With a working database, what the client is told depends only on whether the torrent was
  already managed.\<close>

lemma persist_result:
  assumes inv: "invar w" and hl: "healthy c w"
  shows "\<exists>w'. persist s c h uri opts w =
    (if rows w h = None then Ok (hydrate s (the (rows w' h)) w') else Err (Sentinel SvcTorrentAlreadyExists), w')"
proof -
  let ?t = "\<lparr>db_InfoHash = h, db_Magnet = uri, db_Label = opt_Label opts, db_TargetDir = opt_TargetDir opts,
    db_Paused = False, db_Name = [], db_Length = 0, db_BytesCompleted = 0,
    db_CreatedAt = zero_time, db_UpdatedAt = zero_time\<rparr>"
  obtain v where cr: "tr_Create (torrents s) c ?t w =
      (if rows w h = None then Ok () else Err (Sentinel DbTorrentAlreadyExists), v)"
    using create_works [OF inv hl, of ?t] by auto
  show ?thesis
  proof (cases "rows w h = None")
    case False
    with cr show ?thesis by (simp add: persist_def)
  next
    case True
    then have cr': "tr_Create (torrents s) c ?t w = (Ok (), v)" using cr by simp
    have v: "invar v" "healthy c v" using create_invar [OF cr' inv] create_healthy [OF cr' hl] by auto
    obtain m where md: "persistMetadata s c h v = (Ok (), m)"
      using persistMetadata_effect [OF v(1)] by (metis surj_pair)
    note g = persistMetadata_effect [OF v(1) md, of c]
    have m: "invar m" "healthy c m" using g v by auto
    from create_Ok [OF inv cr'] have "rows v h \<noteq> None" by auto
    then have "rows m h \<noteq> None" using g by (auto simp: fun_upd_def)
    then obtain row z where row: "rows m h = Some row" and get: "svc_Get s c h m = (Ok (hydrate s row m), z)"
      using Get_result [OF m, of h] by (auto split: option.splits)
    note e = Get_effect [OF m(1) get]
    have "hydrate s row z = hydrate s row m" using e rest_live hydrate_live by metis
    with row e have "hydrate s (the (rows z h)) z = hydrate s row m" by simp
    with cr' md get True show ?thesis by (auto simp: persist_def)
  qed
qed

lemma AddMagnet_result:
  assumes inv: "invar w" "einv w" and add: "te_AddMagnet (engine s) c uri w = (Ok h, v)" and hl: "healthy c w"
  shows "\<exists>w'. svc_AddMagnet s c uri opts w =
    (if rows w h = None then Ok (hydrate s (the (rows w' h)) w') else Err (Sentinel SvcTorrentAlreadyExists), w')"
proof -
  have v: "invar v" "rows v = rows w" "healthy c v" using add_magnet_law [OF inv add, of c] hl by auto
  show ?thesis using persist_result [OF v(1,3), of h uri opts] add v(2) by (simp add: svc_AddMagnet_def)
qed

lemma AddMagnet_decided:
  assumes inv: "invar w" "einv w" and add: "te_AddMagnet (engine s) c uri w = (Ok h, v)" and hl: "healthy c w"
  shows "case svc_AddMagnet s c uri opts w of
      (Ok t, w') \<Rightarrow>
        rows w h = None \<and> InfoHash t = h \<and> Magnet t = uri \<and> Label t = opt_Label opts \<and>
        TargetDir t = opt_TargetDir opts \<and> \<not> Paused t \<and>
        (\<exists>row. rows w' = (rows w)(h \<mapsto> row) \<and> db_Magnet row = uri \<and> \<not> db_Paused row)
    | (Err e, w') \<Rightarrow> rows w h \<noteq> None \<and> e = Sentinel SvcTorrentAlreadyExists \<and> rows w' = rows w
    | _ \<Rightarrow> False"
proof -
  obtain w' where run: "svc_AddMagnet s c uri opts w =
    (if rows w h = None then Ok (hydrate s (the (rows w' h)) w') else Err (Sentinel SvcTorrentAlreadyExists), w')"
    using AddMagnet_result [OF inv add hl] by blast
  have v: "invar v" "rows v = rows w" using add_magnet_law [OF inv add, of c] by auto
  have p: "persist s c h uri opts v =
    (if rows w h = None then Ok (hydrate s (the (rows w' h)) w') else Err (Sentinel SvcTorrentAlreadyExists), w')"
    using run add by (simp add: svc_AddMagnet_def)
  note e = persist_effect [OF v(1) p, of c]
  show ?thesis
  proof (cases "rows w h = None")
    case True
    then obtain row where row: "rows w' = (rows w)(h \<mapsto> row)" "added_row h uri opts row"
      using e v(2) by auto
    have "InfoHash (hydrate s row w') = db_InfoHash row" "Magnet (hydrate s row w') = db_Magnet row"
      "Label (hydrate s row w') = db_Label row" "TargetDir (hydrate s row w') = db_TargetDir row"
      "Paused (hydrate s row w') = db_Paused row"
      by (simp_all add: hydrate_def Let_def split: sum.split)
    with row True run show ?thesis by (auto simp: added_row_def)
  next
    case False
    with run e v(2) show ?thesis by auto
  qed
qed

lemma AddFile_result:
  assumes inv: "invar w" "einv w" and add: "te_AddFile (engine s) c bytes w = (Ok h, v)" and hl: "healthy c w"
  shows "\<exists>w'. svc_AddFile s c bytes opts w =
    (if rows w h = None then Ok (hydrate s (the (rows w' h)) w') else Err (Sentinel SvcTorrentAlreadyExists), w')"
proof -
  have v: "invar v" "rows v = rows w" "healthy c v" using add_file_law [OF inv add, of c] hl by auto
  show ?thesis using persist_result [OF v(1,3), of h _ opts] add v(2) by (simp add: svc_AddFile_def)
qed

lemma AddFile_effect:
  assumes inv: "invar w" "einv w" and run: "svc_AddFile s c bytes opts w = (r, w')"
  shows "invar w' \<and> einv w' \<and> magnet_hash w' = magnet_hash w \<and> (agree w \<longrightarrow> agree w') \<and>
    (\<exists>k. only_torrent live k w w' \<and>
       (rows w' = rows w \<or> (\<exists>row. rows w (HexString k) = None \<and> wf_hash k \<and> live w' k \<noteq> None \<and>
          rows w' = (rows w)(HexString k \<mapsto> row) \<and>
          added_row (HexString k) (''magnet:?xt=urn:btih:'' @ HexString k) opts row)) \<and>
       (\<forall>t. r = Ok t \<longrightarrow> live w' k \<noteq> None \<and> (\<exists>row. rows w' = (rows w)(HexString k \<mapsto> row) \<and>
          added_row (HexString k) (''magnet:?xt=urn:btih:'' @ HexString k) opts row \<and> t = hydrate s row w')))"
proof -
  obtain ra v where add: "te_AddFile (engine s) c bytes w = (ra, v)" by force
  note f = add_file_law [OF inv add]
  then obtain k where k: "only_torrent live k w v"
     "\<forall>h. ra = Ok h \<longrightarrow> h = HexString k \<and> wf_hash k \<and> live v k \<noteq> None" by blast
  show ?thesis
  proof (cases ra)
    case (Ok h)
    with run add k(2) have p: "persist s c h (''magnet:?xt=urn:btih:'' @ HexString k) opts v = (r, w')"
      by (simp add: svc_AddFile_def)
    from f have iv: "invar v" by blast
    have lw: "live w' = live v \<and> einv w' = einv v \<and> magnet_hash w' = magnet_hash v \<and> agree w' = agree v"
      using persist_effect [OF iv p] rest_live by metis
    have hy: "hydrate s row w' = hydrate s row v" for row using lw hydrate_live by blast
    show ?thesis
      using persist_effect [OF iv p] f k Ok lw hy
      by (auto simp: only_torrent_def intro!: exI [of _ k])
  qed (use run add f k in \<open>auto simp: svc_AddFile_def intro!: exI [of _ k] split: if_splits\<close>)
qed

subsection \<open>Removing\<close>

lemma Remove_missing:
  assumes inv: "invar w" and hl: "healthy c w" and none: "rows w h = None"
  shows "\<exists>w'. svc_Remove s c h b w = (Err (Sentinel SvcTorrentNotFound), w') \<and> rows w' = rows w \<and>
    live w' = live w \<and> piece_rows w' = piece_rows w"
proof -
  obtain v where get: "tr_Get (torrents s) c h w = (Err (Sentinel DbTorrentNotFound), v)"
    using get_works [OF inv hl, of h] none by auto
  with get_pure [OF get] rest_live [of v w] show ?thesis by (simp add: svc_Remove_def load_error_def)
qed

lemma Remove_effect:
  assumes inv: "invar w" "einv w" and k: "FromHexString h = Inr k"
    and run: "svc_Remove s c h b w = (r, w')"
  shows "returns r \<and> invar w' \<and> einv w' \<and> magnet_hash w' = magnet_hash w \<and>
    (rows w' = rows w \<or> rows w' = (rows w)(h := None)) \<and>
    (live w' = live w \<or> live w' = (live w)(k := None)) \<and>
    (r = Ok () \<longrightarrow> rows w h \<noteq> None \<and> rows w' = (rows w)(h := None) \<and> live w' = (live w)(k := None) \<and>
       piece_rows w' = without_hash h (piece_rows w) \<and> (agree w \<longrightarrow> agree w'))"
proof -
  obtain rg v where get: "tr_Get (torrents s) c h w = (rg, v)" by force
  note f = get_pure [OF get] get_invar [OF get inv(1)]
  note lv = rest_live [of v w]
  have "returns rg" using get_returns [OF get] .
  then show ?thesis
  proof (cases rule: returnsE)
    case (2 e)
    with run get f lv inv show ?thesis by (auto simp: svc_Remove_def load_error_def)
  next
    case (1 row)
    let ?b = "b \<or> \<not> isComplete s row v"
    obtain re x where er: "engine_remove s c h ?b v = (re, x)" by force
    have v: "invar v" "einv v" "live v = live w" "rows v = rows w" "magnet_hash v = magnet_hash w"
        "agree v = agree w" "piece_rows v = piece_rows w" using f lv inv by auto
    note g = engine_remove_valid [OF v(1,2) k er]
    have "returns re" using g by blast
    then show ?thesis
    proof (cases rule: returnsE)
      case (2 e)
      with 1 run get er g v show ?thesis by (auto simp: svc_Remove_def Let_def)
    next
      case (1 u)
      obtain rd y where de: "tr_Delete (torrents s) c h x = (rd, y)" by force
      have x: "invar x" using g by blast
      note d = delete_invar [OF de x] outer_live [OF delete_outer [OF de x]]
      have "returns rd" using delete_returns [OF de] .
      then show ?thesis
      proof (cases rule: returnsE)
        case (1 a)
        have rw: "r = Ok ()" "w' = pr_Forget (pieces s) h y"
          using run get \<open>rg = Ok row\<close> er \<open>re = Ok u\<close> de 1 by (auto simp: svc_Remove_def Let_def)
        show ?thesis
        proof (intro conjI impI)
          note o = delete_Ok [OF x de [unfolded 1]] forget_frame [of h y]
          show "returns r" by (simp add: rw)
          show "invar w'" "einv w'" "magnet_hash w' = magnet_hash w" "rows w h \<noteq> None"
            "rows w' = rows w \<or> rows w' = (rows w)(h := None)" "rows w' = (rows w)(h := None)"
            "live w' = live w \<or> live w' = (live w)(k := None)" "live w' = (live w)(k := None)"
            "piece_rows w' = without_hash h (piece_rows w)"
            using o d g v unfolding rw by simp_all
          show "agree w'" if "agree w"
            using delete_forget_agree [OF x _ de [unfolded 1]] g v that unfolding rw by simp
        qed
      next
        case (2 e)
        have rw: "w' = y" "returns r" "r \<noteq> Ok ()"
          using run get \<open>rg = Ok row\<close> er \<open>re = Ok u\<close> de 2 by (auto simp: svc_Remove_def Let_def split: if_splits)
        have "rows y = rows x \<or> rows y = (rows x)(h := None)"
          using delete_Err [OF x de [unfolded 2]] by blast
        with rw g v d show ?thesis by auto
      qed
    qed
  qed
qed

subsection \<open>Pausing\<close>

lemma Pause_effect:
  assumes inv: "invar w" "einv w" and k: "FromHexString h = Inr k"
    and run: "svc_Pause s c h w = (r, w')"
  shows "returns r \<and> invar w' \<and> einv w' \<and> magnet_hash w' = magnet_hash w \<and> (agree w \<longrightarrow> agree w') \<and>
    live w' = (live w)(k := None) \<and> (\<forall>j. j \<noteq> h \<longrightarrow> rows w' j = rows w j) \<and>
    (\<forall>row. rows w h = Some row \<longrightarrow> (\<exists>row'. rows w' h = Some row' \<and> db_Magnet row' = db_Magnet row)) \<and>
    (rows w h = None \<longrightarrow> rows w' h = None) \<and>
    (r = Ok () \<longrightarrow> (\<exists>row'. rows w' h = Some row' \<and> db_Paused row'))"
proof -
  obtain r1 v where b: "persistBytesCompleted s c h w = (r1, v)" by force
  note f = persistBytes_effect [OF inv(1) b, of c]
  have lv: "live v = live w \<and> einv v = einv w \<and> magnet_hash v = magnet_hash w \<and> agree v = agree w"
    using f rest_live [of v w] by simp
  have v: "invar v" "einv v" using f lv inv by auto
  obtain re x where er: "engine_remove s c h False v = (re, x)" by force
  note g = engine_remove_valid [OF v k er, of c]
  have x: "invar x" "rows x = rows v" "live x = (live v)(k := None)" "re = Ok ()" "einv x"
    "magnet_hash x = magnet_hash v" "agree v \<longrightarrow> agree x" using g by auto
  obtain rp y where sp: "tr_SetPaused (torrents s) c h True x = (rp, y)" by force
  note p = row_update.upd_invar [OF paused_law x(1) sp] row_update.upd_rest [OF paused_law x(1) sp]
    row_update.upd_effect [OF paused_law x(1) sp] row_update.upd_returns [OF paused_law sp]
  have ly: "live y = live x \<and> einv y = einv x \<and> magnet_hash y = magnet_hash x \<and> agree y = agree x"
    using p(2) rest_live [of y x] by simp
  have ww: "w' = y" "returns r" "r = Ok () \<longleftrightarrow> rp = Ok ()"
    using run f b er x sp p(4) by (auto simp: svc_Pause_def elim!: returnsE)
  have other: "\<forall>j. j \<noteq> h \<longrightarrow> rows y j = rows w j" using p(3) f x by auto
  have same: "\<exists>row'. rows y h = Some row' \<and> db_Magnet row' = db_Magnet row" if "rows w h = Some row" for row
    using p(3) f x that by (auto simp: with_paused_def with_bytes_def)
  have none: "rows w h = None \<Longrightarrow> rows y h = None" using p(3) f x by auto
  have set: "\<exists>row'. rows y h = Some row' \<and> db_Paused row'" if "rp = Ok ()"
    using row_update.upd_Ok [OF paused_law x(1)] sp that by (fastforce simp: with_paused_def)
  show ?thesis unfolding ww(1)
    using ww(2,3) p(1) ly lv x inv other same none set by simp
qed

lemma Pause_result:
  assumes inv: "invar w" "einv w" and hl: "healthy c w" and k: "FromHexString h = Inr k"
    and t: "rows w h = Some t"
  shows "\<exists>w' u u'. svc_Pause s c h w = (Ok (), w') \<and> live w' = (live w)(k := None) \<and>
    rows w' = (rows w)(h \<mapsto> with_paused True u
      (case live w k of None \<Rightarrow> t | Some p \<Rightarrow> with_bytes (pr_BytesCompleted p) u' t))"
proof -
  obtain v where b: "persistBytesCompleted s c h w = (Ok (), v)"
    using persistBytes_effect [OF inv(1)] by (metis surj_pair)
  note f = persistBytes_effect [OF inv(1) b, of c]
  have lv: "live v = live w" "einv v = einv w" using f rest_live [of v w] by auto
  have v: "invar v" "einv v" "healthy c v" using f lv inv hl by auto
  have rv: "\<exists>u'. rows v = (rows w)(h \<mapsto> (case live w k of None \<Rightarrow> t | Some p \<Rightarrow> with_bytes (pr_BytesCompleted p) u' t))"
  proof (cases "live w k")
    case None
    then show ?thesis using f k t by (auto simp: fun_upd_idem)
  next
    case (Some p)
    then show ?thesis using persistBytes_works [OF inv(1) hl k Some t b] by auto
  qed
  obtain re x where er: "engine_remove s c h False v = (re, x)" by force
  note g = engine_remove_valid [OF v(1,2) k er, of c]
  have x: "invar x" "rows x = rows v" "live x = (live v)(k := None)" "re = Ok ()" "healthy c x"
    using g v(3) by auto
  from rv obtain u' where ru: "rows v = (rows w)(h \<mapsto> (case live w k of None \<Rightarrow> t | Some p \<Rightarrow> with_bytes (pr_BytesCompleted p) u' t))" ..
  then have "rows x h \<noteq> None" using x by simp
  then obtain y where sp: "tr_SetPaused (torrents s) c h True x = (Ok (), y)"
    using row_update.upd_works [OF paused_law x(1,5)] by blast
  from row_update.upd_Ok [OF paused_law x(1) sp] obtain u where
    ry: "rows y = (rows w)(h \<mapsto> with_paused True u (case live w k of None \<Rightarrow> t | Some p \<Rightarrow> with_bytes (pr_BytesCompleted p) u' t))"
    using x(2) ru by auto
  have "live y = live x" using row_update.upd_rest [OF paused_law x(1) sp] rest_live [of y x] by simp
  then have ly: "live y = (live w)(k := None)" using x(3) lv(1) by simp
  have "svc_Pause s c h w = (Ok (), y)" using b er sp x(4) by (simp add: svc_Pause_def)
  with ry ly show ?thesis by blast
qed

lemma Pause_missing:
  assumes inv: "invar w" "einv w" and hl: "healthy c w" and k: "FromHexString h = Inr k"
    and none: "rows w h = None"
  shows "\<exists>w'. svc_Pause s c h w = (Err (Sentinel SvcTorrentNotFound), w') \<and>
    rows w' = rows w \<and> live w' = (live w)(k := None)"
proof -
  obtain v where b: "persistBytesCompleted s c h w = (Ok (), v)"
    using persistBytes_effect [OF inv(1)] by (metis surj_pair)
  note f = persistBytes_effect [OF inv(1) b, of c]
  have lv: "live v = live w" "einv v = einv w" using f rest_live [of v w] by auto
  have v: "invar v" "einv v" "healthy c v" "rows v = rows w" using f lv inv hl none by auto
  obtain re x where er: "engine_remove s c h False v = (re, x)" by force
  note g = engine_remove_valid [OF v(1,2) k er, of c]
  have x: "invar x" "rows x = rows w" "live x = (live w)(k := None)" "re = Ok ()" "healthy c x"
    using g v(3,4) lv by auto
  obtain y where sp: "tr_SetPaused (torrents s) c h True x = (Err (Sentinel DbTorrentNotFound), y)"
    using row_update.upd_absent [OF paused_law x(1,5)] x(2) none by metis
  have "rows y = rows x" using row_update.upd_missing [OF paused_law x(1) sp] by simp
  moreover have "live y = live x"
    using row_update.upd_rest [OF paused_law x(1) sp] rest_live [of y x] by simp
  moreover have "svc_Pause s c h w = (Err (Sentinel SvcTorrentNotFound), y)"
    using b er sp x(4) by (simp add: svc_Pause_def state_error_def)
  ultimately show ?thesis using x by auto
qed

lemma Pause_malformed:
  assumes "FromHexString h = Inl err"
  shows "svc_Pause s c h w =
    (Err (Errorf ''failed to remove torrent from engine: ''
       (Errorf (''invalid info hash '' @ go_quote h @ '': '') err []) []), w)"
  using assms by (simp add: svc_Pause_def persistBytesCompleted_def snapshot_live engine_remove_invalid)

subsection \<open>Resuming\<close>

lemma SetPaused_effect:
  assumes inv: "invar w" "einv w" and run: "tr_SetPaused (torrents s) c h b w = (r, w')"
  shows "returns r \<and> invar w' \<and> einv w' \<and> live w' = live w \<and> magnet_hash w' = magnet_hash w \<and>
    agree w' = agree w \<and> same_magnets (rows w) (rows w') \<and> (healthy c' w \<longrightarrow> healthy c' w')"
proof -
  note p = row_update.upd_invar [OF paused_law inv(1) run] row_update.upd_rest [OF paused_law inv(1) run]
    row_update.upd_effect [OF paused_law inv(1) run] row_update.upd_returns [OF paused_law run]
    row_update.upd_healthy [OF paused_law inv(1) _ run, of c']
  have "same_magnets (rows w) (rows w')"
    using p(3) by (auto simp: same_magnets_upd)
  with p rest_live [OF p(2)] inv show ?thesis by auto
qed

lemma persistMetadata_same:
  assumes inv: "invar w" "einv w" and run: "persistMetadata s c h w = (r, w')"
  shows "r = Ok () \<and> invar w' \<and> einv w' \<and> live w' = live w \<and> magnet_hash w' = magnet_hash w \<and>
    agree w' = agree w \<and> same_magnets (rows w) (rows w') \<and> (healthy c' w \<longrightarrow> healthy c' w') \<and>
    map_option db_Paused \<circ> rows w' = map_option db_Paused \<circ> rows w"
proof -
  note f = persistMetadata_effect [OF inv(1) run, of c']
  have "same_magnets (rows w) (rows w')" using f by (auto simp: same_magnets_upd)
  moreover have "map_option db_Paused \<circ> rows w' = map_option db_Paused \<circ> rows w"
    using f by (auto simp: fun_eq_iff with_metadata_def)
  ultimately show ?thesis using f rest_live [of w' w] inv by auto
qed

lemma Resume_effect:
  assumes inv: "invar w" "einv w" and run: "svc_Resume s c h w = (r, w')"
  shows "invar w' \<and> einv w' \<and> magnet_hash w' = magnet_hash w \<and> (agree w \<longrightarrow> agree w') \<and>
    same_magnets (rows w) (rows w') \<and> (\<exists>k. only_torrent live k w w')"
proof -
  obtain rg v where get: "tr_Get (torrents s) c h w = (rg, v)" by force
  note f = get_pure [OF get] get_invar [OF get inv(1)]
  have v: "invar v" "einv v" "rows v = rows w" "live v = live w" "magnet_hash v = magnet_hash w" "agree v = agree w"
    using f rest_live [of v w] inv by auto
  have "returns rg" using get_returns [OF get] .
  then show ?thesis
  proof (cases rule: returnsE)
    case (2 e)
    with run get v show ?thesis by (auto simp: svc_Resume_def only_torrent_def)
  next
    case (1 row)
    obtain rp x where sp: "tr_SetPaused (torrents s) c h False v = (rp, x)" by force
    note p = SetPaused_effect [OF v(1,2) sp, of c]
    have "returns rp" using p by blast
    then show ?thesis
    proof (cases rule: returnsE)
      case (2 e)
      with run get 1 sp p v show ?thesis by (auto simp: svc_Resume_def only_torrent_def)
    next
      case o: (1 a)
      obtain ra y where add: "te_AddMagnet (engine s) c (db_Magnet row) x = (ra, y)" by force
      have x: "invar x" "einv x" using p by auto
      note g = add_magnet_law [OF x add, of c]
      then obtain k where k: "only_torrent live k x y" by blast
      have y: "invar y" "einv y" "rows y = rows x" "magnet_hash y = magnet_hash x" "agree x \<longrightarrow> agree y"
        using g by auto
      have wy: "magnet_hash y = magnet_hash w" "agree w \<longrightarrow> agree y" "same_magnets (rows w) (rows y)"
        "only_torrent live k w y"
        using y p v k by (auto simp: only_torrent_def)
      show ?thesis
      proof (cases ra)
        case (Ok hash)
        with run get 1 sp o add have md: "persistMetadata s c hash y = (r, w')" by (simp add: svc_Resume_def)
        note m = persistMetadata_same [OF y(1,2) md, of c]
        have "same_magnets (rows w) (rows w')" using wy(3) m same_magnets_trans by blast
        with m wy show ?thesis by (auto simp: only_torrent_def)
      next
        case (Err e)
        obtain rb z where rb: "tr_SetPaused (torrents s) c h True y = (rb, z)" by force
        note q = SetPaused_effect [OF y(1,2) rb, of c]
        have "w' = z" using run get 1 sp o add Err rb q
          by (auto simp: svc_Resume_def Let_def elim!: returnsE)
        moreover have "same_magnets (rows w) (rows z)" using wy(3) q same_magnets_trans by blast
        ultimately show ?thesis using q wy by (auto simp: only_torrent_def)
      qed (use run get 1 sp o add y wy in \<open>auto simp: svc_Resume_def\<close>)
    qed
  qed
qed

text \<open>The state before \<open>engine.AddMagnet\<close> runs: the row is already marked as not paused.\<close>

lemma Resume_prefix:
  assumes inv: "invar w" "einv w" and hl: "healthy c w" and t: "rows w h = Some t"
  obtains x u where "svc_Resume s c h w =
      call (te_AddMagnet (engine s) c (db_Magnet t) x)
        (\<lambda>hash w. persistMetadata s c hash w)
        (\<lambda>err w. let failed = Err (Errorf ''failed to re-add torrent to engine: '' err []) in
           call (tr_SetPaused (torrents s) c h True w) (\<lambda>_ w. (failed, w)) (\<lambda>rollbackErr w. (failed, w)))"
    "rows x = (rows w)(h \<mapsto> with_paused False u t)" "invar x" "einv x" "healthy c x" "live x = live w"
    "magnet_hash x = magnet_hash w" "rest x = rest w"
proof -
  obtain v where get: "tr_Get (torrents s) c h w = (Ok t, v)" using get_works [OF inv(1) hl, of h] t by auto
  note f = get_pure [OF get] get_invar [OF get inv(1)] get_healthy [OF get hl]
  have v: "invar v" "einv v" "rows v = rows w" "live v = live w" "healthy c v" "magnet_hash v = magnet_hash w"
    using f rest_live [of v w] inv by auto
  obtain x where sp: "tr_SetPaused (torrents s) c h False v = (Ok (), x)"
    using row_update.upd_works [OF paused_law v(1,5), of h] t v(3) by auto
  note p = SetPaused_effect [OF v(1,2) sp, of c]
  from row_update.upd_Ok [OF paused_law v(1) sp] obtain u where
    "rows x = (rows w)(h \<mapsto> with_paused False u t)" using t v(3) by auto
  moreover have "rest x = rest w" using row_update.upd_rest [OF paused_law v(1) sp] f by simp
  ultimately show ?thesis using get sp p v by (intro that [of x u]) (auto simp: svc_Resume_def)
qed

lemma Resume_started:
  assumes inv: "invar w" "einv w" and hl: "healthy c w" and t: "rows w h = Some t"
    and run: "svc_Resume s c h w = (Ok (), w')"
  shows "\<exists>k t'. magnet_hash w (db_Magnet t) = Some k \<and> live w' k \<noteq> None \<and>
    rows w' h = Some t' \<and> \<not> db_Paused t'"
proof -
  obtain x u where pre: "svc_Resume s c h w =
      call (te_AddMagnet (engine s) c (db_Magnet t) x)
        (\<lambda>hash w. persistMetadata s c hash w)
        (\<lambda>err w. let failed = Err (Errorf ''failed to re-add torrent to engine: '' err []) in
           call (tr_SetPaused (torrents s) c h True w) (\<lambda>_ w. (failed, w)) (\<lambda>rollbackErr w. (failed, w)))"
    and x: "rows x = (rows w)(h \<mapsto> with_paused False u t)" "invar x" "einv x" "healthy c x" "live x = live w"
      "magnet_hash x = magnet_hash w"
    by (rule Resume_prefix [OF inv hl t])
  obtain ra y where add: "te_AddMagnet (engine s) c (db_Magnet t) x = (ra, y)" by force
  note g = add_magnet_law [OF x(2,3) add, of c]
  have y: "invar y" "einv y" "rows y = rows x" using g by auto
  from run pre add obtain hash where ra: "ra = Ok hash" and md: "persistMetadata s c hash y = (Ok (), w')"
    by (cases ra) (auto simp: Let_def split: call_splits)
  from g ra obtain k where k: "live y k \<noteq> None" "magnet_hash x (db_Magnet t) = Some k" by auto
  note m = persistMetadata_same [OF y(1,2) md, of c]
  have "map_option db_Paused (rows w' h) = map_option db_Paused (rows y h)"
    using m by (metis comp_apply)
  then have "\<exists>t'. rows w' h = Some t' \<and> \<not> db_Paused t'" using y(3) x(1) by (auto simp: with_paused_def)
  then show ?thesis using k m x(6) by auto
qed

lemma Resume_rolled_back:
  assumes inv: "invar w" "einv w" and hl: "healthy c w" and t: "rows w h = Some t"
    and run: "svc_Resume s c h w = (Err err, w')"
  shows "(\<exists>e. err = Errorf ''failed to re-add torrent to engine: '' e []) \<and>
    (\<exists>t'. rows w' h = Some t' \<and> db_Paused t')"
proof -
  obtain x u where pre: "svc_Resume s c h w =
      call (te_AddMagnet (engine s) c (db_Magnet t) x)
        (\<lambda>hash w. persistMetadata s c hash w)
        (\<lambda>err w. let failed = Err (Errorf ''failed to re-add torrent to engine: '' err []) in
           call (tr_SetPaused (torrents s) c h True w) (\<lambda>_ w. (failed, w)) (\<lambda>rollbackErr w. (failed, w)))"
    and x: "rows x = (rows w)(h \<mapsto> with_paused False u t)" "invar x" "einv x" "healthy c x" "live x = live w"
    by (rule Resume_prefix [OF inv hl t])
  obtain ra y where add: "te_AddMagnet (engine s) c (db_Magnet t) x = (ra, y)" by force
  note g = add_magnet_law [OF x(2,3) add, of c]
  have y: "invar y" "healthy c y" "rows y h \<noteq> None" "einv y" using g x by auto
  obtain z where sp: "tr_SetPaused (torrents s) c h True y = (Ok (), z)"
    using row_update.upd_works [OF paused_law y(1-3)] by blast
  show ?thesis
  proof (cases ra)
    case (Ok hash)
    with pre add run have "persistMetadata s c hash y = (Err err, w')" by simp
    with persistMetadata_same [OF y(1,4)] show ?thesis by blast
  next
    case (Err e)
    with pre add run sp have "w' = z" "err = Errorf ''failed to re-add torrent to engine: '' e []"
      by (auto simp: Let_def)
    moreover have "\<exists>t'. rows z h = Some t' \<and> db_Paused t'"
      using row_update.upd_Ok [OF paused_law y(1) sp] by (auto simp: with_paused_def)
    ultimately show ?thesis by blast
  qed (use pre add run in auto)
qed

subsection \<open>Restoring\<close>

lemma restore_one_effect:
  assumes inv: "invar w" "einv w" and run: "restore_one clock s c row w = (r, w')"
  shows "invar w' \<and> einv w' \<and> magnet_hash w' = magnet_hash w \<and> (agree w \<longrightarrow> agree w') \<and>
    same_magnets (rows w) (rows w') \<and> map_option db_Paused \<circ> rows w' = map_option db_Paused \<circ> rows w \<and>
    (\<forall>e. r = Err e \<longrightarrow> e = Sentinel ContextCanceled \<and> c \<noteq> background) \<and>
    (\<forall>k. live w' k \<noteq> None \<longrightarrow> live w k \<noteq> None \<or> magnet_hash w (db_Magnet row) = Some k \<or> \<not> returns r)"
proof -
  obtain ra y where add: "te_AddMagnet (engine s) c (db_Magnet row) w = (ra, y)" by force
  note g = add_magnet_law [OF inv add, of c]
  then obtain k where k: "only_torrent live k w y" "case ra of
       Ok h \<Rightarrow> h = HexString k \<and> wf_hash k \<and> live y k \<noteq> None \<and> magnet_hash w (db_Magnet row) = Some k
     | Err e \<Rightarrow> live y = live w \<or> magnet_hash w (db_Magnet row) = Some k \<and> live y k = None
     | Panic p \<Rightarrow> True | Hang \<Rightarrow> True" by blast
  have y: "invar y" "einv y" "rows y = rows w" "magnet_hash y = magnet_hash w" "agree w \<longrightarrow> agree y"
    using g by auto
  show ?thesis
  proof (cases ra)
    case (Ok hash)
    obtain rm m where md: "persistMetadata s c hash y = (rm, m)" by force
    note f = persistMetadata_same [OF y(1,2) md, of c]
    have w': "w' = m" and r: "r = (case ctx_Err c (clock m) of None \<Rightarrow> Ok () | Some e \<Rightarrow> Err e)"
      using run add Ok md f by (auto simp: restore_one_def split: option.splits)
    have e: "\<forall>e. r = Err e \<longrightarrow> e = Sentinel ContextCanceled \<and> c \<noteq> background"
      using r by (cases c) (auto simp: ctx_Err_def split: if_splits option.splits)
    have l: "live m j \<noteq> None \<longrightarrow> live w j \<noteq> None \<or> magnet_hash w (db_Magnet row) = Some j" for j
      using f k Ok by (auto simp: only_torrent_def)
    have "live m j \<noteq> None \<longrightarrow> live w j \<noteq> None \<or> magnet_hash w (db_Magnet row) = Some j \<or> \<not> returns r" for j
      using l by blast
    then show ?thesis using f y e unfolding w' by simp
  next
    case (Err err)
    then have "r = Ok ()" "w' = y" using run add by (auto simp: restore_one_def)
    moreover have "live y j \<noteq> None \<longrightarrow> live w j \<noteq> None" for j
      using k Err by (cases "j = k") (auto simp: only_torrent_def)
    ultimately show ?thesis using y by auto
  qed (use run add y in \<open>auto simp: restore_one_def\<close>)
qed

lemma restore_group_effect:
  assumes "invar w" "einv w" "\<forall>e. failed = Some e \<longrightarrow> e = Sentinel ContextCanceled \<and> c \<noteq> background"
    "restore_group clock s c rs failed waiting w = (r, w')"
  shows "invar w' \<and> einv w' \<and> magnet_hash w' = magnet_hash w \<and> (agree w \<longrightarrow> agree w') \<and>
    same_magnets (rows w) (rows w') \<and> map_option db_Paused \<circ> rows w' = map_option db_Paused \<circ> rows w \<and>
    (\<forall>e. r = Err e \<longrightarrow> e = Sentinel ContextCanceled \<and> c \<noteq> background) \<and> (waiting \<longrightarrow> \<not> returns r) \<and>
    (\<forall>k. live w' k \<noteq> None \<longrightarrow> live w k \<noteq> None \<or> \<not> returns r \<or>
       (\<exists>row \<in> set rs. \<not> db_Paused row \<and> magnet_hash w (db_Magnet row) = Some k))"
  using assms
proof (induction rs arbitrary: w failed waiting)
  case Nil
  then show ?case by (auto split: if_splits option.splits)
next
  case (Cons row rs)
  show ?case
  proof (cases "db_Paused row")
    case True
    with Cons.prems have "restore_group clock s c rs failed waiting w = (r, w')" by simp
    from Cons.IH [OF Cons.prems(1-3) this] show ?thesis using True by auto
  next
    case False
    obtain ro v where one: "restore_one clock s c row w = (ro, v)" by force
    note f = restore_one_effect [OF Cons.prems(1,2) one]
    have v: "invar v" "einv v" using f by auto
    have glue: "?thesis"
      if ih: "invar w' \<and> einv w' \<and> magnet_hash w' = magnet_hash v \<and> (agree v \<longrightarrow> agree w') \<and>
        same_magnets (rows v) (rows w') \<and> map_option db_Paused \<circ> rows w' = map_option db_Paused \<circ> rows v \<and>
        (\<forall>e. r = Err e \<longrightarrow> e = Sentinel ContextCanceled \<and> c \<noteq> background) \<and> (wt \<longrightarrow> \<not> returns r) \<and>
        (\<forall>k. live w' k \<noteq> None \<longrightarrow> live v k \<noteq> None \<or> \<not> returns r \<or>
          (\<exists>row \<in> set rs. \<not> db_Paused row \<and> magnet_hash v (db_Magnet row) = Some k))"
      and wt: "\<not> returns ro \<or> waiting \<longrightarrow> wt" for wt
    proof -
      have mh: "magnet_hash v = magnet_hash w" using f by blast
      have "live w k \<noteq> None \<or> \<not> returns r \<or>
        (\<exists>row \<in> set (row # rs). \<not> db_Paused row \<and> magnet_hash w (db_Magnet row) = Some k)"
        if "live w' k \<noteq> None" for k
      proof (cases "live v k = None")
        case True
        then show ?thesis using ih that unfolding mh by auto
      next
        case vk: False
        then have "live w k \<noteq> None \<or> magnet_hash w (db_Magnet row) = Some k \<or> \<not> returns ro" using f by blast
        then show ?thesis using False wt ih by auto
      qed
      moreover have "same_magnets (rows w) (rows w')" using ih f same_magnets_trans by blast
      moreover have "waiting \<longrightarrow> \<not> returns r" using ih wt by blast
      ultimately show ?thesis using ih f unfolding mh by simp
    qed
    show ?thesis
    proof (cases ro)
      case (Ok u)
      with Cons.prems(4) False one have "restore_group clock s c rs failed waiting v = (r, w')" by simp
      from glue [OF Cons.IH [OF v Cons.prems(3) this]] Ok show ?thesis by simp
    next
      case (Err e)
      with Cons.prems(4) False one have g: "restore_group clock s c rs
          (case failed of None \<Rightarrow> Some e | Some d \<Rightarrow> Some d) waiting v = (r, w')" by simp
      have "\<forall>d. (case failed of None \<Rightarrow> Some e | Some d \<Rightarrow> Some d) = Some d \<longrightarrow>
          d = Sentinel ContextCanceled \<and> c \<noteq> background"
        using f Err Cons.prems(3) by (cases failed) auto
      from glue [OF Cons.IH [OF v this g]] Err show ?thesis by simp
    next
      case (Panic p)
      with Cons.prems(4) False one have "w' = v" "r = Panic p" by auto
      with f Panic show ?thesis by simp
    next
      case Hang
      with Cons.prems(4) False one have "restore_group clock s c rs failed True v = (r, w')" by simp
      from glue [OF Cons.IH [OF v Cons.prems(3) this]] show ?thesis by simp
    qed
  qed
qed

text \<open>Restoring starts no torrent that is paused, changes no paused flag, and fails only with the
  repository or when the server is told to stop.\<close>

lemma Restore_keeps:
  assumes inv: "invar w" "einv w" and run: "Restore clock s c w = (r, w')"
  shows "invar w' \<and> einv w' \<and> (agree w \<longrightarrow> agree w') \<and> same_magnets (rows w) (rows w')"
proof -
  obtain rl v where l: "tr_List (torrents s) c w = (rl, v)" by force
  have v: "invar v" "einv v" "rows v = rows w" "agree v = agree w"
    using list_pure [OF l] list_invar [OF l inv(1)] rest_live [of v w] inv by auto
  have "returns rl" using list_returns [OF l] .
  then show ?thesis
  proof (cases rule: returnsE)
    case (2 e)
    with run l v show ?thesis by (auto simp: Restore_def)
  next
    case (1 rs)
    with run l have g: "restore_group clock s c rs None False v = (r, w')" by (simp add: Restore_def)
    show ?thesis using restore_group_effect [OF v(1,2) _ g] v by simp
  qed
qed

lemma Restore_effect:
  assumes inv: "invar w" "einv w" and wk: "well_keyed rows magnet_hash w"
    and run: "Restore clock s c w = (r, w')"
  shows "invar w' \<and> einv w' \<and> magnet_hash w' = magnet_hash w \<and> (agree w \<longrightarrow> agree w') \<and>
    same_magnets (rows w) (rows w') \<and> map_option db_Paused \<circ> rows w' = map_option db_Paused \<circ> rows w \<and>
    (\<forall>e. r = Err e \<longrightarrow> (e = Sentinel ContextCanceled \<and> c \<noteq> background) \<or>
       (\<exists>d. e = Errorf ''failed to list torrents: '' d [])) \<and>
    (\<forall>k t. returns r \<longrightarrow> rows w (HexString k) = Some t \<longrightarrow> db_Paused t \<longrightarrow> live w k = None \<longrightarrow> live w' k = None)"
proof -
  obtain rl v where l: "tr_List (torrents s) c w = (rl, v)" by force
  note f = list_pure [OF l] list_invar [OF l inv(1)]
  have v: "invar v" "einv v" "rows v = rows w" "live v = live w" "magnet_hash v = magnet_hash w" "agree v = agree w"
    using f rest_live [of v w] inv by auto
  have "returns rl" using list_returns [OF l] .
  then show ?thesis
  proof (cases rule: returnsE)
    case (2 e)
    with run l v show ?thesis by (auto simp: Restore_def)
  next
    case (1 rs)
    with run l have g: "restore_group clock s c rs None False v = (r, w')" by (simp add: Restore_def)
    note h = restore_group_effect [OF v(1,2) _ g]
    have "live w' k = None" if ret: "returns r" and t: "rows w (HexString k) = Some t" "db_Paused t"
      and none: "live w k = None" for k t
    proof (rule ccontr)
      assume "live w' k \<noteq> None"
      with h ret none v obtain row where row: "row \<in> set rs" "\<not> db_Paused row"
        "magnet_hash w (db_Magnet row) = Some k" by auto
      from row(1) have rw: "rows w (db_InfoHash row) = Some row"
        using list_Ok [OF inv(1) l [unfolded 1]] by blast
      with wk row(3) have "db_InfoHash row = HexString k" by (metis option.inject well_keyed_def)
      with rw t row(2) show False by simp
    qed
    with h v show ?thesis by auto
  qed
qed

end

section \<open>The invariant of the system\<close>

text \<open>Every managed torrent is filed under the canonical spelling of a hash.\<close>

definition canonical_keys :: "('w \<Rightarrow> string \<Rightarrow> db_torrent option) \<Rightarrow> 'w \<Rightarrow> bool" where
  "canonical_keys rs w \<longleftrightarrow> (\<forall>h. rs w h \<noteq> None \<longrightarrow> (\<exists>k. wf_hash k \<and> h = HexString k))"

lemma canonical_keys_same: "canonical_keys rs w \<Longrightarrow> same_magnets (rs w) (rs w') \<Longrightarrow> canonical_keys rs w'"
  unfolding canonical_keys_def same_magnets_def by (metis option.map_disc_iff)

lemma canonical_keys_delete:
  "canonical_keys rs w \<Longrightarrow> rs w' = rs w \<or> rs w' = (rs w)(h := None) \<Longrightarrow> canonical_keys rs w'"
  by (auto simp: canonical_keys_def split: if_splits)

lemma canonical_keys_add:
  "canonical_keys rs w \<Longrightarrow> wf_hash k \<Longrightarrow> rs w' = (rs w)(HexString k \<mapsto> row) \<Longrightarrow> canonical_keys rs w'"
  by (auto simp: canonical_keys_def split: if_splits)

text \<open>A service whose relation of cache and table also survives a deletion that is reported as failed.\<close>

locale covering_service =
  torrent_service s invar rows rest outer piece_rows healthy einv live magnet_hash agree
  for s :: "'w TorrentService" and invar rows rest outer piece_rows healthy einv live magnet_hash agree +
  assumes delete_keeps: "invar w \<Longrightarrow> agree w \<Longrightarrow> tr_Delete (torrents s) c h w = (Err e, w') \<Longrightarrow> agree w'"
begin

definition system :: "'w \<Rightarrow> bool" where
  "system w \<longleftrightarrow> invar w \<and> einv w \<and> canonical_keys rows w \<and> agree w"

lemma system_AddMagnet:
  assumes "system w" "svc_AddMagnet s c uri opts w = (r, w')"
  shows "system w'"
proof -
  have s: "invar w" "einv w" "canonical_keys rows w" using assms(1) by (auto simp: system_def)
  note f = AddMagnet_effect [OF s(1,2) assms(2)]
  have "canonical_keys rows w'"
    using f canonical_keys_add [OF s(3)] canonical_keys_delete [OF s(3)] by blast
  with f assms(1) show ?thesis by (simp add: system_def)
qed

lemma system_AddFile:
  assumes "system w" "svc_AddFile s c bytes opts w = (r, w')"
  shows "system w'"
proof -
  have s: "invar w" "einv w" "canonical_keys rows w" using assms(1) by (auto simp: system_def)
  note f = AddFile_effect [OF s(1,2) assms(2)]
  have "canonical_keys rows w'"
    using f canonical_keys_add [OF s(3)] canonical_keys_delete [OF s(3)] by blast
  with f assms(1) show ?thesis by (simp add: system_def)
qed

lemma system_Get:
  assumes "system w" "svc_Get s c h w = (r, w')"
  shows "system w'"
proof -
  have s: "invar w" using assms(1) by (simp add: system_def)
  note f = Get_effect [OF s assms(2), of c]
  then have "rest w' = rest w" "rows w' = rows w" "invar w'" by auto
  with rest_live [of w' w] assms(1) show ?thesis by (simp add: system_def canonical_keys_def)
qed

lemma system_reads:
  assumes "system w" "svc_List s c w = (rl, w') \<or> svc_Files s c h w = (rf, w')"
  shows "system w'"
proof -
  have s: "invar w" using assms(1) by (simp add: system_def)
  obtain x v where l: "tr_List (torrents s) c w = (x, v)" by force
  obtain y u where g: "tr_Get (torrents s) c h w = (y, u)" by force
  have "w' = v \<or> w' = u"
    using assms(2) l g by (auto simp: svc_List_def svc_Files_def split: call_splits)
  then have "rest w' = rest w" "rows w' = rows w" "invar w'"
    using list_pure [OF l] list_invar [OF l s] get_pure [OF g] get_invar [OF g s] by auto
  with rest_live [of w' w] assms(1) show ?thesis by (simp add: system_def canonical_keys_def)
qed

text \<open>A malformed hash is never the key of a managed torrent, so removing it cannot get past the repository.\<close>

lemma Remove_malformed:
  assumes "system w" "FromHexString h = Inl e" "svc_Remove s c h b w = (r, w')"
  shows "system w'"
proof -
  have inv: "invar w" "canonical_keys rows w" using assms(1) by (auto simp: system_def)
  have none: "rows w h = None"
    using inv(2) FromHexString_HexString assms(2) unfolding canonical_keys_def by fastforce
  obtain rg v where get: "tr_Get (torrents s) c h w = (rg, v)" by force
  have "returns rg" using get_returns [OF get] .
  then obtain e' where "rg = Err e'"
    using get_Ok [OF inv(1)] get none by (cases rule: returnsE) auto
  with assms(3) get have "w' = v" by (simp add: svc_Remove_def)
  moreover have "rest v = rest w" "rows v = rows w" "invar v"
    using get_pure [OF get] get_invar [OF get inv(1)] by auto
  ultimately show ?thesis using rest_live [of v w] assms(1) by (simp add: system_def canonical_keys_def)
qed

text \<open>On every path, failing ones too.\<close>

lemma Remove_keeps:
  assumes inv: "invar w" "einv w" and k: "FromHexString h = Inr k"
    and run: "svc_Remove s c h b w = (r, w')" and ag: "agree w"
  shows "agree w'"
proof -
  obtain rg v where get: "tr_Get (torrents s) c h w = (rg, v)" by force
  have v: "invar v" "einv v" "agree v"
    using get_pure [OF get] get_invar [OF get inv(1)] rest_live [of v w] inv ag by auto
  have "returns rg" using get_returns [OF get] .
  then show ?thesis
  proof (cases rule: returnsE)
    case (2 e)
    with run get v show ?thesis by (simp add: svc_Remove_def load_error_def)
  next
    case (1 row)
    let ?b = "b \<or> \<not> isComplete s row v"
    obtain re x where er: "engine_remove s c h ?b v = (re, x)" by force
    note g = engine_remove_valid [OF v(1,2) k er]
    have x: "invar x" "agree x" "returns re" using g v by auto
    obtain rd y where de: "tr_Delete (torrents s) c h x = (rd, y)" by force
    have "returns rd" using delete_returns [OF de] .
    with x(3) run get 1 er de delete_keeps [OF x(1,2)] delete_forget_agree [OF x(1,2)] x(2) show ?thesis
      by (auto simp: svc_Remove_def Let_def elim!: returnsE split: if_splits)
  qed
qed

lemma system_Remove:
  assumes "system w" "svc_Remove s c h b w = (r, w')"
  shows "system w'"
proof (cases "FromHexString h")
  case (Inl e)
  then show ?thesis using Remove_malformed [OF assms(1) _ assms(2)] by blast
next
  case (Inr k)
  have s: "invar w" "einv w" "canonical_keys rows w" "agree w" using assms(1) by (auto simp: system_def)
  note f = Remove_effect [OF s(1,2) Inr assms(2)]
  then have "canonical_keys rows w'" using canonical_keys_delete [OF s(3)] by blast
  with f Remove_keeps [OF s(1,2) Inr assms(2) s(4)] show ?thesis by (simp add: system_def)
qed

lemma system_Pause:
  assumes "system w" "svc_Pause s c h w = (r, w')"
  shows "system w'"
proof (cases "FromHexString h")
  case (Inl e)
  then show ?thesis using Pause_malformed [OF Inl, of c w] assms by simp
next
  case (Inr k)
  have s: "invar w" "einv w" "canonical_keys rows w" using assms(1) by (auto simp: system_def)
  note f = Pause_effect [OF s(1,2) Inr assms(2)]
  have "map_option db_Magnet (rows w' j) = map_option db_Magnet (rows w j)" for j
    using f by (cases "j = h"; cases "rows w j") auto
  then have "same_magnets (rows w) (rows w')" by (simp add: same_magnets_def)
  with f canonical_keys_same [OF s(3)] assms(1) show ?thesis by (simp add: system_def)
qed

lemma system_Resume:
  assumes "system w" "svc_Resume s c h w = (r, w')"
  shows "system w'"
proof -
  have s: "invar w" "einv w" "canonical_keys rows w" using assms(1) by (auto simp: system_def)
  note f = Resume_effect [OF s(1,2) assms(2)]
  with canonical_keys_same [OF s(3)] assms(1) show ?thesis by (simp add: system_def)
qed

lemma system_Restore:
  assumes "system w" "Restore clock s c w = (r, w')"
  shows "system w'"
proof -
  have s: "invar w" "einv w" "canonical_keys rows w" using assms(1) by (auto simp: system_def)
  note f = Restore_keeps [OF s(1,2) assms(2)]
  with canonical_keys_same [OF s(3)] assms(1) show ?thesis by (simp add: system_def)
qed

end

end
