(* ===== verification/Metainfo.thy ===== *)
theory Metainfo
  imports InfoHash Paths "HOL-Library.Signed_Division"
begin

text \<open>
  The parts of the torrent library that the engine reads through its torrent handles: the info
  dictionary (\<open>licenses/github.com/anacrolix/torrent/metainfo/info.go\<close>, \<open>fileinfo.go\<close>, \<open>piece.go\<close>),
  the check of an info before it is used (\<open>misc.go\<close>), and the progress of one file (\<open>file.go\<close>).
  Lengths, offsets and piece lengths come from the torrent and are 64-bit integers that wrap around:
  every sum, difference and product of them is wrapped with \<open>i64\<close>, and \<open>/\<close> and \<open>%\<close>, which round towards
  zero, are \<open>div64\<close> and \<open>smod\<close>. The lemmas name the bounds under which nothing wraps.
\<close>

definition div64 :: "int \<Rightarrow> int \<Rightarrow> int" where
  "div64 a b = i64 (a sdiv b)"

section \<open>The info dictionary\<close>

record FileInfo =
  fi_Length :: int
  fi_Path :: "string list"
  fi_PathUtf8 :: "string list"
  fi_PiecesRoot :: "string option"
  fi_TorrentOffset :: int

text \<open>A version 2 file tree is seen through three of its methods: \<open>IsDir\<close>, the files
  \<open>upvertedFiles\<close> yields for a piece length, or \<open>None\<close> when it panics, and the length of every node
  \<open>Walk\<close> visits.\<close>

record FileTree =
  ft_IsDir :: bool
  ft_upvertedFiles :: "int \<Rightarrow> FileInfo list option"
  ft_walkLengths :: "int list"

record Info =
  PieceLength :: int
  Pieces :: string
  info_Name :: string
  NameUtf8 :: string
  info_Length :: int
  Files :: "FileInfo list option"
  MetaVersion :: int
  info_FileTree :: FileTree

definition files_of :: "Info \<Rightarrow> FileInfo list" where
  "files_of info = (case Files info of None \<Rightarrow> [] | Some fs \<Rightarrow> fs)"

definition BestPath :: "FileInfo \<Rightarrow> string list" where
  "BestPath fi = (if fi_PathUtf8 fi \<noteq> [] then fi_PathUtf8 fi else fi_Path fi)"

definition BestName :: "Info \<Rightarrow> string" where
  "BestName info = (if NameUtf8 info \<noteq> [] then NameUtf8 info else info_Name info)"

definition HasV2 :: "Info \<Rightarrow> bool" where
  "HasV2 info = (MetaVersion info = 2)"

definition HasV1 :: "Info \<Rightarrow> bool" where
  "HasV1 info = (MetaVersion info = 0 \<or> MetaVersion info = 1 \<or> Files info \<noteq> None \<or>
                 info_Length info \<noteq> 0 \<or> length (Pieces info) \<noteq> 0)"

definition FilesArePieceAligned :: "Info \<Rightarrow> bool" where
  "FilesArePieceAligned info = HasV2 info"

definition IsDir :: "Info \<Rightarrow> bool" where
  "IsDir info = (if HasV2 info then ft_IsDir (info_FileTree info) else files_of info \<noteq> [])"

definition DisplayPath :: "Info \<Rightarrow> FileInfo \<Rightarrow> string" where
  "DisplayPath info fi = (if IsDir info then join_with ''/'' (BestPath fi) else BestName info)"

text \<open>The loop of \<open>UpvertedV1Files\<close>: every file gets the sum of the lengths before it as offset.\<close>

fun with_offsets :: "int \<Rightarrow> FileInfo list \<Rightarrow> FileInfo list" where
  "with_offsets offset [] = []"
| "with_offsets offset (fi # fs) =
     fi\<lparr>fi_TorrentOffset := offset\<rparr> # with_offsets (i64 (offset + fi_Length fi)) fs"

definition UpvertedV1Files :: "Info \<Rightarrow> FileInfo list" where
  "UpvertedV1Files info =
     (if files_of info = []
      then [\<lparr>fi_Length = info_Length info, fi_Path = [], fi_PathUtf8 = [], fi_PiecesRoot = None,
             fi_TorrentOffset = 0\<rparr>]
      else with_offsets 0 (files_of info))"

text \<open>Listing the files of a version 2 info panics on a malformed root and on a piece length of zero. The
  operations through which an info gets in, \<open>OpenTorrent\<close> of the storage and \<open>setInfo\<close> of a torrent,
  take that panic first; \<open>UpvertedFiles\<close> is the list when there is none.\<close>

definition UpvertedFiles_panics :: "Info \<Rightarrow> bool" where
  "UpvertedFiles_panics info = (HasV2 info \<and> ft_upvertedFiles (info_FileTree info) (PieceLength info) = None)"

definition UpvertedFiles :: "Info \<Rightarrow> FileInfo list" where
  "UpvertedFiles info =
     (if HasV2 info then
        (case ft_upvertedFiles (info_FileTree info) (PieceLength info) of None \<Rightarrow> [] | Some fs \<Rightarrow> fs)
      else UpvertedV1Files info)"

definition TotalLength :: "Info \<Rightarrow> int" where
  "TotalLength info = i64 (sum_list (map fi_Length (UpvertedFiles info)))"

definition NumPieces :: "Info \<Rightarrow> int" where
  "NumPieces info =
     (if HasV2 info
      then i64 (sum_list (map (\<lambda>l. div64 (i64 (l + PieceLength info - 1)) (PieceLength info))
             (ft_walkLengths (info_FileTree info))))
      else int (length (Pieces info)) sdiv 20)"

definition BeginPieceIndex :: "int \<Rightarrow> FileInfo \<Rightarrow> int" where
  "BeginPieceIndex pieceLength fi =
     (if pieceLength = 0 then 0 else div64 (fi_TorrentOffset fi) pieceLength)"

definition EndPieceIndex :: "int \<Rightarrow> FileInfo \<Rightarrow> int" where
  "EndPieceIndex pieceLength fi =
     (if pieceLength = 0 then 0
      else div64 (i64 (fi_TorrentOffset fi + fi_Length fi + pieceLength - 1)) pieceLength)"

text \<open>\<open>Piece.V1Length\<close>; \<open>None\<close> is its panic.\<close>

definition V1Length :: "Info \<Rightarrow> int \<Rightarrow> int option" where
  "V1Length info i =
     (let lastPiece = NumPieces info - 1 in
      if 0 \<le> i \<and> i < lastPiece then Some (PieceLength info)
      else if lastPiece \<ge> 0 \<and> i = lastPiece then
        (let lastFile = last (UpvertedV1Files info);
             len = i64 (fi_TorrentOffset lastFile + fi_Length lastFile - i * PieceLength info) in
         if len \<le> 0 \<or> len > PieceLength info then None else Some len)
      else None)"

definition validateInfo :: "Info \<Rightarrow> go_error option" where
  "validateInfo info =
     (if length (Pieces info) mod 20 \<noteq> 0 then Some (ErrorString ''pieces has invalid length'')
      else if PieceLength info = 0 then
        (if TotalLength info \<noteq> 0 then Some (ErrorString ''zero piece length'') else None)
      else if \<not> HasV2 info \<and>
              div64 (i64 (TotalLength info + PieceLength info - 1)) (PieceLength info) \<noteq> NumPieces info
        then Some (ErrorString ''piece count and file lengths are at odds'')
      else None)"

section \<open>Progress of one file\<close>

text \<open>The body of the iteration in \<open>fileBytesLeft\<close>, for a piece that is not complete.\<close>

definition piece_left :: "int \<Rightarrow> int \<Rightarrow> int \<Rightarrow> int \<Rightarrow> int \<Rightarrow> (int \<Rightarrow> int) \<Rightarrow> int \<Rightarrow> int" where
  "piece_left usual first stop off len got i =
     (let pieceSizeCompleted = got i in
      if i = first then
        (let beginOffset = off smod usual;
             beginSize = i64 (usual - beginOffset);
             beginDownLoaded = max 0 (i64 (pieceSizeCompleted - beginOffset)) in
         i64 (beginSize - beginDownLoaded))
      else if i = stop - 1 then
        (let endSize = i64 (off + len) smod usual;
             endSize = (if endSize = 0 then usual else endSize);
             endDownloaded = min endSize pieceSizeCompleted in
         i64 (endSize - endDownloaded))
      else i64 (usual - pieceSizeCompleted))"

definition fileBytesLeft ::
  "int \<Rightarrow> int \<Rightarrow> int \<Rightarrow> int \<Rightarrow> int \<Rightarrow> (int \<Rightarrow> bool) \<Rightarrow> (int \<Rightarrow> int) \<Rightarrow> int" where
  "fileBytesLeft usual first stop off len completed got =
     (if len = 0 then 0
      else
        (let left = i64 (sum_list (map (piece_left usual first stop off len got)
                       (filter (\<lambda>i. \<not> completed i) [first..stop - 1]))) in
         min left len))"

section \<open>Facts\<close>

lemma sdiv_nonneg: "0 \<le> a \<Longrightarrow> 0 \<le> b \<Longrightarrow> a sdiv b = a div b" for a b :: int
  by (auto simp: signed_divide_int_def sgn_if)

lemma smod_nonneg: "0 \<le> a \<Longrightarrow> 0 \<le> b \<Longrightarrow> a smod b = a mod b" for a b :: int
  by (simp add: smod_int_alt_def sgn_if)

lemma div64_nonneg:
  assumes "0 \<le> a" "a < 2 ^ 63" "0 \<le> b"
  shows "div64 a b = a div b"
proof -
  have "0 \<le> a div b" using assms by (simp add: div_int_pos_iff)
  moreover have "a div b \<le> a"
    using assms zdiv_mono2 [of a 1 b] by (cases "b = 0") auto
  ultimately show ?thesis using assms by (simp add: div64_def sdiv_nonneg i64_nonneg)
qed

text \<open>Rounding up to the next piece.\<close>

lemma round_up:
  assumes "0 \<le> a" "0 < b" "a + b \<le> 2 ^ 63"
  shows "div64 (i64 (a + b - 1)) b = (a + b - 1) div b"
proof -
  have "0 \<le> a + b - 1" "a + b - 1 < 2 ^ 63" using assms by linarith+
  then show ?thesis using assms(2) by (simp add: i64_nonneg div64_nonneg del: add_diff_eq)
qed

lemma div_bounds:
  fixes x u :: int
  assumes "0 < u"
  shows "x div u * u \<le> x" and "x < (x div u + 1) * u"
proof -
  have "x div u * u = x - x mod u" by (simp add: minus_mod_eq_div_mult)
  then show "x div u * u \<le> x" "x < (x div u + 1) * u"
    using pos_mod_sign [OF assms, of x] pos_mod_bound [OF assms, of x]
    unfolding distrib_right by linarith+
qed

subsection \<open>Offsets\<close>

lemma with_offsets_lengths: "map fi_Length (with_offsets o0 fs) = map fi_Length fs"
  by (induction o0 fs rule: with_offsets.induct) auto

lemma with_offsets_last:
  "fs \<noteq> [] \<Longrightarrow> i64 (fi_TorrentOffset (last (with_offsets o0 fs)) + fi_Length (last (with_offsets o0 fs))) =
    i64 (o0 + sum_list (map fi_Length fs))"
proof (induction o0 fs rule: with_offsets.induct)
  case (2 o0 fi fs)
  then show ?case by (cases fs) (auto simp: add.assoc)
qed simp

text \<open>The last file ends at the total length, also when both wrap.\<close>

lemma UpvertedV1_end:
  assumes "\<not> HasV2 info"
  shows "i64 (fi_TorrentOffset (last (UpvertedV1Files info)) + fi_Length (last (UpvertedV1Files info)) - x) =
    i64 (TotalLength info - x)"
proof -
  have "i64 (fi_TorrentOffset (last (UpvertedV1Files info)) + fi_Length (last (UpvertedV1Files info))) = TotalLength info"
    using assms with_offsets_last [of "files_of info" 0]
    by (simp add: UpvertedV1Files_def TotalLength_def UpvertedFiles_def with_offsets_lengths)
  then show ?thesis by (metis i64_diff_i64(1))
qed

text \<open>An info that passes the check has exactly the pieces its length needs, and no piece makes
  \<open>V1Length\<close> panic, as long as rounding the length up to a piece does not wrap.\<close>

lemma validateInfo_pieces:
  assumes "validateInfo info = None" "\<not> HasV2 info" "0 < PieceLength info" "0 \<le> TotalLength info"
    "TotalLength info + PieceLength info \<le> 2 ^ 63"
  shows "NumPieces info = (TotalLength info + PieceLength info - 1) div PieceLength info"
    and "(NumPieces info - 1) * PieceLength info < TotalLength info + (if TotalLength info = 0 then 1 else 0)"
    and "TotalLength info \<le> NumPieces info * PieceLength info"
proof -
  let ?p = "PieceLength info" and ?t = "TotalLength info"
  show n: "NumPieces info = (?t + ?p - 1) div ?p"
    using assms round_up [of ?t ?p] by (auto simp: validateInfo_def split: if_splits)
  note 1 = div_bounds [OF assms(3), of "?t + ?p - 1"]
  show "(NumPieces info - 1) * ?p < ?t + (if ?t = 0 then 1 else 0)"
    using 1(1) unfolding n left_diff_distrib by (auto simp del: add_diff_eq)
  show "?t \<le> NumPieces info * ?p" using 1(2) by (simp add: n distrib_right)
qed

lemma V1Length_defined:
  assumes "validateInfo info = None" "\<not> HasV2 info" "0 < PieceLength info" "0 \<le> TotalLength info"
    "TotalLength info + PieceLength info \<le> 2 ^ 63" "0 \<le> i" "i < NumPieces info"
  shows "V1Length info i = Some (if i < NumPieces info - 1 then PieceLength info else TotalLength info - i * PieceLength info)"
    and "\<exists>l. V1Length info i = Some l \<and> 0 < l \<and> l \<le> PieceLength info"
proof -
  let ?p = "PieceLength info" and ?t = "TotalLength info"
  have "V1Length info i = Some (if i < NumPieces info - 1 then ?p else ?t - i * ?p) \<and>
    (\<exists>l. V1Length info i = Some l \<and> 0 < l \<and> l \<le> ?p)"
  proof (cases "i < NumPieces info - 1")
    case True
    with assms show ?thesis by (simp add: V1Length_def Let_def)
  next
    case False
    then have i: "i = NumPieces info - 1" using assms(7) by simp
    note b = validateInfo_pieces [OF assms(1-5)]
    have t: "?t \<noteq> 0" using b(1) assms(3,6,7) by auto
    then have l: "0 < ?t - i * ?p" using b(2) by (simp add: i)
    moreover have h: "?t - i * ?p \<le> ?p" using b(3) by (simp add: i left_diff_distrib)
    moreover have "i64 (?t - i * ?p) = ?t - i * ?p" using l h t assms(4,5) by (intro i64_nonneg) linarith+
    ultimately show ?thesis
      using False assms(6,7) UpvertedV1_end [OF assms(2), of "i * ?p"] by (simp add: V1Length_def Let_def i)
  qed
  then show "V1Length info i = Some (if i < NumPieces info - 1 then ?p else ?t - i * ?p)"
    and "\<exists>l. V1Length info i = Some l \<and> 0 < l \<and> l \<le> ?p" by blast+
qed

subsection \<open>File progress\<close>

text \<open>What is really left of a file: of every incomplete piece the part that lies in the file.\<close>

definition overlap :: "int \<Rightarrow> int \<Rightarrow> int \<Rightarrow> int \<Rightarrow> int" where
  "overlap usual off len i = min ((i + 1) * usual) (off + len) - max (i * usual) off"

lemma fileBytesLeft_le: "0 \<le> len \<Longrightarrow> fileBytesLeft usual first stop off len completed got \<le> len"
  by (simp add: fileBytesLeft_def Let_def)

lemma fileBytesLeft_complete:
  assumes "0 \<le> len" "\<And>i. first \<le> i \<Longrightarrow> i < stop \<Longrightarrow> completed i"
  shows "fileBytesLeft usual first stop off len completed got = 0"
proof -
  have "filter (\<lambda>i. \<not> completed i) [first..stop - 1] = []"
    using assms(2) by (simp add: filter_empty_conv)
  then show ?thesis using assms(1) by (simp add: fileBytesLeft_def Let_def)
qed

lemma telescope:
  fixes F :: "int \<Rightarrow> int"
  assumes "a \<le> b"
  shows "sum_list (map (\<lambda>i. F (i + 1) - F i) [a..b - 1]) = F b - F a"
  using assms
proof (induction b rule: int_ge_induct)
  case (step b)
  then show ?case by (simp add: upto_rec2)
qed simp

lemma sum_list_filter_le:
  "(\<And>x. x \<in> set xs \<Longrightarrow> 0 \<le> f x) \<Longrightarrow> sum_list (map f (filter P xs)) \<le> sum_list (map f xs)"
  for f :: "'a \<Rightarrow> int"
  by (induction xs) force+

text \<open>The pieces of a non-empty file.\<close>

lemma file_pieces:
  fixes usual off len :: int
  assumes "0 < usual" "0 \<le> off" "0 < len"
  defines "first \<equiv> off div usual" and "stop \<equiv> (off + len + usual - 1) div usual"
  shows "first * usual \<le> off" "off < (first + 1) * usual" "off + len \<le> stop * usual"
    "(stop - 1) * usual < off + len" "first < stop"
proof -
  note d = div_bounds [OF assms(1), of off] div_bounds [OF assms(1), of "off + len + usual - 1"]
  show 1: "first * usual \<le> off" "off < (first + 1) * usual"
    using d(1,2) by (auto simp: first_def)
  show 3: "off + len \<le> stop * usual" "(stop - 1) * usual < off + len"
    using d(3,4) by (auto simp: stop_def distrib_right left_diff_distrib)
  have "first * usual < stop * usual" using 1 3 assms(3) by linarith
  then show "first < stop" using assms(1) by simp
qed

lemma overlap_total:
  fixes usual off len :: int
  assumes "0 < usual" "0 \<le> off" "0 < len"
  defines "first \<equiv> off div usual" and "stop \<equiv> (off + len + usual - 1) div usual"
  shows "sum_list (map (overlap usual off len) [first..stop - 1]) = len"
    and "\<And>i. first \<le> i \<Longrightarrow> i < stop \<Longrightarrow> 0 \<le> overlap usual off len i"
proof -
  note fp = file_pieces [OF assms(1-3), folded first_def stop_def]
  have lo: "off < (i + 1) * usual" if "first \<le> i" for i
    using fp(2) that mult_right_mono [of "first + 1" "i + 1" usual] assms(1) by linarith
  have hi: "i * usual < off + len" if "i < stop" for i
    using fp(4) that mult_right_mono [of i "stop - 1" usual] assms(1) by linarith
  let ?F = "\<lambda>i. max off (min (i * usual) (off + len))"
  have eq: "overlap usual off len i = ?F (i + 1) - ?F i" if "first \<le> i" "i < stop" for i
    using lo [OF that(1)] hi [OF that(2)] assms(3) by (auto simp: overlap_def max_def min_def)
  have ends: "?F stop = off + len" "?F first = off" using fp assms(3) by auto
  have "map (overlap usual off len) [first..stop - 1] = map (\<lambda>i. ?F (i + 1) - ?F i) [first..stop - 1]"
    by (rule map_cong) (auto simp: eq)
  then show "sum_list (map (overlap usual off len) [first..stop - 1]) = len"
    using telescope [of first stop ?F] ends fp(5) by (simp only: less_imp_le)
  show "0 \<le> overlap usual off len i" if "first \<le> i" "i < stop" for i
    using lo [OF that(1)] hi [OF that(2)] assms(1,3) by (auto simp: overlap_def max_def min_def distrib_right)
qed

lemma piece_left_overlap:
  fixes usual off len :: int
  assumes "0 < usual" "0 \<le> off" "0 < len"
  defines "first \<equiv> off div usual" and "stop \<equiv> (off + len + usual - 1) div usual"
  assumes more: "first + 1 < stop" and i: "first \<le> i" "i < stop" and none: "got i = 0"
    and small: "off + len + usual \<le> 2 ^ 63"
  shows "piece_left usual first stop off len got i = overlap usual off len i"
proof -
  note fp = file_pieces [OF assms(1-3), folded first_def stop_def]
  have off_mod: "off mod usual = off - first * usual"
    by (simp add: first_def minus_div_mult_eq_mod)
  consider "i = first" | "first < i" "i < stop - 1" | "first < i" "i = stop - 1" using i by linarith
  then show ?thesis
  proof cases
    case 1
    have "(first + 1) * usual \<le> (stop - 1) * usual" using more assms(1) by (intro mult_right_mono) auto
    moreover have "i64 (first * usual - off) = first * usual - off"
      "i64 (usual - (off - first * usual)) = usual - (off - first * usual)"
      using fp(1,2) assms(1-3) small by (auto intro!: i64_fits simp: fits64_def distrib_right)
    ultimately show ?thesis using 1 none fp assms(1,2)
      by (simp add: piece_left_def Let_def overlap_def smod_nonneg off_mod distrib_right)
  next
    case 2
    have "(i + 1) * usual \<le> (stop - 1) * usual" "(first + 1) * usual \<le> i * usual"
      using 2 assms(1) by (auto intro!: mult_right_mono)
    moreover have "i64 usual = usual" using assms(1-3) small by (intro i64_nonneg) linarith+
    ultimately show ?thesis using 2 none fp assms(1,2)
      by (simp add: piece_left_def Let_def overlap_def distrib_right)
  next
    case 3
    have ge: "(first + 1) * usual \<le> (stop - 1) * usual" using more assms(1) by (intro mult_right_mono) auto
    let ?m = "(off + len) mod usual" and ?d = "off + len - (stop - 1) * usual"
    have d: "0 < ?d" "?d \<le> usual" using fp by (auto simp: left_diff_distrib)
    have "(if ?m = 0 then usual else ?m) = ?d"
    proof (cases "?d = usual")
      case True
      then have "off + len = stop * usual" by (simp add: left_diff_distrib)
      then show ?thesis using True by simp
    next
      case False
      then have "?d mod usual = ?d" using d by (intro mod_pos_pos_trivial) auto
      moreover have "?d mod usual = ?m"
        using mod_mult_self1 [of "off + len" "1 - stop" usual] by (simp add: algebra_simps)
      ultimately have "?m = ?d" by simp
      with d show ?thesis by simp
    qed
    moreover have "i64 (off + len) = off + len" "i64 ?d = ?d"
      using assms(1-3) small d by (auto intro!: i64_nonneg)
    ultimately show ?thesis using 3 none ge fp assms(1-3)
      by (simp add: piece_left_def Let_def overlap_def smod_nonneg left_diff_distrib)
  qed
qed

lemma fileBytesLeft_overlap:
  fixes usual off len :: int
  assumes "0 < usual" "0 \<le> off" "0 < len"
  defines "first \<equiv> off div usual" and "stop \<equiv> (off + len + usual - 1) div usual"
  assumes small: "off + len + usual \<le> 2 ^ 63" and none: "\<And>i. got i = 0"
  shows "fileBytesLeft usual first stop off len completed got =
    sum_list (map (overlap usual off len) (filter (\<lambda>i. \<not> completed i) [first..stop - 1]))"
    (is "_ = ?ref")
proof -
  note fp = file_pieces [OF assms(1-3), folded first_def stop_def]
  note ov = overlap_total [OF assms(1-3), folded first_def stop_def]
  show ?thesis
  proof (cases "first + 1 < stop")
    case True
    have eq: "map (piece_left usual first stop off len got) (filter (\<lambda>i. \<not> completed i) [first..stop - 1]) =
        map (overlap usual off len) (filter (\<lambda>i. \<not> completed i) [first..stop - 1])"
      using piece_left_overlap [OF assms(1-3), folded first_def stop_def, OF True] none small
      by (intro map_cong) auto
    have "?ref \<le> len"
      using sum_list_filter_le [of "[first..stop - 1]" "overlap usual off len" "\<lambda>i. \<not> completed i"] ov by auto
    moreover have "0 \<le> ?ref" using ov(2) by (auto intro!: sum_list_nonneg)
    ultimately have "i64 ?ref = ?ref" "?ref \<le> len" using assms(1-3) small by (auto intro!: i64_nonneg)
    then show ?thesis using assms(3) unfolding fileBytesLeft_def Let_def eq by (simp del: map_eq_conv)
  next
    case False
    then have st: "stop = first + 1" using fp(5) by simp
    have "len \<le> usual - off mod usual"
      using fp(1,3) by (simp add: st distrib_right first_def minus_div_mult_eq_mod [symmetric])
    moreover have "overlap usual off len first = len" using ov(1) st by simp
    moreover have "i64 (usual - off mod usual) = usual - off mod usual" "i64 (- (off mod usual)) = - (off mod usual)"
      using assms(1-3) small pos_mod_sign [OF assms(1), of off] pos_mod_bound [OF assms(1), of off]
      by (auto intro!: i64_fits simp: fits64_def)
    ultimately show ?thesis using assms(1-3) none st
      by (simp add: fileBytesLeft_def Let_def piece_left_def smod_nonneg)
  qed
qed

end
