(* ===== verification/Merkle.thy ===== *)
theory Merkle
  imports Metainfo
begin

text \<open>
  The piece layers of a version 2 torrent: the hash trees of
  \<open>licenses/github.com/anacrolix/torrent/merkle/merkle.go\<close> and the check that a torrent makes of the layers
  that come with a torrent file (\<open>addPieceLayersLocked\<close> of \<open>torrent.go\<close>). SHA-256 is a parameter. Of a check
  that passes, the hashes it leaves in the pieces are not kept.
\<close>

section \<open>Hash trees\<close>

fun bits_Len :: "nat \<Rightarrow> nat" where
  "bits_Len n = (if n = 0 then 0 else Suc (bits_Len (n div 2)))"

declare bits_Len.simps [simp del]

text \<open>\<open>1 << bits.Len(n-1)\<close> on \<open>uint\<close>; for no hashes \<open>n-1\<close> is all ones and the shift leaves zero.\<close>

definition RoundUpToPowerOfTwo :: "nat \<Rightarrow> nat" where
  "RoundUpToPowerOfTwo n = (if n = 0 then 0 else 2 ^ bits_Len (n - 1))"

fun hash_pairs :: "(string \<Rightarrow> string) \<Rightarrow> string list \<Rightarrow> string list" where
  "hash_pairs sha256 (left # right # hashes) = sha256 (left @ right) # hash_pairs sha256 hashes"
| "hash_pairs sha256 hashes = []"

lemma length_hash_pairs: "length (hash_pairs sha256 hs) = length hs div 2"
  by (induction sha256 hs rule: hash_pairs.induct) auto

function merkle_Root :: "(string \<Rightarrow> string) \<Rightarrow> string list \<Rightarrow> string res" where
  "merkle_Root sha256 hashes =
     (case hashes of
        [] \<Rightarrow> Ok (sha256 [])
      | [h] \<Rightarrow> Ok h
      | _ \<Rightarrow>
        if length hashes \<noteq> RoundUpToPowerOfTwo (length hashes)
        then Panic (''expected power of two number of hashes, got '' @ nat_dec (length hashes))
        else merkle_Root sha256 (hash_pairs sha256 hashes))"
  by auto
termination by (relation "measure (\<lambda>(_, hs). length hs)") (auto simp: length_hash_pairs)

declare merkle_Root.simps [simp del]

definition RootWithPadHash :: "(string \<Rightarrow> string) \<Rightarrow> string list \<Rightarrow> string \<Rightarrow> string res" where
  "RootWithPadHash sha256 hashes padHash =
     merkle_Root sha256 (hashes @ replicate (RoundUpToPowerOfTwo (length hashes) - length hashes) padHash)"

text \<open>Whole hashes only: a remainder of the layer is left out.\<close>

definition CompactLayerToSliceHashes :: "string \<Rightarrow> string list" where
  "CompactLayerToSliceHashes compactLayer =
     map (\<lambda>i. take 32 (drop (i * 32) compactLayer)) [0..<length compactLayer div 32]"

definition HashForPiecePad :: "(string \<Rightarrow> string) \<Rightarrow> int \<Rightarrow> string res" where
  "HashForPiecePad sha256 pieceLength =
     (let blocksPerPiece = pieceLength sdiv 2 ^ 14 in
      if blocksPerPiece < 0 then Panic ''makeslice: len out of range''
      else merkle_Root sha256 (replicate (nat blocksPerPiece) (replicate 32 (CHR 0x00))))"

section \<open>The layers of a torrent file\<close>

definition file_path :: "Info \<Rightarrow> FileInfo \<Rightarrow> string" where
  "file_path info fi = join_with ''/'' (BestName info # BestPath fi)"

definition numPieces_of :: "Info \<Rightarrow> FileInfo \<Rightarrow> int" where
  "numPieces_of info fi = i64 (EndPieceIndex (PieceLength info) fi - BeginPieceIndex (PieceLength info) fi)"

text \<open>The body of the loop over the files: the error it adds, if any.\<close>

definition file_layer :: "(string \<Rightarrow> string) \<Rightarrow> Info \<Rightarrow> (string \<times> string) list \<Rightarrow> FileInfo \<Rightarrow> go_error option res" where
  "file_layer sha256 info layers fi =
     (if numPieces_of info fi \<le> 1 then Ok None
      else
        (case fi_PiecesRoot fi of
           None \<Rightarrow> Ok (Some (ErrorString (''no piece root set for file '' @ file_path info fi)))
         | Some piecesRoot \<Rightarrow>
           (case map_of layers piecesRoot of
              None \<Rightarrow> Ok None
            | Some compactLayer \<Rightarrow>
              (let hashes = CompactLayerToSliceHashes compactLayer in
               if int (length hashes) \<noteq> numPieces_of info fi
               then Ok (Some (ErrorString (''file '' @ go_quote (file_path info fi) @ '': got '' @ nat_dec (length hashes) @
                      '' hashes expected '' @ int_dec (numPieces_of info fi))))
               else
                 (case HashForPiecePad sha256 (PieceLength info) of
                    Ok padHash \<Rightarrow>
                      (case RootWithPadHash sha256 hashes padHash of
                         Ok root \<Rightarrow>
                           Ok (if root \<noteq> piecesRoot
                               then Some (ErrorString (file_path info fi @ '': expected hash '' @ HexString piecesRoot @
                                      '' got '' @ HexString root))
                               else None)
                       | Err e \<Rightarrow> Err e | Panic p \<Rightarrow> Panic p | Hang \<Rightarrow> Hang)
                  | Err e \<Rightarrow> Err e | Panic p \<Rightarrow> Panic p | Hang \<Rightarrow> Hang)))))"

fun file_layers :: "(string \<Rightarrow> string) \<Rightarrow> Info \<Rightarrow> (string \<times> string) list \<Rightarrow> FileInfo list \<Rightarrow> go_error option list res" where
  "file_layers sha256 info layers [] = Ok []"
| "file_layers sha256 info layers (fi # fis) =
     (case file_layer sha256 info layers fi of
        Ok err \<Rightarrow> (case file_layers sha256 info layers fis of Ok errs \<Rightarrow> Ok (err # errs) | r \<Rightarrow> r)
      | Err e \<Rightarrow> Err e | Panic p \<Rightarrow> Panic p | Hang \<Rightarrow> Hang)"

text \<open>\<open>errors.Join(t.addPieceLayersLocked(layers)...)\<close>; a nil map has nothing to add.\<close>

definition addPieceLayers :: "(string \<Rightarrow> string) \<Rightarrow> Info \<Rightarrow> (string \<times> string) list option \<Rightarrow> unit res" where
  "addPieceLayers sha256 info layers =
     (case layers of
        None \<Rightarrow> Ok ()
      | Some ls \<Rightarrow>
        (case file_layers sha256 info ls (UpvertedFiles info) of
           Ok errs \<Rightarrow> (case errors_Join errs of None \<Rightarrow> Ok () | Some e \<Rightarrow> Err e)
         | Err e \<Rightarrow> Err e | Panic p \<Rightarrow> Panic p | Hang \<Rightarrow> Hang))"

section \<open>Facts\<close>

lemma bits_Len_power: "bits_Len (2 ^ n - 1) = n"
proof (induction n)
  case (Suc n)
  have "(2 ^ Suc n - 1) div 2 = (2 ^ n - 1 :: nat)" by (simp add: diff_mult_distrib2)
  moreover have "(2 :: nat) ^ Suc n - 1 \<noteq> 0" using one_less_power [of "2 :: nat" "Suc n"] by simp
  ultimately show ?case using Suc by (subst bits_Len.simps) simp
qed (simp add: bits_Len.simps)

lemma RoundUpToPowerOfTwo_power [simp]: "RoundUpToPowerOfTwo (2 ^ n) = 2 ^ n"
  using bits_Len_power [of n] by (simp add: RoundUpToPowerOfTwo_def)

text \<open>A power of two of hashes has a root, so padding never makes \<open>Root\<close> panic; a piece length that is not
  a power of two of blocks does.\<close>

lemma merkle_Root_power: "length hs = 2 ^ n \<Longrightarrow> \<exists>h. merkle_Root sha256 hs = Ok h"
proof (induction n arbitrary: hs)
  case 0
  then show ?case by (cases hs) (auto simp: merkle_Root.simps)
next
  case (Suc n)
  have "2 \<le> length hs" using Suc.prems by simp
  then obtain a b xs where hs: "hs = a # b # xs" by (metis Suc_le_length_iff numeral_2_eq_2)
  have "length (hash_pairs sha256 hs) = 2 ^ n" using Suc.prems by (simp add: length_hash_pairs)
  from Suc.IH [OF this] show ?case
    using Suc.prems RoundUpToPowerOfTwo_power [of "Suc n"] by (subst merkle_Root.simps) (simp add: hs del: power_Suc hash_pairs.simps)
qed

lemma pad_of_three_blocks:
  "HashForPiecePad sha256 (3 * 2 ^ 14) = Panic ''expected power of two number of hashes, got 3''"
proof -
  have n: "replicate 3 z = [z, z, z]" for z :: string by (simp add: numeral_eq_Suc)
  have "RoundUpToPowerOfTwo 3 = 4" by (simp add: RoundUpToPowerOfTwo_def bits_Len.simps)
  then have "merkle_Root sha256 (replicate 3 z) = Panic ''expected power of two number of hashes, got 3''" for z
    by (subst merkle_Root.simps) (simp add: n nat_dec.simps digit_char_def numeral_3_eq_3)
  then show ?thesis by (simp add: HashForPiecePad_def sdiv_nonneg)
qed

lemma addPieceLayers_nil [simp]: "addPieceLayers sha256 info None = Ok ()"
  by (simp add: addPieceLayers_def)

end
