(* ===== verification/Url.thy ===== *)
theory Url
  imports InfoHash Paths
begin

text \<open>
  Query strings and URLs as \<open>net/url\<close> reads and writes them, which the HTTP client and the magnet links
  of the torrent library are built on.

  \<open>url.Values\<close>, a Go map, is kept as the list of its entries sorted by key, so that equal maps are
  equal lists and \<open>Encode\<close>, which sorts the keys, runs through it in order. The syntax of the authority part
  (\<open>//user@host:port\<close>) is a parameter: nothing here looks at the host.
\<close>

section \<open>Escaping\<close>

definition hex_pair :: "char \<Rightarrow> char \<Rightarrow> char option" where
  "hex_pair a b =
     (case (hex_val a, hex_val b) of (Some x, Some y) \<Rightarrow> Some (char_of (16 * x + y)) | _ \<Rightarrow> None)"

definition EscapeError :: "string \<Rightarrow> go_error" where
  "EscapeError s = ErrorString (''invalid URL escape '' @ go_quote (take 3 s))"

text \<open>\<open>url.unescape\<close>; a plus sign means a space in queries only.\<close>

fun url_unescape :: "bool \<Rightarrow> string \<Rightarrow> go_error + string" where
  "url_unescape query [] = Inr []"
| "url_unescape query (c # cs) =
     (if c = CHR ''%'' then
        (case cs of
           a # b # r \<Rightarrow>
             (case hex_pair a b of None \<Rightarrow> Inl (EscapeError (c # cs))
              | Some d \<Rightarrow> map_sum id (\<lambda>ds. d # ds) (url_unescape query r))
         | _ \<Rightarrow> Inl (EscapeError (c # cs)))
      else map_sum id (\<lambda>ds. (if query \<and> c = CHR ''+'' then CHR '' '' else c) # ds) (url_unescape query cs))"

abbreviation query_unescape :: "string \<Rightarrow> go_error + string" where
  "query_unescape \<equiv> url_unescape True"

text \<open>\<open>url.QueryEscape\<close>: letters, digits and \<open>-_.~\<close> stand for themselves.\<close>

definition unreserved :: "char \<Rightarrow> bool" where
  "unreserved c =
     (let n = (of_char c :: nat) in
      97 \<le> n \<and> n \<le> 122 \<or> 65 \<le> n \<and> n \<le> 90 \<or> 48 \<le> n \<and> n \<le> 57 \<or> c \<in> set ''-_.~'')"

definition upper_hex :: "nat \<Rightarrow> char" where
  "upper_hex d = (if d < 10 then char_of (48 + d) else char_of (55 + d))"

definition escape_char :: "char \<Rightarrow> string" where
  "escape_char c =
     (if unreserved c then [c]
      else if c = CHR '' '' then ''+''
      else [CHR ''%'', upper_hex (of_char c div 16), upper_hex (of_char c mod 16)])"

definition query_escape :: "string \<Rightarrow> string" where
  "query_escape s = concat (map escape_char s)"

section \<open>Values\<close>

type_synonym Values = "(string \<times> string list) list"

definition values_at :: "Values \<Rightarrow> string \<Rightarrow> string list" where
  "values_at vs k = (case map_of vs k of None \<Rightarrow> [] | Some v \<Rightarrow> v)"

fun values_Set :: "string \<Rightarrow> string list \<Rightarrow> Values \<Rightarrow> Values" where
  "values_Set k v [] = [(k, v)]"
| "values_Set k v ((j, u) # vs) =
     (if k < j then (k, v) # (j, u) # vs
      else if k = j then (k, v) # vs
      else (j, u) # values_Set k v vs)"

definition values_Add :: "string \<Rightarrow> string \<Rightarrow> Values \<Rightarrow> Values" where
  "values_Add k v vs = values_Set k (values_at vs k @ [v]) vs"

definition values_Del :: "string \<Rightarrow> Values \<Rightarrow> Values" where
  "values_Del k vs = filter (\<lambda>e. fst e \<noteq> k) vs"

text \<open>\<open>Values.Encode\<close>\<close>

definition encode_pair :: "string \<times> string \<Rightarrow> string" where
  "encode_pair kv = query_escape (fst kv) @ ''='' @ query_escape (snd kv)"

definition value_pairs :: "Values \<Rightarrow> (string \<times> string) list" where
  "value_pairs vs = concat (map (\<lambda>(k, v). map (Pair k) v) vs)"

definition values_Encode :: "Values \<Rightarrow> string" where
  "values_Encode vs = join_with ''&'' (map encode_pair (value_pairs vs))"

text \<open>\<open>url.ParseQuery\<close>, whose errors \<open>URL.Query\<close> ignores: pairs that do not parse are left out.\<close>

definition parse_pair :: "string \<Rightarrow> (string \<times> string) option" where
  "parse_pair p =
     (if p = [] \<or> CHR '';'' \<in> set p then None
      else (let (k, v, _) = cut_at (CHR ''='') p in
        case (query_unescape k, query_unescape v) of (Inr k, Inr v) \<Rightarrow> Some (k, v) | _ \<Rightarrow> None))"

definition parse_query :: "string \<Rightarrow> (string \<times> string) list" where
  "parse_query q = concat (map (\<lambda>p. case parse_pair p of None \<Rightarrow> [] | Some kv \<Rightarrow> [kv]) (split_on (CHR ''&'') q))"

definition url_Query :: "string \<Rightarrow> Values" where
  "url_Query q = fold (\<lambda>(k, v). values_Add k v) (parse_query q) []"

section \<open>Parsing a URL\<close>

record URL =
  u_Scheme :: string
  u_Opaque :: string
  u_Path :: string
  u_RawQuery :: string
  u_ForceQuery :: bool
  u_OmitHost :: bool

definition is_alpha :: "char \<Rightarrow> bool" where
  "is_alpha c = (let n = (of_char c :: nat) in 97 \<le> n \<and> n \<le> 122 \<or> 65 \<le> n \<and> n \<le> 90)"

definition is_scheme_tail :: "char \<Rightarrow> bool" where
  "is_scheme_tail c = (let n = (of_char c :: nat) in 48 \<le> n \<and> n \<le> 57 \<or> c \<in> set ''+-.'')"

text \<open>\<open>getScheme\<close>: \<open>seen\<close> are the characters before position \<open>i\<close>.\<close>

fun get_scheme :: "string \<Rightarrow> string \<Rightarrow> go_error + string \<times> string" where
  "get_scheme seen [] = Inr ([], seen)"
| "get_scheme seen (c # cs) =
     (if is_alpha c then get_scheme (seen @ [c]) cs
      else if is_scheme_tail c then
        (if seen = [] then Inr ([], c # cs) else get_scheme (seen @ [c]) cs)
      else if c = CHR '':'' then
        (if seen = [] then Inl (ErrorString ''missing protocol scheme'') else Inr (seen, cs))
      else Inr ([], seen @ c # cs))"

definition is_ctl :: "char \<Rightarrow> bool" where
  "is_ctl c = ((of_char c :: nat) < 32 \<or> (of_char c :: nat) = 127)"

definition url_parse :: "(string \<Rightarrow> go_error option) \<Rightarrow> string \<Rightarrow> go_error + URL" where
  "url_parse parseAuthority raw =
     (let url = \<lparr>u_Scheme = [], u_Opaque = [], u_Path = [], u_RawQuery = [], u_ForceQuery = False, u_OmitHost = False\<rparr> in
      if list_ex is_ctl raw then Inl (ErrorString ''net/url: invalid control character in URL'')
      else if raw = ''*'' then Inr (url\<lparr>u_Path := ''*''\<rparr>)
      else case get_scheme [] raw of
        Inl err \<Rightarrow> Inl err
      | Inr (scheme, rest) \<Rightarrow>
        (let force = (rest \<noteq> [] \<and> last rest = CHR ''?'' \<and> CHR ''?'' \<notin> set (butlast rest));
             (rest, query) = (if force then (butlast rest, [])
                              else (let (a, b, _) = cut_at (CHR ''?'') rest in (a, b)));
             url = url\<lparr>u_Scheme := to_lower scheme, u_RawQuery := query, u_ForceQuery := force\<rparr>;
             rooted = has_prefix rest ''/'';
             setPath = (\<lambda>rest url. map_sum id (\<lambda>p. url\<lparr>u_Path := p\<rparr>) (url_unescape False rest))
         in if \<not> rooted \<and> u_Scheme url \<noteq> [] then Inr (url\<lparr>u_Opaque := rest\<rparr>)
            else if \<not> rooted \<and> CHR '':'' \<in> set (fst (cut_at slash rest)) then
              Inl (ErrorString ''first path segment in URL cannot contain colon'')
            else if (u_Scheme url \<noteq> [] \<or> \<not> has_prefix rest ''///'') \<and> has_prefix rest ''//'' then
              (let (authority, tl, found) = cut_at slash (drop 2 rest) in
               case parseAuthority authority of
                 Some err \<Rightarrow> Inl err
               | None \<Rightarrow> setPath (if found then slash # tl else []) url)
            else setPath rest (url\<lparr>u_OmitHost := (u_Scheme url \<noteq> [] \<and> rooted)\<rparr>)))"

definition url_Parse :: "(string \<Rightarrow> go_error option) \<Rightarrow> string \<Rightarrow> go_error + URL" where
  "url_Parse parseAuthority raw =
     (let (u, frag, _) = cut_at (CHR ''#'') raw in
      case url_parse parseAuthority u of
        Inl err \<Rightarrow> Inl (Errorf (''parse '' @ go_quote u @ '': '') err [])
      | Inr url \<Rightarrow>
        (case url_unescape False frag of
           Inl err \<Rightarrow> Inl (Errorf (''parse '' @ go_quote raw @ '': '') err [])
         | Inr _ \<Rightarrow> Inr url))"

section \<open>What is escaped reads back\<close>

lemma hex_val_upper_hex [simp]: "d < 16 \<Longrightarrow> hex_val (upper_hex d) = Some d"
  by (auto simp: hex_val_def upper_hex_def Let_def)

lemma unreserved_upper_hex: "d < 16 \<Longrightarrow> unreserved (upper_hex d)"
  by (auto simp: unreserved_def upper_hex_def Let_def)

lemma of_char_div_16 [simp]: "of_char c div 16 < (16 :: nat)"
  using of_char_less_256 [of c] by linarith

lemma hex_pair_upper: "hex_pair (upper_hex (of_char c div 16)) (upper_hex (of_char c mod 16)) = Some c"
proof -
  have "16 * (of_char c div 16) + of_char c mod 16 = (of_char c :: nat)" by simp
  then show ?thesis by (simp add: hex_pair_def)
qed

lemma unescape_char:
  "query_unescape (escape_char c @ s) = map_sum id (\<lambda>ds. c # ds) (query_unescape s)"
proof -
  have u: "\<not> unreserved (CHR ''%'')" "\<not> unreserved (CHR ''+'')" by (simp_all add: unreserved_def)
  show ?thesis
  proof (cases "unreserved c")
    case True
    with u have "c \<noteq> CHR ''%''" "c \<noteq> CHR ''+''" by metis+
    with True show ?thesis by (simp add: escape_char_def)
  next
    case False
    then show ?thesis by (cases "c = CHR '' ''") (simp_all add: escape_char_def hex_pair_upper)
  qed
qed

lemma query_unescape_escape: "query_unescape (query_escape s) = Inr s"
  by (induction s) (auto simp: query_escape_def unescape_char)

lemma set_query_escape: "c \<in> set (query_escape s) \<Longrightarrow> unreserved c \<or> c \<in> {CHR ''+'', CHR ''%''}"
  by (auto simp: query_escape_def escape_char_def unreserved_upper_hex split: if_splits)

lemma query_escape_plain: "c \<in> set '';&=#?/'' \<Longrightarrow> c \<notin> set (query_escape s)"
  using set_query_escape [of c s] by (auto simp: unreserved_def)

lemma unreserved_not_ctl: "unreserved c \<Longrightarrow> \<not> is_ctl c"
  by (auto simp: unreserved_def is_ctl_def Let_def)

lemma query_escape_not_ctl: "c \<in> set (query_escape s) \<Longrightarrow> \<not> is_ctl c"
  using set_query_escape [of c s] unreserved_not_ctl by (auto simp: is_ctl_def)

lemma parse_encode_pair: "parse_pair (encode_pair kv) = Some kv"
  by (simp add: parse_pair_def encode_pair_def cut_at_append query_escape_plain query_unescape_escape)

lemma encode_pair_set:
  assumes "c \<in> set (encode_pair kv)"
  shows "c \<notin> set '';&#'' \<and> \<not> is_ctl c"
proof -
  from assms consider "c = CHR ''=''" | s where "c \<in> set (query_escape s)"
    unfolding encode_pair_def by auto
  then show ?thesis
  proof cases
    case 2
    have "c \<notin> set '';&#''" using query_escape_plain [of c s] 2 by (auto simp del: set_simps simp: list.set)
    with query_escape_not_ctl [OF 2] show ?thesis by blast
  qed (simp add: is_ctl_def)
qed

lemma set_join_with: "set (join_with sep xs) \<subseteq> set sep \<union> (\<Union>x\<in>set xs. set x)"
  by (induction xs rule: induct_list012) auto

lemma values_Encode_set:
  assumes "c \<in> set (values_Encode vs)"
  shows "c \<notin> set '';#'' \<and> \<not> is_ctl c"
proof -
  from assms set_join_with [of "''&''" "map encode_pair (value_pairs vs)"]
  consider "c = CHR ''&''" | kv where "c \<in> set (encode_pair kv)"
    unfolding values_Encode_def by auto
  then show ?thesis by cases (auto simp: is_ctl_def dest!: encode_pair_set)
qed

lemma parse_query_append:
  "parse_query (p @ CHR ''&'' # q) = parse_query p @ parse_query q"
  by (simp add: parse_query_def split_on_append)

lemma parse_query_Nil [simp]: "parse_query [] = []"
  by (simp add: parse_query_def parse_pair_def)

lemma parse_query_Encode: "parse_query (values_Encode vs) = value_pairs vs"
proof (cases "value_pairs vs")
  case Nil
  then show ?thesis by (simp add: values_Encode_def)
next
  case (Cons p ps)
  have "split_on (CHR ''&'') (values_Encode vs) = map encode_pair (value_pairs vs)"
    unfolding values_Encode_def by (rule split_on_join) (use Cons in \<open>auto dest!: encode_pair_set\<close>)
  then show ?thesis by (simp add: parse_query_def parse_encode_pair comp_def)
qed

section \<open>Values as sorted lists\<close>

definition wf_values :: "Values \<Rightarrow> bool" where
  "wf_values vs \<longleftrightarrow> sorted_wrt (<) (map fst vs) \<and> (\<forall>(k, v) \<in> set vs. v \<noteq> [])"

lemma wf_values_Nil [simp]: "wf_values []"
  by (simp add: wf_values_def)

lemma values_at_Nil [simp]: "values_at [] k = []"
  by (simp add: values_at_def)

lemma values_at_Set: "sorted_wrt (<) (map fst vs) \<Longrightarrow> values_at (values_Set k v vs) j = (if j = k then v else values_at vs j)"
  by (induction k v vs rule: values_Set.induct) (auto simp: values_at_def)

lemma set_values_Set: "fst ` set (values_Set k v vs) = insert k (fst ` set vs)"
  by (induction k v vs rule: values_Set.induct) auto

lemma sorted_values_Set: "sorted_wrt (<) (map fst vs) \<Longrightarrow> sorted_wrt (<) (map fst (values_Set k v vs))"
proof (induction k v vs rule: values_Set.induct)
  case (2 k v j u vs)
  have "y \<in> insert k (fst ` set vs)" if "y \<in> fst ` set (values_Set k v vs)" for y
    using that by (simp add: set_values_Set)
  with 2 show ?case by (fastforce simp: not_less_iff_gr_or_eq)
qed auto

lemma values_Set_nonempty: "v \<noteq> [] \<Longrightarrow> \<forall>e \<in> set vs. snd e \<noteq> [] \<Longrightarrow> \<forall>e \<in> set (values_Set k v vs). snd e \<noteq> []"
  by (induction k v vs rule: values_Set.induct) auto

lemma wf_values_Add: "wf_values vs \<Longrightarrow> wf_values (values_Add k v vs)"
  using values_Set_nonempty [of "values_at vs k @ [v]" vs k]
  by (auto simp: wf_values_def values_Add_def sorted_values_Set split_beta)

lemma values_at_Add:
  "wf_values vs \<Longrightarrow> values_at (values_Add k v vs) j = (if j = k then values_at vs k @ [v] else values_at vs j)"
  by (simp add: values_Add_def wf_values_def values_at_Set)

text \<open>Well-formed values are determined by what they hold at each key.\<close>

lemma values_at_in: "wf_values vs \<Longrightarrow> values_at vs k = v \<Longrightarrow> v \<noteq> [] \<Longrightarrow> (k, v) \<in> set vs"
  by (auto simp: values_at_def dest: map_of_SomeD split: option.splits)

lemma values_at_iff: "wf_values vs \<Longrightarrow> (k, v) \<in> set vs \<longleftrightarrow> v \<noteq> [] \<and> values_at vs k = v"
proof -
  assume wf: "wf_values vs"
  then have d: "distinct (map fst vs)"
    by (auto simp: wf_values_def strict_sorted_iff)
  show ?thesis
    using wf values_at_in [OF wf] map_of_is_SomeI [OF d]
    by (force simp: wf_values_def values_at_def)
qed

lemma values_eqI:
  assumes "wf_values u" "wf_values v" "\<And>k. values_at u k = values_at v k"
  shows "u = v"
proof -
  have "set u = set v" using assms by (auto simp: values_at_iff)
  moreover have "sorted_wrt (\<lambda>a b. fst a < fst b) u" "sorted_wrt (\<lambda>a b. fst a < fst b) v"
    using assms by (simp_all add: wf_values_def sorted_wrt_map)
  ultimately show ?thesis
  proof (induction u arbitrary: v)
    case (Cons a u)
    then obtain b v' where v: "v = b # v'" by (cases v) auto
    have "a = b" using Cons.prems by (auto simp: v) (metis insert_iff less_asym')
    moreover have "a \<notin> set u" "b \<notin> set v'" using Cons.prems by (auto simp: v)
    ultimately have "set u = set v'" using Cons.prems by (metis insert_ident list.simps(15) v)
    with Cons \<open>a = b\<close> show ?case by (simp add: v)
  qed simp
qed

definition add_pairs :: "(string \<times> string) list \<Rightarrow> Values \<Rightarrow> Values" where
  "add_pairs ps vs = fold (\<lambda>(k, v). values_Add k v) ps vs"

lemma url_Query_add_pairs: "url_Query q = add_pairs (parse_query q) []"
  by (simp add: url_Query_def add_pairs_def)

lemma add_pairs_simps [simp]:
  "add_pairs [] vs = vs"
  "add_pairs ((k, v) # ps) vs = add_pairs ps (values_Add k v vs)"
  by (simp_all add: add_pairs_def)

lemma wf_add_pairs: "wf_values vs \<Longrightarrow> wf_values (add_pairs ps vs)"
  by (induction ps arbitrary: vs) (auto simp: wf_values_Add)

lemma values_at_add_pairs:
  "wf_values vs \<Longrightarrow> values_at (add_pairs ps vs) k = values_at vs k @ map snd (filter (\<lambda>p. fst p = k) ps)"
  by (induction ps arbitrary: vs) (auto simp: values_at_Add wf_values_Add)

lemma wf_url_Query [simp]: "wf_values (url_Query q)"
  by (simp add: url_Query_add_pairs wf_add_pairs)

lemma values_at_Query: "values_at (url_Query q) k = map snd (filter (\<lambda>p. fst p = k) (parse_query q))"
  by (simp add: url_Query_add_pairs values_at_add_pairs)

lemma value_pairs_at: "wf_values vs \<Longrightarrow> map snd (filter (\<lambda>p. fst p = k) (value_pairs vs)) = values_at vs k"
proof (induction vs)
  case (Cons e vs)
  obtain j v where e: "e = (j, v)" by force
  have "filter (\<lambda>p. fst p = k) (map (Pair j) v) = (if j = k then map (Pair j) v else [])"
    by (auto simp: filter_empty_conv)
  moreover have "values_at vs k = []" if "j = k"
    using Cons.prems that by (auto simp: wf_values_def e values_at_def split: option.splits dest!: map_of_SomeD)
  ultimately show ?case
    using Cons by (auto simp: value_pairs_def e wf_values_def values_at_def comp_def)
qed (simp add: value_pairs_def)

lemma wf_values_Del: "wf_values vs \<Longrightarrow> wf_values (values_Del k vs)"
  by (auto simp: wf_values_def values_Del_def sorted_wrt_filter sorted_wrt_map)

lemma values_at_Del: "values_at (values_Del k vs) j = (if j = k then [] else values_at vs j)"
  by (induction vs) (auto simp: values_Del_def values_at_def)

lemma wf_values_Set: "wf_values vs \<Longrightarrow> v \<noteq> [] \<Longrightarrow> wf_values (values_Set k v vs)"
  using values_Set_nonempty [of v vs k] by (auto simp: wf_values_def sorted_values_Set split_beta)

end
