(* ===== verification/Magnet.thy ===== *)
theory Magnet
  imports Url "HOL-Library.Word"
begin

unbundle bit_operations_syntax

text \<open>
  Magnet links, \<open>metainfo/magnet.go\<close> and \<open>metainfo/magnet-v2.go\<close> of the torrent library, and what a client
  makes of one (\<open>TorrentSpecFromMagnetUri\<close> of \<open>spec.go\<close>). The client's \<open>AddMagnet\<close> takes the hash to add from
  here, and the server stores a link for every torrent it manages.

  The multihash package is a parameter: \<open>mh_Decode\<close> yields code, length and digest, \<open>mh_Encode\<close> the bytes
  for a digest and a code.
\<close>

section \<open>Base32\<close>

text \<open>\<open>base32.StdEncoding.Decode\<close>: newlines are skipped, quanta of eight characters decoded, and padding ends
  the input. \<open>buf\<close> holds the characters of the current quantum, \<open>olen\<close> is the length of the whole input.\<close>

definition b32_val :: "char \<Rightarrow> 8 word option" where
  "b32_val c =
     (let n = (of_char c :: nat) in
      if 65 \<le> n \<and> n \<le> 90 then Some (of_nat (n - 65))
      else if 50 \<le> n \<and> n \<le> 55 then Some (of_nat (n - 24))
      else None)"

definition CorruptInputError :: "int \<Rightarrow> go_error" where
  "CorruptInputError n = ErrorString (''illegal base32 data at input byte '' @ int_dec n)"

definition bad_padding :: "nat \<Rightarrow> string \<Rightarrow> nat option" where
  "bad_padding j src = find (\<lambda>k. k < length src \<and> src ! k \<noteq> CHR ''='') [0..<7 - j]"

fun b32_quantum :: "nat \<Rightarrow> 8 word list \<Rightarrow> string \<Rightarrow> go_error + 8 word list \<times> bool \<times> string" where
  "b32_quantum olen buf [] =
     (if length buf = 8 then Inr (buf, False, []) else Inl (CorruptInputError (int olen - int (length buf))))"
| "b32_quantum olen buf (c # src) =
     (let j = length buf in
      if j = 8 then Inr (buf, False, c # src)
      else if c = CHR ''='' \<and> 2 \<le> j \<and> length src < 8 then
        (if length src + j < 7 then Inl (CorruptInputError (int olen))
         else case bad_padding j src of
                Some k \<Rightarrow> Inl (CorruptInputError (int olen - int (length src) + int k - 1))
              | None \<Rightarrow>
                if j = 1 \<or> j = 3 \<or> j = 6 then Inl (CorruptInputError (int olen - int (length src) - 1))
                else Inr (buf, True, src))
      else case b32_val c of
             None \<Rightarrow> Inl (CorruptInputError (int olen - int (length src) - 1))
           | Some v \<Rightarrow> b32_quantum olen (buf @ [v]) src)"

definition b32_pack :: "8 word list \<Rightarrow> string" where
  "b32_pack buf =
     (let d = (\<lambda>i. if i < length buf then buf ! i else 0); n = length buf;
          b0 = push_bit 3 (d 0) OR drop_bit 2 (d 1);
          b1 = push_bit 6 (d 1) OR push_bit 1 (d 2) OR drop_bit 4 (d 3);
          b2 = push_bit 4 (d 3) OR drop_bit 1 (d 4);
          b3 = push_bit 7 (d 4) OR push_bit 2 (d 5) OR drop_bit 3 (d 6);
          b4 = push_bit 5 (d 6) OR d 7
      in map (\<lambda>b. char_of (unat b))
           (if n = 8 then [b0, b1, b2, b3, b4] else if n = 7 then [b0, b1, b2, b3]
            else if n = 5 then [b0, b1, b2] else if n = 4 then [b0, b1] else if n = 2 then [b0] else []))"

lemma b32_quantum_le: "b32_quantum olen buf src = Inr (buf', e, rest) \<Longrightarrow> length rest \<le> length src"
proof (induction olen buf src rule: b32_quantum.induct)
  case (2 olen buf c src)
  show ?case
  proof (cases "b32_val c")
    case None
    with 2 show ?thesis by (auto simp: Let_def split: if_splits option.splits)
  next
    case (Some v)
    show ?thesis
      using 2(1) [OF refl _ _ Some] 2(2)
      by (fastforce simp: Let_def Some split: if_splits option.splits)
  qed
qed (auto split: if_splits)

lemma b32_quantum_shorter:
  assumes "b32_quantum olen buf src = Inr (buf', e, rest)" "length buf < 8"
  shows "length rest < length src"
  using assms
  by (cases src) (auto simp: Let_def split: if_splits option.splits dest!: b32_quantum_le)

function b32_loop :: "nat \<Rightarrow> string \<Rightarrow> go_error + string" where
  "b32_loop olen src =
     (if src = [] then Inr []
      else case b32_quantum olen [] src of
             Inl err \<Rightarrow> Inl err
           | Inr (buf, end, rest) \<Rightarrow>
             (if end then Inr (b32_pack buf)
              else map_sum id (\<lambda>bs. b32_pack buf @ bs) (b32_loop olen rest)))"
  by pat_completeness auto
termination
  by (relation "measure (length \<circ> snd)") (auto dest: b32_quantum_shorter)

declare b32_loop.simps [simp del]

definition base32_Decode :: "string \<Rightarrow> go_error + string" where
  "base32_Decode src =
     (let s = filter (\<lambda>c. c \<noteq> CHR 0x0D \<and> c \<noteq> CHR 0x0A) src in b32_loop (length s) s)"

section \<open>Magnet links of version 1\<close>

record Magnet =
  mg_InfoHash :: hash
  mg_Trackers :: "string list"
  mg_DisplayName :: string
  mg_Params :: Values

definition btihPrefix :: string where
  "btihPrefix = ''urn:btih:''"

text \<open>\<open>URL.String\<close> of a URL with a scheme and a query only.\<close>

definition query_url :: "string \<Rightarrow> string \<Rightarrow> string" where
  "query_url scheme rawQuery = scheme @ '':'' @ (if rawQuery \<noteq> [] then ''?'' @ rawQuery else [])"

definition with_params :: "string list \<Rightarrow> string \<Rightarrow> Values \<Rightarrow> Values" where
  "with_params trackers displayName params =
     (let vs = fold (values_Add ''tr'') trackers params in
      if displayName \<noteq> [] then values_Add ''dn'' displayName vs else vs)"

definition Magnet_String :: "Magnet \<Rightarrow> string" where
  "Magnet_String m =
     (let vs = with_params (mg_Trackers m) (mg_DisplayName m) (mg_Params m);
          rawQuery = ''xt='' @ btihPrefix @ HexString (mg_InfoHash m)
      in query_url ''magnet'' (if vs \<noteq> [] then rawQuery @ ''&'' @ values_Encode vs else rawQuery))"

definition parseEncodedV1Infohash :: "string \<Rightarrow> hash res" where
  "parseEncodedV1Infohash encoded =
     (let decode = (if length encoded = 40 then Some hex_decode
                    else if length encoded = 32 then Some base32_Decode else None)
      in case decode of
           None \<Rightarrow> Err (ErrorString (''unhandled xt parameter encoding (encoded length '' @ nat_dec (length encoded) @ '')''))
         | Some f \<Rightarrow>
           (case f encoded of
              Inl err \<Rightarrow> Err (Errorf ''error decoding xt: '' err [])
            | Inr ih \<Rightarrow> if length ih \<noteq> 20 then Panic (nat_dec (length ih)) else Ok ih))"

definition lazyAddParam :: "string \<Rightarrow> string \<Rightarrow> Values \<Rightarrow> Values" where
  "lazyAddParam k v vs = values_Add k v vs"

definition copyParams :: "Values \<Rightarrow> Values \<Rightarrow> Values" where
  "copyParams dest src = fold (\<lambda>(k, v). lazyAddParam k v) (value_pairs src) dest"

definition popFirstValue :: "Values \<Rightarrow> string \<Rightarrow> string option \<times> Values" where
  "popFirstValue vs key =
     (case values_at vs key of
        [] \<Rightarrow> (None, vs)
      | [v] \<Rightarrow> (Some v, values_Del key vs)
      | v # sl \<Rightarrow> (Some v, values_Set key sl vs))"

definition unwrap_string :: "string option \<Rightarrow> string" where
  "unwrap_string v = (case v of None \<Rightarrow> [] | Some s \<Rightarrow> s)"

text \<open>The loop over the \<open>xt\<close> values: whether an info hash was found, and the link so far.\<close>

fun scan_xt :: "string list \<Rightarrow> bool \<Rightarrow> Magnet \<Rightarrow> (bool \<times> Magnet) res" where
  "scan_xt [] gotInfohash m = Ok (gotInfohash, m)"
| "scan_xt (xt # xts) gotInfohash m =
     (if gotInfohash then scan_xt xts True (m\<lparr>mg_Params := lazyAddParam ''xt'' xt (mg_Params m)\<rparr>)
      else case cut_prefix xt btihPrefix of
             None \<Rightarrow> scan_xt xts False (m\<lparr>mg_Params := lazyAddParam ''xt'' xt (mg_Params m)\<rparr>)
           | Some encoded \<Rightarrow>
             (case parseEncodedV1Infohash encoded of
                Ok ih \<Rightarrow> scan_xt xts True (m\<lparr>mg_InfoHash := ih\<rparr>)
              | Err err \<Rightarrow> Err (Errorf (''error parsing v1 infohash '' @ go_quote xt @ '': '') err [])
              | Panic p \<Rightarrow> Panic p
              | Hang \<Rightarrow> Hang))"

definition zero_hash :: hash where
  "zero_hash = replicate Size (CHR 0x00)"

definition ParseMagnetUri :: "(string \<Rightarrow> go_error option) \<Rightarrow> string \<Rightarrow> Magnet res" where
  "ParseMagnetUri parseAuthority uri =
     (case url_Parse parseAuthority uri of
        Inl err \<Rightarrow> Err (Errorf ''error parsing uri: '' err [])
      | Inr u \<Rightarrow>
        if u_Scheme u \<noteq> ''magnet'' then Err (ErrorString (''unexpected scheme '' @ go_quote (u_Scheme u)))
        else
          (let q = url_Query (u_RawQuery u);
               m = \<lparr>mg_InfoHash = zero_hash, mg_Trackers = [], mg_DisplayName = [], mg_Params = []\<rparr>
           in case scan_xt (values_at q ''xt'') False m of
                Ok (gotInfohash, m) \<Rightarrow>
                  if \<not> gotInfohash then Err (ErrorString ''missing v1 infohash'')
                  else
                    (let q = values_Del ''xt'' q;
                         (dn, q) = popFirstValue q ''dn'';
                         trackers = values_at q ''tr'';
                         q = values_Del ''tr'' q
                     in Ok (m\<lparr>mg_DisplayName := unwrap_string dn, mg_Trackers := trackers,
                              mg_Params := copyParams (mg_Params m) q\<rparr>))
              | Err e \<Rightarrow> Err e
              | Panic p \<Rightarrow> Panic p
              | Hang \<Rightarrow> Hang))"

section \<open>Magnet links of both versions\<close>

record multihash =
  mh_Code :: nat
  mh_Length :: nat
  mh_Digest :: string

definition SHA2_256 :: nat where
  "SHA2_256 = 18"

definition v2_Size :: nat where
  "v2_Size = 32"

definition btmhPrefix :: string where
  "btmhPrefix = ''urn:btmh:''"

record MagnetV2 =
  mv_InfoHash :: "hash option"
  mv_V2InfoHash :: "string option"
  mv_Trackers :: "string list"
  mv_DisplayName :: string
  mv_Params :: Values

definition ToMultihash :: "(string \<Rightarrow> nat \<Rightarrow> string) \<Rightarrow> string \<Rightarrow> string" where
  "ToMultihash mh_Encode t = mh_Encode t SHA2_256"

definition MagnetV2_String :: "(string \<Rightarrow> nat \<Rightarrow> string) \<Rightarrow> MagnetV2 \<Rightarrow> string" where
  "MagnetV2_String mh_Encode m =
     (let vs = with_params (mv_Trackers m) (mv_DisplayName m) (mv_Params m);
          queryParts =
            (case mv_InfoHash m of None \<Rightarrow> [] | Some ih \<Rightarrow> [''xt='' @ btihPrefix @ HexString ih]) @
            (case mv_V2InfoHash m of None \<Rightarrow> []
             | Some ih \<Rightarrow> [''xt='' @ btmhPrefix @ HexString (ToMultihash mh_Encode ih)]) @
            (let rem = values_Encode vs in if rem \<noteq> [] then [rem] else [])
      in query_url ''magnet'' (join_with ''&'' queryParts))"

definition parseV2Infohash :: "(string \<Rightarrow> go_error + multihash) \<Rightarrow> string \<Rightarrow> string res" where
  "parseV2Infohash mh_Decode encoded =
     (case hex_decode encoded of
        Inl err \<Rightarrow> Err err
      | Inr b \<Rightarrow>
        (case mh_Decode b of
           Inl err \<Rightarrow> Err err
         | Inr mh \<Rightarrow>
           if mh_Code mh \<noteq> SHA2_256 \<or> mh_Length mh \<noteq> v2_Size \<or> length (mh_Digest mh) \<noteq> v2_Size
           then Err (ErrorString ''bad multihash'')
           else Ok (mh_Digest mh)))"

fun scan_xt_v2 :: "(string \<Rightarrow> go_error + multihash) \<Rightarrow> string list \<Rightarrow> MagnetV2 \<Rightarrow> MagnetV2 res" where
  "scan_xt_v2 mh_Decode [] m = Ok m"
| "scan_xt_v2 mh_Decode (xt # xts) m =
     (case cut_prefix xt btihPrefix of
        Some hashStr \<Rightarrow>
          if mv_InfoHash m \<noteq> None then Err (ErrorString ''more than one infohash found in magnet link'')
          else (case parseEncodedV1Infohash hashStr of
                  Ok ih \<Rightarrow> scan_xt_v2 mh_Decode xts (m\<lparr>mv_InfoHash := Some ih\<rparr>)
                | Err err \<Rightarrow> Err (Errorf (''error parsing infohash '' @ go_quote hashStr @ '': '') err [])
                | Panic p \<Rightarrow> Panic p
                | Hang \<Rightarrow> Hang)
      | None \<Rightarrow>
        (case cut_prefix xt btmhPrefix of
           Some hashStr \<Rightarrow>
             if mv_V2InfoHash m \<noteq> None then Err (ErrorString ''more than one infohash found in magnet link'')
             else (case parseV2Infohash mh_Decode hashStr of
                     Ok ih \<Rightarrow> scan_xt_v2 mh_Decode xts (m\<lparr>mv_V2InfoHash := Some ih\<rparr>)
                   | Err err \<Rightarrow> Err (Errorf (''error parsing infohash '' @ go_quote hashStr @ '': '') err [])
                   | Panic p \<Rightarrow> Panic p
                   | Hang \<Rightarrow> Hang)
         | None \<Rightarrow> scan_xt_v2 mh_Decode xts (m\<lparr>mv_Params := lazyAddParam ''xt'' xt (mv_Params m)\<rparr>)))"

definition ParseMagnetV2Uri ::
  "(string \<Rightarrow> go_error option) \<Rightarrow> (string \<Rightarrow> go_error + multihash) \<Rightarrow> string \<Rightarrow> MagnetV2 res" where
  "ParseMagnetV2Uri parseAuthority mh_Decode uri =
     (case url_Parse parseAuthority uri of
        Inl err \<Rightarrow> Err (Errorf ''error parsing uri: '' err [])
      | Inr u \<Rightarrow>
        if u_Scheme u \<noteq> ''magnet'' then Err (ErrorString (''unexpected scheme '' @ go_quote (u_Scheme u)))
        else
          (let q = url_Query (u_RawQuery u);
               m = \<lparr>mv_InfoHash = None, mv_V2InfoHash = None, mv_Trackers = [], mv_DisplayName = [], mv_Params = []\<rparr>
           in case scan_xt_v2 mh_Decode (values_at q ''xt'') m of
                Ok m \<Rightarrow>
                  (let q = values_Del ''xt'' q;
                       (dn, q) = popFirstValue q ''dn'';
                       trackers = values_at q ''tr'';
                       q = values_Del ''tr'' q
                   in Ok (m\<lparr>mv_DisplayName := unwrap_string dn, mv_Trackers := trackers,
                            mv_Params := copyParams (mv_Params m) q\<rparr>))
              | Err e \<Rightarrow> Err e
              | Panic p \<Rightarrow> Panic p
              | Hang \<Rightarrow> Hang))"

section \<open>The specification of a torrent\<close>

record TorrentSpec =
  ts_InfoHash :: hash
  ts_InfoHashV2 :: "string option"
  ts_Trackers :: "string list list"
  ts_DisplayName :: string
  ts_Webseeds :: "string list"
  ts_PeerAddrs :: "string list"
  ts_Sources :: "string list"

definition TorrentSpecFromMagnetUri ::
  "(string \<Rightarrow> go_error option) \<Rightarrow> (string \<Rightarrow> go_error + multihash) \<Rightarrow> string \<Rightarrow> TorrentSpec res" where
  "TorrentSpecFromMagnetUri parseAuthority mh_Decode uri =
     (case ParseMagnetV2Uri parseAuthority mh_Decode uri of
        Ok m \<Rightarrow>
          Ok \<lparr>ts_InfoHash = (case mv_InfoHash m of None \<Rightarrow> zero_hash | Some ih \<Rightarrow> ih),
              ts_InfoHashV2 = mv_V2InfoHash m,
              ts_Trackers = [mv_Trackers m],
              ts_DisplayName = mv_DisplayName m,
              ts_Webseeds = values_at (mv_Params m) ''ws'',
              ts_PeerAddrs = values_at (mv_Params m) ''x.pe'',
              ts_Sources = values_at (mv_Params m) ''xs'' @ values_at (mv_Params m) ''as''\<rparr>
      | Err e \<Rightarrow> Err e
      | Panic p \<Rightarrow> Panic p
      | Hang \<Rightarrow> Hang)"

section \<open>What parsing yields\<close>

lemma parseEncodedV1Infohash_cases:
  "(\<exists>ih. parseEncodedV1Infohash s = Ok ih \<and> wf_hash ih) \<or> (\<exists>e. parseEncodedV1Infohash s = Err e) \<or>
   (\<exists>p. parseEncodedV1Infohash s = Panic p \<and> length s = 32)"
  by (auto simp: parseEncodedV1Infohash_def Let_def wf_hash_def Size_def split: sum.splits dest: hex_decode_length)

lemma parseEncodedV1Infohash_Ok: "parseEncodedV1Infohash s = Ok ih \<Longrightarrow> wf_hash ih"
  using parseEncodedV1Infohash_cases [of s] by auto

lemma parseEncodedV1Infohash_HexString [simp]:
  "wf_hash ih \<Longrightarrow> parseEncodedV1Infohash (HexString ih) = Ok ih"
  by (simp add: parseEncodedV1Infohash_def wf_hash_def Size_def hex_decode_HexString)

definition wf_magnet :: "MagnetV2 \<Rightarrow> bool" where
  "wf_magnet m \<longleftrightarrow> (\<forall>ih. mv_InfoHash m = Some ih \<longrightarrow> wf_hash ih) \<and>
     (\<forall>ih. mv_V2InfoHash m = Some ih \<longrightarrow> length ih = v2_Size) \<and> wf_values (mv_Params m)"

lemma parseV2Infohash_Ok: "parseV2Infohash mh s = Ok ih \<Longrightarrow> length ih = v2_Size"
  by (auto simp: parseV2Infohash_def split: sum.splits if_splits)

lemma wf_magnet_updates:
  "wf_magnet m \<Longrightarrow> wf_hash ih \<Longrightarrow> wf_magnet (m\<lparr>mv_InfoHash := Some ih\<rparr>)"
  "wf_magnet m \<Longrightarrow> length jh = v2_Size \<Longrightarrow> wf_magnet (m\<lparr>mv_V2InfoHash := Some jh\<rparr>)"
  "wf_magnet m \<Longrightarrow> wf_magnet (m\<lparr>mv_Params := lazyAddParam k v (mv_Params m)\<rparr>)"
  by (simp_all add: wf_magnet_def lazyAddParam_def wf_values_Add)

lemma scan_xt_v2_wf: "scan_xt_v2 mh xts m = Ok m' \<Longrightarrow> wf_magnet m \<Longrightarrow> wf_magnet m'"
proof (induction xts arbitrary: m)
  case (Cons xt xts)
  then show ?case
    using wf_magnet_updates [OF Cons.prems(2)] parseEncodedV1Infohash_Ok parseV2Infohash_Ok
    by (simp split: option.splits res.splits if_splits)
qed auto

lemma scan_xt_v2_no_hang: "scan_xt_v2 mh xts m \<noteq> Hang"
proof (induction xts arbitrary: m)
  case (Cons xt xts)
  have "parseEncodedV1Infohash s \<noteq> Hang" for s using parseEncodedV1Infohash_cases [of s] by auto
  moreover have "parseV2Infohash mh s \<noteq> Hang" for s by (simp add: parseV2Infohash_def split: sum.splits)
  ultimately show ?case using Cons by (auto split: option.splits res.splits)
qed simp

lemma wf_zero_hash [simp]: "wf_hash zero_hash"
  by (simp add: zero_hash_def wf_hash_def)

lemma copyParams_add_pairs: "copyParams dest src = add_pairs (value_pairs src) dest"
proof -
  have "lazyAddParam = values_Add" by (intro ext) (simp add: lazyAddParam_def)
  then show ?thesis by (simp add: copyParams_def add_pairs_def)
qed

lemma ParseMagnetV2Uri_wf: "ParseMagnetV2Uri pa mh uri = Ok m \<Longrightarrow> wf_magnet m"
  unfolding ParseMagnetV2Uri_def
  by (auto simp: Let_def wf_magnet_def copyParams_add_pairs wf_add_pairs
      split: sum.splits if_splits res.splits prod.splits dest!: scan_xt_v2_wf)

lemma TorrentSpec_wf:
  "TorrentSpecFromMagnetUri pa mh uri = Ok spec \<Longrightarrow> wf_hash (ts_InfoHash spec)"
  by (auto simp: TorrentSpecFromMagnetUri_def wf_magnet_def split: res.splits option.splits dest!: ParseMagnetV2Uri_wf)

lemma TorrentSpec_no_hang: "TorrentSpecFromMagnetUri pa mh uri \<noteq> Hang"
  using scan_xt_v2_no_hang
  by (auto simp: TorrentSpecFromMagnetUri_def ParseMagnetV2Uri_def Let_def split: res.splits sum.splits prod.splits if_splits)

section \<open>Links that were written are read back\<close>

lemma url_Parse_magnet:
  assumes "CHR ''#'' \<notin> set raw" "\<And>c. c \<in> set raw \<Longrightarrow> \<not> is_ctl c"
  shows "url_Parse pa (query_url ''magnet'' raw) =
    Inr \<lparr>u_Scheme = ''magnet'', u_Opaque = [], u_Path = [], u_RawQuery = raw, u_ForceQuery = False, u_OmitHost = False\<rparr>"
proof -
  have "cut_at (CHR ''#'') (query_url ''magnet'' raw) = (query_url ''magnet'' raw, [], False)"
    using assms by (intro cut_at_notin) (auto simp: query_url_def)
  moreover have "\<not> list_ex is_ctl (query_url ''magnet'' raw)"
    using assms(2) by (auto simp: query_url_def list_ex_iff is_ctl_def)
  moreover have "get_scheme [] (query_url ''magnet'' raw) = Inr (''magnet'', if raw = [] then [] else CHR ''?'' # raw)"
    by (simp add: query_url_def is_alpha_def is_scheme_tail_def)
  moreover have "query_url ''magnet'' raw \<noteq> ''*''" by (simp add: query_url_def)
  moreover have "to_lower ''magnet'' = ''magnet''" by (simp add: to_lower_def ascii_lower_def)
  ultimately show ?thesis by (cases "raw = []") (simp_all add: url_Parse_def url_parse_def Let_def)
qed

text \<open>Parameters without escapes, such as the \<open>xt\<close> parts, are read as they stand.\<close>

lemma url_unescape_plain:
  "CHR ''%'' \<notin> set s \<Longrightarrow> CHR ''+'' \<notin> set s \<Longrightarrow> url_unescape q s = Inr s"
  by (induction s) auto

lemma hex_byte_set: "c \<in> set (hex_byte b) \<Longrightarrow> hex_val c \<noteq> None"
  by (auto simp: hex_byte_def)

lemma HexString_set: "c \<in> set (HexString t) \<Longrightarrow> hex_val c \<noteq> None"
  using hex_byte_set by (fastforce simp: HexString_def)

lemma HexString_plain: "c \<in> set (HexString t) \<Longrightarrow> c \<notin> set ''%+;&=#?'' \<and> \<not> is_ctl c"
  using HexString_set [of c t]
  by (auto simp: hex_val_def is_ctl_def Let_def split: if_splits)

definition plain :: "string \<Rightarrow> bool" where
  "plain s \<longleftrightarrow> (\<forall>c \<in> set s. c \<notin> set ''%+;&=#?'' \<and> \<not> is_ctl c)"

lemma plain_xt: "plain (btihPrefix @ HexString t)" "plain (btmhPrefix @ HexString t)"
  using HexString_plain by (auto simp: plain_def btihPrefix_def btmhPrefix_def is_ctl_def)

text \<open>Characters that no URL parser stumbles over.\<close>

definition clean :: "string \<Rightarrow> bool" where
  "clean s \<longleftrightarrow> (\<forall>c \<in> set s. c \<noteq> CHR ''#'' \<and> \<not> is_ctl c)"

lemma clean_append [simp]: "clean (s @ t) \<longleftrightarrow> clean s \<and> clean t"
  by (auto simp: clean_def)

lemma clean_Cons [simp]: "clean (c # t) \<longleftrightarrow> c \<noteq> CHR ''#'' \<and> \<not> is_ctl c \<and> clean t"
  by (auto simp: clean_def)

lemma clean_lits [simp]: "clean []" "clean ''xt=''" "clean ''&''"
  by (simp_all add: clean_def is_ctl_def)

lemma clean_plain: "plain s \<Longrightarrow> clean s"
  by (auto simp: plain_def clean_def)

lemmas clean_xt = clean_plain [OF plain_xt(1), unfolded clean_append] clean_plain [OF plain_xt(2), unfolded clean_append]

lemma clean_Encode: "clean (values_Encode vs)"
  unfolding clean_def by (auto dest!: values_Encode_set)

lemma parse_query_xt: "plain s \<Longrightarrow> parse_query (''xt='' @ s) = [(''xt'', s)]"
proof -
  assume p: "plain s"
  then have "CHR ''&'' \<notin> set (''xt='' @ s)" "CHR '';'' \<notin> set (''xt='' @ s)" "CHR ''%'' \<notin> set s" "CHR ''+'' \<notin> set s"
    by (auto simp: plain_def)
  moreover have "cut_at (CHR ''='') (''xt='' @ s) = (''xt'', s, True)"
    using cut_at_append [of "CHR ''=''" "''xt''" s] by simp
  ultimately show ?thesis
    by (simp add: parse_query_def parse_pair_def split_on_notin url_unescape_plain del: append_Cons)
qed

lemma with_params_add_pairs:
  "with_params trs dn vs = add_pairs (map (Pair ''tr'') trs @ (if dn = [] then [] else [(''dn'', dn)])) vs"
  by (auto simp: with_params_def add_pairs_def fold_map comp_def)

lemma wf_with_params: "wf_values vs \<Longrightarrow> wf_values (with_params trs dn vs)"
  by (simp add: with_params_add_pairs wf_add_pairs)

lemma values_at_with_params:
  assumes "wf_values vs"
  shows "values_at (with_params trs dn vs) k =
    values_at vs k @ (if k = ''tr'' then trs else []) @ (if k = ''dn'' \<and> dn \<noteq> [] then [dn] else [])"
proof -
  have "map snd (filter (\<lambda>p. fst p = k) (map (Pair j) xs)) = (if k = j then xs else [])" for j :: string and xs :: "string list"
    by (induction xs) auto
  then show ?thesis by (simp add: with_params_add_pairs values_at_add_pairs [OF assms])
qed

text \<open>Taking the name and the trackers out of a query leaves the other parameters.\<close>

lemma popFirst_dn:
  assumes "wf_values q" "values_at q ''dn'' = (if dn = [] then [] else [dn])" "popFirstValue q ''dn'' = (x, q')"
  shows "unwrap_string x = dn" "q' = values_Del ''dn'' q"
proof -
  have "q = values_Del ''dn'' q" if "values_at q ''dn'' = []"
    using that assms(1) by (intro values_eqI) (auto simp: values_at_Del wf_values_Del)
  then show "unwrap_string x = dn" "q' = values_Del ''dn'' q"
    using assms(2,3) by (auto simp: popFirstValue_def unwrap_string_def split: if_splits)
qed

lemma copyParams_rest:
  assumes q: "wf_values q" and vs: "wf_values vs" and p: "wf_values p"
    and at: "\<And>k. k \<notin> {''xt'', ''tr'', ''dn''} \<Longrightarrow> values_at q k = values_at vs k"
    and none: "values_at vs ''tr'' = []" "values_at vs ''dn'' = []"
    and xt: "\<And>k. values_at p k = (if k = ''xt'' then values_at vs ''xt'' else [])"
  shows "copyParams p (values_Del ''tr'' (values_Del ''dn'' (values_Del ''xt'' q))) = vs"
proof -
  let ?q = "values_Del ''tr'' (values_Del ''dn'' (values_Del ''xt'' q))"
  have wq: "wf_values ?q" using q by (simp add: wf_values_Del)
  show ?thesis
  proof (rule values_eqI)
    show "wf_values (copyParams p ?q)" using p by (simp add: copyParams_add_pairs wf_add_pairs)
    show "values_at (copyParams p ?q) k = values_at vs k" for k
      using at [of k] none
      by (auto simp: copyParams_add_pairs values_at_add_pairs [OF p] value_pairs_at [OF wq] xt values_at_Del)
  qed (rule vs)
qed

lemma scan_xt_rest:
  "scan_xt xts True m = Ok (True, m\<lparr>mg_Params := add_pairs (map (Pair ''xt'') xts) (mg_Params m)\<rparr>)"
  by (induction xts arbitrary: m) (simp_all add: lazyAddParam_def)

lemma values_at_xts:
  "values_at (add_pairs (map (Pair ''xt'') xts) []) k = (if k = ''xt'' then xts else [])"
proof -
  have "map snd (filter (\<lambda>p. fst p = k) (map (Pair ''xt'') xs)) = (if k = ''xt'' then xs else [])" for xs :: "string list"
    by (induction xs) auto
  then show ?thesis by (simp add: values_at_add_pairs)
qed

lemma Magnet_String_ParseMagnetUri:
  assumes wf: "wf_hash (mg_InfoHash m)" "wf_values (mg_Params m)"
    and none: "values_at (mg_Params m) ''tr'' = []" "values_at (mg_Params m) ''dn'' = []"
  shows "ParseMagnetUri pa (Magnet_String m) = Ok m"
proof -
  let ?vs = "with_params (mg_Trackers m) (mg_DisplayName m) (mg_Params m)"
  let ?xt = "btihPrefix @ HexString (mg_InfoHash m)"
  define raw where "raw = (if ?vs \<noteq> [] then (''xt='' @ ?xt) @ ''&'' @ values_Encode ?vs else ''xt='' @ ?xt)"
  have uri: "Magnet_String m = query_url ''magnet'' raw"
    by (simp add: Magnet_String_def raw_def Let_def)
  have set: "clean raw"
    using clean_xt clean_Encode by (simp add: raw_def is_ctl_def del: append_assoc)
  have parsed: "url_Parse pa (Magnet_String m) =
    Inr \<lparr>u_Scheme = ''magnet'', u_Opaque = [], u_Path = [], u_RawQuery = raw, u_ForceQuery = False, u_OmitHost = False\<rparr>"
    unfolding uri using set by (intro url_Parse_magnet) (auto simp: clean_def)
  have pairs: "parse_query raw = (''xt'', ?xt) # value_pairs ?vs"
    using parse_query_append [of "''xt='' @ ?xt" "values_Encode ?vs"] parse_query_xt [OF plain_xt(1)]
    by (auto simp: raw_def parse_query_Encode value_pairs_def)
  have at: "values_at (url_Query raw) k = (if k = ''xt'' then [?xt] else []) @ values_at ?vs k" for k
    by (simp add: values_at_Query pairs value_pairs_at [OF wf_with_params [OF wf(2)]])
  define q where "q = values_Del ''xt'' (url_Query raw)"
  obtain x q' where pop: "popFirstValue q ''dn'' = (x, q')" by force
  have wq: "wf_values q" by (simp add: q_def wf_values_Del)
  have "values_at q ''dn'' = (if mg_DisplayName m = [] then [] else [mg_DisplayName m])"
    by (simp add: q_def values_at_Del at values_at_with_params wf none)
  note dn = popFirst_dn [OF wq this pop]
  have tr: "values_at q' ''tr'' = mg_Trackers m"
    by (simp add: dn(2) values_at_Del q_def at values_at_with_params wf none)
  have "copyParams (add_pairs (map (Pair ''xt'') (values_at (mg_Params m) ''xt'')) []) (values_Del ''tr'' q') = mg_Params m"
    unfolding dn(2) q_def
    by (rule copyParams_rest)
      (simp_all add: wf none wf_add_pairs values_at_xts at values_at_with_params)
  moreover have "values_at (url_Query raw) ''xt'' = ?xt # values_at (mg_Params m) ''xt''"
    by (simp add: at values_at_with_params wf)
  ultimately show ?thesis
    using pop dn(1) tr wf(1)
    by (simp add: ParseMagnetUri_def parsed Let_def scan_xt_rest q_def split: prod.splits)
qed

lemma parse_query_join: "parse_query (join_with ''&'' ps) = concat (map parse_query ps)"
proof (induction ps rule: induct_list012)
  case (3 x y zs)
  have "parse_query (x @ CHR ''&'' # join_with ''&'' (y # zs)) = parse_query x @ parse_query (join_with ''&'' (y # zs))"
    by (rule parse_query_append)
  with 3 show ?case by simp
qed simp_all

lemma parse_query_xts:
  "(\<And>x. x \<in> set xs \<Longrightarrow> plain x) \<Longrightarrow> concat (map parse_query (map ((@) ''xt='') xs)) = map (Pair ''xt'') xs"
  by (induction xs) (simp_all add: parse_query_xt del: append_Cons)

lemma clean_join: "(\<And>p. p \<in> set ps \<Longrightarrow> clean p) \<Longrightarrow> clean (join_with ''&'' ps)"
  by (induction ps rule: induct_list012) (simp_all add: is_ctl_def)

text \<open>An \<open>xt\<close> value that a link keeps among its other parameters names no hash of either kind.\<close>

definition foreign :: "string \<Rightarrow> bool" where
  "foreign xt \<longleftrightarrow> cut_prefix xt btihPrefix = None \<and> cut_prefix xt btmhPrefix = None"

lemma scan_xt_v2_foreign:
  "\<forall>xt \<in> set xts. foreign xt \<Longrightarrow>
    scan_xt_v2 mh xts m = Ok (m\<lparr>mv_Params := add_pairs (map (Pair ''xt'') xts) (mv_Params m)\<rparr>)"
  by (induction xts arbitrary: m) (simp_all add: foreign_def lazyAddParam_def)

lemma cut_btmh [simp]: "cut_prefix (btmhPrefix @ s) btihPrefix = None"
  by (simp add: cut_prefix_def btmhPrefix_def btihPrefix_def)

lemma parseV2Infohash_ToMultihash:
  assumes "\<And>d. length d = v2_Size \<Longrightarrow> mhd (mhe d SHA2_256) = Inr \<lparr>mh_Code = SHA2_256, mh_Length = v2_Size, mh_Digest = d\<rparr>"
    and "length t = v2_Size"
  shows "parseV2Infohash mhd (HexString (ToMultihash mhe t)) = Ok t"
  using assms by (simp add: parseV2Infohash_def ToMultihash_def hex_decode_HexString)

lemma scan_xt_v2_hashes:
  assumes mh: "\<And>d. length d = v2_Size \<Longrightarrow> mhd (mhe d SHA2_256) = Inr \<lparr>mh_Code = SHA2_256, mh_Length = v2_Size, mh_Digest = d\<rparr>"
    and "\<forall>ih. h1 = Some ih \<longrightarrow> wf_hash ih" "\<forall>ih. h2 = Some ih \<longrightarrow> length ih = v2_Size" "\<forall>xt \<in> set xts. foreign xt"
    and "mv_InfoHash m = None" "mv_V2InfoHash m = None"
  shows "scan_xt_v2 mhd
      ((case h1 of None \<Rightarrow> [] | Some ih \<Rightarrow> [btihPrefix @ HexString ih]) @
       (case h2 of None \<Rightarrow> [] | Some ih \<Rightarrow> [btmhPrefix @ HexString (ToMultihash mhe ih)]) @ xts) m =
    Ok (m\<lparr>mv_InfoHash := h1, mv_V2InfoHash := h2, mv_Params := add_pairs (map (Pair ''xt'') xts) (mv_Params m)\<rparr>)"
  using assms(2-) parseV2Infohash_ToMultihash [of mhd mhe, OF mh]
  by (auto simp: scan_xt_v2_foreign split: option.splits)

lemma MagnetV2_String_ParseMagnetV2Uri:
  assumes mh: "\<And>d. length d = v2_Size \<Longrightarrow> mhd (mhe d SHA2_256) = Inr \<lparr>mh_Code = SHA2_256, mh_Length = v2_Size, mh_Digest = d\<rparr>"
    and wf: "wf_magnet m" and foreign: "\<forall>xt \<in> set (values_at (mv_Params m) ''xt''). foreign xt"
    and none: "values_at (mv_Params m) ''tr'' = []" "values_at (mv_Params m) ''dn'' = []"
  shows "ParseMagnetV2Uri pa mhd (MagnetV2_String mhe m) = Ok m"
proof -
  let ?vs = "with_params (mv_Trackers m) (mv_DisplayName m) (mv_Params m)"
  let ?h = "(case mv_InfoHash m of None \<Rightarrow> [] | Some ih \<Rightarrow> [btihPrefix @ HexString ih]) @
       (case mv_V2InfoHash m of None \<Rightarrow> [] | Some ih \<Rightarrow> [btmhPrefix @ HexString (ToMultihash mhe ih)])"
  define parts where "parts = map ((@) ''xt='') ?h @ (if values_Encode ?vs \<noteq> [] then [values_Encode ?vs] else [])"
  define raw where "raw = join_with ''&'' parts"
  have wp: "wf_values (mv_Params m)" using wf by (simp add: wf_magnet_def)
  have uri: "MagnetV2_String mhe m = query_url ''magnet'' raw"
    by (simp add: MagnetV2_String_def raw_def parts_def Let_def split: option.splits)
  have plain: "plain x" if "x \<in> set ?h" for x
    using that plain_xt by (auto split: option.splits)
  have "clean raw"
    unfolding raw_def by (rule clean_join) (use clean_xt clean_Encode in \<open>auto simp: parts_def is_ctl_def split: if_splits option.splits\<close>)
  then have parsed: "url_Parse pa (MagnetV2_String mhe m) =
    Inr \<lparr>u_Scheme = ''magnet'', u_Opaque = [], u_Path = [], u_RawQuery = raw, u_ForceQuery = False, u_OmitHost = False\<rparr>"
    unfolding uri by (intro url_Parse_magnet) (auto simp: clean_def)
  have enc: "concat (map parse_query (if values_Encode ?vs \<noteq> [] then [values_Encode ?vs] else [])) = value_pairs ?vs"
    using parse_query_Encode [of ?vs] by auto
  have pairs: "parse_query raw = map (Pair ''xt'') ?h @ value_pairs ?vs"
    using parse_query_xts [of ?h, OF plain] enc
    by (simp only: raw_def parse_query_join parts_def map_append concat_append)
  have "map snd (filter (\<lambda>p. fst p = k) (map (Pair ''xt'') xs)) = (if k = ''xt'' then xs else [])" for k and xs :: "string list"
    by (induction xs) auto
  then have at: "values_at (url_Query raw) k = (if k = ''xt'' then ?h else []) @ values_at ?vs k" for k
    using value_pairs_at [OF wf_with_params [OF wp], of k] by (simp only: values_at_Query pairs filter_append map_append) simp
  define q where "q = values_Del ''xt'' (url_Query raw)"
  obtain x q' where pop: "popFirstValue q ''dn'' = (x, q')" by force
  have wq: "wf_values q" by (simp add: q_def wf_values_Del)
  have "values_at q ''dn'' = (if mv_DisplayName m = [] then [] else [mv_DisplayName m])"
    by (simp add: q_def values_at_Del at values_at_with_params wp none)
  note dn = popFirst_dn [OF wq this pop]
  have tr: "values_at q' ''tr'' = mv_Trackers m"
    by (simp add: dn(2) values_at_Del q_def at values_at_with_params wp none)
  have params: "copyParams (add_pairs (map (Pair ''xt'') (values_at (mv_Params m) ''xt'')) []) (values_Del ''tr'' q') = mv_Params m"
    unfolding dn(2) q_def
    by (rule copyParams_rest) (simp_all add: wp none wf_add_pairs values_at_xts at values_at_with_params)
  have xt: "values_at (url_Query raw) ''xt'' = ?h @ values_at (mv_Params m) ''xt''"
    by (simp add: at values_at_with_params wp)
  have "scan_xt_v2 mhd (values_at (url_Query raw) ''xt'')
      \<lparr>mv_InfoHash = None, mv_V2InfoHash = None, mv_Trackers = [], mv_DisplayName = [], mv_Params = []\<rparr> =
    Ok \<lparr>mv_InfoHash = mv_InfoHash m, mv_V2InfoHash = mv_V2InfoHash m, mv_Trackers = [], mv_DisplayName = [],
        mv_Params = add_pairs (map (Pair ''xt'') (values_at (mv_Params m) ''xt'')) []\<rparr>"
    unfolding xt append_assoc using wf foreign by (subst scan_xt_v2_hashes [of mhd mhe, OF mh]) (auto simp: wf_magnet_def)
  then show ?thesis
    using pop dn(1) tr params by (simp add: ParseMagnetV2Uri_def parsed Let_def q_def split: prod.splits)
qed

text \<open>The link the server writes for a torrent that came as a file.\<close>

lemma stored_magnet_String:
  "''magnet:?xt=urn:btih:'' @ HexString k =
    MagnetV2_String mhe \<lparr>mv_InfoHash = Some k, mv_V2InfoHash = None, mv_Trackers = [], mv_DisplayName = [], mv_Params = []\<rparr>"
  by (simp add: MagnetV2_String_def query_url_def with_params_def values_Encode_def value_pairs_def btihPrefix_def)

lemma TorrentSpec_stored:
  assumes "wf_hash k"
  shows "TorrentSpecFromMagnetUri pa mhd (''magnet:?xt=urn:btih:'' @ HexString k) =
    Ok \<lparr>ts_InfoHash = k, ts_InfoHashV2 = None, ts_Trackers = [[]], ts_DisplayName = [], ts_Webseeds = [],
        ts_PeerAddrs = [], ts_Sources = []\<rparr>"
proof -
  let ?m = "\<lparr>mv_InfoHash = Some k, mv_V2InfoHash = None, mv_Trackers = [], mv_DisplayName = [], mv_Params = []\<rparr>"
  let ?raw = "''xt='' @ btihPrefix @ HexString k"
  have uri: "''magnet:?xt=urn:btih:'' @ HexString k = query_url ''magnet'' ?raw"
    by (simp add: query_url_def btihPrefix_def)
  have "clean ?raw" using clean_xt by (simp add: is_ctl_def)
  then have "url_Parse pa (query_url ''magnet'' ?raw) =
    Inr \<lparr>u_Scheme = ''magnet'', u_Opaque = [], u_Path = [], u_RawQuery = ?raw, u_ForceQuery = False, u_OmitHost = False\<rparr>"
    by (intro url_Parse_magnet) (auto simp: clean_def)
  moreover have "url_Query ?raw = [(''xt'', [btihPrefix @ HexString k])]"
    unfolding url_Query_def parse_query_xt [OF plain_xt(1)] by (simp add: values_Add_def)
  ultimately have "ParseMagnetV2Uri pa mhd (query_url ''magnet'' ?raw) = Ok ?m"
    using assms by (simp add: ParseMagnetV2Uri_def values_at_def values_Del_def popFirstValue_def unwrap_string_def
        copyParams_def value_pairs_def del: append_Cons)
  then show ?thesis unfolding uri TorrentSpecFromMagnetUri_def by simp
qed

section \<open>Properties\<close>

text \<open>C25: Magnet links round-trip: what the library writes for a link (hashes of either version, trackers, name and
  any other parameters) it reads back as the same link. The other parameters must not use the names of
  trackers and display name, nor hold a second hash.\<close>

theorem magnet_roundtrip:
  assumes "\<And>d. length d = v2_Size \<Longrightarrow>
      mh_decode (mh_encode d SHA2_256) = Inr \<lparr>mh_Code = SHA2_256, mh_Length = v2_Size, mh_Digest = d\<rparr>"
    and "wf_magnet m" "\<forall>xt \<in> set (values_at (mv_Params m) ''xt''). foreign xt"
    and "values_at (mv_Params m) ''tr'' = []" "values_at (mv_Params m) ''dn'' = []"
  shows "ParseMagnetV2Uri parseAuthority mh_decode (MagnetV2_String mh_encode m) = Ok m"
  using assms by (rule MagnetV2_String_ParseMagnetV2Uri)

definition sample_encode :: "string \<Rightarrow> nat \<Rightarrow> string" where
  "sample_encode d code = char_of code # char_of (length d) # d"

definition sample_decode :: "string \<Rightarrow> go_error + multihash" where
  "sample_decode b =
     (case b of c # n # d \<Rightarrow> Inr \<lparr>mh_Code = of_char c, mh_Length = of_char n, mh_Digest = d\<rparr>
      | _ \<Rightarrow> Inl (ErrorString ''multihash too short''))"

definition sample_magnet :: MagnetV2 where
  "sample_magnet = \<lparr>mv_InfoHash = Some (replicate 20 (CHR ''a'')), mv_V2InfoHash = Some (replicate 32 (CHR ''b'')),
     mv_Trackers = [''udp://t/announce''], mv_DisplayName = ''a & b'', mv_Params = [(''ws'', [''http://w/'']), (''xt'', [''urn:x''])]\<rparr>"

theorem magnet_roundtrip_witness:
  "ParseMagnetV2Uri (\<lambda>_. None) sample_decode (MagnetV2_String sample_encode sample_magnet) = Ok sample_magnet"
proof (rule magnet_roundtrip)
  show "length d = v2_Size \<Longrightarrow> sample_decode (sample_encode d SHA2_256) =
      Inr \<lparr>mh_Code = SHA2_256, mh_Length = v2_Size, mh_Digest = d\<rparr>" for d
    by (simp add: sample_decode_def sample_encode_def SHA2_256_def v2_Size_def)
qed (simp_all add: sample_magnet_def wf_magnet_def wf_hash_def Size_def v2_Size_def wf_values_def values_at_def
    foreign_def cut_prefix_def btihPrefix_def btmhPrefix_def)

text \<open>Padding makes a hash of 32 characters too short, and the length check panics on it.\<close>

lemma padded_base32_panics:
  "TorrentSpecFromMagnetUri parseAuthority mh_decode
     ''magnet:?xt=urn:btih:AAAAAAAAAAAAAAAAAAAAAAAAAA======'' = Panic ''16''"
proof -
  have "\<exists>bs. base32_Decode ''AAAAAAAAAAAAAAAAAAAAAAAAAA======'' = Inr bs \<and> length bs = 16"
    by (simp add: base32_Decode_def b32_loop.simps b32_val_def b32_pack_def bad_padding_def Let_def upt_rec)
  then have "parseEncodedV1Infohash ''AAAAAAAAAAAAAAAAAAAAAAAAAA======'' = Panic ''16''"
    by (auto simp add: parseEncodedV1Infohash_def nat_dec.simps digit_char_def)
  then show ?thesis
    by (simp add: TorrentSpecFromMagnetUri_def ParseMagnetV2Uri_def url_Parse_def url_parse_def is_ctl_def
        is_alpha_def is_scheme_tail_def to_lower_def ascii_lower_def url_Query_def parse_query_def parse_pair_def
        values_Add_def values_at_def cut_prefix_def btihPrefix_def)
qed

end
