(* ===== verification/TorrentLib.thy ===== *)
theory TorrentLib
  imports ServiceFacts Merkle Magnet
begin

text \<open>
  A model of the torrent library's client, as far as the engine can see it: the index of torrents
  by info hash and, per torrent, its name, its info, which pieces are complete and how many peers
  there are (\<open>licenses/github.com/anacrolix/torrent\<close>: \<open>client.go\<close>, \<open>t.go\<close>, \<open>torrent.go\<close>, \<open>file.go\<close>),
  with the disk below it. It meets the contract \<open>torrent_client\<close>, and with the repositories the
  contract \<open>torrent_service\<close>.

  What comes from outside is a field of the world whose name starts with \<open>env_\<close>: how a magnet URI
  is read, when an info arrives from the swarm, what hashing a piece on disk says, which system
  calls fail. A torrent is known by the hash it was added under. The library may come to know a second
  hash of it when the info arrives (\<open>hashInfoBytes\<close> below): it then has a second index entry and, for an
  info that was asked for by its truncated version 2 hash, another first one. The world here has neither:
  an arriving info is one of a version 1 torrent, asked for by that hash (\<open>hashInfoBytes_keeps\<close>).
\<close>

section \<open>The world\<close>

record lib_torrent =
  lt_displayName :: string
  lt_info :: "Info option"
  lt_completed :: "int \<Rightarrow> bool"
  lt_dirty :: "int \<Rightarrow> int"
  lt_conns :: int
  lt_seeders :: int
  lt_wanted :: bool

text \<open>What reading a magnet link takes from outside: the authority syntax of \<open>net/url\<close> and the multihash
  package.\<close>

record link_env =
  le_authority :: "string \<Rightarrow> go_error option"
  le_multihash :: "string \<Rightarrow> go_error + multihash"

record world = piece_world +
  torrentsByShortHash :: "hash \<Rightarrow> lib_torrent option"
  disk :: "string list"
  env_magnet :: link_env
  env_open :: "nat \<Rightarrow> string option"
  env_initial :: "nat \<Rightarrow> hash \<Rightarrow> (int \<times> bool) list"
  env_arrival :: "nat \<Rightarrow> hash \<Rightarrow> (nat \<times> Info) option"
  env_select :: "nat \<Rightarrow> bool"
  env_verify :: "nat \<Rightarrow> go_error option"
  env_hash :: "nat \<Rightarrow> hash \<Rightarrow> int \<Rightarrow> bool"
  env_rm :: "nat \<Rightarrow> (string \<times> (string \<Rightarrow> bool)) option"
  env_sha256 :: "string \<Rightarrow> string"

text \<open>A parsed metainfo file: its info dictionary, when it decodes, the hash of its bytes, and the piece
  layers.\<close>

record MetaInfo =
  mi_Info :: "go_error + Info"
  mi_Hash :: "char list"
  mi_PieceLayers :: "(string \<times> string) list option"

text \<open>Copying bytes into a 20-byte array.\<close>

definition to_array :: "char list \<Rightarrow> hash" where
  "to_array bs = take Size (bs @ replicate Size (CHR 0x00))"

lemma wf_to_array [simp]: "wf_hash (to_array bs)"
  by (simp add: to_array_def wf_hash_def)

section \<open>The hashes of a torrent\<close>

record torrent_hashes =
  th_infoHash :: "hash option"
  th_infoHashV2 :: "string option"

definition canonicalShortInfohash :: "torrent_hashes \<Rightarrow> hash res" where
  "canonicalShortInfohash t =
     (case th_infoHash t of
        Some h \<Rightarrow> Ok h
      | None \<Rightarrow> (case th_infoHashV2 t of Some h \<Rightarrow> Ok (take Size h) | None \<Rightarrow> Panic ''value not set''))"

text \<open>\<open>hashInfoBytes\<close> with the two hashes of the bytes as arguments: the hashes the torrent has afterwards, and
  under which short hashes the client's index has it from then on.\<close>

definition hashInfoBytes :: "hash \<Rightarrow> string \<Rightarrow> Info \<Rightarrow> torrent_hashes \<Rightarrow> (torrent_hashes \<times> hash list) res" where
  "hashInfoBytes v1Hash v2Hash info t =
     (case (th_infoHash t, th_infoHashV2 t) of
        (Some h, None) \<Rightarrow>
          if v1Hash = h then
            (if HasV2 info then Ok (t\<lparr>th_infoHashV2 := Some v2Hash\<rparr>, [take Size v2Hash]) else Ok (t, []))
          else if take Size v2Hash = h then
            (if \<not> HasV2 info then Err (ErrorString ''invalid v2 info'')
             else if HasV1 info then Ok (t\<lparr>th_infoHashV2 := Some v2Hash, th_infoHash := Some v1Hash\<rparr>, [v1Hash])
             else Ok (t\<lparr>th_infoHashV2 := Some v2Hash, th_infoHash := None\<rparr>, []))
          else Ok (t, [])
      | (Some h, Some h2) \<Rightarrow>
          if v1Hash \<noteq> h then Err (ErrorString ''incorrect v1 infohash'')
          else if v2Hash \<noteq> h2 then Err (ErrorString ''incorrect v2 infohash'') else Ok (t, [])
      | (None, Some h2) \<Rightarrow>
          if v2Hash \<noteq> h2 then Err (ErrorString ''incorrect v2 infohash'')
          else if HasV1 info then Ok (t\<lparr>th_infoHash := Some v1Hash\<rparr>, [v1Hash]) else Ok (t, [])
      | (None, None) \<Rightarrow> Panic ''no expected infohashes'')"

text \<open>The hash a torrent goes by stays the one it was added under, except when that is the truncated version
  2 hash of a hybrid info. Bytes that have neither hash are accepted too.\<close>

lemma hashInfoBytes_keeps:
  assumes "hashInfoBytes v1Hash v2Hash info t = Ok (t', ks)" "th_infoHash t = Some h"
    "v1Hash = h \<or> take Size v2Hash \<noteq> h \<or> \<not> HasV1 info"
  shows "canonicalShortInfohash t' = Ok h"
  using assms by (auto simp: hashInfoBytes_def canonicalShortInfohash_def split: option.splits if_splits)

lemma hashInfoBytes_switches:
  assumes "v1Hash \<noteq> h" "take Size v2Hash = h" "HasV2 info" "HasV1 info"
  shows "\<exists>t'. hashInfoBytes v1Hash v2Hash info \<lparr>th_infoHash = Some h, th_infoHashV2 = None\<rparr> = Ok (t', [v1Hash]) \<and>
    canonicalShortInfohash t' = Ok v1Hash"
  using assms by (simp add: hashInfoBytes_def canonicalShortInfohash_def)

lemma hashInfoBytes_accepts_unrelated:
  assumes "v1Hash \<noteq> h" "take Size v2Hash \<noteq> h"
  shows "hashInfoBytes v1Hash v2Hash info \<lparr>th_infoHash = Some h, th_infoHashV2 = None\<rparr> =
    Ok (\<lparr>th_infoHash = Some h, th_infoHashV2 = None\<rparr>, [])"
  using assms by (simp add: hashInfoBytes_def)

section \<open>One torrent\<close>

definition lib_name :: "hash \<Rightarrow> lib_torrent \<Rightarrow> string" where
  "lib_name k t =
     (case lt_info t of
        Some info \<Rightarrow> BestName info
      | None \<Rightarrow> if lt_displayName t \<noteq> [] then lt_displayName t else ''infohash:'' @ HexString k)"

definition lib_length :: "lib_torrent \<Rightarrow> int" where
  "lib_length t = (case lt_info t of None \<Rightarrow> 0 | Some info \<Rightarrow> TotalLength info)"

text \<open>\<open>Torrent.pieceLength\<close>: the lengths of pieces are 32 bits wide (\<open>pp.Integer\<close>). \<open>mustGetOnlyFile\<close> is the
  file whose range of pieces has the piece; the files of a version 2 torrent share none.\<close>

definition lib_pieceLength :: "Info \<Rightarrow> int \<Rightarrow> int" where
  "lib_pieceLength info i =
     (if PieceLength info = 0 then 0
      else if FilesArePieceAligned info then
        (case List.find (\<lambda>f. BeginPieceIndex (PieceLength info) f \<le> i \<and> i < EndPieceIndex (PieceLength info) f)
                (UpvertedFiles info) of
           None \<Rightarrow> 0
         | Some f \<Rightarrow>
             if i = EndPieceIndex (PieceLength info) f - 1
             then u32 (fi_Length f - (i * PieceLength info - fi_TorrentOffset f))
             else u32 (PieceLength info))
      else if i = NumPieces info - 1 \<and> u32 (TotalLength info smod PieceLength info) \<noteq> 0
        then u32 (TotalLength info smod PieceLength info)
      else u32 (PieceLength info))"

definition lib_bytesLeft :: "Info \<Rightarrow> lib_torrent \<Rightarrow> int" where
  "lib_bytesLeft info t =
     i64 (sum_list (map (\<lambda>i. u32 (lib_pieceLength info i - lt_dirty t i))
       (filter (\<lambda>i. \<not> lt_completed t i) [0..NumPieces info - 1])))"

definition lib_bytesCompleted :: "lib_torrent \<Rightarrow> int" where
  "lib_bytesCompleted t =
     (case lt_info t of None \<Rightarrow> 0 | Some info \<Rightarrow> i64 (lib_length t - lib_bytesLeft info t))"

text \<open>\<open>Torrent.Files\<close>: before the info is known it dereferences a nil pointer.\<close>

definition lib_files :: "lib_torrent \<Rightarrow> FileProgress list res" where
  "lib_files t =
     (case lt_info t of
        None \<Rightarrow> Panic ''runtime error: invalid memory address or nil pointer dereference''
      | Some info \<Rightarrow>
        Ok (map (\<lambda>fi.
              \<lparr>fp_Path = DisplayPath info fi, fp_Length = fi_Length fi,
               fp_BytesCompleted = i64 (fi_Length fi -
                 fileBytesLeft (PieceLength info) (BeginPieceIndex (PieceLength info) fi)
                   (EndPieceIndex (PieceLength info) fi) (fi_TorrentOffset fi) (fi_Length fi)
                   (lt_completed t) (lt_dirty t))\<rparr>)
            (UpvertedFiles info)))"

section \<open>The client\<close>

definition set_torrent :: "hash \<Rightarrow> (lib_torrent \<Rightarrow> lib_torrent) \<Rightarrow> world \<Rightarrow> world" where
  "set_torrent k f w =
     w\<lparr>torrentsByShortHash := (torrentsByShortHash w)(k := map_option f (torrentsByShortHash w k))\<rparr>"

text \<open>Piece \<open>i\<close> was hashed: the completion store is told, and then the torrent. A failing store is
  only logged (\<open>Torrent.pieceHashed\<close>).\<close>

definition pieceHashed :: "hash \<Rightarrow> int \<Rightarrow> bool \<Rightarrow> world \<Rightarrow> world" where
  "pieceHashed k i passed w =
     set_torrent k (\<lambda>t. t\<lparr>lt_completed := (lt_completed t)(i := passed)\<rparr>) (snd (piece_Set (k, i) passed w))"

text \<open>An info becomes known: unless one is, it is checked, the storage is opened, the completion of
  every piece is read from the store, and pieces of unknown state are hashed. Opening the storage lists
  the files, which may panic.\<close>

definition lib_setInfo :: "hash \<Rightarrow> Info \<Rightarrow> world \<Rightarrow> unit res \<times> world" where
  "lib_setInfo k info w =
     (case torrentsByShortHash w k of
        None \<Rightarrow> (Err (ErrorString ''torrent closed''), w)
      | Some t \<Rightarrow>
        if lt_info t \<noteq> None then (Ok (), w)
        else case validateInfo info of
               Some e \<Rightarrow> (Err (Errorf ''bad info: '' e []), w)
             | None \<Rightarrow>
               if UpvertedFiles_panics info then (Panic ''upvertedFiles'', w)
               else
               (case env_open w (tick w) of
                  Some m \<Rightarrow> (Err (Errorf ''error opening torrent storage: '' (DriverError m) []), tock w)
                | None \<Rightarrow>
                  (let w1 = set_torrent k (\<lambda>t. t\<lparr>lt_info := Some info, lt_displayName := [],
                              lt_completed := (\<lambda>i. piece_cache w (k, i) = Some True),
                              lt_dirty := (\<lambda>_. 0)\<rparr>) (tock w) in
                   (Ok (), fold (\<lambda>(i, ok). pieceHashed k i ok) (env_initial w (tick w) k) w1))))"

definition lib_Drop :: "hash \<Rightarrow> world \<Rightarrow> world" where
  "lib_Drop k w = w\<lparr>torrentsByShortHash := (torrentsByShortHash w)(k := None)\<rparr>"

definition new_torrent :: lib_torrent where
  "new_torrent = \<lparr>lt_displayName = [], lt_info = None, lt_completed = (\<lambda>_. False), lt_dirty = (\<lambda>_. 0),
                  lt_conns = 0, lt_seeders = 0, lt_wanted = False\<rparr>"

text \<open>\<open>addPieceLayersLocked\<close> on the files of a torrent; a torrent that has none yet has a nil pointer there.\<close>

definition lib_addPieceLayers :: "hash \<Rightarrow> (string \<times> string) list option \<Rightarrow> world \<Rightarrow> unit res \<times> world" where
  "lib_addPieceLayers k layers w =
     (case Option.bind (torrentsByShortHash w k) lt_info of
        Some info \<Rightarrow> (addPieceLayers (env_sha256 w) info layers, w)
      | None \<Rightarrow>
        (if layers = None then Ok ()
         else Panic ''runtime error: invalid memory address or nil pointer dereference'', w))"

text \<open>\<open>MergeSpec\<close>: the display name, the info and the piece layers.\<close>

definition MergeSpec :: "hash \<Rightarrow> string \<Rightarrow> Info option \<Rightarrow> (string \<times> string) list option \<Rightarrow> world \<Rightarrow> unit res \<times> world" where
  "MergeSpec k dn infoo layers w =
     (let w = (if dn \<noteq> [] then
                 set_torrent k (\<lambda>t. if lt_info t = None then t\<lparr>lt_displayName := dn\<rparr> else t) w
               else w) in
      call (case infoo of None \<Rightarrow> (Ok (), w) | Some info \<Rightarrow> lib_setInfo k info w)
        (\<lambda>_ w. lib_addPieceLayers k layers w)
        (\<lambda>e w. (Err e, w)))"

text \<open>\<open>AddTorrentOpt\<close>: find the torrent or add it, with its info, whose error is ignored.\<close>

definition AddTorrentOpt :: "hash \<Rightarrow> Info option \<Rightarrow> world \<Rightarrow> bool res \<times> world" where
  "AddTorrentOpt k infoo w =
     (if IsZero k then (Panic ''zero value'', w)
      else if torrentsByShortHash w k \<noteq> None then (Ok False, w)
      else
        (let w = w\<lparr>torrentsByShortHash := (torrentsByShortHash w)(k \<mapsto> new_torrent)\<rparr> in
         call (case infoo of None \<Rightarrow> (Ok (), w) | Some info \<Rightarrow> lib_setInfo k info w)
           (\<lambda>_ w. (Ok True, w))
           (\<lambda>_ w. (Ok True, w))))"

text \<open>\<open>AddTorrentSpec\<close>: add or find the torrent, then merge the specification into it; a new torrent that
  this fails for is dropped.\<close>

definition AddTorrentSpec :: "hash \<Rightarrow> string \<Rightarrow> Info option \<Rightarrow> (string \<times> string) list option \<Rightarrow> world \<Rightarrow> hash res \<times> world" where
  "AddTorrentSpec k dn infoo layers w =
     call (AddTorrentOpt k infoo w)
       (\<lambda>new w.
          call (MergeSpec k dn infoo layers w)
            (\<lambda>_ w. (Ok k, w))
            (\<lambda>e w. (Err e, if new then lib_Drop k w else w)))
       (\<lambda>e w. (Err e, w))"

abbreviation spec_of :: "link_env \<Rightarrow> string \<Rightarrow> TorrentSpec res" where
  "spec_of env \<equiv> TorrentSpecFromMagnetUri (le_authority env) (le_multihash env)"

definition lib_AddMagnet :: "string \<Rightarrow> world \<Rightarrow> hash res \<times> world" where
  "lib_AddMagnet uri w =
     (case spec_of (env_magnet w) uri of
        Ok spec \<Rightarrow> AddTorrentSpec (ts_InfoHash spec) (ts_DisplayName spec) None None w
      | Err e \<Rightarrow> (Err e, w)
      | Panic p \<Rightarrow> (Panic p, w)
      | Hang \<Rightarrow> (Hang, w))"

definition lib_AddTorrent :: "MetaInfo \<Rightarrow> world \<Rightarrow> hash res \<times> world" where
  "lib_AddTorrent mi w =
     (case mi_Info mi of
        Inl e \<Rightarrow> (Err (Errorf ''unmarshalling info: '' e []), w)
      | Inr info \<Rightarrow>
        (let k = (if HasV1 info then to_array (mi_Hash mi) else replicate Size (CHR 0x00)) in
         AddTorrentSpec k (BestName info) (Some info) (mi_PieceLayers mi) w))"

text \<open>The \<open>select\<close> on \<open>GotInfo\<close> and the context: an info that never arrives under a context that is
  never done keeps it waiting for ever.\<close>

definition lib_select :: "ctx \<Rightarrow> hash \<Rightarrow> world \<Rightarrow> wakeup \<times> world" where
  "lib_select c k w =
     (case torrentsByShortHash w k of
        Some t \<Rightarrow>
          if lt_info t \<noteq> None then
            (if ctx_done c (tick w) \<and> env_select w (tick w) then (CtxDone, tock w) else (GotInfo, tock w))
          else
            (case env_arrival w (tick w) k of
               Some (d, info) \<Rightarrow>
                 (case lib_setInfo k info (w\<lparr>tick := tick w + d\<rparr>) of
                    (Ok _, w') \<Rightarrow>
                      if ctx_done c (tick w + d)
                      then (CtxDone, w\<lparr>tick := max (tick w) (case c of Some n \<Rightarrow> n | None \<Rightarrow> 0)\<rparr>)
                      else (GotInfo, w')
                  | (_, w') \<Rightarrow> (case c of Some n \<Rightarrow> (CtxDone, w\<lparr>tick := max (tick w) n\<rparr>) | None \<Rightarrow> (Never, w)))
             | None \<Rightarrow> (case c of Some n \<Rightarrow> (CtxDone, w\<lparr>tick := max (tick w) n\<rparr>) | None \<Rightarrow> (Never, w)))
      | None \<Rightarrow> (case c of Some n \<Rightarrow> (CtxDone, w\<lparr>tick := max (tick w) n\<rparr>) | None \<Rightarrow> (Never, w)))"

fun verify_pieces :: "ctx \<Rightarrow> hash \<Rightarrow> int list \<Rightarrow> world \<Rightarrow> unit res \<times> world" where
  "verify_pieces c k [] w = (Ok (), w)"
| "verify_pieces c k (i # js) w =
     (case env_verify w (tick w) of
        Some e \<Rightarrow> (Err (Errorf (''verifying piece '' @ int_dec i @ '': '') e []), tock w)
      | None \<Rightarrow>
        if ctx_done c (tick w) \<and> env_select w (tick w)
        then (Err (Errorf (''verifying piece '' @ int_dec i @ '': '') (Sentinel ContextCanceled) []), tock w)
        else verify_pieces c k js (pieceHashed k i (env_hash w (tick w) k i) w))"

definition lib_VerifyDataContext :: "ctx \<Rightarrow> hash \<Rightarrow> world \<Rightarrow> unit res \<times> world" where
  "lib_VerifyDataContext c k w =
     (case torrentsByShortHash w k of
        Some t \<Rightarrow>
          (case lt_info t of
             Some info \<Rightarrow> verify_pieces c k [0..NumPieces info - 1] w
           | None \<Rightarrow> (Ok (), w))
      | None \<Rightarrow> (Ok (), w))"

definition lib_DownloadAll :: "hash \<Rightarrow> world \<Rightarrow> world" where
  "lib_DownloadAll k w = set_torrent k (\<lambda>t. t\<lparr>lt_wanted := True\<rparr>) w"

text \<open>Reading a torrent through its handle; a handle whose torrent is gone reads as a new one.\<close>

definition lib_get :: "hash \<Rightarrow> world \<Rightarrow> lib_torrent" where
  "lib_get k w = (case torrentsByShortHash w k of Some t \<Rightarrow> t | None \<Rightarrow> new_torrent)"

definition lib_client :: "(world, hash, MetaInfo) Client" where
  "lib_client =
     \<lparr>cl_AddMagnet = lib_AddMagnet,
      cl_AddTorrent = lib_AddTorrent,
      cl_Torrent = (\<lambda>k w. map_option (\<lambda>_. k) (torrentsByShortHash w k)),
      cl_Close = (\<lambda>w. ([], w\<lparr>torrentsByShortHash := (\<lambda>_. None)\<rparr>)),
      t_select = lib_select,
      t_VerifyDataContext = lib_VerifyDataContext,
      t_DownloadAll = lib_DownloadAll,
      t_Drop = lib_Drop,
      t_InfoHash = (\<lambda>k w. k),
      t_Name = (\<lambda>k w. lib_name k (lib_get k w)),
      t_Length = (\<lambda>k w. lib_length (lib_get k w)),
      t_BytesCompleted = (\<lambda>k w. lib_bytesCompleted (lib_get k w)),
      t_Stats = (\<lambda>k w. \<lparr>ActivePeers = lt_conns (lib_get k w), ConnectedSeeders = lt_seeders (lib_get k w)\<rparr>),
      t_Files = Some (\<lambda>k w. lib_files (lib_get k w))\<rparr>"

section \<open>The disk\<close>

text \<open>\<open>os.RemoveAll\<close>: the paths at and below the given one go; a failing call may have removed
  some of them.\<close>

definition lib_RemoveAll :: "string \<Rightarrow> world \<Rightarrow> unit res \<times> world" where
  "lib_RemoveAll p w =
     (case env_rm w (tick w) of
        None \<Rightarrow> (Ok (), tock (w\<lparr>disk := filter (\<lambda>q. \<not> under p q) (disk w)\<rparr>))
      | Some (m, gone) \<Rightarrow>
          (Err (DriverError m), tock (w\<lparr>disk := filter (\<lambda>q. \<not> (under p q \<and> gone q)) (disk w)\<rparr>)))"

definition lib_engine :: "(string \<Rightarrow> go_error + MetaInfo) \<Rightarrow> string \<Rightarrow> (world, hash, MetaInfo) Engine" where
  "lib_engine load dir =
     \<lparr>client = lib_client, dataDir = dir, metainfo_Load = load, os_RemoveAll = lib_RemoveAll\<rparr>"

section \<open>Frames\<close>

definition lib_inv :: "world \<Rightarrow> bool" where
  "lib_inv w \<longleftrightarrow>
     (\<forall>k. torrentsByShortHash w k \<noteq> None \<longrightarrow> wf_hash k \<and> \<not> IsZero k)"

type_synonym kept =
  "torrent_row list \<times> (nat \<Rightarrow> string option) \<times> (nat \<Rightarrow> utc) \<times> (string \<Rightarrow> go_error + utc) \<times> link_env"

definition lib_keep :: "world \<Rightarrow> kept" where
  "lib_keep w = (torrent_tbl w, fault w, now_at w, parse_general w, env_magnet w)"

definition kept_magnet :: "kept \<Rightarrow> string \<Rightarrow> hash option" where
  "kept_magnet kp uri =
     (case spec_of (snd (snd (snd (snd kp)))) uri of Ok spec \<Rightarrow> Some (ts_InfoHash spec) | _ \<Rightarrow> None)"

definition lib_frame :: "hash \<Rightarrow> world \<Rightarrow> world \<Rightarrow> bool" where
  "lib_frame k w w' \<longleftrightarrow>
     lib_keep w' = lib_keep w \<and> tick w \<le> tick w' \<and> (db_inv w \<longrightarrow> db_inv w') \<and>
     (wf_hash k \<longrightarrow> agree w \<longrightarrow> agree w') \<and> (wf_hash k \<longrightarrow> covers w \<longrightarrow> covers w') \<and>
     (\<forall>j. j \<noteq> k \<longrightarrow> torrentsByShortHash w' j = torrentsByShortHash w j)"

lemma lib_frame_refl [simp]: "lib_frame k w w"
  by (simp add: lib_frame_def)

lemma lib_frame_trans: "lib_frame k w v \<Longrightarrow> lib_frame k v u \<Longrightarrow> lib_frame k w u"
  by (auto simp: lib_frame_def)

lemma db_inv_cong:
  "torrent_tbl w' = torrent_tbl w \<Longrightarrow> piece_tbl w' = piece_tbl w \<Longrightarrow> now_at w' = now_at w \<Longrightarrow>
    db_inv w' = db_inv w"
  by (simp add: db_inv_def)

lemma agree_cong:
  assumes "piece_tbl w' = piece_tbl w" "piece_cache w' = piece_cache w"
  shows "agree w' = agree w" "covers w' = covers w"
proof -
  have "stored w' = stored w" by (rule ext) (simp add: stored_def piece_rows_def assms(1))
  with assms show "agree w' = agree w" "covers w' = covers w" by (simp_all add: agree_def covers_def canonical_pieces_def)
qed

lemma lib_frameI:
  assumes "torrent_tbl w' = torrent_tbl w" "piece_tbl w' = piece_tbl w" "now_at w' = now_at w"
    "fault w' = fault w" "parse_general w' = parse_general w" "env_magnet w' = env_magnet w"
    "piece_cache w' = piece_cache w" "tick w \<le> tick w'"
    "\<And>j. j \<noteq> k \<Longrightarrow> torrentsByShortHash w' j = torrentsByShortHash w j"
  shows "lib_frame k w w'"
  using assms db_inv_cong [OF assms(1-3)] agree_cong [OF assms(2,7)] by (simp add: lib_frame_def lib_keep_def)

lemma world_tock [simp]:
  "torrentsByShortHash (tock w) = torrentsByShortHash w" "env_magnet (tock w) = env_magnet w"
  "disk (tock w) = disk w"
  by (simp_all add: tock_def)

lemma frame_tock: "lib_frame k w (tock w)"
  by (rule lib_frameI) simp_all

lemma frame_set_torrent: "lib_frame k w (set_torrent k f w)"
  by (rule lib_frameI) (simp_all add: set_torrent_def)

lemma set_torrent_present [simp]:
  "torrentsByShortHash (set_torrent k f w) k = None \<longleftrightarrow> torrentsByShortHash w k = None"
  by (simp add: set_torrent_def)

lemma frame_Drop: "lib_frame k w (lib_Drop k w)"
  by (rule lib_frameI) (simp_all add: lib_Drop_def)

lemma piece_Set_world:
  assumes "piece_Set pk b w = (r, w')"
  shows "torrentsByShortHash w' = torrentsByShortHash w" "env_magnet w' = env_magnet w" "tick w' = Suc (tick w)"
  using assms by (cases rule: piece_Set_cases; simp add: tock_def)+

lemma frame_piece_Set:
  assumes "piece_Set (k, i) b w = (r, w')"
  shows "lib_frame k w w'"
  using piece_Set_world [OF assms] piece_Set_frame [OF assms] piece_Set_agree [OF _ _ assms] piece_Set_covers [OF _ _ assms]
  by (simp add: lib_frame_def lib_keep_def)

lemma frame_pieceHashed:
  "lib_frame k w (pieceHashed k i b w)"
  "torrentsByShortHash (pieceHashed k i b w) k = None \<longleftrightarrow> torrentsByShortHash w k = None"
proof -
  obtain r v where ps: "piece_Set (k, i) b w = (r, v)" by force
  show "lib_frame k w (pieceHashed k i b w)"
    using lib_frame_trans [OF frame_piece_Set [OF ps] frame_set_torrent] ps by (simp add: pieceHashed_def)
  show "torrentsByShortHash (pieceHashed k i b w) k = None \<longleftrightarrow> torrentsByShortHash w k = None"
    using piece_Set_world [OF ps] ps by (simp add: pieceHashed_def)
qed

lemma frame_fold_hashed:
  "lib_frame k w (fold (\<lambda>(i, ok). pieceHashed k i ok) xs w) \<and>
    (torrentsByShortHash (fold (\<lambda>(i, ok). pieceHashed k i ok) xs w) k = None \<longleftrightarrow> torrentsByShortHash w k = None)"
proof (induction xs arbitrary: w)
  case (Cons x xs)
  obtain i b where x: "x = (i, b)" by force
  show ?case
    using Cons.IH [of "pieceHashed k i b w"] frame_pieceHashed(1) [of k w i b] frame_pieceHashed(2) [of k i b w] lib_frame_trans by (auto simp: x)
qed simp

lemma frame_setInfo:
  assumes "lib_setInfo k info w = (r, w')"
  shows "lib_frame k w w' \<and> (torrentsByShortHash w' k = None \<longleftrightarrow> torrentsByShortHash w k = None)"
proof -
  have "lib_frame k w (fold (\<lambda>(i, ok). pieceHashed k i ok) xs (set_torrent k f (tock w))) \<and>
    (torrentsByShortHash (fold (\<lambda>(i, ok). pieceHashed k i ok) xs (set_torrent k f (tock w))) k = None \<longleftrightarrow>
     torrentsByShortHash w k = None)" for f xs
    using frame_fold_hashed [of k "set_torrent k f (tock w)" xs] frame_tock [of k w]
      frame_set_torrent [of k "tock w" f] lib_frame_trans by (metis set_torrent_present world_tock(1))
  with assms frame_tock show ?thesis
    by (auto simp: lib_setInfo_def Let_def split: option.splits if_splits)
qed

lemma frame_verify:
  "verify_pieces c k js w = (r, w') \<Longrightarrow>
    lib_frame k w w' \<and> (torrentsByShortHash w' k = None \<longleftrightarrow> torrentsByShortHash w k = None) \<and> returns r"
proof (induction js arbitrary: w)
  case (Cons i js)
  show ?case
  proof (cases "env_verify w (tick w)")
    case (Some e)
    with Cons.prems frame_tock show ?thesis by auto
  next
    case None
    show ?thesis
    proof (cases "ctx_done c (tick w) \<and> env_select w (tick w)")
      case True
      with None Cons.prems frame_tock show ?thesis by auto
    next
      case False
      with None Cons.prems have "verify_pieces c k js (pieceHashed k i (env_hash w (tick w) k i) w) = (r, w')"
        by auto
      from Cons.IH [OF this] frame_pieceHashed(1) [of k w i "env_hash w (tick w) k i"]
        frame_pieceHashed(2) [of k i "env_hash w (tick w) k i" w] lib_frame_trans
      show ?thesis by auto
    qed
  qed
qed auto

lemma frame_tick: "tick w \<le> n \<Longrightarrow> lib_frame k w (w\<lparr>tick := n\<rparr>)"
  by (rule lib_frameI) simp_all

lemma frame_select:
  assumes "lib_select c k w = (wk, w')"
  shows "lib_frame k w w' \<and> (torrentsByShortHash w' k = None \<longleftrightarrow> torrentsByShortHash w k = None)"
proof -
  have late: "lib_frame k w (w\<lparr>tick := max (tick w) n\<rparr>)" for n
    by (rule frame_tick) simp
  have arr: "lib_frame k w v \<and> (torrentsByShortHash v k = None \<longleftrightarrow> torrentsByShortHash w k = None)"
    if "lib_setInfo k info (w\<lparr>tick := tick w + d\<rparr>) = (r, v)" for info d r v
    using frame_setInfo [OF that] lib_frame_trans [OF frame_tick [of w "tick w + d" k]] by auto
  from assms late arr frame_tock show ?thesis
    by (auto simp: lib_select_def split: option.splits if_splits prod.splits res.splits)
qed

text \<open>A call that has only an effect on the torrent \<open>k\<close>, which stays.\<close>

definition stays :: "hash \<Rightarrow> world \<Rightarrow> world \<Rightarrow> bool" where
  "stays k w w' \<longleftrightarrow> lib_frame k w w' \<and> (torrentsByShortHash w k \<noteq> None \<longrightarrow> torrentsByShortHash w' k \<noteq> None)"

lemma stays_refl [simp]: "stays k w w"
  by (simp add: stays_def)

lemma stays_trans: "stays k w v \<Longrightarrow> stays k v u \<Longrightarrow> stays k w u"
  by (auto simp: stays_def intro: lib_frame_trans)

lemma stays_setInfo: "lib_setInfo k info w = (r, w') \<Longrightarrow> stays k w w'"
  using frame_setInfo [of k info w r w'] by (simp add: stays_def)

lemma stays_MergeSpec:
  assumes "MergeSpec k dn infoo layers w = (r, w')"
  shows "stays k w w'"
proof -
  let ?v = "if dn \<noteq> [] then set_torrent k (\<lambda>t. if lt_info t = None then t\<lparr>lt_displayName := dn\<rparr> else t) w else w"
  have v: "stays k w ?v" by (simp add: stays_def frame_set_torrent del: not_None_eq)
  obtain r1 u where u: "(case infoo of None \<Rightarrow> (Ok (), ?v) | Some info \<Rightarrow> lib_setInfo k info ?v) = (r1, u)" by force
  then have "stays k ?v u" by (cases infoo) (auto dest: stays_setInfo)
  moreover have "lib_addPieceLayers k layers x = (r, y) \<Longrightarrow> y = x" for x y
    by (auto simp: lib_addPieceLayers_def split: option.splits)
  then have "w' = u" using assms u by (cases r1) (auto simp: MergeSpec_def Let_def)
  ultimately show ?thesis using v stays_trans by blast
qed

lemma MergeSpec_magnet: "\<exists>w'. MergeSpec k dn None None w = (Ok (), w')"
  by (auto simp: MergeSpec_def lib_addPieceLayers_def Let_def split: option.split)

lemma frame_AddTorrentOpt:
  assumes "AddTorrentOpt k infoo w = (r, w')"
  shows "lib_frame k w w'" and "w' = w \<or> torrentsByShortHash w' k \<noteq> None \<and> \<not> IsZero k"
    and "r = Ok new \<Longrightarrow> torrentsByShortHash w' k \<noteq> None \<and> \<not> IsZero k"
proof -
  let ?v = "w\<lparr>torrentsByShortHash := (torrentsByShortHash w)(k \<mapsto> new_torrent)\<rparr>"
  have v: "lib_frame k w ?v" by (intro lib_frameI) simp_all
  consider "IsZero k" "r = Panic ''zero value''" "w' = w" | "\<not> IsZero k" "torrentsByShortHash w k \<noteq> None" "w' = w"
    | "\<not> IsZero k" "stays k ?v w'"
    using assms
    by (cases infoo) (auto simp: AddTorrentOpt_def Let_def call_def dest: stays_setInfo split: if_splits res.splits prod.splits)
  then have "lib_frame k w w' \<and> (w' = w \<or> torrentsByShortHash w' k \<noteq> None \<and> \<not> IsZero k) \<and>
      (r = Ok new \<longrightarrow> torrentsByShortHash w' k \<noteq> None \<and> \<not> IsZero k)"
    using v lib_frame_trans [of k w ?v w'] by cases (auto simp: stays_def)
  then show "lib_frame k w w'" "w' = w \<or> torrentsByShortHash w' k \<noteq> None \<and> \<not> IsZero k"
    "r = Ok new \<Longrightarrow> torrentsByShortHash w' k \<noteq> None \<and> \<not> IsZero k" by blast+
qed

lemma frame_AddTorrentSpec:
  assumes "AddTorrentSpec k dn infoo layers w = (r, w')"
  shows "lib_frame k w w'" and "r = Ok t \<Longrightarrow> t = k \<and> torrentsByShortHash w' k \<noteq> None \<and> \<not> IsZero k"
    and "torrentsByShortHash w' k \<noteq> None \<Longrightarrow> torrentsByShortHash w k \<noteq> None \<or> \<not> IsZero k"
    and "infoo = None \<Longrightarrow> layers = None \<Longrightarrow> r = Ok k \<or> w' = w"
proof -
  obtain r1 v where a: "AddTorrentOpt k infoo w = (r1, v)" by force
  note fa = frame_AddTorrentOpt [OF a]
  have "lib_frame k w w' \<and> (r = Ok t \<longrightarrow> t = k \<and> torrentsByShortHash w' k \<noteq> None \<and> \<not> IsZero k) \<and>
      (torrentsByShortHash w' k \<noteq> None \<longrightarrow> torrentsByShortHash w k \<noteq> None \<or> \<not> IsZero k) \<and>
      (infoo = None \<longrightarrow> layers = None \<longrightarrow> r = Ok k \<or> w' = w)"
  proof (cases "\<exists>new. r1 = Ok new")
    case False
    then have "w' = v" "\<forall>t. r \<noteq> Ok t" using assms a by (cases r1; auto simp: AddTorrentSpec_def)+
    moreover have "infoo = None \<longrightarrow> w' = w"
      using a False \<open>w' = v\<close> by (auto simp: AddTorrentOpt_def Let_def split: if_splits)
    ultimately show ?thesis using fa by auto
  next
    case True
    then obtain new where new: "r1 = Ok new" by blast
    obtain r2 u where m: "MergeSpec k dn infoo layers v = (r2, u)" by force
    have u: "lib_frame k w u" "torrentsByShortHash u k \<noteq> None" "\<not> IsZero k"
      using stays_MergeSpec [OF m] fa(1) fa(3) [OF new] lib_frame_trans by (auto simp: stays_def)
    moreover have "lib_frame k w (lib_Drop k u)" using u(1) frame_Drop lib_frame_trans by blast
    moreover have "infoo = None \<longrightarrow> layers = None \<longrightarrow> r2 = Ok ()" using MergeSpec_magnet [of k dn v] m by auto
    ultimately show ?thesis using assms a new m by (cases r2) (auto simp: AddTorrentSpec_def)
  qed
  then show "lib_frame k w w'" "r = Ok t \<Longrightarrow> t = k \<and> torrentsByShortHash w' k \<noteq> None \<and> \<not> IsZero k"
    "torrentsByShortHash w' k \<noteq> None \<Longrightarrow> torrentsByShortHash w k \<noteq> None \<or> \<not> IsZero k"
    "infoo = None \<Longrightarrow> layers = None \<Longrightarrow> r = Ok k \<or> w' = w" by auto
qed

section \<open>The library keeps the client contract\<close>

lemma lib_client_simps [simp]:
  "cl_AddMagnet lib_client = lib_AddMagnet" "cl_AddTorrent lib_client = lib_AddTorrent"
  "cl_Torrent lib_client k w = map_option (\<lambda>_. k) (torrentsByShortHash w k)"
  "t_select lib_client = lib_select" "t_VerifyDataContext lib_client = lib_VerifyDataContext"
  "t_DownloadAll lib_client = lib_DownloadAll" "t_Drop lib_client = lib_Drop"
  "t_InfoHash lib_client k w = k"
  "t_Files lib_client = Some (\<lambda>k w. lib_files (lib_get k w))"
  "t_Name lib_client k w = lib_name k (lib_get k w)"
  by (simp_all add: lib_client_def)

lemma lib_engine_simps [simp]:
  "client (lib_engine load dir) = lib_client" "dataDir (lib_engine load dir) = dir"
  "metainfo_Load (lib_engine load dir) = load" "os_RemoveAll (lib_engine load dir) = lib_RemoveAll"
  by (simp_all add: lib_engine_def)

text \<open>The live state of the library's torrents.\<close>

definition progress_of :: "hash \<Rightarrow> lib_torrent \<Rightarrow> Progress" where
  "progress_of k t =
     \<lparr>pr_InfoHash = HexString k, pr_Name = lib_name k t, pr_Length = lib_length t,
      pr_BytesCompleted = lib_bytesCompleted t, pr_ActivePeers = lt_conns t, pr_Seeders = lt_seeders t\<rparr>"

definition lib_live :: "world \<Rightarrow> hash \<Rightarrow> Progress option" where
  "lib_live w k = map_option (progress_of k) (torrentsByShortHash w k)"

lemma live_of_lib [simp]: "live_of lib_client w = lib_live w"
proof
  fix k
  show "live_of lib_client w k = lib_live w k"
    by (cases "torrentsByShortHash w k")
      (simp_all add: live_of_def lib_live_def lib_client_def progress_of_def lib_get_def)
qed

lemma lib_live_cong: "torrentsByShortHash w' j = torrentsByShortHash w j \<Longrightarrow> lib_live w' j = lib_live w j"
  by (simp add: lib_live_def)

lemma lib_live_eq: "torrentsByShortHash w' = torrentsByShortHash w \<Longrightarrow> lib_live w' = lib_live w"
  by (rule ext) (simp add: lib_live_def)

text \<open>A relation of the cache and the piece table that calls on one torrent keep.\<close>

definition cache_relation :: "(world \<Rightarrow> bool) \<Rightarrow> bool" where
  "cache_relation P \<longleftrightarrow>
     (\<forall>w w'. piece_tbl w' = piece_tbl w \<longrightarrow> piece_cache w' = piece_cache w \<longrightarrow> P w' = P w) \<and>
     (\<forall>k w w'. lib_frame k w w' \<longrightarrow> wf_hash k \<longrightarrow> P w \<longrightarrow> P w')"

lemma cache_relations: "cache_relation agree" "cache_relation covers"
  unfolding cache_relation_def by (metis agree_cong lib_frame_def)+

definition lib_ok :: "(world \<Rightarrow> bool) \<Rightarrow> world \<Rightarrow> bool" where
  "lib_ok P w \<longleftrightarrow> db_inv w \<and> lib_inv w \<and> (cache_relation P \<longrightarrow> P w)"

lemma frame_healthy: "lib_frame k w w' \<Longrightarrow> healthy c w \<Longrightarrow> healthy c w'"
  by (simp add: lib_frame_def lib_keep_def healthy_def)

lemma frame_ok:
  assumes "lib_frame k w w'" "lib_ok b w" "wf_hash k" "torrentsByShortHash w' k \<noteq> None \<Longrightarrow> \<not> IsZero k"
  shows "lib_ok b w'"
proof -
  have "torrentsByShortHash w' j \<noteq> None \<Longrightarrow> wf_hash j \<and> \<not> IsZero j" for j
    using assms by (cases "j = k") (auto simp: lib_frame_def lib_ok_def lib_inv_def)
  moreover have "cache_relation b \<longrightarrow> b w'" using assms(1-3) unfolding lib_ok_def cache_relation_def by blast
  ultimately show ?thesis using assms by (auto simp: lib_frame_def lib_ok_def lib_inv_def lib_keep_def)
qed

lemma frame_live: "lib_frame k w w' \<Longrightarrow> j \<noteq> k \<Longrightarrow> lib_live w' j = lib_live w j"
  by (simp add: lib_frame_def lib_live_def)

lemma lib_ok_hash: "lib_ok b w \<Longrightarrow> torrentsByShortHash w k \<noteq> None \<Longrightarrow> wf_hash k \<and> \<not> IsZero k"
  by (auto simp: lib_ok_def lib_inv_def)

lemma frame_keep: "lib_frame k w w' \<Longrightarrow> lib_keep w' = lib_keep w"
  by (simp add: lib_frame_def)

text \<open>A call on the torrent \<open>k\<close> that neither adds nor drops it.\<close>

lemma frame_touch:
  assumes "lib_ok b w" "torrentsByShortHash w k \<noteq> None" "lib_frame k w w'"
    "torrentsByShortHash w' k = None \<longleftrightarrow> torrentsByShortHash w k = None"
  shows "lib_ok b w' \<and> lib_keep w' = lib_keep w \<and> (healthy c w \<longrightarrow> healthy c w') \<and>
    map_option (\<lambda>_. k) (torrentsByShortHash w' k) = Some k \<and>
    (\<forall>j. j \<noteq> k \<longrightarrow> lib_live w' j = lib_live w j)"
  using assms lib_ok_hash [OF assms(1,2)] frame_ok [OF assms(3,1)] frame_healthy [OF assms(3)]
    frame_live [OF assms(3)] frame_keep [OF assms(3)] by auto

lemma lib_AddMagnet_cases:
  assumes "lib_AddMagnet uri w = (r, w')"
  obtains (refused) "w' = w" "\<forall>t. r \<noteq> Ok t"
    | (added) k where "wf_hash k" "kept_magnet (lib_keep w) uri = Some k" "r = Ok k" "lib_frame k w w'"
        "torrentsByShortHash w' k \<noteq> None" "\<not> IsZero k"
proof (cases "spec_of (env_magnet w) uri")
  case (Ok spec)
  define k dn where "k = ts_InfoHash spec" and "dn = ts_DisplayName spec"
  from assms Ok have a: "AddTorrentSpec k dn None None w = (r, w')" by (simp add: lib_AddMagnet_def k_def dn_def)
  show ?thesis
  proof (cases "r = Ok k")
    case True
    then show ?thesis
      using frame_AddTorrentSpec(1) [OF a] frame_AddTorrentSpec(2) [OF a True]
      by (intro added [of k]) (simp_all add: Ok k_def kept_magnet_def lib_keep_def TorrentSpec_wf [OF Ok])
  next
    case False
    then have "w' = w" "\<forall>t. r \<noteq> Ok t"
      using frame_AddTorrentSpec(4) [OF a refl refl] frame_AddTorrentSpec(2) [OF a] by metis+
    then show ?thesis by (rule refused)
  qed
qed (use assms in \<open>auto simp: lib_AddMagnet_def intro: refused\<close>)

lemma lib_AddTorrent_frame:
  assumes "lib_AddTorrent mi w = (r, w')"
  obtains k where "lib_frame k w w'" "wf_hash k" "\<And>t. r = Ok t \<Longrightarrow> t = k \<and> torrentsByShortHash w' k \<noteq> None"
    "torrentsByShortHash w' k \<noteq> None \<Longrightarrow> torrentsByShortHash w k \<noteq> None \<or> \<not> IsZero k"
proof (cases "mi_Info mi")
  case (Inl e)
  with assms show ?thesis by (intro that [of "to_array []"]) (auto simp: lib_AddTorrent_def)
next
  case (Inr info)
  define k where "k = (if HasV1 info then to_array (mi_Hash mi) else replicate Size (CHR 0x00))"
  have a: "AddTorrentSpec k (BestName info) (Some info) (mi_PieceLayers mi) w = (r, w')"
    using assms Inr by (simp add: lib_AddTorrent_def k_def Let_def)
  have "wf_hash k" by (simp add: k_def wf_hash_def [of "replicate _ _"])
  then show ?thesis using that [of k] frame_AddTorrentSpec [OF a] by blast
qed

interpretation lib: torrent_client "lib_engine load dir" "lib_ok b" lib_keep healthy kept_magnet piece_tbl
  for load dir b
proof (unfold_locales, unfold lib_engine_simps lib_client_simps live_of_lib)
  fix w w' :: world and k t :: hash and uri and rt :: "hash res" and c c' :: ctx and mi wk p
    and ru :: "unit res" and err :: go_error
  show "lib_ok b w \<Longrightarrow> map_option (\<lambda>_. k) (torrentsByShortHash w k) = Some t \<Longrightarrow> t = k \<and> wf_hash k"
    using lib_ok_hash by auto
  show "lib_ok b w' \<and> lib_keep w' = lib_keep w \<and> (healthy c w \<longrightarrow> healthy c w')"
    if ok: "lib_ok b w" and run: "lib_AddMagnet uri w = (rt, w')"
    using run
  proof (cases rule: lib_AddMagnet_cases)
    case (added k)
    with ok frame_ok [OF added(4) ok] frame_keep frame_healthy show ?thesis by blast
  qed (use ok in auto)
  show "\<exists>k. map_option (\<lambda>_. k) (torrentsByShortHash w' k) = Some t \<and> kept_magnet (lib_keep w) uri = Some k \<and>
      (\<forall>j. j \<noteq> k \<longrightarrow> lib_live w' j = lib_live w j)"
    if "lib_ok b w" "lib_AddMagnet uri w = (Ok t, w')"
    using that(2)
  proof (cases rule: lib_AddMagnet_cases)
    case (added k)
    then show ?thesis using frame_live [OF added(4)] by (intro exI [of _ k]) auto
  qed auto
  show "lib_live w' = lib_live w"
    if "lib_ok b w" "lib_AddMagnet uri w = (rt, w')" "\<forall>t. rt \<noteq> Ok t"
    using that(2,3) by (cases rule: lib_AddMagnet_cases) auto
  show "lib_ok b w' \<and> lib_keep w' = lib_keep w \<and> (healthy c w \<longrightarrow> healthy c w')"
    if ok: "lib_ok b w" and run: "lib_AddTorrent mi w = (rt, w')"
  proof -
    from run obtain k where k: "lib_frame k w w'" "wf_hash k"
      "torrentsByShortHash w' k \<noteq> None \<Longrightarrow> torrentsByShortHash w k \<noteq> None \<or> \<not> IsZero k"
      by (rule lib_AddTorrent_frame) blast
    then have "torrentsByShortHash w' k \<noteq> None \<Longrightarrow> \<not> IsZero k" using lib_ok_hash [OF ok] by blast
    with k ok frame_ok [OF k(1) ok k(2)] frame_keep frame_healthy show ?thesis by blast
  qed
  show "\<exists>k. map_option (\<lambda>_. k) (torrentsByShortHash w' k) = Some t \<and>
      (\<forall>j. j \<noteq> k \<longrightarrow> lib_live w' j = lib_live w j)"
    if "lib_ok b w" "lib_AddTorrent mi w = (Ok t, w')"
    using that(2) by (rule lib_AddTorrent_frame) (auto dest: frame_live intro!: exI [of _ t])
  show "\<exists>k. \<forall>j. j \<noteq> k \<longrightarrow> lib_live w' j = lib_live w j"
    if "lib_ok b w" "lib_AddTorrent mi w = (rt, w')" "\<forall>t. rt \<noteq> Ok t"
    using that(2) by (rule lib_AddTorrent_frame) (blast dest: frame_live)
  show "lib_ok b w' \<and> lib_keep w' = lib_keep w \<and> (healthy c' w \<longrightarrow> healthy c' w') \<and>
      map_option (\<lambda>_. k) (torrentsByShortHash w' k) = Some t \<and> (\<forall>j. j \<noteq> k \<longrightarrow> lib_live w' j = lib_live w j)"
    if "lib_ok b w" "map_option (\<lambda>_. k) (torrentsByShortHash w k) = Some t" "lib_select c t w = (wk, w')"
    using frame_touch [OF that(1), of k w' c'] frame_select [of c t w wk w'] that by auto
  show "lib_select background t w \<noteq> (CtxDone, w')"
    by (auto simp: lib_select_def split: option.splits prod.splits res.splits if_splits)
  show "lib_select c t w = (Never, w') \<Longrightarrow> c = background"
    by (auto simp: lib_select_def split: option.splits prod.splits res.splits if_splits)
  show "lib_ok b w' \<and> lib_keep w' = lib_keep w \<and> (healthy c' w \<longrightarrow> healthy c' w') \<and> returns ru \<and>
      map_option (\<lambda>_. k) (torrentsByShortHash w' k) = Some t \<and> (\<forall>j. j \<noteq> k \<longrightarrow> lib_live w' j = lib_live w j)"
    if "lib_ok b w" "map_option (\<lambda>_. k) (torrentsByShortHash w k) = Some t"
      "lib_VerifyDataContext c t w = (ru, w')"
  proof -
    have "lib_frame t w w' \<and> (torrentsByShortHash w' t = None \<longleftrightarrow> torrentsByShortHash w t = None) \<and> returns ru"
      using that(3) frame_verify [of c t _ w ru w']
      by (fastforce simp: lib_VerifyDataContext_def split: option.splits)
    with frame_touch [OF that(1), of k w' c'] that(2) show ?thesis by auto
  qed
  show "lib_ok b w' \<and> lib_keep w' = lib_keep w \<and> (healthy c' w \<longrightarrow> healthy c' w') \<and>
      map_option (\<lambda>_. k) (torrentsByShortHash w' k) = Some t \<and> (\<forall>j. j \<noteq> k \<longrightarrow> lib_live w' j = lib_live w j)"
    if "lib_ok b w" "map_option (\<lambda>_. k) (torrentsByShortHash w k) = Some t" "lib_DownloadAll t w = w'"
    using frame_touch [OF that(1), of k w' c'] frame_set_torrent that by (auto simp: lib_DownloadAll_def)
  show "lib_ok b w' \<and> lib_keep w' = lib_keep w \<and> piece_tbl w' = piece_tbl w \<and> (healthy c' w \<longrightarrow> healthy c' w') \<and>
      lib_live w' = (lib_live w)(k := None)"
    if ok: "lib_ok b w" and t: "map_option (\<lambda>_. k) (torrentsByShortHash w k) = Some t" and d: "lib_Drop t w = w'"
  proof -
    have f: "lib_frame k w w'" and tk: "torrentsByShortHash w k \<noteq> None" and pt: "piece_tbl w' = piece_tbl w"
      using frame_Drop [of k w] t d by (auto simp: lib_Drop_def)
    have "lib_live w' = (lib_live w)(k := None)" using t d by (auto simp: lib_Drop_def lib_live_def [abs_def])
    with f pt frame_ok [OF f ok] lib_ok_hash [OF ok tk] frame_keep [OF f] frame_healthy [OF f] show ?thesis by blast
  qed
  show "lib_ok b w' \<and> lib_keep w' = lib_keep w \<and> piece_tbl w' = piece_tbl w \<and> (healthy c' w \<longrightarrow> healthy c' w') \<and>
      returns ru \<and> lib_live w' = lib_live w"
    if ok: "lib_ok b w" and run: "lib_RemoveAll p w = (ru, w')"
  proof -
    have e: "torrent_tbl w' = torrent_tbl w" "piece_tbl w' = piece_tbl w" "now_at w' = now_at w"
      "fault w' = fault w" "parse_general w' = parse_general w" "env_magnet w' = env_magnet w"
      "piece_cache w' = piece_cache w" "tick w \<le> tick w'" "torrentsByShortHash w' = torrentsByShortHash w" "returns ru"
      using run by (auto simp: lib_RemoveAll_def split: option.splits)
    have "lib_ok b w' = lib_ok b w"
    proof -
      have "cache_relation b \<longrightarrow> b w' = b w" using e(2,7) unfolding cache_relation_def by blast
      with db_inv_cong [OF e(1-3)] e(9) show ?thesis by (auto simp: lib_ok_def lib_inv_def)
    qed
    with e ok lib_live_eq [OF e(9)] show ?thesis by (simp add: lib_keep_def healthy_def)
  qed
  show "lib_RemoveAll p w = (Err err, w') \<Longrightarrow> \<not> errors_is err EngNotFound"
    by (auto simp: lib_RemoveAll_def split: option.splits)
qed

end
