(* ===== verification/System.thy ===== *)
theory System
  imports TorrentLib
begin

text \<open>
  The server's parts put together as \<open>Run\<close> of \<open>internal/server/server.go\<close> does: the service over
  the engine, the two repositories and the torrent client. Here the contract of the
  orchestration layer is discharged for the program's own parts, so that its theorems hold of
  the running system.
\<close>

definition TorrentRepository_value :: "world TorrentRepository" where
  "TorrentRepository_value =
     \<lparr>tr_Create = Create, tr_Get = Get, tr_List = List, tr_Delete = Delete, tr_SetMetadata = SetMetadata,
      tr_SetBytesCompleted = SetBytesCompleted, tr_SetPaused = SetPaused\<rparr>"

definition Engine_value :: "(string \<Rightarrow> go_error + MetaInfo) \<Rightarrow> string \<Rightarrow> world TorrentEngine" where
  "Engine_value load dir =
     (let e = lib_engine load dir in
      \<lparr>te_AddMagnet = eng_AddMagnet e, te_AddFile = eng_AddFile e, te_Remove = eng_Remove e,
       te_Snapshot = eng_Snapshot e, te_Files = eng_Files e\<rparr>)"

definition NewTorrentService ::
  "world TorrentEngine \<Rightarrow> world TorrentRepository \<Rightarrow> world PieceRepository \<Rightarrow> world TorrentService" where
  "NewTorrentService eng trs ps = \<lparr>engine = eng, torrents = trs, pieces = ps\<rparr>"

definition service :: "(string \<Rightarrow> go_error + MetaInfo) \<Rightarrow> string \<Rightarrow> world TorrentService" where
  "service load dir =
     NewTorrentService (Engine_value load dir) TorrentRepository_value \<lparr>pr_Forget = Forget\<rparr>"

lemma service_simps [simp]:
  "tr_Create (torrents (service load dir)) = Create" "tr_Get (torrents (service load dir)) = Get"
  "tr_List (torrents (service load dir)) = List" "tr_Delete (torrents (service load dir)) = Delete"
  "tr_SetMetadata (torrents (service load dir)) = SetMetadata"
  "tr_SetBytesCompleted (torrents (service load dir)) = SetBytesCompleted"
  "tr_SetPaused (torrents (service load dir)) = SetPaused"
  "te_AddMagnet (engine (service load dir)) = eng_AddMagnet (lib_engine load dir)"
  "te_AddFile (engine (service load dir)) = eng_AddFile (lib_engine load dir)"
  "te_Remove (engine (service load dir)) = eng_Remove (lib_engine load dir)"
  "te_Snapshot (engine (service load dir)) = eng_Snapshot (lib_engine load dir)"
  "te_Files (engine (service load dir)) = eng_Files (lib_engine load dir)"
  "pr_Forget (pieces (service load dir)) = Forget"
  by (simp_all add: service_def NewTorrentService_def TorrentRepository_value_def Engine_value_def Let_def)

definition magnet_hash :: "world \<Rightarrow> string \<Rightarrow> hash option" where
  "magnet_hash w uri = (case spec_of (env_magnet w) uri of Ok spec \<Rightarrow> Some (ts_InfoHash spec) | _ \<Rightarrow> None)"

lemma kept_magnet_keep: "kept_magnet (lib_keep w) = magnet_hash w"
  by (rule ext) (simp add: kept_magnet_def lib_keep_def magnet_hash_def)

lemma keep_rows: "lib_keep w' = lib_keep w \<Longrightarrow> rows w' = rows w \<and> magnet_hash w' = magnet_hash w"
  by (simp add: lib_keep_def rows_def [abs_def] select_torrent_def magnet_hash_def [abs_def])

text \<open>What one engine call leaves alone, read at the level of the service.\<close>

lemma touch_service:
  assumes ok: "db_inv w" "lib_inv w" and P: "cache_relation P"
    and t: "\<And>P. lib_ok P w \<Longrightarrow> \<exists>k. lib.touch load dir P k w w' \<and> Q k"
  shows "db_inv w' \<and> lib_inv w' \<and> rows w' = rows w \<and> magnet_hash w' = magnet_hash w \<and>
    (healthy c w \<longrightarrow> healthy c w') \<and> (P w \<longrightarrow> P w') \<and> (\<exists>k. only_torrent lib_live k w w' \<and> Q k)"
proof -
  obtain k where k: "lib.touch load dir (\<lambda>_. True) k w w'" "Q k"
    using t [of "\<lambda>_. True"] ok by (auto simp: lib_ok_def)
  have "P w \<longrightarrow> P w'"
    using t [of P] ok P by (auto simp: lib_ok_def lib.touch_def)
  with k keep_rows [of w' w] show ?thesis
    by (auto simp: lib.touch_def only_torrent_def lib_ok_def)
qed

lemma outer_fields:
  fixes w w' :: world
  assumes "outer w' = outer w"
  shows "torrentsByShortHash w' = torrentsByShortHash w" "env_magnet w' = env_magnet w"
    "piece_cache w' = piece_cache w"
  using assms by (cases w; cases w'; simp add: outer_def)+

lemma rest_fields:
  fixes w w' :: world
  assumes "rest w' = rest w"
  shows "piece_tbl w' = piece_tbl w" "piece_cache w' = piece_cache w"
  using assms by (cases w; cases w'; simp add: rest_def)+

lemma Delete_table:
  fixes w w' :: world
  assumes run: "Delete c h w = (r, w')" and can: "canonical_pieces w"
  shows "canonical_pieces w'"
proof -
  have sub: "set (foldl (\<lambda>ps r. delete_by p_info_hash (info_hash r) ps) ps rs) \<subseteq> set ps"
    for ps and rs :: "torrent_row list"
  proof (induction rs arbitrary: ps)
    case (Cons r rs)
    have "set (delete_by p_info_hash (info_hash r) ps) \<subseteq> set ps" by (auto simp: set_delete_by)
    with Cons.IH [of "delete_by p_info_hash (info_hash r) ps"] show ?case by auto
  qed simp
  have "piece_tbl w' = piece_tbl w \<or> piece_tbl w' = foldl (\<lambda>ps r. delete_by p_info_hash (info_hash r) ps) (piece_tbl w)
      (filter (\<lambda>r. info_hash r = h) (torrent_tbl w))"
    using run by (auto simp: Delete_def exec_one_def ExecContext_def RowsAffected_def delete_torrent_def Let_def
        split: option.splits if_splits call_splits)
  then have "set (piece_tbl w') \<subseteq> set (piece_tbl w)" by (elim disjE) (simp_all add: sub)
  then show ?thesis using can by (auto simp: canonical_pieces_def)
qed

lemma Delete_agree_but:
  fixes w w' :: world
  assumes inv: "db_inv w" and ag: "agree w" and run: "Delete c h w = (Ok x, w')"
  shows "agree (Forget h w')"
proof (rule Forget_agree)
  have d: "piece_rows w' = without_hash h (piece_rows w)" "outer w' = outer w"
    using Delete_effect [OF inv run] by auto
  have "canonical_pieces w'" using Delete_table [OF run] ag by (simp add: agree_def)
  moreover have "piece_cache w' = piece_cache w" using outer_fields(3) [OF d(2)] .
  ultimately show "agree_but h w'"
    using ag d(1) by (auto simp: agree_but_def agree_def stored_def without_hash_def)
  show "piece_rows w' (h, i) = None" for i using d(1) by (simp add: without_hash_def)
qed

lemma Delete_covers:
  fixes w w' :: world
  assumes inv: "db_inv w" and co: "covers w" and run: "Delete c h w = (r, w')"
  shows "covers w'" and "r = Ok x \<Longrightarrow> covers (Forget h w')"
proof -
  have d: "piece_rows w' = piece_rows w \<or> piece_rows w' = without_hash h (piece_rows w)" "outer w' = outer w"
    "r = Ok x \<Longrightarrow> piece_rows w' = without_hash h (piece_rows w)"
    using Delete_effect [OF inv run, of c] by (cases r; auto)+
  have can: "canonical_pieces w'" using Delete_table [OF run] co by (simp add: covers_def)
  have cache: "piece_cache w' = piece_cache w" using outer_fields(3) [OF d(2)] .
  have "stored w' \<subseteq>\<^sub>m stored w" using d(1) by (auto simp: map_le_def stored_def without_hash_def dom_def split: if_splits)
  then have le: "stored w' \<subseteq>\<^sub>m piece_cache w'" using co cache map_le_trans unfolding covers_def by metis
  then show "covers w'" using can by (simp add: covers_def)
  assume ok: "r = Ok x"
  have "piece_cache (Forget h w') pk = piece_cache w' pk" if "stored w' pk \<noteq> None" for pk
    using that d(3) [OF ok] by (auto simp: stored_def without_hash_def Forget_def split: if_splits)
  moreover have "stored (Forget h w') = stored w'" by (rule ext) (simp add: stored_def)
  ultimately have "stored (Forget h w') \<subseteq>\<^sub>m piece_cache (Forget h w')" using le by (auto simp: map_le_def dom_def)
  then show "covers (Forget h w')" using can by (simp add: covers_def canonical_pieces_def Forget_def)
qed

text \<open>The contract of the orchestration layer, for either relation of the cache and the piece table.\<close>

lemma service_contract:
  assumes P: "cache_relation P"
    and del: "\<And>c h x w w'. db_inv w \<Longrightarrow> P w \<Longrightarrow> Delete c h w = (Ok x, w') \<Longrightarrow> P (Forget h w')"
  shows "torrent_service (service load dir) db_inv rows rest outer piece_rows healthy lib_inv lib_live magnet_hash P"
proof (rule torrent_service.intro, unfold service_simps)
  show "torrent_store db_inv rows rest outer piece_rows healthy Create Get List Delete SetMetadata
      SetBytesCompleted SetPaused" ..
next
  show "torrent_service_axioms (service load dir) db_inv rows rest outer piece_rows healthy
      lib_inv lib_live magnet_hash P"
  proof (rule torrent_service_axioms.intro, unfold service_simps)
    fix w w' :: world and k :: hash and h uri bytes :: string and c c' :: ctx and b :: bool
      and ra :: "string res" and ru :: "unit res" and err x
    show "lib_live w' = lib_live w \<and> lib_inv w' = lib_inv w \<and> magnet_hash w' = magnet_hash w"
      if "outer w' = outer w"
      using outer_fields [OF that] lib_live_eq [OF outer_fields(1) [OF that]]
      by (simp add: lib_inv_def magnet_hash_def [abs_def])
    show "P w' = P w" if "rest w' = rest w"
      using rest_fields [OF that] P unfolding cache_relation_def by blast
    show "lib_inv w \<Longrightarrow> lib_live w k \<noteq> None \<Longrightarrow> wf_hash k"
      by (auto simp: lib_inv_def lib_live_def)
    show "eng_Snapshot (lib_engine load dir) h w =
        (case FromHexString h of
           Inl err \<Rightarrow> Inl (Errorf (''invalid info hash '' @ go_quote h @ '': '') err [])
         | Inr k \<Rightarrow> (case lib_live w k of
                     None \<Rightarrow> Inl (Sentinel EngNotFound)
                   | Some p \<Rightarrow> Inr (p\<lparr>pr_InfoHash := h\<rparr>)))"
      using lib.Snapshot_live [of load dir h w] unfolding lib_engine_simps live_of_lib .
    show "db_inv w' \<and> lib_inv w' \<and> rows w' = rows w \<and> magnet_hash w' = magnet_hash w \<and>
        (healthy c' w \<longrightarrow> healthy c' w') \<and> (P w \<longrightarrow> P w') \<and>
        (\<exists>k. only_torrent lib_live k w w' \<and> (case ra of
           Ok h \<Rightarrow> h = HexString k \<and> wf_hash k \<and> lib_live w' k \<noteq> None \<and> magnet_hash w uri = Some k
         | Err e \<Rightarrow> lib_live w' = lib_live w \<or> magnet_hash w uri = Some k \<and> lib_live w' k = None
         | Panic p \<Rightarrow> True | Hang \<Rightarrow> True))"
      if ok: "db_inv w" "lib_inv w" and run: "eng_AddMagnet (lib_engine load dir) c uri w = (ra, w')"
    proof (rule touch_service [OF ok P])
      fix P
      assume "lib_ok P w"
      from lib.AddMagnet_effect [OF this run]
      show "\<exists>k. lib.touch load dir P k w w' \<and> (case ra of
           Ok h \<Rightarrow> h = HexString k \<and> wf_hash k \<and> lib_live w' k \<noteq> None \<and> magnet_hash w uri = Some k
         | Err e \<Rightarrow> lib_live w' = lib_live w \<or> magnet_hash w uri = Some k \<and> lib_live w' k = None
         | Panic p \<Rightarrow> True | Hang \<Rightarrow> True)"
        by (auto simp: kept_magnet_keep split: res.splits)
    qed
    show "db_inv w' \<and> lib_inv w' \<and> rows w' = rows w \<and> magnet_hash w' = magnet_hash w \<and>
        (healthy c' w \<longrightarrow> healthy c' w') \<and> (P w \<longrightarrow> P w') \<and>
        (\<exists>k. only_torrent lib_live k w w' \<and>
           (\<forall>h. ra = Ok h \<longrightarrow> h = HexString k \<and> wf_hash k \<and> lib_live w' k \<noteq> None))"
      if ok: "db_inv w" "lib_inv w" and run: "eng_AddFile (lib_engine load dir) c bytes w = (ra, w')"
    proof (rule touch_service [OF ok P])
      fix P
      assume "lib_ok P w"
      from lib.AddFile_effect [OF this run]
      show "\<exists>k. lib.touch load dir P k w w' \<and>
          (\<forall>h. ra = Ok h \<longrightarrow> h = HexString k \<and> wf_hash k \<and> lib_live w' k \<noteq> None)"
        by (cases ra) auto
    qed
    show "magnet_hash w (''magnet:?xt=urn:btih:'' @ HexString k) = Some k"
      if inv: "lib_inv w" and tr: "lib_live w k \<noteq> None"
    proof -
      have "wf_hash k" using inv tr by (auto simp: lib_inv_def lib_live_def)
      then show ?thesis unfolding magnet_hash_def by (simp add: TorrentSpec_stored del: append_Cons)
    qed
    show "FromHexString h = Inl err \<Longrightarrow> eng_Remove (lib_engine load dir) c h b w =
        (Err (Errorf (''invalid info hash '' @ go_quote h @ '': '') err []), w)"
      by (simp add: eng_Remove_def find_def)
    show "FromHexString h = Inr k \<Longrightarrow> lib_live w k = None \<Longrightarrow>
        eng_Remove (lib_engine load dir) c h b w = (Err (Sentinel EngNotFound), w)"
      using lib.Remove_untracked [of h k load dir w c b] by simp
    show "db_inv w' \<and> lib_inv w' \<and> rows w' = rows w \<and> piece_rows w' = piece_rows w \<and>
        magnet_hash w' = magnet_hash w \<and> (healthy c' w \<longrightarrow> healthy c' w') \<and> (P w \<longrightarrow> P w') \<and> returns ru \<and>
        lib_live w' = (lib_live w)(k := None) \<and> (\<forall>e. ru = Err e \<longrightarrow> \<not> errors_is e EngNotFound) \<and>
        (\<not> b \<longrightarrow> ru = Ok ())"
      if ok: "db_inv w" "lib_inv w" and h: "FromHexString h = Inr k" and tr: "lib_live w k \<noteq> None"
        and run: "eng_Remove (lib_engine load dir) c h b w = (ru, w')"
    proof -
      have tr': "live_of (client (lib_engine load dir)) w k \<noteq> None" using tr by simp
      have o: "lib_ok (\<lambda>_. True) w" using ok by (simp add: lib_ok_def)
      note f = lib.Remove_tracked [OF o h tr' run]
      have "P w \<longrightarrow> P w'"
        using lib.Remove_tracked [OF _ h tr' run, of P] ok P by (auto simp: lib_ok_def)
      moreover have "piece_rows w' = piece_rows w" using f by (simp add: piece_rows_def [abs_def])
      ultimately show ?thesis using f keep_rows [of w' w] by (auto simp: lib_ok_def)
    qed
    show "rows (Forget h w) = rows w \<and> lib_live (Forget h w) = lib_live w \<and> db_inv (Forget h w) = db_inv w \<and>
        lib_inv (Forget h w) = lib_inv w \<and> piece_rows (Forget h w) = piece_rows w \<and>
        magnet_hash (Forget h w) = magnet_hash w"
    proof -
      have "torrentsByShortHash (Forget h w) = torrentsByShortHash w" "env_magnet (Forget h w) = env_magnet w"
        by (simp_all add: Forget_def)
      then show ?thesis
        using lib_live_eq [of "Forget h w" w] by (simp add: lib_inv_def magnet_hash_def [abs_def])
    qed
    show "db_inv w \<Longrightarrow> P w \<Longrightarrow> Delete c h w = (Ok x, w') \<Longrightarrow> P (Forget h w')"
      by (rule del)
  qed
qed

interpretation svc: torrent_service "service load dir" db_inv rows rest outer piece_rows healthy
  lib_inv lib_live magnet_hash agree for load dir
  by (rule service_contract [OF cache_relations(1)]) (rule Delete_agree_but)

interpretation sys: covering_service "service load dir" db_inv rows rest outer piece_rows healthy
  lib_inv lib_live magnet_hash covers for load dir
proof (rule covering_service.intro)
  show "torrent_service (service load dir) db_inv rows rest outer piece_rows healthy lib_inv lib_live magnet_hash covers"
    by (rule service_contract [OF cache_relations(2)]) (simp add: Delete_covers(2))
  show "covering_service_axioms (service load dir) db_inv covers"
    by (rule covering_service_axioms.intro) (simp add: Delete_covers(1))
qed

end
