(* ===== verification/Samples.thy ===== *)
theory Samples
  imports System
begin

text \<open>
  Concrete worlds the witnesses evaluate: an empty server, one with a running torrent, one with a
  paused one. The environment delivers the
  same info for every torrent, and fails nowhere.
\<close>

definition btih_env :: link_env where
  "btih_env = \<lparr>le_authority = (\<lambda>_. None), le_multihash = (\<lambda>_. Inl (ErrorString ''multihash too short''))\<rparr>"

definition no_load :: "string \<Rightarrow> go_error + MetaInfo" where
  "no_load bytes = Inl (ErrorString ''EOF'')"

definition io_error :: go_error where
  "io_error = ErrorString ''input/output error''"

definition noon :: utc where
  "noon = \<lparr>year = 2024, month = 5, day = 17, hour = 12, minute = 0, second = 0, nanos = 0\<rparr>"

definition sample_info :: Info where
  "sample_info =
     \<lparr>PieceLength = 4, Pieces = replicate 40 (CHR ''x''), info_Name = ''film'', NameUtf8 = [],
      info_Length = 7, Files = None, MetaVersion = 0,
      info_FileTree = \<lparr>ft_IsDir = False, ft_upvertedFiles = (\<lambda>_. Some []), ft_walkLengths = []\<rparr>\<rparr>"

definition hash_a :: hash where
  "hash_a = replicate 20 (CHR ''a'')"

definition hash_b :: hash where
  "hash_b = replicate 20 (CHR ''b'')"

definition hex_a :: string where
  "hex_a = HexString hash_a"

definition magnet_a :: string where
  "magnet_a = ''magnet:?xt=urn:btih:'' @ hex_a"

definition empty_world :: world where
  "empty_world =
     \<lparr>tick = 0, fault = (\<lambda>_. None), now_at = (\<lambda>_. noon), parse_general = (\<lambda>_. Inl (ErrorString ''parsing time'')),
      torrent_tbl = [], piece_tbl = [], piece_cache = (\<lambda>_. None), torrentsByShortHash = (\<lambda>_. None),
      disk = [], env_magnet = btih_env, env_open = (\<lambda>_. None), env_initial = (\<lambda>_ _. []),
      env_arrival = (\<lambda>_ _. Some (0, sample_info)), env_select = (\<lambda>_. False), env_verify = (\<lambda>_. None),
      env_hash = (\<lambda>_ _ _. True), env_rm = (\<lambda>_. None), env_sha256 = (\<lambda>_. [])\<rparr>"

definition row_a :: "bool \<Rightarrow> torrent_row" where
  "row_a paused =
     \<lparr>info_hash = hex_a, magnet = magnet_a, label = ''films'', target_dir = ''/data'',
      is_paused = paused, name = ''film'', length' = 7, bytes_completed = 4,
      created_at = formatTime noon, updated_at = formatTime noon\<rparr>"

definition torrent_a :: lib_torrent where
  "torrent_a = new_torrent\<lparr>lt_info := Some sample_info, lt_completed := (\<lambda>i. i = 0), lt_wanted := True\<rparr>"

definition running_world :: world where
  "running_world = empty_world
     \<lparr>torrent_tbl := [row_a False],
      piece_tbl := [\<lparr>p_info_hash = hex_a, piece_index = 0, complete = True\<rparr>],
      piece_cache := (\<lambda>_. None)((hash_a, 0) \<mapsto> True),
      torrentsByShortHash := (\<lambda>_. None)(hash_a \<mapsto> torrent_a)\<rparr>"

definition paused_world :: world where
  "paused_world = empty_world
     \<lparr>torrent_tbl := [row_a True],
      piece_tbl := [\<lparr>p_info_hash = hex_a, piece_index = 0, complete = True\<rparr>],
      piece_cache := (\<lambda>_. None)((hash_a, 0) \<mapsto> True)\<rparr>"

lemma wf_sample [simp]: "wf_hash hash_a" "wf_hash hash_b"
  by (simp_all add: wf_hash_def hash_a_def hash_b_def Size_def)

lemma nonzero_sample [simp]: "\<not> IsZero hash_a" "\<not> IsZero hash_b" "hash_a \<noteq> hash_b"
  by (simp_all add: IsZero_def hash_a_def hash_b_def Size_def)

lemma FromHexString_sample [simp]: "FromHexString hex_a = Inr hash_a"
  by (simp add: hex_a_def FromHexString_HexString)

lemma valid_noon [simp]: "valid_utc noon"
  by (simp add: noon_def valid_utc_def days_in_def is_leap_def)

lemma lib_inv_sample:
  assumes "\<And>k. torrentsByShortHash w k \<noteq> None \<Longrightarrow> k = hash_a"
  shows "lib_inv w"
  unfolding lib_inv_def using assms by fastforce

lemma lib_inv_samples [simp]: "lib_inv empty_world" "lib_inv running_world" "lib_inv paused_world"
  by (rule lib_inv_sample;
      simp add: empty_world_def running_world_def paused_world_def split: if_splits)+

lemma good_row_a: "good_row (row_a p)"
  unfolding good_row_def by (rule exI [of _ noon], rule exI [of _ noon]) (simp add: row_a_def)

lemma db_inv_samples [simp]: "db_inv empty_world" "db_inv running_world" "db_inv paused_world"
  by (simp_all add: db_inv_def empty_world_def running_world_def paused_world_def good_row_a)

lemma healthy_samples [simp]:
  "healthy background empty_world" "healthy background running_world" "healthy background paused_world"
  by (simp_all add: healthy_def empty_world_def running_world_def paused_world_def)

lemma agree_samples [simp]: "agree empty_world" "agree running_world" "agree paused_world"
proof -
  have canon: "\<exists>h. wf_hash h \<and> hex_a = HexString h" by (rule exI [of _ hash_a]) (simp add: hex_a_def)
  show "agree empty_world"
    by (simp add: agree_def canonical_pieces_def empty_world_def fun_eq_iff stored_def piece_rows_def)
  show "agree running_world" "agree paused_world"
    by (auto simp: agree_def canonical_pieces_def running_world_def paused_world_def empty_world_def canon
        stored_def piece_rows_def piece_pk_def hex_a_def fun_eq_iff)
qed

text \<open>The torrents of the two worlds as the repository returns them.\<close>

definition db_a :: "bool \<Rightarrow> db_torrent" where
  "db_a paused =
     \<lparr>db_InfoHash = hex_a, db_Magnet = magnet_a, db_Label = ''films'', db_TargetDir = ''/data'',
      db_Paused = paused, db_Name = ''film'', db_Length = 7, db_BytesCompleted = 4,
      db_CreatedAt = noon, db_UpdatedAt = noon\<rparr>"

lemma rows_samples [simp]:
  "rows empty_world h = None"
  "rows running_world h = (if h = hex_a then Some (db_a False) else None)"
  "rows paused_world h = (if h = hex_a then Some (db_a True) else None)"
  by (auto simp: rows_def parsed_def select_torrent_def empty_world_def running_world_def paused_world_def
      row_a_def row_torrent_def parseTimestamps_formatTime db_a_def)

lemma live_samples [simp]:
  "lib_live empty_world k = None" "lib_live paused_world k = None"
  "lib_live running_world k = (if k = hash_a then Some (progress_of hash_a torrent_a) else None)"
  by (simp_all add: lib_live_def empty_world_def running_world_def paused_world_def)

lemma magnet_hash_samples [simp]:
  "magnet_hash empty_world magnet_a = Some hash_a" "magnet_hash running_world magnet_a = Some hash_a"
  "magnet_hash paused_world magnet_a = Some hash_a"
  unfolding magnet_hash_def magnet_a_def hex_a_def empty_world_def running_world_def paused_world_def
  by (simp_all add: TorrentSpec_stored del: append_Cons)

lemma well_keyed_samples [simp]:
  "well_keyed rows magnet_hash empty_world" "well_keyed rows magnet_hash running_world"
  "well_keyed rows magnet_hash paused_world"
proof -
  have "\<exists>k. wf_hash k \<and> hex_a = HexString k \<and> hash_a = k" by (simp add: hex_a_def)
  then show "well_keyed rows magnet_hash empty_world" "well_keyed rows magnet_hash running_world"
    "well_keyed rows magnet_hash paused_world"
    by (simp_all add: well_keyed_def db_a_def)
qed

section \<open>The sample environment at work\<close>

text \<open>An \<open>AddMagnet\<close> in a world with the sample environment and no torrent of that hash running ends
  with the torrent running, or with the verification error the environment reports.\<close>

lemma lib_name_a [simp]: "lib_name hash_a (t\<lparr>lt_info := Some sample_info\<rparr>) = ''film''"
  by (simp add: lib_name_def sample_info_def BestName_def)

lemma validate_sample: "validateInfo sample_info = None"
  by (simp add: validateInfo_def sample_info_def TotalLength_def UpvertedFiles_def HasV2_def UpvertedV1Files_def
      files_of_def NumPieces_def signed_divide_int_def div64_def i64_nonneg)

lemma sample_no_panic [simp]: "\<not> UpvertedFiles_panics sample_info"
  by (simp add: UpvertedFiles_panics_def HasV2_def sample_info_def)

definition sample_env :: "world \<Rightarrow> bool" where
  "sample_env w \<longleftrightarrow> env_magnet w = btih_env \<and> torrentsByShortHash w hash_a = None \<and>
     env_open w = (\<lambda>_. None) \<and> env_initial w = (\<lambda>_ _. []) \<and> env_arrival w = (\<lambda>_ _. Some (0, sample_info)) \<and>
     env_select w = (\<lambda>_. False)"

lemma magnet_a_env: "\<exists>spec. spec_of env magnet_a = Ok spec \<and> ts_InfoHash spec = hash_a \<and> ts_DisplayName spec = []"
  unfolding magnet_a_def hex_a_def by (simp add: TorrentSpec_stored del: append_Cons)

lemma lib_AddMagnet_sample:
  assumes "sample_env w"
  shows "lib_AddMagnet magnet_a w =
    (Ok hash_a, w\<lparr>torrentsByShortHash := (torrentsByShortHash w)(hash_a \<mapsto> new_torrent)\<rparr>)"
  using assms magnet_a_env [of "env_magnet w"]
  by (auto simp: lib_AddMagnet_def sample_env_def AddTorrentSpec_def AddTorrentOpt_def MergeSpec_def lib_addPieceLayers_def
      new_torrent_def Let_def)

lemma lib_select_sample:
  assumes "torrentsByShortHash w hash_a = Some new_torrent" "env_open w = (\<lambda>_. None)"
    "env_initial w = (\<lambda>_ _. [])" "env_arrival w = (\<lambda>_ _. Some (0, sample_info))"
  shows "\<exists>w'. lib_select background hash_a w = (GotInfo, w') \<and> env_verify w' = env_verify w \<and>
    (\<exists>t. torrentsByShortHash w' hash_a = Some t \<and> lt_info t = Some sample_info)"
  using assms
  by (simp add: lib_select_def lib_setInfo_def validate_sample new_torrent_def set_torrent_def Let_def tock_def)

lemma NumPieces_sample: "[0..NumPieces sample_info - 1] = [0, 1]"
  by (simp add: NumPieces_def sample_info_def HasV2_def signed_divide_int_def upto.simps)

lemma env_verify_piece [simp]:
  "env_verify (pieceHashed k i b w) = env_verify w" "env_verify (tock w) = env_verify w"
proof -
  obtain r v where ps: "piece_Set (k, i) b w = (r, v)" by force
  then have "env_verify v = env_verify w"
    by (cases rule: piece_Set_cases) (simp_all add: tock_def)
  with ps show "env_verify (pieceHashed k i b w) = env_verify w"
    by (simp add: pieceHashed_def set_torrent_def)
  show "env_verify (tock w) = env_verify w" by (simp add: tock_def)
qed

lemma AddMagnet_sample:
  assumes "sample_env w"
  shows "env_verify w = (\<lambda>_. None) \<Longrightarrow> \<exists>v. eng_AddMagnet (lib_engine load dir) background magnet_a w = (Ok hex_a, v)"
    and "env_verify w = (\<lambda>_. Some e) \<Longrightarrow> \<exists>d v. eng_AddMagnet (lib_engine load dir) background magnet_a w = (Err d, v)"
proof -
  let ?w1 = "w\<lparr>torrentsByShortHash := (torrentsByShortHash w)(hash_a \<mapsto> new_torrent)\<rparr>"
  obtain w2 t where sel: "lib_select background hash_a ?w1 = (GotInfo, w2)" "env_verify w2 = env_verify w"
    and t: "torrentsByShortHash w2 hash_a = Some t" "lt_info t = Some sample_info"
    using lib_select_sample [of ?w1] assms by (auto simp: sample_env_def)
  note run = lib_AddMagnet_sample [OF assms] sel t
  show "env_verify w = (\<lambda>_. None) \<Longrightarrow> \<exists>v. eng_AddMagnet (lib_engine load dir) background magnet_a w = (Ok hex_a, v)"
    using run by (simp add: eng_AddMagnet_def start_def lib_VerifyDataContext_def NumPieces_sample hex_a_def Let_def)
  show "env_verify w = (\<lambda>_. Some e) \<Longrightarrow> \<exists>d v. eng_AddMagnet (lib_engine load dir) background magnet_a w = (Err d, v)"
    using run by (simp add: eng_AddMagnet_def start_def lib_VerifyDataContext_def NumPieces_sample Let_def)
qed

lemma sample_env_worlds [simp]: "sample_env empty_world" "sample_env paused_world"
  by (simp_all add: sample_env_def empty_world_def paused_world_def)

lemma env_verify_worlds [simp]: "env_verify empty_world = (\<lambda>_. None)" "env_verify paused_world = (\<lambda>_. None)"
  by (simp_all add: empty_world_def paused_world_def)

text \<open>A paused torrent whose data cannot be read back.\<close>

definition unreadable_world :: world where
  "unreadable_world = paused_world\<lparr>env_verify := (\<lambda>_. Some io_error)\<rparr>"

lemma unreadable_simps [simp]:
  "db_inv unreadable_world" "lib_inv unreadable_world" "healthy background unreadable_world"
  "rows unreadable_world = rows paused_world" "sample_env unreadable_world"
  "env_verify unreadable_world = (\<lambda>_. Some io_error)"
proof -
  let ?v = "\<lambda>_ :: nat. Some io_error"
  show "db_inv unreadable_world" using db_inv_samples(3) by (simp add: unreadable_world_def db_inv_def)
  show "lib_inv unreadable_world" using lib_inv_samples(3) unfolding unreadable_world_def lib_inv_def by simp
  show "healthy background unreadable_world"
    using healthy_samples(3) by (simp add: unreadable_world_def healthy_def)
  show "rows unreadable_world = rows paused_world"
    unfolding unreadable_world_def by (rule ext) (simp only: rows_def select_torrent_def, simp)
  show "sample_env unreadable_world" using sample_env_worlds(2) by (simp add: unreadable_world_def sample_env_def)
  show "env_verify unreadable_world = ?v" by (simp add: unreadable_world_def)
qed

lemma rest_env:
  fixes w w' :: world
  assumes "rest w' = rest w"
  shows "sample_env w' = sample_env w" "env_verify w' = env_verify w"
  using assms by (cases w; cases w'; simp add: rest_def sample_env_def)+

lemma Resume_sample:
  "\<exists>w'. svc_Resume (service load dir) background hex_a paused_world = (Ok (), w')"
  "\<exists>err w'. svc_Resume (service load dir) background hex_a unreadable_world = (Err err, w')"
proof -
  have m: "db_Magnet (db_a True) = magnet_a" by (simp add: db_a_def)
  have r: "rows paused_world hex_a = Some (db_a True)" "rows unreadable_world hex_a = Some (db_a True)" by simp_all
  show "\<exists>w'. svc_Resume (service load dir) background hex_a paused_world = (Ok (), w')"
  proof (rule svc.Resume_prefix [OF db_inv_samples(3) lib_inv_samples(3) healthy_samples(3) r(1), of load dir])
    fix x u
    assume pre: "svc_Resume (service load dir) background hex_a paused_world =
        call (te_AddMagnet (engine (service load dir)) background (db_Magnet (db_a True)) x)
          (persistMetadata (service load dir) background)
          (\<lambda>err w. let failed = Err (Errorf ''failed to re-add torrent to engine: '' err []) in
             call (tr_SetPaused (torrents (service load dir)) background hex_a True w)
               (\<lambda>_ w. (failed, w)) (\<lambda>rollbackErr w. (failed, w)))"
      and x: "db_inv x" "lib_inv x" "rest x = rest paused_world"
    obtain v where add: "eng_AddMagnet (lib_engine load dir) background magnet_a x = (Ok hex_a, v)"
      using AddMagnet_sample(1) [of x] rest_env [OF x(3)] by auto
    have "db_inv v" "lib_inv v" using svc.add_magnet_law [OF x(1,2), of load dir background magnet_a] add by auto
    then obtain w' where "persistMetadata (service load dir) background hex_a v = (Ok (), w')"
      using svc.persistMetadata_same by (metis surj_pair)
    with pre add m show ?thesis by simp
  qed
  show "\<exists>err w'. svc_Resume (service load dir) background hex_a unreadable_world = (Err err, w')"
  proof (rule svc.Resume_prefix [OF unreadable_simps(1-3) r(2), of load dir])
    fix x u
    assume pre: "svc_Resume (service load dir) background hex_a unreadable_world =
        call (te_AddMagnet (engine (service load dir)) background (db_Magnet (db_a True)) x)
          (persistMetadata (service load dir) background)
          (\<lambda>err w. let failed = Err (Errorf ''failed to re-add torrent to engine: '' err []) in
             call (tr_SetPaused (torrents (service load dir)) background hex_a True w)
               (\<lambda>_ w. (failed, w)) (\<lambda>rollbackErr w. (failed, w)))"
      and x: "db_inv x" "lib_inv x" "rest x = rest unreadable_world"
    obtain d v where add: "eng_AddMagnet (lib_engine load dir) background magnet_a x = (Err d, v)"
      using AddMagnet_sample(2) [of x io_error load dir] rest_env [OF x(3)] by auto
    obtain rb z where sp: "SetPaused background hex_a True v = (rb, z)" by force
    have "returns rb" using set_paused.upd_returns [OF sp] .
    then show ?thesis using pre add m sp by (cases rule: returnsE) (simp_all add: Let_def)
  qed
qed

end
