(* ===== verification/SystemSteps.thy ===== *)
theory SystemSteps
  imports Samples
begin

text \<open>
  The server as a state machine. A step is one call of a service method with its outcome, whatever
  it is, or one event outside the program's control: a piece was hashed, the metainfo of a torrent
  arrived, its peers changed, time passed, the process was restarted. Every state reachable from a
  consistent one satisfies the invariant of the system. A restart whose \<open>Load\<close> fails is no step: \<open>Run\<close>
  returns the error then and serves nothing.
\<close>

section \<open>Steps\<close>

text \<open>A restart: the client starts empty, the piece repository is new and loads its table.\<close>

definition restarted :: "ctx \<Rightarrow> world \<Rightarrow> unit res \<times> world" where
  "restarted c w = Load c (NewPieceRepository (w\<lparr>torrentsByShortHash := (\<lambda>_. None)\<rparr>))"

inductive sys_step :: "(string \<Rightarrow> go_error + MetaInfo) \<Rightarrow> string \<Rightarrow> world \<Rightarrow> world \<Rightarrow> bool" for load dir where
  add_magnet: "svc_AddMagnet (service load dir) c uri opts w = (ra, w') \<Longrightarrow> sys_step load dir w w'"
| add_file: "svc_AddFile (service load dir) c bytes opts w = (ra, w') \<Longrightarrow> sys_step load dir w w'"
| get: "svc_Get (service load dir) c h w = (ra, w') \<Longrightarrow> sys_step load dir w w'"
| list: "svc_List (service load dir) c w = (rl, w') \<Longrightarrow> sys_step load dir w w'"
| files: "svc_Files (service load dir) c h w = (rf, w') \<Longrightarrow> sys_step load dir w w'"
| remove: "svc_Remove (service load dir) c h b w = (ru, w') \<Longrightarrow> sys_step load dir w w'"
| pause: "svc_Pause (service load dir) c h w = (ru, w') \<Longrightarrow> sys_step load dir w w'"
| resume: "svc_Resume (service load dir) c h w = (ru, w') \<Longrightarrow> sys_step load dir w w'"
| restore: "Restore tick (service load dir) c w = (ru, w') \<Longrightarrow> sys_step load dir w w'"
| hashed: "torrentsByShortHash w k \<noteq> None \<Longrightarrow> sys_step load dir w (pieceHashed k i b w)"
| arrived: "torrentsByShortHash w k \<noteq> None \<Longrightarrow> lib_setInfo k info w = (ru, w') \<Longrightarrow> sys_step load dir w w'"
| peers: "sys_step load dir w (set_torrent k (\<lambda>t. t\<lparr>lt_conns := n, lt_seeders := m, lt_dirty := d\<rparr>) w)"
| time: "tick w \<le> n \<Longrightarrow> sys_step load dir w (w\<lparr>tick := n\<rparr>)"
| restart: "restarted c w = (Ok (), w') \<Longrightarrow> sys_step load dir w w'"

inductive reachable :: "(string \<Rightarrow> go_error + MetaInfo) \<Rightarrow> string \<Rightarrow> world \<Rightarrow> world \<Rightarrow> bool" for load dir w0 where
  start: "reachable load dir w0 w0"
| step: "reachable load dir w0 w \<Longrightarrow> sys_step load dir w w' \<Longrightarrow> reachable load dir w0 w'"

section \<open>The invariant\<close>

definition sys_inv :: "world \<Rightarrow> bool" where
  "sys_inv w \<longleftrightarrow> db_inv w \<and> lib_inv w \<and> canonical_keys rows w \<and> covers w"

lemma sys_inv_system: "sys.system w = sys_inv w"
  by (simp add: sys.system_def sys_inv_def)

text \<open>An event on one torrent that keeps the torrent table keeps the invariant.\<close>

lemma sys_inv_event:
  assumes "sys_inv w" "torrentsByShortHash w k \<noteq> None" "lib_frame k w w'"
  shows "sys_inv w'"
proof -
  have k: "wf_hash k" "\<not> IsZero k" using assms(1,2) by (auto simp: sys_inv_def lib_inv_def)
  have "lib_ok covers w" using assms(1) by (simp add: sys_inv_def lib_ok_def)
  from frame_ok [OF assms(3) this k(1)] k(2) have "lib_ok covers w'" by blast
  moreover have "rows w' = rows w" using keep_rows frame_keep [OF assms(3)] by blast
  ultimately show ?thesis using assms(1) cache_relations(2) by (simp add: sys_inv_def lib_ok_def canonical_keys_def)
qed

lemma sys_inv_time:
  assumes "sys_inv w"
  shows "sys_inv (w\<lparr>tick := n\<rparr>)"
proof -
  have "rows (w\<lparr>tick := n\<rparr>) = rows w" by (simp add: rows_def [abs_def] select_torrent_def)
  moreover have "db_inv (w\<lparr>tick := n\<rparr>) = db_inv w" by (rule db_inv_cong) simp_all
  moreover have "covers (w\<lparr>tick := n\<rparr>) = covers w" by (rule agree_cong(2)) simp_all
  ultimately show ?thesis using assms by (simp add: sys_inv_def lib_inv_def canonical_keys_def)
qed

lemma NewPieceRepository_fields [simp]:
  "torrent_tbl (NewPieceRepository w) = torrent_tbl w" "piece_tbl (NewPieceRepository w) = piece_tbl w"
  "now_at (NewPieceRepository w) = now_at w" "parse_general (NewPieceRepository w) = parse_general w"
  "piece_world.more (NewPieceRepository w) = piece_world.more w"
  by (simp_all add: NewPieceRepository_def)

lemma Load_world:
  fixes w w' :: world
  assumes "Load c w = (r, w')"
  shows "torrentsByShortHash w' = torrentsByShortHash w"
proof -
  have tk: "torrentsByShortHash ((tock ^^ n) v) = torrentsByShortHash v" for n and v :: world
    by (induction n) auto
  consider "w' = tock w"
    | r' v m where "scan_rows c ''failed to scan piece completion row: '' load_row (piece_tbl w) [] (tock w) = (r', v)"
        "w' = v \<or> w' = v\<lparr>piece_cache := m\<rparr>"
    using assms by (auto simp: Load_def QueryContext_def select_pieces_def split: call_splits option.splits prod.splits)
  then have "\<exists>n m. w' = (tock ^^ n) (tock w) \<or> w' = ((tock ^^ n) (tock w))\<lparr>piece_cache := m\<rparr> \<or> w' = tock w"
    using scan_rows_tick by cases blast+
  then show ?thesis using tk by (auto simp del: funpow.simps)
qed

lemma sys_inv_restart:
  assumes "sys_inv w" "restarted c w = (Ok (), w')"
  shows "sys_inv w'"
proof -
  let ?v = "NewPieceRepository (w\<lparr>torrentsByShortHash := (\<lambda>_. None)\<rparr>)"
  have load: "Load c ?v = (Ok (), w')" using assms(2) by (simp add: restarted_def)
  have v: "torrentsByShortHash ?v = (\<lambda>_. None)" by (simp add: NewPieceRepository_def)
  have db: "db_inv ?v" using assms(1) db_inv_cong [of ?v w] by (simp add: sys_inv_def)
  have can: "canonical_pieces ?v" using assms(1) by (simp add: sys_inv_def covers_def canonical_pieces_def)
  have "rows ?v = rows w" by (simp add: rows_def [abs_def] select_torrent_def)
  with Load_Ok [OF db can load] Load_world [OF load] v agree_covers [of w'] assms(1) show ?thesis
    by (simp add: sys_inv_def lib_inv_def canonical_keys_def)
qed

lemma sys_inv_peers:
  assumes "sys_inv w"
  shows "sys_inv (set_torrent k f w)"
proof (cases "torrentsByShortHash w k")
  case None
  then have "set_torrent k f w = w" by (simp add: set_torrent_def fun_upd_idem)
  with assms show ?thesis by simp
next
  case (Some t)
  then have "torrentsByShortHash w k \<noteq> None" by simp
  from sys_inv_event [OF assms this frame_set_torrent] show ?thesis .
qed

lemma sys_inv_step: "sys_step load dir w w' \<Longrightarrow> sys_inv w \<Longrightarrow> sys_inv w'"
proof (induction rule: sys_step.induct)
  case (add_magnet c uri opts w ra w')
  then show ?case using sys.system_AddMagnet by (metis sys_inv_system)
next
  case (add_file c bytes opts w ra w')
  then show ?case using sys.system_AddFile by (metis sys_inv_system)
next
  case (get c h w ra w')
  then show ?case using sys.system_Get by (metis sys_inv_system)
next
  case (list c w rl w')
  then show ?case using sys.system_reads by (metis sys_inv_system)
next
  case (files c h w rf w')
  then show ?case using sys.system_reads by (metis sys_inv_system)
next
  case (remove c h b w ru w')
  then show ?case using sys.system_Remove by (metis sys_inv_system)
next
  case (pause c h w ru w')
  then show ?case using sys.system_Pause by (metis sys_inv_system)
next
  case (resume c h w ru w')
  then show ?case using sys.system_Resume by (metis sys_inv_system)
next
  case (restore c w ru w')
  then show ?case using sys.system_Restore by (metis sys_inv_system)
next
  case (hashed w k i b)
  then show ?case using sys_inv_event frame_pieceHashed(1) by blast
next
  case (arrived w k info ru w')
  then show ?case using sys_inv_event frame_setInfo by blast
next
  case (peers w k d m n)
  then show ?case by (rule sys_inv_peers)
next
  case (time w n)
  then show ?case using sys_inv_time by blast
next
  case (restart c w w')
  then show ?case using sys_inv_restart by blast
qed

text \<open>C4: In every state the server can reach from a consistent one, such as a fresh database, through any sequence
  of requests and outside events, with any failures in between: the tables are consistent (unique keys,
  readable timestamps), the client tracks only well-formed non-zero hashes, every managed torrent is
  filed under the canonical spelling of a hash, every recorded piece belongs to such a spelling, and
  what the table records of a piece is what the cache answers.\<close>

theorem reachable_sys_inv:
  assumes "reachable load dir w0 w" "sys_inv w0"
  shows "db_inv w \<and> lib_inv w \<and> canonical_keys rows w \<and> canonical_pieces w \<and>
    (\<forall>k i b. wf_hash k \<longrightarrow> piece_rows w (HexString k, i) = Some b \<longrightarrow> piece_cache w (k, i) = Some b)"
proof -
  have "sys_inv w" using assms by (induction rule: reachable.induct) (auto dest: sys_inv_step)
  then show ?thesis unfolding sys_inv_def covers_def map_le_def dom_def stored_def by auto
qed

text \<open>A witness: the sample torrent is added to an empty server, and its first piece is hashed again and found
  bad. The record of it is in the table, and so in the cache.\<close>

lemma added_sample:
  "\<exists>t w. svc_AddMagnet (service load dir) background magnet_a opts empty_world = (Ok t, w) \<and>
    torrentsByShortHash w hash_a \<noteq> None \<and> rows w hex_a \<noteq> None \<and> healthy background w"
proof -
  obtain v where add: "eng_AddMagnet (lib_engine load dir) background magnet_a empty_world = (Ok hex_a, v)"
    using AddMagnet_sample(1) [OF sample_env_worlds(1)] by auto
  have law: "db_inv v" "rows v = rows empty_world" "healthy background v"
    "\<exists>k. hex_a = HexString k \<and> wf_hash k \<and> lib_live v k \<noteq> None"
    using svc.add_magnet_law [OF db_inv_samples(1) lib_inv_samples(1), of load dir background magnet_a "Ok hex_a" v background] add
    by auto
  then have live: "lib_live v hash_a \<noteq> None" using FromHexString_HexString FromHexString_sample by fastforce
  obtain r w where p: "persist (service load dir) background hex_a magnet_a opts v = (r, w)" by force
  have r: "r = Ok (hydrate (service load dir) (the (rows w hex_a)) w)"
    using svc.persist_result [OF law(1,3), of load dir hex_a magnet_a opts] p law(2) by auto
  note e = svc.persist_effect [OF law(1) p, of background]
  then obtain row where "rows w = (rows v)(hex_a \<mapsto> row)" using r by blast
  then have "rows w hex_a \<noteq> None" "healthy background w" using e law(3) by auto
  moreover have "lib_live w = lib_live v" using svc.rest_live e by blast
  then have "torrentsByShortHash w hash_a \<noteq> None" using live by (metis lib_live_def option.map_disc_iff)
  ultimately show ?thesis using add p r by (simp add: svc_AddMagnet_def)
qed

theorem reachable_sys_inv_witness:
  "\<exists>w. reachable no_load ''/data'' empty_world w \<and> rows w hex_a \<noteq> None \<and> piece_rows w (hex_a, 0) = Some False \<and>
    piece_cache w (hash_a, 0) = Some False"
proof -
  obtain t v where run: "svc_AddMagnet (service no_load ''/data'') background magnet_a \<lparr>opt_Label = [], opt_TargetDir = []\<rparr>
      empty_world = (Ok t, v)"
    and v: "torrentsByShortHash v hash_a \<noteq> None" "rows v hex_a \<noteq> None" "healthy background v"
    using added_sample by blast
  let ?w = "pieceHashed hash_a 0 False v"
  have reach: "reachable no_load ''/data'' empty_world ?w"
    using reachable.step [OF reachable.step [OF reachable.start sys_step.add_magnet [OF run]] sys_step.hashed [OF v(1)]] .
  obtain r x where ps: "piece_Set (hash_a, 0) False v = (r, x)" by force
  have same: "rows ?w = rows v" using keep_rows frame_keep [OF frame_pieceHashed(1)] by blast
  have "piece_rows x (hex_a, 0) = Some False"
    using ps
  proof (cases rule: piece_Set_cases)
    case (refused m)
    then show ?thesis using v(3) by (simp add: healthy_def)
  next
    case stored
    then show ?thesis by (simp add: piece_rows_def hex_a_def lookup_by_append lookup_delete_by piece_pk_def)
  qed
  then have tbl: "piece_rows ?w (hex_a, 0) = Some False"
    using ps by (simp add: pieceHashed_def set_torrent_def piece_rows_def)
  have "sys_inv empty_world" using agree_covers [OF agree_samples(1)] by (simp add: sys_inv_def canonical_keys_def)
  from reachable_sys_inv [OF reach this] tbl have "piece_cache ?w (hash_a, 0) = Some False"
    by (auto simp: hex_a_def)
  then show ?thesis using reach tbl same v(2) by auto
qed

end
