(* ===== verification/StoreProps.thy ===== *)
theory StoreProps
  imports Samples
begin

text \<open>
  Properties of the data layer: info hashes and their written form, timestamps, the torrent and piece
  repositories, paths below the data directory, and the metadata of a torrent. Each with a witness on
  the worlds of theory \<open>Samples\<close> where it has hypotheses.
\<close>

section \<open>Info hashes\<close>

lemma hex_val_ascii_lower: "hex_val (ascii_lower c) = hex_val c"
  by (auto simp: hex_val_def ascii_lower_def Let_def)

text \<open>Round trip of info hashes: \<open>FromHexString\<close> reads a string as the hash \<open>t\<close> exactly when \<open>t\<close> has 20 bytes
  and \<open>HexString\<close> writes it as that string in lower case. So every hash reads back from its written form,
  and two accepted strings name the same hash only if they differ in case.\<close>

theorem info_hash_roundtrip:
  "FromHexString s = Inr t \<longleftrightarrow> wf_hash t \<and> HexString t = to_lower s"
proof
  assume r: "wf_hash t \<and> HexString t = to_lower s"
  then have "(\<exists>t. FromHexString (to_lower s) = Inr t)" using FromHexString_HexString by metis
  then have "\<exists>t. FromHexString s = Inr t"
    unfolding FromHexString_Inr_iff by (auto simp: to_lower_def hex_val_ascii_lower)
  then obtain t' where t': "FromHexString s = Inr t'" by blast
  with FromHexString_lower r have "HexString t' = HexString t" by simp
  with t' show "FromHexString s = Inr t" by simp
qed (use FromHexString_wf FromHexString_lower in blast)

section \<open>Timestamps\<close>

text \<open>Round trip of the stored times: what \<open>formatTime\<close> writes for a valid time, \<open>parseTimestamps\<close> reads back
  to the nanosecond, whatever the parser of other layouts does.\<close>

theorem timestamps_roundtrip:
  "valid_utc c \<Longrightarrow> valid_utc u \<Longrightarrow> parseTimestamps general (formatTime c) (formatTime u) = Inr (c, u)"
  by (rule parseTimestamps_formatTime)

theorem timestamps_roundtrip_witness:
  "parseTimestamps (\<lambda>_. Inl (ErrorString ''parsing time'')) (formatTime noon) (formatTime (noon\<lparr>nanos := 1\<rparr>)) =
    Inr (noon, noon\<lparr>nanos := 1\<rparr>)"
proof (rule timestamps_roundtrip)
  show "valid_utc (noon\<lparr>nanos := 1\<rparr>)" by (simp add: noon_def valid_utc_def days_in_def is_leap_def)
qed simp

lemma row_torrent_valid: "good_row r \<Longrightarrow> row_torrent g r = Inr t \<Longrightarrow> valid_utc (db_CreatedAt t)"
  by (auto simp: good_row_def row_torrent_def parseTimestamps_formatTime)

text \<open>\<open>List\<close> of the torrent repository returns the stored torrents, each once, with no torrent before one
  that was created in an earlier second.\<close>

theorem List_by_second:
  assumes "db_inv w" "List c w = (Ok ts, w')"
  shows "distinct (map db_InfoHash ts) \<and> (\<forall>t. t \<in> set ts \<longleftrightarrow> rows w (db_InfoHash t) = Some t) \<and>
    sorted (map (\<lambda>t. seconds_stamp (db_CreatedAt t)) ts)"
proof -
  have valid: "valid_utc (db_CreatedAt t)" if "t \<in> set ts" for t
  proof -
    have "rows w (db_InfoHash t) = Some t" using List_Ok [OF assms] that by blast
    then obtain r where "r \<in> set (torrent_tbl w)" "row_torrent (parse_general w) r = Inr t"
      by (auto simp: rows_def parsed_def select_torrent_def dest!: lookup_by_SomeD split: option.splits sum.splits)
    then show ?thesis using assms(1) row_torrent_valid by (auto simp: db_inv_def)
  qed
  have "sorted_wrt (\<lambda>a b. formatTime (db_CreatedAt a) \<le> formatTime (db_CreatedAt b)) ts"
    using List_sorted [OF assms] by (simp add: sorted_map)
  then have "sorted_wrt (\<lambda>a b. seconds_stamp (db_CreatedAt a) \<le> seconds_stamp (db_CreatedAt b)) ts"
    by (rule sorted_wrt_mono_rel [rotated])
      (use valid formatTime_less_seconds leD in \<open>metis linorder_le_less_linear\<close>)
  then show ?thesis using List_Ok [OF assms] by (simp add: sorted_map)
qed

theorem List_by_second_witness:
  "\<exists>ts w'. List background running_world = (Ok ts, w') \<and> distinct (map db_InfoHash ts) \<and>
    (\<forall>t. t \<in> set ts \<longleftrightarrow> rows running_world (db_InfoHash t) = Some t) \<and>
    sorted (map (\<lambda>t. seconds_stamp (db_CreatedAt t)) ts)"
proof -
  obtain ts w' where "List background running_world = (Ok ts, w')"
    using List_works [OF db_inv_samples(2) healthy_samples(2)] by blast
  with List_by_second [OF db_inv_samples(2) this] show ?thesis by blast
qed

text \<open>C40: Within one second the order of \<open>List\<close> is not the order of creation: the stored text of a whole second
  sorts after the text of every later instant of that second.\<close>

theorem List_order_in_second:
  assumes "valid_utc a" "nanos a = 0" "0 < n" "n < 10 ^ 9"
  shows "earlier a (a\<lparr>nanos := n\<rparr>) \<and> formatTime (a\<lparr>nanos := n\<rparr>) < formatTime a"
  using formatTime_whole_second [OF assms] assms by (simp add: earlier_def seconds_stamp_def)

theorem List_order_in_second_witness:
  "earlier noon (noon\<lparr>nanos := 500000000\<rparr>) \<and> formatTime (noon\<lparr>nanos := 500000000\<rparr>) < formatTime noon"
  by (rule List_order_in_second) (simp_all, simp add: noon_def)

section \<open>The torrent repository\<close>

text \<open>C30: Refinement: on a working database \<open>Create\<close> is the insertion of an absent key into the map of torrents.
  An absent torrent is stored with the defaults and the current time, a present one is refused with
  \<open>ErrTorrentAlreadyExists\<close> and nothing changes; in both cases the table stays well formed and \<open>Get\<close> then
  finds the torrent.\<close>

theorem Create_refines_insert:
  assumes "db_inv w" "healthy c w"
  shows "\<exists>w' u. Create c t w =
      (if rows w (db_InfoHash t) = None then Ok () else Err (Sentinel DbTorrentAlreadyExists), w') \<and>
    rows w' = (if rows w (db_InfoHash t) = None then (rows w)(db_InfoHash t \<mapsto> fresh_torrent t u) else rows w) \<and>
    db_inv w' \<and> (\<exists>t' w''. Get c (db_InfoHash t) w' = (Ok t', w'') \<and> rows w' (db_InfoHash t) = Some t')"
proof -
  let ?h = "db_InfoHash t"
  obtain w' where run: "Create c t w = (if rows w ?h = None then Ok () else Err (Sentinel DbTorrentAlreadyExists), w')"
    using Create_works [OF assms] by blast
  have inv: "db_inv w'" "healthy c w'" using Create_invar Create_frame run assms by blast+
  have "\<exists>u. rows w' = (if rows w ?h = None then (rows w)(?h \<mapsto> fresh_torrent t u) else rows w)"
    using run Create_Ok [OF assms(1), of c t "()" w'] Create_Err by (cases "rows w ?h = None") auto
  then obtain u where u: "rows w' = (if rows w ?h = None then (rows w)(?h \<mapsto> fresh_torrent t u) else rows w)" ..
  have some: "rows w' ?h \<noteq> None" unfolding u by simp
  then obtain t' where "rows w' ?h = Some t'" by blast
  with Get_works [OF inv, of ?h] have "\<exists>w''. Get c ?h w' = (Ok t', w'') \<and> rows w' ?h = Some t'" by auto
  with run u inv(1) show ?thesis by blast
qed

theorem Create_refines_insert_witness:
  "\<exists>w' u. Create background (db_a False) running_world =
      (if rows running_world (db_InfoHash (db_a False)) = None then Ok () else Err (Sentinel DbTorrentAlreadyExists), w') \<and>
    rows w' = (if rows running_world (db_InfoHash (db_a False)) = None
      then (rows running_world)(db_InfoHash (db_a False) \<mapsto> fresh_torrent (db_a False) u) else rows running_world) \<and>
    db_inv w' \<and> (\<exists>t' w''. Get background (db_InfoHash (db_a False)) w' = (Ok t', w'') \<and>
      rows w' (db_InfoHash (db_a False)) = Some t')"
  by (rule Create_refines_insert) simp_all

text \<open>Refinement: on a working database \<open>Delete\<close> is the removal of a key, and it takes the torrent's piece
  completions with it and no other torrent's; an absent key is refused with \<open>ErrTorrentNotFound\<close> and
  nothing changes.\<close>

theorem Delete_refines_removal:
  assumes "db_inv w" "healthy c w"
  shows "\<exists>w'. Delete c h w = (if rows w h = None then Err (Sentinel DbTorrentNotFound) else Ok (), w') \<and>
    rows w' = (rows w)(h := None) \<and> db_inv w' \<and>
    piece_rows w' = (if rows w h = None then piece_rows w else without_hash h (piece_rows w))"
proof -
  obtain w' where run: "Delete c h w = (if rows w h = None then Err (Sentinel DbTorrentNotFound) else Ok (), w')"
    using store.delete_works [OF assms] by blast
  have "db_inv w'" using store.delete_invar [OF run assms(1)] .
  moreover have "rows w' = (rows w)(h := None) \<and>
    piece_rows w' = (if rows w h = None then piece_rows w else without_hash h (piece_rows w))"
  proof (cases "rows w h = None")
    case True
    with run store.delete_missing [OF assms(1), of c h _ w'] show ?thesis by (auto simp: fun_upd_idem)
  next
    case False
    with run store.delete_Ok [OF assms(1), of c h "()" w'] show ?thesis by auto
  qed
  ultimately show ?thesis using run by blast
qed

theorem Delete_refines_removal_witness:
  "\<exists>w'. Delete background hex_a running_world =
      (if rows running_world hex_a = None then Err (Sentinel DbTorrentNotFound) else Ok (), w') \<and>
    rows w' = (rows running_world)(hex_a := None) \<and> db_inv w' \<and>
    piece_rows w' = (if rows running_world hex_a = None then piece_rows running_world
      else without_hash hex_a (piece_rows running_world))"
  by (rule Delete_refines_removal) simp_all

section \<open>The piece repository\<close>

lemma piece_Get_cache: "piece_Get pk w = (Ok (case piece_cache w pk of
    None \<Rightarrow> \<lparr>cmp_Err = None, cmp_Ok = False, cmp_Complete = False\<rparr>
  | Some b \<Rightarrow> \<lparr>cmp_Err = None, cmp_Ok = True, cmp_Complete = b\<rparr>), w)"
  by (simp add: piece_Get_def split: option.split)

lemma restart_fields [simp]:
  "db_inv (NewPieceRepository w) = db_inv w" "canonical_pieces (NewPieceRepository w) = canonical_pieces w"
  "healthy c (NewPieceRepository w) = healthy c w" "stored (NewPieceRepository w) = stored w"
  by (auto simp: NewPieceRepository_def db_inv_def canonical_pieces_def healthy_def stored_def [abs_def]
      piece_rows_def [abs_def])

lemma piece_Set_works:
  assumes "healthy c w"
  shows "\<exists>w'. piece_Set pk b w = (Ok (), w')"
  using healthy_now [OF assms] by (simp add: piece_Set_def ExecContext_def driver_error_def upsert_piece_def)

text \<open>C31: Durability of piece completion: on a working database \<open>Set\<close> succeeds, and a restart, which starts with
  an empty cache and loads it from the table, succeeds and then reports for that piece what was set and
  for every other piece what was reported before.\<close>

theorem piece_Set_survives_restart:
  assumes "agree w" "db_inv w" "healthy c w" "wf_hash (fst pk)"
  shows "\<exists>w1 w2. piece_Set pk b w = (Ok (), w1) \<and> Load c (NewPieceRepository w1) = (Ok (), w2) \<and>
    fst (piece_Get pk w2) = Ok \<lparr>cmp_Err = None, cmp_Ok = True, cmp_Complete = b\<rparr> \<and>
    (\<forall>pk'. pk' \<noteq> pk \<longrightarrow> fst (piece_Get pk' w2) = fst (piece_Get pk' w))"
proof -
  obtain w1 where set: "piece_Set pk b w = (Ok (), w1)" using piece_Set_works [OF assms(3)] by blast
  have w1: "agree w1" "db_inv w1" "healthy c w1"
    using piece_Set_agree [OF assms(1,4) set] piece_Set_frame(2,3) [OF set] assms(2,3) by blast+
  obtain w2 where load: "Load c (NewPieceRepository w1) = (Ok (), w2)"
    using Load_works [of "NewPieceRepository w1" c] w1 by (auto simp: agree_def)
  have "agree w2" "piece_rows w2 = piece_rows (NewPieceRepository w1)"
    using Load_Ok [OF _ _ load] w1 by (auto simp: agree_def)
  moreover have "piece_rows (NewPieceRepository w1) = piece_rows w1"
    by (simp add: piece_rows_def [abs_def] NewPieceRepository_def)
  ultimately have "stored w2 pk = stored w1 pk" for pk unfolding stored_def by simp
  with \<open>agree w2\<close> have "piece_cache w2 = stored w1" by (auto simp: agree_def)
  also have "\<dots> = (piece_cache w)(pk \<mapsto> b)"
    using w1(1) piece_Set_effect [OF set] by (simp add: agree_def)
  finally show ?thesis using set load by (auto simp: piece_Get_cache)
qed

theorem piece_Set_survives_restart_witness:
  "\<exists>w1 w2. piece_Set (hash_a, 1) True running_world = (Ok (), w1) \<and> Load background (NewPieceRepository w1) = (Ok (), w2) \<and>
    fst (piece_Get (hash_a, 1) w2) = Ok \<lparr>cmp_Err = None, cmp_Ok = True, cmp_Complete = True\<rparr> \<and>
    (\<forall>pk'. pk' \<noteq> (hash_a, 1) \<longrightarrow> fst (piece_Get pk' w2) = fst (piece_Get pk' running_world))"
  by (rule piece_Set_survives_restart) simp_all

section \<open>Paths\<close>

lemma under_strictly_under:
  assumes "strictly_under d p" "under p q"
  shows "strictly_under d q"
proof -
  let ?n = "length (path_comps d)" and ?m = "length (path_comps p)"
  have le: "?n < ?m" and p: "take ?n (path_comps p) = path_comps d" and q: "take ?m (path_comps q) = path_comps p"
    using assms by (auto simp: strictly_under_def under_def)
  have "take ?n (path_comps q) = path_comps d" using le p q by (metis less_or_eq_imp_le min.absorb1 take_take)
  moreover have "?m \<le> length (path_comps q)" using q by (metis length_take min.cobounded1 nat_le_linear min.absorb1)
  ultimately show ?thesis using assms le by (simp add: strictly_under_def under_def)
qed

lemma remove_paths_disk:
  assumes "remove_paths (lib_engine load dir) ps w = (r, w')" "q \<in> set (disk w)" "\<And>p. p \<in> set ps \<Longrightarrow> \<not> under p q"
  shows "q \<in> set (disk w')"
  using assms
proof (induction ps arbitrary: w)
  case (Cons p ps)
  show ?case
  proof (cases "env_rm w (tick w)")
    case None
    then have "remove_paths (lib_engine load dir) ps (tock (w\<lparr>disk := filter (\<lambda>q. \<not> under p q) (disk w)\<rparr>)) = (r, w')"
      using Cons.prems(1) by (simp add: lib_RemoveAll_def lib_engine_def)
    from Cons.IH [OF this] Cons.prems show ?thesis by simp
  next
    case (Some x)
    then show ?thesis using Cons.prems by (cases x) (auto simp: lib_RemoveAll_def lib_engine_def)
  qed
qed simp

lemma eng_Remove_paths:
  assumes "FromHexString h = Inr k" "torrentsByShortHash w k = Some t"
  shows "eng_Remove (lib_engine load dir) c h b w =
    (if b \<and> lib_name k t \<noteq> []
     then remove_paths (lib_engine load dir) [path_Join [dir, lib_name k t], path_Join [dir, lib_name k t @ ''.part'']]
            (lib_Drop k w)
     else (Ok (), lib_Drop k w))"
  using assms by (simp add: eng_Remove_def find_def lib_engine_def lib_client_def lib_get_def Let_def)

text \<open>C32: \<open>Remove\<close> of the engine deletes only inside the data directory when the torrent's name is one ordinary
  path component: every path that is not strictly below the data directory is still there, whatever
  fails.\<close>

theorem eng_Remove_inside_data:
  assumes "is_abs dir" "FromHexString h = Inr k" "torrentsByShortHash w k = Some t" "plain_component (lib_name k t)"
    "eng_Remove (lib_engine load dir) c h b w = (r, w')" "q \<in> set (disk w)" "\<not> strictly_under (Clean dir) q"
  shows "q \<in> set (disk w')"
proof -
  have "plain_component (lib_name k t @ ''.part'')" using assms(4) by (auto simp: plain_component_def append_eq_Cons_conv)
  then have no: "\<not> under p q" if "p \<in> set [path_Join [dir, lib_name k t], path_Join [dir, lib_name k t @ ''.part'']]" for p
    using that Join_strictly_under [OF assms(1)] assms(4,7) under_strictly_under by auto
  have d: "q \<in> set (disk (lib_Drop k w))" using assms(6) by (simp add: lib_Drop_def)
  show ?thesis
  proof (cases "b \<and> lib_name k t \<noteq> []")
    case True
    then have "remove_paths (lib_engine load dir) [path_Join [dir, lib_name k t], path_Join [dir, lib_name k t @ ''.part'']]
        (lib_Drop k w) = (r, w')"
      using assms(5) by (simp only: eng_Remove_paths [OF assms(2,3)] if_True simp_thms)
    then show ?thesis using d no by (rule remove_paths_disk)
  next
    case False
    then show ?thesis using assms(5) d unfolding eng_Remove_paths [OF assms(2,3)] by auto
  qed
qed

theorem eng_Remove_inside_data_witness:
  "''/etc/passwd'' \<in> set (disk (snd (eng_Remove (lib_engine no_load ''/data'') background hex_a True
     (running_world\<lparr>disk := [''/data/film'', ''/etc/passwd'']\<rparr>))))"
proof (rule eng_Remove_inside_data)
  let ?w = "running_world\<lparr>disk := [''/data/film'', ''/etc/passwd'']\<rparr>"
  show "eng_Remove (lib_engine no_load ''/data'') background hex_a True ?w =
    (fst (eng_Remove (lib_engine no_load ''/data'') background hex_a True ?w),
     snd (eng_Remove (lib_engine no_load ''/data'') background hex_a True ?w))" by simp
  show "torrentsByShortHash ?w hash_a = Some torrent_a" by (simp add: running_world_def)
  show "plain_component (lib_name hash_a torrent_a)" by (simp add: torrent_a_def lib_name_def sample_info_def BestName_def plain_component_def)
  show "\<not> strictly_under (Clean ''/data'') ''/etc/passwd''" by code_simp
qed (simp_all add: is_abs_def)

text \<open>C39: The name is not checked: a torrent named \<open>..\<close> makes \<open>Remove\<close> delete everything under the parent of the
  data directory.\<close>

theorem eng_Remove_dotdot:
  assumes "is_abs dir" "FromHexString h = Inr k" "torrentsByShortHash w k = Some t" "lib_name k t = ''..''"
    "\<forall>n. env_rm w n = None"
  shows "\<exists>w'. eng_Remove (lib_engine load dir) c h True w = (Ok (), w') \<and>
    (\<forall>q \<in> set (disk w'). \<not> under (path_Join [dir, ''..'']) q) \<and>
    path_comps (path_Join [dir, ''..'']) = butlast (path_comps (Clean dir))"
  using assms(5) Join_dotdot [OF assms(1)] unfolding eng_Remove_paths [OF assms(2,3)] assms(4)
  by (simp add: lib_RemoveAll_def lib_engine_def lib_Drop_def tock_def)

theorem eng_Remove_dotdot_witness:
  "\<exists>w'. eng_Remove (lib_engine no_load ''/data'') background hex_a True
      (running_world\<lparr>torrentsByShortHash := (\<lambda>_. None)(hash_a \<mapsto> torrent_a\<lparr>lt_info := Some (sample_info\<lparr>info_Name := ''..''\<rparr>)\<rparr>)\<rparr>) =
      (Ok (), w') \<and>
    (\<forall>q \<in> set (disk w'). \<not> under (path_Join [''/data'', ''..'']) q) \<and>
    path_comps (path_Join [''/data'', ''..'']) = butlast (path_comps (Clean ''/data''))"
  by (rule eng_Remove_dotdot [where k = hash_a and t = "torrent_a\<lparr>lt_info := Some (sample_info\<lparr>info_Name := ''..''\<rparr>)\<rparr>"])
    (simp_all add: is_abs_def lib_name_def BestName_def sample_info_def running_world_def empty_world_def)

text \<open>The storage package accepts the path components of a file only if the file lies inside the torrent's
  directory: whatever the components hold, an accepted path joined to an absolute directory stays under
  it.\<close>

theorem file_path_below_root:
  assumes "ToSafeFilePath cs = Inr p" "is_abs d"
  shows "under (Clean d) (path_Join [d, p])"
  using ToSafeFilePath_under [OF assms] .

theorem file_path_below_root_witness:
  "\<exists>p. ToSafeFilePath [''a/..'', ''..b'', ''c''] = Inr p \<and> under (Clean ''/data'') (path_Join [''/data'', p])"
proof -
  have p: "ToSafeFilePath [''a/..'', ''..b'', ''c''] = Inr ''..b/c''" by code_simp
  with file_path_below_root [OF p, of "''/data''"] show ?thesis by (simp add: is_abs_def)
qed

section \<open>Metadata\<close>

lemma sum_last_piece:
  fixes n :: nat and p t :: int
  shows "sum_list (map (\<lambda>i. if i < int n then p else t) [0..int n]) = int n * p + t"
proof -
  have "[0..int n] = [0..int n - 1] @ [int n]" using upto_rec2 [of 0 "int n"] by simp
  moreover have "map (\<lambda>i. if i < int n then p else t) [0..int n - 1] = map (\<lambda>_. p) [0..int n - 1]" by auto
  then have "sum_list (map (\<lambda>i. if i < int n then p else t) [0..int n - 1]) = int n * p"
    by (simp only: sum_list_triv length_upto) simp
  ultimately show ?thesis by simp
qed

text \<open>C26: An info that the library accepts and whose length, rounded up to a piece, stays below \<open>2 ^ 63\<close> has for
  every piece index a piece length between one byte and the nominal length, so \<open>V1Length\<close> never panics,
  and the pieces add up to the torrent's length.\<close>

theorem pieces_cover_torrent:
  assumes "validateInfo info = None" "\<not> HasV2 info" "0 < PieceLength info" "0 < TotalLength info"
    "TotalLength info + PieceLength info \<le> 2 ^ 63"
  shows "\<exists>len. (\<forall>i. 0 \<le> i \<and> i < NumPieces info \<longrightarrow>
      V1Length info i = Some (len i) \<and> 0 < len i \<and> len i \<le> PieceLength info) \<and>
    sum_list (map len [0..NumPieces info - 1]) = TotalLength info"
proof -
  let ?len = "\<lambda>i. the (V1Length info i)" and ?n = "NumPieces info - 1" and ?p = "PieceLength info"
  have nn: "0 \<le> TotalLength info" using assms(4) by simp
  note v = V1Length_defined [OF assms(1-3) nn assms(5)]
  have "0 < NumPieces info * ?p"
    using validateInfo_pieces(3) [OF assms(1-3) nn assms(5)] assms(4) by linarith
  then have pos: "0 \<le> ?n" using assms(3) by (simp add: zero_less_mult_iff)
  have "?len i = (if i < ?n then ?p else TotalLength info - ?n * ?p)" if "i \<in> set [0..?n]" for i
  proof -
    have i: "0 \<le> i" "i \<le> ?n" using that by auto
    then show ?thesis using v(1) [of i] by (cases "i = ?n") auto
  qed
  then have "map ?len [0..?n] = map (\<lambda>i. if i < int (nat ?n) then ?p else TotalLength info - ?n * ?p) [0..int (nat ?n)]"
    using pos by (intro map_cong) simp_all
  then have "sum_list (map ?len [0..?n]) = int (nat ?n) * ?p + (TotalLength info - ?n * ?p)" by (simp only: sum_last_piece)
  also have "\<dots> = TotalLength info" using pos by simp
  finally show ?thesis using v(2) by (intro exI [of _ ?len]) fastforce
qed

theorem pieces_cover_torrent_witness:
  "\<exists>len. (\<forall>i. 0 \<le> i \<and> i < NumPieces sample_info \<longrightarrow>
      V1Length sample_info i = Some (len i) \<and> 0 < len i \<and> len i \<le> PieceLength sample_info) \<and>
    sum_list (map len [0..NumPieces sample_info - 1]) = TotalLength sample_info"
  by (rule pieces_cover_torrent [OF validate_sample])
    (simp_all add: sample_info_def HasV2_def TotalLength_def UpvertedFiles_def UpvertedV1Files_def files_of_def i64_nonneg)

text \<open>Without that bound the check lets an info through that has no piece for its data: one file of
  \<open>2 ^ 63 - 1\<close> bytes in pieces of that length, and no hash.\<close>

lemma validateInfo_wraps:
  "validateInfo (sample_info\<lparr>info_Length := 2 ^ 63 - 1, PieceLength := 2 ^ 63 - 1, Pieces := []\<rparr>) = None"
  by (simp add: validateInfo_def sample_info_def HasV2_def TotalLength_def UpvertedFiles_def UpvertedV1Files_def files_of_def
      NumPieces_def i64_def div64_def signed_divide_int_def)

text \<open>The progress of a file is exact when its pieces are either complete or untouched: the bytes left are
  the bytes of the file that lie in incomplete pieces, summed piece by piece, with the pieces shared
  with the neighbouring files counted only as far as they belong to this one.\<close>

theorem fileBytesLeft_exact:
  assumes "0 < usual" "0 \<le> off" "0 < len" "off + len + usual \<le> 2 ^ 63" "\<forall>i. got i = 0"
  shows "fileBytesLeft usual (off div usual) ((off + len + usual - 1) div usual) off len completed got =
    sum_list (map (overlap usual off len)
      (filter (\<lambda>i. \<not> completed i) [off div usual..(off + len + usual - 1) div usual - 1]))"
  using fileBytesLeft_overlap [OF assms(1-4), of got completed] assms(5) by blast

theorem fileBytesLeft_exact_witness:
  "fileBytesLeft 4 (6 div 4) ((6 + 7 + 4 - 1) div 4) 6 7 (\<lambda>i. i = 2) (\<lambda>_. 0) =
    sum_list (map (overlap 4 6 7) (filter (\<lambda>i. \<not> i = 2) [6 div 4..(6 + 7 + 4 - 1) div 4 - 1]))"
  by (rule fileBytesLeft_exact) simp_all

end
