(* ===== verification/Json.thy ===== *)
theory Json
  imports Timestamps
begin

text \<open>
  JSON as \<open>encoding/json\<close> writes and reads it, as far as the HTTP API and its client use it: the
  quoting of strings, the syntax tree of a text, the decoder's scanner with its error messages, and
  the way a value is stored into a struct.

  \<^item> A tree keeps strings and numbers as they stand in the text (\<open>JStr\<close> holds what is between the
    quotes, escapes included), because \<open>time.Time\<close> reads the raw literal while a string field reads
    the unquoted one.
  \<^item> A Go string is a list of bytes; the encoder replaces what is not UTF-8.
  \<^item> The parser is given fuel; \<open>parse_fuel\<close> shows that the length of the text is enough.
\<close>

datatype json =
    JNull
  | JBool bool
  | JNum string
  | JStr string
  | JArr "json list"
  | JObj "(string \<times> json) list"

abbreviation dquote :: char where "dquote \<equiv> CHR 0x22"
abbreviation bslash :: char where "bslash \<equiv> CHR 0x5C"

abbreviation byte :: "char \<Rightarrow> nat" where "byte c \<equiv> of_char c"

section \<open>UTF-8\<close>

definition cont :: "nat \<Rightarrow> nat \<Rightarrow> string \<Rightarrow> bool" where
  "cont lo hi s = (case s of [] \<Rightarrow> False | c # _ \<Rightarrow> lo \<le> byte c \<and> byte c \<le> hi)"

text \<open>The number of bytes after the first of the well-formed rune a string starts with, if its
  first byte is not ASCII; \<open>None\<close> is \<open>utf8.RuneError\<close> of width one.\<close>

definition rune_tail :: "char \<Rightarrow> string \<Rightarrow> nat option" where
  "rune_tail c s =
     (let b = byte c; k = (\<lambda>i. cont 128 191 (drop i s)) in
      if 194 \<le> b \<and> b \<le> 223 then (if k 0 then Some 1 else None)
      else if 224 \<le> b \<and> b \<le> 239 then
        (let lo = (if b = 224 then 160 else 128); hi = (if b = 237 then 159 else 191) in
         if cont lo hi s \<and> k 1 then Some 2 else None)
      else if 240 \<le> b \<and> b \<le> 244 then
        (let lo = (if b = 240 then 144 else 128); hi = (if b = 244 then 143 else 191) in
         if cont lo hi s \<and> k 1 \<and> k 2 then Some 3 else None)
      else None)"

fun valid_utf8 :: "string \<Rightarrow> bool" where
  "valid_utf8 [] = True"
| "valid_utf8 (c # cs) =
     (if byte c < 128 then valid_utf8 cs
      else case rune_tail c cs of None \<Rightarrow> False | Some n \<Rightarrow> valid_utf8 (drop n cs))"

definition utf8_encode :: "nat \<Rightarrow> string" where
  "utf8_encode r =
     (if r < 128 then [char_of r]
      else if r < 2048 then [char_of (192 + r div 64), char_of (128 + r mod 64)]
      else if r < 65536 then
        [char_of (224 + r div 4096), char_of (128 + r div 64 mod 64), char_of (128 + r mod 64)]
      else [char_of (240 + r div 262144), char_of (128 + r div 4096 mod 64),
            char_of (128 + r div 64 mod 64), char_of (128 + r mod 64)])"

definition replacement :: nat where "replacement = 65533"

section \<open>Quoting\<close>

definition hex_lower :: "nat \<Rightarrow> char" where
  "hex_lower d = ''0123456789abcdef'' ! d"

text \<open>What \<open>appendString\<close> writes for one ASCII byte, with HTML escaping on (the encoder's default).\<close>

definition quote_ascii :: "char \<Rightarrow> string" where
  "quote_ascii c =
     (let n = byte c in
      if n = 34 \<or> n = 92 then [bslash, c]
      else if n = 8 then [bslash, CHR ''b''] else if n = 12 then [bslash, CHR ''f'']
      else if n = 10 then [bslash, CHR ''n''] else if n = 13 then [bslash, CHR ''r'']
      else if n = 9 then [bslash, CHR ''t'']
      else if n < 32 \<or> n \<in> {38, 60, 62}
      then [bslash, CHR ''u'', CHR ''0'', CHR ''0'', hex_lower (n div 16), hex_lower (n mod 16)]
      else [c])"

text \<open>U+2028 and U+2029 are escaped, every other well-formed rune is copied.\<close>

definition quote_rune :: "string \<Rightarrow> string" where
  "quote_rune s =
     (if s = map char_of [226, 128, 168 :: nat] then bslash # ''u2028''
      else if s = map char_of [226, 128, 169 :: nat] then bslash # ''u2029''
      else s)"

fun quoted :: "string \<Rightarrow> string" where
  "quoted [] = []"
| "quoted (c # cs) =
     (if byte c < 128 then quote_ascii c @ quoted cs
      else case rune_tail c cs of
             None \<Rightarrow> bslash # ''ufffd'' @ quoted cs
           | Some n \<Rightarrow> quote_rune (c # take n cs) @ quoted (drop n cs))"

section \<open>Unquoting\<close>

definition hex_digit :: "char \<Rightarrow> nat option" where
  "hex_digit c =
     (let n = byte c in
      if 48 \<le> n \<and> n \<le> 57 then Some (n - 48)
      else if 97 \<le> n \<and> n \<le> 102 then Some (n - 87)
      else if 65 \<le> n \<and> n \<le> 70 then Some (n - 55)
      else None)"

definition hex4 :: "string \<Rightarrow> nat option" where
  "hex4 s =
     (case map hex_digit (take 4 s) of
        [Some a, Some b, Some c, Some d] \<Rightarrow> Some (4096 * a + 256 * b + 16 * c + d)
      | _ \<Rightarrow> None)"

text \<open>\<open>getu4\<close>: a string that starts with \<open>\uXXXX\<close>.\<close>

definition getu4 :: "string \<Rightarrow> nat option" where
  "getu4 s = (case s of c # e # r \<Rightarrow> if c = bslash \<and> e = CHR ''u'' then hex4 r else None | _ \<Rightarrow> None)"

definition is_surrogate :: "nat \<Rightarrow> bool" where
  "is_surrogate r \<longleftrightarrow> 55296 \<le> r \<and> r < 57344"

text \<open>The rune a \<open>\u\<close> escape stands for, and how many characters after it belong to it: the second
  half of a surrogate pair, or none.\<close>

definition escaped_rune :: "nat \<Rightarrow> string \<Rightarrow> nat \<times> nat" where
  "escaped_rune r rest =
     (if is_surrogate r then
        (case getu4 rest of
           Some r' \<Rightarrow>
             if r < 56320 \<and> 56320 \<le> r' \<and> r' < 57344
             then ((r - 55296) * 1024 + (r' - 56320) + 65536, 6) else (replacement, 0)
         | None \<Rightarrow> (replacement, 0))
      else (r, 0))"

definition unescape :: "char \<Rightarrow> char" where
  "unescape e =
     (if e = CHR ''b'' then CHR 8 else if e = CHR ''f'' then CHR 12 else if e = CHR ''n'' then CHR 10
      else if e = CHR ''r'' then CHR 13 else if e = CHR ''t'' then CHR 9 else e)"

function unquote :: "string \<Rightarrow> string" where
  "unquote s =
     (case s of
        [] \<Rightarrow> []
      | c # cs \<Rightarrow>
        if c = bslash then
          (case cs of
             [] \<Rightarrow> []
           | e # r \<Rightarrow>
             if e = CHR ''u'' then
               (case hex4 r of
                  None \<Rightarrow> []
                | Some u \<Rightarrow> (let (v, k) = escaped_rune u (drop 4 r)
                           in utf8_encode v @ unquote (drop k (drop 4 r))))
             else unescape e # unquote r)
        else if byte c < 128 then c # unquote cs
        else case rune_tail c cs of
               None \<Rightarrow> utf8_encode replacement @ unquote cs
             | Some n \<Rightarrow> c # take n cs @ unquote (drop n cs))"
  by auto
termination by (relation "measure length") auto

declare unquote.simps [simp del]

section \<open>Quoting round-trips\<close>

lemma unquote_simps:
  "unquote [] = []"
  "c \<noteq> bslash \<Longrightarrow> byte c < 128 \<Longrightarrow> unquote (c # cs) = c # unquote cs"
  "e \<noteq> CHR ''u'' \<Longrightarrow> unquote (bslash # e # r) = unescape e # unquote r"
  "hex4 r = Some u \<Longrightarrow> \<not> is_surrogate u \<Longrightarrow>
     unquote (bslash # CHR ''u'' # r) = utf8_encode u @ unquote (drop 4 r)"
  "128 \<le> byte c \<Longrightarrow> rune_tail c cs = Some n \<Longrightarrow> unquote (c # cs) = c # take n cs @ unquote (drop n cs)"
  by (subst unquote.simps; auto simp: escaped_rune_def)+

lemma less_16_cases: "(d::nat) < 16 \<Longrightarrow> d \<in> {0, 1, 2, 3, 4, 5, 6, 7, 8, 9, 10, 11, 12, 13, 14, 15}"
proof -
  assume "d < 16"
  then have "d \<in> set [0..<16]" by simp
  also have "[0..<16] = [0, 1, 2, 3, 4, 5, 6, 7, 8, 9, 10, 11, 12, 13, 14, 15]" by (simp add: upt_rec)
  finally show ?thesis by simp
qed

lemma hex_digit_lower [simp]: "d < 16 \<Longrightarrow> hex_digit (hex_lower d) = Some d"
  by (drule less_16_cases) (auto simp: hex_digit_def hex_lower_def Let_def)

lemma hex4_low: "n < 256 \<Longrightarrow> hex4 (CHR ''0'' # CHR ''0'' # hex_lower (n div 16) # hex_lower (n mod 16) # r) = Some n"
  by (simp add: hex4_def) (simp add: hex_digit_def Let_def)

lemma byte_eq_iff: "byte c = byte d \<longleftrightarrow> c = d"
  by (rule of_char_eq_iff)

lemma unquote_ascii:
  assumes "byte c < 128"
  shows "unquote (quote_ascii c @ r) = c # unquote r"
proof -
  let ?n = "byte c"
  have eq: "c = d" if "?n = byte d" for d using that byte_eq_iff by blast
  consider "?n = 34 \<or> ?n = 92" | "?n = 8" | "?n = 12" | "?n = 10" | "?n = 13" | "?n = 9"
    | (u) "?n < 32 \<or> ?n \<in> {38, 60, 62}" "?n \<notin> {8, 9, 10, 12, 13, 34, 92}"
    | (plain) "\<not> ?n < 32" "?n \<notin> {34, 38, 60, 62, 92}" by auto
  then show ?thesis
  proof cases
    case 1
    then have "c \<in> {dquote, bslash}" using eq [of dquote] eq [of bslash] by auto
    then show ?thesis by (auto simp: quote_ascii_def unquote_simps unescape_def Let_def)
  next
    case u
    have q: "quote_ascii c = [bslash, CHR ''u'', CHR ''0'', CHR ''0'', hex_lower (?n div 16), hex_lower (?n mod 16)]"
      using u by (auto simp: quote_ascii_def Let_def)
    have "\<not> is_surrogate ?n" "utf8_encode ?n = [c]" using assms by (auto simp: is_surrogate_def utf8_encode_def)
    then show ?thesis using hex4_low [of ?n r] assms by (simp add: q unquote_simps(4))
  next
    case plain
    then have "quote_ascii c = [c]" "c \<noteq> bslash" by (auto simp: quote_ascii_def Let_def)
    then show ?thesis using assms by (simp add: unquote_simps)
  next
    case 2 then show ?thesis using eq [of "CHR 8"] by (simp add: quote_ascii_def unquote_simps unescape_def)
  next
    case 3 then show ?thesis using eq [of "CHR 12"] by (simp add: quote_ascii_def unquote_simps unescape_def)
  next
    case 4 then show ?thesis using eq [of "CHR 10"] by (simp add: quote_ascii_def unquote_simps unescape_def)
  next
    case 5 then show ?thesis using eq [of "CHR 13"] by (simp add: quote_ascii_def unquote_simps unescape_def)
  next
    case 6 then show ?thesis using eq [of "CHR 9"] by (simp add: quote_ascii_def unquote_simps unescape_def)
  qed
qed

lemma cont_append: "cont lo hi s \<Longrightarrow> cont lo hi (s @ r)"
  by (cases s) (auto simp: cont_def)

lemma cont_take: "cont lo hi (drop i s) \<Longrightarrow> i < n \<Longrightarrow> cont lo hi (drop i (take n s @ r))"
  by (cases "drop i s"; cases "n - i") (auto simp: cont_def drop_take take_Cons split: list.splits)

lemma cont_length: "cont lo hi (drop i s) \<Longrightarrow> i < length s"
  by (rule ccontr) (simp add: cont_def)

lemma cont_Suc: "cont lo hi s \<Longrightarrow> Suc 0 \<le> length s"
  by (cases s) (simp_all add: cont_def)

lemma rune_tail_length: "rune_tail c cs = Some n \<Longrightarrow> n \<le> length cs \<and> 0 < n \<and> n \<le> 3"
  by (auto simp: rune_tail_def Let_def split: if_splits dest: cont_length [of _ _ _ cs] cont_Suc)

lemma rune_tail_take:
  assumes "rune_tail c cs = Some n"
  shows "rune_tail c (take n cs @ r) = Some n"
  using assms cont_take [of _ _ 0 cs n r] cont_take [of _ _ 1 cs n r] cont_take [of _ _ 2 cs n r]
  by (auto simp: rune_tail_def Let_def split: if_splits)

lemma unquote_rune:
  assumes n: "rune_tail c cs = Some n" and b: "128 \<le> byte c"
  shows "unquote (quote_rune (c # take n cs) @ r) = c # take n cs @ unquote r"
proof -
  have len: "length (take n cs) = n" using rune_tail_length [OF n] by simp
  have copy: "unquote ((c # take n cs) @ r) = c # take n cs @ unquote r"
    using unquote_simps(5) [OF b rune_tail_take [OF n, of r]] len by simp
  have esc: "hex4 (''2028'' @ r) = Some 8232" "hex4 (''2029'' @ r) = Some 8233"
    by (simp_all add: hex4_def hex_digit_def Let_def)
  have "utf8_encode 8232 = map char_of [226, 128, 168 :: nat]"
    "utf8_encode 8233 = map char_of [226, 128, 169 :: nat]" "\<not> is_surrogate 8232" "\<not> is_surrogate 8233"
    by (simp_all add: utf8_encode_def is_surrogate_def)
  with copy esc show ?thesis
    by (auto simp: quote_rune_def unquote_simps(4) simp del: char_of_eq_iff)
qed

theorem unquote_quoted: "valid_utf8 s \<Longrightarrow> unquote (quoted s) = s"
proof (induction s rule: quoted.induct)
  case (2 c cs)
  show ?case
  proof (cases "byte c < 128")
    case True
    with 2 show ?thesis by (simp add: unquote_ascii)
  next
    case False
    then obtain n where n: "rune_tail c cs = Some n" using "2.prems" by (auto split: option.splits)
    with False 2 have "unquote (quoted (drop n cs)) = drop n cs" by auto
    with False n unquote_rune [OF n, of "quoted (drop n cs)"] show ?thesis by simp
  qed
qed (simp add: unquote_simps)

section \<open>Writing a tree\<close>

primrec sep_by :: "string \<Rightarrow> string list \<Rightarrow> string" where
  "sep_by sep [] = []"
| "sep_by sep (x # xs) = x @ (if xs = [] then [] else sep @ sep_by sep xs)"

fun json_text :: "json \<Rightarrow> string" where
  "json_text JNull = ''null''"
| "json_text (JBool b) = format_bool b"
| "json_text (JNum n) = n"
| "json_text (JStr raw) = dquote # raw @ [dquote]"
| "json_text (JArr vs) = ''['' @ sep_by '','' (map json_text vs) @ '']''"
| "json_text (JObj ms) =
     CHR 0x7B # sep_by '','' (map (\<lambda>m. dquote # fst m @ [dquote, CHR '':''] @ json_text (snd m)) ms) @ [CHR 0x7D]"

definition JString :: "string \<Rightarrow> json" where
  "JString s = JStr (quoted s)"

definition JInt :: "int \<Rightarrow> json" where
  "JInt i = JNum (int_dec i)"

text \<open>\<open>json.NewEncoder(w).Encode(v)\<close>: the text and a newline.\<close>

definition json_Encode :: "json \<Rightarrow> string" where
  "json_Encode v = json_text v @ [CHR 10]"

section \<open>Reading a text\<close>

datatype 'a parse = Parsed 'a string | Reject string | NoFuel

fun bind_parse :: "'a parse \<Rightarrow> ('a \<Rightarrow> string \<Rightarrow> 'b parse) \<Rightarrow> 'b parse" where
  "bind_parse (Parsed a r) f = f a r"
| "bind_parse (Reject m) f = Reject m"
| "bind_parse NoFuel f = NoFuel"

definition is_space :: "char \<Rightarrow> bool" where
  "is_space c = (byte c \<in> {9, 10, 13, 32})"

definition skip_space :: "string \<Rightarrow> string" where
  "skip_space s = dropWhile is_space s"

text \<open>\<open>quoteChar\<close> of the scanner. A byte above ASCII is written as the rune of that number.\<close>

definition quote_for_message :: "char \<Rightarrow> string" where
  "quote_for_message c =
     (let n = byte c in
      if n = 39 then [CHR 39, bslash, CHR 39, CHR 39]
      else if n = 34 then [CHR 39, CHR 34, CHR 39]
      else if n < 128 then CHR 39 # quote_char c @ [CHR 39]
      else if n < 161 \<or> n = 173
      then [CHR 39, bslash, CHR ''u'', CHR ''0'', CHR ''0'', hex_lower (n div 16), hex_lower (n mod 16), CHR 39]
      else CHR 39 # utf8_encode n @ [CHR 39])"

definition unexpected :: "string \<Rightarrow> string \<Rightarrow> 'a parse" where
  "unexpected s context_msg =
     (case s of
        [] \<Rightarrow> Reject ''unexpected EOF''
      | c # _ \<Rightarrow> Reject (''invalid character '' @ quote_for_message c @ '' '' @ context_msg))"

text \<open>The scanner in a string: \<open>raw\<close> up to the closing quote.\<close>

definition cons_raw :: "string \<Rightarrow> string parse \<Rightarrow> string parse" where
  "cons_raw p x = bind_parse x (\<lambda>raw r. Parsed (p @ raw) r)"

fun scan_hex :: "nat \<Rightarrow> string \<Rightarrow> string parse" where
  "scan_hex 0 s = Parsed [] s"
| "scan_hex (Suc n) s =
     (case s of
        [] \<Rightarrow> unexpected s []
      | c # cs \<Rightarrow>
        if hex_digit c = None then unexpected s (''in '' @ bslash # ''u hexadecimal character escape'')
        else cons_raw [c] (scan_hex n cs))"

function scan_string :: "string \<Rightarrow> string parse" where
  "scan_string s =
     (case s of
        [] \<Rightarrow> unexpected s []
      | c # cs \<Rightarrow>
        if c = dquote then Parsed [] cs
        else if c = bslash then
          (case cs of
             [] \<Rightarrow> unexpected cs []
           | e # r \<Rightarrow>
             if e = CHR ''u'' then
               (case scan_hex 4 r of
                  Parsed h _ \<Rightarrow> cons_raw (c # e # h) (scan_string (drop 4 r))
                | Reject m \<Rightarrow> Reject m
                | NoFuel \<Rightarrow> NoFuel)
             else if e \<in> {CHR ''b'', CHR ''f'', CHR ''n'', CHR ''r'', CHR ''t'', bslash, CHR ''/'', dquote}
             then cons_raw [c, e] (scan_string r)
             else unexpected cs ''in string escape code'')
        else if byte c < 32 then unexpected s ''in string literal''
        else cons_raw [c] (scan_string cs))"
  by auto
termination by (relation "measure length") auto

declare scan_string.simps [simp del]

text \<open>Numbers: sign, integer part, fraction, exponent.\<close>

definition scan_digits :: "string \<Rightarrow> string \<Rightarrow> string parse" where
  "scan_digits s context_msg =
     (let ds = takeWhile is_digit s in
      if ds = [] then unexpected s context_msg else Parsed ds (drop (length ds) s))"

definition scan_int :: "string \<Rightarrow> string parse" where
  "scan_int s =
     (case s of
        c # cs \<Rightarrow> if c = CHR ''0'' then Parsed [c] cs else scan_digits s ''in numeric literal''
      | [] \<Rightarrow> unexpected s [])"

definition scan_frac :: "string \<Rightarrow> string parse" where
  "scan_frac s =
     (case s of
        c # cs \<Rightarrow>
          if c = CHR ''.'' then cons_raw [c] (scan_digits cs ''after decimal point in numeric literal'')
          else Parsed [] s
      | [] \<Rightarrow> Parsed [] s)"

definition scan_exp :: "string \<Rightarrow> string parse" where
  "scan_exp s =
     (case s of
        c # cs \<Rightarrow>
          if c = CHR ''e'' \<or> c = CHR ''E'' then
            (case cs of
               d # ds \<Rightarrow>
                 if d = CHR ''+'' \<or> d = CHR ''-''
                 then cons_raw [c, d] (scan_digits ds ''in exponent of numeric literal'')
                 else cons_raw [c] (scan_digits cs ''in exponent of numeric literal'')
             | [] \<Rightarrow> unexpected cs [])
          else Parsed [] s
      | [] \<Rightarrow> Parsed [] s)"

definition scan_number :: "string \<Rightarrow> json parse" where
  "scan_number s =
     (let (sign, s) = (case s of c # cs \<Rightarrow> if c = CHR ''-'' then ([c], cs) else ([], s) | [] \<Rightarrow> ([], s)) in
      bind_parse (scan_int s) (\<lambda>i s.
      bind_parse (scan_frac s) (\<lambda>f s.
      bind_parse (scan_exp s) (\<lambda>e s. Parsed (JNum (sign @ i @ f @ e)) s))))"

text \<open>The rest of \<open>true\<close>, \<open>false\<close> or \<open>null\<close>.\<close>

fun scan_literal :: "string \<Rightarrow> string \<Rightarrow> json \<Rightarrow> string \<Rightarrow> json parse" where
  "scan_literal word [] v s = Parsed v s"
| "scan_literal word (p # ps) v s =
     (case s of
        [] \<Rightarrow> unexpected s []
      | c # cs \<Rightarrow>
        if c = p then scan_literal word ps v cs
        else unexpected s (''in literal '' @ word @ '' (expecting '' @ quote_for_message p @ '')''))"

definition max_depth :: nat where "max_depth = 10000"

definition too_deep :: "char \<Rightarrow> 'a parse" where
  "too_deep c = unexpected [c] ''exceeded max depth''"

text \<open>\<open>d\<close> counts the arrays and objects that are open.\<close>

fun parse_value :: "nat \<Rightarrow> nat \<Rightarrow> string \<Rightarrow> json parse"
  and parse_elems :: "nat \<Rightarrow> nat \<Rightarrow> string \<Rightarrow> json list parse"
  and parse_members :: "nat \<Rightarrow> nat \<Rightarrow> string \<Rightarrow> (string \<times> json) list parse" where
  "parse_value 0 d s = NoFuel"
| "parse_value (Suc n) d s =
     (case skip_space s of
        [] \<Rightarrow> unexpected [] []
      | c # cs \<Rightarrow>
        if c = CHR 0x7B then
          (if d \<ge> max_depth then too_deep c
           else case skip_space cs of
             c' # r \<Rightarrow>
               if c' = CHR 0x7D then Parsed (JObj []) r
               else bind_parse (parse_members n (Suc d) (c' # r)) (\<lambda>ms r. Parsed (JObj ms) r)
           | [] \<Rightarrow> unexpected [] [])
        else if c = CHR ''['' then
          (if d \<ge> max_depth then too_deep c
           else case skip_space cs of
             c' # r \<Rightarrow>
               if c' = CHR '']'' then Parsed (JArr []) r
               else bind_parse (parse_elems n (Suc d) (c' # r)) (\<lambda>vs r. Parsed (JArr vs) r)
           | [] \<Rightarrow> unexpected [] [])
        else if c = dquote then bind_parse (scan_string cs) (\<lambda>raw r. Parsed (JStr raw) r)
        else if c = CHR ''-'' \<or> is_digit c then scan_number (c # cs)
        else if c = CHR ''t'' then scan_literal ''true'' ''rue'' (JBool True) cs
        else if c = CHR ''f'' then scan_literal ''false'' ''alse'' (JBool False) cs
        else if c = CHR ''n'' then scan_literal ''null'' ''ull'' JNull cs
        else unexpected (c # cs) ''looking for beginning of value'')"
| "parse_elems 0 d s = NoFuel"
| "parse_elems (Suc n) d s =
     bind_parse (parse_value n d s) (\<lambda>v r.
       case skip_space r of
         c # r' \<Rightarrow>
           if c = CHR '','' then bind_parse (parse_elems n d r') (\<lambda>vs r. Parsed (v # vs) r)
           else if c = CHR '']'' then Parsed [v] r'
           else unexpected (c # r') ''after array element''
       | [] \<Rightarrow> unexpected [] [])"
| "parse_members 0 d s = NoFuel"
| "parse_members (Suc n) d s =
     (case skip_space s of
        c # cs \<Rightarrow>
          if c = dquote then
            bind_parse (scan_string cs) (\<lambda>k r.
              case skip_space r of
                c # r' \<Rightarrow>
                  if c = CHR '':'' then
                    bind_parse (parse_value n d r') (\<lambda>v r.
                      case skip_space r of
                        c # r' \<Rightarrow>
                          if c = CHR '','' then bind_parse (parse_members n d r') (\<lambda>ms r. Parsed ((k, v) # ms) r)
                          else if c = CHR 0x7D then Parsed [(k, v)] r'
                          else unexpected (c # r') ''after object key:value pair''
                      | [] \<Rightarrow> unexpected [] [])
                  else unexpected (c # r') ''after object key''
              | [] \<Rightarrow> unexpected [] [])
          else unexpected (c # cs) ''looking for beginning of object key string''
      | [] \<Rightarrow> unexpected [] [])"

declare parse_value.simps [simp del] parse_elems.simps [simp del] parse_members.simps [simp del]

text \<open>\<open>json.NewDecoder(r).Decode\<close> up to the tree: the first value of the stream; what follows it is not
  read. The fuel bounds the nesting of calls, which the text's length does.\<close>

definition json_Decode :: "string \<Rightarrow> string + json" where
  "json_Decode s =
     (if skip_space s = [] then Inl ''EOF''
      else case parse_value (3 * length s + 3) 0 s of
             Parsed v r \<Rightarrow> Inr v
           | Reject m \<Rightarrow> Inl m
           | NoFuel \<Rightarrow> Inl ''unexpected EOF'')"

section \<open>The parser always answers\<close>

text \<open>\<open>ends m p\<close>: the parser did not run out of fuel, and leaves at most \<open>m\<close> characters.\<close>

definition ends :: "nat \<Rightarrow> 'a parse \<Rightarrow> bool" where
  "ends m p \<longleftrightarrow> p \<noteq> NoFuel \<and> (\<forall>v r. p = Parsed v r \<longrightarrow> length r \<le> m)"

lemma ends_simps [simp]:
  "ends m (Parsed v r) = (length r \<le> m)" "ends m (Reject e)" "\<not> ends m NoFuel" "ends m (unexpected s e)"
  "ends m (too_deep c)"
  by (auto simp: ends_def unexpected_def too_deep_def split: list.splits)

lemma ends_bind:
  assumes "ends m p" "\<And>v r. length r \<le> m \<Longrightarrow> ends n (f v r)"
  shows "ends n (bind_parse p f)"
  using assms by (cases p) auto

lemma ends_cons_raw [simp]: "ends m (cons_raw p x) = ends m x"
  by (cases x) (simp_all add: cons_raw_def)

lemma ends_mono: "ends m p \<Longrightarrow> m \<le> n \<Longrightarrow> ends n p"
  by (auto simp: ends_def)

lemma ends_if:
  "(P \<Longrightarrow> ends m a) \<Longrightarrow> (\<not> P \<Longrightarrow> ends m b) \<Longrightarrow> ends m (if P then a else b)"
  by simp

lemma ends_case_list:
  "(s = [] \<Longrightarrow> ends m a) \<Longrightarrow> (\<And>c r. s = c # r \<Longrightarrow> ends m (f c r)) \<Longrightarrow> ends m (case s of [] \<Rightarrow> a | c # r \<Rightarrow> f c r)"
  by (cases s) simp_all

lemmas ends_intros = ends_if ends_case_list

lemma scan_hex_not_NoFuel: "scan_hex n s \<noteq> NoFuel"
proof -
  have "ends (length s) (scan_hex n s)"
    by (induction n s rule: scan_hex.induct) (auto split: list.splits intro: ends_mono)
  then show ?thesis by auto
qed

lemma scan_string_ends: "ends (length s - 1) (scan_string s)"
proof (induction s rule: measure_induct_rule [of length])
  case (less s)
  have step: "ends (length s - 1) (scan_string t)" if "length t < length s" for t
    using less [OF that] that by (auto intro: ends_mono)
  have hex: "ends (length s - 1) (case scan_hex 4 r of Parsed h _ \<Rightarrow> cons_raw (p h) (scan_string (drop 4 r))
      | Reject m \<Rightarrow> Reject m | NoFuel \<Rightarrow> NoFuel)" if "length r < length s" for p r
    using step [of "drop 4 r"] that scan_hex_not_NoFuel [of 4 r] by (auto split: parse.split)
  show ?case
    unfolding scan_string.simps [of s]
    by (intro ends_intros ends_cons_raw [THEN iffD2] hex step) simp_all
qed

lemma scan_digits_ends: "ends (length s - 1) (scan_digits s e)"
proof (cases "takeWhile is_digit s")
  case (Cons c cs)
  then show ?thesis by (simp add: scan_digits_def Let_def)
qed (simp add: scan_digits_def)

lemma scan_number_ends: "ends (length s - 1) (scan_number s)"
proof -
  have i: "ends (length s - 1) (scan_int s)" for s
    using scan_digits_ends [of s] by (auto simp: scan_int_def split: list.splits)
  have f: "ends (length s) (scan_frac s)" for s
    by (auto simp: scan_frac_def split: list.splits intro: ends_mono [OF scan_digits_ends])
  have e: "ends (length s) (scan_exp s)" for s
    by (auto simp: scan_exp_def split: list.splits intro: ends_mono [OF scan_digits_ends])
  have "ends (length t - 1) (bind_parse (scan_int t) (\<lambda>i s. bind_parse (scan_frac s) (\<lambda>f s.
      bind_parse (scan_exp s) (\<lambda>e s. Parsed (JNum (sign @ i @ f @ e)) s))))" for t sign
  proof (rule ends_bind [OF i])
    fix v r assume "length (r :: string) \<le> length t - 1"
    then show "ends (length t - 1) (bind_parse (scan_frac r) (\<lambda>f s.
        bind_parse (scan_exp s) (\<lambda>e s. Parsed (JNum (sign @ v @ f @ e)) s)))"
      by (intro ends_bind [OF f] ends_bind [OF e]) auto
  qed
  from this [of s "[]"] this [of "tl s" "''-''"] show ?thesis
    by (auto simp: scan_number_def Let_def split: list.splits intro: ends_mono)
qed

lemma scan_literal_ends: "ends (length s) (scan_literal word ps v s)"
  by (induction word ps v s rule: scan_literal.induct) (auto split: list.splits intro: ends_mono)

lemma skip_space_length: "length (skip_space s) \<le> length s"
  by (simp add: skip_space_def length_dropWhile_le)

lemma skip_space_ConsD: "skip_space s = c # cs \<Longrightarrow> length cs < length s"
  using skip_space_length [of s] by simp

lemma parse_fuel:
  "(2 * length s < n \<longrightarrow> ends (length s - 1) (parse_value n d s)) \<and>
   (2 * length s + 1 < n \<longrightarrow> ends (length s - 1) (parse_elems n d s)) \<and>
   (2 * length s + 1 < n \<longrightarrow> ends (length s - 1) (parse_members n d s))"
proof (induction n arbitrary: s d)
  case (Suc n)
  note V = Suc [THEN conjunct1, rule_format]
  note E = Suc [THEN conjunct2, THEN conjunct1, rule_format]
  note M = Suc [THEN conjunct2, THEN conjunct2, rule_format]
  show ?case
  proof (intro conjI impI)
    assume len: "2 * length s < Suc n"
    have sub: "ends (length s - 1) (bind_parse (parse_members n (Suc d) t) (\<lambda>ms r. Parsed (JObj ms) r)) \<and>
        ends (length s - 1) (bind_parse (parse_elems n (Suc d) t) (\<lambda>vs r. Parsed (JArr vs) r))"
      if "length t < length s" for t
      using that len by (intro conjI ends_bind [OF M] ends_bind [OF E]) auto
    show "ends (length s - 1) (parse_value (Suc n) d s)"
    proof (cases "skip_space s")
      case (Cons c cs)
      have cs: "length cs < length s" by (rule skip_space_ConsD [OF Cons])
      have tail: "length (c' # r) < length s" "length r \<le> length s - 1" if "skip_space cs = c' # r" for c' r
        using skip_space_length [of cs] that cs by auto
      have str: "ends (length s - 1) (bind_parse (scan_string cs) (\<lambda>raw r. Parsed (JStr raw) r))"
        using cs by (intro ends_bind [OF scan_string_ends]) auto
      have num: "ends (length s - 1) (scan_number (c # cs))" using cs by (intro ends_mono [OF scan_number_ends]) auto
      have lit: "ends (length s - 1) (scan_literal a b v cs)" for a b v
        using cs by (intro ends_mono [OF scan_literal_ends]) auto
      show ?thesis
        unfolding parse_value.simps Cons list.case
        by (intro ends_intros str num lit sub [THEN conjunct1] sub [THEN conjunct2] tail(1)) (auto dest: tail(2))
    qed (simp add: parse_value.simps)
  next
    assume len: "2 * length s + 1 < Suc n"
    show "ends (length s - 1) (parse_elems (Suc n) d s)"
      unfolding parse_elems.simps
    proof (rule ends_bind [OF V])
      fix v r assume r: "length (r :: string) \<le> length s - 1"
      have "ends (length s - 1) (bind_parse (parse_elems n d r') (\<lambda>vs r. Parsed (v # vs) r))"
        "length r' \<le> length s - 1"
        if "skip_space r = c # r'" for c r'
        using skip_space_ConsD [OF that] r len by (auto intro!: ends_bind [OF E])
      then show "ends (length s - 1) (case skip_space r of [] \<Rightarrow> unexpected [] []
         | c # r' \<Rightarrow> if c = CHR '','' then bind_parse (parse_elems n d r') (\<lambda>vs. Parsed (v # vs))
                    else if c = CHR '']'' then Parsed [v] r' else unexpected (c # r') ''after array element'')"
        by (auto split: list.splits)
    qed (use len in auto)
  next
    assume len: "2 * length s + 1 < Suc n"
    have last: "ends (length s - 1) (case skip_space r of [] \<Rightarrow> unexpected [] []
         | c # r' \<Rightarrow> if c = CHR '','' then bind_parse (parse_members n d r') (\<lambda>ms. Parsed ((k, v) # ms))
                    else if c = CHR 0x7D then Parsed [(k, v)] r' else unexpected (c # r') ''after object key:value pair'')"
      if "length r < length s" for r k v
    proof (cases "skip_space r")
      case (Cons c r')
      have "length r' < length r" by (rule skip_space_ConsD [OF Cons])
      then show ?thesis using that len by (auto simp: Cons intro!: ends_bind [OF M])
    qed simp
    have key: "ends (length s - 1) (case skip_space r of [] \<Rightarrow> unexpected [] []
         | c # r' \<Rightarrow> if c = CHR '':'' then bind_parse (parse_value n d r') (\<lambda>v r.
              case skip_space r of [] \<Rightarrow> unexpected [] []
              | c # r' \<Rightarrow> if c = CHR '','' then bind_parse (parse_members n d r') (\<lambda>ms. Parsed ((k, v) # ms))
                         else if c = CHR 0x7D then Parsed [(k, v)] r' else unexpected (c # r') ''after object key:value pair'')
            else unexpected (c # r') ''after object key'')"
      if "length r < length s" for r k
    proof (cases "skip_space r")
      case (Cons c r')
      have "length r' < length r" by (rule skip_space_ConsD [OF Cons])
      then show ?thesis
        using that len unfolding Cons list.case by (intro ends_if ends_bind [OF V] last) auto
    qed simp
    show "ends (length s - 1) (parse_members (Suc n) d s)"
    proof (cases "skip_space s")
      case (Cons c cs)
      have "length cs < length s" by (rule skip_space_ConsD [OF Cons])
      then show ?thesis
        unfolding parse_members.simps Cons list.case
        by (intro ends_if ends_bind [OF scan_string_ends] key) auto
    qed (simp add: parse_members.simps)
  qed
qed simp

section \<open>Reading back what was written\<close>

lemma scan_string_simps:
  "scan_string (dquote # r) = Parsed [] r"
  "c \<noteq> dquote \<Longrightarrow> c \<noteq> bslash \<Longrightarrow> 32 \<le> byte c \<Longrightarrow> scan_string (c # cs) = cons_raw [c] (scan_string cs)"
  "e \<in> {CHR ''b'', CHR ''f'', CHR ''n'', CHR ''r'', CHR ''t'', bslash, CHR ''/'', dquote} \<Longrightarrow>
     scan_string (bslash # e # r) = cons_raw [bslash, e] (scan_string r)"
  by (subst scan_string.simps; auto)+

definition scannable :: "string \<Rightarrow> bool" where
  "scannable p \<longleftrightarrow> (\<forall>r. scan_string (p @ r) = cons_raw p (scan_string r))"

lemma cons_raw_append: "cons_raw p (cons_raw q x) = cons_raw (p @ q) x"
  by (cases x) (simp_all add: cons_raw_def)

lemma scannable_append: "scannable p \<Longrightarrow> scannable q \<Longrightarrow> scannable (p @ q)"
  by (simp add: scannable_def cons_raw_append)

lemma scannable_Nil [simp]: "scannable []"
proof -
  have "x = cons_raw [] x" for x by (cases x) (simp_all add: cons_raw_def)
  then show ?thesis by (simp add: scannable_def)
qed

lemma scannable_char: "c \<noteq> dquote \<Longrightarrow> c \<noteq> bslash \<Longrightarrow> 32 \<le> byte c \<Longrightarrow> scannable [c]"
  by (simp add: scannable_def scan_string_simps)

lemma scannable_chars:
  "(\<And>c. c \<in> set s \<Longrightarrow> c \<noteq> dquote \<and> c \<noteq> bslash \<and> 32 \<le> byte c) \<Longrightarrow> scannable s"
proof (induction s)
  case (Cons c s)
  have "scannable ([c] @ s)" using Cons by (intro scannable_append scannable_char) auto
  then show ?case by simp
qed simp

lemma scannable_u:
  assumes "hex_digit a \<noteq> None" "hex_digit b \<noteq> None" "hex_digit c \<noteq> None" "hex_digit d \<noteq> None"
  shows "scannable [bslash, CHR ''u'', a, b, c, d]"
  using assms unfolding scannable_def
  by (subst scan_string.simps) (auto simp: cons_raw_def numeral_eq_Suc)

lemma scannable_ascii: "scannable (quote_ascii c)"
proof -
  have h: "hex_digit (hex_lower (byte c div 16)) \<noteq> None" "hex_digit (hex_lower (byte c mod 16)) \<noteq> None"
    using less_mult_imp_div_less [of "byte c" 16 16] nat_of_char_less_256 [of c] by simp_all
  have z: "hex_digit (CHR ''0'') \<noteq> None" by (simp add: hex_digit_def)
  have e: "scannable [bslash, e]"
    if "e \<in> {CHR ''b'', CHR ''f'', CHR ''n'', CHR ''r'', CHR ''t'', bslash, CHR ''/'', dquote}" for e
    using scan_string_simps(3) [OF that] by (simp add: scannable_def)
  have q: "c \<in> {dquote, bslash}" if "byte c = 34 \<or> byte c = 92"
    using that byte_eq_iff [of c dquote] byte_eq_iff [of c bslash] by auto
  consider "byte c = 34 \<or> byte c = 92" | "byte c \<in> {8, 9, 10, 12, 13}"
    | "byte c < 32 \<or> byte c \<in> {38, 60, 62}" "byte c \<notin> {8, 9, 10, 12, 13, 34, 92}"
    | "\<not> byte c < 32" "byte c \<notin> {34, 38, 60, 62, 92}" by auto
  then show ?thesis
  proof cases
    case 1 then show ?thesis using e [of c] q by (auto simp: quote_ascii_def)
  next
    case 2 then show ?thesis by (auto simp: quote_ascii_def intro!: e)
  next
    case 3 then show ?thesis using scannable_u [OF z z h] by (auto simp: quote_ascii_def Let_def)
  next
    case 4
    then have "c \<noteq> dquote" "c \<noteq> bslash" by auto
    with 4 scannable_char [of c] show ?thesis by (simp add: quote_ascii_def Let_def)
  qed
qed

lemma cont_high: "cont lo hi (drop i s) \<Longrightarrow> 128 \<le> lo \<Longrightarrow> i < length s \<and> 128 \<le> byte (s ! i)"
  using cont_length [of lo hi i s] by (cases "drop i s") (auto simp: cont_def nth_via_drop)

lemma rune_tail_high:
  assumes "rune_tail c cs = Some n" "d \<in> set (take n cs)"
  shows "128 \<le> byte d"
proof -
  obtain i where i: "i < n" "i < length cs" "d = cs ! i"
    using assms(2) by (auto simp: in_set_conv_nth)
  have "n \<le> 3" using rune_tail_length [OF assms(1)] by simp
  then have "i = 0 \<or> i = 1 \<or> i = 2" using i by auto
  then show ?thesis
    using assms(1) i cont_high [of _ _ 0 cs] cont_high [of _ _ 1 cs] cont_high [of _ _ 2 cs]
    by (auto simp: rune_tail_def Let_def split: if_splits)
qed

lemma scannable_quoted: "scannable (quoted s)"
proof (induction s rule: quoted.induct)
  case (2 c cs)
  have f: "scannable (bslash # ''ufffd'')" "scannable (bslash # ''u2028'')" "scannable (bslash # ''u2029'')"
    by (rule scannable_u; simp add: hex_digit_def)+
  show ?case
  proof (cases "byte c < 128")
    case True
    with 2 scannable_append [OF scannable_ascii] show ?thesis by simp
  next
    case False
    show ?thesis
    proof (cases "rune_tail c cs")
      case None
      with False 2 scannable_append [OF f(1), of "quoted cs"] show ?thesis by simp
    next
      case (Some n)
      have "128 \<le> byte d" if "d \<in> set (c # take n cs)" for d
        using that rune_tail_high [OF Some, of d] False by auto
      then have "d \<noteq> dquote \<and> d \<noteq> bslash \<and> 32 \<le> byte d" if "d \<in> set (c # take n cs)" for d
        using that by fastforce
      then have "scannable (c # take n cs)" by (rule scannable_chars)
      with f have "scannable (quote_rune (c # take n cs))" by (auto simp: quote_rune_def)
      with False 2 Some show ?thesis by (simp add: scannable_append)
    qed
  qed
qed simp

text \<open>Integer literals.\<close>

text \<open>What may follow a value in a written text.\<close>

definition delim :: "string \<Rightarrow> bool" where
  "delim r \<longleftrightarrow> r = [] \<or> hd r \<in> {CHR '','', CHR '']'', CHR 0x7D, CHR 10}"

lemma delim_simps [simp]:
  "delim (CHR '','' # r)" "delim (CHR '']'' # r)" "delim (CHR 0x7D # r)" "delim (CHR 10 # r)" "delim []"
  by (simp_all add: delim_def)

lemma delim_not_digit: "delim r \<Longrightarrow> takeWhile is_digit r = []"
  by (cases r) (auto simp: delim_def is_digit_def)

lemma delim_frac_exp: "delim r \<Longrightarrow> scan_frac r = Parsed [] r \<and> scan_exp r = Parsed [] r"
  by (cases r) (auto simp: delim_def scan_frac_def scan_exp_def)

lemma scan_int_nat_dec:
  assumes "delim r"
  shows "scan_int (nat_dec n @ r) = Parsed (nat_dec n) r"
proof (cases "n = 0")
  case True
  then show ?thesis by (simp add: scan_int_def nat_dec.simps digit_char_def)
next
  case False
  obtain d ds where dd: "nat_dec n = d # ds" using nat_dec_digits [of n] by (cases "nat_dec n") auto
  have "takeWhile is_digit (nat_dec n @ r) = nat_dec n"
    using nat_dec_digits [of n] delim_not_digit [OF assms] by (simp add: takeWhile_append2 list_all_iff)
  moreover have "d \<noteq> CHR ''0''" using nat_dec_head [of n] False dd by simp
  ultimately show ?thesis by (simp add: scan_int_def dd scan_digits_def Let_def)
qed

lemma scan_number_int_dec:
  assumes "delim r"
  shows "scan_number (int_dec i @ r) = Parsed (JNum (int_dec i)) r"
proof -
  have "(case nat_dec n @ r of [] \<Rightarrow> ([], nat_dec n @ r)
      | c # cs \<Rightarrow> if c = CHR ''-'' then ([c], cs) else ([], nat_dec n @ r)) = ([], nat_dec n @ r)" for n
  proof -
    obtain d ds where dd: "nat_dec n = d # ds" using nat_dec_digits [of n] by (cases "nat_dec n") auto
    then have "d \<noteq> CHR ''-''" using nat_dec_digits [of n] by (auto simp: is_digit_def)
    then show ?thesis by (simp add: dd)
  qed
  with scan_int_nat_dec [OF assms] delim_frac_exp [OF assms] show ?thesis
    by (simp add: scan_number_def int_dec_def)
qed

text \<open>The trees the program writes: integer literals, quoted strings.\<close>

fun written :: "json \<Rightarrow> bool" where
  "written (JNum n) = (\<exists>i. n = int_dec i)"
| "written (JStr raw) = scannable raw"
| "written (JArr vs) = (\<forall>v \<in> set vs. written v)"
| "written (JObj ms) = (\<forall>m \<in> set ms. scannable (fst m) \<and> written (snd m))"
| "written v = True"

fun nesting :: "json \<Rightarrow> nat" where
  "nesting (JArr vs) = Suc (fold max (map nesting vs) 0)"
| "nesting (JObj ms) = Suc (fold max (map (\<lambda>m. nesting (snd m)) ms) 0)"
| "nesting v = 0"

lemma fold_max_ge: "x \<in> set xs \<Longrightarrow> x \<le> fold max xs (m :: nat)"
proof -
  have low: "m \<le> fold max xs m" for xs and m :: nat
  proof (induction xs arbitrary: m)
    case (Cons a xs)
    from Cons [of "max a m"] show ?case by simp
  qed simp
  show "x \<in> set xs \<Longrightarrow> x \<le> fold max xs m"
  proof (induction xs arbitrary: m)
    case (Cons a xs)
    with low [of "max a m" xs] show ?case by auto
  qed simp
qed

lemma scan_string_raw: "scannable raw \<Longrightarrow> scan_string (raw @ dquote # r) = Parsed raw r"
  by (simp add: scannable_def scan_string_simps cons_raw_def)

lemma int_dec_head: "\<exists>c cs. int_dec i = c # cs \<and> (c = CHR ''-'' \<or> is_digit c)"
  using nat_dec_digits [of "nat i"] by (cases "nat_dec (nat i)") (auto simp: int_dec_def)

lemma digit_not_space: "is_digit c \<Longrightarrow> \<not> is_space c"
  by (auto simp: is_digit_def is_space_def)

lemma skip_space_text:
  assumes "written v"
  shows "skip_space (json_text v @ r) = json_text v @ r"
proof -
  have "\<exists>c cs. json_text v = c # cs \<and> \<not> is_space c"
  proof (cases v)
    case (JNum n)
    with assms int_dec_head digit_not_space show ?thesis by (fastforce simp: is_space_def)
  qed (simp_all add: is_space_def format_bool_def)
  then show ?thesis by (auto simp: skip_space_def)
qed

definition reads_back :: "json \<Rightarrow> bool" where
  "reads_back v \<longleftrightarrow> (\<forall>n d r. nesting v + d \<le> max_depth \<longrightarrow> 2 * length (json_text v) < n \<longrightarrow> delim r \<longrightarrow>
     parse_value n d (json_text v @ r) = Parsed v r)"

lemma reads_backD:
  "reads_back v \<Longrightarrow> nesting v + d \<le> max_depth \<Longrightarrow> 2 * length (json_text v) < n \<Longrightarrow> delim r \<Longrightarrow>
   parse_value n d (json_text v @ r) = Parsed v r"
  by (simp add: reads_back_def)

lemma skip_space_simps [simp]:
  "skip_space (CHR '','' # r) = CHR '','' # r" "skip_space (CHR '']'' # r) = CHR '']'' # r"
  "skip_space (CHR 0x7D # r) = CHR 0x7D # r" "skip_space (dquote # r) = dquote # r"
  "skip_space (CHR '':'' # r) = CHR '':'' # r" "skip_space (CHR ''['' # r) = CHR ''['' # r"
  "skip_space (CHR 0x7B # r) = CHR 0x7B # r"
  by (simp_all add: skip_space_def is_space_def)

lemma parse_elems_text:
  assumes "vs \<noteq> []" "\<And>v. v \<in> set vs \<Longrightarrow> reads_back v \<and> nesting v + d \<le> max_depth"
    "2 * length (sep_by '','' (map json_text vs)) + 1 < n"
  shows "parse_elems n d (sep_by '','' (map json_text vs) @ CHR '']'' # r) = Parsed vs r"
  using assms
proof (induction vs arbitrary: n)
  case (Cons v vs)
  obtain m where n: "n = Suc m" using Cons.prems(3) by (cases n) auto
  have v: "parse_value m d (json_text v @ s) = Parsed v s" if "delim s" for s
    using Cons.prems(2) [of v] Cons.prems(3) that by (intro reads_backD) (auto simp: n)
  show ?case
  proof (cases "vs = []")
    case True
    with v show ?thesis by (simp add: n parse_elems.simps)
  next
    case False
    have "parse_elems m d (sep_by '','' (map json_text vs) @ CHR '']'' # r) = Parsed vs r"
      using Cons.prems False by (intro Cons.IH) (auto simp: n)
    with v False show ?thesis by (simp add: n parse_elems.simps)
  qed
qed simp

abbreviation member_text :: "string \<times> json \<Rightarrow> string" where
  "member_text m \<equiv> dquote # fst m @ [dquote, CHR '':''] @ json_text (snd m)"

lemma parse_members_text:
  assumes "ms \<noteq> []"
    "\<And>m. m \<in> set ms \<Longrightarrow> scannable (fst m) \<and> reads_back (snd m) \<and> nesting (snd m) + d \<le> max_depth"
    "2 * length (sep_by '','' (map member_text ms)) + 1 < n"
  shows "parse_members n d (sep_by '','' (map member_text ms) @ CHR 0x7D # r) = Parsed ms r"
  using assms
proof (induction ms arbitrary: n)
  case (Cons m ms)
  obtain l where n: "n = Suc l" using Cons.prems(3) by (cases n) auto
  have v: "parse_value l d (json_text (snd m) @ s) = Parsed (snd m) s" if "delim s" for s
    using Cons.prems(2) [of m] Cons.prems(3) that by (intro reads_backD) (auto simp: n)
  have k: "scan_string (fst m @ dquote # s) = Parsed (fst m) s" for s
    using Cons.prems(2) [of m] by (intro scan_string_raw) auto
  show ?case
  proof (cases "ms = []")
    case True
    with v k show ?thesis by (simp add: n parse_members.simps)
  next
    case False
    have "parse_members l d (sep_by '','' (map member_text ms) @ CHR 0x7D # r) = Parsed ms r"
      using Cons.prems False by (intro Cons.IH) (auto simp: n)
    with v k False show ?thesis by (simp add: n parse_members.simps)
  qed
qed simp

lemma parse_words:
  "parse_value (Suc n) d (''null'' @ r) = Parsed JNull r"
  "parse_value (Suc n) d (''true'' @ r) = Parsed (JBool True) r"
  "parse_value (Suc n) d (''false'' @ r) = Parsed (JBool False) r"
  by (simp_all add: parse_value.simps skip_space_def is_space_def is_digit_def)

lemma reads_backI:
  "(\<And>n d r. nesting v + d \<le> max_depth \<Longrightarrow> 2 * length (json_text v) < Suc n \<Longrightarrow> delim r \<Longrightarrow>
     parse_value (Suc n) d (json_text v @ r) = Parsed v r) \<Longrightarrow> reads_back v"
  unfolding reads_back_def by (metis less_imp_Suc_add)

lemma written_reads_back: "written v \<Longrightarrow> reads_back v"
proof (induction v rule: written.induct)
  case (1 k)
  then obtain i where i: "k = int_dec i" by auto
  obtain c cs where c: "int_dec i = c # cs" "c = CHR ''-'' \<or> is_digit c" using int_dec_head by blast
  have ne: "c \<noteq> CHR 0x7B" "c \<noteq> CHR ''[''" "c \<noteq> dquote" using c(2) by (auto simp: is_digit_def)
  show ?case
    unfolding reads_back_def
  proof (intro allI impI)
    fix n d r assume "2 * length (json_text (JNum k)) < n" "delim r"
    moreover obtain m where "n = Suc m" using \<open>2 * _ < n\<close> by (cases n) auto
    ultimately show "parse_value n d (json_text (JNum k) @ r) = Parsed (JNum k) r"
      using skip_space_text [of "JNum k" r] 1 scan_number_int_dec [of r i] c ne
      by (simp add: parse_value.simps i)
  qed
next
  case (2 raw)
  then show ?case
    by (auto simp: reads_back_def parse_value.simps scan_string_raw gr0_conv_Suc less_Suc_eq_0_disj
        dest!: less_imp_Suc_add)
next
  case (3 vs)
  show ?case
    unfolding reads_back_def
  proof (intro allI impI)
    fix n d r assume h: "nesting (JArr vs) + d \<le> max_depth" "2 * length (json_text (JArr vs)) < n"
    obtain m where n: "n = Suc m" using h(2) by (cases n) auto
    have e: "reads_back v \<and> nesting v + Suc d \<le> max_depth" if "v \<in> set vs" for v
      using 3 that h(1) fold_max_ge [of "nesting v" "map nesting vs" 0] by auto
    show "parse_value n d (json_text (JArr vs) @ r) = Parsed (JArr vs) r"
    proof (cases vs)
      case Nil
      then show ?thesis using h(1) by (simp add: n parse_value.simps)
    next
      case (Cons v ws)
      have "parse_elems m (Suc d) (sep_by '','' (map json_text vs) @ CHR '']'' # r) = Parsed vs r"
        using e h(2) Cons by (intro parse_elems_text) (auto simp: n)
      moreover have "skip_space (sep_by '','' (map json_text vs) @ CHR '']'' # r) =
          sep_by '','' (map json_text vs) @ CHR '']'' # r"
        using skip_space_text [of v] 3 Cons by simp
      moreover have "\<exists>c cs. json_text v = c # cs \<and> c \<noteq> CHR '']''"
        using 3 Cons int_dec_head by (cases v) (fastforce simp: format_bool_def is_digit_def)+
      ultimately show ?thesis using h(1) Cons by (auto simp: n parse_value.simps)
    qed
  qed
next
  case (4 ms)
  show ?case
    unfolding reads_back_def
  proof (intro allI impI)
    fix n d r assume h: "nesting (JObj ms) + d \<le> max_depth" "2 * length (json_text (JObj ms)) < n"
    obtain l where n: "n = Suc l" using h(2) by (cases n) auto
    have e: "scannable (fst m) \<and> reads_back (snd m) \<and> nesting (snd m) + Suc d \<le> max_depth" if "m \<in> set ms" for m
      using 4 that h(1) fold_max_ge [of "nesting (snd m)" "map (\<lambda>m. nesting (snd m)) ms" 0] by auto
    show "parse_value n d (json_text (JObj ms) @ r) = Parsed (JObj ms) r"
    proof (cases ms)
      case Nil
      then show ?thesis using h(1) by (simp add: n parse_value.simps)
    next
      case (Cons m ns)
      have "parse_members l (Suc d) (sep_by '','' (map member_text ms) @ CHR 0x7D # r) = Parsed ms r"
        using e h(2) Cons by (intro parse_members_text) (auto simp: n)
      then show ?thesis using h(1) Cons by (auto simp: n parse_value.simps)
    qed
  qed
next
  case "5_1"
  show ?case by (rule reads_backI) (use parse_words in simp)
next
  fix b
  show "reads_back (JBool b)" by (rule reads_backI, cases b) (use parse_words in \<open>simp_all add: format_bool_def\<close>)
qed

theorem json_Decode_Encode:
  assumes "written v" "nesting v \<le> max_depth"
  shows "json_Decode (json_Encode v) = Inr v"
proof -
  have ne: "skip_space (json_Encode v) \<noteq> []"
    using skip_space_text [OF assms(1), of "[CHR 10]"] by (simp add: json_Encode_def)
  have "parse_value (3 * length (json_Encode v) + 3) 0 (json_text v @ [CHR 10]) = Parsed v [CHR 10]"
    using assms by (intro reads_backD written_reads_back) (auto simp: json_Encode_def)
  then show ?thesis using ne by (simp add: json_Decode_def json_Encode_def)
qed

end
