(* ===== verification/JsonFields.thy ===== *)
theory JsonFields
  imports Json
begin

text \<open>
  How \<open>encoding/json\<close> stores a tree into Go values: strings, booleans, 64-bit integers, times,
  slices and structs. A value of the wrong kind is remembered as an \<open>UnmarshalTypeError\<close> and decoding
  goes on, so that the first of these errors is reported at the end; an error of an \<open>UnmarshalJSON\<close>
  method (here that of \<open>time.Time\<close>) ends the decoding at once. A field is found by its exact name,
  or else without regard to case; an unknown key is skipped.
\<close>

type_synonym 'a stored = "go_error + 'a \<times> go_error option"

text \<open>The struct being decoded and the path of field names that leads to the value.\<close>

type_synonym field_ctx = "string \<times> string list"

type_synonym 'a store = "field_ctx \<Rightarrow> json \<Rightarrow> 'a \<times> go_error option \<Rightarrow> 'a stored"

definition type_error :: "field_ctx \<Rightarrow> string \<Rightarrow> string \<Rightarrow> go_error" where
  "type_error c kind goType =
     (let (struct, path) = c in
      if struct = [] \<and> path = []
      then ErrorString (''json: cannot unmarshal '' @ kind @ '' into Go value of type '' @ goType)
      else ErrorString (''json: cannot unmarshal '' @ kind @ '' into Go struct field '' @ struct @ ''.'' @
             sep_by ''.'' path @ '' of type '' @ goType))"

definition save_error :: "go_error option \<Rightarrow> go_error \<Rightarrow> go_error option" where
  "save_error saved e = (case saved of None \<Rightarrow> Some e | Some d \<Rightarrow> Some d)"

primrec kind_of :: "json \<Rightarrow> string" where
  "kind_of JNull = ''null''"
| "kind_of (JBool b) = ''bool''"
| "kind_of (JNum n) = ''number''"
| "kind_of (JStr raw) = ''string''"
| "kind_of (JArr vs) = ''array''"
| "kind_of (JObj ms) = ''object''"

definition mismatch :: "string \<Rightarrow> field_ctx \<Rightarrow> json \<Rightarrow> 'a \<times> go_error option \<Rightarrow> 'a stored" where
  "mismatch goType c v st =
     (if v = JNull then Inr st
      else Inr (fst st, save_error (snd st) (type_error c (kind_of v) goType)))"

section \<open>Literals\<close>

definition store_string :: "string store" where
  "store_string c v st =
     (case v of JStr raw \<Rightarrow> Inr (unquote raw, snd st) | _ \<Rightarrow> mismatch ''string'' c v st)"

definition store_bool :: "bool store" where
  "store_bool c v st = (case v of JBool b \<Rightarrow> Inr (b, snd st) | _ \<Rightarrow> mismatch ''bool'' c v st)"

text \<open>\<open>strconv.ParseInt(s, 10, 64)\<close> on a JSON number.\<close>

definition parse_int64 :: "string \<Rightarrow> int option" where
  "parse_int64 s =
     (let (neg, ds) = (case s of c # cs \<Rightarrow> if c = CHR ''-'' then (True, cs) else (False, s) | [] \<Rightarrow> (False, s));
          i = (if neg then - int (dec_val ds) else int (dec_val ds))
      in if ds \<noteq> [] \<and> list_all is_digit ds \<and> - (2 ^ 63) \<le> i \<and> i < 2 ^ 63 then Some i else None)"

definition store_int :: "string \<Rightarrow> int store" where
  "store_int goType c v st =
     (case v of
        JNum n \<Rightarrow>
          (case parse_int64 n of
             Some i \<Rightarrow> Inr (i, snd st)
           | None \<Rightarrow> Inr (fst st, save_error (snd st) (type_error c (''number '' @ n) goType)))
      | _ \<Rightarrow> mismatch goType c v st)"

text \<open>\<open>time.Time\<close> is an \<open>Unmarshaler\<close>: it reads the raw literal.\<close>

definition store_time :: "(string \<Rightarrow> go_error + utc) \<Rightarrow> utc store" where
  "store_time general c v st =
     (case v of
        JStr raw \<Rightarrow> (case time_Parse general raw of Inl e \<Rightarrow> Inl e | Inr t \<Rightarrow> Inr (t, snd st))
      | JNull \<Rightarrow> Inr st
      | _ \<Rightarrow> Inl (ErrorString ''Time.UnmarshalJSON: input is not a JSON string''))"

section \<open>Structs and slices\<close>

text \<open>\<open>foldName\<close>: ASCII letters without case; the Kelvin sign and the long s fold to \<open>k\<close> and \<open>s\<close>.\<close>

fun fold_name :: "string \<Rightarrow> string" where
  "fold_name [] = []"
| "fold_name (c # cs) =
     (if map byte (take 3 (c # cs)) = [226, 132, 170] then CHR ''k'' # fold_name (drop 2 cs)
      else if map byte (take 2 (c # cs)) = [197, 191] then CHR ''s'' # fold_name (drop 1 cs)
      else ascii_lower c # fold_name cs)"

definition find_field :: "(string \<times> 'a store) list \<Rightarrow> string \<Rightarrow> (string \<times> 'a store) option" where
  "find_field fds key =
     (case find (\<lambda>f. fst f = key) fds of
        Some f \<Rightarrow> Some f
      | None \<Rightarrow> find (\<lambda>f. fold_name (fst f) = fold_name key) fds)"

fun store_members ::
  "string \<Rightarrow> string list \<Rightarrow> (string \<times> 'a store) list \<Rightarrow> (string \<times> json) list \<Rightarrow>
   'a \<times> go_error option \<Rightarrow> 'a stored" where
  "store_members struct path fds [] st = Inr st"
| "store_members struct path fds (m # ms) st =
     (case find_field fds (unquote (fst m)) of
        None \<Rightarrow> store_members struct path fds ms st
      | Some f \<Rightarrow>
        (case snd f (struct, path @ [fst f]) (snd m) st of
           Inl e \<Rightarrow> Inl e
         | Inr st \<Rightarrow> store_members struct path fds ms st))"

definition store_struct :: "string \<Rightarrow> string \<Rightarrow> (string \<times> 'a store) list \<Rightarrow> 'a store" where
  "store_struct struct goType fds c v st =
     (case v of JObj ms \<Rightarrow> store_members struct (snd c) fds ms st | _ \<Rightarrow> mismatch goType c v st)"

text \<open>A field of a struct, by its selector and its update.\<close>

definition field :: "('s \<Rightarrow> 'a) \<Rightarrow> ('a \<Rightarrow> 's \<Rightarrow> 's) \<Rightarrow> 'a store \<Rightarrow> 's store" where
  "field get put sto c v st =
     (case sto c v (get (fst st), snd st) of
        Inl e \<Rightarrow> Inl e
      | Inr (a, saved) \<Rightarrow> Inr (put a (fst st), saved))"

fun store_elems :: "'a \<Rightarrow> 'a store \<Rightarrow> field_ctx \<Rightarrow> json list \<Rightarrow> go_error option \<Rightarrow> 'a list stored" where
  "store_elems zero sto c [] saved = Inr ([], saved)"
| "store_elems zero sto c (v # vs) saved =
     (case sto c v (zero, saved) of
        Inl e \<Rightarrow> Inl e
      | Inr (a, saved) \<Rightarrow>
        (case store_elems zero sto c vs saved of Inl e \<Rightarrow> Inl e | Inr (as, saved) \<Rightarrow> Inr (a # as, saved)))"

text \<open>A slice that is nil before.\<close>

definition store_slice :: "'a \<Rightarrow> string \<Rightarrow> 'a store \<Rightarrow> 'a list store" where
  "store_slice zero goType sto c v st =
     (case v of JArr vs \<Rightarrow> store_elems zero sto c vs (snd st) | _ \<Rightarrow> mismatch goType c v st)"

text \<open>\<open>json.NewDecoder(r).Decode(&t)\<close>: the scanner's error, or the first error of the stores.\<close>

definition decode_into :: "'a store \<Rightarrow> 'a \<Rightarrow> string \<Rightarrow> go_error + 'a" where
  "decode_into sto zero body =
     (case json_Decode body of
        Inl m \<Rightarrow> Inl (ErrorString m)
      | Inr v \<Rightarrow>
        (case sto ([], []) v (zero, None) of
           Inl e \<Rightarrow> Inl e
         | Inr (a, Some e) \<Rightarrow> Inl e
         | Inr (a, None) \<Rightarrow> Inr a))"

text \<open>The value a failed \<open>Decode\<close> whose error is ignored leaves behind: what was stored before a
  type error stays.\<close>

definition decode_ignoring :: "'a store \<Rightarrow> 'a \<Rightarrow> string \<Rightarrow> 'a" where
  "decode_ignoring sto zero body =
     (case json_Decode body of
        Inl m \<Rightarrow> zero
      | Inr v \<Rightarrow> (case sto ([], []) v (zero, None) of Inl e \<Rightarrow> zero | Inr (a, _) \<Rightarrow> a))"

section \<open>Stored literals are read back\<close>

lemma store_string_JString [simp]: "valid_utf8 s \<Longrightarrow> store_string c (JString s) st = Inr (s, snd st)"
  by (simp add: store_string_def JString_def unquote_quoted)

lemma store_bool_JBool [simp]: "store_bool c (JBool b) st = Inr (b, snd st)"
  by (simp add: store_bool_def)

definition int64 :: "int \<Rightarrow> bool" where
  "int64 i \<longleftrightarrow> - (2 ^ 63) \<le> i \<and> i < 2 ^ 63"

lemma parse_int64_int_dec:
  assumes "int64 i"
  shows "parse_int64 (int_dec i) = Some i"
proof -
  have pos: "parse_int64 (nat_dec n) = (if int64 (int n) then Some (int n) else None)" for n
  proof -
    obtain d ds where dd: "nat_dec n = d # ds" using nat_dec_digits [of n] by (cases "nat_dec n") auto
    then have "d \<noteq> CHR ''-''" using nat_dec_digits [of n] by (auto simp: is_digit_def)
    then show ?thesis
      using nat_dec_digits [of n] dec_val_nat_dec [of n] by (auto simp: parse_int64_def dd int64_def)
  qed
  show ?thesis
  proof (cases "i < 0")
    case True
    then show ?thesis
      using assms nat_dec_digits [of "nat (- i)"]
      by (simp add: int_dec_def parse_int64_def dec_val_nat_dec int64_def Let_def)
  next
    case False
    then show ?thesis using pos [of "nat i"] assms by (simp add: int_dec_def)
  qed
qed

lemma store_int_JInt [simp]: "int64 i \<Longrightarrow> store_int g c (JInt i) st = Inr (i, snd st)"
  by (simp add: store_int_def JInt_def parse_int64_int_dec)

text \<open>The text \<open>MarshalJSON\<close> writes for a time needs no escapes.\<close>

definition JTime :: "utc \<Rightarrow> json" where
  "JTime t = JStr (formatTime t)"

lemma store_time_JTime [simp]: "valid_utc t \<Longrightarrow> store_time general c (JTime t) st = Inr (t, snd st)"
  by (simp add: store_time_def JTime_def time_Parse_formatTime)

definition plain_char :: "char \<Rightarrow> bool" where
  "plain_char c \<longleftrightarrow> c \<noteq> dquote \<and> c \<noteq> bslash \<and> 32 \<le> byte c \<and> byte c < 128"

lemma scannable_plain: "list_all plain_char s \<Longrightarrow> scannable s"
  by (rule scannable_chars) (auto simp: plain_char_def list_all_iff)

lemma unquote_plain: "list_all plain_char s \<Longrightarrow> unquote s = s"
  by (induction s) (auto simp: unquote_simps plain_char_def)

lemma digit_plain: "is_digit c \<Longrightarrow> plain_char c"
  by (auto simp: is_digit_def plain_char_def)

lemma list_all_digit_plain: "list_all is_digit s \<Longrightarrow> list_all plain_char s"
  by (induction s) (simp_all add: digit_plain)

lemma plain_formatTime: "list_all plain_char (formatTime t)"
proof -
  have p: "list_all plain_char (pad w n)" for w n by (rule list_all_digit_plain) simp
  obtain k where "pad 9 (nanos t) = drop_zeros (pad 9 (nanos t)) @ replicate k (CHR ''0'')"
    using drop_zeros_split by blast
  then have "list_all plain_char (drop_zeros (pad 9 (nanos t)))" using p [of 9 "nanos t"] by (metis list_all_append)
  then have "list_all plain_char (format_fraction (nanos t))"
    by (auto simp: format_fraction_def Let_def) (simp add: plain_char_def)
  with p show ?thesis by (simp add: formatTime_def format_seconds_def) (simp add: plain_char_def)
qed

lemma written_values [simp]: "written (JString s)" "written (JInt i)" "written (JTime t)"
  "nesting (JString s) = 0" "nesting (JInt i) = 0" "nesting (JTime t) = 0"
  by (auto simp: JString_def JInt_def JTime_def scannable_quoted scannable_plain plain_formatTime)

lemma store_members_append:
  "store_members s p fs (ms @ ns) st =
     (case store_members s p fs ms st of Inl e \<Rightarrow> Inl e | Inr st \<Rightarrow> store_members s p fs ns st)"
  by (induction s p fs ms st rule: store_members.induct) (auto split: option.splits sum.splits)

text \<open>One member of a written object: the key is plain and names a field exactly.\<close>

lemma store_members_Cons:
  assumes "list_all plain_char k" "find (\<lambda>f. fst f = k) fs = Some (k, field get put sto)"
    "sto (s, p @ [k]) v (get x, e) = Inr (a, saved)"
  shows "store_members s p fs ((k, v) # ms) (x, e) = store_members s p fs ms (put a x, saved)"
  using assms by (simp add: unquote_plain find_field_def field_def)

text \<open>A member with \<open>omitempty\<close> is left out when it is zero, and then the zero value stays.\<close>

definition omit_empty :: "bool \<Rightarrow> string \<Rightarrow> json \<Rightarrow> (string \<times> json) list" where
  "omit_empty isz k v = (if isz then [] else [(k, v)])"

lemma store_members_omit:
  assumes "list_all plain_char k" "find (\<lambda>f. fst f = k) fs = Some (k, field get put sto)"
    "sto (s, p @ [k]) v (get x, e) = Inr (a, e)" "isz \<Longrightarrow> put a x = x"
  shows "store_members s p fs (omit_empty isz k v @ ms) (x, e) = store_members s p fs ms (put a x, e)"
  using store_members_Cons [OF assms(1-3)] assms(4) by (simp add: omit_empty_def)

end
