(* ===== verification/Http.thy ===== *)
theory Http
  imports JsonFields
begin

text \<open>
  Requests, responses and handlers, as the API and the UI use \<open>net/http\<close>.

  \<^item> A request is what the server hands to a handler: the path is a list of decoded segments, the
    media type is what \<open>mime.ParseMediaType\<close> reads off the \<open>Content-Type\<close> header (empty when there is
    none or it is malformed), and \<open>req_multipart\<close> is the outcome of \<open>ParseMultipartForm\<close>.
  \<^item> A response writer keeps the status once it is written; later headers and a second
    \<open>WriteHeader\<close> have no effect on it. \<open>rw_logged\<close> is the status the \<open>recordingResponseWriter\<close> of the
    logging middleware has seen last.
\<close>

record Form =
  form_Value :: "(string \<times> string) list"
  form_File :: "(string \<times> string) list"

record Request =
  req_method :: string
  req_path :: "string list"
  req_query :: "(string \<times> string) list"
  req_mediaType :: string
  req_body :: string
  req_multipart :: "go_error + Form"
  req_ctx :: ctx

record Response =
  rw_status :: "int option"
  rw_header :: "(string \<times> string) list"
  rw_body :: string
  rw_logged :: int

definition fresh_response :: Response where
  "fresh_response = \<lparr>rw_status = None, rw_header = [], rw_body = [], rw_logged = 200\<rparr>"

abbreviation StatusOK :: int where "StatusOK \<equiv> 200"
abbreviation StatusCreated :: int where "StatusCreated \<equiv> 201"
abbreviation StatusIMUsed :: int where "StatusIMUsed \<equiv> 226"
abbreviation StatusSeeOther :: int where "StatusSeeOther \<equiv> 303"
abbreviation StatusBadRequest :: int where "StatusBadRequest \<equiv> 400"
abbreviation StatusNotFound :: int where "StatusNotFound \<equiv> 404"
abbreviation StatusMethodNotAllowed :: int where "StatusMethodNotAllowed \<equiv> 405"
abbreviation StatusConflict :: int where "StatusConflict \<equiv> 409"
abbreviation StatusUnsupportedMediaType :: int where "StatusUnsupportedMediaType \<equiv> 415"
abbreviation StatusInternalServerError :: int where "StatusInternalServerError \<equiv> 500"

section \<open>The response writer\<close>

definition set_header :: "string \<Rightarrow> string \<Rightarrow> Response \<Rightarrow> Response" where
  "set_header k v w =
     (if rw_status w = None then w\<lparr>rw_header := (k, v) # filter (\<lambda>h. fst h \<noteq> k) (rw_header w)\<rparr> else w)"

text \<open>\<open>recordingResponseWriter.WriteHeader\<close>: note the status, then pass it on.\<close>

definition WriteHeader :: "int \<Rightarrow> Response \<Rightarrow> Response" where
  "WriteHeader status w =
     (let w = w\<lparr>rw_logged := status\<rparr> in if rw_status w = None then w\<lparr>rw_status := Some status\<rparr> else w)"

text \<open>\<open>Write\<close> goes straight to the embedded writer, which sends 200 first if nothing was sent.\<close>

definition write_body :: "string \<Rightarrow> Response \<Rightarrow> Response" where
  "write_body s w =
     (let w = (if rw_status w = None then w\<lparr>rw_status := Some StatusOK\<rparr> else w)
      in w\<lparr>rw_body := rw_body w @ s\<rparr>)"

text \<open>What the client gets: a handler that writes nothing answers 200 with an empty body.\<close>

definition sent_status :: "Response \<Rightarrow> int" where
  "sent_status w = (case rw_status w of None \<Rightarrow> StatusOK | Some s \<Rightarrow> s)"

text \<open>\<open>http.Error\<close> and, for a request that is not a \<open>GET\<close>, \<open>http.Redirect\<close>.\<close>

definition http_Error :: "string \<Rightarrow> int \<Rightarrow> Response \<Rightarrow> Response" where
  "http_Error msg status w =
     write_body (msg @ [CHR 10])
       (WriteHeader status
         (set_header ''X-Content-Type-Options'' ''nosniff''
           (set_header ''Content-Type'' ''text/plain; charset=utf-8'' w)))"

definition http_Redirect :: "string \<Rightarrow> int \<Rightarrow> Response \<Rightarrow> Response" where
  "http_Redirect location status w = WriteHeader status (set_header ''Location'' location w)"

section \<open>Reading the request\<close>

definition get_first :: "string \<Rightarrow> (string \<times> string) list \<Rightarrow> string" where
  "get_first k kvs = (case map_of kvs k of None \<Rightarrow> [] | Some v \<Rightarrow> v)"

text \<open>\<open>r.URL.Query().Get(k)\<close>; \<open>r.FormValue(k)\<close> after a multipart form was parsed: the query's values
  come before the form's.\<close>

definition query_Get :: "Request \<Rightarrow> string \<Rightarrow> string" where
  "query_Get r k = get_first k (req_query r)"

definition FormValue :: "Request \<Rightarrow> Form \<Rightarrow> string \<Rightarrow> string" where
  "FormValue r form k = get_first k (req_query r @ form_Value form)"

definition FormFile :: "Form \<Rightarrow> string \<Rightarrow> string option" where
  "FormFile form k = map_of (form_File form) k"

section \<open>Handlers\<close>

type_synonym 'w handler = "Request \<Rightarrow> Response \<Rightarrow> 'w \<Rightarrow> unit res \<times> Response \<times> 'w"

text \<open>A handler that calls a service and answers by its result: \<open>reply\<close> is the rest of the handler. A
  panic in the service leaves the response as it is, and so does a call that does not return.\<close>

definition respond ::
  "'a res \<times> 'w \<Rightarrow> (go_error + 'a \<Rightarrow> Response \<Rightarrow> Response) \<Rightarrow> Response \<Rightarrow> unit res \<times> Response \<times> 'w" where
  "respond m reply resp =
     (case m of
        (Ok a, w) \<Rightarrow> (Ok (), reply (Inr a) resp, w)
      | (Err e, w) \<Rightarrow> (Ok (), reply (Inl e) resp, w)
      | (Panic p, w) \<Rightarrow> (Panic p, resp, w)
      | (Hang, w) \<Rightarrow> (Hang, resp, w))"

lemma respond_simps [simp]:
  "respond (Ok a, w) reply resp = (Ok (), reply (Inr a) resp, w)"
  "respond (Err e, w) reply resp = (Ok (), reply (Inl e) resp, w)"
  "respond (Panic p, w) reply resp = (Panic p, resp, w)"
  "respond (Hang, w) reply resp = (Hang, resp, w)"
  by (simp_all add: respond_def)

lemma respond_world: "snd (snd (respond m reply resp)) = snd m"
  by (cases m; cases "fst m") auto

lemma respond_returns: "returns (fst m) \<Longrightarrow> fst (respond m reply resp) = Ok ()"
  by (cases m; cases "fst m") auto

section \<open>The mux\<close>

text \<open>Patterns of \<open>http.ServeMux\<close>: a method, segments that are literal or a wildcard, and whether the
  pattern ends in \<open>/\<close> and so matches every path below it. A pattern with \<open>{$}\<close> matches only the root,
  whose path has no segments.\<close>

datatype segment = Lit string | Wild string

record pattern =
  pat_method :: string
  pat_segments :: "segment list"
  pat_subtree :: bool

fun match_segments :: "segment list \<Rightarrow> bool \<Rightarrow> string list \<Rightarrow> (string \<times> string) list option" where
  "match_segments [] subtree [] = Some []"
| "match_segments [] subtree (p # ps) = (if subtree then Some [] else None)"
| "match_segments (s # ss) subtree [] = None"
| "match_segments (Lit l # ss) subtree (p # ps) =
     (if l = p then match_segments ss subtree ps else None)"
| "match_segments (Wild x # ss) subtree (p # ps) =
     (if p = [] then None else map_option (\<lambda>bs. (x, p) # bs) (match_segments ss subtree ps))"

definition match_method :: "string \<Rightarrow> string \<Rightarrow> bool" where
  "match_method pm m \<longleftrightarrow> pm = m \<or> pm = ''GET'' \<and> m = ''HEAD''"

text \<open>The first of the patterns that match; the order of a route list puts the more specific pattern
  first (literals before wildcards), as the mux prefers it.\<close>

datatype 'h routed = Route 'h "(string \<times> string) list" | MethodNotAllowed | NotFound

definition route :: "(pattern \<times> 'h) list \<Rightarrow> string \<Rightarrow> string list \<Rightarrow> 'h routed" where
  "route table m path =
     (let hits = concat (map (\<lambda>(p, h). case match_segments (pat_segments p) (pat_subtree p) path of
                                         None \<Rightarrow> [] | Some bs \<Rightarrow> [(pat_method p, h, bs)]) table)
      in case filter (\<lambda>(pm, h, bs). match_method pm m) hits of
           (pm, h, bs) # _ \<Rightarrow> Route h bs
         | [] \<Rightarrow> if hits = [] then NotFound else MethodNotAllowed)"

text \<open>\<open>r.PathValue(x)\<close> is bound by the mux; here a handler gets the bindings.\<close>

definition serve_mux ::
  "(pattern \<times> ((string \<times> string) list \<Rightarrow> 'w handler)) list \<Rightarrow> 'w handler" where
  "serve_mux table r resp w =
     (case route table (req_method r) (req_path r) of
        Route h bs \<Rightarrow> h bs r resp w
      | MethodNotAllowed \<Rightarrow> (Ok (), http_Error ''Method Not Allowed'' StatusMethodNotAllowed resp, w)
      | NotFound \<Rightarrow> (Ok (), http_Error ''404 page not found'' StatusNotFound resp, w))"

section \<open>Facts about responses\<close>

lemma set_header_fields [simp]:
  "rw_status (set_header k v w) = rw_status w" "rw_body (set_header k v w) = rw_body w"
  "rw_logged (set_header k v w) = rw_logged w"
  by (simp_all add: set_header_def)

lemma WriteHeader_status [simp]:
  "rw_status (WriteHeader s w) = (case rw_status w of None \<Rightarrow> Some s | Some t \<Rightarrow> Some t)"
  "rw_body (WriteHeader s w) = rw_body w" "rw_header (WriteHeader s w) = rw_header w"
  "rw_logged (WriteHeader s w) = s"
  by (simp_all add: WriteHeader_def Let_def split: option.split)

lemma write_body_fields [simp]:
  "rw_status (write_body s w) = (case rw_status w of None \<Rightarrow> Some StatusOK | Some t \<Rightarrow> Some t)"
  "rw_body (write_body s w) = rw_body w @ s" "rw_header (write_body s w) = rw_header w"
  "rw_logged (write_body s w) = rw_logged w"
  by (simp_all add: write_body_def Let_def split: option.split)

lemma fresh_response_simps [simp]:
  "rw_status fresh_response = None" "rw_body fresh_response = []" "rw_logged fresh_response = 200"
  "rw_header fresh_response = []"
  by (simp_all add: fresh_response_def)

lemma http_Error_fields [simp]:
  "rw_status (http_Error m s w) = (case rw_status w of None \<Rightarrow> Some s | Some t \<Rightarrow> Some t)"
  "rw_body (http_Error m s w) = rw_body w @ m @ [CHR 10]" "rw_logged (http_Error m s w) = s"
  by (simp_all add: http_Error_def split: option.split)

end
