(* ===== verification/Api.thy ===== *)
theory Api
  imports Http Service
begin

text \<open>
  The JSON API, \<open>internal/server/api/torrent.go\<close> and \<open>api.go\<close>: request and response types with their
  JSON shapes, the handlers, the routes and the two middlewares. The handlers are written against
  the interface \<open>TorrentService\<close> of that package, here \<open>ApiService\<close>.

  \<open>required\<close> stands for \<open>validation.ValidateStruct\<close> with the rule \<open>Required\<close> on each of the listed
  fields (name and value), a third-party package.
\<close>

record 'w ApiService =
  as_AddMagnet :: "ctx \<Rightarrow> string \<Rightarrow> AddOptions \<Rightarrow> 'w \<Rightarrow> Torrent res \<times> 'w"
  as_AddFile :: "ctx \<Rightarrow> string \<Rightarrow> AddOptions \<Rightarrow> 'w \<Rightarrow> Torrent res \<times> 'w"
  as_Get :: "ctx \<Rightarrow> string \<Rightarrow> 'w \<Rightarrow> Torrent res \<times> 'w"
  as_List :: "ctx \<Rightarrow> 'w \<Rightarrow> Torrent list res \<times> 'w"
  as_Remove :: "ctx \<Rightarrow> string \<Rightarrow> bool \<Rightarrow> 'w \<Rightarrow> unit res \<times> 'w"
  as_Pause :: "ctx \<Rightarrow> string \<Rightarrow> 'w \<Rightarrow> unit res \<times> 'w"
  as_Resume :: "ctx \<Rightarrow> string \<Rightarrow> 'w \<Rightarrow> unit res \<times> 'w"

section \<open>Types\<close>

record AddTorrentRequest =
  rq_Magnet :: string
  rq_Label :: string
  rq_TargetDir :: string

record ApiTorrent =
  at_InfoHash :: string
  at_Magnet :: string
  at_Label :: string
  at_TargetDir :: string
  at_Paused :: bool
  at_CreatedAt :: utc
  at_UpdatedAt :: utc
  at_Name :: string
  at_Length :: int
  at_BytesCompleted :: int
  at_ActivePeers :: int
  at_Seeders :: int

type_synonym validator = "(string \<times> string) list \<Rightarrow> go_error option"

definition Validate :: "validator \<Rightarrow> AddTorrentRequest \<Rightarrow> go_error option" where
  "Validate required r = required [(''magnet'', rq_Magnet r)]"

definition newTorrent :: "Torrent \<Rightarrow> ApiTorrent" where
  "newTorrent t =
     \<lparr>at_InfoHash = InfoHash t, at_Magnet = Magnet t, at_Label = Label t, at_TargetDir = TargetDir t,
      at_Paused = Paused t, at_CreatedAt = CreatedAt t, at_UpdatedAt = UpdatedAt t, at_Name = Name t,
      at_Length = Length t, at_BytesCompleted = BytesCompleted t, at_ActivePeers = t_ActivePeers t,
      at_Seeders = t_Seeders t\<rparr>"

section \<open>JSON shapes\<close>

text \<open>The struct tags. \<open>None\<close>: the encoder fails, because \<open>time.Time\<close> refuses years above 9999.\<close>

definition torrent_members :: "ApiTorrent \<Rightarrow> (string \<times> json) list" where
  "torrent_members t =
     [(''infoHash'', JString (at_InfoHash t)), (''magnet'', JString (at_Magnet t)),
      (''label'', JString (at_Label t)), (''targetDir'', JString (at_TargetDir t)),
      (''paused'', JBool (at_Paused t)), (''createdAt'', JTime (at_CreatedAt t)),
      (''updatedAt'', JTime (at_UpdatedAt t))] @
     omit_empty (at_Name t = []) ''name'' (JString (at_Name t)) @
     omit_empty (at_Length t = 0) ''length'' (JInt (at_Length t)) @
     omit_empty (at_BytesCompleted t = 0) ''bytesCompleted'' (JInt (at_BytesCompleted t)) @
     omit_empty (at_ActivePeers t = 0) ''activePeers'' (JInt (at_ActivePeers t)) @
     omit_empty (at_Seeders t = 0) ''seeders'' (JInt (at_Seeders t)) @ []"

definition torrent_json :: "ApiTorrent \<Rightarrow> json option" where
  "torrent_json t =
     (if year (at_CreatedAt t) \<le> 9999 \<and> year (at_UpdatedAt t) \<le> 9999
      then Some (JObj (torrent_members t)) else None)"

definition torrent_response :: "ApiTorrent \<Rightarrow> json option" where
  "torrent_response t = map_option (\<lambda>v. JObj [(''torrent'', v)]) (torrent_json t)"

definition list_response :: "ApiTorrent list \<Rightarrow> json option" where
  "list_response ts =
     map_option (\<lambda>vs. JObj [(''torrents'', JArr vs)]) (those (map torrent_json ts))"

definition empty_response :: "json option" where
  "empty_response = Some (JObj [])"

definition error_json :: "string \<Rightarrow> json option" where
  "error_json message = Some (JObj [(''error'', JString message)])"

definition zero_request :: AddTorrentRequest where
  "zero_request = \<lparr>rq_Magnet = [], rq_Label = [], rq_TargetDir = []\<rparr>"

definition store_request :: "AddTorrentRequest store" where
  "store_request =
     store_struct ''AddTorrentRequest'' ''api.AddTorrentRequest''
       [(''magnet'', field rq_Magnet (\<lambda>a r. r\<lparr>rq_Magnet := a\<rparr>) store_string),
        (''label'', field rq_Label (\<lambda>a r. r\<lparr>rq_Label := a\<rparr>) store_string),
        (''targetDir'', field rq_TargetDir (\<lambda>a r. r\<lparr>rq_TargetDir := a\<rparr>) store_string)]"

section \<open>Reading and writing bodies\<close>

definition decode :: "validator \<Rightarrow> string \<Rightarrow> go_error + AddTorrentRequest" where
  "decode required body =
     (case decode_into store_request zero_request body of
        Inl err \<Rightarrow> Inl (Errorf ''failed to decode request: '' err [])
      | Inr t \<Rightarrow> (case Validate required t of Some err \<Rightarrow> Inl err | None \<Rightarrow> Inr t))"

definition writeJSON :: "int \<Rightarrow> json option \<Rightarrow> Response \<Rightarrow> Response" where
  "writeJSON status v w =
     (let w = WriteHeader status (set_header ''Content-Type'' ''application/json'' w)
      in case v of None \<Rightarrow> w | Some v \<Rightarrow> write_body (json_Encode v) w)"

definition writeErrorf :: "int \<Rightarrow> string \<Rightarrow> Response \<Rightarrow> Response" where
  "writeErrorf status message w = writeJSON status (error_json message) w"

section \<open>Handlers\<close>

definition addMagnet_reply :: "go_error + Torrent \<Rightarrow> Response \<Rightarrow> Response" where
  "addMagnet_reply x resp =
     (case x of
        Inl err \<Rightarrow>
          if errors_is err SvcTorrentAlreadyExists then writeErrorf StatusConflict ''torrent already exists'' resp
          else writeErrorf StatusInternalServerError (''failed to add torrent: '' @ error_msg err) resp
      | Inr t \<Rightarrow> writeJSON StatusCreated (torrent_response (newTorrent t)) resp)"

definition api_addMagnet :: "'w ApiService \<Rightarrow> validator \<Rightarrow> 'w handler" where
  "api_addMagnet s required r resp w =
     (case decode required (req_body r) of
        Inl err \<Rightarrow> (Ok (), writeErrorf StatusBadRequest (error_msg err) resp, w)
      | Inr request \<Rightarrow>
        respond
          (as_AddMagnet s (req_ctx r) (rq_Magnet request)
             \<lparr>opt_Label = rq_Label request, opt_TargetDir = rq_TargetDir request\<rparr> w)
          addMagnet_reply resp)"

definition addFile_reply :: "go_error + Torrent \<Rightarrow> Response \<Rightarrow> Response" where
  "addFile_reply x resp =
     (case x of
        Inl err \<Rightarrow>
          if errors_is err SvcInvalidTorrentFile then writeErrorf StatusBadRequest ''invalid torrent file'' resp
          else if errors_is err SvcTorrentAlreadyExists
          then writeErrorf StatusConflict ''torrent already exists'' resp
          else writeErrorf StatusInternalServerError (''failed to add torrent: '' @ error_msg err) resp
      | Inr t \<Rightarrow> writeJSON StatusCreated (torrent_response (newTorrent t)) resp)"

definition api_addFile :: "'w ApiService \<Rightarrow> 'w handler" where
  "api_addFile s r resp w =
     (case req_multipart r of
        Inl err \<Rightarrow>
          (Ok (), writeErrorf StatusBadRequest (''failed to parse multipart form: '' @ error_msg err) resp, w)
      | Inr form \<Rightarrow>
        (case FormFile form ''file'' of
           None \<Rightarrow> (Ok (), writeErrorf StatusBadRequest ''missing file part'' resp, w)
         | Some file \<Rightarrow>
           respond
             (as_AddFile s (req_ctx r) file
                \<lparr>opt_Label = FormValue r form ''label'', opt_TargetDir = FormValue r form ''targetDir''\<rparr> w)
             addFile_reply resp))"

definition api_Add :: "'w ApiService \<Rightarrow> validator \<Rightarrow> 'w handler" where
  "api_Add s required r resp w =
     (if req_mediaType r = ''multipart/form-data'' then api_addFile s r resp w
      else if req_mediaType r = [] \<or> req_mediaType r = ''application/json''
      then api_addMagnet s required r resp w
      else (Ok (), writeErrorf StatusUnsupportedMediaType
                     (''unsupported content type '' @ go_quote (req_mediaType r)) resp, w))"

definition api_List :: "'w ApiService \<Rightarrow> 'w handler" where
  "api_List s r resp w =
     respond (as_List s (req_ctx r) w)
       (\<lambda>x resp. case x of
          Inl err \<Rightarrow> writeErrorf StatusInternalServerError (''failed to list torrents: '' @ error_msg err) resp
        | Inr ts \<Rightarrow> writeJSON StatusOK (list_response (map newTorrent ts)) resp)
       resp"

text \<open>The error branches \<open>Get\<close>, \<open>Remove\<close>, \<open>Pause\<close> and \<open>Resume\<close> share.\<close>

definition hash_error :: "string \<Rightarrow> string \<Rightarrow> go_error \<Rightarrow> Response \<Rightarrow> Response" where
  "hash_error verb hash err resp =
     (if errors_is err SvcTorrentNotFound
      then writeErrorf StatusNotFound (''torrent '' @ go_quote hash @ '' does not exist'') resp
      else writeErrorf StatusInternalServerError (''failed to '' @ verb @ '' torrent: '' @ error_msg err) resp)"

definition api_Get :: "'w ApiService \<Rightarrow> string \<Rightarrow> 'w handler" where
  "api_Get s hash r resp w =
     respond (as_Get s (req_ctx r) hash w)
       (\<lambda>x resp. case x of
          Inl err \<Rightarrow> hash_error ''load'' hash err resp
        | Inr t \<Rightarrow> writeJSON StatusOK (torrent_response (newTorrent t)) resp)
       resp"

definition api_Remove :: "'w ApiService \<Rightarrow> string \<Rightarrow> 'w handler" where
  "api_Remove s hash r resp w =
     (let deleteFiles = query_Get r ''files'' = ''true'' in
      respond (as_Remove s (req_ctx r) hash deleteFiles w)
        (\<lambda>x resp. case x of
           Inl err \<Rightarrow> hash_error ''remove'' hash err resp
         | Inr _ \<Rightarrow> writeJSON StatusOK empty_response resp)
        resp)"

definition api_Pause :: "'w ApiService \<Rightarrow> string \<Rightarrow> 'w handler" where
  "api_Pause s hash r resp w =
     respond (as_Pause s (req_ctx r) hash w)
       (\<lambda>x resp. case x of
          Inl err \<Rightarrow> hash_error ''pause'' hash err resp
        | Inr _ \<Rightarrow> writeJSON StatusOK empty_response resp)
       resp"

definition api_Resume :: "'w ApiService \<Rightarrow> string \<Rightarrow> 'w handler" where
  "api_Resume s hash r resp w =
     respond (as_Resume s (req_ctx r) hash w)
       (\<lambda>x resp. case x of
          Inl err \<Rightarrow> hash_error ''resume'' hash err resp
        | Inr _ \<Rightarrow> writeJSON StatusOK empty_response resp)
       resp"

section \<open>Routes\<close>

definition path_value :: "(string \<Rightarrow> 'w handler) \<Rightarrow> (string \<times> string) list \<Rightarrow> 'w handler" where
  "path_value h bs = h (get_first ''hash'' bs)"

abbreviation api_root :: "segment list" where
  "api_root \<equiv> [Lit ''api'', Lit ''v1'', Lit ''torrents'']"

definition pat :: "string \<Rightarrow> segment list \<Rightarrow> pattern" where
  "pat m segs = \<lparr>pat_method = m, pat_segments = segs, pat_subtree = False\<rparr>"

definition api_Register ::
  "'w ApiService \<Rightarrow> validator \<Rightarrow> (pattern \<times> ((string \<times> string) list \<Rightarrow> 'w handler)) list" where
  "api_Register s required =
     [(pat ''POST'' api_root, \<lambda>_. api_Add s required),
      (pat ''GET'' api_root, \<lambda>_. api_List s),
      (pat ''GET'' (api_root @ [Wild ''hash'']), path_value (api_Get s)),
      (pat ''DELETE'' (api_root @ [Wild ''hash'']), path_value (api_Remove s)),
      (pat ''POST'' (api_root @ [Wild ''hash'', Lit ''pause'']), path_value (api_Pause s)),
      (pat ''POST'' (api_root @ [Wild ''hash'', Lit ''resume'']), path_value (api_Resume s))]"

section \<open>Middlewares\<close>

definition Recovery :: "'w handler \<Rightarrow> 'w handler" where
  "Recovery next r resp w =
     (case next r resp w of
        (Panic p, resp, w) \<Rightarrow> (Ok (), writeErrorf StatusInternalServerError ''internal server error'' resp, w)
      | x \<Rightarrow> x)"

text \<open>The log is the list of statuses written, one line per request that ends.\<close>

definition Logging :: "'w handler \<Rightarrow> Request \<Rightarrow> Response \<Rightarrow> 'w \<times> int list \<Rightarrow> unit res \<times> Response \<times> 'w \<times> int list" where
  "Logging next r resp = (\<lambda>(w, log).
     (case next r (resp\<lparr>rw_logged := StatusOK\<rparr>) w of
        (Ok u, resp, w) \<Rightarrow> (Ok u, resp, w, log @ [rw_logged resp])
      | (x, resp, w) \<Rightarrow> (x, resp, w, log)))"

section \<open>What every handler does\<close>

lemma writeJSON_fields [simp]:
  "rw_status (writeJSON s v w) = (case rw_status w of None \<Rightarrow> Some s | Some t \<Rightarrow> Some t)"
  "rw_logged (writeJSON s v w) = s"
  "rw_body (writeJSON s v w) = rw_body w @ (case v of None \<Rightarrow> [] | Some v \<Rightarrow> json_Encode v)"
  by (simp_all add: writeJSON_def Let_def split: option.split)

lemma writeErrorf_fields [simp]:
  "rw_status (writeErrorf s m w) = (case rw_status w of None \<Rightarrow> Some s | Some t \<Rightarrow> Some t)"
  "rw_logged (writeErrorf s m w) = s"
  "rw_body (writeErrorf s m w) = rw_body w @ json_Encode (JObj [(''error'', JString m)])"
  by (simp_all add: writeErrorf_def error_json_def)

lemma hash_error_status:
  "rw_status (hash_error verb hash err fresh_response) =
     Some (if errors_is err SvcTorrentNotFound then StatusNotFound else StatusInternalServerError)"
  by (simp add: hash_error_def)

end
