(* ===== verification/HttpClient.thy ===== *)
theory HttpClient
  imports Api Url
begin

text \<open>
  The HTTP client, \<open>pkg/client/client.go\<close> and \<open>pkg/client/torrent.go\<close>: how a call becomes a request, how
  a response becomes a value or an error, and the error predicates.

  The network is a parameter: \<open>http_Do\<close> is \<open>http.Client.Do\<close> and \<open>new_request\<close> the verdict of
  \<open>http.NewRequestWithContext\<close> on the target. A multipart body is carried as the form it encodes.
  The theorems connect the client to the API's handlers by the transport \<open>loopback\<close>.
\<close>

record 'w Client =
  base_Path :: string
  new_request :: "string \<Rightarrow> string \<Rightarrow> string \<Rightarrow> go_error option"
  http_Do :: "Request \<Rightarrow> 'w \<Rightarrow> Response res \<times> 'w"

text \<open>\<open>New\<close>: \<open>parse\<close> is \<open>url.Parse\<close>, of which the client keeps the path as the base.\<close>

definition New ::
  "(string \<Rightarrow> go_error + string) \<Rightarrow> (string \<Rightarrow> string \<Rightarrow> string \<Rightarrow> go_error option) \<Rightarrow>
   (Request \<Rightarrow> 'w \<Rightarrow> Response res \<times> 'w) \<Rightarrow> string \<Rightarrow> go_error + 'w Client" where
  "New parse nr tr address =
     (case parse address of
        Inl err \<Rightarrow> Inl (Errorf ''failed to parse address: '' err [])
      | Inr path \<Rightarrow> Inr \<lparr>base_Path = path, new_request = nr, http_Do = tr\<rparr>)"

section \<open>Requests\<close>

datatype body = NoBody | JsonBody string | FormBody Form

definition make_request :: "ctx \<Rightarrow> string \<Rightarrow> string \<Rightarrow> string \<Rightarrow> body \<Rightarrow> Request" where
  "make_request c m path query b =
     \<lparr>req_method = m, req_path = path_comps path, req_query = parse_query query,
      req_mediaType = (case b of NoBody \<Rightarrow> [] | JsonBody _ \<Rightarrow> ''application/json'' | FormBody _ \<Rightarrow> ''multipart/form-data''),
      req_body = (case b of JsonBody s \<Rightarrow> s | _ \<Rightarrow> []),
      req_multipart = (case b of FormBody f \<Rightarrow> Inr f
        | _ \<Rightarrow> Inl (ErrorString ''request Content-Type isn't multipart/form-data'')),
      req_ctx = c\<rparr>"

definition store_error_response :: "string store" where
  "store_error_response =
     store_struct ''ErrorResponse'' ''api.ErrorResponse'' [(''error'', field (\<lambda>m. m) (\<lambda>a _. a) store_string)]"

definition doBody ::
  "'w Client \<Rightarrow> ctx \<Rightarrow> string \<Rightarrow> string \<Rightarrow> body \<Rightarrow> 'a store \<Rightarrow> 'a \<Rightarrow> 'w \<Rightarrow> 'a res \<times> 'w" where
  "doBody cl c m endpoint b sto zero w =
     (let (pathPart, query, _) = cut_at (CHR ''?'') endpoint;
          target = path_Join [base_Path cl, pathPart]
      in case new_request cl m target query of
           Some err \<Rightarrow> (Err (Errorf ''failed to construct request: '' err []), w)
         | None \<Rightarrow>
           call (http_Do cl (make_request c m target query b) w)
             (\<lambda>resp w.
                if sent_status resp \<ge> StatusOK \<and> sent_status resp \<le> StatusIMUsed then
                  (case decode_into sto zero (rw_body resp) of
                     Inl err \<Rightarrow> (Err (Errorf ''failed to decode response: '' err []), w)
                   | Inr response \<Rightarrow> (Ok response, w))
                else (Err (ErrorResponse (sent_status resp)
                             (decode_ignoring store_error_response [] (rw_body resp))), w))
             (\<lambda>err w. (Err (Errorf ''failed to send request: '' err []), w)))"

text \<open>\<open>do\<close>: without a request value there is no body; encoding the API's request type cannot fail.\<close>

definition client_do ::
  "'w Client \<Rightarrow> ctx \<Rightarrow> string \<Rightarrow> string \<Rightarrow> json option \<Rightarrow> 'a store \<Rightarrow> 'a \<Rightarrow> 'w \<Rightarrow> 'a res \<times> 'w" where
  "client_do cl c m endpoint request sto zero w =
     (case request of
        None \<Rightarrow> doBody cl c m endpoint NoBody sto zero w
      | Some v \<Rightarrow> doBody cl c m endpoint (JsonBody (json_Encode v)) sto zero w)"

section \<open>Errors\<close>

definition has_status :: "int \<Rightarrow> go_error \<Rightarrow> bool" where
  "has_status status err = (case as_error_response err of None \<Rightarrow> False | Some (s, m) \<Rightarrow> s = status)"

definition IsNotFound :: "go_error \<Rightarrow> bool" where
  "IsNotFound err = has_status StatusNotFound err"

definition IsConflict :: "go_error \<Rightarrow> bool" where
  "IsConflict err = has_status StatusConflict err"

definition IsBadRequest :: "go_error \<Rightarrow> bool" where
  "IsBadRequest err = has_status StatusBadRequest err"

section \<open>Types\<close>

record ClientTorrent =
  ct_InfoHash :: string
  ct_Magnet :: string
  ct_Label :: string
  ct_TargetDir :: string
  ct_Paused :: bool
  ct_CreatedAt :: utc
  ct_UpdatedAt :: utc
  ct_Name :: string
  ct_Length :: int
  ct_BytesCompleted :: int
  ct_ActivePeers :: int
  ct_Seeders :: int

definition fromAPI :: "ApiTorrent \<Rightarrow> ClientTorrent" where
  "fromAPI t =
     \<lparr>ct_InfoHash = at_InfoHash t, ct_Magnet = at_Magnet t, ct_Label = at_Label t,
      ct_TargetDir = at_TargetDir t, ct_Paused = at_Paused t, ct_CreatedAt = at_CreatedAt t,
      ct_UpdatedAt = at_UpdatedAt t, ct_Name = at_Name t, ct_Length = at_Length t,
      ct_BytesCompleted = at_BytesCompleted t, ct_ActivePeers = at_ActivePeers t, ct_Seeders = at_Seeders t\<rparr>"

definition zero_torrent :: ApiTorrent where
  "zero_torrent =
     \<lparr>at_InfoHash = [], at_Magnet = [], at_Label = [], at_TargetDir = [], at_Paused = False,
      at_CreatedAt = zero_time, at_UpdatedAt = zero_time, at_Name = [], at_Length = 0,
      at_BytesCompleted = 0, at_ActivePeers = 0, at_Seeders = 0\<rparr>"

definition torrent_fields :: "(string \<Rightarrow> go_error + utc) \<Rightarrow> (string \<times> ApiTorrent store) list" where
  "torrent_fields general =
     [(''infoHash'', field at_InfoHash (\<lambda>a t. t\<lparr>at_InfoHash := a\<rparr>) store_string),
      (''magnet'', field at_Magnet (\<lambda>a t. t\<lparr>at_Magnet := a\<rparr>) store_string),
      (''label'', field at_Label (\<lambda>a t. t\<lparr>at_Label := a\<rparr>) store_string),
      (''targetDir'', field at_TargetDir (\<lambda>a t. t\<lparr>at_TargetDir := a\<rparr>) store_string),
      (''paused'', field at_Paused (\<lambda>a t. t\<lparr>at_Paused := a\<rparr>) store_bool),
      (''createdAt'', field at_CreatedAt (\<lambda>a t. t\<lparr>at_CreatedAt := a\<rparr>) (store_time general)),
      (''updatedAt'', field at_UpdatedAt (\<lambda>a t. t\<lparr>at_UpdatedAt := a\<rparr>) (store_time general)),
      (''name'', field at_Name (\<lambda>a t. t\<lparr>at_Name := a\<rparr>) store_string),
      (''length'', field at_Length (\<lambda>a t. t\<lparr>at_Length := a\<rparr>) (store_int ''int64'')),
      (''bytesCompleted'', field at_BytesCompleted (\<lambda>a t. t\<lparr>at_BytesCompleted := a\<rparr>) (store_int ''int64'')),
      (''activePeers'', field at_ActivePeers (\<lambda>a t. t\<lparr>at_ActivePeers := a\<rparr>) (store_int ''int'')),
      (''seeders'', field at_Seeders (\<lambda>a t. t\<lparr>at_Seeders := a\<rparr>) (store_int ''int''))]"

definition store_torrent :: "(string \<Rightarrow> go_error + utc) \<Rightarrow> ApiTorrent store" where
  "store_torrent general = store_struct ''Torrent'' ''api.Torrent'' (torrent_fields general)"

definition store_response :: "string \<Rightarrow> (string \<Rightarrow> go_error + utc) \<Rightarrow> ApiTorrent store" where
  "store_response struct general =
     store_struct struct (''api.'' @ struct) [(''torrent'', field (\<lambda>t. t) (\<lambda>a _. a) (store_torrent general))]"

definition store_list_response :: "(string \<Rightarrow> go_error + utc) \<Rightarrow> ApiTorrent list store" where
  "store_list_response general =
     store_struct ''ListTorrentsResponse'' ''api.ListTorrentsResponse''
       [(''torrents'', field (\<lambda>t. t) (\<lambda>a _. a) (store_slice zero_torrent ''[]api.Torrent'' (store_torrent general)))]"

definition store_empty :: "string \<Rightarrow> unit store" where
  "store_empty struct = store_struct struct (''api.'' @ struct) []"

definition request_json :: "AddTorrentRequest \<Rightarrow> json" where
  "request_json r =
     JObj [(''magnet'', JString (rq_Magnet r)), (''label'', JString (rq_Label r)),
           (''targetDir'', JString (rq_TargetDir r))]"

section \<open>The client's operations\<close>

definition api_path :: string where
  "api_path = ''/api/v1/torrents''"

definition from_response :: "ApiTorrent res \<times> 'w \<Rightarrow> ClientTorrent res \<times> 'w" where
  "from_response m = call m (\<lambda>t w. (Ok (fromAPI t), w)) (\<lambda>err w. (Err err, w))"

definition client_AddMagnet ::
  "(string \<Rightarrow> go_error + utc) \<Rightarrow> 'w Client \<Rightarrow> ctx \<Rightarrow> string \<Rightarrow> string \<Rightarrow> string \<Rightarrow> 'w \<Rightarrow> ClientTorrent res \<times> 'w" where
  "client_AddMagnet general cl c uri lbl tdir w =
     from_response
       (client_do cl c ''POST'' api_path
          (Some (request_json \<lparr>rq_Magnet = uri, rq_Label = lbl, rq_TargetDir = tdir\<rparr>))
          (store_response ''AddTorrentResponse'' general) zero_torrent w)"

text \<open>\<open>r\<close> is the outcome of reading the file to its end; writing to a buffer in memory cannot fail.\<close>

definition buildAddFileBody :: "go_error + string \<Rightarrow> string \<Rightarrow> string \<Rightarrow> go_error + Form" where
  "buildAddFileBody r lbl tdir =
     (case r of
        Inl err \<Rightarrow> Inl (Errorf ''failed to read torrent file: '' err [])
      | Inr content \<Rightarrow>
        Inr \<lparr>form_Value = (if lbl \<noteq> [] then [(''label'', lbl)] else []) @
                          (if tdir \<noteq> [] then [(''targetDir'', tdir)] else []),
             form_File = [(''file'', content)]\<rparr>)"

definition client_AddFile ::
  "(string \<Rightarrow> go_error + utc) \<Rightarrow> 'w Client \<Rightarrow> ctx \<Rightarrow> go_error + string \<Rightarrow> string \<Rightarrow> string \<Rightarrow> 'w \<Rightarrow>
   ClientTorrent res \<times> 'w" where
  "client_AddFile general cl c r lbl tdir w =
     (case buildAddFileBody r lbl tdir of
        Inl err \<Rightarrow> (Err err, w)
      | Inr form \<Rightarrow>
        from_response
          (doBody cl c ''POST'' api_path (FormBody form)
             (store_response ''AddTorrentResponse'' general) zero_torrent w))"

definition client_List ::
  "(string \<Rightarrow> go_error + utc) \<Rightarrow> 'w Client \<Rightarrow> ctx \<Rightarrow> 'w \<Rightarrow> ClientTorrent list res \<times> 'w" where
  "client_List general cl c w =
     call (client_do cl c ''GET'' api_path None (store_list_response general) [] w)
       (\<lambda>ts w. (Ok (map fromAPI ts), w))
       (\<lambda>err w. (Err err, w))"

definition client_Get ::
  "(string \<Rightarrow> go_error + utc) \<Rightarrow> 'w Client \<Rightarrow> ctx \<Rightarrow> string \<Rightarrow> 'w \<Rightarrow> ClientTorrent res \<times> 'w" where
  "client_Get general cl c hash w =
     from_response
       (client_do cl c ''GET'' (path_Join [api_path, hash]) None
          (store_response ''GetTorrentResponse'' general) zero_torrent w)"

definition client_Remove :: "'w Client \<Rightarrow> ctx \<Rightarrow> string \<Rightarrow> bool \<Rightarrow> 'w \<Rightarrow> unit res \<times> 'w" where
  "client_Remove cl c hash deleteFiles w =
     (let endpoint = path_Join [api_path, hash];
          endpoint = (if deleteFiles then endpoint @ ''?files=true'' else endpoint)
      in client_do cl c ''DELETE'' endpoint None (store_empty ''RemoveTorrentResponse'') () w)"

definition client_Pause :: "'w Client \<Rightarrow> ctx \<Rightarrow> string \<Rightarrow> 'w \<Rightarrow> unit res \<times> 'w" where
  "client_Pause cl c hash w =
     client_do cl c ''POST'' (path_Join [api_path, hash, ''pause'']) None (store_empty ''PauseTorrentResponse'') () w"

definition client_Resume :: "'w Client \<Rightarrow> ctx \<Rightarrow> string \<Rightarrow> 'w \<Rightarrow> unit res \<times> 'w" where
  "client_Resume cl c hash w =
     client_do cl c ''POST'' (path_Join [api_path, hash, ''resume'']) None (store_empty ''ResumeTorrentResponse'') () w"

section \<open>The client talking to the handlers\<close>

text \<open>A connection to a server in the same world that delivers every request and every answer: the context
  of the caller is not cancelled on the way and the 30 seconds of the client's timeout are not reached. It
  is one value of \<open>http_Do\<close>, which is a parameter of the client and may fail in any way. When the handler
  panics the server closes the connection without an answer.\<close>

definition loopback :: "'w handler \<Rightarrow> Request \<Rightarrow> 'w \<Rightarrow> Response res \<times> 'w" where
  "loopback h r w =
     (case h r fresh_response w of
        (Ok _, resp, w) \<Rightarrow> (Ok resp, w)
      | (Err e, resp, w) \<Rightarrow> (Err e, w)
      | (Panic p, resp, w) \<Rightarrow> (Err (ErrorString ''EOF''), w)
      | (Hang, resp, w) \<Rightarrow> (Hang, w))"

definition local_client :: "'w handler \<Rightarrow> 'w Client" where
  "local_client h = \<lparr>base_Path = [], new_request = (\<lambda>_ _ _. None), http_Do = loopback h\<rparr>"

end
