(* ===== verification/ClientFacts.thy ===== *)
theory ClientFacts
  imports HttpClient
begin

text \<open>
  What the client gets from the API's handlers: the JSON shapes of both sides fit, the routes lead to
  the intended handler, and the statuses mean what the error predicates say.
\<close>

section \<open>Shapes\<close>

definition sendable :: "ApiTorrent \<Rightarrow> bool" where
  "sendable t \<longleftrightarrow>
     valid_utf8 (at_InfoHash t) \<and> valid_utf8 (at_Magnet t) \<and> valid_utf8 (at_Label t) \<and>
     valid_utf8 (at_TargetDir t) \<and> valid_utf8 (at_Name t) \<and> valid_utc (at_CreatedAt t) \<and>
     valid_utc (at_UpdatedAt t) \<and> int64 (at_Length t) \<and> int64 (at_BytesCompleted t) \<and>
     int64 (at_ActivePeers t) \<and> int64 (at_Seeders t)"

lemma plain_literal [simp]:
  "list_all plain_char ''infoHash''" "list_all plain_char ''magnet''" "list_all plain_char ''label''"
  "list_all plain_char ''targetDir''" "list_all plain_char ''paused''" "list_all plain_char ''createdAt''"
  "list_all plain_char ''updatedAt''" "list_all plain_char ''name''" "list_all plain_char ''length''"
  "list_all plain_char ''bytesCompleted''" "list_all plain_char ''activePeers''" "list_all plain_char ''seeders''"
  "list_all plain_char ''torrent''" "list_all plain_char ''torrents''" "list_all plain_char ''error''"
  by (simp_all add: plain_char_def)

lemma torrent_field:
  "List.find (\<lambda>f. fst f = ''infoHash'') (torrent_fields general) =
     Some (''infoHash'', field at_InfoHash (\<lambda>a t. t\<lparr>at_InfoHash := a\<rparr>) store_string)"
  "List.find (\<lambda>f. fst f = ''magnet'') (torrent_fields general) =
     Some (''magnet'', field at_Magnet (\<lambda>a t. t\<lparr>at_Magnet := a\<rparr>) store_string)"
  "List.find (\<lambda>f. fst f = ''label'') (torrent_fields general) =
     Some (''label'', field at_Label (\<lambda>a t. t\<lparr>at_Label := a\<rparr>) store_string)"
  "List.find (\<lambda>f. fst f = ''targetDir'') (torrent_fields general) =
     Some (''targetDir'', field at_TargetDir (\<lambda>a t. t\<lparr>at_TargetDir := a\<rparr>) store_string)"
  "List.find (\<lambda>f. fst f = ''paused'') (torrent_fields general) =
     Some (''paused'', field at_Paused (\<lambda>a t. t\<lparr>at_Paused := a\<rparr>) store_bool)"
  "List.find (\<lambda>f. fst f = ''createdAt'') (torrent_fields general) =
     Some (''createdAt'', field at_CreatedAt (\<lambda>a t. t\<lparr>at_CreatedAt := a\<rparr>) (store_time general))"
  "List.find (\<lambda>f. fst f = ''updatedAt'') (torrent_fields general) =
     Some (''updatedAt'', field at_UpdatedAt (\<lambda>a t. t\<lparr>at_UpdatedAt := a\<rparr>) (store_time general))"
  "List.find (\<lambda>f. fst f = ''name'') (torrent_fields general) =
     Some (''name'', field at_Name (\<lambda>a t. t\<lparr>at_Name := a\<rparr>) store_string)"
  "List.find (\<lambda>f. fst f = ''length'') (torrent_fields general) =
     Some (''length'', field at_Length (\<lambda>a t. t\<lparr>at_Length := a\<rparr>) (store_int ''int64''))"
  "List.find (\<lambda>f. fst f = ''bytesCompleted'') (torrent_fields general) =
     Some (''bytesCompleted'', field at_BytesCompleted (\<lambda>a t. t\<lparr>at_BytesCompleted := a\<rparr>) (store_int ''int64''))"
  "List.find (\<lambda>f. fst f = ''activePeers'') (torrent_fields general) =
     Some (''activePeers'', field at_ActivePeers (\<lambda>a t. t\<lparr>at_ActivePeers := a\<rparr>) (store_int ''int''))"
  "List.find (\<lambda>f. fst f = ''seeders'') (torrent_fields general) =
     Some (''seeders'', field at_Seeders (\<lambda>a t. t\<lparr>at_Seeders := a\<rparr>) (store_int ''int''))"
  by (simp_all add: torrent_fields_def)

lemma store_torrent_members:
  assumes "sendable t"
  shows "store_members ''Torrent'' p (torrent_fields general) (torrent_members t) (zero_torrent, saved) = Inr (t, saved)"
proof -
  have v: "valid_utf8 (at_InfoHash t)" "valid_utf8 (at_Magnet t)" "valid_utf8 (at_Label t)"
    "valid_utf8 (at_TargetDir t)" "valid_utf8 (at_Name t)" "valid_utc (at_CreatedAt t)"
    "valid_utc (at_UpdatedAt t)" "int64 (at_Length t)" "int64 (at_BytesCompleted t)"
    "int64 (at_ActivePeers t)" "int64 (at_Seeders t)"
    using assms by (simp_all add: sendable_def)
  note stored = v(1-5) [THEN store_string_JString, of _ "(x, e)" for x e, unfolded snd_conv]
    v(6,7) [THEN store_time_JTime, of _ _ "(x, e)" for x e, unfolded snd_conv]
    v(8-11) [THEN store_int_JInt, of _ _ "(x, e)" for x e, unfolded snd_conv]
    store_bool_JBool [of _ _ "(x, e)" for x e, unfolded snd_conv]
  show ?thesis
    unfolding torrent_members_def append_Cons append_Nil
    apply (rule trans [OF store_members_Cons], rule plain_literal, rule torrent_field, rule stored)+
    apply (rule trans [OF store_members_omit], rule plain_literal, rule torrent_field, rule stored,
        simp add: zero_torrent_def)+
    apply simp
    done
qed

lemma list_all_omit: "list_all P (omit_empty isz k v) = (isz \<or> P (k, v))"
  by (simp add: omit_empty_def)

lemma torrent_members_all:
  "list_all (\<lambda>m. scannable (fst m) \<and> written (snd m) \<and> nesting (snd m) = 0) (torrent_members t)"
  by (simp add: torrent_members_def list_all_omit plain_literal [THEN scannable_plain])

lemmas torrent_members_written = torrent_members_all [unfolded list_all_iff, THEN bspec]

lemma fold_max_zero: "(\<And>x. x \<in> set xs \<Longrightarrow> f x = 0) \<Longrightarrow> fold max (map f xs) 0 = (0::nat)"
  by (induction xs) auto

lemma torrent_object: "written (JObj (torrent_members t))" "nesting (JObj (torrent_members t)) = 1"
  using torrent_members_written [of _ t] fold_max_zero [of "torrent_members t" "\<lambda>m. nesting (snd m)"] by auto

lemma torrent_json_sendable: "sendable t \<Longrightarrow> torrent_json t = Some (JObj (torrent_members t))"
  by (simp add: torrent_json_def sendable_def valid_utc_def)

lemma store_torrent_object:
  "sendable t \<Longrightarrow> store_torrent general c (JObj (torrent_members t)) (zero_torrent, e) = Inr (t, e)"
  by (simp add: store_torrent_def store_struct_def store_torrent_members)

lemma store_one_member:
  assumes "list_all plain_char k" "sto (s, snd c @ [k]) v (x, e) = Inr (a, saved)"
  shows "store_struct s g [(k, field (\<lambda>t. t) (\<lambda>a _. a) sto)] c (JObj [(k, v)]) (x, e) = Inr (a, saved)"
proof -
  have f: "List.find (\<lambda>f. fst f = k) [(k, field (\<lambda>t. t) (\<lambda>a _. a) sto)] =
      Some (k, field (\<lambda>t. t) (\<lambda>a _. a) sto)" by simp
  show ?thesis
    using store_members_Cons [OF assms(1) f assms(2), of "[]"] by (simp add: store_struct_def)
qed

lemma one_member:
  "written (JObj [(''torrent'', v)]) = written v" "nesting (JObj [(''torrent'', v)]) = Suc (nesting v)"
  "written (JObj [(''torrents'', v)]) = written v" "nesting (JObj [(''torrents'', v)]) = Suc (nesting v)"
  "written (JObj [(''error'', v)]) = written v" "nesting (JObj [(''error'', v)]) = Suc (nesting v)"
  using plain_literal [THEN scannable_plain] by simp_all

lemma decode_torrent_response:
  assumes "sendable t" "torrent_response t = Some v"
  shows "decode_into (store_response s general) zero_torrent (json_Encode v) = Inr t"
proof -
  have v: "v = JObj [(''torrent'', JObj (torrent_members t))]"
    using assms by (simp add: torrent_response_def torrent_json_sendable)
  have "json_Decode (json_Encode v) = Inr v"
    unfolding v by (intro json_Decode_Encode) (simp_all only: one_member torrent_object, simp add: max_depth_def)
  then show ?thesis
    using store_one_member [where sto = "store_torrent general", OF plain_literal(13)
        store_torrent_object [OF assms(1)], where c = "([], [])"]
    by (simp add: decode_into_def store_response_def v)
qed

lemma those_torrent_json:
  "(\<And>t. t \<in> set ts \<Longrightarrow> sendable t) \<Longrightarrow> those (map torrent_json ts) = Some (map (\<lambda>t. JObj (torrent_members t)) ts)"
  by (induction ts) (auto simp: torrent_json_sendable)

lemma store_elems_torrents:
  "(\<And>t. t \<in> set ts \<Longrightarrow> sendable t) \<Longrightarrow>
   store_elems zero_torrent (store_torrent general) c (map (\<lambda>t. JObj (torrent_members t)) ts) e = Inr (ts, e)"
  by (induction ts) (auto simp: store_torrent_object)

lemma torrents_array:
  "written (JArr (map (\<lambda>t. JObj (torrent_members t)) ts))"
  "nesting (JArr (map (\<lambda>t. JObj (torrent_members t)) ts)) \<le> 2"
proof -
  show "written (JArr (map (\<lambda>t. JObj (torrent_members t)) ts))"
    using torrent_object(1) by (simp del: written.simps(4))
  have "fold max (map (\<lambda>t. nesting (JObj (torrent_members t))) ts) n \<le> max n 1" for n
  proof (induction ts arbitrary: n)
    case (Cons t ts)
    from Cons [of "max 1 n"] show ?case
      by (simp only: list.map fold_simps torrent_object(2) comp_def id_def)
  qed simp
  from this [of 0] show "nesting (JArr (map (\<lambda>t. JObj (torrent_members t)) ts)) \<le> 2"
    by (simp add: comp_def del: nesting.simps(2))
qed

lemma decode_list_response:
  assumes "\<And>t. t \<in> set ts \<Longrightarrow> sendable t" "list_response ts = Some v"
  shows "decode_into (store_list_response general) [] (json_Encode v) = Inr ts"
proof -
  let ?a = "JArr (map (\<lambda>t. JObj (torrent_members t)) ts)"
  have v: "v = JObj [(''torrents'', ?a)]"
    using assms by (simp add: list_response_def those_torrent_json)
  have n: "Suc (nesting ?a) \<le> max_depth" using torrents_array(2) [of ts] by (simp add: max_depth_def del: nesting.simps)
  have "json_Decode (json_Encode v) = Inr v"
    unfolding v by (intro json_Decode_Encode) (simp_all only: one_member torrents_array(1) n)
  moreover have "store_slice zero_torrent g (store_torrent general) c ?a ([], None) = Inr (ts, None)" for g c
    using store_elems_torrents [OF assms(1)] by (simp add: store_slice_def)
  ultimately show ?thesis
    using store_one_member [where sto = "store_slice zero_torrent ''[]api.Torrent'' (store_torrent general)"
        and v = ?a, OF plain_literal(14), where c = "([], [])" and x = "[]" and e = None]
    by (simp add: decode_into_def store_list_response_def v)
qed

lemma decode_empty_response: "decode_into (store_empty s) () (json_Encode (JObj [])) = Inr ()"
proof -
  have "json_Decode (json_Encode (JObj [])) = Inr (JObj [])"
    by (rule json_Decode_Encode) (simp_all add: max_depth_def)
  then show ?thesis by (simp add: decode_into_def store_empty_def store_struct_def)
qed

lemma store_request_json:
  assumes "valid_utf8 (rq_Magnet r)" "valid_utf8 (rq_Label r)" "valid_utf8 (rq_TargetDir r)"
  shows "decode_into store_request zero_request (json_Encode (request_json r)) = Inr r"
proof -
  let ?fs = "[(''magnet'', field rq_Magnet (\<lambda>a r. r\<lparr>rq_Magnet := a\<rparr>) store_string),
        (''label'', field rq_Label (\<lambda>a r. r\<lparr>rq_Label := a\<rparr>) store_string),
        (''targetDir'', field rq_TargetDir (\<lambda>a r. r\<lparr>rq_TargetDir := a\<rparr>) store_string)]"
  have f: "List.find (\<lambda>f. fst f = ''magnet'') ?fs = Some (''magnet'', field rq_Magnet (\<lambda>a r. r\<lparr>rq_Magnet := a\<rparr>) store_string)"
    "List.find (\<lambda>f. fst f = ''label'') ?fs = Some (''label'', field rq_Label (\<lambda>a r. r\<lparr>rq_Label := a\<rparr>) store_string)"
    "List.find (\<lambda>f. fst f = ''targetDir'') ?fs =
       Some (''targetDir'', field rq_TargetDir (\<lambda>a r. r\<lparr>rq_TargetDir := a\<rparr>) store_string)"
    by simp_all
  note stored = assms [THEN store_string_JString, of _ "(x, e)" for x e, unfolded snd_conv]
  have "store_members ''AddTorrentRequest'' [] ?fs
      [(''magnet'', JString (rq_Magnet r)), (''label'', JString (rq_Label r)), (''targetDir'', JString (rq_TargetDir r))]
      (zero_request, None) = Inr (r, None)"
    apply (rule trans [OF store_members_Cons], rule plain_literal, rule f, rule stored)+
    apply (simp add: zero_request_def)
    done
  moreover have "json_Decode (json_Encode (request_json r)) = Inr (request_json r)"
    by (rule json_Decode_Encode)
      (simp_all add: request_json_def plain_literal [THEN scannable_plain] max_depth_def)
  ultimately show ?thesis
    by (simp add: decode_into_def store_request_def store_struct_def request_json_def)
qed

section \<open>Paths and routes\<close>

text \<open>A hash that is one ordinary path component and holds no \<open>?\<close>, as every hexadecimal info hash.\<close>

definition hash_segment :: "string \<Rightarrow> bool" where
  "hash_segment h \<longleftrightarrow> plain_component h \<and> CHR ''?'' \<notin> set h"

abbreviation abs_path :: "string list \<Rightarrow> string" where
  "abs_path cs \<equiv> slash # join_with [slash] cs"

lemma split_abs_path:
  "cs \<noteq> [] \<Longrightarrow> list_all plain_component cs \<Longrightarrow> split_on slash (abs_path cs) = [] # cs"
  by (simp add: split_on_join list_all_iff plain_component_def)

lemma clean_comps_abs_path:
  assumes "cs \<noteq> []" "list_all plain_component cs"
  shows "clean_comps (abs_path cs) = cs"
proof -
  have "filter plain_component cs = cs" using assms(2) by (simp add: filter_id_conv list_all_iff)
  moreover have "c = [] \<or> c = ''.'' \<or> plain_component c" if "c \<in> set ([] # cs)" for c
    using that assms(2) by (auto simp: list_all_iff)
  then have "foldl (clean_step True) [] ([] # cs) = rev (filter plain_component ([] # cs)) @ []"
    by (rule foldl_clean_plain)
  ultimately show ?thesis
    using split_abs_path [OF assms] by (simp add: clean_comps_def is_abs_def plain_component_def)
qed

lemma Clean_abs_path: "cs \<noteq> [] \<Longrightarrow> list_all plain_component cs \<Longrightarrow> Clean (abs_path cs) = abs_path cs"
  using clean_comps_abs_path [of cs] by (simp add: Clean_def render_path_def is_abs_def)

lemma path_comps_abs_path:
  assumes "cs \<noteq> []" "list_all plain_component cs"
  shows "path_comps (abs_path cs) = cs"
proof -
  have "filter (\<lambda>c. c \<noteq> []) cs = cs"
    using assms(2) by (simp add: filter_id_conv list_all_iff plain_component_def)
  then show ?thesis using split_abs_path [OF assms] by (simp add: path_comps_def)
qed

lemma join_with_snoc: "cs \<noteq> [] \<Longrightarrow> join_with sep cs @ sep @ x = join_with sep (cs @ [x])"
  by (induction sep cs rule: join_with.induct) auto

lemma api_path_abs: "api_path = abs_path [''api'', ''v1'', ''torrents'']"
  by (simp add: api_path_def)

lemma api_components: "list_all plain_component [''api'', ''v1'', ''torrents'', ''pause'', ''resume'']"
  by (simp add: plain_component_def)

lemma Join_api_path:
  assumes "hash_segment h"
  shows "path_Join [api_path, h] = abs_path [''api'', ''v1'', ''torrents'', h]"
    "x \<in> {''pause'', ''resume''} \<Longrightarrow> path_Join [api_path, h, x] = abs_path [''api'', ''v1'', ''torrents'', h, x]"
proof -
  have h: "plain_component h" using assms by (simp add: hash_segment_def)
  show "path_Join [api_path, h] = abs_path [''api'', ''v1'', ''torrents'', h]"
    using Clean_abs_path [of "[''api'', ''v1'', ''torrents'', h]"] h api_components by (simp add: path_Join_def api_path_def)
  show "path_Join [api_path, h, x] = abs_path [''api'', ''v1'', ''torrents'', h, x]" if "x \<in> {''pause'', ''resume''}"
    using Clean_abs_path [of "[''api'', ''v1'', ''torrents'', h, x]"] h api_components that
    by (auto simp: path_Join_def api_path_def)
qed

lemma route_hash:
  assumes "hash_segment h"
  shows "route (api_Register s rq) ''GET'' [''api'', ''v1'', ''torrents'', h] = Route (path_value (api_Get s)) [(''hash'', h)]"
    "route (api_Register s rq) ''DELETE'' [''api'', ''v1'', ''torrents'', h] = Route (path_value (api_Remove s)) [(''hash'', h)]"
    "route (api_Register s rq) ''POST'' [''api'', ''v1'', ''torrents'', h, ''pause''] =
       Route (path_value (api_Pause s)) [(''hash'', h)]"
    "route (api_Register s rq) ''POST'' [''api'', ''v1'', ''torrents'', h, ''resume''] =
       Route (path_value (api_Resume s)) [(''hash'', h)]"
    "route (api_Register s rq) ''POST'' [''api'', ''v1'', ''torrents''] = Route (\<lambda>_. api_Add s rq) []"
    "route (api_Register s rq) ''GET'' [''api'', ''v1'', ''torrents''] = Route (\<lambda>_. api_List s) []"
  using assms by (simp_all add: hash_segment_def plain_component_def api_Register_def route_def pat_def match_method_def)

text \<open>A server that only serves the API.\<close>

definition api_server :: "'w ApiService \<Rightarrow> validator \<Rightarrow> 'w handler" where
  "api_server s required = serve_mux (api_Register s required)"

lemma Join_empty: "p \<noteq> [] \<Longrightarrow> path_Join [[], p] = Clean p"
  by (simp add: path_Join_def)

lemma cut_abs_path:
  assumes "list_all (\<lambda>x. CHR ''?'' \<notin> set x) cs"
  shows "CHR ''?'' \<notin> set (abs_path cs)"
proof -
  have "CHR ''?'' \<notin> set (join_with [slash] cs)"
    using assms by (induction "[slash]" cs rule: join_with.induct) auto
  then show ?thesis by simp
qed

lemma doBody_local:
  assumes "cs \<noteq> []" "list_all plain_component cs" "list_all (\<lambda>x. CHR ''?'' \<notin> set x) cs"
    and e: "endpoint = abs_path cs @ (if q = [] then [] else CHR ''?'' # q)"
  shows "doBody (local_client h) c m endpoint b sto zero w =
    call (loopback h (make_request c m (abs_path cs) q b) w)
      (\<lambda>resp w.
         if sent_status resp \<ge> StatusOK \<and> sent_status resp \<le> StatusIMUsed then
           (case decode_into sto zero (rw_body resp) of
              Inl err \<Rightarrow> (Err (Errorf ''failed to decode response: '' err []), w)
            | Inr response \<Rightarrow> (Ok response, w))
         else (Err (ErrorResponse (sent_status resp)
                      (decode_ignoring store_error_response [] (rw_body resp))), w))
      (\<lambda>err w. (Err (Errorf ''failed to send request: '' err []), w))"
proof -
  have n: "CHR ''?'' \<notin> set (abs_path cs)" by (rule cut_abs_path [OF assms(3)])
  have c: "\<exists>f. cut_at (CHR ''?'') endpoint = (abs_path cs, q, f)"
    using cut_at_notin [OF n] cut_at_append [OF n, of q] by (cases "q = []") (auto simp: e simp del: cut_at.simps)
  then obtain f where c: "cut_at (CHR ''?'') endpoint = (abs_path cs, q, f)" ..
  have j: "path_Join [[], abs_path cs] = abs_path cs"
    using Join_empty [of "abs_path cs"] Clean_abs_path [OF assms(1,2)] by simp
  show ?thesis unfolding doBody_def c Let_def by (simp add: local_client_def j)
qed

lemma make_request_fields [simp]:
  "req_method (make_request c m p q b) = m" "req_query (make_request c m p q b) = parse_query q"
  "req_path (make_request c m p q b) = path_comps p" "req_ctx (make_request c m p q b) = c"
  by (simp_all add: make_request_def)

text \<open>The answer of a handler that asks the service and replies, as the client sees it.\<close>

definition seen :: "'a store \<Rightarrow> 'a \<Rightarrow> Response \<Rightarrow> 'a res" where
  "seen sto zero resp =
     (if sent_status resp \<ge> StatusOK \<and> sent_status resp \<le> StatusIMUsed then
        (case decode_into sto zero (rw_body resp) of
           Inl err \<Rightarrow> Err (Errorf ''failed to decode response: '' err [])
         | Inr response \<Rightarrow> Ok response)
      else Err (ErrorResponse (sent_status resp) (decode_ignoring store_error_response [] (rw_body resp))))"

lemma client_do_local:
  assumes "cs \<noteq> []" "list_all plain_component cs" "list_all (\<lambda>x. CHR ''?'' \<notin> set x) cs"
    "endpoint = abs_path cs @ (if q = [] then [] else CHR ''?'' # q)"
    and r: "route (api_Register s rq) m cs = Route hnd bs"
    and h: "hnd bs (make_request c m (abs_path cs) q b) fresh_response w = (Ok (), resp, w')"
  shows "doBody (local_client (api_server s rq)) c m endpoint b sto zero w = (seen sto zero resp, w')"
proof -
  have "loopback (api_server s rq) (make_request c m (abs_path cs) q b) w = (Ok resp, w')"
    using r h path_comps_abs_path [OF assms(1,2)]
    by (simp add: loopback_def api_server_def serve_mux_def)
  then show ?thesis
    by (intro trans [OF doBody_local [OF assms(1-4)]]) (simp add: seen_def split: sum.split)
qed

section \<open>The client's calls on the API\<close>

lemma seen_error:
  assumes "status < 200 \<or> 226 < status"
  shows "seen sto zero (writeErrorf status m fresh_response) = Err (ErrorResponse status (unquote (quoted m)))"
proof -
  have "json_Decode (json_Encode (JObj [(''error'', JString m)])) = Inr (JObj [(''error'', JString m)])"
    by (rule json_Decode_Encode) (simp_all only: one_member written_values, simp add: max_depth_def)
  moreover have "store_error_response ([], []) (JObj [(''error'', JString m)]) ([], None) = Inr (unquote (quoted m), None)"
    unfolding store_error_response_def
    by (rule store_one_member [OF plain_literal(15)]) (simp add: store_string_def JString_def)
  ultimately show ?thesis
    using assms by (auto simp: seen_def sent_status_def decode_ignoring_def)
qed

lemma seen_torrent:
  assumes "sendable t" "200 \<le> status" "status \<le> 226"
  shows "seen (store_response g general) zero_torrent (writeJSON status (torrent_response t) fresh_response) = Ok t"
proof -
  obtain v where "torrent_response t = Some v"
    using assms(1) by (simp add: torrent_response_def torrent_json_sendable)
  with decode_torrent_response [OF assms(1) this] assms(2,3) show ?thesis
    by (simp add: seen_def sent_status_def)
qed

lemma seen_list:
  assumes "\<And>t. t \<in> set ts \<Longrightarrow> sendable t"
  shows "seen (store_list_response general) [] (writeJSON StatusOK (list_response ts) fresh_response) = Ok ts"
proof -
  obtain v where "list_response ts = Some v"
    using assms by (simp add: list_response_def those_torrent_json)
  with decode_list_response [OF assms this] show ?thesis by (simp add: seen_def sent_status_def)
qed

lemma seen_empty: "seen (store_empty g) () (writeJSON StatusOK empty_response fresh_response) = Ok ()"
  by (simp add: seen_def sent_status_def empty_response_def decode_empty_response)

lemma hash_segmentD: "hash_segment h \<Longrightarrow> plain_component h \<and> CHR ''?'' \<notin> set h"
  by (simp add: hash_segment_def)

lemma plain_api [simp]: "plain_component ''api''" "plain_component ''v1''" "plain_component ''torrents''"
  "plain_component ''pause''" "plain_component ''resume''"
  by (simp_all add: plain_component_def)

text \<open>The error a failed call on a hash gives to the client.\<close>

definition hash_failure :: "string \<Rightarrow> string \<Rightarrow> go_error \<Rightarrow> go_error" where
  "hash_failure verb h err =
     (if errors_is err SvcTorrentNotFound
      then ErrorResponse StatusNotFound (unquote (quoted (''torrent '' @ go_quote h @ '' does not exist'')))
      else ErrorResponse StatusInternalServerError
             (unquote (quoted (''failed to '' @ verb @ '' torrent: '' @ error_msg err))))"

lemma seen_hash_error: "seen sto zero (hash_error verb h err fresh_response) = Err (hash_failure verb h err)"
  by (simp add: hash_error_def hash_failure_def seen_error)

text \<open>A call on a hash reaches the handler its route names, with the hash and the query.\<close>

lemma client_do_hash:
  assumes h: "hash_segment h" and xs: "xs = [] \<or> xs = [''pause''] \<or> xs = [''resume'']"
    and r: "route (api_Register s rq) m ([''api'', ''v1'', ''torrents'', h] @ xs) = Route (path_value f) [(''hash'', h)]"
    and run: "\<And>r. req_ctx r = c \<Longrightarrow> req_query r = parse_query q \<Longrightarrow> f h r fresh_response w = (Ok (), resp, w')"
  shows "client_do (local_client (api_server s rq)) c m
      (path_Join (api_path # h # xs) @ (if q = [] then [] else CHR ''?'' # q)) None sto zero w =
    (seen sto zero resp, w')"
proof -
  let ?cs = "[''api'', ''v1'', ''torrents'', h] @ xs"
  have "path_Join (api_path # h # xs) = abs_path ?cs"
    using xs Join_api_path(1) [OF h] Join_api_path(2) [OF h insertI1] Join_api_path(2) [OF h insertI2 [OF singletonI]]
    by (elim disjE) (simp_all only: append.simps)
  then have e: "path_Join (api_path # h # xs) @ (if q = [] then [] else CHR ''?'' # q) =
      abs_path ?cs @ (if q = [] then [] else CHR ''?'' # q)" by simp
  have "list_all plain_component xs \<and> list_all (\<lambda>x. CHR ''?'' \<notin> set x) xs"
    using xs by (elim disjE) simp_all
  then have p: "?cs \<noteq> []" "list_all plain_component ?cs" "list_all (\<lambda>x. CHR ''?'' \<notin> set x) ?cs"
    using hash_segmentD [OF h] by simp_all
  have f: "path_value f [(''hash'', h)] (make_request c m (abs_path ?cs) q NoBody) fresh_response w = (Ok (), resp, w')"
    unfolding path_value_def get_first_def map_of.simps by (simp add: run)
  show ?thesis
    unfolding client_do_def option.case by (rule client_do_local [OF p e r f])
qed

lemma client_Get_local:
  assumes h: "hash_segment h" and run: "as_Get s c h w = (r, w')" "returns r"
    and ok: "\<And>t. r = Ok t \<Longrightarrow> sendable (newTorrent t)"
  shows "client_Get general (local_client (api_server s rq)) c h w =
    (case r of Ok t \<Rightarrow> Ok (fromAPI (newTorrent t)) | Err e \<Rightarrow> Err (hash_failure ''load'' h e), w')"
proof -
  note D = client_do_hash [where f = "api_Get s" and xs = "[]" and q = "[]", OF h, unfolded append_Nil2 if_True simp_thms,
      OF TrueI route_hash(1) [OF h]]
  from run(2) show ?thesis
  proof (cases rule: returnsE)
    case (1 t)
    have "client_do (local_client (api_server s rq)) c ''GET'' (path_Join [api_path, h]) None
        (store_response ''GetTorrentResponse'' general) zero_torrent w =
        (seen (store_response ''GetTorrentResponse'' general) zero_torrent
           (writeJSON StatusOK (torrent_response (newTorrent t)) fresh_response), w')"
      using run(1) 1 by (intro D) (simp add: api_Get_def)
    then show ?thesis using seen_torrent [OF ok [OF 1]] by (simp add: client_Get_def from_response_def 1)
  next
    case (2 e)
    have "client_do (local_client (api_server s rq)) c ''GET'' (path_Join [api_path, h]) None
        (store_response ''GetTorrentResponse'' general) zero_torrent w =
        (seen (store_response ''GetTorrentResponse'' general) zero_torrent (hash_error ''load'' h e fresh_response), w')"
      using run(1) 2 by (intro D) (simp add: api_Get_def)
    then show ?thesis by (simp add: client_Get_def from_response_def 2 seen_hash_error)
  qed
qed

text \<open>\<open>Remove\<close>, \<open>Pause\<close> and \<open>Resume\<close>: only success or the reason of the failure comes back.\<close>

definition hash_outcome :: "string \<Rightarrow> string \<Rightarrow> unit res \<Rightarrow> unit res" where
  "hash_outcome verb h r = (case r of Ok u \<Rightarrow> Ok u | Err e \<Rightarrow> Err (hash_failure verb h e) | Panic p \<Rightarrow> Panic p | Hang \<Rightarrow> Hang)"

definition unit_reply :: "string \<Rightarrow> string \<Rightarrow> unit res \<Rightarrow> Response" where
  "unit_reply verb h r =
     (case r of Err e \<Rightarrow> hash_error verb h e fresh_response | _ \<Rightarrow> writeJSON StatusOK empty_response fresh_response)"

lemma seen_unit_reply:
  assumes "returns r"
  shows "seen (store_empty g) () (unit_reply verb h r) = hash_outcome verb h r"
  using assms
  by (cases r) (simp_all add: unit_reply_def hash_outcome_def seen_hash_error seen_empty)

lemma parse_query_files: "parse_query ''files=true'' = [(''files'', ''true'')]" "parse_query [] = []"
  by (simp_all add: parse_query_def parse_pair_def)

lemma client_Remove_local:
  assumes h: "hash_segment h" and run: "as_Remove s c h deleteFiles w = (r, w')" "returns r"
  shows "client_Remove (local_client (api_server s rq)) c h deleteFiles w = (hash_outcome ''remove'' h r, w')"
proof -
  let ?q = "if deleteFiles then ''files=true'' else []"
  have hnd: "api_Remove s h rr fresh_response w = (Ok (), unit_reply ''remove'' h r, w')"
    if "req_ctx rr = c" "req_query rr = parse_query ?q" for rr
  proof -
    have "(query_Get rr ''files'' = ''true'') = deleteFiles"
      using that(2) parse_query_files by (simp add: query_Get_def get_first_def split: if_splits)
    then show ?thesis using run that(1) by (cases r) (simp_all add: api_Remove_def unit_reply_def)
  qed
  have r1: "route (api_Register s rq) ''DELETE'' ([''api'', ''v1'', ''torrents'', h] @ []) =
      Route (path_value (api_Remove s)) [(''hash'', h)]" using route_hash(2) [OF h] by simp
  have e: "(if deleteFiles then path_Join [api_path, h] @ ''?files=true'' else path_Join [api_path, h]) =
      path_Join [api_path, h] @ (if ?q = [] then [] else CHR ''?'' # ?q)" by simp
  have "client_do (local_client (api_server s rq)) c ''DELETE''
      (path_Join (api_path # h # []) @ (if ?q = [] then [] else CHR ''?'' # ?q)) None
      (store_empty ''RemoveTorrentResponse'') () w =
      (seen (store_empty ''RemoveTorrentResponse'') () (unit_reply ''remove'' h r), w')"
    by (rule client_do_hash [OF h _ r1 hnd]) simp_all
  then show ?thesis unfolding client_Remove_def Let_def e seen_unit_reply [OF run(2)] .
qed

lemma client_toggle_local:
  assumes h: "hash_segment h" and x: "(verb, f, g) \<in> {(''pause'', api_Pause s, as_Pause s), (''resume'', api_Resume s, as_Resume s)}"
    and run: "g c h w = (r, w')" "returns r"
  shows "client_do (local_client (api_server s rq)) c ''POST'' (path_Join [api_path, h, verb]) None (store_empty st) () w =
    (hash_outcome verb h r, w')"
proof -
  have hnd: "f h rr fresh_response w = (Ok (), unit_reply verb h r, w')" if "req_ctx rr = c" for rr
    using x run that by (cases r) (auto simp: api_Pause_def api_Resume_def unit_reply_def)
  have r1: "route (api_Register s rq) ''POST'' ([''api'', ''v1'', ''torrents'', h] @ [verb]) =
      Route (path_value f) [(''hash'', h)]" using x route_hash(3,4) [OF h, of s rq] by auto
  have xs: "[verb] = [] \<or> [verb] = [''pause''] \<or> [verb] = [''resume'']" using x by auto
  from client_do_hash [OF h xs r1 hnd, where q = "[]", of c "store_empty st" "()"] show ?thesis
    by (simp add: seen_unit_reply [OF run(2)])
qed

lemma client_List_local:
  assumes run: "as_List s c w = (Ok ts, w')" and ok: "\<And>t. t \<in> set ts \<Longrightarrow> sendable (newTorrent t)"
  shows "client_List general (local_client (api_server s rq)) c w = (Ok (map (fromAPI \<circ> newTorrent) ts), w')"
proof -
  let ?cs = "[''api'', ''v1'', ''torrents'']"
  have p: "?cs \<noteq> []" "list_all plain_component ?cs" "list_all (\<lambda>x. CHR ''?'' \<notin> set x) ?cs" by simp_all
  have e: "api_path = abs_path ?cs @ (if [] = ([] :: string) then [] else CHR ''?'' # [])" by (simp add: api_path_def)
  have h: "hash_segment ''h''" by (simp add: hash_segment_def plain_component_def)
  have "(\<lambda>_. api_List s) [] (make_request c ''GET'' (abs_path ?cs) [] NoBody) fresh_response w =
      (Ok (), writeJSON StatusOK (list_response (map newTorrent ts)) fresh_response, w')"
    using run by (simp add: api_List_def)
  from client_do_local [OF p e route_hash(6) [OF h] this, where sto = "store_list_response general" and zero = "[]"]
  have "client_do (local_client (api_server s rq)) c ''GET'' api_path None (store_list_response general) [] w =
      (Ok (map newTorrent ts), w')"
    using seen_list [of "map newTorrent ts" general] ok by (auto simp: client_do_def)
  then show ?thesis by (simp add: client_List_def)
qed

lemma client_AddMagnet_local:
  assumes run: "as_AddMagnet s c uri \<lparr>opt_Label = lbl, opt_TargetDir = tdir\<rparr> w = (r, w')" "returns r"
    and req: "valid_utf8 uri" "valid_utf8 lbl" "valid_utf8 tdir" "rq [(''magnet'', uri)] = None"
    and ok: "\<And>t. r = Ok t \<Longrightarrow> sendable (newTorrent t)"
  shows "client_AddMagnet general (local_client (api_server s rq)) c uri lbl tdir w =
    (case r of
       Ok t \<Rightarrow> Ok (fromAPI (newTorrent t))
     | Err e \<Rightarrow> Err (if errors_is e SvcTorrentAlreadyExists
                    then ErrorResponse StatusConflict (unquote (quoted ''torrent already exists''))
                    else ErrorResponse StatusInternalServerError
                           (unquote (quoted (''failed to add torrent: '' @ error_msg e)))), w')"
proof -
  let ?cs = "[''api'', ''v1'', ''torrents'']"
  let ?rq = "\<lparr>rq_Magnet = uri, rq_Label = lbl, rq_TargetDir = tdir\<rparr>"
  let ?b = "JsonBody (json_Encode (request_json ?rq))"
  let ?reply = "addMagnet_reply (case r of Ok t \<Rightarrow> Inr t | Err e \<Rightarrow> Inl e) fresh_response"
  have p: "?cs \<noteq> []" "list_all plain_component ?cs" "list_all (\<lambda>x. CHR ''?'' \<notin> set x) ?cs" by simp_all
  have e: "api_path = abs_path ?cs @ (if [] = ([] :: string) then [] else CHR ''?'' # [])" by (simp add: api_path_def)
  have h: "hash_segment ''h''" by (simp add: hash_segment_def plain_component_def)
  have d: "decode rq (json_Encode (request_json ?rq)) = Inr ?rq"
    using store_request_json [of ?rq] req by (simp add: decode_def Validate_def)
  have "(\<lambda>_. api_Add s rq) [] (make_request c ''POST'' (abs_path ?cs) [] ?b) fresh_response w = (Ok (), ?reply, w')"
    using run d by (cases r) (simp_all add: api_Add_def api_addMagnet_def make_request_def)
  from client_do_local [OF p e route_hash(5) [OF h] this]
  have D: "client_do (local_client (api_server s rq)) c ''POST'' api_path (Some (request_json ?rq))
      (store_response ''AddTorrentResponse'' general) zero_torrent w =
      (seen (store_response ''AddTorrentResponse'' general) zero_torrent ?reply, w')"
    by (simp add: client_do_def)
  from run(2) show ?thesis
  proof (cases rule: returnsE)
    case (1 t)
    then show ?thesis using D seen_torrent [OF ok [OF 1]]
      by (simp add: client_AddMagnet_def from_response_def addMagnet_reply_def)
  next
    case (2 e)
    then show ?thesis using D
      by (simp add: client_AddMagnet_def from_response_def addMagnet_reply_def seen_error)
  qed
qed

end
