(* ===== verification/View.thy ===== *)
theory View
  imports Service
begin

text \<open>
  The HTML of the browser interface: the templ components under \<open>internal/server/ui/component\<close>,
  \<open>layout\<close> and \<open>view/torrent\<close>, as the Go code generated from them runs, and the Go helpers they
  call.

  \<^item> A component is the list of its writes: \<open>Raw\<close> is a literal of the template; the other
    constructors are values that pass through a function of the templ runtime on their way out.
    That runtime is a third-party package and so a parameter, the record \<open>templ_runtime\<close>.
  \<^item> Arithmetic on \<open>float64\<close> is kept as an expression; \<open>sprintf_f\<close> of the runtime record evaluates it
    and prints it with a number of decimals.
  \<^item> The scripts are constant JavaScript and stay parameters.
\<close>

section \<open>Components and the templ runtime\<close>

datatype float64 = F_int int | F_div float64 float64 | F_mul float64 float64

datatype html =
    Raw string                          \<comment> \<open>\<open>templruntime.WriteString\<close> of a literal\<close>
  | Text string                         \<comment> \<open>\<open>templ.EscapeString\<close>\<close>
  | Attr string                         \<comment> \<open>\<open>templ.ResolveAttributeValue\<close>\<close>
  | Class string                        \<comment> \<open>\<open>templ.CSSClasses(...).String()\<close>, resolved\<close>
  | Style string                        \<comment> \<open>\<open>SanitizeStyleAttributeValues\<close>, escaped\<close>
  | Attributes "(string \<times> string) list" \<comment> \<open>\<open>templ.RenderAttributes\<close>\<close>

record templ_runtime =
  EscapeString :: "string \<Rightarrow> string"
  ResolveAttributeValue :: "string \<Rightarrow> string"
  CSSClasses :: "string \<Rightarrow> string"
  SanitizeStyleAttributeValues :: "string \<Rightarrow> string"
  RenderAttributes :: "(string \<times> string) list \<Rightarrow> string"
  sprintf_f :: "nat \<Rightarrow> float64 \<Rightarrow> string"

fun html_text :: "templ_runtime \<Rightarrow> html \<Rightarrow> string" where
  "html_text rt (Raw s) = s"
| "html_text rt (Text s) = EscapeString rt s"
| "html_text rt (Attr s) = ResolveAttributeValue rt s"
| "html_text rt (Class s) = ResolveAttributeValue rt (CSSClasses rt s)"
| "html_text rt (Style s) = EscapeString rt (SanitizeStyleAttributeValues rt s)"
| "html_text rt (Attributes kvs) = RenderAttributes rt kvs"

definition render_html :: "templ_runtime \<Rightarrow> html list \<Rightarrow> string" where
  "render_html rt c = concat (map (html_text rt) c)"

section \<open>Helpers\<close>

definition displayName :: "Torrent \<Rightarrow> string" where
  "displayName t = (if Name t \<noteq> [] then Name t else ''(metadata pending)'')"

definition torrentStatusKind :: "Torrent \<Rightarrow> string" where
  "torrentStatusKind t =
     (if Paused t then ''paused'' else if Length t = 0 then ''pending''
      else if BytesCompleted t \<ge> Length t then ''seeding'' else ''downloading'')"

definition statusDotClass :: "string \<Rightarrow> string" where
  "statusDotClass kind =
     (if kind = ''seeding'' then ''bg-green-500'' else if kind = ''paused'' then ''bg-yellow-500''
      else if kind = ''pending'' then ''bg-gray-400'' else ''bg-indigo-500'')"

definition statusDotLabel :: "string \<Rightarrow> string" where
  "statusDotLabel kind =
     (if kind = ''seeding'' then ''seeding'' else if kind = ''paused'' then ''paused''
      else if kind = ''pending'' then ''waiting for metadata'' else ''downloading'')"

definition percent :: "int \<Rightarrow> int \<Rightarrow> float64" where
  "percent bytesCompleted len =
     (if len = 0 then F_int 0 else F_mul (F_div (F_int bytesCompleted) (F_int len)) (F_int 100))"

definition filePercent :: "File \<Rightarrow> float64" where
  "filePercent f =
     (if f_Length f = 0 then F_int 0
      else F_mul (F_div (F_int (f_BytesCompleted f)) (F_int (f_Length f))) (F_int 100))"

text \<open>The loop of \<open>humanBytes\<close>: \<open>v\<close>, \<open>div\<close> and \<open>exp\<close>.\<close>

function human_loop :: "int \<Rightarrow> int \<Rightarrow> nat \<Rightarrow> int \<times> nat" where
  "human_loop v dv ex = (if v \<ge> 1024 then human_loop (v div 1024) (dv * 1024) (ex + 1) else (dv, ex))"
  by auto
termination by (relation "measure (\<lambda>(v, _, _). nat v)") auto

declare human_loop.simps [simp del]

definition humanBytes :: "templ_runtime \<Rightarrow> int \<Rightarrow> string" where
  "humanBytes rt n =
     (if n < 1024 then int_dec n @ '' B''
      else (let (dv, ex) = human_loop (n div 1024) 1024 0
            in sprintf_f rt 1 (F_div (F_int n) (F_int dv)) @ '' '' @ [''KMGTPE'' ! ex] @ ''iB''))"

text \<open>\<open>fmt.Sprintf("%.0f%%", x)\<close>\<close>

definition percent_text :: "templ_runtime \<Rightarrow> float64 \<Rightarrow> string" where
  "percent_text rt x = sprintf_f rt 0 x @ ''%''"

definition peers_text :: "Torrent \<Rightarrow> string" where
  "peers_text t = int_dec (t_Seeders t) @ '' / '' @ int_dec (t_ActivePeers t)"

definition showTitle :: "Torrent \<Rightarrow> string" where
  "showTitle t = (if Name t \<noteq> [] then Name t else ''Torrent detail'')"

definition detailComplete :: "Torrent \<Rightarrow> string" where
  "detailComplete t = format_bool (Length t > 0 \<and> BytesCompleted t \<ge> Length t)"

text \<open>The detail page has its own copies of two helpers of the row.\<close>

definition show_displayName :: "Torrent \<Rightarrow> string" where
  "show_displayName t = (if Name t \<noteq> [] then Name t else ''(metadata pending)'')"

definition show_torrentStatusKind :: "Torrent \<Rightarrow> string" where
  "show_torrentStatusKind t =
     (if Paused t then ''paused'' else if Length t = 0 then ''pending''
      else if BytesCompleted t \<ge> Length t then ''seeding'' else ''downloading'')"

definition em_dash :: string where
  "em_dash = [CHR 0xE2, CHR 0x80, CHR 0x94]"

definition labelOrDash :: "string \<Rightarrow> string" where
  "labelOrDash s = (if s = [] then em_dash else s)"

definition dirOrDash :: "string \<Rightarrow> string" where
  "dirOrDash s = (if s = [] then ''(default)'' else s)"

definition peerCount :: "Torrent \<Rightarrow> string" where
  "peerCount t = int_dec (t_Seeders t) @ '' seeders / '' @ int_dec (t_ActivePeers t) @ '' connected''"

definition statusLabel :: "Torrent \<Rightarrow> string" where
  "statusLabel t =
     (if Paused t then ''Paused'' else if Length t = 0 then ''Fetching metadata''
      else if BytesCompleted t \<ge> Length t then ''Seeding'' else ''Downloading'')"

definition sourceOrDefault :: "string \<Rightarrow> string" where
  "sourceOrDefault src = (if src = ''file'' then ''file'' else ''magnet'')"

text \<open>\<open>t.Format("2006-01-02 15:04:05")\<close>\<close>

definition format_date :: "utc \<Rightarrow> string" where
  "format_date t =
     pad 4 (year t) @ ''-'' @ pad 2 (month t) @ ''-'' @ pad 2 (day t) @ '' '' @
     pad 2 (hour t) @ '':'' @ pad 2 (minute t) @ '':'' @ pad 2 (second t)"

section \<open>Icons\<close>

definition IconPlay :: "html list" where
  \<open>IconPlay =
    [Raw (''<svg xmlns="http://www.w3.org/2000/svg" class="h-4 w-4" viewBox="0 0 24 24" '' @
        ''fill="currentColor" aria-hidden="true"><polygon points="6,4 20,12 '' @
        ''6,20"></polygon></svg>'')]\<close>

definition IconPause :: "html list" where
  \<open>IconPause =
    [Raw (''<svg xmlns="http://www.w3.org/2000/svg" class="h-4 w-4" viewBox="0 0 24 24" '' @
        ''fill="none" stroke="currentColor" stroke-width="2" stroke-linecap="round" '' @
        ''stroke-linejoin="round" aria-hidden="true"><rect x="6" y="4" width="4" height="16" '' @
        ''rx="1"></rect> <rect x="14" y="4" width="4" height="16" rx="1"></rect></svg>'')]\<close>

definition IconPlus :: "html list" where
  \<open>IconPlus =
    [Raw (''<svg xmlns="http://www.w3.org/2000/svg" class="h-4 w-4" viewBox="0 0 24 24" '' @
        ''fill="none" stroke="currentColor" stroke-width="2" stroke-linecap="round" '' @
        ''stroke-linejoin="round" aria-hidden="true"><line x1="12" y1="5" x2="12" '' @
        ''y2="19"></line> <line x1="5" y1="12" x2="19" y2="12"></line></svg>'')]\<close>

definition IconSpinner :: "html list" where
  \<open>IconSpinner =
    [Raw (''<svg xmlns="http://www.w3.org/2000/svg" class="h-4 w-4 animate-spin" viewBox="0 0 '' @
        ''24 24" fill="none" aria-hidden="true"><circle cx="12" cy="12" r="10" '' @
        ''stroke="currentColor" stroke-width="3" opacity="0.25"></circle> <path d="M22 12a10 '' @
        ''10 0 0 0-10-10" stroke="currentColor" stroke-width="3" '' @
        ''stroke-linecap="round"></path></svg>'')]\<close>

definition IconTrash :: "html list" where
  \<open>IconTrash =
    [Raw (''<svg xmlns="http://www.w3.org/2000/svg" class="h-4 w-4" viewBox="0 0 24 24" '' @
        ''fill="none" stroke="currentColor" stroke-width="2" stroke-linecap="round" '' @
        ''stroke-linejoin="round" aria-hidden="true"><polyline points="3 6 5 6 21 '' @
        ''6"></polyline> <path d="M19 6v14a2 2 0 0 1-2 2H7a2 2 0 0 1-2-2V6"></path> <path '' @
        ''d="M8 6V4a2 2 0 0 1 2-2h4a2 2 0 0 1 2 2v2"></path> <line x1="10" y1="11" x2="10" '' @
        ''y2="17"></line> <line x1="14" y1="11" x2="14" y2="17"></line></svg>'')]\<close>

definition IconChevronDown :: "html list" where
  \<open>IconChevronDown =
    [Raw (''<svg xmlns="http://www.w3.org/2000/svg" class="h-4 w-4" viewBox="0 0 24 24" '' @
        ''fill="none" stroke="currentColor" stroke-width="2" stroke-linecap="round" '' @
        ''stroke-linejoin="round" aria-hidden="true"><polyline points="6 9 12 15 18 '' @
        ''9"></polyline></svg>'')]\<close>

definition IconUpload :: "string \<Rightarrow> html list" where
  \<open>IconUpload cls =
    [Raw (''<svg xmlns="http://www.w3.org/2000/svg" class="''),
     Class cls,
     Raw (''" viewBox="0 0 24 24" fill="none" stroke="currentColor" stroke-width="1.5" '' @
        ''stroke-linecap="round" stroke-linejoin="round" aria-hidden="true"><path d="M21 '' @
        ''15v4a2 2 0 0 1-2 2H5a2 2 0 0 1-2-2v-4"></path> <polyline points="17 8 12 3 7 '' @
        ''8"></polyline> <line x1="12" y1="3" x2="12" y2="15"></line></svg>'')]\<close>

definition IconDownload :: "string \<Rightarrow> html list" where
  \<open>IconDownload cls =
    [Raw (''<svg xmlns="http://www.w3.org/2000/svg" class="''),
     Class cls,
     Raw (''" viewBox="0 0 24 24" fill="none" stroke="currentColor" stroke-width="1.5" '' @
        ''stroke-linecap="round" stroke-linejoin="round" aria-hidden="true"><path d="M21 '' @
        ''15v4a2 2 0 0 1-2 2H5a2 2 0 0 1-2-2v-4"></path> <polyline points="7 10 12 15 17 '' @
        ''10"></polyline> <line x1="12" y1="15" x2="12" y2="3"></line></svg>'')]\<close>

section \<open>Components\<close>

definition StatusDot :: "string \<Rightarrow> html list" where
  \<open>StatusDot kind =
    [Raw (''<span class="''),
     Class (''inline-flex h-2.5 w-2.5 shrink-0 rounded-full '' @ statusDotClass kind),
     Raw (''" title="''),
     Attr (statusDotLabel kind),
     Raw (''" aria-label="''),
     Attr (statusDotLabel kind),
     Raw (''" role="img"></span>'')]\<close>

definition ProgressBar :: "templ_runtime \<Rightarrow> int \<Rightarrow> int \<Rightarrow> html list" where
  \<open>ProgressBar rt bytesCompleted len =
    (if len > 0 then
    [Raw (''<div class="flex items-center gap-3"><span class="inline-block min-w-[2.5rem] '' @
        ''text-right text-xs font-medium tabular-nums text-gray-700 dark:text-gray-300">''),
     Text (percent_text rt (percent bytesCompleted len)),
     Raw (''</span><div class="hidden h-2 flex-1 overflow-hidden rounded bg-gray-200 '' @
        ''dark:bg-gray-700 md:block"><div class="h-full bg-indigo-600 dark:bg-indigo-400" '' @
        ''style="''),
     Style (''width: '' @ percent_text rt (percent bytesCompleted len)),
     Raw (''"></div></div><div class="flex items-baseline gap-1 text-xs tabular-nums '' @
        ''text-gray-500 dark:text-gray-400"><span class="inline-block min-w-[4rem] '' @
        ''text-right">''),
     Text (humanBytes rt bytesCompleted),
     Raw (''</span> <span class="text-gray-400 dark:text-gray-500">/</span> <span>''),
     Text (humanBytes rt len),
     Raw (''</span></div></div>'')]
    else
    [Raw (''<div class="text-xs text-gray-500 dark:text-gray-400">'' @
        [CHR 0xE2, CHR 0x80, CHR 0x94] @
        ''</div>'')])\<close>

definition file_row :: "templ_runtime \<Rightarrow> File \<Rightarrow> html list" where
  \<open>file_row rt f =
    [Raw (''<li class="flex flex-col gap-2 p-4 md:flex-row md:items-center md:gap-4 md:px-6 '' @
        ''md:py-3"><div class="min-w-0 flex-1"><span class="block truncate text-sm" title="''),
     Attr (f_Path f),
     Raw (''">''),
     Text (f_Path f),
     Raw (''</span></div><div class="flex items-center gap-3 text-sm md:w-72 md:shrink-0"><span '' @
        ''class="inline-block min-w-[2.5rem] text-right text-xs font-medium tabular-nums '' @
        ''text-gray-700 dark:text-gray-300">''),
     Text (percent_text rt (filePercent f)),
     Raw (''</span><div class="hidden h-2 flex-1 overflow-hidden rounded bg-gray-200 '' @
        ''dark:bg-gray-700 md:block"><div class="h-full bg-indigo-600 dark:bg-indigo-400" '' @
        ''style="''),
     Style (''width: '' @ percent_text rt (filePercent f)),
     Raw (''"></div></div><span class="inline-block min-w-[4.5rem] text-right text-xs '' @
        ''tabular-nums text-gray-500 dark:text-gray-400">''),
     Text (humanBytes rt (f_Length f)),
     Raw (''</span></div></li>'')]\<close>

definition FileTable :: "templ_runtime \<Rightarrow> File list \<Rightarrow> html list" where
  \<open>FileTable rt fs =
    (if fs = [] then
    [Raw (''<div class="px-6 py-12 text-center text-sm text-gray-500 dark:text-gray-400">No '' @
        ''files.</div>'')]
    else
    [Raw (''<ul class="divide-y divide-gray-200 dark:divide-gray-700">'')] @
    concat (map (file_row rt) fs) @
    [Raw (''</ul>'')])\<close>

record ActionButtonProps =
  ab_ID :: string
  ab_AriaLabel :: string
  ab_Label :: string
  ab_SrOnlyLabel :: bool
  ab_Icon :: "html list"
  ab_Disabled :: bool
  ab_Class :: string
  ab_Attrs :: "(string \<times> string) list"

definition ActionButton :: "ActionButtonProps \<Rightarrow> html list" where
  \<open>ActionButton props =
    [Raw (''<button type="button" id="''),
     Attr (ab_ID props),
     Raw (''" aria-label="''),
     Attr (ab_AriaLabel props),
     Raw (''"'')] @
    (if ab_Disabled props then [Raw ('' disabled'')] else []) @
    [Raw ('' class="''),
     Class (''inline-flex items-center justify-center gap-1.5 rounded border px-2.5 py-1.5 text-xs '' @
       ''font-medium disabled:cursor-not-allowed disabled:opacity-40 disabled:hover:bg-white '' @
       ''dark:disabled:hover:bg-gray-800 '' @ ab_Class props),
     Raw (''"''),
     Attributes (ab_Attrs props),
     Raw (''><span class="btn-icon inline-flex">'')] @
    ab_Icon props @
    [Raw (''</span> <span class="btn-spinner hidden">'')] @
    IconSpinner @
    [Raw (''</span> '')] @
    (if ab_SrOnlyLabel props then
      [Raw (''<span class="sr-only md:not-sr-only">''),
       Text (ab_Label props),
       Raw (''</span>'')]
     else
      [Raw (''<span>''),
       Text (ab_Label props),
       Raw (''</span>'')]) @
    [Raw (''</button>'')]\<close>

definition gray_button :: string where
  "gray_button =
     ''border-gray-300 bg-white text-gray-700 hover:bg-gray-50 dark:border-gray-600 '' @
     ''dark:bg-gray-800 dark:text-gray-200 dark:hover:bg-gray-700''"

definition TorrentToolbar :: "html list" where
  \<open>TorrentToolbar =
    [Raw (''<div class="border-b border-gray-200 bg-white dark:border-gray-700 '' @
        ''dark:bg-gray-800"><div class="mx-auto flex max-w-6xl items-center gap-1 px-4 py-2 '' @
        ''sm:px-6"><a href="/torrents/new" id="toolbar-add" aria-label="Add torrent" '' @
        ''class="inline-flex items-center justify-center gap-1.5 rounded border '' @
        ''border-gray-300 bg-white px-2.5 py-1.5 text-xs font-medium text-gray-700 '' @
        ''hover:bg-gray-50 dark:border-gray-600 dark:bg-gray-800 dark:text-gray-200 '' @
        ''dark:hover:bg-gray-700">'')] @
    IconPlus @
    [Raw (''<span class="sr-only md:not-sr-only">Add</span></a>'')] @
    ActionButton \<lparr>ab_ID = ''toolbar-resume'', ab_AriaLabel = ''Resume selected'', ab_Label = ''Resume'',
      ab_SrOnlyLabel = True, ab_Icon = IconPlay, ab_Disabled = True, ab_Class = gray_button, ab_Attrs = []\<rparr> @
    ActionButton \<lparr>ab_ID = ''toolbar-pause'', ab_AriaLabel = ''Pause selected'', ab_Label = ''Pause'',
      ab_SrOnlyLabel = True, ab_Icon = IconPause, ab_Disabled = True, ab_Class = gray_button, ab_Attrs = []\<rparr> @
    ActionButton \<lparr>ab_ID = ''toolbar-delete'', ab_AriaLabel = ''Delete selected'', ab_Label = ''Delete'',
      ab_SrOnlyLabel = True, ab_Icon = IconTrash, ab_Disabled = True,
      ab_Class = ''border-red-300 bg-white text-red-700 hover:bg-red-50 dark:border-red-800 '' @
        ''dark:bg-gray-800 dark:text-red-400 dark:hover:bg-red-900/30'', ab_Attrs = []\<rparr> @
    [Raw (''<span id="toolbar-selection-count" class="ml-auto min-w-[5.5rem] text-right text-xs '' @
        ''tabular-nums text-gray-500 dark:text-gray-400">0 selected</span></div></div>'')]\<close>

text \<open>The row of a torrent, in three parts: the checkbox and its data attributes, the name with hash and
  label, the numbers.\<close>

definition row_head :: "Torrent \<Rightarrow> html list" where
  \<open>row_head t =
    [Raw (''<li id="''),
     Attr (''torrent-'' @ InfoHash t),
     Raw (''" data-info-hash="''),
     Attr (InfoHash t),
     Raw (''" data-paused="''),
     Attr (format_bool (Paused t)),
     Raw (''" data-complete="''),
     Attr (format_bool (Length t > 0 \<and> BytesCompleted t \<ge> Length t)),
     Raw (''" class="flex items-start gap-3 p-4 has-[.row-select:checked]:bg-indigo-50 '' @
        ''dark:has-[.row-select:checked]:bg-indigo-900/20 md:items-center md:gap-4 md:px-6 '' @
        ''md:py-3"><input id="''),
     Attr (''row-select-'' @ InfoHash t),
     Raw (''" type="checkbox" class="checkbox row-select mt-1 md:mt-0" aria-label="Select '' @
        ''torrent" data-info-hash="''),
     Attr (InfoHash t),
     Raw (''" hx-preserve="true"><div class="min-w-0 flex-1 space-y-3 md:space-y-0"><div '' @
        ''class="min-w-0"><div class="flex min-w-0 items-center gap-2">'')]\<close>

definition row_name :: "Torrent \<Rightarrow> html list" where
  \<open>row_name t =
    StatusDot (torrentStatusKind t) @
    [Raw (''<a href="''),
     Text (''/torrents/'' @ InfoHash t),
     Raw (''" class="min-w-0 truncate font-medium hover:text-indigo-600 '' @
        ''dark:hover:text-indigo-400">''),
     Text (displayName t),
     Raw (''</a></div><div class="font-mono text-xs text-gray-500 dark:text-gray-400 truncate '' @
        ''md:break-all">''),
     Text (InfoHash t),
     Raw (''</div>'')] @
    (if Label t \<noteq> [] then
      [Raw (''<div class="mt-1 text-xs text-gray-700 dark:text-gray-300 truncate">''),
       Text (Label t),
       Raw (''</div>'')]
     else []) @
    [Raw (''</div><div class="flex items-baseline gap-4 text-sm tabular-nums md:hidden">'')]\<close>

definition row_numbers :: "templ_runtime \<Rightarrow> Torrent \<Rightarrow> html list" where
  \<open>row_numbers rt t =
    (if Length t > 0 then
      [Raw (''<span class="font-medium text-gray-700 dark:text-gray-300">''),
       Text (percent_text rt (percent (BytesCompleted t) (Length t))),
       Raw (''</span> <span class="text-gray-500 dark:text-gray-400">''),
       Text (humanBytes rt (BytesCompleted t)),
       Raw ('' / ''),
       Text (humanBytes rt (Length t)),
       Raw (''</span> '')]
     else
      [Raw (''<span class="text-gray-400 dark:text-gray-500">'' @
        [CHR 0xE2, CHR 0x80, CHR 0x94] @
        ''</span> <span class="text-gray-400 dark:text-gray-500">'' @
        [CHR 0xE2, CHR 0x80, CHR 0x94] @
        ''</span> '')]) @
    [Raw (''<span class="text-gray-500 dark:text-gray-400">''),
     Text (peers_text t),
     Raw (''</span></div></div><div class="hidden w-64 shrink-0 md:block">'')] @
    ProgressBar rt (BytesCompleted t) (Length t) @
    [Raw (''</div><div class="hidden w-16 shrink-0 justify-end md:flex" title="seeders / '' @
        ''connected peers"><span class="inline-block min-w-[3rem] text-right text-sm '' @
        ''tabular-nums text-gray-700 dark:text-gray-300">''),
     Text (peers_text t),
     Raw (''</span></div></li>'')]\<close>

definition TorrentRow :: "templ_runtime \<Rightarrow> Torrent \<Rightarrow> html list" where
  "TorrentRow rt t = row_head t @ row_name t @ row_numbers rt t"

definition TorrentTable :: "templ_runtime \<Rightarrow> Torrent list \<Rightarrow> html list" where
  \<open>TorrentTable rt ts =
    [Raw (''<div id="torrents-table" hx-get="/ui/torrents" hx-trigger="every 1s '' @
        ''[!document.body.classList.contains('bulk-in-flight')]" hx-swap="outerHTML" '' @
        ''class="overflow-hidden rounded-lg border border-gray-200 bg-white '' @
        ''dark:border-gray-700 dark:bg-gray-800">'')] @
    (if ts = [] then
      [Raw (''<div class="px-6 py-12 text-center text-sm text-gray-500 dark:text-gray-400">No '' @
        ''torrents yet. Add one to get started.</div>'')]
     else
      [Raw (''<div class="flex items-center gap-4 border-b border-gray-200 bg-gray-50 px-4 py-2 '' @
        ''text-xs font-medium uppercase tracking-wide text-gray-500 dark:border-gray-700 '' @
        ''dark:bg-gray-900 dark:text-gray-400 md:px-6"><input type="checkbox" id="select-all" '' @
        ''aria-label="Select all torrents" class="checkbox" hx-preserve="true"><div '' @
        ''class="hidden min-w-0 flex-1 md:block">Torrent</div><div class="hidden w-64 '' @
        ''shrink-0 md:block">Progress</div><div class="hidden w-16 shrink-0 text-right '' @
        ''md:block">Peers</div></div><ul class="divide-y divide-gray-200 '' @
        ''dark:divide-gray-700">'')] @
      concat (map (TorrentRow rt) ts) @
      [Raw (''</ul>'')]) @
    [Raw (''</div>'')]\<close>

definition DeleteDialog :: "html list" where
  \<open>DeleteDialog =
    [Raw (''<dialog id="delete-dialog" class="m-auto w-full max-w-md rounded-lg border '' @
        ''border-gray-200 bg-white p-0 text-gray-900 shadow-xl backdrop:bg-black/50 '' @
        ''dark:border-gray-700 dark:bg-gray-800 dark:text-gray-100"><form method="dialog" '' @
        ''class="space-y-4 p-4 sm:p-6"><h2 id="delete-dialog-summary" class="text-base '' @
        ''font-semibold">Delete torrent(s)?</h2><label id="delete-dialog-keep-row" '' @
        ''class="flex items-center gap-2 text-sm"><input id="delete-dialog-keep" '' @
        ''type="checkbox" checked class="h-4 w-4 rounded border-gray-300 text-indigo-600 '' @
        ''focus:ring-indigo-500 dark:border-gray-600"> <span>Keep files</span></label><div '' @
        ''class="flex items-center justify-end gap-2"><button value="cancel" formnovalidate '' @
        ''class="inline-flex items-center justify-center rounded border border-gray-300 '' @
        ''bg-white px-4 py-2 text-sm font-medium text-gray-700 hover:bg-gray-50 '' @
        ''dark:border-gray-600 dark:bg-gray-800 dark:text-gray-200 '' @
        ''dark:hover:bg-gray-700">Cancel</button> <button id="delete-dialog-confirm" '' @
        ''value="confirm" class="inline-flex items-center justify-center rounded bg-red-600 '' @
        ''px-4 py-2 text-sm font-medium text-white hover:bg-red-500 focus:outline-none '' @
        ''focus:ring-2 focus:ring-red-500 focus:ring-offset-2 dark:bg-red-500 '' @
        ''dark:hover:bg-red-400">Delete</button></div></form></dialog>'')]\<close>

section \<open>Layout and pages\<close>

record scripts =
  script_DeleteDialog :: string
  script_Selection :: string
  script_DeleteDetail :: string
  script_AddTorrent :: string

definition Main_layout :: "scripts \<Rightarrow> string \<Rightarrow> html list option \<Rightarrow> html list \<Rightarrow> string list \<Rightarrow> html list" where
  \<open>Main_layout js title toolbar content page_scripts =
    [Raw (''<!doctype html><html lang="en" class="h-full"><head><meta charset="UTF-8"><meta '' @
        ''name="viewport" content="width=device-width, initial-scale=1.0"><title>''),
     Text title,
     Raw (''</title><link rel="icon" type="image/svg+xml" href="/static/favicon.svg"><link '' @
        ''rel="stylesheet" href="/static/app.css"><script '' @
        ''src="/static/htmx.min.js"></script></head><body class="h-full bg-gray-50 '' @
        ''text-gray-900 dark:bg-gray-900 dark:text-gray-100"><header class="border-b '' @
        ''border-gray-200 bg-white dark:border-gray-700 dark:bg-gray-800"><div class="mx-auto '' @
        ''flex h-16 max-w-6xl items-center gap-2.5 px-4 sm:px-6"><div class="flex h-8 w-8 '' @
        ''shrink-0 items-center justify-center rounded-lg bg-indigo-600">'')] @
    IconDownload ''h-4 w-4 text-white'' @
    [Raw (''</div><h1 class="text-sm font-semibold text-gray-900 '' @
        ''dark:text-white">Torrents</h1></div></header>'')] @
    (case toolbar of None \<Rightarrow> [] | Some c \<Rightarrow> c) @
    [Raw (''<main class="mx-auto max-w-6xl px-4 py-6 space-y-6 sm:px-6 sm:py-8 sm:space-y-8">'')] @
    content @
    [Raw (''</main>'')] @
    DeleteDialog @
    [Raw (script_DeleteDialog js)] @
    map Raw page_scripts @
    [Raw (''</body></html>'')]\<close>

definition metadataRow :: "string \<Rightarrow> string \<Rightarrow> bool \<Rightarrow> html list" where
  \<open>metadataRow lbl val monospace =
    [Raw (''<div><dt class="text-xs text-gray-500 dark:text-gray-400">''),
     Text lbl,
     Raw (''</dt>'')] @
    (if monospace then
      [Raw (''<dd class="mt-1 min-w-0 break-all font-mono text-xs">''),
       Text val,
       Raw (''</dd>'')]
     else
      [Raw (''<dd class="mt-1 min-w-0 truncate">''),
       Text val,
       Raw (''</dd>'')]) @
    [Raw (''</div>'')]\<close>

definition wait_button :: string where
  "wait_button =
     ''border-gray-300 bg-white text-gray-700 hover:bg-gray-50 disabled:cursor-wait '' @
     ''disabled:opacity-75 dark:border-gray-600 dark:bg-gray-800 dark:text-gray-200 '' @
     ''dark:hover:bg-gray-700''"

text \<open>The buttons of the detail page: \<open>Resume\<close> for a paused torrent, \<open>Pause\<close> for any other, \<open>Delete\<close>.\<close>

definition detail_buttons :: "Torrent \<Rightarrow> html list" where
  \<open>detail_buttons t =
    (if Paused t then
       ActionButton \<lparr>ab_ID = [], ab_AriaLabel = [], ab_Label = ''Resume'', ab_SrOnlyLabel = False,
         ab_Icon = IconPlay, ab_Disabled = False, ab_Class = wait_button,
         ab_Attrs = [(''hx-post'', ''/ui/torrents/'' @ InfoHash t @ ''/resume''), (''hx-swap'', ''none''),
           (''hx-disabled-elt'', ''this'')]\<rparr>
     else
       ActionButton \<lparr>ab_ID = [], ab_AriaLabel = [], ab_Label = ''Pause'', ab_SrOnlyLabel = False,
         ab_Icon = IconPause, ab_Disabled = False, ab_Class = wait_button,
         ab_Attrs = [(''hx-post'', ''/ui/torrents/'' @ InfoHash t @ ''/pause''), (''hx-swap'', ''none''),
           (''hx-disabled-elt'', ''this'')]\<rparr>) @
    ActionButton \<lparr>ab_ID = ''detail-delete-button'', ab_AriaLabel = [], ab_Label = ''Delete'', ab_SrOnlyLabel = False,
      ab_Icon = IconTrash, ab_Disabled = False,
      ab_Class = ''border-red-300 bg-white text-red-700 hover:bg-red-50 disabled:cursor-wait '' @
        ''disabled:opacity-75 dark:border-red-800 dark:bg-gray-800 dark:text-red-400 '' @
        ''dark:hover:bg-red-900/30'',
      ab_Attrs = [(''data-info-hash'', InfoHash t), (''data-complete'', detailComplete t)]\<rparr>\<close>

definition detail_metadata :: "Torrent \<Rightarrow> html list" where
  "detail_metadata t =
     metadataRow ''Info hash'' (InfoHash t) True @
     metadataRow ''Label'' (labelOrDash (Label t)) False @
     metadataRow ''Target directory'' (dirOrDash (TargetDir t)) False @
     metadataRow ''Status'' (statusLabel t) False @
     metadataRow ''Added'' (format_date (CreatedAt t)) False @
     metadataRow ''Updated'' (format_date (UpdatedAt t)) False @
     metadataRow ''Peers'' (peerCount t) False"

definition detail_files :: "templ_runtime \<Rightarrow> File list option \<Rightarrow> html list" where
  \<open>detail_files rt files =
    (if files \<noteq> None \<and> the files \<noteq> [] then FileTable rt (the files)
     else if files = None then
      [Raw (''<div class="px-6 py-12 text-center text-sm text-gray-500 dark:text-gray-400">File '' @
        ''information unavailable while torrent is paused.</div>'')]
     else
      [Raw (''<div class="px-6 py-12 text-center text-sm text-gray-500 dark:text-gray-400">No '' @
        ''files.</div>'')])\<close>

definition ShowDetail :: "templ_runtime \<Rightarrow> Torrent \<Rightarrow> File list option \<Rightarrow> html list" where
  \<open>ShowDetail rt t files =
    [Raw (''<div id="torrent-detail" hx-get="''),
     Attr (''/ui/torrents/'' @ InfoHash t),
     Raw (''" hx-trigger="every 1s" hx-swap="outerHTML" class="space-y-6"><div class="flex '' @
        ''items-center gap-3"><a href="/" class="text-sm text-gray-500 hover:text-gray-700 '' @
        ''dark:text-gray-400 dark:hover:text-gray-200">&larr; Back</a><div class="flex '' @
        ''min-w-0 items-center gap-2">'')] @
    StatusDot (show_torrentStatusKind t) @
    [Raw (''<h2 class="min-w-0 truncate text-lg font-semibold">''),
     Text (show_displayName t),
     Raw (''</h2></div><div class="ml-auto flex items-center gap-1">'')] @
    detail_buttons t @
    [Raw (''</div></div><div class="rounded-lg border border-gray-200 bg-white '' @
        ''dark:border-gray-700 dark:bg-gray-800"><div class="space-y-4 p-4 sm:p-6"><dl '' @
        ''class="grid grid-cols-1 gap-4 text-sm sm:grid-cols-2">'')] @
    detail_metadata t @
    [Raw (''</dl><div>'')] @
    ProgressBar rt (BytesCompleted t) (Length t) @
    [Raw (''</div></div></div><div class="rounded-lg border border-gray-200 bg-white '' @
        ''dark:border-gray-700 dark:bg-gray-800">'')] @
    detail_files rt files @
    [Raw (''</div></div>'')]\<close>

definition Show :: "scripts \<Rightarrow> templ_runtime \<Rightarrow> Torrent \<Rightarrow> File list option \<Rightarrow> html list" where
  "Show js rt t files = Main_layout js (showTitle t) None (ShowDetail rt t files) [script_DeleteDetail js]"

record NewViewModel =
  nv_Source :: string
  nv_Magnet :: string
  nv_Label :: string
  nv_TargetDir :: string
  nv_Error :: string

text \<open>The form of the page that adds a torrent: the source buttons, then the inputs.\<close>

definition new_source :: "NewViewModel \<Rightarrow> html list" where
  \<open>new_source m =
    [Raw (''<div class="rounded-lg border border-gray-200 bg-white dark:border-gray-700 '' @
        ''dark:bg-gray-800"><form id="add-torrent-form" method="POST" action="/torrents" '' @
        ''enctype="multipart/form-data" data-source="''),
     Attr (sourceOrDefault (nv_Source m)),
     Raw (''" class="space-y-4 p-4 sm:p-6">'')] @
    (if nv_Error m \<noteq> [] then
      [Raw (''<div class="rounded border border-red-300 bg-red-50 px-3 py-2 text-sm text-red-700 '' @
        ''dark:border-red-800 dark:bg-red-900/30 dark:text-red-200">''),
       Text (nv_Error m),
       Raw (''</div>'')]
     else []) @
    [Raw (''<fieldset class="space-y-2"><legend class="block text-sm '' @
        ''font-medium">Source</legend><div class="flex flex-wrap gap-4 text-sm"><label '' @
        ''class="inline-flex items-center gap-2"><input type="radio" name="source" '' @
        ''value="magnet"'')] @
    (if sourceOrDefault (nv_Source m) = ''magnet'' then [Raw ('' checked'')] else []) @
    [Raw ('' class="h-4 w-4 text-indigo-600 focus:ring-indigo-500"> <span>Magnet '' @
        ''URI</span></label> <label class="inline-flex items-center gap-2"><input '' @
        ''type="radio" name="source" value="file"'')] @
    (if sourceOrDefault (nv_Source m) = ''file'' then [Raw ('' checked'')] else []) @
    [Raw ('' class="h-4 w-4 text-indigo-600 focus:ring-indigo-500"> <span>Upload '' @
        ''file</span></label></div></fieldset><div data-source-pane="magnet" class="space-y-2"'')] @
    (if sourceOrDefault (nv_Source m) \<noteq> ''magnet'' then [Raw ('' hidden'')] else [])\<close>

definition new_inputs :: "NewViewModel \<Rightarrow> html list" where
  \<open>new_inputs m =
    [Raw (''><label for="magnet" class="block text-sm font-medium">Magnet URI</label> <input '' @
        ''id="magnet" name="magnet" type="text" value="''),
     Attr (nv_Magnet m),
     Raw (''" placeholder="magnet:?xt=urn:btih:..." class="block w-full rounded border '' @
        ''border-gray-300 bg-white px-3 py-2 text-sm focus:border-indigo-500 '' @
        ''focus:outline-none focus:ring-1 focus:ring-indigo-500 dark:border-gray-600 '' @
        ''dark:bg-gray-900 dark:focus:border-indigo-400 '' @
        ''dark:focus:ring-indigo-400"></div><div data-source-pane="file" class="space-y-2"'')] @
    (if sourceOrDefault (nv_Source m) \<noteq> ''file'' then [Raw ('' hidden'')] else []) @
    [Raw (''><span class="block text-sm font-medium">Torrent file</span> <label for="file" '' @
        ''id="file-dropzone" data-state="idle" class="flex cursor-pointer flex-col '' @
        ''items-center justify-center gap-2 rounded-lg border-2 border-dashed border-gray-300 '' @
        ''bg-gray-50 px-6 py-10 text-center text-sm text-gray-600 transition-colors '' @
        ''hover:border-indigo-400 hover:bg-indigo-50 data-[state=dragover]:border-indigo-500 '' @
        ''data-[state=dragover]:bg-indigo-50 data-[state=selected]:border-indigo-400 '' @
        ''data-[state=selected]:bg-indigo-50/50 dark:border-gray-600 dark:bg-gray-900 '' @
        ''dark:text-gray-300 dark:hover:border-indigo-400 dark:hover:bg-gray-800 '' @
        ''dark:data-[state=dragover]:border-indigo-400 dark:data-[state=dragover]:bg-gray-800 '' @
        ''dark:data-[state=selected]:bg-gray-800">'')] @
    IconUpload ''h-8 w-8 text-gray-400 dark:text-gray-500'' @
    [Raw (''<span id="file-dropzone-message" class="font-medium">Drop a .torrent file here, or '' @
        ''<span class="text-indigo-600 underline dark:text-indigo-400">browse</span></span> '' @
        ''<span class="text-xs text-gray-500 dark:text-gray-400">.torrent files '' @
        ''only</span></label> <input id="file" name="file" type="file" '' @
        ''accept=".torrent,application/x-bittorrent" class="sr-only"></div><div class="grid '' @
        ''grid-cols-1 gap-4 sm:grid-cols-2"><div class="space-y-2"><label for="label" '' @
        ''class="block text-sm font-medium">Label <span class="text-xs font-normal '' @
        ''text-gray-500 dark:text-gray-400">(optional)</span></label> <input id="label" '' @
        ''name="label" type="text" value="''),
     Attr (nv_Label m),
     Raw (''" class="block w-full rounded border border-gray-300 bg-white px-3 py-2 text-sm '' @
        ''focus:border-indigo-500 focus:outline-none focus:ring-1 focus:ring-indigo-500 '' @
        ''dark:border-gray-600 dark:bg-gray-900 dark:focus:border-indigo-400 '' @
        ''dark:focus:ring-indigo-400"></div><div class="space-y-2"><label for="target_dir" '' @
        ''class="block text-sm font-medium">Target directory <span class="text-xs font-normal '' @
        ''text-gray-500 dark:text-gray-400">(optional)</span></label> <input id="target_dir" '' @
        ''name="target_dir" type="text" value="''),
     Attr (nv_TargetDir m),
     Raw (''" class="block w-full rounded border border-gray-300 bg-white px-3 py-2 text-sm '' @
        ''focus:border-indigo-500 focus:outline-none focus:ring-1 focus:ring-indigo-500 '' @
        ''dark:border-gray-600 dark:bg-gray-900 dark:focus:border-indigo-400 '' @
        ''dark:focus:ring-indigo-400"></div></div><div class="flex items-center justify-end '' @
        ''gap-2"><a href="/" class="inline-flex items-center justify-center rounded border '' @
        ''border-gray-300 bg-white px-4 py-2 text-sm font-medium text-gray-700 '' @
        ''hover:bg-gray-50 dark:border-gray-600 dark:bg-gray-800 dark:text-gray-200 '' @
        ''dark:hover:bg-gray-700">Cancel</a> <button type="submit" class="group inline-flex '' @
        ''items-center justify-center gap-2 rounded bg-indigo-600 px-4 py-2 text-sm '' @
        ''font-medium text-white hover:bg-indigo-500 focus:outline-none focus:ring-2 '' @
        ''focus:ring-indigo-500 focus:ring-offset-2 disabled:cursor-wait disabled:opacity-75 '' @
        ''dark:bg-indigo-500 dark:hover:bg-indigo-400"><span class="hidden '' @
        ''group-disabled:inline-flex">'')] @
    IconSpinner @
    [Raw (''</span> <span>Add</span></button></div></form></div>'')]\<close>

definition newContent :: "NewViewModel \<Rightarrow> html list" where
  "newContent m = new_source m @ new_inputs m"

definition New_page :: "scripts \<Rightarrow> NewViewModel \<Rightarrow> html list" where
  "New_page js m = Main_layout js ''Add torrent'' None (newContent m) [script_AddTorrent js]"

definition List_page :: "scripts \<Rightarrow> templ_runtime \<Rightarrow> Torrent list \<Rightarrow> html list" where
  "List_page js rt ts =
     Main_layout js ''Torrents'' (Some TorrentToolbar) (TorrentTable rt ts) [script_Selection js]"

section \<open>Numbers\<close>

lemma div_1024:
  fixes v :: int
  shows "p \<le> v div 1024 \<Longrightarrow> 1024 * p \<le> v" "v div 1024 < p \<Longrightarrow> v < 1024 * p"
  using div_mult_mod_eq [of v 1024] pos_mod_bound [of 1024 v] pos_mod_sign [of 1024 v] by linarith+

text \<open>The loop divides by 1024 until less than 1024 is left, and \<open>exp\<close> counts the divisions.\<close>

lemma human_loop_result:
  assumes "v > 0" "dv > 0" "human_loop v dv ex = (dv', ex')"
  shows "\<exists>k. dv' = dv * 1024 ^ k \<and> ex' = ex + k \<and> 1024 ^ k \<le> v \<and> v < 1024 ^ (k + 1)"
  using assms
proof (induction v dv ex rule: human_loop.induct)
  case (1 v dv ex)
  show ?case
  proof (cases "v \<ge> 1024")
    case True
    then have v: "v div 1024 > 0" by (simp add: pos_imp_zdiv_pos_iff)
    have "human_loop (v div 1024) (dv * 1024) (ex + 1) = (dv', ex')"
      using 1(4) True by (subst (asm) human_loop.simps) simp
    then obtain k where k: "dv' = dv * 1024 * 1024 ^ k" "ex' = ex + 1 + k" "1024 ^ k \<le> v div 1024"
        "v div 1024 < 1024 ^ (k + 1)"
      using 1(1) [OF True v] "1.prems"(2) by auto
    have "1024 ^ Suc k \<le> v" "v < 1024 ^ (Suc k + 1)"
      using div_1024(1) [OF k(3)] div_1024(2) [OF k(4)] by simp_all
    with k(1,2) show ?thesis by (intro exI [of _ "Suc k"]) simp
  next
    case False
    then have "dv' = dv" "ex' = ex" using "1.prems"(3) by (subst (asm) human_loop.simps, simp)+
    with False "1.prems"(1) show ?thesis by (intro exI [of _ 0]) simp
  qed
qed

lemma human_loop_int64:
  assumes "1024 \<le> n" "n < 2 ^ 63" "human_loop (n div 1024) 1024 0 = (dv, ex)"
  shows "ex < 6 \<and> dv = 1024 ^ (ex + 1) \<and> dv \<le> n \<and> n < dv * 1024"
proof -
  have "n div 1024 > 0" using assms(1) by (simp add: pos_imp_zdiv_pos_iff)
  from human_loop_result [OF this _ assms(3)]
  have k: "dv = 1024 * 1024 ^ ex" "1024 ^ ex \<le> n div 1024" "n div 1024 < 1024 ^ (ex + 1)" by auto
  have "ex < 6"
  proof (rule ccontr)
    assume "\<not> ex < 6"
    then have "(1024 :: int) ^ 6 \<le> 1024 ^ ex" by (intro power_increasing) auto
    then have "1024 ^ 6 \<le> n div 1024" using k(2) by linarith
    then show False using assms(2) by simp
  qed
  moreover have "1024 * 1024 ^ ex \<le> n" "n < 1024 * 1024 ^ ex * 1024" 
    using div_1024(1) [OF k(2)] div_1024(2) [OF k(3)] by simp_all
  ultimately show ?thesis using k(1) by simp
qed

section \<open>Escaping\<close>

text \<open>The angle brackets of a text: they open and close tags.\<close>

definition markup :: "string \<Rightarrow> string" where
  "markup s = filter (\<lambda>c. c = CHR ''<'' \<or> c = CHR ''>'') s"

text \<open>What templ documents of its runtime: escaped text and attribute values hold no angle bracket.\<close>

definition escapes :: "templ_runtime \<Rightarrow> bool" where
  "escapes rt \<longleftrightarrow>
     (\<forall>s. markup (EscapeString rt s) = [] \<and> markup (ResolveAttributeValue rt s) = []) \<and>
     (\<forall>kvs. markup (RenderAttributes rt kvs) = [])"

text \<open>The literals of a component, with a hole for each value.\<close>

definition skeleton :: "html list \<Rightarrow> string option list" where
  "skeleton c = map (\<lambda>h. case h of Raw s \<Rightarrow> Some s | _ \<Rightarrow> None) c"

lemma markup_append [simp]: "markup (a @ b) = markup a @ markup b"
  by (simp add: markup_def)

lemma markup_render:
  assumes "escapes rt"
  shows "markup (render_html rt c) = concat (map (\<lambda>x. case x of None \<Rightarrow> [] | Some s \<Rightarrow> markup s) (skeleton c))"
proof (induction c)
  case Nil
  show ?case by (simp add: render_html_def skeleton_def markup_def)
next
  case (Cons h c)
  have "markup (html_text rt h) = (case h of Raw s \<Rightarrow> markup s | _ \<Rightarrow> [])"
    using assms by (cases h) (simp_all add: escapes_def)
  with Cons show ?case by (cases h) (simp_all add: render_html_def skeleton_def)
qed

lemma skeleton_simps:
  "skeleton [] = []" "skeleton (a @ b) = skeleton a @ skeleton b"
  "skeleton (Raw s # c) = Some s # skeleton c" "skeleton (Text x # c) = None # skeleton c"
  "skeleton (Attr x # c) = None # skeleton c" "skeleton (Class x # c) = None # skeleton c"
  "skeleton (Style x # c) = None # skeleton c" "skeleton (Attributes kvs # c) = None # skeleton c"
  "skeleton (if P then u else v) = (if P then skeleton u else skeleton v)"
  by (simp_all add: skeleton_def)

lemma skeleton_markup:
  "escapes rt \<Longrightarrow> skeleton c = skeleton d \<Longrightarrow> markup (render_html rt c) = markup (render_html rt d)"
  by (simp add: markup_render)

lemma skeleton_StatusDot: "skeleton (StatusDot k) = skeleton (StatusDot k')"
  unfolding StatusDot_def skeleton_simps ..

lemma skeleton_ProgressBar: "(len > 0) = (len' > 0) \<Longrightarrow> skeleton (ProgressBar rt b len) = skeleton (ProgressBar rt' b' len')"
  unfolding ProgressBar_def skeleton_simps by (simp only:)

lemma skeleton_TorrentRow:
  assumes "(Label t = []) = (Label t' = [])" "(Length t > 0) = (Length t' > 0)"
  shows "skeleton (TorrentRow rt t) = skeleton (TorrentRow rt t')"
  unfolding TorrentRow_def row_head_def row_name_def row_numbers_def skeleton_simps
  by (simp only: assms skeleton_StatusDot [of "torrentStatusKind t" "torrentStatusKind t'"]
      skeleton_ProgressBar [OF assms(2), of rt "BytesCompleted t" rt "BytesCompleted t'"])

lemma skeleton_newContent:
  assumes "sourceOrDefault (nv_Source m) = sourceOrDefault (nv_Source m')" "(nv_Error m = []) = (nv_Error m' = [])"
  shows "skeleton (newContent m) = skeleton (newContent m')"
  unfolding newContent_def new_source_def new_inputs_def skeleton_simps by (simp only: assms)

end
