(* ===== verification/Ui.thy ===== *)
theory Ui
  imports Api View
begin

text \<open>
  The browser interface, \<open>internal/server/ui/ui_torrent.go\<close> and \<open>ui.go\<close>: its handlers, the form that
  adds a torrent, and the routes. A handler answers with a page, written by the components of theory
  \<open>View\<close>; \<open>render\<close> panics when the component fails, which it does only when the request's context is
  done. That is looked at once, when rendering starts.
\<close>

record 'w UiService =
  us_AddMagnet :: "ctx \<Rightarrow> string \<Rightarrow> AddOptions \<Rightarrow> 'w \<Rightarrow> Torrent res \<times> 'w"
  us_AddFile :: "ctx \<Rightarrow> string \<Rightarrow> AddOptions \<Rightarrow> 'w \<Rightarrow> Torrent res \<times> 'w"
  us_Get :: "ctx \<Rightarrow> string \<Rightarrow> 'w \<Rightarrow> Torrent res \<times> 'w"
  us_Files :: "ctx \<Rightarrow> string \<Rightarrow> 'w \<Rightarrow> File list option res \<times> 'w"
  us_List :: "ctx \<Rightarrow> 'w \<Rightarrow> Torrent list res \<times> 'w"
  us_Remove :: "ctx \<Rightarrow> string \<Rightarrow> bool \<Rightarrow> 'w \<Rightarrow> unit res \<times> 'w"
  us_Pause :: "ctx \<Rightarrow> string \<Rightarrow> 'w \<Rightarrow> unit res \<times> 'w"
  us_Resume :: "ctx \<Rightarrow> string \<Rightarrow> 'w \<Rightarrow> unit res \<times> 'w"

record 'w TorrentHandler =
  th_torrents :: "'w UiService"
  th_clock :: "'w \<Rightarrow> nat"
  th_templ :: templ_runtime
  th_scripts :: scripts

section \<open>Rendering\<close>

definition render :: "'w TorrentHandler \<Rightarrow> Request \<Rightarrow> int \<Rightarrow> html list \<Rightarrow> Response \<Rightarrow> 'w \<Rightarrow> unit res \<times> Response \<times> 'w" where
  "render h r status view resp w =
     (let resp = WriteHeader status (set_header ''Content-Type'' ''text/html; charset=utf-8'' resp) in
      case ctx_Err (req_ctx r) (th_clock h w) of
        Some err \<Rightarrow> (Panic (error_msg err), resp, w)
      | None \<Rightarrow> (Ok (), write_body (render_html (th_templ h) view) resp, w))"

text \<open>The shape of the handlers: one call of the service, then an answer for each outcome.\<close>

definition after ::
  "'a res \<times> 'w \<Rightarrow> ('a \<Rightarrow> 'w \<Rightarrow> unit res \<times> Response \<times> 'w) \<Rightarrow> (go_error \<Rightarrow> 'w \<Rightarrow> unit res \<times> Response \<times> 'w) \<Rightarrow>
   Response \<Rightarrow> unit res \<times> Response \<times> 'w" where
  "after m ok err resp =
     (case m of
        (Ok a, w) \<Rightarrow> ok a w
      | (Err e, w) \<Rightarrow> err e w
      | (Panic p, w) \<Rightarrow> (Panic p, resp, w)
      | (Hang, w) \<Rightarrow> (Hang, resp, w))"

lemma after_simps [simp]:
  "after (Ok a, w) ok err resp = ok a w" "after (Err e, w) ok err resp = err e w"
  "after (Panic p, w) ok err resp = (Panic p, resp, w)" "after (Hang, w) ok err resp = (Hang, resp, w)"
  by (simp_all add: after_def)

abbreviation answer_error :: "string \<Rightarrow> int \<Rightarrow> Response \<Rightarrow> 'w \<Rightarrow> unit res \<times> Response \<times> 'w" where
  "answer_error msg status resp w \<equiv> (Ok (), http_Error msg status resp, w)"

section \<open>Pages\<close>

definition ui_List :: "'w TorrentHandler \<Rightarrow> 'w handler" where
  "ui_List h r resp w =
     after (us_List (th_torrents h) (req_ctx r) w)
       (\<lambda>ts w. render h r StatusOK (List_page (th_scripts h) (th_templ h) ts) resp w)
       (\<lambda>err w. answer_error ''failed to list torrents'' StatusInternalServerError resp w) resp"

text \<open>\<open>files, _ := h.torrents.Files(...)\<close>: an error leaves the slice nil.\<close>

definition with_files ::
  "'w TorrentHandler \<Rightarrow> Request \<Rightarrow> string \<Rightarrow> (File list option \<Rightarrow> 'w \<Rightarrow> unit res \<times> Response \<times> 'w) \<Rightarrow>
   Response \<Rightarrow> 'w \<Rightarrow> unit res \<times> Response \<times> 'w" where
  "with_files h r hash k resp w = after (us_Files (th_torrents h) (req_ctx r) hash w) k (\<lambda>err w. k None w) resp"

definition ui_Show :: "'w TorrentHandler \<Rightarrow> string \<Rightarrow> 'w handler" where
  "ui_Show h hash r resp w =
     after (us_Get (th_torrents h) (req_ctx r) hash w)
       (\<lambda>t w. with_files h r hash
          (\<lambda>files w. render h r StatusOK (Show (th_scripts h) (th_templ h) t files) resp w) resp w)
       (\<lambda>err w.
          if errors_is err SvcTorrentNotFound then answer_error ''torrent not found'' StatusNotFound resp w
          else answer_error ''failed to load torrent'' StatusInternalServerError resp w) resp"

definition ui_Detail :: "'w TorrentHandler \<Rightarrow> string \<Rightarrow> 'w handler" where
  "ui_Detail h hash r resp w =
     after (us_Get (th_torrents h) (req_ctx r) hash w)
       (\<lambda>t w. with_files h r hash
          (\<lambda>files w. render h r StatusOK (ShowDetail (th_templ h) t files) resp w) resp w)
       (\<lambda>err w. answer_error ''failed to load torrent'' StatusInternalServerError resp w) resp"

definition zero_model :: NewViewModel where
  "zero_model = \<lparr>nv_Source = [], nv_Magnet = [], nv_Label = [], nv_TargetDir = [], nv_Error = []\<rparr>"

definition ui_New :: "'w TorrentHandler \<Rightarrow> 'w handler" where
  "ui_New h r resp w = render h r StatusOK (New_page (th_scripts h) zero_model) resp w"

definition ui_Table :: "'w TorrentHandler \<Rightarrow> 'w handler" where
  "ui_Table h r resp w =
     after (us_List (th_torrents h) (req_ctx r) w)
       (\<lambda>ts w. render h r StatusOK (TorrentTable (th_templ h) ts) resp w)
       (\<lambda>err w. answer_error ''failed to list torrents'' StatusInternalServerError resp w) resp"

section \<open>Adding\<close>

record addTorrentForm =
  af_Source :: string
  af_Magnet :: string
  af_Label :: string
  af_TargetDir :: string

definition zero_form :: addTorrentForm where
  "zero_form = \<lparr>af_Source = [], af_Magnet = [], af_Label = [], af_TargetDir = []\<rparr>"

definition renderNewError :: "'w TorrentHandler \<Rightarrow> Request \<Rightarrow> addTorrentForm \<Rightarrow> string \<Rightarrow> Response \<Rightarrow> 'w \<Rightarrow>
   unit res \<times> Response \<times> 'w" where
  "renderNewError h r form message resp w =
     render h r StatusBadRequest
       (New_page (th_scripts h)
          \<lparr>nv_Source = af_Source form, nv_Magnet = af_Magnet form, nv_Label = af_Label form,
           nv_TargetDir = af_TargetDir form, nv_Error = message\<rparr>) resp w"

definition ui_addMagnet :: "'w TorrentHandler \<Rightarrow> Request \<Rightarrow> addTorrentForm \<Rightarrow> 'w \<Rightarrow> Torrent res \<times> 'w" where
  "ui_addMagnet h r form w =
     (if af_Magnet form = [] then (Err (Sentinel UiMissingMagnet), w)
      else us_AddMagnet (th_torrents h) (req_ctx r) (af_Magnet form)
             \<lparr>opt_Label = af_Label form, opt_TargetDir = af_TargetDir form\<rparr> w)"

definition ui_addFile :: "'w TorrentHandler \<Rightarrow> Request \<Rightarrow> Form \<Rightarrow> addTorrentForm \<Rightarrow> 'w \<Rightarrow> Torrent res \<times> 'w" where
  "ui_addFile h r mform form w =
     (case FormFile mform ''file'' of
        None \<Rightarrow> (Err (Sentinel UiMissingFile), w)
      | Some file \<Rightarrow>
        us_AddFile (th_torrents h) (req_ctx r) file
          \<lparr>opt_Label = af_Label form, opt_TargetDir = af_TargetDir form\<rparr> w)"

definition read_form :: "Request \<Rightarrow> Form \<Rightarrow> addTorrentForm" where
  "read_form r mform =
     (let form = \<lparr>af_Source = FormValue r mform ''source'', af_Magnet = FormValue r mform ''magnet'',
                  af_Label = FormValue r mform ''label'', af_TargetDir = FormValue r mform ''target_dir''\<rparr>
      in if af_Source form = [] then form\<lparr>af_Source := ''magnet''\<rparr> else form)"

definition add_message :: "go_error \<Rightarrow> string" where
  "add_message err =
     (if errors_is err UiMissingMagnet then ''magnet URI is required''
      else if errors_is err UiMissingFile then ''a torrent file is required''
      else if errors_is err SvcInvalidTorrentFile then ''invalid torrent file''
      else if errors_is err SvcTorrentAlreadyExists then ''torrent already exists''
      else ''failed to add torrent: '' @ error_msg err)"

definition ui_Add :: "'w TorrentHandler \<Rightarrow> 'w handler" where
  "ui_Add h r resp w =
     (case req_multipart r of
        Inl err \<Rightarrow> renderNewError h r zero_form (''failed to parse form: '' @ error_msg err) resp w
      | Inr mform \<Rightarrow>
        (let form = read_form r mform in
         after (if af_Source form = ''file'' then ui_addFile h r mform form w else ui_addMagnet h r form w)
           (\<lambda>_ w. (Ok (), http_Redirect ''/'' StatusSeeOther resp, w))
           (\<lambda>err w. renderNewError h r form (add_message err) resp w) resp))"

section \<open>Actions on a torrent\<close>

definition toggle ::
  "'w TorrentHandler \<Rightarrow> (ctx \<Rightarrow> string \<Rightarrow> 'w \<Rightarrow> unit res \<times> 'w) \<Rightarrow> string \<Rightarrow> 'w handler" where
  "toggle h action hash r resp w =
     after (action (req_ctx r) hash w)
       (\<lambda>_ w. after (us_Get (th_torrents h) (req_ctx r) hash w)
          (\<lambda>t w. render h r StatusOK (TorrentRow (th_templ h) t) resp w)
          (\<lambda>err w. answer_error ''failed to load torrent'' StatusInternalServerError resp w) resp)
       (\<lambda>err w. answer_error ''failed to toggle torrent'' StatusInternalServerError resp w) resp"

definition ui_Pause :: "'w TorrentHandler \<Rightarrow> string \<Rightarrow> 'w handler" where
  "ui_Pause h hash r resp w = toggle h (us_Pause (th_torrents h)) hash r resp w"

definition ui_Resume :: "'w TorrentHandler \<Rightarrow> string \<Rightarrow> 'w handler" where
  "ui_Resume h hash r resp w = toggle h (us_Resume (th_torrents h)) hash r resp w"

definition ui_Delete :: "'w TorrentHandler \<Rightarrow> string \<Rightarrow> 'w handler" where
  "ui_Delete h hash r resp w =
     (let deleteFiles = query_Get r ''files'' = ''true'' in
      after (us_Remove (th_torrents h) (req_ctx r) hash deleteFiles w)
        (\<lambda>_ w. (Ok (), WriteHeader StatusOK resp, w))
        (\<lambda>err w. answer_error ''failed to delete torrent'' StatusInternalServerError resp w) resp)"

section \<open>Routes\<close>

definition ui_Register :: "'w TorrentHandler \<Rightarrow> (pattern \<times> ((string \<times> string) list \<Rightarrow> 'w handler)) list" where
  "ui_Register h =
     [(pat ''GET'' [], \<lambda>_. ui_List h),
      (pat ''GET'' [Lit ''torrents'', Lit ''new''], \<lambda>_. ui_New h),
      (pat ''GET'' [Lit ''torrents'', Wild ''hash''], path_value (ui_Show h)),
      (pat ''POST'' [Lit ''torrents''], \<lambda>_. ui_Add h),
      (pat ''GET'' [Lit ''ui'', Lit ''torrents''], \<lambda>_. ui_Table h),
      (pat ''GET'' [Lit ''ui'', Lit ''torrents'', Wild ''hash''], path_value (ui_Detail h)),
      (pat ''POST'' [Lit ''ui'', Lit ''torrents'', Wild ''hash'', Lit ''pause''], path_value (ui_Pause h)),
      (pat ''POST'' [Lit ''ui'', Lit ''torrents'', Wild ''hash'', Lit ''resume''], path_value (ui_Resume h)),
      (pat ''DELETE'' [Lit ''ui'', Lit ''torrents'', Wild ''hash''], path_value (ui_Delete h))]"

section \<open>What the handlers do to the world\<close>

lemma render_world: "snd (snd (render h r s v resp w)) = w"
  by (simp add: render_def Let_def split: option.split)

text \<open>The form asks for what the request asked for, and a failed add never changes the page's status
  to success.\<close>

lemma ui_Add_status:
  assumes "ui_Add h r fresh_response w = (Ok (), resp, w')"
  shows "sent_status resp = StatusSeeOther \<or> sent_status resp = StatusBadRequest"
proof -
  have R: "render h r StatusBadRequest v fresh_response w = (Ok (), resp, w') \<Longrightarrow> sent_status resp = StatusBadRequest"
    for v w by (auto simp: render_def Let_def sent_status_def split: option.splits)
  show ?thesis
  proof (cases "req_multipart r")
    case (Inl e)
    then show ?thesis using assms R by (auto simp: ui_Add_def renderNewError_def)
  next
    case (Inr m)
    let ?f = "read_form r m"
    let ?m = "if af_Source ?f = ''file'' then ui_addFile h r m ?f w else ui_addMagnet h r ?f w"
    have a: "after ?m (\<lambda>_ w. (Ok (), http_Redirect ''/'' StatusSeeOther fresh_response, w))
        (\<lambda>err w. renderNewError h r ?f (add_message err) fresh_response w) fresh_response = (Ok (), resp, w')"
      using assms Inr by (simp only: ui_Add_def sum.case Let_def)
    obtain x v where m: "?m = (x, v)" by force
    show ?thesis using a unfolding m renderNewError_def
      by (cases x) (auto simp: http_Redirect_def sent_status_def dest: R)
  qed
qed

end
