(* ===== verification/Config.thy ===== *)
theory Config
  imports Paths
begin

text \<open>
  The server's configuration, \<open>internal/server/config.go\<close>: its types, defaults, loading and validation,
  and the log level \<open>newLogger\<close> of \<open>server.go\<close> reads off it. \<open>decode_file\<close> stands for \<open>toml.DecodeFile\<close>, a
  third-party package: it fails or updates the value it is given, key by key.
\<close>

record HTTPConfig =
  Address :: string

record DataConfig =
  Directory :: string

record LoggingConfig =
  Level :: string

record Config =
  HTTP :: HTTPConfig
  Data :: DataConfig
  LoggingOf :: LoggingConfig

section \<open>Defaults\<close>

text \<open>\<open>home\<close> is the outcome of \<open>os.UserHomeDir\<close>.\<close>

definition defaultDataDir :: "go_error + string \<Rightarrow> string" where
  "defaultDataDir home =
     (case home of Inl err \<Rightarrow> ''data'' | Inr d \<Rightarrow> path_Join [d, ''.local'', ''share'', ''torrents''])"

definition DefaultConfig :: "go_error + string \<Rightarrow> Config" where
  "DefaultConfig home =
     \<lparr>HTTP = \<lparr>Address = '':7373''\<rparr>, Data = \<lparr>Directory = defaultDataDir home\<rparr>, LoggingOf = \<lparr>Level = ''info''\<rparr>\<rparr>"

definition zero_config :: Config where
  "zero_config = \<lparr>HTTP = \<lparr>Address = []\<rparr>, Data = \<lparr>Directory = []\<rparr>, LoggingOf = \<lparr>Level = []\<rparr>\<rparr>"

section \<open>Loading\<close>

definition LoadConfig :: "(string \<Rightarrow> Config \<Rightarrow> go_error + Config) \<Rightarrow> string \<Rightarrow> go_error + Config" where
  "LoadConfig decode_file path =
     (case decode_file path zero_config of
        Inl err \<Rightarrow> Inl (Errorf ''failed to decode config file: '' err [])
      | Inr config \<Rightarrow> Inr config)"

section \<open>Validation\<close>

definition http_validate :: "HTTPConfig \<Rightarrow> go_error option" where
  "http_validate c = (if Address c = [] then Some (ErrorString ''http address is required'') else None)"

definition data_validate :: "DataConfig \<Rightarrow> go_error option" where
  "data_validate c = (if Directory c = [] then Some (ErrorString ''data directory is required'') else None)"

text \<open>\<open>strings.ToLower\<close> on the bytes of a text: of all the letters beyond ASCII, two have a lower case in
  ASCII, the capital I with a dot (U+0130) and the Kelvin sign (U+212A). The other ones have theirs beyond
  ASCII too and are left as they are, which makes no difference to a comparison with an ASCII word.\<close>

fun strings_ToLower :: "string \<Rightarrow> string" where
  "strings_ToLower [] = []"
| "strings_ToLower (c # s) =
     (if c = CHR 0xC4 \<and> take 1 s = [CHR 0xB0] then CHR ''i'' # strings_ToLower (drop 1 s)
      else if c = CHR 0xE2 \<and> take 2 s = [CHR 0x84, CHR 0xAA] then CHR ''k'' # strings_ToLower (drop 2 s)
      else ascii_lower c # strings_ToLower s)"

definition logging_validate :: "LoggingConfig \<Rightarrow> go_error option" where
  "logging_validate c =
     (if strings_ToLower (Level c) \<in> {''debug'', ''info'', ''warn'', ''error''} then None
      else Some (ErrorString (''invalid log level: '' @ go_quote (Level c))))"

definition config_Validate :: "Config \<Rightarrow> go_error option" where
  "config_Validate c = errors_Join [http_validate (HTTP c), data_validate (Data c), logging_validate (LoggingOf c)]"

section \<open>The log level\<close>

datatype level = LevelDebug | LevelInfo | LevelWarn | LevelError

definition newLogger :: "LoggingConfig \<Rightarrow> level" where
  "newLogger c =
     (let l = strings_ToLower (Level c) in
      if l = ''debug'' then LevelDebug else if l = ''warn'' then LevelWarn
      else if l = ''error'' then LevelError else LevelInfo)"

section \<open>Facts\<close>

lemma config_Validate_None:
  "config_Validate c = None \<longleftrightarrow>
     Address (HTTP c) \<noteq> [] \<and> Directory (Data c) \<noteq> [] \<and>
     strings_ToLower (Level (LoggingOf c)) \<in> {''debug'', ''info'', ''warn'', ''error''}"
  unfolding config_Validate_def errors_Join_None
  by (auto simp: http_validate_def data_validate_def logging_validate_def)

lemma Clean_not_Nil: "Clean s \<noteq> []"
proof -
  have "c \<noteq> []" if "c \<in> set (clean_comps s)" for c
    using good_stack_comp [OF clean_comps_good, of c s] that by (auto simp: plain_component_def)
  moreover have "join_with [slash] cs \<noteq> []" if "cs \<noteq> []" "\<And>c. c \<in> set cs \<Longrightarrow> c \<noteq> []" for cs
    using that by (induction "[slash]" cs rule: join_with.induct) auto
  ultimately show ?thesis by (auto simp: Clean_def render_path_def)
qed

lemma path_Join_not_Nil: "e \<in> set es \<Longrightarrow> e \<noteq> [] \<Longrightarrow> path_Join es \<noteq> []"
proof -
  assume "e \<in> set es" "e \<noteq> []"
  then have "dropWhile (\<lambda>e. e = []) es \<noteq> []" by (auto simp: dropWhile_eq_Nil_conv)
  then show "path_Join es \<noteq> []"
    using Clean_not_Nil by (auto simp: path_Join_def split: list.split)
qed

text \<open>The defaults pass validation.\<close>

lemma DefaultConfig_valid: "config_Validate (DefaultConfig home) = None"
proof -
  have "path_Join [d, ''.local'', ''share'', ''torrents''] \<noteq> []" for d
    by (rule path_Join_not_Nil [of "''share''"]) simp_all
  then show ?thesis
    unfolding config_Validate_None
    by (cases home) (simp_all add: DefaultConfig_def defaultDataDir_def ascii_lower_def)
qed

end
