(* ===== verification/Server.thy ===== *)
theory Server
  imports Ui Config
begin

text \<open>
  Starting and stopping: \<open>Run\<close> of \<open>internal/server/server.go\<close>, \<open>Open\<close> and the migration of
  \<open>internal/server/database/database.go\<close>, \<open>NewClient\<close> of \<open>internal/server/torrent/client.go\<close>, and the handler
  \<open>Run\<close> serves. What these functions call outside the repository (the operating system, the SQL driver,
  the migration library, the torrent library, the HTTP listener) is a record of operations, \<open>server_env\<close>.
  A deferred call runs on every return and on a panic.
\<close>

section \<open>The world outside\<close>

record 'w server_env =
  os_MkdirAll :: "string \<Rightarrow> 'w \<Rightarrow> unit res \<times> 'w"
  sql_Open :: "string \<Rightarrow> 'w \<Rightarrow> unit res \<times> 'w"
  db_Ping :: "ctx \<Rightarrow> 'w \<Rightarrow> unit res \<times> 'w"
  db_Close :: "'w \<Rightarrow> 'w"
  iofs_New :: "'w \<Rightarrow> unit res \<times> 'w"
  migrate_WithInstance :: "'w \<Rightarrow> unit res \<times> 'w"
  migrate_New :: "'w \<Rightarrow> unit res \<times> 'w"
  migrate_Up :: "'w \<Rightarrow> unit res \<times> 'w"
  pieces_Load :: "ctx \<Rightarrow> 'w \<Rightarrow> unit res \<times> 'w"
  anacrolix_NewClient :: "string \<Rightarrow> 'w \<Rightarrow> unit res \<times> 'w"
  anacrolix_Close :: "'w \<Rightarrow> 'w"
  torrents_Restore :: "ctx \<Rightarrow> 'w \<Rightarrow> unit res \<times> 'w"
  listen :: "string \<Rightarrow> ctx \<Rightarrow> 'w \<Rightarrow> (go_error option list \<times> 'w) option"

text \<open>\<open>listen\<close> is the run of the two goroutines, the listener and the one that shuts it down: \<open>None\<close> when
  they never both end, and else what they return, in the order they do.\<close>

definition deferred :: "('w \<Rightarrow> 'w) \<Rightarrow> 'a res \<times> 'w \<Rightarrow> 'a res \<times> 'w" where
  "deferred close m = (case m of (Hang, w) \<Rightarrow> (Hang, w) | (r, w) \<Rightarrow> (r, close w))"

definition wrap_err :: "string \<Rightarrow> 'a res \<times> 'w \<Rightarrow> ('a \<Rightarrow> 'w \<Rightarrow> 'b res \<times> 'w) \<Rightarrow> 'b res \<times> 'w" where
  "wrap_err msg m k = call m k (\<lambda>err w. (Err (Errorf msg err []), w))"

section \<open>The database\<close>

definition newMigrator :: "'w server_env \<Rightarrow> 'w \<Rightarrow> unit res \<times> 'w" where
  "newMigrator e w =
     wrap_err ''failed to load migration source: '' (iofs_New e w) (\<lambda>_ w.
     wrap_err ''failed to construct migration driver: '' (migrate_WithInstance e w) (\<lambda>_ w.
     wrap_err ''failed to construct migrator: '' (migrate_New e w) (\<lambda>_ w. (Ok (), w))))"

definition migrateUp :: "'w server_env \<Rightarrow> 'w \<Rightarrow> unit res \<times> 'w" where
  "migrateUp e w =
     call (newMigrator e w)
       (\<lambda>_ w. call (migrate_Up e w)
          (\<lambda>_ w. (Ok (), w))
          (\<lambda>err w. if errors_is err MigrateNoChange then (Ok (), w)
                   else (Err (Errorf ''failed to apply migrations: '' err []), w)))
       (\<lambda>err w. (Err err, w))"

definition dsn :: "string \<Rightarrow> string" where
  "dsn path = path @ ''?_pragma=journal_mode(wal)'' @ ''&_pragma=busy_timeout(5000)'' @
     ''&_pragma=synchronous(normal)'' @ ''&_pragma=cache_size(-65536)'' @
     ''&_pragma=mmap_size(268435456)'' @ ''&_pragma=temp_store(memory)''"

definition Open :: "'w server_env \<Rightarrow> ctx \<Rightarrow> string \<Rightarrow> 'w \<Rightarrow> unit res \<times> 'w" where
  "Open e c path w =
     wrap_err ''failed to open database: '' (sql_Open e (dsn path) w) (\<lambda>_ w.
       call (db_Ping e c w)
         (\<lambda>_ w.
            call (migrateUp e w)
              (\<lambda>_ w. (Ok (), w))
              (\<lambda>err w. (Err (Errorf ''failed to run migrations: '' err []), db_Close e w)))
         (\<lambda>err w. (Err (Errorf ''failed to connect to database: '' err []), db_Close e w)))"

section \<open>The torrent client\<close>

text \<open>\<open>completion\<close>: whether a piece completion store was given.\<close>

definition NewClient :: "'w server_env \<Rightarrow> string \<Rightarrow> bool \<Rightarrow> 'w \<Rightarrow> unit res \<times> 'w" where
  "NewClient e ddir completion w =
     (if ddir = [] then (Err (ErrorString ''data directory is required''), w)
      else if \<not> completion then (Err (ErrorString ''piece completion store is required''), w)
      else
        wrap_err ''failed to create data directory: '' (os_MkdirAll e ddir w) (\<lambda>_ w.
        wrap_err ''failed to create torrent client: '' (anacrolix_NewClient e ddir w) (\<lambda>_ w. (Ok (), w))))"

section \<open>Serving\<close>

text \<open>\<open>errgroup\<close>: the first error a goroutine returns.\<close>

fun first_error :: "go_error option list \<Rightarrow> go_error option" where
  "first_error [] = None"
| "first_error (None # es) = first_error es"
| "first_error (Some e # es) = Some e"

definition serve :: "'w server_env \<Rightarrow> string \<Rightarrow> ctx \<Rightarrow> 'w \<Rightarrow> unit res \<times> 'w" where
  "serve e address c w =
     (case listen e address c w of
        None \<Rightarrow> (Hang, w)
      | Some (outcomes, w) \<Rightarrow>
        (case first_error outcomes of
           None \<Rightarrow> (Ok (), w)
         | Some err \<Rightarrow> if errors_is err HttpServerClosed then (Ok (), w) else (Err err, w)))"

text \<open>The handler: the API, the pages and the static files behind the two middlewares. The loop over
  the middlewares puts \<open>Logging\<close> outside.\<close>

definition routes ::
  "'w ApiService \<Rightarrow> validator \<Rightarrow> 'w TorrentHandler \<Rightarrow> 'w handler \<Rightarrow>
   (pattern \<times> ((string \<times> string) list \<Rightarrow> 'w handler)) list" where
  "routes s required h static =
     api_Register s required @ ui_Register h @
     [(\<lparr>pat_method = ''GET'', pat_segments = [Lit ''static''], pat_subtree = True\<rparr>, \<lambda>_. static)]"

definition full_handler ::
  "'w ApiService \<Rightarrow> validator \<Rightarrow> 'w TorrentHandler \<Rightarrow> 'w handler \<Rightarrow> Request \<Rightarrow> Response \<Rightarrow> 'w \<times> int list \<Rightarrow>
   unit res \<times> Response \<times> 'w \<times> int list" where
  "full_handler s required h static = Logging (Recovery (serve_mux (routes s required h static)))"

section \<open>Run\<close>

text \<open>The calls of \<open>Run\<close> in their order, each with its deferred close.\<close>

definition run_client :: "'w server_env \<Rightarrow> ctx \<Rightarrow> Config \<Rightarrow> 'w \<Rightarrow> unit res \<times> 'w" where
  "run_client e c config w =
     (let downloadsDir = path_Join [Directory (Data config), ''downloads''] in
      wrap_err ''failed to start torrent client: '' (NewClient e downloadsDir True w) (\<lambda>_ w.
        deferred (anacrolix_Close e)
          (wrap_err ''failed to restore torrents: '' (torrents_Restore e c w) (\<lambda>_ w.
             serve e (Address (HTTP config)) c w))))"

definition run_database :: "'w server_env \<Rightarrow> ctx \<Rightarrow> Config \<Rightarrow> 'w \<Rightarrow> unit res \<times> 'w" where
  "run_database e c config w =
     wrap_err ''failed to open database: '' (Open e c (path_Join [Directory (Data config), ''state.db'']) w) (\<lambda>_ w.
       deferred (db_Close e)
         (wrap_err ''failed to load piece completion cache: '' (pieces_Load e c w) (\<lambda>_ w.
            run_client e c config w)))"

definition Run :: "'w server_env \<Rightarrow> ctx \<Rightarrow> Config \<Rightarrow> 'w \<Rightarrow> unit res \<times> 'w" where
  "Run e c config w =
     (case config_Validate config of
        Some err \<Rightarrow> (Err (Errorf ''invalid configuration: '' err []), w)
      | None \<Rightarrow>
        wrap_err ''failed to create data directory: '' (os_MkdirAll e (Directory (Data config)) w) (\<lambda>_ w.
          run_database e c config w))"

section \<open>The handler always answers\<close>

lemma Recovery_no_panic: "fst (Recovery next r resp w) \<noteq> Panic p"
  by (auto simp: Recovery_def split: prod.splits res.splits)

text \<open>A request whose handler panics before anything was written is answered with status 500.\<close>

lemma Recovery_panic:
  assumes "next r resp w = (Panic p, resp', w')" "rw_status resp' = None"
  shows "\<exists>out. Recovery next r resp w = (Ok (), out, w') \<and> sent_status out = StatusInternalServerError"
  using assms by (simp add: Recovery_def sent_status_def)

section \<open>What was opened is closed\<close>

text \<open>A world that only records what was opened and closed, and an environment whose every call may
  fail as \<open>fail\<close> says.\<close>

datatype event = OpenDb | CloseDb | OpenClient | CloseClient | Serve

definition attempt :: "go_error option \<Rightarrow> event list \<Rightarrow> event list \<Rightarrow> unit res \<times> event list" where
  "attempt f es w = (case f of None \<Rightarrow> (Ok (), w @ es) | Some err \<Rightarrow> (Err err, w))"

definition trace_env ::
  "(nat \<Rightarrow> go_error option) \<Rightarrow> go_error option list option \<Rightarrow> event list server_env" where
  "trace_env f served =
     \<lparr>os_MkdirAll = (\<lambda>_. attempt (f 0) []), sql_Open = (\<lambda>_. attempt (f 1) [OpenDb]), db_Ping = (\<lambda>_. attempt (f 2) []),
      db_Close = (\<lambda>w. w @ [CloseDb]), iofs_New = attempt (f 3) [], migrate_WithInstance = attempt (f 4) [],
      migrate_New = attempt (f 5) [], migrate_Up = attempt (f 6) [], pieces_Load = (\<lambda>_. attempt (f 7) []),
      anacrolix_NewClient = (\<lambda>_. attempt (f 8) [OpenClient]), anacrolix_Close = (\<lambda>w. w @ [CloseClient]),
      torrents_Restore = (\<lambda>_. attempt (f 9) []),
      listen = (\<lambda>_ _ w. map_option (\<lambda>os. (os, w @ [Serve])) served)\<rparr>"

lemma attempt_cases: "attempt f es w = (Ok (), w @ es) \<or> (\<exists>err. attempt f es w = (Err err, w))"
  by (cases f) (simp_all add: attempt_def)

lemma wrap_err_attempt:
  "wrap_err msg (attempt f es w) k = (case f of None \<Rightarrow> k () (w @ es) | Some err \<Rightarrow> (Err (Errorf msg err []), w))"
  by (cases f) (simp_all add: wrap_err_def attempt_def)

lemma trace_env_simps [simp]:
  "os_MkdirAll (trace_env f s) d = attempt (f 0) []" "sql_Open (trace_env f s) d = attempt (f 1) [OpenDb]"
  "db_Ping (trace_env f s) c = attempt (f 2) []" "db_Close (trace_env f s) = (\<lambda>w. w @ [CloseDb])"
  "iofs_New (trace_env f s) = attempt (f 3) []" "migrate_WithInstance (trace_env f s) = attempt (f 4) []"
  "migrate_New (trace_env f s) = attempt (f 5) []" "migrate_Up (trace_env f s) = attempt (f 6) []"
  "pieces_Load (trace_env f s) c = attempt (f 7) []" "anacrolix_NewClient (trace_env f s) d = attempt (f 8) [OpenClient]"
  "anacrolix_Close (trace_env f s) = (\<lambda>w. w @ [CloseClient])" "torrents_Restore (trace_env f s) c = attempt (f 9) []"
  "listen (trace_env f s) a c w = map_option (\<lambda>os. (os, w @ [Serve])) s"
  by (simp_all add: trace_env_def)

lemma serve_trace:
  "serve (trace_env f (Some os)) a c w =
    (case first_error os of None \<Rightarrow> Ok ()
     | Some err \<Rightarrow> if errors_is err HttpServerClosed then Ok () else Err err, w @ [Serve])"
  by (simp add: serve_def split: option.split)

lemma migrateUp_trace: "\<exists>r. migrateUp (trace_env f s) w = (r, w) \<and> returns r"
  unfolding migrateUp_def newMigrator_def trace_env_simps wrap_err_attempt
  by (auto simp: attempt_def split: option.split)

lemma Open_trace:
  "\<exists>r. Open (trace_env f s) c p w = (r, w @ (case r of Ok _ \<Rightarrow> [OpenDb] | _ \<Rightarrow> if f 1 = None then [OpenDb, CloseDb] else [])) \<and> returns r"
proof -
  obtain r where r: "migrateUp (trace_env f s) (w @ [OpenDb]) = (r, w @ [OpenDb])" "returns r"
    using migrateUp_trace by blast
  then show ?thesis
    unfolding Open_def trace_env_simps wrap_err_attempt
    by (cases r) (auto simp: attempt_def split: option.split)
qed

definition closed_trace :: "event list \<Rightarrow> bool" where
  "closed_trace es \<longleftrightarrow>
     es \<in> {[], [OpenDb, CloseDb], [OpenDb, OpenClient, CloseClient, CloseDb],
           [OpenDb, OpenClient, Serve, CloseClient, CloseDb]}"

lemma run_client_trace:
  "\<exists>r es. run_client (trace_env f (Some os)) c config w = (r, w @ es) \<and> returns r \<and>
    es \<in> {[], [OpenClient, CloseClient], [OpenClient, Serve, CloseClient]}"
proof -
  have "\<exists>r. serve (trace_env f (Some os)) a c v = (r, v @ [Serve]) \<and> returns r" for a v
    unfolding serve_trace by (simp split: option.split)
  then obtain r where s: "serve (trace_env f (Some os)) (Address (HTTP config)) c (w @ [OpenClient]) =
      (r, (w @ [OpenClient]) @ [Serve])" "returns r" by blast
  have d: "deferred (anacrolix_Close (trace_env f (Some os)))
      (case f 9 of None \<Rightarrow> serve (trace_env f (Some os)) (Address (HTTP config)) c (w @ [OpenClient])
       | Some err \<Rightarrow> (Err (Errorf ''failed to restore torrents: '' err []), w @ [OpenClient])) =
      (case f 9 of None \<Rightarrow> (r, w @ [OpenClient, Serve, CloseClient])
       | Some err \<Rightarrow> (Err (Errorf ''failed to restore torrents: '' err []), w @ [OpenClient, CloseClient]))"
    using s by (cases "f 9"; cases r) (simp_all add: deferred_def)
  show ?thesis
    unfolding run_client_def Let_def NewClient_def trace_env_simps wrap_err_attempt append_Nil2
    using d s(2) by (cases "f 0"; cases "f 8"; cases "f 9") (simp_all add: wrap_err_def)
qed

lemma Run_closes:
  "\<exists>r es. Run (trace_env f (Some os)) c config [] = (r, es) \<and> returns r \<and> closed_trace es"
proof -
  let ?p = "path_Join [Directory (Data config), ''state.db'']"
  obtain r where o: "Open (trace_env f (Some os)) c ?p [] =
      (r, [] @ (case r of Ok _ \<Rightarrow> [OpenDb] | _ \<Rightarrow> if f 1 = None then [OpenDb, CloseDb] else []))" "returns r"
    using Open_trace by blast
  obtain r' es where cl: "run_client (trace_env f (Some os)) c config [OpenDb] = (r', [OpenDb] @ es)" "returns r'"
      "es \<in> {[], [OpenClient, CloseClient], [OpenClient, Serve, CloseClient]}"
    using run_client_trace by blast
  have db: "\<exists>r es. run_database (trace_env f (Some os)) c config [] = (r, es) \<and> returns r \<and> closed_trace es"
  proof (cases r)
    case (Ok x)
    then show ?thesis
      using o(1) cl unfolding run_database_def trace_env_simps wrap_err_attempt
      by (cases "f 7"; cases r') (auto simp: wrap_err_def deferred_def closed_trace_def)
  next
    case (Err err)
    then show ?thesis using o(1) unfolding run_database_def by (auto simp: wrap_err_def closed_trace_def)
  qed (use o(2) in auto)
  then show ?thesis
    unfolding Run_def trace_env_simps wrap_err_attempt
    by (cases "config_Validate config"; cases "f 0") (auto simp: closed_trace_def)
qed

end
