(* ===== verification/Cli.thy ===== *)
theory Cli
  imports ClientFacts Server
begin

text \<open>
  The command line, \<open>main.go\<close> and \<open>cmd/\<close>: what each command does with its arguments and flags once
  cobra (a third-party package) has parsed them, what it prints, and the exit code. \<open>connect\<close> is
  \<open>client.New\<close> with the network it talks to.
\<close>

section \<open>Printing\<close>

text \<open>\<open>enc.SetIndent("", "  ")\<close>: \<open>json.Indent\<close> of the compact text.\<close>

definition line_break :: "nat \<Rightarrow> string" where
  "line_break d = CHR 10 # concat (replicate d ''  '')"

fun indent_text :: "nat \<Rightarrow> json \<Rightarrow> string" where
  "indent_text d (JArr vs) =
     (if vs = [] then ''[]''
      else ''['' @ line_break (Suc d) @ sep_by ('','' @ line_break (Suc d)) (map (indent_text (Suc d)) vs) @
           line_break d @ '']'')"
| "indent_text d (JObj ms) =
     (if ms = [] then [CHR 0x7B, CHR 0x7D]
      else CHR 0x7B # line_break (Suc d) @
           sep_by ('','' @ line_break (Suc d))
             (map (\<lambda>m. dquote # fst m @ [dquote, CHR '':'', CHR '' ''] @ indent_text (Suc d) (snd m)) ms) @
           line_break d @ [CHR 0x7D])"
| "indent_text d v = json_text v"

text \<open>\<open>client.Torrent\<close> has no tags: the members are named as the fields.\<close>

definition client_members :: "ClientTorrent \<Rightarrow> (string \<times> json) list" where
  "client_members t =
     [(''InfoHash'', JString (ct_InfoHash t)), (''Magnet'', JString (ct_Magnet t)),
      (''Label'', JString (ct_Label t)), (''TargetDir'', JString (ct_TargetDir t)),
      (''Paused'', JBool (ct_Paused t)), (''CreatedAt'', JTime (ct_CreatedAt t)),
      (''UpdatedAt'', JTime (ct_UpdatedAt t)), (''Name'', JString (ct_Name t)),
      (''Length'', JInt (ct_Length t)), (''BytesCompleted'', JInt (ct_BytesCompleted t)),
      (''ActivePeers'', JInt (ct_ActivePeers t)), (''Seeders'', JInt (ct_Seeders t))]"

definition years_ok :: "ClientTorrent \<Rightarrow> bool" where
  "years_ok t \<longleftrightarrow> year (ct_CreatedAt t) \<le> 9999 \<and> year (ct_UpdatedAt t) \<le> 9999"

definition year_error :: go_error where
  "year_error = ErrorString (''json: error calling MarshalJSON for type time.Time: '' @
     ''Time.MarshalJSON: year outside of range [0,9999]'')"

definition print_json :: "bool \<Rightarrow> json \<Rightarrow> string res" where
  "print_json ok v = (if ok then Ok (indent_text 0 v @ [CHR 10]) else Err year_error)"

section \<open>Commands\<close>

type_synonym 'w connector = "string \<Rightarrow> go_error + 'w Client"

definition with_client :: "'w connector \<Rightarrow> string \<Rightarrow> ('w Client \<Rightarrow> 'w \<Rightarrow> 'a res \<times> 'w) \<Rightarrow> 'w \<Rightarrow> 'a res \<times> 'w" where
  "with_client connect address k w = (case connect address of Inl err \<Rightarrow> (Err err, w) | Inr c \<Rightarrow> k c w)"

text \<open>\<open>open_file\<close> is \<open>os.Open\<close> followed by reading: the error of opening, or what reading gives.\<close>

definition add_Command ::
  "(string \<Rightarrow> go_error + utc) \<Rightarrow> 'w connector \<Rightarrow> (string \<Rightarrow> go_error + (go_error + string)) \<Rightarrow>
   string \<Rightarrow> string \<Rightarrow> string \<Rightarrow> ctx \<Rightarrow> string \<Rightarrow> 'w \<Rightarrow> string res \<times> 'w" where
  "add_Command general connect open_file address lbl tdir c arg w =
     with_client connect address (\<lambda>cl w.
       let report = (\<lambda>m. call m
             (\<lambda>t w. (print_json (years_ok t) (JObj (client_members t)), w))
             (\<lambda>err w. (Err (Errorf ''failed to add torrent: '' err []), w)))
       in if has_prefix arg ''magnet:?'' then report (client_AddMagnet general cl c arg lbl tdir w)
          else case open_file arg of
                 Inl err \<Rightarrow> (Err (Errorf ''failed to open torrent file: '' err []), w)
               | Inr f \<Rightarrow> report (client_AddFile general cl c f lbl tdir w)) w"

definition delete_Command :: "'w connector \<Rightarrow> string \<Rightarrow> bool \<Rightarrow> ctx \<Rightarrow> string \<Rightarrow> 'w \<Rightarrow> string res \<times> 'w" where
  "delete_Command connect address deleteFiles c arg w =
     with_client connect address (\<lambda>cl w.
       call (client_Remove cl c arg deleteFiles w) (\<lambda>_ w. (Ok [], w))
         (\<lambda>err w. (Err (Errorf ''failed to delete torrent: '' err []), w))) w"

definition list_Command :: "(string \<Rightarrow> go_error + utc) \<Rightarrow> 'w connector \<Rightarrow> string \<Rightarrow> ctx \<Rightarrow> 'w \<Rightarrow> string res \<times> 'w" where
  "list_Command general connect address c w =
     with_client connect address (\<lambda>cl w.
       call (client_List general cl c w)
         (\<lambda>ts w. (print_json (list_all years_ok ts) (JArr (map (\<lambda>t. JObj (client_members t)) ts)), w))
         (\<lambda>err w. (Err (Errorf ''failed to list torrents: '' err []), w))) w"

definition pause_Command :: "'w connector \<Rightarrow> string \<Rightarrow> ctx \<Rightarrow> string \<Rightarrow> 'w \<Rightarrow> string res \<times> 'w" where
  "pause_Command connect address c arg w =
     with_client connect address (\<lambda>cl w.
       call (client_Pause cl c arg w) (\<lambda>_ w. (Ok [], w))
         (\<lambda>err w. (Err (Errorf ''failed to pause torrent: '' err []), w))) w"

definition resume_Command :: "'w connector \<Rightarrow> string \<Rightarrow> ctx \<Rightarrow> string \<Rightarrow> 'w \<Rightarrow> string res \<times> 'w" where
  "resume_Command connect address c arg w =
     with_client connect address (\<lambda>cl w.
       call (client_Resume cl c arg w) (\<lambda>_ w. (Ok [], w))
         (\<lambda>err w. (Err (Errorf ''failed to resume torrent: '' err []), w))) w"

definition serve_Command ::
  "'w server_env \<Rightarrow> (string \<Rightarrow> Config \<Rightarrow> go_error + Config) \<Rightarrow> go_error + string \<Rightarrow> ctx \<Rightarrow> string list \<Rightarrow> 'w \<Rightarrow>
   string res \<times> 'w" where
  "serve_Command e decode_file home c args w =
     (let config = (case args of [] \<Rightarrow> Inr (DefaultConfig home) | path # _ \<Rightarrow> LoadConfig decode_file path) in
      case config of
        Inl err \<Rightarrow> (Err (Errorf ''failed to load configuration file: '' err []), w)
      | Inr cfg \<Rightarrow> call (Run e c cfg w) (\<lambda>_ w. (Ok [], w)) (\<lambda>err w. (Err err, w)))"

section \<open>The program\<close>

datatype command = ServeCmd | AddCmd | ListCmd | DeleteCmd | PauseCmd | ResumeCmd

text \<open>The commands of \<open>main\<close> by their names and aliases, with the number of arguments each takes.\<close>

definition command_table :: "(string \<times> command \<times> nat \<times> nat) list" where
  "command_table =
     [(''serve'', ServeCmd, 0, 1), (''add'', AddCmd, 1, 1), (''list'', ListCmd, 0, 0), (''ls'', ListCmd, 0, 0),
      (''delete'', DeleteCmd, 1, 1), (''rm'', DeleteCmd, 1, 1), (''pause'', PauseCmd, 1, 1),
      (''resume'', ResumeCmd, 1, 1)]"

definition exit_code :: "'a res \<Rightarrow> nat option" where
  "exit_code r = (case r of Ok _ \<Rightarrow> Some 0 | Err _ \<Rightarrow> Some 1 | Panic _ \<Rightarrow> Some 2 | Hang \<Rightarrow> None)"

text \<open>The exit code is zero exactly when the command reports no error.\<close>

lemma exit_code_zero: "exit_code r = Some 0 \<longleftrightarrow> (\<exists>a. r = Ok a)"
  by (cases r) (simp_all add: exit_code_def)

end
