(* ===== verification/ServiceProps.thy ===== *)
theory ServiceProps
  imports Samples
begin

text \<open>
  The properties of the orchestration layer, stated of the assembled system. Each rests on the
  lemma of the locale \<open>torrent_service\<close>, interpreted as \<open>svc\<close>, or on one of the engine, interpreted
  as \<open>lib\<close>.
\<close>

section \<open>Removing\<close>

text \<open>C1: Whatever happens to the database and the disk, \<open>Remove\<close> of a well-formed info hash returns; when
  it reports success the torrent was managed and its row, its entry in the engine and all of its
  piece completions are gone, nothing else has changed, and the completion cache still agrees with
  the table; when it reports an error every other torrent is untouched.\<close>

theorem Remove_outcome:
  assumes "db_inv w" "lib_inv w" "FromHexString h = Inr k"
  shows "case svc_Remove (service load dir) c h deleteFiles w of
      (Ok _, w') \<Rightarrow>
        rows w h \<noteq> None \<and> rows w' = (rows w)(h := None) \<and> lib_live w' = (lib_live w)(k := None) \<and>
        piece_rows w' = without_hash h (piece_rows w) \<and> (agree w \<longrightarrow> agree w')
    | (Err _, w') \<Rightarrow>
        (\<forall>j. j \<noteq> h \<longrightarrow> rows w' j = rows w j) \<and> (\<forall>j. j \<noteq> k \<longrightarrow> lib_live w' j = lib_live w j)
    | _ \<Rightarrow> False"
proof -
  obtain r w' where run: "svc_Remove (service load dir) c h deleteFiles w = (r, w')" by force
  have f: "returns r" "rows w' = rows w \<or> rows w' = (rows w)(h := None)"
      "lib_live w' = lib_live w \<or> lib_live w' = (lib_live w)(k := None)"
      "r = Ok () \<longrightarrow> rows w h \<noteq> None \<and> rows w' = (rows w)(h := None) \<and> lib_live w' = (lib_live w)(k := None) \<and>
         piece_rows w' = without_hash h (piece_rows w) \<and> (agree w \<longrightarrow> agree w')"
    using svc.Remove_effect [OF assms run] by simp_all
  show ?thesis using f(1)
  proof (cases rule: returnsE)
    case (1 a)
    with f(4) show ?thesis by (simp add: run)
  next
    case (2 e)
    have "rows w' j = rows w j" if "j \<noteq> h" for j using f(2) that by auto
    moreover have "lib_live w' j = lib_live w j" if "j \<noteq> k" for j using f(3) that by auto
    ultimately show ?thesis using 2 by (simp add: run)
  qed
qed

theorem Remove_outcome_witness:
  "case svc_Remove (service no_load ''/data'') background hex_a True running_world of
      (Ok _, w') \<Rightarrow>
        rows running_world hex_a \<noteq> None \<and> rows w' = (rows running_world)(hex_a := None) \<and>
        lib_live w' = (lib_live running_world)(hash_a := None) \<and>
        piece_rows w' = without_hash hex_a (piece_rows running_world) \<and> (agree running_world \<longrightarrow> agree w')
    | (Err _, w') \<Rightarrow>
        (\<forall>j. j \<noteq> hex_a \<longrightarrow> rows w' j = rows running_world j) \<and>
        (\<forall>j. j \<noteq> hash_a \<longrightarrow> lib_live w' j = lib_live running_world j)
    | _ \<Rightarrow> False"
  by (rule Remove_outcome) simp_all

text \<open>Removing a torrent that is not managed reports \<open>ErrTorrentNotFound\<close> and changes nothing:
  no row, no running torrent, no piece completion.\<close>

theorem Remove_not_found:
  assumes "db_inv w" "healthy c w" "rows w h = None"
  shows "\<exists>w'. svc_Remove (service load dir) c h deleteFiles w = (Err (Sentinel SvcTorrentNotFound), w') \<and>
    rows w' = rows w \<and> lib_live w' = lib_live w \<and> piece_rows w' = piece_rows w"
  by (rule svc.Remove_missing [OF assms])

theorem Remove_not_found_witness:
  "\<exists>w'. svc_Remove (service no_load ''/data'') background hex_a True empty_world =
      (Err (Sentinel SvcTorrentNotFound), w') \<and>
    rows w' = rows empty_world \<and> lib_live w' = lib_live empty_world \<and> piece_rows w' = piece_rows empty_world"
  by (rule Remove_not_found) simp_all

section \<open>Adding\<close>

text \<open>C3: With a working database, an \<open>AddMagnet\<close> whose torrent the engine accepts under hash \<open>h\<close> is
  decided by whether \<open>h\<close> is managed already: if not, it returns the new torrent, which carries the
  magnet, the label and the target directory of the request and is not paused; if so it returns
  \<open>ErrTorrentAlreadyExists\<close> and leaves every row as it was.\<close>

theorem AddMagnet_outcome:
  assumes "db_inv w" "lib_inv w" "healthy c w" "eng_AddMagnet (lib_engine load dir) c uri w = (Ok h, v)"
  shows "case svc_AddMagnet (service load dir) c uri opts w of
      (Ok t, w') \<Rightarrow>
        rows w h = None \<and> InfoHash t = h \<and> Magnet t = uri \<and> Label t = opt_Label opts \<and>
        TargetDir t = opt_TargetDir opts \<and> \<not> Paused t \<and>
        (\<exists>row. rows w' = (rows w)(h \<mapsto> row) \<and> db_Magnet row = uri \<and> \<not> db_Paused row)
    | (Err e, w') \<Rightarrow> rows w h \<noteq> None \<and> e = Sentinel SvcTorrentAlreadyExists \<and> rows w' = rows w
    | _ \<Rightarrow> False"
proof -
  have "te_AddMagnet (engine (service load dir)) c uri w = (Ok h, v)" using assms(4) by simp
  from svc.AddMagnet_decided [OF assms(1,2) this assms(3)] show ?thesis .
qed

theorem AddMagnet_outcome_witness:
  "\<exists>v. eng_AddMagnet (lib_engine no_load ''/data'') background magnet_a empty_world = (Ok hex_a, v) \<and>
    (case svc_AddMagnet (service no_load ''/data'') background magnet_a
        \<lparr>opt_Label = ''films'', opt_TargetDir = ''/data''\<rparr> empty_world of
      (Ok t, w') \<Rightarrow>
        rows empty_world hex_a = None \<and> InfoHash t = hex_a \<and> Magnet t = magnet_a \<and>
        Label t = opt_Label \<lparr>opt_Label = ''films'', opt_TargetDir = ''/data''\<rparr> \<and>
        TargetDir t = opt_TargetDir \<lparr>opt_Label = ''films'', opt_TargetDir = ''/data''\<rparr> \<and> \<not> Paused t \<and>
        (\<exists>row. rows w' = (rows empty_world)(hex_a \<mapsto> row) \<and> db_Magnet row = magnet_a \<and> \<not> db_Paused row)
    | (Err e, w') \<Rightarrow> rows empty_world hex_a \<noteq> None \<and> e = Sentinel SvcTorrentAlreadyExists \<and> rows w' = rows empty_world
    | _ \<Rightarrow> False)"
proof -
  obtain v where add: "eng_AddMagnet (lib_engine no_load ''/data'') background magnet_a
      empty_world = (Ok hex_a, v)"
    using AddMagnet_sample(1) [OF sample_env_worlds(1)] by auto
  show ?thesis
    by (rule exI [of _ v], rule conjI [OF add],
        rule AddMagnet_outcome [OF db_inv_samples(1) lib_inv_samples(1) healthy_samples(1) add])
qed

section \<open>Pausing and resuming\<close>

text \<open>C5: With a working database, pausing a managed torrent succeeds, stops it in the engine and
  nothing else, and marks its row as paused; the row's byte counter is the engine's at that moment
  when the torrent was running, and the old one when it was not; no other row changes.\<close>

theorem Pause_outcome:
  assumes "db_inv w" "lib_inv w" "healthy c w" "FromHexString h = Inr k" "rows w h = Some t"
  shows "\<exists>w' u u'. svc_Pause (service load dir) c h w = (Ok (), w') \<and> lib_live w' = (lib_live w)(k := None) \<and>
    rows w' = (rows w)(h \<mapsto> with_paused True u
      (case lib_live w k of None \<Rightarrow> t | Some p \<Rightarrow> with_bytes (pr_BytesCompleted p) u' t))"
  by (rule svc.Pause_result [OF assms])

theorem Pause_outcome_witness:
  "\<exists>w' u u'. svc_Pause (service no_load ''/data'') background hex_a running_world = (Ok (), w') \<and>
    lib_live w' = (lib_live running_world)(hash_a := None) \<and>
    rows w' = (rows running_world)(hex_a \<mapsto> with_paused True u
      (case lib_live running_world hash_a of None \<Rightarrow> db_a False
       | Some p \<Rightarrow> with_bytes (pr_BytesCompleted p) u' (db_a False)))"
  by (rule Pause_outcome) simp_all

text \<open>C6: A successful \<open>Resume\<close> leaves the torrent its magnet names running in the engine and its row
  not paused.\<close>

theorem Resume_success:
  assumes "db_inv w" "lib_inv w" "healthy c w" "rows w h = Some t"
    "svc_Resume (service load dir) c h w = (Ok (), w')"
  shows "\<exists>k t'. magnet_hash w (db_Magnet t) = Some k \<and> lib_live w' k \<noteq> None \<and>
    rows w' h = Some t' \<and> \<not> db_Paused t'"
  by (rule svc.Resume_started [OF assms])

theorem Resume_success_witness:
  "\<exists>w'. svc_Resume (service no_load ''/data'') background hex_a paused_world = (Ok (), w') \<and>
    (\<exists>k t'. magnet_hash paused_world (db_Magnet (db_a True)) = Some k \<and> lib_live w' k \<noteq> None \<and>
       rows w' hex_a = Some t' \<and> \<not> db_Paused t')"
proof -
  have row: "rows paused_world hex_a = Some (db_a True)" by simp
  obtain w' where run: "svc_Resume (service no_load ''/data'') background hex_a paused_world = (Ok (), w')"
    using Resume_sample(1) by blast
  from Resume_success [OF db_inv_samples(3) lib_inv_samples(3) healthy_samples(3) row run] run show ?thesis
    by (intro exI [of _ w']) simp
qed



text \<open>C8: \<open>Restore\<close> starts no torrent that is marked as paused, changes no paused flag, forgets no
  torrent and fails only when the repository cannot be read or the server is told to stop.\<close>

theorem Restore_outcome:
  assumes "db_inv w" "lib_inv w" "well_keyed rows magnet_hash w"
    "Restore tick (service load dir) c w = (r, w')"
  shows "map_option db_Paused \<circ> rows w' = map_option db_Paused \<circ> rows w \<and>
    (\<forall>e. r = Err e \<longrightarrow> (e = Sentinel ContextCanceled \<and> c \<noteq> background) \<or>
       (\<exists>d. e = Errorf ''failed to list torrents: '' d [])) \<and>
    (\<forall>k t. returns r \<longrightarrow> rows w (HexString k) = Some t \<longrightarrow> db_Paused t \<longrightarrow> lib_live w k = None \<longrightarrow>
       lib_live w' k = None)"
  using svc.Restore_effect [OF assms] by blast

theorem Restore_outcome_witness:
  "\<exists>r w'. Restore tick (service no_load ''/data'') background paused_world = (r, w') \<and>
    map_option db_Paused \<circ> rows w' = map_option db_Paused \<circ> rows paused_world \<and>
    (\<forall>e. r = Err e \<longrightarrow> (e = Sentinel ContextCanceled \<and> background \<noteq> background) \<or>
       (\<exists>d. e = Errorf ''failed to list torrents: '' d [])) \<and>
    (\<forall>k t. returns r \<longrightarrow> rows paused_world (HexString k) = Some t \<longrightarrow> db_Paused t \<longrightarrow>
       lib_live paused_world k = None \<longrightarrow> lib_live w' k = None)"
proof -
  obtain r w' where run: "Restore tick (service no_load ''/data'') background paused_world = (r, w')"
    by force
  from Restore_outcome [OF db_inv_samples(3) lib_inv_samples(3) well_keyed_samples(3) run] run show ?thesis by blast
qed

text \<open>C36: Removing a torrent that is paused, so not running in the engine, succeeds and forgets the torrent, but
  its files stay on disk even when their deletion was asked for.\<close>

theorem Remove_paused_keeps_files:
  assumes "db_inv w" "healthy c w" "FromHexString h = Inr k" "lib_live w k = None" "rows w h \<noteq> None"
  shows "\<exists>w'. svc_Remove (service load dir) c h True w = (Ok (), w') \<and> rows w' h = None \<and> disk w' = disk w"
proof -
  obtain t v where get: "Get c h w = (Ok t, v)"
    using store.get_works [OF assms(1,2), of h] assms(5) by auto
  have v: "db_inv v" "healthy c v" "rows v = rows w" "outer v = outer w"
    using store.get_invar [OF get assms(1)] store.get_healthy [OF get assms(2)] store.get_pure [OF get]
      store.rest_outer by blast+
  have er: "eng_Remove (lib_engine load dir) c h b v = (Err (Sentinel EngNotFound), v)" for b
    using lib.Remove_untracked [OF assms(3), of load dir v] lib_live_eq [OF outer_fields(1) [OF v(4)]] assms(4) by simp
  obtain y where del: "Delete c h v = (Ok (), y)"
    using store.delete_works [OF v(1,2), of h] assms(5) v(3) by auto
  have y: "rows y = (rows v)(h := None)" "outer y = outer v"
    using store.delete_Ok [OF v(1) del] store.delete_outer [OF del v(1)] by blast+
  have "svc_Remove (service load dir) c h True w = (Ok (), Forget h y)"
    using get er del by (simp add: svc_Remove_def engine_remove_def)
  moreover have "disk (Forget h y) = disk w"
    using y(2) v(4) by (cases w; cases y; cases v) (simp add: outer_def Forget_def)
  ultimately show ?thesis using y(1) by auto
qed

theorem Remove_paused_keeps_files_witness:
  "\<exists>w'. svc_Remove (service no_load ''/data'') background hex_a True paused_world = (Ok (), w') \<and>
    rows w' hex_a = None \<and> disk w' = disk paused_world"
  by (rule Remove_paused_keeps_files) simp_all

end
