(* ===== verification/ServerProps.thy ===== *)
theory ServerProps
  imports Cli ServiceProps
begin

text \<open>
  The whole server seen through its HTTP surface: the command line's client, the API's handlers and
  the service of the assembled system, and the properties of the layers between them.
\<close>

section \<open>The service behind the handlers\<close>

definition ApiService_value :: "'w TorrentService \<Rightarrow> 'w ApiService" where
  "ApiService_value s =
     \<lparr>as_AddMagnet = svc_AddMagnet s, as_AddFile = svc_AddFile s, as_Get = svc_Get s, as_List = svc_List s,
      as_Remove = svc_Remove s, as_Pause = svc_Pause s, as_Resume = svc_Resume s\<rparr>"

definition UiService_value :: "'w TorrentService \<Rightarrow> 'w UiService" where
  "UiService_value s =
     \<lparr>us_AddMagnet = svc_AddMagnet s, us_AddFile = svc_AddFile s, us_Get = svc_Get s, us_Files = svc_Files s,
      us_List = svc_List s, us_Remove = svc_Remove s, us_Pause = svc_Pause s, us_Resume = svc_Resume s\<rparr>"

lemma ApiService_value_simps [simp]:
  "as_AddMagnet (ApiService_value s) = svc_AddMagnet s" "as_AddFile (ApiService_value s) = svc_AddFile s"
  "as_Get (ApiService_value s) = svc_Get s" "as_List (ApiService_value s) = svc_List s"
  "as_Remove (ApiService_value s) = svc_Remove s" "as_Pause (ApiService_value s) = svc_Pause s"
  "as_Resume (ApiService_value s) = svc_Resume s"
  by (simp_all add: ApiService_value_def)

text \<open>A client connected to the system.\<close>

definition system_client ::
  "(string \<Rightarrow> go_error + MetaInfo) \<Rightarrow> string \<Rightarrow> validator \<Rightarrow> world HttpClient.Client" where
  "system_client load dir rq = local_client (api_server (ApiService_value (service load dir)) rq)"

text \<open>A hexadecimal hash is one ordinary path component.\<close>

lemma byte_hex_char: "d < 16 \<Longrightarrow> byte (hex_char d) = (if d < 10 then 48 + d else 87 + d)"
  by (simp add: hex_char_def)

lemma set_HexString:
  assumes "c \<in> set (HexString k)"
  shows "48 \<le> byte c \<and> byte c \<le> 57 \<or> 97 \<le> byte c \<and> byte c \<le> 102"
proof -
  obtain x d where "d = byte x div 16 \<or> d = byte x mod 16" "c = hex_char d"
    using assms by (auto simp: HexString_def hex_byte_def)
  moreover have "byte x div 16 < 16"
    using less_mult_imp_div_less [of "byte x" 16 16] nat_of_char_less_256 [of x] by simp
  ultimately have "d < 16" "c = hex_char d" by auto
  then show ?thesis using byte_hex_char [of d] by auto
qed

lemma hash_segment_HexString:
  assumes "k \<noteq> []"
  shows "hash_segment (HexString k)"
proof -
  have "length (HexString k) \<noteq> 0" using assms by simp
  then have ne: "HexString k \<noteq> []" by (simp only: length_0_conv not_False_eq_True)
  have "slash \<notin> set (HexString k)" "CHR ''?'' \<notin> set (HexString k)" "CHR ''.'' \<notin> set (HexString k)"
    using set_HexString [of slash k] set_HexString [of "CHR ''?''" k] set_HexString [of "CHR ''.''" k] by auto
  then show ?thesis using ne by (auto simp: hash_segment_def plain_component_def)
qed

lemma valid_utf8_ascii: "(\<And>c. c \<in> set s \<Longrightarrow> byte c < 128) \<Longrightarrow> valid_utf8 s"
  by (induction s) auto

lemma wf_hash_not_Nil: "wf_hash k \<Longrightarrow> k \<noteq> []"
  by (auto simp: wf_hash_def Size_def)

section \<open>The client and the server\<close>

text \<open>C9: End to end, \<open>Get\<close> of the HTTP client on a server with a working database gives what the service
  knows: the managed torrent with every field as the service reports it, through the JSON text and
  back, or an error that \<open>IsNotFound\<close> recognises when the torrent is not managed.\<close>

theorem client_Get_system:
  assumes "db_inv w" "healthy c w" "wf_hash k"
    "\<forall>row. rows w (HexString k) = Some row \<longrightarrow> sendable (newTorrent (hydrate (service load dir) row w))"
  shows "case rows w (HexString k) of
      None \<Rightarrow> (\<exists>e w'. client_Get general (system_client load dir rq) c (HexString k) w = (Err e, w') \<and> IsNotFound e)
    | Some row \<Rightarrow> (\<exists>w'. client_Get general (system_client load dir rq) c (HexString k) w =
        (Ok (fromAPI (newTorrent (hydrate (service load dir) row w))), w'))"
proof -
  have h: "hash_segment (HexString k)" using hash_segment_HexString wf_hash_not_Nil assms(3) by blast
  obtain w' where run: "svc_Get (service load dir) c (HexString k) w =
      (case rows w (HexString k) of None \<Rightarrow> Err (Sentinel SvcTorrentNotFound)
       | Some row \<Rightarrow> Ok (hydrate (service load dir) row w), w')"
    using svc.Get_result [OF assms(1,2)] by blast
  show ?thesis
  proof (cases "rows w (HexString k)")
    case None
    with run have "as_Get (ApiService_value (service load dir)) c (HexString k) w =
        (Err (Sentinel SvcTorrentNotFound), w')" by simp
    from client_Get_local [OF h this, of general rq] None show ?thesis
      by (simp add: system_client_def hash_failure_def IsNotFound_def has_status_def)
  next
    case (Some row)
    with run have "as_Get (ApiService_value (service load dir)) c (HexString k) w =
        (Ok (hydrate (service load dir) row w), w')" by simp
    from client_Get_local [OF h this, of general rq] Some assms(4) show ?thesis
      by (simp add: system_client_def)
  qed
qed

text \<open>Instances of the parameters for the witnesses: a time parser that knows no other layout, and a
  validator that asks for non-empty fields.\<close>

definition no_parse :: "string \<Rightarrow> go_error + utc" where
  "no_parse s = Inl (ErrorString ''parsing time'')"

definition all_present :: validator where
  "all_present fs =
     (if list_all (\<lambda>f. snd f \<noteq> []) fs then None else Some (ErrorString ''magnet: cannot be blank.''))"

lemma sendable_a: "sendable (newTorrent (hydrate (service load dir) (db_a True) paused_world))"
proof -
  have hex: "valid_utf8 hex_a" unfolding hex_a_def
    using set_HexString [of _ hash_a] by (intro valid_utf8_ascii) fastforce
  have app: "valid_utf8 (s @ t)" if "\<And>c. c \<in> set s \<Longrightarrow> byte c < 128" "valid_utf8 t" for s t
    using that by (induction s) auto
  have m: "valid_utf8 magnet_a" unfolding magnet_a_def by (rule app [OF _ hex]) auto
  have "eng_Snapshot (lib_engine load dir) hex_a paused_world = Inl (Sentinel EngNotFound)"
    using svc.snapshot_live [of load dir hex_a paused_world] by simp
  then show ?thesis
    using hex m by (simp add: hydrate_def db_a_def newTorrent_def sendable_def int64_def Let_def)
qed

theorem client_Get_system_witness:
  "case rows paused_world (HexString hash_a) of
      None \<Rightarrow> (\<exists>e w'. client_Get no_parse (system_client no_load ''/data'' all_present) background (HexString hash_a)
        paused_world = (Err e, w') \<and> IsNotFound e)
    | Some row \<Rightarrow> (\<exists>w'. client_Get no_parse (system_client no_load ''/data'' all_present) background (HexString hash_a)
        paused_world = (Ok (fromAPI (newTorrent (hydrate (service no_load ''/data'') row paused_world))), w'))"
  by (rule client_Get_system) (auto simp: hex_a_def [symmetric] sendable_a)

text \<open>C10: End to end, \<open>List\<close> of the HTTP client returns every managed torrent exactly once.\<close>

theorem client_List_system:
  assumes "db_inv w" "svc_List (service load dir) c w = (Ok ts, v)"
    "\<forall>t \<in> set ts. sendable (newTorrent t)"
  shows "\<exists>cs w'. client_List general (system_client load dir rq) c w = (Ok cs, w') \<and>
    distinct (map ct_InfoHash cs) \<and>
    (\<forall>t. t \<in> set cs \<longleftrightarrow>
       (\<exists>h row. rows w h = Some row \<and> t = fromAPI (newTorrent (hydrate (service load dir) row w))))"
proof -
  have l: "as_List (ApiService_value (service load dir)) c w = (Ok ts, v)" using assms(2) by simp
  note r = svc.List_result [OF assms(1,2)]
  have key: "map ct_InfoHash (map (fromAPI \<circ> newTorrent) ts) = map InfoHash ts"
    by (simp add: fromAPI_def newTorrent_def)
  have "t \<in> set (map (fromAPI \<circ> newTorrent) ts) \<longleftrightarrow>
      (\<exists>h row. rows w h = Some row \<and> t = fromAPI (newTorrent (hydrate (service load dir) row w)))" for t
    using r by (auto simp: image_iff) blast
  moreover have "distinct (map ct_InfoHash (map (fromAPI \<circ> newTorrent) ts))" unfolding key using r by simp
  ultimately show ?thesis
    using client_List_local [OF l, of general rq] assms(3) unfolding system_client_def by blast
qed

theorem client_List_system_witness:
  "\<exists>ts v. svc_List (service no_load ''/data'') background paused_world = (Ok ts, v) \<and>
    (\<exists>cs w'. client_List no_parse (system_client no_load ''/data'' all_present) background paused_world = (Ok cs, w') \<and>
      distinct (map ct_InfoHash cs) \<and>
      (\<forall>t. t \<in> set cs \<longleftrightarrow> (\<exists>h row. rows paused_world h = Some row \<and>
         t = fromAPI (newTorrent (hydrate (service no_load ''/data'') row paused_world)))))"
proof -
  obtain rs v where "List background paused_world = (Ok rs, v)"
    using store.list_works [OF db_inv_samples(3) healthy_samples(3)] by blast
  then have l: "svc_List (service no_load ''/data'') background paused_world =
      (Ok (map (\<lambda>row. hydrate (service no_load ''/data'') row v) rs), v)" by (simp add: svc_List_def)
  have "sendable (newTorrent t)" if "t \<in> set (map (\<lambda>row. hydrate (service no_load ''/data'') row v) rs)" for t
  proof -
    from that svc.List_result [OF db_inv_samples(3) l, THEN conjunct2, rule_format, of t]
    have "\<exists>h row. rows paused_world h = Some row \<and> t = hydrate (service no_load ''/data'') row paused_world"
      by (rule iffD1 [rotated])
    then obtain h row where row: "rows paused_world h = Some row"
      and t: "t = hydrate (service no_load ''/data'') row paused_world" by (elim exE conjE)
    from row have "row = db_a True" by (simp split: if_splits)
    then show ?thesis unfolding t by (simp only: sendable_a)
  qed
  with client_List_system [OF db_inv_samples(3) l, of no_parse all_present] l show ?thesis by blast
qed

text \<open>C2: End to end, a \<open>Remove\<close> of the HTTP client that reports success has removed the torrent: its row, its
  entry in the engine and its piece completions, and nothing else; one that reports an error has
  touched no other torrent, and the error is a response of the server.\<close>

theorem client_Remove_system:
  assumes "db_inv w" "lib_inv w" "wf_hash k"
  shows "case client_Remove (system_client load dir rq) c (HexString k) deleteFiles w of
      (Ok _, w') \<Rightarrow>
        rows w (HexString k) \<noteq> None \<and> rows w' = (rows w)(HexString k := None) \<and>
        lib_live w' = (lib_live w)(k := None) \<and> piece_rows w' = without_hash (HexString k) (piece_rows w)
    | (Err e, w') \<Rightarrow>
        (IsNotFound e \<or> has_status StatusInternalServerError e) \<and>
        (\<forall>j. j \<noteq> HexString k \<longrightarrow> rows w' j = rows w j) \<and> (\<forall>j. j \<noteq> k \<longrightarrow> lib_live w' j = lib_live w j)
    | _ \<Rightarrow> False"
proof -
  have h: "hash_segment (HexString k)" using hash_segment_HexString wf_hash_not_Nil assms(3) by blast
  obtain r w' where run: "svc_Remove (service load dir) c (HexString k) deleteFiles w = (r, w')" by force
  note f = svc.Remove_effect [OF assms(1,2) FromHexString_HexString [OF assms(3)] run]
  have "as_Remove (ApiService_value (service load dir)) c (HexString k) deleteFiles w = (r, w')" using run by simp
  from client_Remove_local [OF h this, of rq] f
  have c: "client_Remove (system_client load dir rq) c (HexString k) deleteFiles w =
      (hash_outcome ''remove'' (HexString k) r, w')" by (simp add: system_client_def)
  from f have "returns r" by simp
  then show ?thesis
  proof (cases rule: returnsE)
    case (1 a)
    with f show ?thesis unfolding c by (simp add: hash_outcome_def)
  next
    case (2 e)
    have "rows w' j = rows w j" if "j \<noteq> HexString k" for j using f that by auto
    moreover have "lib_live w' j = lib_live w j" if "j \<noteq> k" for j using f that by auto
    ultimately show ?thesis unfolding c using 2
      by (simp add: hash_outcome_def hash_failure_def IsNotFound_def has_status_def)
  qed
qed

theorem client_Remove_system_witness:
  "case client_Remove (system_client no_load ''/data'' all_present) background (HexString hash_a) True running_world of
      (Ok _, w') \<Rightarrow>
        rows running_world (HexString hash_a) \<noteq> None \<and> rows w' = (rows running_world)(HexString hash_a := None) \<and>
        lib_live w' = (lib_live running_world)(hash_a := None) \<and>
        piece_rows w' = without_hash (HexString hash_a) (piece_rows running_world)
    | (Err e, w') \<Rightarrow>
        (IsNotFound e \<or> has_status StatusInternalServerError e) \<and>
        (\<forall>j. j \<noteq> HexString hash_a \<longrightarrow> rows w' j = rows running_world j) \<and>
        (\<forall>j. j \<noteq> hash_a \<longrightarrow> lib_live w' j = lib_live running_world j)
    | _ \<Rightarrow> False"
  by (rule client_Remove_system) simp_all

text \<open>End to end, an \<open>AddMagnet\<close> of the HTTP client whose torrent the engine accepts under hash \<open>h\<close>: a torrent
  that is not managed comes back with the magnet, label and target directory of the call, not paused,
  and its row is stored; a torrent that is managed already is reported by an error that \<open>IsConflict\<close>
  recognises, and no row changes.\<close>

theorem client_AddMagnet_system:
  assumes "db_inv w" "lib_inv w" "healthy c w" "eng_AddMagnet (lib_engine load dir) c uri w = (Ok h, v)"
    "valid_utf8 uri" "valid_utf8 lbl" "valid_utf8 tdir" "rq [(''magnet'', uri)] = None"
    "\<forall>t w'. svc_AddMagnet (service load dir) c uri \<lparr>opt_Label = lbl, opt_TargetDir = tdir\<rparr> w = (Ok t, w') \<longrightarrow>
       sendable (newTorrent t)"
  shows "case client_AddMagnet general (system_client load dir rq) c uri lbl tdir w of
      (Ok t, w') \<Rightarrow>
        rows w h = None \<and> ct_InfoHash t = h \<and> ct_Magnet t = uri \<and> ct_Label t = lbl \<and> ct_TargetDir t = tdir \<and>
        \<not> ct_Paused t \<and> (\<exists>row. rows w' = (rows w)(h \<mapsto> row) \<and> db_Magnet row = uri \<and> \<not> db_Paused row)
    | (Err e, w') \<Rightarrow> rows w h \<noteq> None \<and> IsConflict e \<and> rows w' = rows w
    | _ \<Rightarrow> False"
proof -
  let ?o = "\<lparr>opt_Label = lbl, opt_TargetDir = tdir\<rparr>"
  obtain r w' where run: "svc_AddMagnet (service load dir) c uri ?o w = (r, w')" by force
  have eng: "te_AddMagnet (engine (service load dir)) c uri w = (Ok h, v)" using assms(4) by simp
  note o = svc.AddMagnet_decided [OF assms(1,2) eng assms(3), of ?o, unfolded run prod.case]
  have ret: "returns r" using o by (cases r) simp_all
  have ok: "sendable (newTorrent t)" if "r = Ok t" for t using assms(9) run that by blast
  have "as_AddMagnet (ApiService_value (service load dir)) c uri ?o w = (r, w')" using run by simp
  from client_AddMagnet_local [where rq = rq and general = general, OF this ret assms(5-8)] ok
  have cl: "client_AddMagnet general (system_client load dir rq) c uri lbl tdir w =
    (case r of Ok t \<Rightarrow> Ok (fromAPI (newTorrent t))
     | Err e \<Rightarrow> Err (if errors_is e SvcTorrentAlreadyExists
          then ErrorResponse StatusConflict (unquote (quoted ''torrent already exists''))
          else ErrorResponse StatusInternalServerError (unquote (quoted (''failed to add torrent: '' @ error_msg e)))), w')"
    by (simp only: system_client_def)
  from ret show ?thesis
  proof (cases rule: returnsE)
    case (1 t)
    with o show ?thesis unfolding cl by (simp add: fromAPI_def newTorrent_def)
  next
    case (2 e)
    with o show ?thesis unfolding cl by (simp add: IsConflict_def has_status_def)
  qed
qed

lemma valid_utf8_samples: "valid_utf8 magnet_a" "valid_utf8 hex_a"
proof -
  show hex: "valid_utf8 hex_a" unfolding hex_a_def
    using set_HexString [of _ hash_a] by (intro valid_utf8_ascii) fastforce
  have app: "valid_utf8 (s @ t)" if "\<And>c. c \<in> set s \<Longrightarrow> byte c < 128" "valid_utf8 t" for s t
    using that by (induction s) auto
  show "valid_utf8 magnet_a" unfolding magnet_a_def by (rule app [OF _ hex]) auto
qed

theorem client_AddMagnet_system_witness:
  "\<exists>v. eng_AddMagnet (lib_engine no_load ''/data'') background magnet_a paused_world = (Ok hex_a, v) \<and>
    (case client_AddMagnet no_parse (system_client no_load ''/data'' all_present) background magnet_a ''films'' ''/data''
        paused_world of
      (Ok t, w') \<Rightarrow>
        rows paused_world hex_a = None \<and> ct_InfoHash t = hex_a \<and> ct_Magnet t = magnet_a \<and> ct_Label t = ''films'' \<and>
        ct_TargetDir t = ''/data'' \<and> \<not> ct_Paused t \<and>
        (\<exists>row. rows w' = (rows paused_world)(hex_a \<mapsto> row) \<and> db_Magnet row = magnet_a \<and> \<not> db_Paused row)
    | (Err e, w') \<Rightarrow> rows paused_world hex_a \<noteq> None \<and> IsConflict e \<and> rows w' = rows paused_world
    | _ \<Rightarrow> False)"
proof -
  obtain v where add: "eng_AddMagnet (lib_engine no_load ''/data'') background magnet_a paused_world = (Ok hex_a, v)"
    using AddMagnet_sample(1) [OF sample_env_worlds(2)] by auto
  then have eng: "te_AddMagnet (engine (service no_load ''/data'')) background magnet_a paused_world = (Ok hex_a, v)"
    by simp
  let ?o = "\<lparr>opt_Label = ''films'', opt_TargetDir = ''/data''\<rparr>"
  have no: "\<forall>t w'. svc_AddMagnet (service no_load ''/data'') background magnet_a ?o paused_world = (Ok t, w') \<longrightarrow>
      sendable (newTorrent t)"
    using svc.AddMagnet_decided [OF db_inv_samples(3) lib_inv_samples(3) eng healthy_samples(3), of ?o]
    by (cases "svc_AddMagnet (service no_load ''/data'') background magnet_a ?o paused_world") auto
  have ne: "all_present [(''magnet'', magnet_a)] = None" by (simp add: all_present_def magnet_a_def)
  have u: "valid_utf8 ''films''" "valid_utf8 ''/data''" by (rule valid_utf8_ascii; auto)+
  show ?thesis
    by (rule exI [of _ v], rule conjI [OF add],
        rule client_AddMagnet_system [where rq = all_present, OF db_inv_samples(3) lib_inv_samples(3) healthy_samples(3) add
          valid_utf8_samples(1) u ne no])
qed

text \<open>End to end, \<open>Pause\<close> of the HTTP client on a managed torrent succeeds, stops that torrent and no other
  and marks its row as paused; on a hash that is not managed it reports an error that \<open>IsNotFound\<close>
  recognises.\<close>

theorem client_Pause_system:
  assumes "db_inv w" "lib_inv w" "healthy c w" "wf_hash k"
  shows "case rows w (HexString k) of
      None \<Rightarrow> (\<exists>e w'. client_Pause (system_client load dir rq) c (HexString k) w = (Err e, w') \<and> IsNotFound e \<and>
        rows w' = rows w)
    | Some t \<Rightarrow> (\<exists>w'. client_Pause (system_client load dir rq) c (HexString k) w = (Ok (), w') \<and>
        lib_live w' = (lib_live w)(k := None) \<and> (\<forall>j. j \<noteq> HexString k \<longrightarrow> rows w' j = rows w j) \<and>
        (\<exists>t'. rows w' (HexString k) = Some t' \<and> db_Paused t' \<and> db_Magnet t' = db_Magnet t))"
proof -
  let ?s = "service load dir" and ?h = "HexString k"
  have h: "hash_segment ?h" using hash_segment_HexString wf_hash_not_Nil assms(4) by blast
  have k: "FromHexString ?h = Inr k" using FromHexString_HexString assms(4) .
  have client: "client_Pause (system_client load dir rq) c ?h w = (hash_outcome ''pause'' ?h r, w')"
    if "svc_Pause ?s c ?h w = (r, w')" "returns r" for r w'
    using client_toggle_local [OF h, where verb = "''pause''" and s = "ApiService_value ?s" and
        f = "api_Pause (ApiService_value ?s)" and g = "as_Pause (ApiService_value ?s)"] that
    by (simp add: client_Pause_def system_client_def)
  show ?thesis
  proof (cases "rows w ?h")
    case None
    obtain w' where "svc_Pause ?s c ?h w = (Err (Sentinel SvcTorrentNotFound), w')" "rows w' = rows w"
      using svc.Pause_missing [OF assms(1-3) k None] by blast
    with client None show ?thesis
      by (auto simp: hash_outcome_def hash_failure_def IsNotFound_def has_status_def)
  next
    case (Some t)
    obtain w' u u' where p: "svc_Pause ?s c ?h w = (Ok (), w')" "lib_live w' = (lib_live w)(k := None)"
      "rows w' = (rows w)(?h \<mapsto> with_paused True u
         (case lib_live w k of None \<Rightarrow> t | Some p \<Rightarrow> with_bytes (pr_BytesCompleted p) u' t))"
      using svc.Pause_result [OF assms(1-3) k Some] by blast
    have "db_Paused (with_paused True u t') \<and> db_Magnet (with_paused True u t') = db_Magnet t'"
      "db_Magnet (with_bytes n u' t) = db_Magnet t" for t' n by (simp_all add: with_paused_def with_bytes_def)
    with client [OF p(1)] p(2,3) Some show ?thesis
      by (simp add: hash_outcome_def split: option.split)
  qed
qed

theorem client_Pause_system_witness:
  "case rows running_world (HexString hash_a) of
      None \<Rightarrow> (\<exists>e w'. client_Pause (system_client no_load ''/data'' all_present) background (HexString hash_a)
        running_world = (Err e, w') \<and> IsNotFound e \<and> rows w' = rows running_world)
    | Some t \<Rightarrow> (\<exists>w'. client_Pause (system_client no_load ''/data'' all_present) background (HexString hash_a)
        running_world = (Ok (), w') \<and>
        lib_live w' = (lib_live running_world)(hash_a := None) \<and>
        (\<forall>j. j \<noteq> HexString hash_a \<longrightarrow> rows w' j = rows running_world j) \<and>
        (\<exists>t'. rows w' (HexString hash_a) = Some t' \<and> db_Paused t' \<and> db_Magnet t' = db_Magnet t))"
  by (rule client_Pause_system) simp_all

text \<open>End to end, a \<open>Resume\<close> of the HTTP client on a managed torrent that ends at all: success means the
  torrent its magnet names is running and its row is not paused; failure is reported with the status
  of the server's answer and the row is paused again.\<close>

theorem client_Resume_system:
  assumes "db_inv w" "lib_inv w" "healthy c w" "wf_hash k" "rows w (HexString k) = Some t"
    "svc_Resume (service load dir) c (HexString k) w = (r, w')" "returns r"
  shows "case client_Resume (system_client load dir rq) c (HexString k) w of
      (Ok _, v) \<Rightarrow> \<exists>j t'. magnet_hash w (db_Magnet t) = Some j \<and> lib_live v j \<noteq> None \<and>
        rows v (HexString k) = Some t' \<and> \<not> db_Paused t'
    | (Err e, v) \<Rightarrow> (has_status StatusInternalServerError e \<or> IsNotFound e) \<and> (\<exists>t'. rows v (HexString k) = Some t' \<and> db_Paused t')
    | _ \<Rightarrow> False"
proof -
  let ?s = "service load dir" and ?h = "HexString k"
  have h: "hash_segment ?h" using hash_segment_HexString wf_hash_not_Nil assms(4) by blast
  have client: "client_Resume (system_client load dir rq) c ?h w = (hash_outcome ''resume'' ?h r, w')"
    using client_toggle_local [OF h, where verb = "''resume''" and s = "ApiService_value ?s" and
        f = "api_Resume (ApiService_value ?s)" and g = "as_Resume (ApiService_value ?s)"] assms(6,7)
    by (simp add: client_Resume_def system_client_def)
  from assms(7) show ?thesis
  proof (cases rule: returnsE)
    case (1 a)
    with svc.Resume_started [OF assms(1-3,5), of load dir w'] assms(6) show ?thesis
      unfolding client by (simp add: hash_outcome_def)
  next
    case (2 e)
    from svc.Resume_rolled_back [OF assms(1-3,5), of load dir e w'] assms(6) 2
    obtain d t' where d: "e = Errorf ''failed to re-add torrent to engine: '' d []"
        "rows w' ?h = Some t'" "db_Paused t'" by blast
    show ?thesis unfolding client using 2 d by (simp add: hash_outcome_def hash_failure_def IsNotFound_def has_status_def)
  qed
qed

theorem client_Resume_system_witness:
  "\<exists>w'. svc_Resume (service no_load ''/data'') background (HexString hash_a) paused_world = (Ok (), w') \<and>
    (case client_Resume (system_client no_load ''/data'' all_present) background (HexString hash_a) paused_world of
      (Ok _, v) \<Rightarrow> \<exists>j t'. magnet_hash paused_world (db_Magnet (db_a True)) = Some j \<and> lib_live v j \<noteq> None \<and>
        rows v (HexString hash_a) = Some t' \<and> \<not> db_Paused t'
    | (Err e, v) \<Rightarrow> (has_status StatusInternalServerError e \<or> IsNotFound e) \<and>
        (\<exists>t'. rows v (HexString hash_a) = Some t' \<and> db_Paused t')
    | _ \<Rightarrow> False)"
proof -
  obtain w' where run: "svc_Resume (service no_load ''/data'') background (HexString hash_a) paused_world = (Ok (), w')"
    using Resume_sample(1) unfolding hex_a_def by blast
  have row: "rows paused_world (HexString hash_a) = Some (db_a True)" by (simp add: hex_a_def)
  show ?thesis
    by (rule exI [of _ w'], rule conjI [OF run],
        rule client_Resume_system [OF db_inv_samples(3) lib_inv_samples(3) healthy_samples(3) wf_sample(1) row run]) simp
qed

section \<open>Messages\<close>

text \<open>C11: Round trip of the API's messages: the JSON text the server writes for one torrent or for a list of
  torrents is read by the client as the same torrents, every field included, when the strings are
  valid UTF-8 and the numbers and times fit.\<close>

theorem api_messages_roundtrip:
  assumes "\<forall>t \<in> set ts. sendable t" "sendable t"
  shows "\<exists>v vs. torrent_response t = Some v \<and> list_response ts = Some vs \<and>
    decode_into (store_response s general) zero_torrent (json_Encode v) = Inr t \<and>
    decode_into (store_list_response general) [] (json_Encode vs) = Inr ts"
proof -
  obtain v where v: "torrent_response t = Some v"
    using torrent_json_sendable [OF assms(2)] by (simp add: torrent_response_def)
  obtain vs where vs: "list_response ts = Some vs"
    using those_torrent_json assms(1) by (auto simp: list_response_def)
  from v vs decode_torrent_response [OF assms(2) v, of s general] decode_list_response [OF _ vs, of general] assms(1)
  show ?thesis by blast
qed

theorem api_messages_roundtrip_witness:
  "\<exists>v vs. torrent_response (newTorrent (hydrate (service no_load ''/data'') (db_a True) paused_world)) = Some v \<and>
    list_response [newTorrent (hydrate (service no_load ''/data'') (db_a True) paused_world)] = Some vs \<and>
    decode_into (store_response ''GetTorrentResponse'' no_parse) zero_torrent (json_Encode v) =
      Inr (newTorrent (hydrate (service no_load ''/data'') (db_a True) paused_world)) \<and>
    decode_into (store_list_response no_parse) [] (json_Encode vs) =
      Inr [newTorrent (hydrate (service no_load ''/data'') (db_a True) paused_world)]"
  by (rule api_messages_roundtrip) (simp_all only: sendable_a list.set insert_iff empty_iff ball_simps simp_thms)

text \<open>Reading JSON always ends: on every input the decoder's fuel of three steps per byte is enough, so
  \<open>json_Decode\<close> gives a value or one of Go's error messages and never runs out.\<close>

theorem json_Decode_total:
  "parse_value (3 * length s + 3) 0 s \<noteq> NoFuel \<and>
   json_Decode s = (if skip_space s = [] then Inl ''EOF''
     else case parse_value (3 * length s + 3) 0 s of Parsed v r \<Rightarrow> Inr v | Reject m \<Rightarrow> Inl m)"
  using parse_fuel [of s "3 * length s + 3" 0]
  by (cases "parse_value (3 * length s + 3) 0 s") (auto simp: json_Decode_def)

section \<open>The handler\<close>

text \<open>C12: No request takes the server down: whatever the handlers do, the served handler never panics. A panic
  before anything was written is answered with status 500; after a status was written the answer keeps
  that status, and the log says 500. Every request that ends is logged once.\<close>

theorem full_handler_no_panic:
  "fst (full_handler s rq h static r resp w) \<noteq> Panic p \<and>
   (case serve_mux (routes s rq h static) r (fresh_response\<lparr>rw_logged := StatusOK\<rparr>) w0 of
      (Panic q, resp', w') \<Rightarrow>
        (\<exists>out. full_handler s rq h static r fresh_response (w0, log) = (Ok (), out, w', log @ [StatusInternalServerError]) \<and>
           sent_status out = (case rw_status resp' of None \<Rightarrow> StatusInternalServerError | Some st \<Rightarrow> st))
    | (Ok u, resp', w') \<Rightarrow>
        full_handler s rq h static r fresh_response (w0, log) = (Ok u, resp', w', log @ [rw_logged resp'])
    | (Err e, resp', w') \<Rightarrow> full_handler s rq h static r fresh_response (w0, log) = (Err e, resp', w', log)
    | (Hang, resp', w') \<Rightarrow> full_handler s rq h static r fresh_response (w0, log) = (Hang, resp', w', log))"
proof -
  have "fst (Logging (Recovery g) r resp w) \<noteq> Panic p" for g :: "'a handler"
    using Recovery_no_panic [of g r "resp\<lparr>rw_logged := StatusOK\<rparr>" "fst w" p]
    by (auto simp: Logging_def split: prod.splits res.splits)
  then show ?thesis
    by (auto simp: full_handler_def Logging_def Recovery_def sent_status_def split: prod.split res.split option.split)
qed

section \<open>Starting and stopping\<close>

text \<open>C13: What \<open>Run\<close> opens it closes, in the reverse order: whatever fails on the way, \<open>Run\<close> returns with the
  database and the torrent client closed exactly when they were opened, the client before the
  database, and nothing is served after a failure.\<close>

theorem Run_closes_what_it_opened:
  "\<exists>r es. Run (trace_env f (Some outcomes)) c config [] = (r, es) \<and> returns r \<and>
    es \<in> {[], [OpenDb, CloseDb], [OpenDb, OpenClient, CloseClient, CloseDb],
          [OpenDb, OpenClient, Serve, CloseClient, CloseDb]}"
  using Run_closes unfolding closed_trace_def .

text \<open>C34: The validation of the configuration: it is accepted exactly when the address and the directory are
  given and the level, in lower case, is one of the four; the defaults are always accepted; but a file
  that leaves a value out is refused, since \<open>LoadConfig\<close> starts from empty values and not from the
  defaults. The empty file is the example here.\<close>

theorem configuration_validity:
  "(config_Validate c = None \<longleftrightarrow> Address (HTTP c) \<noteq> [] \<and> Directory (Data c) \<noteq> [] \<and>
      strings_ToLower (Level (LoggingOf c)) \<in> {''debug'', ''info'', ''warn'', ''error''}) \<and>
   config_Validate (DefaultConfig home) = None \<and>
   map_sum id config_Validate (LoadConfig (\<lambda>path cfg. Inr cfg) path) \<noteq> Inr None"
proof -
  have "config_Validate zero_config \<noteq> None" unfolding config_Validate_None by (simp add: zero_config_def)
  then show ?thesis by (auto simp: config_Validate_None DefaultConfig_valid LoadConfig_def)
qed

section \<open>The hash in the client's address\<close>

text \<open>C38: The client puts the hash into the address without escaping it: a \<open>Remove\<close> that does not ask for the
  files to be deleted, of a "hash" that ends in a query, is the same request as a \<open>Remove\<close> that does.\<close>

theorem client_Remove_query:
  assumes "plain_component h"
  shows "client_Remove cl c (h @ ''?files=true'') False w = client_Remove cl c h True w"
proof -
  have j: "path_Join [api_path, x] = abs_path [''api'', ''v1'', ''torrents'', x]" if "plain_component x" for x
    using Clean_abs_path [of "[''api'', ''v1'', ''torrents'', x]"] that by (simp add: path_Join_def api_path_def)
  have "plain_component (h @ ''?files=true'')" using assms by (auto simp: plain_component_def append_eq_Cons_conv)
  then have "path_Join [api_path, h @ ''?files=true''] = path_Join [api_path, h] @ ''?files=true''"
    using j assms by simp
  then show ?thesis by (simp add: client_Remove_def)
qed

theorem client_Remove_query_witness:
  "client_Remove (system_client no_load ''/data'' all_present) background (''abc'' @ ''?files=true'') False empty_world =
   client_Remove (system_client no_load ''/data'' all_present) background ''abc'' True empty_world"
  by (rule client_Remove_query) (simp add: plain_component_def)

section \<open>Pages\<close>

text \<open>Sizes for people: for every size of at least one kibibyte that fits 64 bits, the loop of \<open>humanBytes\<close>
  ends with a divisor that is the largest power of 1024 not above the size, and the unit it picks is
  one of the six letters, so the index never runs out of the table.\<close>

theorem humanBytes_unit:
  assumes "1024 \<le> n" "n < 2 ^ 63"
  shows "\<exists>ex. ex < length ''KMGTPE'' \<and> 1024 ^ (ex + 1) \<le> n \<and> n < 1024 ^ (ex + 2) \<and>
    humanBytes rt n = sprintf_f rt 1 (F_div (F_int n) (F_int (1024 ^ (ex + 1)))) @ '' '' @ [''KMGTPE'' ! ex] @ ''iB''"
proof -
  obtain dv ex where l: "human_loop (n div 1024) 1024 0 = (dv, ex)" by force
  from human_loop_int64 [OF assms l] have "ex < 6" "dv = 1024 ^ (ex + 1)" "dv \<le> n" "n < dv * 1024" by auto
  with l assms(1) show ?thesis by (intro exI [of _ ex]) (simp add: humanBytes_def)
qed

definition plain_templ :: templ_runtime where
  "plain_templ =
     \<lparr>EscapeString = (\<lambda>s. filter (\<lambda>c. c \<noteq> CHR ''<'' \<and> c \<noteq> CHR ''>'') s),
      ResolveAttributeValue = (\<lambda>s. filter (\<lambda>c. c \<noteq> CHR ''<'' \<and> c \<noteq> CHR ''>'') s),
      CSSClasses = (\<lambda>s. s), SanitizeStyleAttributeValues = (\<lambda>s. s),
      RenderAttributes = (\<lambda>_. []), sprintf_f = (\<lambda>_ _. ''0'')\<rparr>"

theorem humanBytes_unit_witness:
  "\<exists>ex. ex < length ''KMGTPE'' \<and> (1024::int) ^ (ex + 1) \<le> 5000000 \<and> (5000000::int) < 1024 ^ (ex + 2) \<and>
    humanBytes plain_templ 5000000 =
      sprintf_f plain_templ 1 (F_div (F_int 5000000) (F_int (1024 ^ (ex + 1)))) @ '' '' @ [''KMGTPE'' ! ex] @ ''iB''"
  by (rule humanBytes_unit) simp_all

text \<open>C33: No text of a user opens or closes a tag: with an escaping runtime, the tags of a torrent's row are the
  same for any two torrents that agree on whether a label and a length are there, and the tags of the
  page that adds a torrent depend only on which source is chosen and on whether an error is shown.\<close>

theorem pages_markup:
  assumes "escapes rt"
    "(Label t = []) = (Label t' = [])" "(Length t > 0) = (Length t' > 0)"
    "sourceOrDefault (nv_Source m) = sourceOrDefault (nv_Source m')" "(nv_Error m = []) = (nv_Error m' = [])"
  shows "markup (render_html rt (TorrentRow rt t)) = markup (render_html rt (TorrentRow rt t')) \<and>
    markup (render_html rt (newContent m)) = markup (render_html rt (newContent m'))"
  using skeleton_markup [OF assms(1) skeleton_TorrentRow [OF assms(2,3)]]
    skeleton_markup [OF assms(1) skeleton_newContent [OF assms(4,5)]] by blast

lemma escapes_plain: "escapes plain_templ"
  by (auto simp: escapes_def plain_templ_def markup_def filter_empty_conv)

definition sample_torrent :: "string \<Rightarrow> Torrent" where
  "sample_torrent n = (hydrate (service no_load ''/data'') (db_a True) paused_world)\<lparr>Name := n\<rparr>"

theorem pages_markup_witness:
  "markup (render_html plain_templ (TorrentRow plain_templ (sample_torrent ''film''))) =
     markup (render_html plain_templ (TorrentRow plain_templ (sample_torrent ''<script>''))) \<and>
   markup (render_html plain_templ (newContent zero_model)) =
     markup (render_html plain_templ (newContent (zero_model\<lparr>nv_Magnet := ''<b>''\<rparr>)))"
  by (rule pages_markup [OF escapes_plain]) (simp_all add: sample_torrent_def zero_model_def)

text \<open>C37: The pages do not tell a missing torrent from a failure: for a torrent that is not managed the API
  and the page of the torrent answer 404, while the fragment of its details and its deletion answer 500.\<close>

theorem ui_missing_torrent:
  assumes "db_inv w" "healthy (req_ctx r) w" "rows w hash = None"
    "th_torrents h = UiService_value (service load dir)"
  shows "sent_status (fst (snd (api_Get (ApiService_value (service load dir)) hash r fresh_response w))) = StatusNotFound \<and>
    sent_status (fst (snd (ui_Show h hash r fresh_response w))) = StatusNotFound \<and>
    sent_status (fst (snd (ui_Detail h hash r fresh_response w))) = StatusInternalServerError \<and>
    sent_status (fst (snd (ui_Delete h hash r fresh_response w))) = StatusInternalServerError"
proof -
  obtain w' where get: "svc_Get (service load dir) (req_ctx r) hash w = (Err (Sentinel SvcTorrentNotFound), w')"
    using svc.Get_result [OF assms(1,2), of load dir hash] assms(3) by auto
  have "\<exists>w''. svc_Remove (service load dir) (req_ctx r) hash b w = (Err (Sentinel SvcTorrentNotFound), w'')" for b
    using svc.Remove_missing [OF assms(1-3)] by blast
  then obtain w'' where rem: "svc_Remove (service load dir) (req_ctx r) hash (query_Get r ''files'' = ''true'') w =
      (Err (Sentinel SvcTorrentNotFound), w'')" by blast
  show ?thesis
    using get rem by (simp add: ui_Show_def ui_Detail_def ui_Delete_def api_Get_def hash_error_def assms(4)
        UiService_value_def sent_status_def)
qed

definition sample_handler :: "world TorrentHandler" where
  "sample_handler =
     \<lparr>th_torrents = UiService_value (service no_load ''/data''), th_clock = tick, th_templ = plain_templ,
      th_scripts = \<lparr>script_DeleteDialog = [], script_Selection = [], script_DeleteDetail = [], script_AddTorrent = []\<rparr>\<rparr>"

definition sample_request :: Request where
  "sample_request = make_request background ''GET'' ''/torrents/abc'' [] NoBody"

theorem ui_missing_torrent_witness:
  "sent_status (fst (snd (api_Get (ApiService_value (service no_load ''/data'')) hex_a sample_request fresh_response empty_world))) =
     StatusNotFound \<and>
   sent_status (fst (snd (ui_Show sample_handler hex_a sample_request fresh_response empty_world))) = StatusNotFound \<and>
   sent_status (fst (snd (ui_Detail sample_handler hex_a sample_request fresh_response empty_world))) =
     StatusInternalServerError \<and>
   sent_status (fst (snd (ui_Delete sample_handler hex_a sample_request fresh_response empty_world))) =
     StatusInternalServerError"
  by (rule ui_missing_torrent) (simp_all add: sample_handler_def sample_request_def)

end
