(* ===== verification/PeerProtocol.thy ===== *)
theory PeerProtocol
  imports InfoHash "HOL-Library.Word"
begin

unbundle bit_operations_syntax

text \<open>
  The wire format between peers, \<open>peer_protocol\<close> of the torrent library: messages and their two
  directions (\<open>msg.go\<close>, \<open>decoder.go\<close>, \<open>int.go\<close>, \<open>protocol.go\<close>), the extension bits and the handshake
  (\<open>handshake.go\<close>). Bytes are 8-bit words, \<open>Integer\<close> is a 32-bit word, and the length a message announces
  wraps at 32 bits as the counter of \<open>lengthWriter\<close> does. A source is the list of bytes still to come; the
  reader of one message also counts how many of them belong to the message.
\<close>

type_synonym bytes = "8 word list"
type_synonym Integer = "32 word"
type_synonym MessageType = "8 word"

section \<open>Message types\<close>

abbreviation Choke :: MessageType where "Choke \<equiv> 0"
abbreviation Unchoke :: MessageType where "Unchoke \<equiv> 1"
abbreviation Interested :: MessageType where "Interested \<equiv> 2"
abbreviation NotInterested :: MessageType where "NotInterested \<equiv> 3"
abbreviation Have :: MessageType where "Have \<equiv> 4"
abbreviation Bitfield :: MessageType where "Bitfield \<equiv> 5"
abbreviation RequestType :: MessageType where "RequestType \<equiv> 6"
abbreviation Piece :: MessageType where "Piece \<equiv> 7"
abbreviation Cancel :: MessageType where "Cancel \<equiv> 8"
abbreviation Port :: MessageType where "Port \<equiv> 9"
abbreviation Suggest :: MessageType where "Suggest \<equiv> 13"
abbreviation HaveAll :: MessageType where "HaveAll \<equiv> 14"
abbreviation HaveNone :: MessageType where "HaveNone \<equiv> 15"
abbreviation RejectType :: MessageType where "RejectType \<equiv> 16"
abbreviation AllowedFast :: MessageType where "AllowedFast \<equiv> 17"
abbreviation Extended :: MessageType where "Extended \<equiv> 20"
abbreviation HashRequest :: MessageType where "HashRequest \<equiv> 21"
abbreviation Hashes :: MessageType where "Hashes \<equiv> 22"
abbreviation HashReject :: MessageType where "HashReject \<equiv> 23"

definition FastExtension :: "MessageType \<Rightarrow> bool" where
  "FastExtension mt \<longleftrightarrow> Suggest \<le> mt \<and> mt \<le> AllowedFast"

definition slice :: "string \<Rightarrow> nat list \<Rightarrow> nat \<Rightarrow> string" where
  "slice s index i = take (index ! Suc i - index ! i) (drop (index ! i) s)"

definition MessageType_String :: "MessageType \<Rightarrow> string" where
  "MessageType_String i =
     (if i \<le> 9 then
        slice ''ChokeUnchokeInterestedNotInterestedHaveBitfieldRequestPieceCancelPort''
          [0, 5, 12, 22, 35, 39, 47, 54, 59, 65, 69] (unat i)
      else if 13 \<le> i \<and> i \<le> 17 then
        slice ''SuggestHaveAllHaveNoneRejectAllowedFast'' [0, 7, 14, 22, 28, 39] (unat (i - 13))
      else if 20 \<le> i \<and> i \<le> 23 then
        slice ''ExtendedHashRequestHashesHashReject'' [0, 8, 19, 25, 35] (unat (i - 20))
      else ''MessageType('' @ nat_dec (unat i) @ '')'')"

section \<open>Messages\<close>

record Message =
  m_PiecesRoot :: bytes
  m_Piece :: bytes
  m_Bitfield :: "bool list"
  m_ExtendedPayload :: bytes
  m_Hashes :: "bytes list"
  m_Index :: Integer
  m_Begin :: Integer
  m_Length :: Integer
  m_BaseLayer :: Integer
  m_ProofLayers :: Integer
  m_Port :: "16 word"
  m_Type :: MessageType
  m_ExtendedID :: "8 word"
  m_Keepalive :: bool

definition zero_message :: Message where
  "zero_message =
     \<lparr>m_PiecesRoot = replicate 32 0, m_Piece = [], m_Bitfield = [], m_ExtendedPayload = [], m_Hashes = [],
      m_Index = 0, m_Begin = 0, m_Length = 0, m_BaseLayer = 0, m_ProofLayers = 0, m_Port = 0, m_Type = 0,
      m_ExtendedID = 0, m_Keepalive = False\<rparr>"

definition MakeCancelMessage :: "Integer \<Rightarrow> Integer \<Rightarrow> Integer \<Rightarrow> Message" where
  "MakeCancelMessage piece offset len =
     zero_message\<lparr>m_Type := Cancel, m_Index := piece, m_Begin := offset, m_Length := len\<rparr>"

record RequestSpec =
  rs_Index :: Integer
  rs_Begin :: Integer
  rs_Length :: Integer

definition message_RequestSpec :: "Message \<Rightarrow> RequestSpec" where
  "message_RequestSpec msg =
     \<lparr>rs_Index = m_Index msg, rs_Begin = m_Begin msg,
      rs_Length = (if m_Type msg = Piece then word_of_nat (length (m_Piece msg)) else m_Length msg)\<rparr>"

section \<open>Writing\<close>

text \<open>\<open>binary.Write\<close> with \<open>binary.BigEndian\<close>.\<close>

definition be32 :: "32 word \<Rightarrow> bytes" where
  "be32 x = [ucast (drop_bit 24 x), ucast (drop_bit 16 x), ucast (drop_bit 8 x), ucast x]"

definition be16 :: "16 word \<Rightarrow> bytes" where
  "be16 x = [ucast (drop_bit 8 x), ucast x]"

fun set_bits :: "nat \<Rightarrow> bool list \<Rightarrow> bytes \<Rightarrow> bytes" where
  "set_bits i [] b = b"
| "set_bits i (have # bf) b =
     set_bits (Suc i) bf (if have then b[i div 8 := (b ! (i div 8)) OR push_bit (7 - i mod 8) 1] else b)"

definition marshalBitfield :: "bool list \<Rightarrow> bytes" where
  "marshalBitfield bf = set_bits 0 bf (replicate ((length bf + 7) div 8) 0)"

definition writeHashCommon :: "Message \<Rightarrow> bytes" where
  "writeHashCommon msg =
     m_PiecesRoot msg @ concat (map be32 [m_BaseLayer msg, m_Index msg, m_Length msg, m_ProofLayers msg])"

text \<open>Neither of the two writers the program passes fails: a buffer and a counter. So the only error is an
  unknown message type.\<close>

definition writePayloadTo :: "Message \<Rightarrow> go_error option \<times> bytes" where
  "writePayloadTo msg =
     (let t = m_Type msg in
      if m_Keepalive msg then (None, [])
      else if t \<in> {Choke, Unchoke, Interested, NotInterested, HaveAll, HaveNone} then (None, [t])
      else if t \<in> {Have, AllowedFast, Suggest} then (None, t # be32 (m_Index msg))
      else if t \<in> {RequestType, Cancel, RejectType} then
        (None, t # concat (map be32 [m_Index msg, m_Begin msg, m_Length msg]))
      else if t = Bitfield then (None, t # marshalBitfield (m_Bitfield msg))
      else if t = Piece then (None, t # concat (map be32 [m_Index msg, m_Begin msg]) @ m_Piece msg)
      else if t = Extended then (None, t # m_ExtendedID msg # m_ExtendedPayload msg)
      else if t = Port then (None, t # be16 (m_Port msg))
      else if t \<in> {HashRequest, HashReject} then (None, t # writeHashCommon msg)
      else if t = Hashes then (None, t # writeHashCommon msg @ concat (m_Hashes msg))
      else (Some (ErrorString (''unknown message type: '' @ MessageType_String t)), [t]))"

definition getPayloadLength :: "Message \<Rightarrow> Integer \<times> go_error option" where
  "getPayloadLength msg = (word_of_nat (length (snd (writePayloadTo msg))), fst (writePayloadTo msg))"

definition WriteTo :: "Message \<Rightarrow> go_error option \<times> bytes" where
  "WriteTo msg =
     (case getPayloadLength msg of
        (len, Some err) \<Rightarrow> (Some err, [])
      | (len, None) \<Rightarrow> (let (err, p) = writePayloadTo msg in (err, be32 len @ p)))"

definition MarshalBinary :: "Message \<Rightarrow> go_error option \<times> bytes" where
  "MarshalBinary msg = WriteTo msg"

definition MustMarshalBinary :: "Message \<Rightarrow> bytes res" where
  "MustMarshalBinary msg =
     (case MarshalBinary msg of (Some err, _) \<Rightarrow> Panic (error_msg err) | (None, b) \<Rightarrow> Ok b)"

section \<open>Reading\<close>

text \<open>The reader of one message: the bytes of the source, and how many of them the message still has. A read
  past either end is \<open>io.ErrUnexpectedEOF\<close>; what was there has been read by then.\<close>

type_synonym reader = "bytes \<times> nat"

definition ReadFull :: "bytes \<Rightarrow> reader \<Rightarrow> go_error option \<times> bytes \<times> reader" where
  "ReadFull buf r =
     (let m = min (length buf) (min (length (fst r)) (snd r)) in
      (if m = length buf then None else Some (Sentinel IoUnexpectedEOF),
       take m (fst r) @ drop m buf, (drop m (fst r), snd r - m)))"

definition UnreadLength :: "reader \<Rightarrow> nat" where
  "UnreadLength r = snd r"

definition of_be :: "bytes \<Rightarrow> 'a::len word" where
  "of_be b = foldl (\<lambda>a c. push_bit 8 a OR ucast c) 0 b"

text \<open>\<open>data.Read(r)\<close> for each field in turn, until one fails.\<close>

fun read_fields ::
  "(Integer \<Rightarrow> Message \<Rightarrow> Message) list \<Rightarrow> Message \<Rightarrow> reader \<Rightarrow> go_error option \<times> Message \<times> reader" where
  "read_fields [] msg r = (None, msg, r)"
| "read_fields (f # fs) msg r =
     (case ReadFull (replicate 4 0) r of
        (None, b, r) \<Rightarrow> read_fields fs (f (of_be b) msg) r
      | (Some err, b, r) \<Rightarrow> (Some err, msg, r))"

abbreviation "set_Index x m \<equiv> m\<lparr>m_Index := x\<rparr>"
abbreviation "set_Begin x m \<equiv> m\<lparr>m_Begin := x\<rparr>"
abbreviation "set_Length x m \<equiv> m\<lparr>m_Length := x\<rparr>"
abbreviation "set_BaseLayer x m \<equiv> m\<lparr>m_BaseLayer := x\<rparr>"
abbreviation "set_ProofLayers x m \<equiv> m\<lparr>m_ProofLayers := x\<rparr>"

definition unmarshalBitfield :: "bytes \<Rightarrow> bool list" where
  "unmarshalBitfield b =
     concat (map (\<lambda>c. map (\<lambda>i. drop_bit i c AND 1 = 1) [7, 6, 5, 4, 3, 2, 1, 0]) b)"

definition readHashRequest :: "Message \<Rightarrow> reader \<Rightarrow> go_error option \<times> Message \<times> reader" where
  "readHashRequest msg r =
     (case ReadFull (m_PiecesRoot msg) r of
        (Some err, b, r) \<Rightarrow> (Some err, msg\<lparr>m_PiecesRoot := b\<rparr>, r)
      | (None, b, r) \<Rightarrow>
          read_fields [set_BaseLayer, set_Index, set_Length, set_ProofLayers] (msg\<lparr>m_PiecesRoot := b\<rparr>) r)"

fun read_hashes :: "nat \<Rightarrow> go_error option \<Rightarrow> Message \<Rightarrow> reader \<Rightarrow> go_error option \<times> Message \<times> reader" where
  "read_hashes 0 err msg r = (err, msg, r)"
| "read_hashes (Suc n) err msg r =
     (case ReadFull (replicate 32 0) r of
        (Some err, b, r) \<Rightarrow> (Some (Errorf ''error while reading hashes: '' err []), msg, r)
      | (None, b, r) \<Rightarrow> read_hashes n None (msg\<lparr>m_Hashes := m_Hashes msg @ [b]\<rparr>) r)"

text \<open>\<open>pool\<close> is the slice the piece pool gives out, or \<open>None\<close> when there is no pool. A read that fails half way
  leaves what it read in the front of the buffer.\<close>

definition read_piece :: "bytes option \<Rightarrow> Message \<Rightarrow> reader \<Rightarrow> go_error option \<times> Message \<times> reader" where
  "read_piece pool msg r =
     (case read_fields [set_Index, set_Begin] msg r of
        (Some err, msg, r) \<Rightarrow> (Some err, msg, r)
      | (None, msg, r) \<Rightarrow>
        (let dataLen = UnreadLength r in
         case pool of
           None \<Rightarrow> (let (err, b, r) = ReadFull (replicate dataLen 0) r in (err, msg\<lparr>m_Piece := b\<rparr>, r))
         | Some sl \<Rightarrow>
           if length sl < dataLen then (Some (ErrorString ''piece data longer than expected''), msg\<lparr>m_Piece := sl\<rparr>, r)
           else (let (err, b, r) = ReadFull (take dataLen sl) r in (err, msg\<lparr>m_Piece := b\<rparr>, r))))"

definition readMessageAfterType ::
  "bytes option \<Rightarrow> Message \<Rightarrow> reader \<Rightarrow> go_error option \<times> Message \<times> reader" where
  "readMessageAfterType pool msg r =
     (let t = m_Type msg in
      if t \<in> {Choke, Unchoke, Interested, NotInterested, HaveAll, HaveNone} then (None, msg, r)
      else if t \<in> {Have, AllowedFast, Suggest} then read_fields [set_Index] msg r
      else if t \<in> {RequestType, Cancel, RejectType} then read_fields [set_Index, set_Begin, set_Length] msg r
      else if t = Bitfield then
        (let (err, b, r) = ReadFull (replicate (UnreadLength r) 0) r in (err, msg\<lparr>m_Bitfield := unmarshalBitfield b\<rparr>, r))
      else if t = Piece then read_piece pool msg r
      else if t = Extended then
        (case ReadFull [0] r of
           (Some err, b, r) \<Rightarrow> (Some err, msg, r)
         | (None, b, r) \<Rightarrow>
           (let (err, p, r) = ReadFull (replicate (UnreadLength r) 0) r
            in (err, msg\<lparr>m_ExtendedID := hd b, m_ExtendedPayload := p\<rparr>, r)))
      else if t = Port then
        (case ReadFull (replicate 2 0) r of
           (Some err, b, r) \<Rightarrow> (Some err, msg, r)
         | (None, b, r) \<Rightarrow> (None, msg\<lparr>m_Port := of_be b\<rparr>, r))
      else if t \<in> {HashRequest, HashReject} then readHashRequest msg r
      else if t = Hashes then
        (let (err, msg, r) = readHashRequest msg r;
             numHashes = (UnreadLength r + 31) div 32
         in read_hashes numHashes err (msg\<lparr>m_Hashes := []\<rparr>) r)
      else (Some (ErrorString ''unhandled message type''), msg, r))"

text \<open>\<open>Decode\<close> returns the error, the message as far as it was filled in, and the rest of the source.\<close>

definition Decode :: "Integer \<Rightarrow> bytes option \<Rightarrow> Message \<Rightarrow> bytes \<Rightarrow> go_error option \<times> Message \<times> bytes" where
  "Decode MaxLength pool msg bs =
     (if length bs < 4 then
        (Some (Errorf ''reading message length: '' (Sentinel (if bs = [] then IoEOF else IoUnexpectedEOF)) []), msg, [])
      else
        (let len = of_be (take 4 bs); bs = drop 4 bs in
         if len > MaxLength then (Some (ErrorString ''message too long''), msg, bs)
         else if len = 0 then (None, msg\<lparr>m_Keepalive := True\<rparr>, bs)
         else
           (case ReadFull [0] (bs, unat len) of
              (Some err, c, r) \<Rightarrow> (Some err, msg, fst r)
            | (None, c, r) \<Rightarrow>
              (case readMessageAfterType pool (msg\<lparr>m_Type := hd c\<rparr>) r of
                 (Some err, msg, r) \<Rightarrow>
                   (Some (Errorf (''reading fields for message type '' @ MessageType_String (m_Type msg) @ '': '') err []),
                    msg, fst r)
               | (None, msg, r) \<Rightarrow>
                   (if UnreadLength r \<noteq> 0
                    then Some (ErrorString (nat_dec (UnreadLength r) @ '' unused bytes in message type '' @
                                            MessageType_String (m_Type msg)))
                    else None, msg, fst r)))))"

definition UnmarshalBinary :: "Message \<Rightarrow> bytes \<Rightarrow> go_error option \<times> Message" where
  "UnmarshalBinary msg b =
     (case Decode 0 None msg b of
        (Some err, msg, rest) \<Rightarrow> (Some err, msg)
      | (None, msg, rest) \<Rightarrow>
          (if rest \<noteq> [] then Some (ErrorString (nat_dec (length rest) @ '' trailing bytes'')) else None, msg))"

section \<open>Extension bits\<close>

type_synonym PeerExtensionBits = bytes

text \<open>\<open>None\<close> is the panic of an index out of range.\<close>

definition SetBit :: "nat \<Rightarrow> bool \<Rightarrow> PeerExtensionBits \<Rightarrow> PeerExtensionBits option" where
  "SetBit bt on pex =
     (if 64 \<le> bt then None
      else let i = 7 - bt div 8; m = push_bit (bt mod 8) 1 in
           Some (pex[i := (if on then (pex ! i) OR m else (pex ! i) AND NOT m)]))"

definition GetBit :: "PeerExtensionBits \<Rightarrow> nat \<Rightarrow> bool option" where
  "GetBit pex bt =
     (if 64 \<le> bt then None else Some ((pex ! (7 - bt div 8)) AND push_bit (bt mod 8) 1 \<noteq> 0))"

fun set_all :: "nat list \<Rightarrow> PeerExtensionBits \<Rightarrow> PeerExtensionBits option" where
  "set_all [] ret = Some ret"
| "set_all (b # bs) ret = Option.bind (SetBit b True ret) (set_all bs)"

definition NewPeerExtensionBytes :: "nat list \<Rightarrow> PeerExtensionBits option" where
  "NewPeerExtensionBytes bits = set_all bits (replicate 8 0)"

definition SupportsExtended :: "PeerExtensionBits \<Rightarrow> bool" where
  "SupportsExtended pex = (GetBit pex 20 = Some True)"

definition SupportsDHT :: "PeerExtensionBits \<Rightarrow> bool" where
  "SupportsDHT pex = (GetBit pex 0 = Some True)"

definition SupportsFast :: "PeerExtensionBits \<Rightarrow> bool" where
  "SupportsFast pex = (GetBit pex 2 = Some True)"

section \<open>The handshake\<close>

definition Protocol :: bytes where
  "Protocol = map (\<lambda>c. word_of_nat (of_char c)) (CHR 0x13 # ''BitTorrent protocol'')"

record HandshakeResult =
  hr_PeerExtensionBits :: PeerExtensionBits
  hr_PeerID :: bytes
  hr_Hash :: bytes

text \<open>What was posted to the writing goroutine comes back beside the result; \<open>write_err\<close> is what that goroutine
  reports in the end, and \<open>read_err\<close> what reading 68 bytes fails with when the peer sends fewer.\<close>

definition Handshake ::
  "go_error option \<Rightarrow> go_error \<Rightarrow> bytes option \<Rightarrow> bytes \<Rightarrow> PeerExtensionBits \<Rightarrow> bytes \<Rightarrow>
   (go_error + HandshakeResult) \<times> bytes" where
  "Handshake write_err read_err ih peerID extensions input =
     (let posted = Protocol @ extensions @ (case ih of None \<Rightarrow> [] | Some h \<Rightarrow> h @ peerID) in
      if length input < 68 then (Inl (Errorf ''while reading: '' read_err []), posted)
      else
        (let b = take 68 input; p = take 20 b in
         if p \<noteq> Protocol then
           (Inl (ErrorString (''unexpected protocol string '' @ go_quote (map (\<lambda>c. char_of (unat c)) p))), posted)
         else
           (let res = \<lparr>hr_PeerExtensionBits = take 8 (drop 20 b), hr_PeerID = drop 48 b, hr_Hash = take 20 (drop 28 b)\<rparr>;
                posted = posted @ (case ih of None \<Rightarrow> hr_Hash res @ peerID | Some h \<Rightarrow> [])
            in case write_err of
                 None \<Rightarrow> (Inr res, posted)
               | Some err \<Rightarrow> (Inl (Errorf ''error writing: '' err []), posted))))"

section \<open>Integers on the wire\<close>

lemma of_be32: "of_be (be32 x) = x"
proof (rule bit_word_eqI)
  fix n :: nat
  assume n: "n < LENGTH(32)"
  have "bit (of_be (be32 x) :: 32 word) n \<longleftrightarrow> 24 \<le> n \<and> bit x n \<or> 16 \<le> n \<and> n < 24 \<and> bit x n \<or>
      8 \<le> n \<and> n < 16 \<and> bit x n \<or> n < 8 \<and> bit x n"
    using n by (auto simp: of_be_def be32_def bit_simps)
  also have "\<dots> \<longleftrightarrow> bit x n" by auto
  finally show "bit (of_be (be32 x) :: 32 word) n \<longleftrightarrow> bit x n" .
qed

lemma of_be16: "of_be (be16 x) = x"
proof (rule bit_word_eqI)
  fix n :: nat
  assume n: "n < LENGTH(16)"
  have "bit (of_be (be16 x) :: 16 word) n \<longleftrightarrow> 8 \<le> n \<and> bit x n \<or> n < 8 \<and> bit x n"
    using n by (auto simp: of_be_def be16_def bit_simps)
  also have "\<dots> \<longleftrightarrow> bit x n" by auto
  finally show "bit (of_be (be16 x) :: 16 word) n \<longleftrightarrow> bit x n" .
qed

lemma length_be [simp]: "length (be32 x) = 4" "length (be16 y) = 2"
  by (simp_all add: be32_def be16_def)

section \<open>Bitfields\<close>

lemma length_set_bits [simp]: "length (set_bits i bf b) = length b"
  by (induction i bf b rule: set_bits.induct) simp_all

lemma bit_set_bits:
  assumes "i + length bf \<le> 8 * length b" "k < length b" "j < 8"
  shows "bit (set_bits i bf b ! k) (7 - j) \<longleftrightarrow>
    bit (b ! k) (7 - j) \<or> i \<le> 8 * k + j \<and> 8 * k + j < i + length bf \<and> bf ! (8 * k + j - i)"
  using assms
proof (induction i bf b rule: set_bits.induct)
  case (2 i have' bf b)
  let ?b = "if have' then b[i div 8 := (b ! (i div 8)) OR push_bit (7 - i mod 8) 1] else b"
  have len: "length ?b = length b" by simp
  have bt: "bit (?b ! k) (7 - j) \<longleftrightarrow> bit (b ! k) (7 - j) \<or> have' \<and> i = 8 * k + j"
  proof -
    have lt: "i div 8 < length b" using "2.prems"(1) by auto
    have "bit ((b ! (i div 8)) OR push_bit (7 - i mod 8) 1) (7 - j) \<longleftrightarrow>
        bit (b ! (i div 8)) (7 - j) \<or> j = i mod 8"
      using "2.prems"(3) by (auto simp: bit_simps)
    moreover have "(i div 8 = k \<and> j = i mod 8) \<longleftrightarrow> i = 8 * k + j" using "2.prems"(3) by auto
    ultimately show ?thesis using lt by (auto simp: nth_list_update)
  qed
  have "bit (set_bits (Suc i) bf ?b ! k) (7 - j) \<longleftrightarrow> bit (?b ! k) (7 - j) \<or>
      Suc i \<le> 8 * k + j \<and> 8 * k + j < Suc i + length bf \<and> bf ! (8 * k + j - Suc i)"
    using "2.IH" "2.prems" len by simp
  also have "\<dots> \<longleftrightarrow> bit (b ! k) (7 - j) \<or> i \<le> 8 * k + j \<and> 8 * k + j < i + length (have' # bf) \<and>
      (have' # bf) ! (8 * k + j - i)"
    unfolding bt by (cases "i = 8 * k + j") (auto simp: nth_Cons')
  finally show ?case by simp
qed auto

lemma length_unmarshal [simp]: "length (unmarshalBitfield b) = 8 * length b"
  by (induction b) (simp_all add: unmarshalBitfield_def)

lemma nth_unmarshal: "i < 8 * length b \<Longrightarrow> unmarshalBitfield b ! i = bit (b ! (i div 8)) (7 - i mod 8)"
proof (induction b arbitrary: i)
  case (Cons c b)
  have low: "drop_bit n c AND 1 = 1 \<longleftrightarrow> bit c n" for n
    by (simp add: and_one_eq bit_iff_odd_drop_bit odd_iff_mod_2_eq_one)
  have app: "unmarshalBitfield (c # b) = map (bit c) [7, 6, 5, 4, 3, 2, 1, 0] @ unmarshalBitfield b"
    using low [of 0] by (simp add: unmarshalBitfield_def low)
  show ?case
  proof (cases "i < 8")
    case True
    then have "i \<in> {0, 1, 2, 3, 4, 5, 6, 7}" by auto
    then show ?thesis unfolding app by (auto simp: nth_append)
  next
    case False
    then have "unmarshalBitfield (c # b) ! i = unmarshalBitfield b ! (i - 8)"
      unfolding app by (simp add: nth_append eval_nat_numeral)
    also have "\<dots> = bit (b ! ((i - 8) div 8)) (7 - (i - 8) mod 8)" using Cons False by simp
    finally have "unmarshalBitfield (c # b) ! i = bit (b ! ((i - 8) div 8)) (7 - (i - 8) mod 8)" .
    moreover have "i div 8 = Suc ((i - 8) div 8)" "(i - 8) mod 8 = i mod 8"
      using False by (simp_all add: le_div_geq le_mod_geq)
    ultimately show ?thesis by simp
  qed
qed simp

text \<open>A bitfield comes back with the spare bits of its last byte clear.\<close>

lemma unmarshal_marshal:
  "unmarshalBitfield (marshalBitfield bf) = bf @ replicate (8 * ((length bf + 7) div 8) - length bf) False"
proof (rule nth_equalityI)
  let ?n = "(length bf + 7) div 8" and ?m = "marshalBitfield bf"
  have n: "length bf \<le> 8 * ?n" by simp
  have len: "length ?m = ?n" by (simp add: marshalBitfield_def)
  show "length (unmarshalBitfield ?m) = length (bf @ replicate (8 * ?n - length bf) False)" using len n by simp
  fix i assume "i < length (unmarshalBitfield ?m)"
  then have i: "i < 8 * ?n" using len by simp
  have "unmarshalBitfield ?m ! i = bit (?m ! (i div 8)) (7 - i mod 8)" using i len by (intro nth_unmarshal) simp
  also have "\<dots> \<longleftrightarrow> i < length bf \<and> bf ! i"
    unfolding marshalBitfield_def using i n
    by (subst bit_set_bits) auto
  finally show "unmarshalBitfield ?m ! i = (bf @ replicate (8 * ?n - length bf) False) ! i"
    using i by (simp add: nth_append)
qed

section \<open>Messages survive the wire\<close>

lemma ReadFull_append:
  assumes "length buf = length xs" "length xs \<le> N"
  shows "ReadFull buf (xs @ ys, N) = (None, xs, (ys, N - length xs))"
  using assms by (simp add: ReadFull_def Let_def)

lemma read_fields_append:
  assumes "length fs = length xs" "4 * length xs \<le> N"
  shows "read_fields fs m (concat (map be32 xs) @ ys, N) =
    (None, fold (\<lambda>(f, x) m. f x m) (zip fs xs) m, (ys, N - 4 * length xs))"
  using assms
proof (induction fs xs arbitrary: m N rule: list_induct2)
  case (Cons f fs x xs)
  have "ReadFull (replicate 4 0) (be32 x @ concat (map be32 xs) @ ys, N) =
      (None, be32 x, (concat (map be32 xs) @ ys, N - 4))"
    using Cons.prems by (subst ReadFull_append) simp_all
  with Cons show ?case by (simp add: of_be32)
qed simp

lemma read_hashes_append:
  assumes "list_all (\<lambda>h. length h = 32) hs" "32 * length hs \<le> N"
  shows "read_hashes (length hs) None m (concat hs @ ys, N) =
    (None, m\<lparr>m_Hashes := m_Hashes m @ hs\<rparr>, (ys, N - 32 * length hs))"
  using assms
proof (induction hs arbitrary: m N)
  case (Cons h hs)
  have "ReadFull (replicate 32 0) (h @ concat hs @ ys, N) = (None, h, (concat hs @ ys, N - 32))"
    using Cons.prems by (subst ReadFull_append) simp_all
  with Cons show ?case by simp
qed simp

lemma length_concat_32: "list_all (\<lambda>h. length h = 32) hs \<Longrightarrow> length (concat hs) = 32 * length hs"
  by (induction hs) simp_all

lemma length_concat_be32: "length (concat (map be32 xs)) = 4 * length xs"
  by (induction xs) simp_all

text \<open>What the wire carries of a message: the fields of its type, a bitfield filled up to whole bytes.\<close>

definition wire_view :: "Message \<Rightarrow> Message" where
  "wire_view msg =
     (let t = m_Type msg; m = zero_message\<lparr>m_Type := t\<rparr>;
          hash = m\<lparr>m_PiecesRoot := m_PiecesRoot msg, m_BaseLayer := m_BaseLayer msg, m_Index := m_Index msg,
                   m_Length := m_Length msg, m_ProofLayers := m_ProofLayers msg\<rparr> in
      if m_Keepalive msg then zero_message\<lparr>m_Keepalive := True\<rparr>
      else if t \<in> {Have, AllowedFast, Suggest} then m\<lparr>m_Index := m_Index msg\<rparr>
      else if t \<in> {RequestType, Cancel, RejectType} then
        m\<lparr>m_Index := m_Index msg, m_Begin := m_Begin msg, m_Length := m_Length msg\<rparr>
      else if t = Bitfield then
        m\<lparr>m_Bitfield := m_Bitfield msg @ replicate (8 * ((length (m_Bitfield msg) + 7) div 8) - length (m_Bitfield msg)) False\<rparr>
      else if t = Piece then m\<lparr>m_Index := m_Index msg, m_Begin := m_Begin msg, m_Piece := m_Piece msg\<rparr>
      else if t = Extended then m\<lparr>m_ExtendedID := m_ExtendedID msg, m_ExtendedPayload := m_ExtendedPayload msg\<rparr>
      else if t = Port then m\<lparr>m_Port := m_Port msg\<rparr>
      else if t \<in> {HashRequest, HashReject} then hash
      else if t = Hashes then hash\<lparr>m_Hashes := m_Hashes msg\<rparr>
      else m)"

definition well_sized :: "bytes option \<Rightarrow> Message \<Rightarrow> bool" where
  "well_sized pool msg \<longleftrightarrow>
     length (m_PiecesRoot msg) = 32 \<and> list_all (\<lambda>h. length h = 32) (m_Hashes msg) \<and>
     (case pool of None \<Rightarrow> True | Some sl \<Rightarrow> length (m_Piece msg) \<le> length sl)"

lemma readHashRequest_append:
  assumes "length (m_PiecesRoot m) = 32" "length (m_PiecesRoot msg) = 32" "N = 48 + k"
  shows "readHashRequest m (writeHashCommon msg @ ys, N) =
    (None, m\<lparr>m_PiecesRoot := m_PiecesRoot msg, m_BaseLayer := m_BaseLayer msg, m_Index := m_Index msg,
             m_Length := m_Length msg, m_ProofLayers := m_ProofLayers msg\<rparr>, (ys, k))"
proof -
  let ?xs = "[m_BaseLayer msg, m_Index msg, m_Length msg, m_ProofLayers msg]"
  have 1: "ReadFull (m_PiecesRoot m) (m_PiecesRoot msg @ concat (map be32 ?xs) @ ys, N) =
      (None, m_PiecesRoot msg, (concat (map be32 ?xs) @ ys, N - 32))"
    using assms by (subst ReadFull_append) simp_all
  have 2: "read_fields [set_BaseLayer, set_Index, set_Length, set_ProofLayers] m' (concat (map be32 ?xs) @ ys, N - 32) =
      (None, m'\<lparr>m_BaseLayer := m_BaseLayer msg, m_Index := m_Index msg, m_Length := m_Length msg,
               m_ProofLayers := m_ProofLayers msg\<rparr>, (ys, k))" for m'
    by (subst read_fields_append) (use assms in simp_all)
  show ?thesis unfolding readHashRequest_def writeHashCommon_def append_assoc 1 prod.case option.case 2 by simp
qed

lemma length_writeHashCommon: "length (m_PiecesRoot msg) = 32 \<Longrightarrow> length (writeHashCommon msg) = 48"
  by (simp add: writeHashCommon_def)

lemma known_type:
  assumes "writePayloadTo msg = (None, t # p)"
  shows "\<not> m_Keepalive msg" "t = m_Type msg"
    "m_Type msg \<in> {Choke, Unchoke, Interested, NotInterested, HaveAll, HaveNone} \<or>
     m_Type msg \<in> {Have, AllowedFast, Suggest} \<or> m_Type msg \<in> {RequestType, Cancel, RejectType} \<or>
     m_Type msg = Bitfield \<or> m_Type msg = Piece \<or> m_Type msg = Extended \<or> m_Type msg = Port \<or>
     m_Type msg \<in> {HashRequest, HashReject} \<or> m_Type msg = Hashes"
  using assms by (auto simp: writePayloadTo_def Let_def split: if_splits)

text \<open>The branches of the two directions, one rule per group of types.\<close>

abbreviation "plain_types \<equiv> {Choke, Unchoke, Interested, NotInterested, HaveAll, HaveNone}"
abbreviation "index_types \<equiv> {Have, AllowedFast, Suggest}"
abbreviation "request_types \<equiv> {RequestType, Cancel, RejectType}"

lemma branches_plain:
  assumes "m_Type msg \<in> plain_types"
  shows "\<not> m_Keepalive msg \<Longrightarrow> writePayloadTo msg = (None, [m_Type msg])"
    "\<not> m_Keepalive msg \<Longrightarrow> wire_view msg = zero_message\<lparr>m_Type := m_Type msg\<rparr>"
    "readMessageAfterType pool msg r = (None, msg, r)"
  using assms by (elim insertE emptyE; simp add: writePayloadTo_def wire_view_def readMessageAfterType_def Let_def)+

lemma branches_index:
  assumes "m_Type msg \<in> index_types"
  shows "\<not> m_Keepalive msg \<Longrightarrow> writePayloadTo msg = (None, m_Type msg # be32 (m_Index msg))"
    "\<not> m_Keepalive msg \<Longrightarrow> wire_view msg = zero_message\<lparr>m_Type := m_Type msg, m_Index := m_Index msg\<rparr>"
    "readMessageAfterType pool msg r = read_fields [set_Index] msg r"
  using assms by (elim insertE emptyE; simp add: writePayloadTo_def wire_view_def readMessageAfterType_def Let_def)+

lemma branches_request:
  assumes "m_Type msg \<in> request_types"
  shows "\<not> m_Keepalive msg \<Longrightarrow>
      writePayloadTo msg = (None, m_Type msg # concat (map be32 [m_Index msg, m_Begin msg, m_Length msg]))"
    "\<not> m_Keepalive msg \<Longrightarrow> wire_view msg =
      zero_message\<lparr>m_Type := m_Type msg, m_Index := m_Index msg, m_Begin := m_Begin msg, m_Length := m_Length msg\<rparr>"
    "readMessageAfterType pool msg r = read_fields [set_Index, set_Begin, set_Length] msg r"
  using assms by (elim insertE emptyE; simp add: writePayloadTo_def wire_view_def readMessageAfterType_def Let_def)+

lemma branches_hash:
  assumes "m_Type msg \<in> {HashRequest, HashReject}"
  shows "\<not> m_Keepalive msg \<Longrightarrow> writePayloadTo msg = (None, m_Type msg # writeHashCommon msg)"
    "\<not> m_Keepalive msg \<Longrightarrow> wire_view msg =
      zero_message\<lparr>m_Type := m_Type msg, m_PiecesRoot := m_PiecesRoot msg, m_BaseLayer := m_BaseLayer msg,
        m_Index := m_Index msg, m_Length := m_Length msg, m_ProofLayers := m_ProofLayers msg\<rparr>"
    "readMessageAfterType pool msg r = readHashRequest msg r"
  using assms by (elim insertE emptyE; simp add: writePayloadTo_def wire_view_def readMessageAfterType_def Let_def)+

lemma read_after_type:
  assumes w: "writePayloadTo msg = (None, t # p)" and ws: "well_sized pool msg"
  shows "readMessageAfterType pool (zero_message\<lparr>m_Type := t\<rparr>) (p @ ys, length p) = (None, wire_view msg, (ys, 0))"
proof -
  note k = known_type [OF w]
  have wp: "m_Type msg # p = snd (writePayloadTo msg)" using w k(2) by simp
  let ?z = "zero_message\<lparr>m_Type := m_Type msg\<rparr>"
  have ty: "m_Type ?z = m_Type msg" by simp
  note defs = readMessageAfterType_def wire_view_def Let_def k(1)
  from k(3) consider (plain) "m_Type msg \<in> {Choke, Unchoke, Interested, NotInterested, HaveAll, HaveNone}"
    | (index) "m_Type msg \<in> {Have, AllowedFast, Suggest}"
    | (request) "m_Type msg \<in> {RequestType, Cancel, RejectType}"
    | (bitfield) "m_Type msg = Bitfield" | (piece) "m_Type msg = Piece" | (extended) "m_Type msg = Extended"
    | (port) "m_Type msg = Port" | (hash) "m_Type msg \<in> {HashRequest, HashReject}" | (hashes) "m_Type msg = Hashes"
    by blast
  then have "readMessageAfterType pool ?z (p @ ys, length p) = (None, wire_view msg, (ys, 0))"
  proof cases
    case plain
    then show ?thesis using wp branches_plain(1,2) [OF plain k(1)] branches_plain(3) [of ?z] by simp
  next
    case index
    have p: "p = concat (map be32 [m_Index msg])" using wp branches_index(1) [OF index k(1)] by simp
    have "read_fields [set_Index] m (p @ ys, length p) = (None, m\<lparr>m_Index := m_Index msg\<rparr>, (ys, 0))" for m
      unfolding p by (subst read_fields_append) simp_all
    then show ?thesis using index branches_index(2) [OF index k(1)] branches_index(3) [of ?z] by simp
  next
    case request
    have p: "p = concat (map be32 [m_Index msg, m_Begin msg, m_Length msg])"
      using wp branches_request(1) [OF request k(1)] by simp
    have "read_fields [set_Index, set_Begin, set_Length] m (p @ ys, length p) =
        (None, m\<lparr>m_Index := m_Index msg, m_Begin := m_Begin msg, m_Length := m_Length msg\<rparr>, (ys, 0))" for m
      unfolding p by (subst read_fields_append) simp_all
    then show ?thesis using request branches_request(2) [OF request k(1)] branches_request(3) [of ?z] by simp
  next
    case bitfield
    then have p: "p = marshalBitfield (m_Bitfield msg)" using wp by (simp add: writePayloadTo_def k(1))
    show ?thesis using bitfield
      by (simp add: defs UnreadLength_def ReadFull_append) (simp add: p unmarshal_marshal)
  next
    case piece
    then have p: "p = concat (map be32 [m_Index msg, m_Begin msg]) @ m_Piece msg"
      using wp by (simp add: writePayloadTo_def k(1))
    have f: "read_fields [set_Index, set_Begin] m (p @ ys, length p) =
        (None, m\<lparr>m_Index := m_Index msg, m_Begin := m_Begin msg\<rparr>, (m_Piece msg @ ys, length (m_Piece msg)))" for m
      unfolding p append_assoc by (subst read_fields_append) simp_all
    show ?thesis using piece ws
      by (cases pool) (simp_all add: defs read_piece_def f UnreadLength_def ReadFull_append well_sized_def
        del: read_fields.simps)
  next
    case extended
    then have p: "p = [m_ExtendedID msg] @ m_ExtendedPayload msg" using wp by (simp add: writePayloadTo_def k(1))
    have f: "ReadFull [0] (p @ ys, length p) = (None, [m_ExtendedID msg], (m_ExtendedPayload msg @ ys, length (m_ExtendedPayload msg)))"
      unfolding p append_assoc by (subst ReadFull_append) simp_all
    show ?thesis using extended by (simp add: defs f UnreadLength_def ReadFull_append)
  next
    case port
    then have p: "p = be16 (m_Port msg)" using wp by (simp add: writePayloadTo_def k(1))
    have "ReadFull (replicate 2 0) (p @ ys, length p) = (None, p, (ys, 0))"
      using ReadFull_append [of "replicate 2 0" p "length p" ys] by (simp add: p)
    with port show ?thesis by (simp add: defs p of_be16)
  next
    case hash
    have p: "p = writeHashCommon msg" using wp branches_hash(1) [OF hash k(1)] by simp
    have "readHashRequest ?z (p @ ys, length p) =
        (None, ?z\<lparr>m_PiecesRoot := m_PiecesRoot msg, m_BaseLayer := m_BaseLayer msg,
           m_Index := m_Index msg, m_Length := m_Length msg, m_ProofLayers := m_ProofLayers msg\<rparr>, (ys, 0))"
      unfolding p using ws
      by (intro readHashRequest_append) (simp_all add: well_sized_def length_writeHashCommon zero_message_def)
    then show ?thesis using hash branches_hash(2) [OF hash k(1)] branches_hash(3) [of ?z] by simp
  next
    case hashes
    then have p: "p = writeHashCommon msg @ concat (m_Hashes msg)" using wp by (simp add: writePayloadTo_def k(1))
    have hs: "list_all (\<lambda>h. length h = 32) (m_Hashes msg)" and r: "length (m_PiecesRoot msg) = 32"
      using ws by (auto simp: well_sized_def)
    have h: "readHashRequest ?z (p @ ys, length p) =
        (None, ?z\<lparr>m_PiecesRoot := m_PiecesRoot msg, m_BaseLayer := m_BaseLayer msg,
           m_Index := m_Index msg, m_Length := m_Length msg, m_ProofLayers := m_ProofLayers msg\<rparr>,
         (concat (m_Hashes msg) @ ys, 32 * length (m_Hashes msg)))"
      unfolding p append_assoc using r hs
      by (intro readHashRequest_append) (simp_all add: length_writeHashCommon length_concat_32 zero_message_def)
    have n: "(32 * length (m_Hashes msg) + 31) div 32 = length (m_Hashes msg)" by simp
    show ?thesis using hashes
      by (simp add: defs h [unfolded hashes] UnreadLength_def n read_hashes_append [OF hs])
  qed
  then show ?thesis by (simp add: k(2))
qed

lemma take_be32: "take 4 (be32 x @ ys) = be32 x" "drop 4 (be32 x @ ys) = ys"
  by (simp_all add: be32_def)

lemma payload_head:
  assumes "writePayloadTo msg = (None, q)"
  shows "if m_Keepalive msg then q = [] \<and> wire_view msg = zero_message\<lparr>m_Keepalive := True\<rparr>
    else \<exists>p. q = m_Type msg # p"
  using assms by (auto simp: writePayloadTo_def wire_view_def Let_def split: if_splits)

lemma Decode_WriteTo:
  assumes w: "WriteTo msg = (None, b)" and ws: "well_sized pool msg"
    and len: "length (snd (writePayloadTo msg)) \<le> unat mx"
  shows "Decode mx pool zero_message (b @ rest) = (None, wire_view msg, rest)"
proof -
  obtain q where q: "writePayloadTo msg = (None, q)" and b: "b = be32 (word_of_nat (length q)) @ q"
    using w by (cases "writePayloadTo msg") (auto simp: WriteTo_def getPayloadLength_def split: option.splits)
  let ?n = "word_of_nat (length q) :: 32 word"
  have le: "length q \<le> unat mx" using len q by simp
  have "unat mx < 2 ^ LENGTH(32)" by (rule unsigned_less)
  then have n: "unat ?n = length q" using le by (simp add: unat_of_nat take_bit_nat_eq_self)
  then have "?n \<le> mx" using le by (simp add: word_le_nat_alt)
  then have small: "\<not> mx < ?n" by simp
  have hd4: "\<not> length (b @ rest) < 4" "take 4 (b @ rest) = be32 ?n" "drop 4 (b @ rest) = q @ rest"
    unfolding b append_assoc take_be32 by simp_all
  show ?thesis
  proof (cases "m_Keepalive msg")
    case True
    with payload_head [OF q] have "q = []" "wire_view msg = zero_message\<lparr>m_Keepalive := True\<rparr>" by simp_all
    with hd4 small show ?thesis by (simp add: Decode_def Let_def of_be32)
  next
    case False
    with payload_head [OF q] obtain p where p: "q = m_Type msg # p" by auto
    have nz: "?n \<noteq> 0" using n p by (metis length_Cons nat.distinct(1) unat_0)
    have r1: "ReadFull [0] (q @ rest, length q) = (None, [m_Type msg], (p @ rest, length p))"
      using ReadFull_append [of "[0]" "[m_Type msg]" "length q" "p @ rest"] by (simp add: p)
    have r2: "readMessageAfterType pool (zero_message\<lparr>m_Type := m_Type msg\<rparr>) (p @ rest, length p) =
        (None, wire_view msg, (rest, 0))"
      using read_after_type [OF q [unfolded p] ws] .
    show ?thesis
      unfolding Decode_def hd4 Let_def of_be32 if_not_P [OF hd4(1)] if_not_P [OF small] if_not_P [OF nz] n r1 prod.case option.case
      by (simp add: r2 UnreadLength_def)
  qed
qed

text \<open>A decoder without a limit on the length refuses every message that is not a keepalive, so
  \<open>UnmarshalBinary\<close>, which leaves the limit at zero, reads nothing else.\<close>

lemma UnmarshalBinary_only_keepalive:
  assumes "UnmarshalBinary msg b = (None, msg')"
  shows "length b = 4 \<and> of_be b = (0 :: 32 word) \<and> msg' = msg\<lparr>m_Keepalive := True\<rparr>"
proof -
  have "\<not> length b < 4" using assms by (auto simp: UnmarshalBinary_def Decode_def)
  moreover have "of_be (take 4 b) = (0 :: 32 word)"
  proof (rule ccontr)
    assume "of_be (take 4 b) \<noteq> (0 :: 32 word)"
    then have "(0 :: 32 word) < of_be (take 4 b)" using word_neq_0_conv by blast
    with assms \<open>\<not> length b < 4\<close> show False by (auto simp: UnmarshalBinary_def Decode_def Let_def)
  qed
  ultimately show ?thesis
    using assms by (auto simp: UnmarshalBinary_def Decode_def Let_def split: if_splits)
qed

section \<open>What reading keeps\<close>

text \<open>A read takes bytes off the front of the source, never more than belong to the message.\<close>

definition consumes :: "reader \<Rightarrow> reader \<Rightarrow> bool" where
  "consumes r r' \<longleftrightarrow>
     (\<exists>k. k \<le> snd r \<and> k \<le> length (fst r) \<and> fst r' = drop k (fst r) \<and> snd r' = snd r - k)"

definition typed :: "Message \<Rightarrow> bool" where
  "typed m \<longleftrightarrow> length (m_PiecesRoot m) = 32 \<and> list_all (\<lambda>h. length h = 32) (m_Hashes m) \<and>
     8 dvd length (m_Bitfield m)"

lemma consumes_refl [simp]: "consumes r r"
  by (simp add: consumes_def exI [of _ 0])

lemma consumes_trans [trans]: "consumes r s \<Longrightarrow> consumes s t \<Longrightarrow> consumes r t"
  unfolding consumes_def
proof (elim exE)
  fix j k
  assume "j \<le> snd r \<and> j \<le> length (fst r) \<and> fst s = drop j (fst r) \<and> snd s = snd r - j"
    and "k \<le> snd s \<and> k \<le> length (fst s) \<and> fst t = drop k (fst s) \<and> snd t = snd s - k"
  then show "\<exists>k. k \<le> snd r \<and> k \<le> length (fst r) \<and> fst t = drop k (fst r) \<and> snd t = snd r - k"
    by (intro exI [of _ "j + k"]) (auto simp: add.commute)
qed

lemma ReadFull_reads:
  assumes "ReadFull buf r = (e, b, r')"
  shows "consumes r r'" "length b = length buf"
  using assms by (auto simp: ReadFull_def Let_def consumes_def intro!: exI [of _ "min (length buf) (min (length (fst r)) (snd r))"])

lemma typed_fields [simp]:
  "typed (m\<lparr>m_Index := x\<rparr>) = typed m" "typed (m\<lparr>m_Begin := x\<rparr>) = typed m" "typed (m\<lparr>m_Length := x\<rparr>) = typed m"
  "typed (m\<lparr>m_BaseLayer := x\<rparr>) = typed m" "typed (m\<lparr>m_ProofLayers := x\<rparr>) = typed m" "typed (m\<lparr>m_Type := t\<rparr>) = typed m"
  "typed (m\<lparr>m_Piece := b\<rparr>) = typed m" "typed (m\<lparr>m_Port := p\<rparr>) = typed m" "typed (m\<lparr>m_Keepalive := k\<rparr>) = typed m"
  "typed (m\<lparr>m_ExtendedID := d, m_ExtendedPayload := b\<rparr>) = typed m"
  by (simp_all add: typed_def)

lemma read_fields_reads:
  assumes "read_fields fs m r = (e, m', r')" "list_all (\<lambda>f. \<forall>x n. typed n \<longrightarrow> typed (f x n)) fs" "typed m"
  shows "consumes r r' \<and> typed m'"
  using assms
proof (induction fs arbitrary: m r)
  case (Cons f fs)
  obtain e1 b r1 where rf: "ReadFull (replicate 4 0) r = (e1, b, r1)" by (metis prod_cases3)
  note 1 = ReadFull_reads(1) [OF rf]
  show ?case
  proof (cases e1)
    case None
    with Cons.prems(1) rf have "read_fields fs (f (of_be b) m) r1 = (e, m', r')" by simp
    from Cons.IH [OF this] Cons.prems(2,3) consumes_trans [OF 1] show ?thesis by auto
  qed (use Cons.prems rf 1 in auto)
qed simp

lemma readHashRequest_reads:
  assumes "readHashRequest m r = (e, m', r')" "typed m"
  shows "consumes r r' \<and> typed m'"
proof -
  obtain e1 b r1 where rf: "ReadFull (m_PiecesRoot m) r = (e1, b, r1)" by (metis prod_cases3)
  note 1 = ReadFull_reads [OF rf]
  have t: "typed (m\<lparr>m_PiecesRoot := b\<rparr>)" using assms(2) 1(2) by (simp add: typed_def)
  show ?thesis
  proof (cases e1)
    case None
    with assms(1) rf have "read_fields [set_BaseLayer, set_Index, set_Length, set_ProofLayers]
        (m\<lparr>m_PiecesRoot := b\<rparr>) r1 = (e, m', r')" by (simp add: readHashRequest_def del: read_fields.simps)
    from read_fields_reads [OF this _ t] consumes_trans [OF 1(1)] show ?thesis by auto
  qed (use assms rf 1 t in \<open>auto simp: readHashRequest_def\<close>)
qed

lemma read_hashes_reads:
  assumes "read_hashes n e0 m r = (e, m', r')" "typed m"
  shows "consumes r r' \<and> typed m'"
  using assms
proof (induction n arbitrary: m r e0)
  case (Suc n)
  obtain e1 b r1 where rf: "ReadFull (replicate 32 0) r = (e1, b, r1)" by (metis prod_cases3)
  note 1 = ReadFull_reads [OF rf]
  have t: "typed (m\<lparr>m_Hashes := m_Hashes m @ [b]\<rparr>)" using Suc.prems(2) 1(2) by (simp add: typed_def)
  show ?case
  proof (cases e1)
    case None
    with Suc.prems(1) rf have "read_hashes n None (m\<lparr>m_Hashes := m_Hashes m @ [b]\<rparr>) r1 = (e, m', r')" by simp
    from Suc.IH [OF this t] consumes_trans [OF 1(1)] show ?thesis by auto
  qed (use Suc.prems rf 1 in auto)
qed simp

lemma read_piece_reads:
  assumes "read_piece pool m r = (e, m', r')" "typed m"
  shows "consumes r r' \<and> typed m'"
proof -
  obtain e1 m1 r1 where rf: "read_fields [set_Index, set_Begin] m r = (e1, m1, r1)" by (metis prod_cases3)
  have 1: "consumes r r1 \<and> typed m1" using read_fields_reads [OF rf _ assms(2)] by auto
  obtain e2 b r2 where r2: "ReadFull (case pool of None \<Rightarrow> replicate (UnreadLength r1) 0 | Some sl \<Rightarrow> take (UnreadLength r1) sl)
      r1 = (e2, b, r2)" by (metis prod_cases3)
  note 2 = ReadFull_reads(1) [OF r2]
  show ?thesis
    using assms(1) rf 1 r2 consumes_trans [OF conjunct1 [OF 1] 2]
    by (cases e1; cases pool) (auto simp: read_piece_def Let_def simp del: read_fields.simps split: if_splits)
qed

lemma readMessage_reads:
  assumes run: "readMessageAfterType pool m r = (e, m', r')" and t: "typed m"
  shows "consumes r r' \<and> typed m'"
proof -
  obtain e1 b1 r1 where b: "ReadFull (replicate (UnreadLength r) 0) r = (e1, b1, r1)" by (metis prod_cases3)
  obtain e2 b2 r2 where x: "ReadFull [0] r = (e2, b2, r2)" by (metis prod_cases3)
  obtain e3 b3 r3 where x': "ReadFull (replicate (UnreadLength r2) 0) r2 = (e3, b3, r3)" by (metis prod_cases3)
  obtain e4 b4 r4 where p: "ReadFull (replicate 2 0) r = (e4, b4, r4)" by (metis prod_cases3)
  obtain e5 m5 r5 where h: "readHashRequest m r = (e5, m5, r5)" by (metis prod_cases3)
  note reads = ReadFull_reads(1) [OF b] ReadFull_reads(1) [OF x] consumes_trans [OF ReadFull_reads(1) [OF x] ReadFull_reads(1) [OF x']]
    ReadFull_reads(1) [OF p] readHashRequest_reads [OF h t]
  have bf: "typed (m\<lparr>m_Bitfield := unmarshalBitfield b1\<rparr>)" using t by (simp add: typed_def)
  have hs: "typed (m5\<lparr>m_Hashes := []\<rparr>)" using reads(5) by (simp add: typed_def)
  have rf: "read_fields fs m r = (e, m', r') \<Longrightarrow> list_all (\<lambda>f. \<forall>x n. typed n \<longrightarrow> typed (f x n)) fs \<Longrightarrow>
      consumes r r' \<and> typed m'" for fs
    using read_fields_reads t by blast
  have rh: "read_hashes n e5 (m5\<lparr>m_Hashes := []\<rparr>) r5 = (e, m', r') \<Longrightarrow> consumes r r' \<and> typed m'" for n
    using read_hashes_reads [OF _ hs] reads(5) consumes_trans by blast
  have ifE: "(if c then a else d) = z \<Longrightarrow> (a = z \<Longrightarrow> P) \<Longrightarrow> (d = z \<Longrightarrow> P) \<Longrightarrow> P" for c a d P and z :: "go_error option \<times> Message \<times> reader"
    by (cases c) auto
  show ?thesis
    using run unfolding readMessageAfterType_def Let_def b x p h prod.case
    apply (elim ifE)
    subgoal using t by simp
    subgoal by (erule rf) simp
    subgoal by (erule rf) simp
    subgoal using reads(1) bf by simp
    subgoal using read_piece_reads t by blast
    subgoal using reads(2,3) t x' by (auto split: option.splits)
    subgoal using reads(4) t by (auto split: option.splits)
    subgoal using reads(5) by simp
    subgoal by (rule rh)
    subgoal using t by simp
    done
qed

text \<open>C28: Round trip of the peer protocol: a message that was written within the receiver's length limit is read
  back with every field of its type (a bitfield filled up to whole bytes), and exactly its bytes are
  taken from the stream, whatever follows.\<close>

theorem peer_message_roundtrip:
  assumes "WriteTo msg = (None, b)" "well_sized pool msg" "length (snd (writePayloadTo msg)) \<le> unat mx"
  shows "Decode mx pool zero_message (b @ rest) = (None, wire_view msg, rest)"
  using Decode_WriteTo [OF assms] .

theorem peer_message_roundtrip_witness:
  "\<exists>b. WriteTo (MakeCancelMessage 3 16384 1024) = (None, b) \<and>
    Decode 100 None zero_message (b @ [1, 2]) = (None, wire_view (MakeCancelMessage 3 16384 1024), [1, 2])"
proof -
  have w: "writePayloadTo (MakeCancelMessage 3 16384 1024) = (None, Cancel # concat (map be32 [3, 16384, 1024]))"
    by (simp add: MakeCancelMessage_def writePayloadTo_def zero_message_def)
  then obtain b where b: "WriteTo (MakeCancelMessage 3 16384 1024) = (None, b)"
    by (simp add: WriteTo_def getPayloadLength_def)
  have "well_sized None (MakeCancelMessage 3 16384 1024)"
    by (simp add: well_sized_def MakeCancelMessage_def zero_message_def)
  from peer_message_roundtrip [OF b this, of 100 "[1, 2]"] w b show ?thesis by simp
qed

text \<open>What one decoding step takes off the stream: at least the four bytes of the length and never a byte
  beyond the message they announce, and nothing but the length when it is over the limit.\<close>

definition framed :: "Integer \<Rightarrow> bytes \<Rightarrow> go_error option \<times> Message \<times> bytes \<Rightarrow> nat \<Rightarrow> bool" where
  "framed mx bs out k \<longleftrightarrow>
     (let n = unat (of_be (take 4 bs) :: Integer); (e, m, rest) = out in
      rest = drop k bs \<and> 4 \<le> k \<and> k \<le> 4 + n \<and> k \<le> length bs \<and>
      (if unat mx < n then k = 4 \<and> e \<noteq> None else e = None \<longrightarrow> k = 4 + n))"

text \<open>C29: The decoder keeps the frames of the stream. Whatever follows the four bytes of the length, well-formed
  or not: an announced length over the limit is an error that takes only those four bytes; below it, no
  byte beyond the announced message is taken, and a message that is accepted took exactly the announced
  bytes, all of them there. So the next message is read from where this one said it ends. The message that
  was filled in has roots and hashes of 32 bytes and a bitfield of whole bytes, after an error too.\<close>

theorem peer_Decode_framed:
  assumes "4 \<le> length bs"
  shows "\<exists>k. framed mx bs (Decode mx pool zero_message bs) k \<and> typed (fst (snd (Decode mx pool zero_message bs)))"
proof -
  let ?n = "of_be (take 4 bs) :: 32 word" and ?bs = "drop 4 bs"
  have z: "typed zero_message" by (simp add: typed_def zero_message_def)
  show ?thesis
  proof (cases "mx < ?n \<or> ?n = 0")
    case True
    then show ?thesis using assms z
      by (intro exI [of _ 4]) (auto simp: Decode_def Let_def framed_def word_less_nat_alt)
  next
    case small: False
    then have le: "\<not> unat mx < unat ?n" by (simp add: word_le_nat_alt not_less)
    obtain e1 c r1 where r1: "ReadFull [0] (?bs, unat ?n) = (e1, c, r1)" by (metis prod_cases3)
    obtain e2 m2 r2 where r2: "readMessageAfterType pool (zero_message\<lparr>m_Type := hd c\<rparr>) r1 = (e2, m2, r2)"
      by (metis prod_cases3)
    have c2: "consumes r1 r2 \<and> typed m2" using readMessage_reads [OF r2] z by simp
    note c1 = ReadFull_reads(1) [OF r1]
    have used: "\<exists>k. framed mx bs (e, m, fst r) k" if "consumes (?bs, unat ?n) r" "e = None \<Longrightarrow> UnreadLength r = 0" for r e m
    proof -
      from that(1) obtain k where "k \<le> unat ?n" "k \<le> length ?bs" "fst r = drop k ?bs" "snd r = unat ?n - k"
        by (auto simp: consumes_def)
      with that(2) le assms show ?thesis
        by (intro exI [of _ "4 + k"]) (auto simp: framed_def Let_def UnreadLength_def add.commute)
    qed
    have "Decode mx pool zero_message bs = (case (e1, e2) of
        (Some err, _) \<Rightarrow> (Some err, zero_message, fst r1)
      | (None, Some err) \<Rightarrow> (Some (Errorf (''reading fields for message type '' @ MessageType_String (m_Type m2) @ '': '') err []), m2, fst r2)
      | (None, None) \<Rightarrow> (if UnreadLength r2 \<noteq> 0
           then Some (ErrorString (nat_dec (UnreadLength r2) @ '' unused bytes in message type '' @ MessageType_String (m_Type m2)))
           else None, m2, fst r2))"
      using assms small r1 r2 by (simp add: Decode_def Let_def split: option.split)
    moreover have "\<exists>k. framed mx bs (Some err, m, fst r1) k" "\<exists>k. framed mx bs (Some err, m, fst r2) k"
      "UnreadLength r2 = 0 \<Longrightarrow> \<exists>k. framed mx bs (None, m, fst r2) k" for err m
      by (rule used, use c1 consumes_trans [OF c1 conjunct1 [OF c2]] in simp_all)+
    ultimately show ?thesis using z c2 by (simp split: option.split)
  qed
qed

text \<open>A have message with two bytes too many announced: the reader stops at the fields, and the error says so.\<close>

theorem peer_Decode_framed_witness:
  "\<exists>k. framed 100 [0, 0, 0, 7, 4, 0, 0, 0, 9, 1, 2, 3] (Decode 100 None zero_message [0, 0, 0, 7, 4, 0, 0, 0, 9, 1, 2, 3]) k \<and>
    typed (fst (snd (Decode 100 None zero_message [0, 0, 0, 7, 4, 0, 0, 0, 9, 1, 2, 3])))"
  by (rule peer_Decode_framed) simp

section \<open>Extension bits and handshakes\<close>

text \<open>Setting a bit sets that bit and no other.\<close>

lemma GetBit_SetBit:
  assumes "length pex = 8" "b < 64" "c < 64"
  shows "\<exists>pex'. SetBit b on pex = Some pex' \<and> length pex' = 8 \<and> GetBit pex' c = (if c = b then Some on else GetBit pex c)"
proof -
  let ?i = "7 - b div 8" and ?m = "push_bit (b mod 8) 1 :: 8 word"
  let ?p = "pex[?i := (if on then (pex ! ?i) OR ?m else (pex ! ?i) AND NOT ?m)]"
  have bt: "(w AND push_bit n 1 \<noteq> 0) = bit w n" if "n < 8" for w :: "8 word" and n
    using that by (auto simp: bit_iff_and_push_bit_not_eq_0)
  have idx: "(7 - c div 8 = ?i \<and> c mod 8 = b mod 8) \<longleftrightarrow> c = b"
  proof
    assume a: "7 - c div 8 = ?i \<and> c mod 8 = b mod 8"
    have "c div 8 \<le> 7" "b div 8 \<le> 7" using assms(2,3) by auto
    with a have "c div 8 = b div 8" by arith
    with a show "c = b" by (metis div_mult_mod_eq)
  qed simp
  have g: "GetBit q c = Some (bit (q ! (7 - c div 8)) (c mod 8))" for q
    using assms(3) bt [of "c mod 8"] by (simp add: GetBit_def)
  have "bit (?p ! (7 - c div 8)) (c mod 8) = (if c = b then on else bit (pex ! (7 - c div 8)) (c mod 8))"
  proof (cases "7 - c div 8 = ?i")
    case True
    then have "?p ! (7 - c div 8) = (if on then (pex ! ?i) OR ?m else (pex ! ?i) AND NOT ?m)" using assms(1) by simp
    then show ?thesis using True idx by (auto simp: bit_simps)
  next
    case False
    then have "c \<noteq> b" by auto
    with False show ?thesis by simp
  qed
  with g have "GetBit ?p c = (if c = b then Some on else GetBit pex c)" by simp
  moreover have "SetBit b on pex = Some ?p" using assms(2) by (simp add: SetBit_def Let_def)
  ultimately show ?thesis using assms(1) by auto
qed

lemma set_all_bits:
  assumes "length pex = 8" "list_all (\<lambda>b. b < 64) bs" "c < 64"
  shows "\<exists>pex'. set_all bs pex = Some pex' \<and> length pex' = 8 \<and>
    GetBit pex' c = (if c \<in> set bs then Some True else GetBit pex c)"
  using assms
proof (induction bs arbitrary: pex)
  case (Cons b bs)
  then obtain p where p: "SetBit b True pex = Some p" "length p = 8" "GetBit p c = (if c = b then Some True else GetBit pex c)"
    using GetBit_SetBit [of pex b c True] by auto
  from Cons.IH [OF p(2)] Cons.prems(2,3) p(1,3) show ?case by auto
qed simp

text \<open>The extension bytes announce exactly the extensions they were made from.\<close>

lemma NewPeerExtensionBytes_bits:
  assumes "list_all (\<lambda>b. b < 64) bs" "c < 64"
  shows "\<exists>pex. NewPeerExtensionBytes bs = Some pex \<and> length pex = 8 \<and> GetBit pex c = Some (c \<in> set bs)"
proof -
  have z: "GetBit (replicate 8 0) c = Some False"
    using assms(2) by (simp add: GetBit_def nth_replicate less_imp_diff_less)
  from set_all_bits [OF _ assms, of "replicate 8 0"] z show ?thesis by (auto simp: NewPeerExtensionBytes_def)
qed

lemma length_Protocol [simp]: "length Protocol = 20"
  by (simp add: Protocol_def)

text \<open>A peer that knows the torrent and one that waits to be told, each with its own extension bits and
  identity, complete the handshake with each other: either side learns the other's bits and identity,
  and the waiting side the torrent; the waiting side's answer depends on nothing but the first side's
  greeting.\<close>

theorem handshakes_meet:
  assumes "length ih = 20" "length idA = 20" "length idB = 20" "length extA = 8" "length extB = 8"
  shows "\<exists>toB toA.
    Handshake None err (Some ih) idA extA toA =
      (Inr \<lparr>hr_PeerExtensionBits = extB, hr_PeerID = idB, hr_Hash = ih\<rparr>, toB) \<and>
    Handshake None err None idB extB toB =
      (Inr \<lparr>hr_PeerExtensionBits = extA, hr_PeerID = idA, hr_Hash = ih\<rparr>, toA)"
proof -
  let ?b = "Protocol @ extA @ ih @ idA" and ?a = "Protocol @ extB @ ih @ idB"
  have "Handshake None err (Some ih) idA extA ?a =
      (Inr \<lparr>hr_PeerExtensionBits = extB, hr_PeerID = idB, hr_Hash = ih\<rparr>, ?b)"
    "Handshake None err None idB extB ?b = (Inr \<lparr>hr_PeerExtensionBits = extA, hr_PeerID = idA, hr_Hash = ih\<rparr>, ?a)"
    using assms by (simp_all add: Handshake_def Let_def)
  then show ?thesis by blast
qed

theorem handshakes_meet_witness:
  "\<exists>toB toA.
    Handshake None (Sentinel IoEOF) (Some (replicate 20 7)) (replicate 20 1) (replicate 8 0) toA =
      (Inr \<lparr>hr_PeerExtensionBits = replicate 8 4, hr_PeerID = replicate 20 2, hr_Hash = replicate 20 7\<rparr>, toB) \<and>
    Handshake None (Sentinel IoEOF) None (replicate 20 2) (replicate 8 4) toB =
      (Inr \<lparr>hr_PeerExtensionBits = replicate 8 0, hr_PeerID = replicate 20 1, hr_Hash = replicate 20 7\<rparr>, toA)"
  by (rule handshakes_meet) simp_all

end
