(* ===== verification/Bencode.thy ===== *)
theory Bencode
  imports Timestamps
begin

text \<open>
  The bencode package of the torrent library, \<open>bencode/decode.go\<close> and \<open>bencode/encode.go\<close>: the decoder with
  its input, offset and scratch buffer, decoding into \<open>interface{}\<close> values, the verbatim copy of one value
  (\<open>readOneValue\<close>), and the encoding of such values. Torrent files and the messages of extensions go
  through it, and an info hash is the hash of the bytes \<open>readOneValue\<close> copies.

  The decoder reports malformed input by panicking with an error value, which \<open>Decode\<close> recovers:
  \<open>Throw\<close>. The recursive parsers carry fuel; \<open>2 * length + 1\<close> is enough for every input.
\<close>

section \<open>The decoder's state\<close>

record decoder =
  d_in :: string
  d_Offset :: nat
  d_buf :: string
  d_MaxStrLen :: nat

datatype 'a thrown = Ret 'a | Throw go_error | NoFuel

definition and_then ::
  "'a thrown \<times> decoder \<Rightarrow> ('a \<Rightarrow> decoder \<Rightarrow> 'b thrown \<times> decoder) \<Rightarrow> 'b thrown \<times> decoder" where
  "and_then m f = (case m of (Ret a, d) \<Rightarrow> f a d | (Throw e, d) \<Rightarrow> (Throw e, d) | (NoFuel, d) \<Rightarrow> (NoFuel, d))"

definition DefaultDecodeMaxStrLen :: nat where
  "DefaultDecodeMaxStrLen = 2 ^ 27 - 1"

definition getMaxStrLen :: "decoder \<Rightarrow> nat" where
  "getMaxStrLen d = (if d_MaxStrLen d = 0 then DefaultDecodeMaxStrLen else d_MaxStrLen d)"

definition SyntaxError :: "int \<Rightarrow> go_error \<Rightarrow> go_error" where
  "SyntaxError offset what =
     ErrorString (''bencode: syntax error (offset: '' @ int_dec offset @ ''): '' @ error_msg what)"

definition reset_buf :: "decoder \<Rightarrow> decoder" where
  "reset_buf d = d\<lparr>d_buf := []\<rparr>"

definition readByte :: "decoder \<Rightarrow> char thrown \<times> decoder" where
  "readByte d =
     (case d_in d of
        [] \<Rightarrow> (Throw (SyntaxError (int (d_Offset d)) (Sentinel IoUnexpectedEOF)), d)
      | b # bs \<Rightarrow> (Ret b, d\<lparr>d_in := bs, d_Offset := d_Offset d + 1\<rparr>))"

function readUntil :: "char \<Rightarrow> decoder \<Rightarrow> unit thrown \<times> decoder" where
  "readUntil sep d =
     (case readByte d of
        (Ret b, d) \<Rightarrow> if b = sep then (Ret (), d) else readUntil sep (d\<lparr>d_buf := d_buf d @ [b]\<rparr>)
      | (Throw e, d) \<Rightarrow> (Throw e, d)
      | (NoFuel, d) \<Rightarrow> (NoFuel, d))"
  by pat_completeness auto
termination
  by (relation "measure (\<lambda>(_, d). length (d_in d))") (auto simp: readByte_def split: list.splits)

declare readUntil.simps [simp del]

definition checkBufferedInt :: "decoder \<Rightarrow> go_error option" where
  "checkBufferedInt d =
     (let b = d_buf d in
      if length b \<le> 1 then None
      else (let b = (if hd b = CHR ''-'' then tl b else b) in
            if hd b < CHR ''1'' \<or> hd b > CHR ''9'' then Some (ErrorString ''invalid leading digit'') else None))"

text \<open>The error of \<open>readInt\<close> and of \<open>parseStringLength\<close> is a result, not a panic.\<close>

definition readInt :: "decoder \<Rightarrow> go_error option thrown \<times> decoder" where
  "readInt d = and_then (readUntil (CHR ''e'') d) (\<lambda>_ d. (Ret (checkBufferedInt d), d))"

section \<open>Integers\<close>

text \<open>\<open>strconv.ParseInt(s, 10, 64)\<close>: digits are read until one is invalid or the value no longer fits 64 bits.\<close>

datatype parsed_int = PInt int | PSyntax | PRange

fun parse_uint :: "nat \<Rightarrow> string \<Rightarrow> parsed_int" where
  "parse_uint n [] = PInt (int n)"
| "parse_uint n (c # cs) =
     (if \<not> is_digit c then PSyntax
      else (let n1 = 10 * n + digit_val c in if n1 \<ge> 2 ^ 64 then PRange else parse_uint n1 cs))"

definition split_sign :: "string \<Rightarrow> bool \<times> string" where
  "split_sign s =
     (case s of [] \<Rightarrow> (False, [])
      | c # cs \<Rightarrow> if c = CHR ''-'' then (True, cs) else if c = CHR ''+'' then (False, cs) else (False, s))"

definition ParseInt :: "string \<Rightarrow> parsed_int" where
  "ParseInt s =
     (let (neg, ds) = split_sign s in
      if ds = [] then PSyntax
      else case parse_uint 0 ds of
             PInt un \<Rightarrow>
               if \<not> neg \<and> un \<ge> 2 ^ 63 \<or> neg \<and> un > 2 ^ 63 then PRange else PInt (if neg then - un else un)
           | r \<Rightarrow> r)"

definition NumError :: "string \<Rightarrow> parsed_int \<Rightarrow> go_error" where
  "NumError s r =
     ErrorString (''strconv.ParseInt: parsing '' @ go_quote s @ '': '' @
       (if r = PRange then ''value out of range'' else ''invalid syntax''))"

text \<open>\<open>big.Int.SetString(s, 10)\<close>\<close>

definition SetString :: "string \<Rightarrow> int option" where
  "SetString s =
     (let (neg, ds) = split_sign s in
      if ds \<noteq> [] \<and> list_all is_digit ds then Some (if neg then - int (dec_val ds) else int (dec_val ds)) else None)"

section \<open>Values\<close>

text \<open>A dict is kept as its entries in the order of the keys.\<close>

datatype bvalue =
    BInt int
  | BBig int
  | BStr string
  | BList "bvalue list"
  | BDict "(string \<times> bvalue) list"

definition parseIntInterface :: "decoder \<Rightarrow> bvalue thrown \<times> decoder" where
  "parseIntInterface d =
     (let start = int (d_Offset d) - 1 in
      and_then (readInt d)
        (\<lambda>err d.
           case err of Some e \<Rightarrow> (Throw e, d) | None \<Rightarrow>
           case ParseInt (d_buf d) of
             PInt n \<Rightarrow> (Ret (BInt n), reset_buf d)
           | PRange \<Rightarrow>
               (case SetString (d_buf d) of
                  None \<Rightarrow> (Throw (SyntaxError start (ErrorString ''failed to parse integer'')), d)
                | Some i \<Rightarrow> (Ret (BBig i), reset_buf d))
           | PSyntax \<Rightarrow> (Throw (SyntaxError start (NumError (d_buf d) PSyntax)), d)))"

definition parseStringLength :: "decoder \<Rightarrow> (go_error + nat) thrown \<times> decoder" where
  "parseStringLength d =
     (let start = int (d_Offset d) - 1 in
      and_then (readUntil (CHR '':'') d)
        (\<lambda>_ d.
           case checkBufferedInt d of Some err \<Rightarrow> (Ret (Inl err), d)
           | None \<Rightarrow>
             (case ParseInt (d_buf d) of
                PInt n \<Rightarrow>
                  if n > int (getMaxStrLen d)
                  then (Ret (Inl (ErrorString (''parsed string length '' @ int_dec n @ '' exceeds limit ('' @
                                      nat_dec DefaultDecodeMaxStrLen @ '')''))), reset_buf d)
                  else (Ret (Inr (nat n)), reset_buf d)
              | r \<Rightarrow> (Throw (SyntaxError start (NumError (d_buf d) r)), d))))"

definition readBytes :: "nat \<Rightarrow> decoder \<Rightarrow> string thrown \<times> decoder" where
  "readBytes n d =
     (let b = take n (d_in d); d = d\<lparr>d_in := drop n (d_in d)\<rparr> in
      if length b \<noteq> n
      then (Throw (ErrorString (''read '' @ nat_dec (length b) @ '' bytes expected '' @ nat_dec n)), d)
      else (Ret b, d))"

definition parseStringInterface :: "decoder \<Rightarrow> string thrown \<times> decoder" where
  "parseStringInterface d =
     and_then (parseStringLength d)
       (\<lambda>len d.
          case len of Inl err \<Rightarrow> (Throw err, d)
          | Inr n \<Rightarrow> and_then (readBytes n d) (\<lambda>b d. (Ret b, d\<lparr>d_Offset := d_Offset d + length b\<rparr>)))"

text \<open>\<open>%+q\<close> of a byte.\<close>

definition quote_byte :: "char \<Rightarrow> string" where
  "quote_byte c =
     (let n = (of_char c :: nat) in
      CHR 0x27 # (if n = 39 then [CHR 0x5C, CHR 0x27] else if n = 34 then [c]
                else if n \<ge> 128 then CHR 0x5C # ''u00'' @ [''0123456789abcdef'' ! (n div 16), ''0123456789abcdef'' ! (n mod 16)]
                else quote_char c) @ [CHR 0x27])"

definition raiseUnknownValueType :: "char \<Rightarrow> int \<Rightarrow> go_error" where
  "raiseUnknownValueType b offset = SyntaxError offset (ErrorString (''unknown value type '' @ quote_byte b))"

text \<open>The checks of a dict key: a string, above the last one.\<close>

definition dict_key :: "int \<Rightarrow> string option \<Rightarrow> bvalue \<Rightarrow> decoder \<Rightarrow> string thrown" where
  "dict_key start lastKey v d =
     (case v of
        BStr key \<Rightarrow>
          (case lastKey of
             Some prev \<Rightarrow>
               if key \<le> prev
               then Throw (SyntaxError start (ErrorString (''dict keys unsorted: '' @ go_quote key @ '' <= '' @ go_quote prev)))
               else Ret key
           | None \<Rightarrow> Ret key)
      | _ \<Rightarrow> Throw (SyntaxError (int (d_Offset d)) (ErrorString ''non-string key in a dict'')))"

function (sequential) parseValueInterface :: "nat \<Rightarrow> decoder \<Rightarrow> bvalue option thrown \<times> decoder"
and parseDictInterface :: "nat \<Rightarrow> string option \<Rightarrow> (string \<times> bvalue) list \<Rightarrow> decoder \<Rightarrow> bvalue thrown \<times> decoder"
and parseDictItem :: "nat \<Rightarrow> string \<Rightarrow> (string \<times> bvalue) list \<Rightarrow> decoder \<Rightarrow> bvalue thrown \<times> decoder"
and parseListInterface :: "nat \<Rightarrow> bvalue list \<Rightarrow> decoder \<Rightarrow> bvalue thrown \<times> decoder" where
  "parseValueInterface 0 d = (NoFuel, d)"
| "parseValueInterface (Suc n) d =
     (case d_in d of
        [] \<Rightarrow> (Throw (Sentinel IoEOF), d)
      | b # bs \<Rightarrow>
        (let d = d\<lparr>d_in := bs, d_Offset := d_Offset d + 1\<rparr> in
         if b = CHR ''e'' then (Ret None, d)
         else if b = CHR ''d'' then and_then (parseDictInterface n None [] d) (\<lambda>v d. (Ret (Some v), d))
         else if b = CHR ''l'' then and_then (parseListInterface n [] d) (\<lambda>v d. (Ret (Some v), d))
         else if b = CHR ''i'' then and_then (parseIntInterface d) (\<lambda>v d. (Ret (Some v), d))
         else if is_digit b then
           and_then (parseStringInterface (d\<lparr>d_buf := d_buf d @ [b]\<rparr>)) (\<lambda>s d. (Ret (Some (BStr s)), d))
         else (Throw (raiseUnknownValueType b (int (d_Offset d) - 1)), d)))"
| "parseDictInterface 0 lastKey dict d = (NoFuel, d)"
| "parseDictInterface (Suc n) lastKey dict d =
     (let start = int (d_Offset d) in
      and_then (parseValueInterface n d)
        (\<lambda>keyi d.
           case keyi of
             None \<Rightarrow> (Ret (BDict dict), d)
           | Some v \<Rightarrow>
             (case dict_key start lastKey v d of
                Throw e \<Rightarrow> (Throw e, d)
              | Ret key \<Rightarrow> parseDictItem n key dict d
              | NoFuel \<Rightarrow> (NoFuel, d))))"
| "parseDictItem 0 key dict d = (NoFuel, d)"
| "parseDictItem (Suc n) key dict d =
     (let start = int (d_Offset d) in
      and_then (parseValueInterface n d)
        (\<lambda>valuei d.
           case valuei of
             None \<Rightarrow> (Throw (SyntaxError start (ErrorString (''dict elem missing value [key='' @ key @ '']''))), d)
           | Some v \<Rightarrow> parseDictInterface n (Some key) (dict @ [(key, v)]) d))"
| "parseListInterface 0 list d = (NoFuel, d)"
| "parseListInterface (Suc n) list d =
     and_then (parseValueInterface n d)
       (\<lambda>valuei d. case valuei of None \<Rightarrow> (Ret (BList list), d) | Some v \<Rightarrow> parseListInterface n (list @ [v]) d)"
  by pat_completeness auto
termination
  by (relation "measure (\<lambda>x. case x of Inl (Inl (n, _)) \<Rightarrow> n | Inl (Inr (n, _)) \<Rightarrow> n
        | Inr (Inl (n, _)) \<Rightarrow> n | Inr (Inr (n, _)) \<Rightarrow> n)") simp_all

section \<open>Copying a value verbatim\<close>

text \<open>\<open>readOneValue\<close> appends the bytes of one value to the buffer without looking into numbers; \<open>readItems\<close> is its
  loop over the items of a list or dict, which leaves the closing \<open>e\<close> to its caller.\<close>

definition copy_string :: "decoder \<Rightarrow> nat \<Rightarrow> bool thrown \<times> decoder" where
  "copy_string d start =
     and_then (readUntil (CHR '':'') d)
       (\<lambda>_ d.
          case ParseInt (drop start (d_buf d)) of
            PInt len \<Rightarrow>
              (let b = take (nat len) (d_in d);
                   d = d\<lparr>d_buf := d_buf d @ '':'' @ b, d_in := drop (nat len) (d_in d), d_Offset := d_Offset d + length b\<rparr>
               in if length b < nat len
                  then (Throw (SyntaxError (int (d_Offset d)) (Sentinel IoUnexpectedEOF)), d)
                  else (Ret True, d))
          | r \<Rightarrow> (Throw (SyntaxError (int (d_Offset d) - 1) (NumError (drop start (d_buf d)) r)), d))"

function (sequential) readOneValue :: "nat \<Rightarrow> decoder \<Rightarrow> bool thrown \<times> decoder"
and readItems :: "nat \<Rightarrow> decoder \<Rightarrow> unit thrown \<times> decoder" where
  "readOneValue 0 d = (NoFuel, d)"
| "readOneValue (Suc n) d =
     (case d_in d of
        [] \<Rightarrow> (Throw (Sentinel IoEOF), d)
      | b # bs \<Rightarrow>
        if b = CHR ''e'' then (Ret False, d)
        else
          (let d = d\<lparr>d_in := bs, d_Offset := d_Offset d + 1, d_buf := d_buf d @ [b]\<rparr> in
           if b = CHR ''d'' \<or> b = CHR ''l'' then
             and_then (readItems n d)
               (\<lambda>_ d. and_then (readByte d) (\<lambda>b d. (Ret True, d\<lparr>d_buf := d_buf d @ [b]\<rparr>)))
           else if b = CHR ''i'' then
             and_then (readUntil (CHR ''e'') d) (\<lambda>_ d. (Ret True, d\<lparr>d_buf := d_buf d @ ''e''\<rparr>))
           else if is_digit b then copy_string d (length (d_buf d) - 1)
           else (Throw (raiseUnknownValueType b (int (d_Offset d) - 1)), d)))"
| "readItems 0 d = (NoFuel, d)"
| "readItems (Suc n) d =
     and_then (readOneValue n d) (\<lambda>more d. if more then readItems n d else (Ret (), d))"
  by pat_completeness auto
termination
  by (relation "measure (\<lambda>x. case x of Inl (n, _) \<Rightarrow> n | Inr (n, _) \<Rightarrow> n)") simp_all

section \<open>Decoding and encoding\<close>

text \<open>\<open>Decode\<close> into an \<open>interface{}\<close>: errors thrown while parsing become the result, and the end of input inside
  a value is unexpected. \<open>parseValue\<close> ignores the \<open>ok\<close> of \<open>parseValueInterface\<close>; for an end symbol it sets the
  target to a nil interface value, which the reflection library refuses.\<close>

definition parse_fuel :: "decoder \<Rightarrow> nat" where
  "parse_fuel d = 2 * length (d_in d) + 1"

definition recovered :: "'a thrown \<Rightarrow> go_error + 'a" where
  "recovered r =
     (case r of Ret a \<Rightarrow> Inr a
      | Throw e \<Rightarrow> Inl (if e = Sentinel IoEOF then Sentinel IoUnexpectedEOF else e)
      | NoFuel \<Rightarrow> Inl (ErrorString ''out of fuel''))"

definition zero_value_error :: go_error where
  "zero_value_error = ErrorString ''reflect: call of reflect.Value.Set on zero Value''"

definition parse_interface :: "decoder \<Rightarrow> bvalue thrown \<times> decoder" where
  "parse_interface d =
     and_then (parseValueInterface (parse_fuel d) d)
       (\<lambda>iface d. case iface of None \<Rightarrow> (Throw zero_value_error, d) | Some v \<Rightarrow> (Ret v, d))"

definition Decode_interface :: "decoder \<Rightarrow> (go_error + bvalue) \<times> decoder" where
  "Decode_interface d = (case parse_interface d of (r, d) \<Rightarrow> (recovered r, d))"

definition ReadEOF :: "decoder \<Rightarrow> go_error option" where
  "ReadEOF d = (if d_in d = [] then None else Some (ErrorString ''expected EOF''))"

definition new_decoder :: "string \<Rightarrow> decoder" where
  "new_decoder data = \<lparr>d_in = data, d_Offset = 0, d_buf = [], d_MaxStrLen = 0\<rparr>"

definition ErrUnusedTrailingBytes :: "nat \<Rightarrow> go_error" where
  "ErrUnusedTrailingBytes n = ErrorString (nat_dec n @ '' unused trailing bytes'')"

definition Unmarshal_interface :: "string \<Rightarrow> go_error + bvalue" where
  "Unmarshal_interface data =
     (case Decode_interface (new_decoder data) of
        (Inl err, _) \<Rightarrow> Inl err
      | (Inr v, d) \<Rightarrow>
        if d_in d \<noteq> [] then Inl (ErrUnusedTrailingBytes (length (d_in d)))
        else (case ReadEOF d of Some err \<Rightarrow> Inl err | None \<Rightarrow> Inr v))"

definition writeStringPrefix :: "nat \<Rightarrow> string" where
  "writeStringPrefix l = nat_dec l @ '':''"

definition reflectString :: "string \<Rightarrow> string" where
  "reflectString s = writeStringPrefix (length s) @ s"

fun reflectValue :: "bvalue \<Rightarrow> string" where
  "reflectValue (BInt i) = ''i'' @ int_dec i @ ''e''"
| "reflectValue (BBig i) = ''i'' @ int_dec i @ ''e''"
| "reflectValue (BStr s) = reflectString s"
| "reflectValue (BList vs) = ''l'' @ concat (map reflectValue vs) @ ''e''"
| "reflectValue (BDict kvs) = ''d'' @ concat (map (\<lambda>(k, v). reflectString k @ reflectValue v) kvs) @ ''e''"

end
