(* ===== verification/BencodeFacts.thy ===== *)
theory BencodeFacts
  imports Bencode "HOL-Library.Sublist"
begin

text \<open>
  Bencode is canonical as this decoder reads it: the values it accepts are exactly the encodings of
  well-formed values, one byte string for each value. Also: the parsers always end, and \<open>readOneValue\<close>
  copies exactly the bytes it consumes.
\<close>

section \<open>Sequencing\<close>

lemma and_then_simps [simp]:
  "and_then (Ret a, d) f = f a d" "and_then (Throw e, d) f = (Throw e, d)" "and_then (NoFuel, d) f = (NoFuel, d)"
  by (simp_all add: and_then_def)

lemma and_then_RetE:
  assumes "and_then m f = (Ret b, d')"
  obtains a d where "m = (Ret a, d)" "f a d = (Ret b, d')"
  using assms by (cases m; cases "fst m") auto

lemma and_then_NoFuelE:
  assumes "and_then m f = (NoFuel, d')"
  obtains d where "m = (NoFuel, d)" | a d where "m = (Ret a, d)" "f a d = (NoFuel, d')"
  using assms by (cases m; cases "fst m") auto

text \<open>\<open>d'\<close> is \<open>d\<close> after reading \<open>s\<close>; nothing else changed.\<close>

definition reads :: "decoder \<Rightarrow> string \<Rightarrow> decoder \<Rightarrow> bool" where
  "reads d s d' \<longleftrightarrow> d_in d = s @ d_in d' \<and> d' = d\<lparr>d_in := d_in d', d_Offset := d_Offset d + length s\<rparr>"

lemma readsI: "d_in d = s @ r \<Longrightarrow> d' = d\<lparr>d_in := r, d_Offset := d_Offset d + length s\<rparr> \<Longrightarrow> reads d s d'"
  by (simp add: reads_def)

lemma reads_in: "reads d s d' \<Longrightarrow> d_in d = s @ d_in d'"
  by (simp add: reads_def)

lemma reads_keeps [simp]: "reads d s d' \<Longrightarrow> d_buf d' = d_buf d" "reads d s d' \<Longrightarrow> d_MaxStrLen d' = d_MaxStrLen d"
  by (metis decoder.ext_inject decoder.surjective decoder.update_convs(1,2) reads_def)+

lemma reads_trans: "reads d s d1 \<Longrightarrow> reads d1 t d2 \<Longrightarrow> reads d (s @ t) d2"
  by (cases d; cases d1; cases d2) (auto simp: reads_def)

lemma reads_unique: "reads d s d1 \<Longrightarrow> reads d s d2 \<Longrightarrow> d1 = d2"
  by (cases d; cases d1; cases d2) (auto simp: reads_def)

lemma reads_exists: "d_in d = s @ r \<Longrightarrow> \<exists>d'. reads d s d' \<and> d_in d' = r"
  by (rule exI [of _ "d\<lparr>d_in := r, d_Offset := d_Offset d + length s\<rparr>"]) (simp add: reads_def)

lemma reads_Cons: "d_in d = b # bs \<Longrightarrow> reads d [b] (d\<lparr>d_in := bs, d_Offset := d_Offset d + 1\<rparr>)"
  by (simp add: reads_def)

lemma readUntil_Ret:
  "readUntil sep d = (Ret u, d') \<longleftrightarrow>
    (\<exists>s r. d_in d = s @ sep # r \<and> sep \<notin> set s \<and>
       d' = d\<lparr>d_in := r, d_Offset := d_Offset d + length s + 1, d_buf := d_buf d @ s\<rparr>)"
proof (induction sep d rule: readUntil.induct)
  case (1 sep d)
  show ?case
  proof (cases "d_in d")
    case Nil
    then show ?thesis by (subst readUntil.simps) (simp add: readByte_def)
  next
    case (Cons b bs)
    let ?d = "d\<lparr>d_in := bs, d_Offset := d_Offset d + 1\<rparr>"
    have rb: "readByte d = (Ret b, ?d)" using Cons by (simp add: readByte_def)
    show ?thesis
    proof (cases "b = sep")
      case True
      have "(\<exists>s r. d_in d = s @ sep # r \<and> sep \<notin> set s \<and>
          d' = d\<lparr>d_in := r, d_Offset := d_Offset d + length s + 1, d_buf := d_buf d @ s\<rparr>) \<longleftrightarrow> d' = ?d"
      proof
        assume "\<exists>s r. d_in d = s @ sep # r \<and> sep \<notin> set s \<and>
          d' = d\<lparr>d_in := r, d_Offset := d_Offset d + length s + 1, d_buf := d_buf d @ s\<rparr>"
        then obtain s r where s: "d_in d = s @ sep # r" "sep \<notin> set s"
          "d' = d\<lparr>d_in := r, d_Offset := d_Offset d + length s + 1, d_buf := d_buf d @ s\<rparr>" by blast
        with Cons True have "s = []" by (cases s) auto
        with s Cons show "d' = ?d" by (cases d) simp
      next
        assume "d' = ?d"
        then show "\<exists>s r. d_in d = s @ sep # r \<and> sep \<notin> set s \<and>
          d' = d\<lparr>d_in := r, d_Offset := d_Offset d + length s + 1, d_buf := d_buf d @ s\<rparr>"
          using Cons True by (intro exI [of _ "[]"] exI [of _ bs]) (cases d, simp)
      qed
      then show ?thesis using rb True by (subst readUntil.simps) auto
    next
      case False
      have "(\<exists>s r. d_in d = s @ sep # r \<and> sep \<notin> set s \<and>
          d' = d\<lparr>d_in := r, d_Offset := d_Offset d + length s + 1, d_buf := d_buf d @ s\<rparr>) \<longleftrightarrow>
        (\<exists>s r. bs = s @ sep # r \<and> sep \<notin> set s \<and>
          d' = d\<lparr>d_in := r, d_Offset := d_Offset d + 1 + length s + 1, d_buf := d_buf d @ b # s\<rparr>)"
        (is "?l \<longleftrightarrow> ?r")
      proof
        assume ?l
        then obtain s r where "d_in d = s @ sep # r" "sep \<notin> set s"
          "d' = d\<lparr>d_in := r, d_Offset := d_Offset d + length s + 1, d_buf := d_buf d @ s\<rparr>" by blast
        then show ?r using Cons False by (cases s) auto
      next
        assume ?r
        then obtain s r where "bs = s @ sep # r" "sep \<notin> set s"
          "d' = d\<lparr>d_in := r, d_Offset := d_Offset d + 1 + length s + 1, d_buf := d_buf d @ b # s\<rparr>" by blast
        then show ?l using Cons False by (intro exI [of _ "b # s"] exI [of _ r]) auto
      qed
      with 1 [OF rb [symmetric] refl False] rb False show ?thesis by (subst readUntil.simps) simp
    qed
  qed
qed

lemma readUntil_no_fuel [simp]: "readUntil sep d \<noteq> (NoFuel, d')"
proof (induction sep d rule: readUntil.induct)
  case (1 sep d)
  then show ?case by (subst readUntil.simps) (auto simp: readByte_def split: list.splits)
qed

section \<open>Integers\<close>


lemma foldl_digits_ge: "(n::nat) \<le> foldl (\<lambda>n c. 10 * n + digit_val c) n ds"
proof (induction ds arbitrary: n)
  case (Cons c cs)
  from Cons [of "10 * n + digit_val c"] show ?case by simp
qed simp

lemma parse_uint_digits:
  "list_all is_digit ds \<Longrightarrow> n < 2 ^ 64 \<Longrightarrow>
    parse_uint n ds = (let v = foldl (\<lambda>n c. 10 * n + digit_val c) n ds in if v < 2 ^ 64 then PInt (int v) else PRange)"
proof (induction ds arbitrary: n)
  case (Cons c cs)
  show ?case
  proof (cases "10 * n + digit_val c < 2 ^ 64")
    case True
    with Cons show ?thesis by (simp add: Let_def)
  next
    case False
    with Cons.prems foldl_digits_ge [of "10 * n + digit_val c" cs] show ?thesis by (simp add: Let_def)
  qed
qed simp

lemma parse_uint_PInt: "parse_uint n ds = PInt i \<Longrightarrow> list_all is_digit ds"
  by (induction n ds rule: parse_uint.induct) (auto simp: Let_def split: if_splits)

lemma parse_uint_dec: "list_all is_digit ds \<Longrightarrow>
    parse_uint 0 ds = (if dec_val ds < 2 ^ 64 then PInt (int (dec_val ds)) else PRange)"
  using parse_uint_digits [of ds 0] by (simp add: dec_val_def Let_def)

lemma split_sign_nat [simp]: "split_sign (nat_dec n) = (False, nat_dec n)"
proof -
  obtain c cs where c: "nat_dec n = c # cs" using nat_dec_digits [of n] by (cases "nat_dec n") auto
  then have "is_digit c" using nat_dec_digits [of n] by simp
  then show ?thesis by (auto simp: split_sign_def c is_digit_def)
qed

lemma split_sign_int: "split_sign (int_dec i) = (i < 0, nat_dec (nat \<bar>i\<bar>))"
  by (simp add: int_dec_def) (simp add: split_sign_def)

lemma ParseInt_int_dec: "ParseInt (int_dec i) = (if fits64 i then PInt i else PRange)"
  using nat_dec_digits [of "nat \<bar>i\<bar>"]
  by (auto simp: ParseInt_def split_sign_int parse_uint_dec dec_val_nat_dec fits64_def)

lemma SetString_int_dec: "SetString (int_dec i) = Some i"
  using nat_dec_digits [of "nat \<bar>i\<bar>"] by (simp add: SetString_def split_sign_int dec_val_nat_dec)

lemma digit_order: "\<not> (c < CHR ''1'' \<or> c > CHR ''9'') \<longleftrightarrow> is_digit c \<and> c \<noteq> CHR ''0''"
proof -
  have "(of_char c :: nat) = 48 \<longleftrightarrow> c = CHR ''0''"
    using of_char_eq_iff [where 'a = nat, of c "CHR ''0''"] by simp
  then show ?thesis unfolding less_char_def is_digit_def by (simp add: not_less) linarith
qed

lemma checkBufferedInt_None:
  "checkBufferedInt d = None \<longleftrightarrow> length (d_buf d) \<le> 1 \<or>
    is_digit (hd (if hd (d_buf d) = CHR ''-'' then tl (d_buf d) else d_buf d)) \<and>
    hd (if hd (d_buf d) = CHR ''-'' then tl (d_buf d) else d_buf d) \<noteq> CHR ''0''"
  unfolding digit_order [symmetric] checkBufferedInt_def Let_def by simp

text \<open>What passes the check and parses is the decimal notation of the number.\<close>

definition canonical_digits :: "string \<Rightarrow> bool" where
  "canonical_digits ds \<longleftrightarrow> list_all is_digit ds \<and> ds \<noteq> [] \<and> (length ds = 1 \<or> hd ds \<noteq> CHR ''0'')"

lemma checked_sign:
  assumes "checkBufferedInt d = None" "split_sign (d_buf d) = (neg, ds)" "list_all is_digit ds" "ds \<noteq> []"
  shows "d_buf d = int_dec (if neg then - int (dec_val ds) else int (dec_val ds))"
proof (cases neg)
    case True
    then have b: "d_buf d = CHR ''-'' # ds" using assms(2)
      by (auto simp: split_sign_def split: list.splits if_splits)
    then have h: "hd ds \<noteq> CHR ''0''"
      using assms(1,4) unfolding checkBufferedInt_None b by simp
    then have "nat_dec (dec_val ds) = ds" "0 < dec_val ds"
      using assms(3,4) nat_dec_dec_val dec_val_pos by auto
    then show ?thesis using True b by (simp add: int_dec_def)
  next
    case False
    have b: "d_buf d = ds"
    proof (rule ccontr)
      assume "d_buf d \<noteq> ds"
      then have "d_buf d = CHR ''+'' # ds" using assms(2) False
        by (auto simp: split_sign_def split: list.splits if_splits)
      then show False using assms(1,4) unfolding checkBufferedInt_None by (simp add: is_digit_def)
    qed
    have "hd ds \<noteq> CHR ''-''" using assms(3,4) by (cases ds) (auto simp: is_digit_def)
    then have "length ds = 1 \<or> hd ds \<noteq> CHR ''0''"
      using assms(1,4) unfolding checkBufferedInt_None b by (cases ds) auto
    then show ?thesis using False b assms(3,4) nat_dec_dec_val [of ds] by (simp add: int_dec_def)
qed

lemma ParseInt_checked:
  assumes "checkBufferedInt d = None" "ParseInt (d_buf d) = PInt i"
  shows "d_buf d = int_dec i \<and> fits64 i"
proof -
  obtain neg ds where s: "split_sign (d_buf d) = (neg, ds)" by force
  with assms(2) have ds: "ds \<noteq> []" "list_all is_digit ds"
    by (auto simp: ParseInt_def dest: parse_uint_PInt split: if_splits parsed_int.splits)
  note c = checked_sign [OF assms(1) s ds(2,1)]
  from assms(2) s ds have "i = (if neg then - int (dec_val ds) else int (dec_val ds))"
    by (auto simp: ParseInt_def parse_uint_dec split: if_splits)
  with c have "d_buf d = int_dec i" by simp
  moreover from this assms(2) have "fits64 i" by (simp add: ParseInt_int_dec split: if_splits)
  ultimately show ?thesis by blast
qed

lemma SetString_checked:
  assumes "checkBufferedInt d = None" "ParseInt (d_buf d) = PRange" "SetString (d_buf d) = Some i"
  shows "d_buf d = int_dec i \<and> \<not> fits64 i"
proof -
  obtain neg ds where s: "split_sign (d_buf d) = (neg, ds)" by force
  with assms(3) have ds: "ds \<noteq> []" "list_all is_digit ds"
    and i: "i = (if neg then - int (dec_val ds) else int (dec_val ds))"
    by (auto simp: SetString_def split: if_splits)
  from checked_sign [OF assms(1) s ds(2,1)] i have "d_buf d = int_dec i" by simp
  moreover from this assms(2) have "\<not> fits64 i" by (simp add: ParseInt_int_dec split: if_splits)
  ultimately show ?thesis by blast
qed

lemma checkBufferedInt_int_dec: "d_buf d = int_dec i \<Longrightarrow> checkBufferedInt d = None"
proof -
  assume b: "d_buf d = int_dec i"
  have n: "hd (nat_dec n) \<noteq> CHR ''-''" "is_digit (hd (nat_dec n))" for n
    using nat_dec_digits [of n] by (cases "nat_dec n"; auto simp: is_digit_def)+
  have z: "length (nat_dec n) = 1 \<or> hd (nat_dec n) \<noteq> CHR ''0''" for n
    using nat_dec_head [of n] by (cases "n = 0") (simp_all add: nat_dec.simps)
  have "hd (nat_dec n) \<noteq> CHR ''0''" if "\<not> length (nat_dec n) \<le> 1" for n using z [of n] that by simp
  moreover have "hd (nat_dec (nat (- i))) \<noteq> CHR ''0''" if "i < 0" using that nat_dec_head by simp
  ultimately show ?thesis
    using n unfolding checkBufferedInt_None b by (auto simp: int_dec_def)
qed

lemma int_dec_chars: "c \<in> set (int_dec i) \<Longrightarrow> is_digit c \<or> c = CHR ''-''"
  using nat_dec_digits by (auto simp: int_dec_def list_all_iff split: if_splits)

definition int_value :: "int \<Rightarrow> bvalue" where
  "int_value i = (if fits64 i then BInt i else BBig i)"

lemma parseIntInterface_iff:
  assumes "d_buf d = []"
  shows "parseIntInterface d = (Ret v, d') \<longleftrightarrow> (\<exists>i. v = int_value i \<and> reads d (int_dec i @ ''e'') d')"
proof
  assume "parseIntInterface d = (Ret v, d')"
  then obtain d1 where r: "readInt d = (Ret None, d1)" and
    v: "(\<exists>i. ParseInt (d_buf d1) = PInt i \<and> v = BInt i) \<or>
        (\<exists>i. ParseInt (d_buf d1) = PRange \<and> SetString (d_buf d1) = Some i \<and> v = BBig i)" "d' = reset_buf d1"
    by (auto simp: parseIntInterface_def Let_def elim!: and_then_RetE split: parsed_int.splits option.splits)
  from r have c: "checkBufferedInt d1 = None" and u: "readUntil (CHR ''e'') d = (Ret (), d1)"
    by (auto simp: readInt_def elim!: and_then_RetE)
  from u [unfolded readUntil_Ret] obtain s rest where s: "d_in d = s @ CHR ''e'' # rest"
    "d1 = d\<lparr>d_in := rest, d_Offset := d_Offset d + length s + 1, d_buf := d_buf d @ s\<rparr>" by blast
  have b: "d_buf d1 = s" using s assms by simp
  from v(1) have "\<exists>i. d_buf d1 = int_dec i \<and> v = int_value i"
    using ParseInt_checked [OF c] SetString_checked [OF c] unfolding int_value_def by metis
  then obtain i where i: "d_buf d1 = int_dec i" "v = int_value i" by blast
  have "reads d (int_dec i @ ''e'') d'"
    using s b i(1) v(2) assms by (cases d) (simp add: reads_def reset_buf_def)
  with i show "\<exists>i. v = int_value i \<and> reads d (int_dec i @ ''e'') d'" by blast
next
  assume "\<exists>i. v = int_value i \<and> reads d (int_dec i @ ''e'') d'"
  then obtain i where v: "v = int_value i" and r: "reads d (int_dec i @ ''e'') d'" by blast
  let ?d = "d\<lparr>d_in := d_in d', d_Offset := d_Offset d + length (int_dec i) + 1, d_buf := d_buf d @ int_dec i\<rparr>"
  have "CHR ''e'' \<notin> set (int_dec i)" using int_dec_chars by (fastforce simp: is_digit_def)
  then have "readUntil (CHR ''e'') d = (Ret (), ?d)"
    unfolding readUntil_Ret using reads_in [OF r] by auto
  moreover have "d_buf ?d = int_dec i" using assms by simp
  moreover have "d' = reset_buf ?d" using r assms by (cases d; cases d') (auto simp: reads_def reset_buf_def)
  ultimately show "parseIntInterface d = (Ret v, d')"
    using v checkBufferedInt_int_dec [of ?d i]
    by (auto simp: parseIntInterface_def readInt_def ParseInt_int_dec SetString_int_dec int_value_def)
qed

section \<open>Strings\<close>

lemma int_dec_digit: "int_dec n = b # t \<Longrightarrow> is_digit b \<Longrightarrow> 0 \<le> n \<and> nat_dec (nat n) = b # t"
  by (auto simp: int_dec_def is_digit_def split: if_splits)

lemma nat_dec_no_colon: "CHR '':'' \<notin> set (nat_dec n)"
  using nat_dec_digits [of n] by (auto simp: list_all_iff is_digit_def)

lemma getMaxStrLen_update [simp]:
  "getMaxStrLen (d\<lparr>d_in := x\<rparr>) = getMaxStrLen d" "getMaxStrLen (d\<lparr>d_Offset := k\<rparr>) = getMaxStrLen d"
  "getMaxStrLen (d\<lparr>d_buf := b\<rparr>) = getMaxStrLen d"
  by (simp_all add: getMaxStrLen_def)

lemma parseStringLength_iff:
  assumes "d_buf d = [b]" "is_digit b"
  shows "parseStringLength d = (Ret (Inr n), d') \<longleftrightarrow>
    (\<exists>t. nat_dec n = b # t \<and> n \<le> getMaxStrLen d \<and> n < 2 ^ 63 \<and> reads (d\<lparr>d_buf := []\<rparr>) (t @ '':'') d')"
proof
  assume "parseStringLength d = (Ret (Inr n), d')"
  then obtain d1 m where u: "readUntil (CHR '':'') d = (Ret (), d1)" and c: "checkBufferedInt d1 = None"
    and p: "ParseInt (d_buf d1) = PInt m" "m \<le> int (getMaxStrLen d1)" "n = nat m" "d' = reset_buf d1"
    by (auto simp: parseStringLength_def Let_def elim!: and_then_RetE split: parsed_int.splits option.splits if_splits)
  from u [unfolded readUntil_Ret] obtain s rest where s: "d_in d = s @ CHR '':'' # rest"
    "d1 = d\<lparr>d_in := rest, d_Offset := d_Offset d + length s + 1, d_buf := d_buf d @ s\<rparr>" by blast
  have m: "int_dec m = b # s" "fits64 m" using ParseInt_checked [OF c p(1)] s assms by simp_all
  then have "0 \<le> m" "nat_dec n = b # s" using int_dec_digit [OF m(1) assms(2)] p(3) by simp_all
  moreover have "reads (d\<lparr>d_buf := []\<rparr>) (s @ '':'') d'" using s p(4) by (cases d) (simp add: reads_def reset_buf_def)
  moreover have "n \<le> getMaxStrLen d" using p s by simp
  ultimately show "\<exists>t. nat_dec n = b # t \<and> n \<le> getMaxStrLen d \<and> n < 2 ^ 63 \<and> reads (d\<lparr>d_buf := []\<rparr>) (t @ '':'') d'"
    using m(2) p(3) by (auto simp: fits64_def)
next
  assume "\<exists>t. nat_dec n = b # t \<and> n \<le> getMaxStrLen d \<and> n < 2 ^ 63 \<and> reads (d\<lparr>d_buf := []\<rparr>) (t @ '':'') d'"
  then obtain t where t: "nat_dec n = b # t" "n \<le> getMaxStrLen d" "n < 2 ^ 63"
    and r: "reads (d\<lparr>d_buf := []\<rparr>) (t @ '':'') d'" by blast
  let ?d = "d\<lparr>d_in := d_in d', d_Offset := d_Offset d + length t + 1, d_buf := d_buf d @ t\<rparr>"
  have "CHR '':'' \<notin> set t" using nat_dec_no_colon [of n] t(1) by simp
  then have "readUntil (CHR '':'') d = (Ret (), ?d)"
    unfolding readUntil_Ret using reads_in [OF r] by auto
  moreover have b: "d_buf ?d = int_dec (int n)" using assms t(1) by (simp add: int_dec_def)
  moreover have "fits64 (int n)" using t(3) by (simp add: fits64_def)
  moreover have "d' = reset_buf ?d" using r by (cases d; cases d') (auto simp: reads_def reset_buf_def)
  ultimately show "parseStringLength d = (Ret (Inr n), d')"
    using t(2) checkBufferedInt_int_dec [OF b]
    by (simp add: parseStringLength_def ParseInt_int_dec)
qed

lemma parseStringInterface_iff:
  assumes "d_buf d = [b]" "is_digit b"
  shows "parseStringInterface d = (Ret s, d') \<longleftrightarrow>
    (\<exists>t. reflectString s = b # t \<and> length s \<le> getMaxStrLen d \<and> length s < 2 ^ 63 \<and> reads (d\<lparr>d_buf := []\<rparr>) t d')"
proof
  assume "parseStringInterface d = (Ret s, d')"
  then obtain n d1 d2 where p: "parseStringLength d = (Ret (Inr n), d1)" and rb: "readBytes n d1 = (Ret s, d2)"
    and d': "d' = d2\<lparr>d_Offset := d_Offset d2 + length s\<rparr>"
    unfolding parseStringInterface_def by (auto elim!: and_then_RetE split: sum.splits)
  then have s: "s = take n (d_in d1)" "length s = n" "d' = d1\<lparr>d_in := drop n (d_in d1), d_Offset := d_Offset d1 + length s\<rparr>"
    unfolding readBytes_def Let_def by (auto split: if_splits)
  from p [unfolded parseStringLength_iff [OF assms]] obtain t where
    t: "nat_dec n = b # t" "n \<le> getMaxStrLen d" "n < 2 ^ 63" "reads (d\<lparr>d_buf := []\<rparr>) (t @ '':'') d1" by blast
  have "reads d1 s d'" using s by (intro readsI [of _ _ "drop n (d_in d1)"]) simp_all
  from reads_trans [OF t(4) this] t s(2)
  show "\<exists>t. reflectString s = b # t \<and> length s \<le> getMaxStrLen d \<and> length s < 2 ^ 63 \<and> reads (d\<lparr>d_buf := []\<rparr>) t d'"
    by (auto simp: reflectString_def writeStringPrefix_def)
next
  assume "\<exists>t. reflectString s = b # t \<and> length s \<le> getMaxStrLen d \<and> length s < 2 ^ 63 \<and> reads (d\<lparr>d_buf := []\<rparr>) t d'"
  then obtain t where t: "reflectString s = b # t" "length s \<le> getMaxStrLen d" "length s < 2 ^ 63"
    and r: "reads (d\<lparr>d_buf := []\<rparr>) t d'" by blast
  obtain u where u: "nat_dec (length s) = b # u" "t = (u @ '':'') @ s"
    using t(1) nat_dec_digits [of "length s"]
    by (cases "nat_dec (length s)") (auto simp: reflectString_def writeStringPrefix_def)
  have "d_in (d\<lparr>d_buf := []\<rparr>) = (u @ '':'') @ s @ d_in d'" using reads_in [OF r] u(2) by simp
  from reads_exists [OF this] obtain d1 where d1: "reads (d\<lparr>d_buf := []\<rparr>) (u @ '':'') d1" "d_in d1 = s @ d_in d'" by blast
  then have "parseStringLength d = (Ret (Inr (length s)), d1)"
    unfolding parseStringLength_iff [OF assms] using u t by blast
  moreover have "d' = d1\<lparr>d_in := d_in d', d_Offset := d_Offset d1 + length s\<rparr>"
    using r d1 u(2) by (cases d; cases d1; cases d') (auto simp: reads_def)
  ultimately show "parseStringInterface d = (Ret s, d')"
    using d1(2) by (simp add: parseStringInterface_def readBytes_def)
qed

section \<open>Accepted input is an encoding\<close>

fun wf_bvalue :: "nat \<Rightarrow> bvalue \<Rightarrow> bool" where
  "wf_bvalue mx (BInt i) \<longleftrightarrow> fits64 i"
| "wf_bvalue mx (BBig i) \<longleftrightarrow> \<not> fits64 i"
| "wf_bvalue mx (BStr s) \<longleftrightarrow> length s \<le> mx"
| "wf_bvalue mx (BList vs) \<longleftrightarrow> (\<forall>v \<in> set vs. wf_bvalue mx v)"
| "wf_bvalue mx (BDict kvs) \<longleftrightarrow> sorted_wrt (<) (map fst kvs) \<and> (\<forall>(k, v) \<in> set kvs. length k \<le> mx \<and> wf_bvalue mx v)"

abbreviation item :: "string \<times> bvalue \<Rightarrow> string" where
  "item kv \<equiv> reflectString (fst kv) @ reflectValue (snd kv)"

lemma reflectValue_BDict: "reflectValue (BDict kvs) = ''d'' @ concat (map item kvs) @ ''e''"
  by (simp add: case_prod_unfold)

lemma wf_BDict: "wf_bvalue mx (BDict kvs) \<longleftrightarrow>
    sorted_wrt (<) (map fst kvs) \<and> (\<forall>kv \<in> set kvs. length (fst kv) \<le> mx \<and> wf_bvalue mx (snd kv))"
  by (simp add: split_beta)

definition limit :: "decoder \<Rightarrow> nat" where
  "limit d = min (getMaxStrLen d) (2 ^ 63 - 1)"

lemma limit_reads [simp]: "reads d s d' \<Longrightarrow> limit d' = limit d"
  by (simp add: limit_def getMaxStrLen_def)

definition sound_value :: "nat \<Rightarrow> bool" where
  "sound_value n \<longleftrightarrow> (\<forall>d d' r. d_buf d = [] \<longrightarrow> parseValueInterface n d = (Ret r, d') \<longrightarrow>
     (case r of None \<Rightarrow> reads d ''e'' d' | Some v \<Rightarrow> wf_bvalue (limit d) v \<and> reads d (reflectValue v) d'))"

definition sound_list :: "nat \<Rightarrow> bool" where
  "sound_list n \<longleftrightarrow> (\<forall>d d' acc v. d_buf d = [] \<longrightarrow> parseListInterface n acc d = (Ret v, d') \<longrightarrow>
     (\<exists>vs. v = BList (acc @ vs) \<and> (\<forall>x \<in> set vs. wf_bvalue (limit d) x) \<and> reads d (concat (map reflectValue vs) @ ''e'') d'))"

definition sound_dict :: "nat \<Rightarrow> bool" where
  "sound_dict n \<longleftrightarrow> (\<forall>d d' last acc v. d_buf d = [] \<longrightarrow> parseDictInterface n last acc d = (Ret v, d') \<longrightarrow>
     (\<exists>kvs. v = BDict (acc @ kvs) \<and> wf_bvalue (limit d) (BDict kvs) \<and> reads d (concat (map item kvs) @ ''e'') d' \<and>
        (\<forall>k \<in> set (map fst kvs). \<forall>p. last = Some p \<longrightarrow> p < k)))"

definition sound_item :: "nat \<Rightarrow> bool" where
  "sound_item n \<longleftrightarrow> (\<forall>d d' key acc v. d_buf d = [] \<longrightarrow> parseDictItem n key acc d = (Ret v, d') \<longrightarrow>
     (\<exists>x kvs. v = BDict (acc @ (key, x) # kvs) \<and> wf_bvalue (limit d) x \<and> wf_bvalue (limit d) (BDict kvs) \<and>
        reads d (reflectValue x @ concat (map item kvs) @ ''e'') d' \<and> (\<forall>k \<in> set (map fst kvs). key < k)))"

lemma reads_nil [simp]: "reads d [] d"
  by (simp add: reads_def)

lemma sound_list_step: "sound_value n \<Longrightarrow> sound_list n \<Longrightarrow> sound_list (Suc n)"
  unfolding sound_list_def
proof (intro allI impI)
  fix d d' acc v
  assume v: "sound_value n" and l: "\<forall>d d' acc v. d_buf d = [] \<longrightarrow> parseListInterface n acc d = (Ret v, d') \<longrightarrow>
     (\<exists>vs. v = BList (acc @ vs) \<and> (\<forall>x \<in> set vs. wf_bvalue (limit d) x) \<and> reads d (concat (map reflectValue vs) @ ''e'') d')"
    and b: "d_buf d = []" and run: "parseListInterface (Suc n) acc d = (Ret v, d')"
  from run obtain r d1 where r: "parseValueInterface n d = (Ret r, d1)" and
    k: "(case r of None \<Rightarrow> (Ret (BList acc), d1) | Some v \<Rightarrow> parseListInterface n (acc @ [v]) d1) = (Ret v, d')"
    by (auto elim: and_then_RetE)
  note s = v [unfolded sound_value_def, rule_format, OF b r]
  show "\<exists>vs. v = BList (acc @ vs) \<and> (\<forall>x \<in> set vs. wf_bvalue (limit d) x) \<and> reads d (concat (map reflectValue vs) @ ''e'') d'"
  proof (cases r)
    case None
    with s k show ?thesis by (intro exI [of _ "[]"]) simp
  next
    case (Some x)
    then have x: "wf_bvalue (limit d) x" "reads d (reflectValue x) d1" using s by simp_all
    with k Some b l [rule_format, of d1 "acc @ [x]" v d'] obtain vs where
      vs: "v = BList (acc @ x # vs)" "\<forall>y \<in> set vs. wf_bvalue (limit d1) y" "reads d1 (concat (map reflectValue vs) @ ''e'') d'"
      by auto
    with x reads_trans [OF x(2) vs(3)] show ?thesis by (intro exI [of _ "x # vs"]) simp
  qed
qed

lemma sound_item_step: "sound_value n \<Longrightarrow> sound_dict n \<Longrightarrow> sound_item (Suc n)"
  unfolding sound_item_def
proof (intro allI impI)
  fix d d' key acc v
  assume v: "sound_value n" and l: "sound_dict n" and b: "d_buf d = []"
    and run: "parseDictItem (Suc n) key acc d = (Ret v, d')"
  from run obtain r d1 where r: "parseValueInterface n d = (Ret r, d1)" and
    k: "\<exists>x. r = Some x \<and> parseDictInterface n (Some key) (acc @ [(key, x)]) d1 = (Ret v, d')"
    by (auto simp: Let_def elim!: and_then_RetE split: option.splits)
  note s = v [unfolded sound_value_def, rule_format, OF b r]
  from k obtain x where x: "r = Some x" "parseDictInterface n (Some key) (acc @ [(key, x)]) d1 = (Ret v, d')" by blast
  then have w: "wf_bvalue (limit d) x" "reads d (reflectValue x) d1" using s by simp_all
  have "d_buf d1 = []" using w(2) b by simp
  from l [unfolded sound_dict_def, rule_format, OF this x(2)] obtain kvs where
    kvs: "v = BDict (acc @ (key, x) # kvs)" "wf_bvalue (limit d1) (BDict kvs)" "reads d1 (concat (map item kvs) @ ''e'') d'"
      "\<forall>k \<in> set (map fst kvs). key < k" by auto
  show "\<exists>x kvs. v = BDict (acc @ (key, x) # kvs) \<and> wf_bvalue (limit d) x \<and> wf_bvalue (limit d) (BDict kvs) \<and>
        reads d (reflectValue x @ concat (map item kvs) @ ''e'') d' \<and> (\<forall>k \<in> set (map fst kvs). key < k)"
    using kvs w reads_trans [OF w(2) kvs(3)] by (intro exI [of _ x] exI [of _ kvs]) simp
qed

lemma dict_key_Ret: "dict_key start lastKey v d = Ret key \<longleftrightarrow> v = BStr key \<and> (\<forall>p. lastKey = Some p \<longrightarrow> p < key)"
  by (auto simp: dict_key_def not_le split: bvalue.splits option.splits)

lemma sound_dict_step: "sound_value n \<Longrightarrow> sound_item n \<Longrightarrow> sound_dict (Suc n)"
  unfolding sound_dict_def
proof (intro allI impI)
  fix d d' lastKey acc v
  assume v: "sound_value n" and l: "sound_item n" and b: "d_buf d = []"
    and run: "parseDictInterface (Suc n) lastKey acc d = (Ret v, d')"
  from run obtain r d1 where r: "parseValueInterface n d = (Ret r, d1)" and
    k: "(case r of None \<Rightarrow> (Ret (BDict acc), d1)
         | Some x \<Rightarrow> (case dict_key (int (d_Offset d)) lastKey x d1 of Throw e \<Rightarrow> (Throw e, d1)
             | Ret key \<Rightarrow> parseDictItem n key acc d1 | NoFuel \<Rightarrow> (NoFuel, d1))) = (Ret v, d')"
    by (auto simp: Let_def elim!: and_then_RetE)
  note s = v [unfolded sound_value_def, rule_format, OF b r]
  show "\<exists>kvs. v = BDict (acc @ kvs) \<and> wf_bvalue (limit d) (BDict kvs) \<and> reads d (concat (map item kvs) @ ''e'') d' \<and>
        (\<forall>k \<in> set (map fst kvs). \<forall>p. lastKey = Some p \<longrightarrow> p < k)"
  proof (cases r)
    case None
    with s k show ?thesis by (intro exI [of _ "[]"]) simp
  next
    case (Some y)
    with k obtain key where key: "dict_key (int (d_Offset d)) lastKey y d1 = Ret key"
      and it: "parseDictItem n key acc d1 = (Ret v, d')" by (auto split: thrown.splits)
    then have y: "y = BStr key" "\<forall>p. lastKey = Some p \<longrightarrow> p < key" unfolding dict_key_Ret by auto
    with s Some have w: "length key \<le> limit d" "reads d (reflectString key) d1" by simp_all
    then have "d_buf d1 = []" using b by simp
    from l [unfolded sound_item_def, rule_format, OF this it] obtain x kvs where
      x: "v = BDict (acc @ (key, x) # kvs)" "wf_bvalue (limit d1) x" "wf_bvalue (limit d1) (BDict kvs)"
        "reads d1 (reflectValue x @ concat (map item kvs) @ ''e'') d'" "\<forall>k \<in> set (map fst kvs). key < k" by blast
    have "wf_bvalue (limit d) (BDict ((key, x) # kvs))"
      using x(2,3,5) w by (simp add: wf_BDict del: wf_bvalue.simps(5))
    moreover have "\<forall>k \<in> set (map fst ((key, x) # kvs)). \<forall>p. lastKey = Some p \<longrightarrow> p < k"
      using x(5) y(2) by fastforce
    ultimately show ?thesis using x(1) reads_trans [OF w(2) x(4)] by (intro exI [of _ "(key, x) # kvs"]) simp
  qed
qed

lemma wf_int_value [simp]: "wf_bvalue mx (int_value i)"
  by (simp add: int_value_def)

lemma reflectValue_int_value [simp]: "reflectValue (int_value i) = ''i'' @ int_dec i @ ''e''"
  by (simp add: int_value_def)

lemma sound_value_step: "sound_list n \<Longrightarrow> sound_dict n \<Longrightarrow> sound_value (Suc n)"
  unfolding sound_value_def
proof (intro allI impI)
  fix d d' r
  assume l: "sound_list n" and di: "sound_dict n" and buf: "d_buf d = []"
    and run: "parseValueInterface (Suc n) d = (Ret r, d')"
  from run obtain b bs where inn: "d_in d = b # bs" by (cases "d_in d") auto
  define d1 where "d1 = d\<lparr>d_in := bs, d_Offset := d_Offset d + 1\<rparr>"
  have rd: "reads d [b] d1" unfolding d1_def by (rule reads_Cons [OF inn])
  have b1: "d_buf d1 = []" using buf by (simp add: d1_def)
  have lim: "limit d1 = limit d" using rd by simp
  let ?P = "case r of None \<Rightarrow> reads d ''e'' d' | Some v \<Rightarrow> wf_bvalue (limit d) v \<and> reads d (reflectValue v) d'"
  consider (e) "b = CHR ''e''" "r = None" "d' = d1"
    | (dict) v where "b = CHR ''d''" "r = Some v" "parseDictInterface n None [] d1 = (Ret v, d')"
    | (list) v where "b = CHR ''l''" "r = Some v" "parseListInterface n [] d1 = (Ret v, d')"
    | (num) v where "b = CHR ''i''" "r = Some v" "parseIntInterface d1 = (Ret v, d')"
    | (str) s where "is_digit b" "r = Some (BStr s)" "parseStringInterface (d1\<lparr>d_buf := d_buf d1 @ [b]\<rparr>) = (Ret s, d')"
    using run inn by (auto simp: d1_def Let_def elim!: and_then_RetE split: if_splits)
  then show ?P
  proof cases
    case e
    with rd show ?thesis by simp
  next
    case dict
    from di [unfolded sound_dict_def, rule_format, OF b1 dict(3)] obtain kvs where
      "v = BDict kvs" "wf_bvalue (limit d1) (BDict kvs)" "reads d1 (concat (map item kvs) @ ''e'') d'" by auto
    with dict(1,2) lim reads_trans [OF rd] show ?thesis by (simp add: reflectValue_BDict wf_BDict del: wf_bvalue.simps reflectValue.simps)
  next
    case list
    from l [unfolded sound_list_def, rule_format, OF b1 list(3)] obtain vs where
      "v = BList vs" "\<forall>x \<in> set vs. wf_bvalue (limit d1) x" "reads d1 (concat (map reflectValue vs) @ ''e'') d'" by auto
    with list(1,2) lim reads_trans [OF rd] show ?thesis by simp
  next
    case num
    then obtain i where "v = int_value i" "reads d1 (int_dec i @ ''e'') d'" unfolding parseIntInterface_iff [OF b1] by blast
    with num(1,2) reads_trans [OF rd] show ?thesis by simp
  next
    case str
    have "d_buf (d1\<lparr>d_buf := d_buf d1 @ [b]\<rparr>) = [b]" using b1 by simp
    from str(3) [unfolded parseStringInterface_iff [OF this str(1)]] obtain t where
      t: "reflectString s = b # t" "length s \<le> getMaxStrLen d1" "length s < 2 ^ 63" "reads (d1\<lparr>d_buf := []\<rparr>) t d'" by auto
    moreover have "d1\<lparr>d_buf := []\<rparr> = d1" using b1 by (cases d1) simp
    moreover have "getMaxStrLen d1 = getMaxStrLen d" by (simp add: d1_def)
    ultimately show ?thesis using str(2) reads_trans [OF rd, of t d'] by (simp add: limit_def)
  qed
qed

lemma sound_all: "sound_value n \<and> sound_list n \<and> sound_dict n \<and> sound_item n"
proof (induction n)
  case 0
  show ?case by (simp add: sound_value_def sound_list_def sound_dict_def sound_item_def)
next
  case (Suc n)
  then show ?case using sound_value_step sound_list_step sound_dict_step sound_item_step by blast
qed

lemma parseValueInterface_sound:
  assumes "d_buf d = []" "parseValueInterface n d = (Ret r, d')"
  shows "case r of None \<Rightarrow> reads d ''e'' d' | Some v \<Rightarrow> wf_bvalue (limit d) v \<and> reads d (reflectValue v) d'"
  using sound_all [of n] assms unfolding sound_value_def by blast

section \<open>Encodings are accepted\<close>

definition accepts :: "bvalue \<Rightarrow> bool" where
  "accepts v \<longleftrightarrow> (\<forall>n d d'. d_buf d = [] \<longrightarrow> wf_bvalue (limit d) v \<longrightarrow> reads d (reflectValue v) d' \<longrightarrow>
     2 * length (reflectValue v) \<le> n \<longrightarrow> parseValueInterface n d = (Ret (Some v), d'))"

lemma reflectString_Cons: "\<exists>b t. reflectString s = b # t \<and> is_digit b \<and> t \<noteq> []"
  using nat_dec_digits [of "length s"]
  by (cases "nat_dec (length s)") (auto simp: reflectString_def writeStringPrefix_def)

lemma length_reflectString: "2 \<le> length (reflectString s)"
  using reflectString_Cons [of s] by (auto simp: Suc_le_eq)

lemma length_reflectValue: "2 \<le> length (reflectValue v)"
  by (cases v) (auto simp: length_reflectString)

lemma parse_end: "reads d ''e'' d' \<Longrightarrow> parseValueInterface (Suc n) d = (Ret None, d')"
  by (cases d; cases d') (auto simp: reads_def)

lemma reads_split:
  assumes "reads d (s @ t) d'"
  obtains d1 where "reads d s d1" "reads d1 t d'"
proof -
  from assms have "d_in d = s @ t @ d_in d'" by (simp add: reads_def)
  from reads_exists [OF this] obtain d1 where d1: "reads d s d1" "d_in d1 = t @ d_in d'" by blast
  moreover have "reads d1 t d'" using assms d1 by (cases d; cases d1; cases d') (auto simp: reads_def)
  ultimately show thesis using that by blast
qed

lemma accepts_BStr: "accepts (BStr s)"
  unfolding accepts_def
proof (intro allI impI)
  fix n d d'
  assume b: "d_buf d = []" and w: "wf_bvalue (limit d) (BStr s)" and r: "reads d (reflectValue (BStr s)) d'"
    and n: "2 * length (reflectValue (BStr s)) \<le> n"
  obtain c t where c: "reflectString s = c # t" "is_digit c" using reflectString_Cons [of s] by blast
  from r c(1) obtain d1 where d1: "reads d [c] d1" "reads d1 t d'"
    using reads_split [of d "[c]" t d'] by auto
  obtain m where m: "n = Suc m" using n length_reflectString [of s] by (cases n) auto
  have inn: "d_in d = c # d_in d1" using reads_in [OF d1(1)] by simp
  have eq: "d1 = d\<lparr>d_in := d_in d1, d_Offset := d_Offset d + 1\<rparr>" using d1(1) by (simp add: reads_def)
  have b1: "d_buf d1 = []" "limit d1 = limit d" using d1(1) b by simp_all
  have buf: "d_buf (d1\<lparr>d_buf := [c]\<rparr>) = [c]" by simp
  have "d1\<lparr>d_buf := []\<rparr> = d1" using b1(1) by (cases d1) simp
  with c d1(2) w b1(2) have "parseStringInterface (d1\<lparr>d_buf := [c]\<rparr>) = (Ret s, d')"
    unfolding parseStringInterface_iff [OF buf c(2)] by (auto simp: limit_def)
  moreover have "c \<noteq> CHR ''e''" "c \<noteq> CHR ''d''" "c \<noteq> CHR ''l''" "c \<noteq> CHR ''i''" using c(2) by (auto simp: is_digit_def)
  ultimately show "parseValueInterface n d = (Ret (Some (BStr s)), d')"
    using inn eq b c(2) by (simp add: m)
qed

text \<open>Every other value starts with a letter; what follows it goes to the parser of that letter.\<close>

lemma parse_letter:
  assumes "reads d (c # t) d'" "d_buf d = []"
  obtains d1 where "reads d1 t d'" "d_buf d1 = []" "limit d1 = limit d" "d_in d = c # d_in d1"
    "d1 = d\<lparr>d_in := d_in d1, d_Offset := d_Offset d + 1\<rparr>"
proof -
  from assms(1) obtain d1 where d1: "reads d [c] d1" "reads d1 t d'"
    using reads_split [of d "[c]" t d'] by auto
  then have "d_buf d1 = []" "limit d1 = limit d" using assms(2) by simp_all
  with d1 show thesis using that [of d1] by (simp add: reads_def [of d "[c]"])
qed

lemma accepts_int: "accepts (int_value i)"
  unfolding accepts_def
proof (intro allI impI)
  fix n d d'
  assume b: "d_buf d = []" and r: "reads d (reflectValue (int_value i)) d'"
    and n: "2 * length (reflectValue (int_value i)) \<le> n"
  from r have "reads d (CHR ''i'' # int_dec i @ ''e'') d'" by simp
  from parse_letter [OF this b] obtain d1 where d1: "reads d1 (int_dec i @ ''e'') d'" "d_buf d1 = []"
    "d_in d = CHR ''i'' # d_in d1" "d1 = d\<lparr>d_in := d_in d1, d_Offset := d_Offset d + 1\<rparr>" by blast
  have "parseIntInterface d1 = (Ret (int_value i), d')" unfolding parseIntInterface_iff [OF d1(2)] using d1(1) by blast
  moreover obtain m where "n = Suc m" using n by (cases n) auto
  ultimately show "parseValueInterface n d = (Ret (Some (int_value i)), d')" using d1(3,4) by simp
qed

lemma accepts_items:
  assumes "\<forall>v \<in> set vs. accepts v" "d_buf d = []" "\<forall>v \<in> set vs. wf_bvalue (limit d) v"
    "reads d (concat (map reflectValue vs) @ ''e'') d'" "2 * length (concat (map reflectValue vs)) + 2 \<le> n"
  shows "parseListInterface n acc d = (Ret (BList (acc @ vs)), d')"
  using assms
proof (induction vs arbitrary: acc d n)
  case Nil
  then have "2 \<le> n" by simp
  then obtain m where "n = Suc (Suc m)" by (metis add_2_eq_Suc le_Suc_ex)
  with parse_end [of d d' m] Nil show ?case by (simp del: parseValueInterface.simps)
next
  case (Cons v vs)
  from Cons.prems(4) obtain d1 where d1: "reads d (reflectValue v) d1" "reads d1 (concat (map reflectValue vs) @ ''e'') d'"
    using reads_split [of d "reflectValue v"] by auto
  obtain m where m: "n = Suc m" using Cons.prems(5) by (cases n) auto
  have "parseValueInterface m d = (Ret (Some v), d1)"
    using Cons.prems d1(1) m length_reflectValue [of v] unfolding accepts_def by auto
  moreover have "parseListInterface m (acc @ [v]) d1 = (Ret (BList ((acc @ [v]) @ vs)), d')"
    using Cons.prems d1 m length_reflectValue [of v] by (intro Cons.IH) auto
  ultimately show ?case by (simp add: m del: parseValueInterface.simps)
qed

lemma accepts_BList: "\<forall>v \<in> set vs. accepts v \<Longrightarrow> accepts (BList vs)"
  unfolding accepts_def [of "BList vs"]
proof (intro allI impI)
  fix n d d'
  assume a: "\<forall>v \<in> set vs. accepts v" and b: "d_buf d = []" and w: "wf_bvalue (limit d) (BList vs)"
    and r: "reads d (reflectValue (BList vs)) d'" and n: "2 * length (reflectValue (BList vs)) \<le> n"
  from r have "reads d (CHR ''l'' # concat (map reflectValue vs) @ ''e'') d'" by simp
  from parse_letter [OF this b] obtain d1 where d1: "reads d1 (concat (map reflectValue vs) @ ''e'') d'" "d_buf d1 = []"
    "limit d1 = limit d" "d_in d = CHR ''l'' # d_in d1" "d1 = d\<lparr>d_in := d_in d1, d_Offset := d_Offset d + 1\<rparr>" by blast
  obtain m where m: "n = Suc m" using n by (cases n) auto
  have "parseListInterface m [] d1 = (Ret (BList ([] @ vs)), d')"
    using a w d1 n m by (intro accepts_items) auto
  then show "parseValueInterface n d = (Ret (Some (BList vs)), d')" using d1(4,5) m by simp
qed

lemma accepts_pairs:
  assumes "\<forall>kv \<in> set kvs. accepts (snd kv)" "d_buf d = []"
    "\<forall>kv \<in> set kvs. length (fst kv) \<le> limit d \<and> wf_bvalue (limit d) (snd kv)"
    "sorted_wrt (<) (map fst kvs)" "\<forall>kv \<in> set kvs. \<forall>p. lastKey = Some p \<longrightarrow> p < fst kv"
    "reads d (concat (map item kvs) @ ''e'') d'" "2 * length (concat (map item kvs)) + 2 \<le> n"
  shows "parseDictInterface n lastKey acc d = (Ret (BDict (acc @ kvs)), d')"
  using assms
proof (induction kvs arbitrary: acc d n lastKey)
  case Nil
  then have "2 \<le> n" by simp
  then obtain m where "n = Suc (Suc m)" by (metis add_2_eq_Suc le_Suc_ex)
  with parse_end [of d d' m] Nil show ?case by (simp del: parseValueInterface.simps)
next
  case (Cons kv kvs)
  obtain k v where kv: "kv = (k, v)" by force
  from Cons.prems(6) have "reads d (reflectString k @ reflectValue v @ concat (map item kvs) @ ''e'') d'" by (simp add: kv)
  then obtain d1 where d1: "reads d (reflectString k) d1" and "reads d1 (reflectValue v @ concat (map item kvs) @ ''e'') d'"
    by (rule reads_split)
  from this(2) obtain d2 where d2: "reads d1 (reflectValue v) d2" "reads d2 (concat (map item kvs) @ ''e'') d'"
    by (rule reads_split)
  note len = length_reflectValue [of v] length_reflectString [of k]
  have "2 \<le> n" using Cons.prems(7) by simp
  then obtain m where m: "n = Suc (Suc m)" by (metis add_2_eq_Suc le_Suc_ex)
  have key: "parseValueInterface (Suc m) d = (Ret (Some (BStr k)), d1)"
    using accepts_BStr [of k, unfolded accepts_def, rule_format, of d d1 "Suc m"] Cons.prems d1 len by (auto simp: kv m)
  have "dict_key s lastKey (BStr k) d1 = Ret k" for s
    using Cons.prems(5) unfolding dict_key_Ret by (simp add: kv)
  moreover have "parseValueInterface m d1 = (Ret (Some v), d2)"
    using Cons.prems d1 d2 len unfolding accepts_def by (auto simp: kv m)
  moreover have "parseDictInterface m (Some k) (acc @ [(k, v)]) d2 = (Ret (BDict ((acc @ [(k, v)]) @ kvs)), d')"
    using Cons.prems d1 d2 len by (intro Cons.IH) (auto simp: kv m)
  ultimately show ?case using key by (simp add: m kv Let_def del: parseValueInterface.simps)
qed

lemma accepts_BDict:
  assumes a: "\<forall>kv \<in> set kvs. accepts (snd kv)"
  shows "accepts (BDict kvs)"
  unfolding accepts_def
proof (intro allI impI)
  fix n d d'
  assume b: "d_buf d = []" and w: "wf_bvalue (limit d) (BDict kvs)"
    and r: "reads d (reflectValue (BDict kvs)) d'" and n: "2 * length (reflectValue (BDict kvs)) \<le> n"
  from r have "reads d (CHR ''d'' # concat (map item kvs) @ ''e'') d'"
    by (simp add: reflectValue_BDict del: reflectValue.simps)
  from parse_letter [OF this b] obtain d1 where d1: "reads d1 (concat (map item kvs) @ ''e'') d'" "d_buf d1 = []"
    "limit d1 = limit d" "d_in d = CHR ''d'' # d_in d1" "d1 = d\<lparr>d_in := d_in d1, d_Offset := d_Offset d + 1\<rparr>" by blast
  obtain m where m: "n = Suc m" using n by (cases n) auto
  have "parseDictInterface m None [] d1 = (Ret (BDict ([] @ kvs)), d')"
    using a w d1 n m
    by (intro accepts_pairs) (auto simp: wf_BDict reflectValue_BDict simp del: wf_bvalue.simps reflectValue.simps)
  then show "parseValueInterface n d = (Ret (Some (BDict kvs)), d')" using d1(4,5) m by simp
qed

lemma accepts_BInt: "fits64 i \<Longrightarrow> accepts (BInt i)" "\<not> fits64 i \<Longrightarrow> accepts (BBig i)"
  using accepts_int [of i] by (simp_all add: int_value_def)

lemma wf_accepts: "wf_bvalue mx v \<Longrightarrow> accepts v"
proof (induction v)
  case (BDict kvs)
  have "\<forall>kv \<in> set kvs. accepts (snd kv)"
    using BDict.IH BDict.prems by (fastforce simp: wf_BDict simp del: wf_bvalue.simps)
  then show ?case by (rule accepts_BDict)
qed (auto simp: accepts_BInt accepts_BStr accepts_BList)

lemma parseValueInterface_complete:
  assumes "wf_bvalue (limit d) v" "d_buf d = []" "reads d (reflectValue v) d'" "2 * length (reflectValue v) \<le> n"
  shows "parseValueInterface n d = (Ret (Some v), d')"
  using wf_accepts [OF assms(1)] assms unfolding accepts_def by blast

section \<open>Input is consumed from the front\<close>

definition consumes :: "(decoder \<Rightarrow> 'a thrown \<times> decoder) \<Rightarrow> bool" where
  "consumes f \<longleftrightarrow> (\<forall>d. suffix (d_in (snd (f d))) (d_in d))"

lemma consumesI: "(\<And>d. suffix (d_in (snd (f d))) (d_in d)) \<Longrightarrow> consumes f"
  by (simp add: consumes_def)

lemma consumesD: "consumes f \<Longrightarrow> f d = (r, d') \<Longrightarrow> suffix (d_in d') (d_in d)"
  unfolding consumes_def by (metis snd_conv)

lemma consumes_and_then:
  assumes "consumes f" "\<And>a. consumes (g a)"
  shows "consumes (\<lambda>d. and_then (f d) g)"
proof (rule consumesI)
  fix d
  obtain r d1 where f: "f d = (r, d1)" by force
  note 1 = consumesD [OF assms(1) f]
  show "suffix (d_in (snd (and_then (f d) g))) (d_in d)"
  proof (cases r)
    case (Ret a)
    obtain r2 d2 where g: "g a d1 = (r2, d2)" by force
    from suffix_order.order_trans [OF consumesD [OF assms(2) g] 1] show ?thesis by (simp add: f Ret g)
  qed (use 1 f in simp_all)
qed

lemma consumes_fixed [simp]:
  "consumes (\<lambda>d. (r d, d))" "consumes (\<lambda>d. (r d, d\<lparr>d_buf := b d\<rparr>))"
  "consumes (\<lambda>d. (r d, reset_buf d))" "consumes (\<lambda>d. (r d, d\<lparr>d_Offset := k d\<rparr>))"
  by (simp_all add: consumes_def reset_buf_def)

lemma consumes_if: "(\<And>d. c d \<Longrightarrow> suffix (d_in (snd (f d))) (d_in d)) \<Longrightarrow>
    (\<And>d. \<not> c d \<Longrightarrow> suffix (d_in (snd (g d))) (d_in d)) \<Longrightarrow> consumes (\<lambda>d. if c d then f d else g d)"
  by (simp add: consumes_def)

lemma consumes_readByte: "consumes readByte"
  by (rule consumesI) (auto simp: readByte_def suffix_def split: list.splits)

lemma consumes_readUntil: "consumes (readUntil sep)"
proof (rule consumesI)
  show "suffix (d_in (snd (readUntil sep d))) (d_in d)" for d
  proof (induction sep d rule: readUntil.induct)
    case (1 sep d)
    show ?case
    proof (cases "d_in d")
      case Nil
      then show ?thesis by (subst readUntil.simps) (simp add: readByte_def)
    next
      case (Cons b bs)
      then have rb: "readByte d = (Ret b, d\<lparr>d_in := bs, d_Offset := d_Offset d + 1\<rparr>)" by (simp add: readByte_def)
      show ?thesis
      proof (cases "b = sep")
        case True
        then show ?thesis by (subst readUntil.simps) (simp add: rb Cons suffix_Cons)
      next
        case False
        from 1 [OF rb [symmetric] refl this] False show ?thesis
          by (subst readUntil.simps) (simp add: rb Cons suffix_Cons)
      qed
    qed
  qed
qed

lemma consumes_readInt: "consumes readInt"
  unfolding readInt_def [abs_def] by (intro consumes_and_then consumes_readUntil) simp

lemma consumes_parseIntInterface: "consumes parseIntInterface"
  unfolding parseIntInterface_def [abs_def] Let_def
proof (rule consumesI)
  fix d
  obtain r d1 where r: "readInt d = (r, d1)" by force
  with consumesD [OF consumes_readInt r]
  show "suffix (d_in (snd (and_then (readInt d) (\<lambda>err d'.
      case err of Some e \<Rightarrow> (Throw e, d')
      | None \<Rightarrow> case ParseInt (d_buf d') of PInt n \<Rightarrow> (Ret (BInt n), reset_buf d')
        | PRange \<Rightarrow> (case SetString (d_buf d') of
            None \<Rightarrow> (Throw (SyntaxError (int (d_Offset d) - 1) (ErrorString ''failed to parse integer'')), d')
          | Some i \<Rightarrow> (Ret (BBig i), reset_buf d'))
        | PSyntax \<Rightarrow> (Throw (SyntaxError (int (d_Offset d) - 1) (NumError (d_buf d') PSyntax)), d'))))) (d_in d)"
    by (cases r) (simp_all add: reset_buf_def split: option.splits parsed_int.splits)
qed

lemma consumes_parseStringLength: "consumes parseStringLength"
proof (rule consumesI)
  fix d
  obtain r d1 where r: "readUntil (CHR '':'') d = (r, d1)" by force
  with consumesD [OF consumes_readUntil r] show "suffix (d_in (snd (parseStringLength d))) (d_in d)"
    by (cases r) (simp_all add: parseStringLength_def Let_def reset_buf_def split: option.splits parsed_int.splits)
qed

lemma consumes_readBytes: "consumes (readBytes n)"
  by (rule consumesI) (simp add: readBytes_def Let_def suffix_drop)

lemma consumes_parseStringInterface: "consumes parseStringInterface"
proof -
  have "consumes (\<lambda>d. case len of Inl err \<Rightarrow> (Throw err, d)
      | Inr n \<Rightarrow> and_then (readBytes n d) (\<lambda>b d. (Ret b, d\<lparr>d_Offset := d_Offset d + length b\<rparr>)))" for len
    by (cases len) (auto intro!: consumes_and_then consumes_readBytes)
  then show ?thesis
    unfolding parseStringInterface_def [abs_def] by (intro consumes_and_then consumes_parseStringLength)
qed

text \<open>A step that takes the first byte and goes on with a function that consumes.\<close>

lemma consumes_byte:
  assumes "consumes f" "d_in d = b # bs" "f (d\<lparr>d_in := bs, d_Offset := k, d_buf := c\<rparr>) = (r, d')"
  shows "suffix (d_in d') bs"
  using consumesD [OF assms(1,3)] by simp

definition consuming :: "nat \<Rightarrow> bool" where
  "consuming n \<longleftrightarrow> consumes (parseValueInterface n) \<and> (\<forall>acc. consumes (parseListInterface n acc)) \<and>
     (\<forall>lastKey dict. consumes (parseDictInterface n lastKey dict)) \<and> (\<forall>key dict. consumes (parseDictItem n key dict))"

lemma consuming_value:
  assumes "consuming n" "d_in d = b # bs"
  shows "suffix (d_in (snd (parseValueInterface (Suc n) d))) bs"
proof -
  have c: "consumes (\<lambda>d. and_then (parseDictInterface n None [] d) (\<lambda>v d. (Ret (Some v), d)))"
    "consumes (\<lambda>d. and_then (parseListInterface n [] d) (\<lambda>v d. (Ret (Some v), d)))"
    "consumes (\<lambda>d. and_then (parseIntInterface d) (\<lambda>v d. (Ret (Some v), d)))"
    "consumes (\<lambda>d. and_then (parseStringInterface d) (\<lambda>s d. (Ret (Some (BStr s)), d)))"
    using assms(1) by (auto simp: consuming_def intro!: consumes_and_then consumes_parseIntInterface consumes_parseStringInterface)
  have s: "suffix (d_in (snd (f (d\<lparr>d_in := bs, d_Offset := k\<rparr>)))) bs"
    "suffix (d_in (snd (f (d\<lparr>d_in := bs, d_Offset := k, d_buf := x\<rparr>)))) bs"
    if "consumes f" for f :: "decoder \<Rightarrow> bvalue option thrown \<times> decoder" and k x
    using that unfolding consumes_def by (metis decoder.select_convs(1) decoder.surjective decoder.update_convs(1-3))+
  show ?thesis using s(1) [OF c(1)] s(1) [OF c(2)] s(1) [OF c(3)] s(2) [OF c(4)] by (simp add: assms(2) Let_def)
qed

lemma consuming_all: "consuming n"
proof (induction n)
  case 0
  show ?case by (simp add: consuming_def consumes_def)
next
  case (Suc n)
  have "suffix (d_in (snd (parseValueInterface (Suc n) d))) (d_in d)" for d
  proof (cases "d_in d")
    case (Cons b bs)
    with consuming_value [OF Suc Cons] show ?thesis by (simp add: suffix_Cons del: parseValueInterface.simps)
  qed simp
  then have v: "consumes (parseValueInterface (Suc n))" by (rule consumesI)
  have "consumes (\<lambda>d. case r of None \<Rightarrow> (Ret (BList acc), d) | Some v \<Rightarrow> parseListInterface n (acc @ [v]) d)" for acc r
    using Suc by (cases r) (auto simp: consuming_def)
  then have l: "consumes (parseListInterface (Suc n) acc)" for acc
    unfolding parseListInterface.simps(2) [abs_def] using Suc by (intro consumes_and_then) (auto simp: consuming_def)
  have "consumes (\<lambda>d. case r of None \<Rightarrow> (Ret (BDict dict), d)
      | Some v \<Rightarrow> (case dict_key k lastKey v d of Throw e \<Rightarrow> (Throw e, d)
          | Ret key \<Rightarrow> parseDictItem n key dict d | NoFuel \<Rightarrow> (NoFuel, d)))" for r dict k lastKey
    using Suc by (cases r) (auto simp: consuming_def consumes_def split: thrown.splits)
  then have di: "consumes (\<lambda>d. and_then (parseValueInterface n d) (\<lambda>r d. case r of None \<Rightarrow> (Ret (BDict dict), d)
      | Some v \<Rightarrow> (case dict_key k lastKey v d of Throw e \<Rightarrow> (Throw e, d)
          | Ret key \<Rightarrow> parseDictItem n key dict d | NoFuel \<Rightarrow> (NoFuel, d))))" for lastKey dict k
    using Suc by (intro consumes_and_then) (auto simp: consuming_def)
  have "consumes (\<lambda>d. case r of None \<Rightarrow> (Throw e, d)
      | Some v \<Rightarrow> parseDictInterface n (Some key) (dict @ [(key, v)]) d)" for r dict key e
    using Suc by (cases r) (auto simp: consuming_def)
  then have it: "consumes (\<lambda>d. and_then (parseValueInterface n d) (\<lambda>r d. case r of None \<Rightarrow> (Throw e, d)
      | Some v \<Rightarrow> parseDictInterface n (Some key) (dict @ [(key, v)]) d))" for dict key e
    using Suc by (intro consumes_and_then) (auto simp: consuming_def)
  show ?case
    unfolding consuming_def using v l di it
    by (auto simp: consumes_def Let_def simp del: parseValueInterface.simps parseListInterface.simps)
qed

lemma parse_shrinks:
  assumes "parseValueInterface n d = (Ret r, d')"
  shows "length (d_in d') < length (d_in d)"
proof (cases n)
  case (Suc m)
  show ?thesis
  proof (cases "d_in d")
    case (Cons b bs)
    with consuming_value [OF consuming_all Cons] assms Suc show ?thesis
      by (metis length_Cons less_Suc_eq_le snd_conv suffix_length_le)
  qed (use assms Suc in simp)
qed (use assms in simp)

section \<open>The parsers end\<close>

definition total_value :: "nat \<Rightarrow> bool" where
  "total_value n \<longleftrightarrow> (\<forall>d d'. 2 * length (d_in d) + 1 \<le> n \<longrightarrow> parseValueInterface n d \<noteq> (NoFuel, d'))"

definition total_loops :: "nat \<Rightarrow> bool" where
  "total_loops n \<longleftrightarrow> (\<forall>d d' acc dict lastKey key. 2 * length (d_in d) + 2 \<le> n \<longrightarrow>
     parseListInterface n acc d \<noteq> (NoFuel, d') \<and> parseDictInterface n lastKey dict d \<noteq> (NoFuel, d') \<and>
     parseDictItem n key dict d \<noteq> (NoFuel, d'))"

lemma reflectValue_not_Nil [simp]: "reflectValue v \<noteq> []"
  using length_reflectValue [of v] by fastforce

lemma parseIntInterface_total: "parseIntInterface d \<noteq> (NoFuel, d')"
  by (auto simp: parseIntInterface_def readInt_def Let_def elim!: and_then_NoFuelE split: parsed_int.splits option.splits)

lemma parseStringLength_total: "parseStringLength d \<noteq> (NoFuel, d')"
  by (auto simp: parseStringLength_def Let_def elim!: and_then_NoFuelE split: parsed_int.splits option.splits if_splits)

lemma parseStringInterface_total: "parseStringInterface d \<noteq> (NoFuel, d')"
  by (auto simp: parseStringInterface_def readBytes_def Let_def parseStringLength_total
      elim!: and_then_NoFuelE split: if_splits sum.splits)

lemma total_value_step: "total_loops n \<Longrightarrow> total_value (Suc n)"
  unfolding total_value_def
proof (intro allI impI notI)
  fix d d'
  assume l: "total_loops n" and n: "2 * length (d_in d) + 1 \<le> Suc n"
    and run: "parseValueInterface (Suc n) d = (NoFuel, d')"
  from run obtain c cs where c: "d_in d = c # cs" by (cases "d_in d") auto
  let ?d = "d\<lparr>d_in := cs, d_Offset := d_Offset d + 1\<rparr>"
  have "\<forall>x. parseDictInterface n None [] ?d \<noteq> (NoFuel, x)" "\<forall>x. parseListInterface n [] ?d \<noteq> (NoFuel, x)"
    using l [unfolded total_loops_def, rule_format, of ?d] n by (simp_all add: c)
  then show False
    using run c parseIntInterface_total parseStringInterface_total
    by (auto simp: Let_def elim!: and_then_NoFuelE split: if_splits)
qed

lemma total_loops_step: "total_value n \<Longrightarrow> total_loops n \<Longrightarrow> total_loops (Suc n)"
  unfolding total_loops_def [of "Suc n"]
proof (intro allI impI conjI notI)
  fix d d' :: decoder and acc dict lastKey key
  assume v: "total_value n" and l: "total_loops n" and n: "2 * length (d_in d) + 2 \<le> Suc n"
  have val: "parseValueInterface n d \<noteq> (NoFuel, x)" for x
    using v n unfolding total_value_def by auto
  have nxt: "parseListInterface n as d1 \<noteq> (NoFuel, x) \<and> parseDictInterface n lk ds d1 \<noteq> (NoFuel, x) \<and>
      parseDictItem n ky ds d1 \<noteq> (NoFuel, x)" if "parseValueInterface n d = (Ret r, d1)" for r d1 x as lk ds ky
    using l [unfolded total_loops_def, rule_format, of d1] parse_shrinks [OF that] n by auto
  show False if "parseListInterface (Suc n) acc d = (NoFuel, d')"
    using that val nxt by (auto elim!: and_then_NoFuelE split: option.splits)
  show False if "parseDictInterface (Suc n) lastKey dict d = (NoFuel, d')"
    using that val nxt
    by (auto simp: Let_def dict_key_def elim!: and_then_NoFuelE split: option.splits thrown.splits bvalue.splits if_splits)
  show False if "parseDictItem (Suc n) key dict d = (NoFuel, d')"
    using that val nxt by (auto simp: Let_def elim!: and_then_NoFuelE split: option.splits)
qed

lemma total_all: "total_value n \<and> total_loops n"
proof (induction n)
  case 0
  show ?case by (simp add: total_value_def total_loops_def)
next
  case (Suc n)
  then show ?case using total_value_step total_loops_step by blast
qed

lemma parse_fuel_enough: "fst (parseValueInterface (parse_fuel d) d) \<noteq> NoFuel"
  using total_all [of "parse_fuel d"] unfolding total_value_def parse_fuel_def by (metis order_refl prod.collapse)

section \<open>Unmarshalling\<close>

lemma new_decoder_simps [simp]:
  "d_in (new_decoder s) = s" "d_buf (new_decoder s) = []" "limit (new_decoder s) = DefaultDecodeMaxStrLen"
  by (simp_all add: new_decoder_def limit_def getMaxStrLen_def DefaultDecodeMaxStrLen_def)

lemma parse_interface_total: "parse_interface d \<noteq> (NoFuel, d')"
  using parse_fuel_enough [of d] by (auto simp: parse_interface_def elim!: and_then_NoFuelE split: option.splits)

lemma Unmarshal_interface_iff:
  "Unmarshal_interface s = Inr v \<longleftrightarrow> wf_bvalue DefaultDecodeMaxStrLen v \<and> s = reflectValue v"
proof
  assume "Unmarshal_interface s = Inr v"
  then obtain d where run: "parseValueInterface (parse_fuel (new_decoder s)) (new_decoder s) = (Ret (Some v), d)" "d_in d = []"
    by (auto simp: Unmarshal_interface_def Decode_interface_def parse_interface_def recovered_def ReadEOF_def
        split: prod.splits sum.splits thrown.splits if_splits option.splits elim!: and_then_RetE)
  with parseValueInterface_sound [OF _ run(1)] show "wf_bvalue DefaultDecodeMaxStrLen v \<and> s = reflectValue v"
    by (auto dest: reads_in)
next
  assume a: "wf_bvalue DefaultDecodeMaxStrLen v \<and> s = reflectValue v"
  then obtain d where d: "reads (new_decoder s) (reflectValue v) d" "d_in d = []"
    using reads_exists [of "new_decoder s" "reflectValue v" "[]"] by auto
  have "parseValueInterface (parse_fuel (new_decoder s)) (new_decoder s) = (Ret (Some v), d)"
    by (rule parseValueInterface_complete) (use a d in \<open>simp_all add: parse_fuel_def\<close>)
  with d(2) show "Unmarshal_interface s = Inr v"
    by (simp add: Unmarshal_interface_def Decode_interface_def parse_interface_def recovered_def ReadEOF_def)
qed

lemma reflectValue_inj: "wf_bvalue mx u \<Longrightarrow> wf_bvalue mx v \<Longrightarrow> mx \<le> DefaultDecodeMaxStrLen \<Longrightarrow>
    reflectValue u = reflectValue v \<Longrightarrow> u = v"
proof -
  have mono: "wf_bvalue mx w \<Longrightarrow> mx \<le> my \<Longrightarrow> wf_bvalue my w" for mx my w
    by (induction w) (fastforce simp: wf_BDict simp del: wf_bvalue.simps(5))+
  show "wf_bvalue mx u \<Longrightarrow> wf_bvalue mx v \<Longrightarrow> mx \<le> DefaultDecodeMaxStrLen \<Longrightarrow>
    reflectValue u = reflectValue v \<Longrightarrow> u = v"
    using Unmarshal_interface_iff [of "reflectValue u" u] Unmarshal_interface_iff [of "reflectValue u" v] mono
    by (metis Inr_inject)
qed

section \<open>The verbatim copy\<close>

text \<open>\<open>d'\<close> is \<open>d\<close> after reading \<open>s\<close> and appending it to the buffer.\<close>

definition copies :: "decoder \<Rightarrow> string \<Rightarrow> decoder \<Rightarrow> bool" where
  "copies d s d' \<longleftrightarrow> d_in d = s @ d_in d' \<and>
     d' = d\<lparr>d_in := d_in d', d_Offset := d_Offset d + length s, d_buf := d_buf d @ s\<rparr>"

lemma copiesI:
  "d_in d = s @ r \<Longrightarrow> d' = d\<lparr>d_in := r, d_Offset := d_Offset d + length s, d_buf := d_buf d @ s\<rparr> \<Longrightarrow> copies d s d'"
  by (simp add: copies_def)

lemma copies_in: "copies d s d' \<Longrightarrow> d_in d = s @ d_in d'"
  by (simp add: copies_def)

lemma copies_trans: "copies d s d1 \<Longrightarrow> copies d1 t d2 \<Longrightarrow> copies d (s @ t) d2"
  by (cases d; cases d1; cases d2) (auto simp: copies_def)

lemma copies_nil [simp]: "copies d [] d"
  by (simp add: copies_def)

lemma copies_unique: "copies d s d1 \<Longrightarrow> copies d s d2 \<Longrightarrow> d1 = d2"
  by (cases d; cases d1; cases d2) (auto simp: copies_def)

lemma copies_byte:
  "d_in d = b # bs \<Longrightarrow> copies d [b] (d\<lparr>d_in := bs, d_Offset := d_Offset d + 1, d_buf := d_buf d @ [b]\<rparr>)"
  by (simp add: copies_def)

lemma copies_until:
  assumes "readUntil sep d = (Ret u, d1)"
  shows "\<exists>s. sep \<notin> set s \<and> copies d (s @ [sep]) (d1\<lparr>d_buf := d_buf d1 @ [sep]\<rparr>) \<and> d_buf d1 = d_buf d @ s"
  using assms [unfolded readUntil_Ret] by (auto simp: copies_def)

lemma copy_string_copies:
  assumes "copy_string d start = (Ret b, d')"
  shows "b \<and> (\<exists>s. copies d s d')"
proof -
  from assms [unfolded copy_string_def] obtain d1 where u: "readUntil (CHR '':'') d = (Ret (), d1)"
    and k: "(case ParseInt (drop start (d_buf d1)) of
            PInt len \<Rightarrow>
              (let b = take (nat len) (d_in d1);
                   d = d1\<lparr>d_buf := d_buf d1 @ '':'' @ b, d_in := drop (nat len) (d_in d1), d_Offset := d_Offset d1 + length b\<rparr>
               in if length b < nat len
                  then (Throw (SyntaxError (int (d_Offset d)) (Sentinel IoUnexpectedEOF)), d)
                  else (Ret True, d))
          | r \<Rightarrow> (Throw (SyntaxError (int (d_Offset d1) - 1) (NumError (drop start (d_buf d1)) r)), d1)) = (Ret b, d')"
    by (elim and_then_RetE) simp
  from k obtain len where len: "ParseInt (drop start (d_buf d1)) = PInt len"
    by (cases "ParseInt (drop start (d_buf d1))") auto
  have l: "b" and d': "d' = d1\<lparr>d_buf := d_buf d1 @ CHR '':'' # take (nat len) (d_in d1),
      d_in := drop (nat len) (d_in d1), d_Offset := d_Offset d1 + length (take (nat len) (d_in d1))\<rparr>"
    using k unfolding len by (auto simp: Let_def split: if_splits)
  from copies_until [OF u] obtain s where s: "copies d (s @ '':'') (d1\<lparr>d_buf := d_buf d1 @ '':''\<rparr>)" by blast
  moreover have "copies (d1\<lparr>d_buf := d_buf d1 @ '':''\<rparr>) (take (nat len) (d_in d1)) d'"
    by (rule copiesI [of _ _ "drop (nat len) (d_in d1)"]) (simp_all add: d')
  ultimately show ?thesis using copies_trans l by blast
qed

definition copy_value :: "nat \<Rightarrow> bool" where
  "copy_value n \<longleftrightarrow> (\<forall>d b d'. readOneValue n d = (Ret b, d') \<longrightarrow>
     (if b then \<exists>c s. copies d (c # s) d' \<and> c \<noteq> CHR ''e'' else d' = d \<and> (\<exists>r. d_in d = CHR ''e'' # r)))"

definition copy_items :: "nat \<Rightarrow> bool" where
  "copy_items n \<longleftrightarrow> (\<forall>d u d'. readItems n d = (Ret u, d') \<longrightarrow>
     (\<exists>s. copies d s d') \<and> (\<exists>r. d_in d' = CHR ''e'' # r))"

lemma copy_items_step: "copy_value n \<Longrightarrow> copy_items n \<Longrightarrow> copy_items (Suc n)"
  unfolding copy_items_def [of "Suc n"]
proof (intro allI impI)
  fix d u d'
  assume v: "copy_value n" and i: "copy_items n" and run: "readItems (Suc n) d = (Ret u, d')"
  from run obtain b d1 where b: "readOneValue n d = (Ret b, d1)" "(if b then readItems n d1 else (Ret (), d1)) = (Ret u, d')"
    by (auto elim!: and_then_RetE)
  note c = v [unfolded copy_value_def, rule_format, OF b(1)]
  show "(\<exists>s. copies d s d') \<and> (\<exists>r. d_in d' = CHR ''e'' # r)"
  proof (cases b)
    case True
    with b c i show ?thesis unfolding copy_items_def using copies_trans by (metis (full_types))
  next
    case False
    with b c have "d' = d" "\<exists>r. d_in d = CHR ''e'' # r" by auto
    then show ?thesis using copies_nil [of d] by blast
  qed
qed

lemma copy_value_step: "copy_items n \<Longrightarrow> copy_value (Suc n)"
  unfolding copy_value_def
proof (intro allI impI)
  fix d b d'
  assume i: "copy_items n" and run: "readOneValue (Suc n) d = (Ret b, d')"
  from run obtain c cs where inn: "d_in d = c # cs" by (cases "d_in d") auto
  define d1 where "d1 = d\<lparr>d_in := cs, d_Offset := d_Offset d + 1, d_buf := d_buf d @ [c]\<rparr>"
  have c1: "copies d [c] d1" unfolding d1_def by (rule copies_byte [OF inn])
  have step: "readOneValue (Suc n) d =
      (if c = CHR ''e'' then (Ret False, d)
       else if c = CHR ''d'' \<or> c = CHR ''l'' then
         and_then (readItems n d1) (\<lambda>_ d. and_then (readByte d) (\<lambda>b d. (Ret True, d\<lparr>d_buf := d_buf d @ [b]\<rparr>)))
       else if c = CHR ''i'' then
         and_then (readUntil (CHR ''e'') d1) (\<lambda>_ d. (Ret True, d\<lparr>d_buf := d_buf d @ ''e''\<rparr>))
       else if is_digit c then copy_string d1 (length (d_buf d1) - 1)
       else (Throw (raiseUnknownValueType c (int (d_Offset d1) - 1)), d1))"
    by (simp add: inn d1_def Let_def)
  consider (stop) "c = CHR ''e''" "b = False" "d' = d"
    | (nest) d2 x d3 where "c \<noteq> CHR ''e''" "b" "readItems n d1 = (Ret (), d2)" "readByte d2 = (Ret x, d3)" "d' = d3\<lparr>d_buf := d_buf d3 @ [x]\<rparr>"
    | (num) d2 where "c \<noteq> CHR ''e''" "b" "readUntil (CHR ''e'') d1 = (Ret (), d2)" "d' = d2\<lparr>d_buf := d_buf d2 @ ''e''\<rparr>"
    | (str) k where "c \<noteq> CHR ''e''" "copy_string d1 k = (Ret b, d')"
    using run unfolding step by (force elim!: and_then_RetE split: if_splits)
  then show "if b then \<exists>c s. copies d (c # s) d' \<and> c \<noteq> CHR ''e'' else d' = d \<and> (\<exists>r. d_in d = CHR ''e'' # r)"
  proof cases
    case stop
    with inn show ?thesis by simp
  next
    case nest
    from i [unfolded copy_items_def, rule_format, OF nest(3)] obtain s where s: "copies d1 s d2" by blast
    have "copies d2 [x] d'"
      using nest(4,5) by (cases "d_in d2") (auto simp: readByte_def copies_def)
    with s c1 have "copies d ([c] @ s @ [x]) d'" by (blast intro: copies_trans)
    with nest(1,2) show ?thesis by auto
  next
    case num
    from copies_until [OF num(3)] obtain s where "copies d1 (s @ ''e'') d'" using num(4) by blast
    with c1 have "copies d ([c] @ s @ ''e'') d'" by (blast intro: copies_trans)
    with num(1,2) show ?thesis by auto
  next
    case str
    from copy_string_copies [OF str(2)] obtain s where "b" "copies d1 s d'" by blast
    with c1 have "copies d ([c] @ s) d'" by (blast intro: copies_trans)
    with str(1) \<open>b\<close> show ?thesis by auto
  qed
qed

lemma copy_all: "copy_value n \<and> copy_items n"
proof (induction n)
  case 0
  show ?case by (simp add: copy_value_def copy_items_def)
next
  case (Suc n)
  then show ?case using copy_value_step copy_items_step by blast
qed

lemma readOneValue_copies:
  "readOneValue n d = (Ret True, d') \<Longrightarrow> \<exists>s. s \<noteq> [] \<and> copies d s d'"
  "readOneValue n d = (Ret False, d') \<Longrightarrow> d' = d \<and> (\<exists>r. d_in d = CHR ''e'' # r)"
  using copy_all [of n] unfolding copy_value_def by (metis (full_types) list.distinct(1))+

text \<open>It ends.\<close>

definition copy_total :: "nat \<Rightarrow> bool" where
  "copy_total n \<longleftrightarrow> (\<forall>d d'. (2 * length (d_in d) + 1 \<le> n \<longrightarrow> readOneValue n d \<noteq> (NoFuel, d')) \<and>
     (2 * length (d_in d) + 2 \<le> n \<longrightarrow> readItems n d \<noteq> (NoFuel, d')))"

lemma copy_string_total: "copy_string d k \<noteq> (NoFuel, d')"
  by (auto simp: copy_string_def Let_def elim!: and_then_NoFuelE split: parsed_int.splits if_splits)

lemma copy_total_all: "copy_total n"
proof (induction n)
  case 0
  show ?case by (simp add: copy_total_def)
next
  case (Suc n)
  show ?case unfolding copy_total_def
  proof (intro allI conjI impI notI)
    fix d d'
    assume l: "2 * length (d_in d) + 1 \<le> Suc n" and run: "readOneValue (Suc n) d = (NoFuel, d')"
    from run obtain c cs where inn: "d_in d = c # cs" by (cases "d_in d") auto
    have "\<forall>x. readItems n (d\<lparr>d_in := cs, d_Offset := Suc (d_Offset d), d_buf := d_buf d @ [c]\<rparr>) \<noteq> (NoFuel, x)"
      using Suc l inn by (simp add: copy_total_def)
    then show False
      using run inn copy_string_total
      by (auto simp: Let_def readByte_def elim!: and_then_NoFuelE split: if_splits list.splits)
  next
    fix d d'
    assume l: "2 * length (d_in d) + 2 \<le> Suc n" and run: "readItems (Suc n) d = (NoFuel, d')"
    then have "readOneValue n d \<noteq> (NoFuel, x)" for x using Suc by (simp add: copy_total_def)
    then obtain d1 where d1: "readOneValue n d = (Ret True, d1)" "readItems n d1 = (NoFuel, d')"
      using run by (auto elim!: and_then_NoFuelE split: if_splits)
    from readOneValue_copies(1) [OF d1(1)] obtain s where "s \<noteq> []" "copies d s d1" by blast
    then have "length (d_in d1) < length (d_in d)" by (auto dest: copies_in)
    then show False using Suc d1(2) l by (simp add: copy_total_def)
  qed
qed

section \<open>Properties\<close>

text \<open>C22: The decoder accepts exactly the canonical encodings: decoding a byte string gives a value if and only if
  the value is well-formed (integers at the size their type has, strings within the limit, keys of dicts
  strictly ascending) and the string is what the encoder writes for it. So every accepted value has
  one encoding, and re-encoding a decoded value gives back its bytes.\<close>

theorem bencode_canonical:
  "Unmarshal_interface s = Inr v \<longleftrightarrow> wf_bvalue DefaultDecodeMaxStrLen v \<and> s = reflectValue v"
  by (rule Unmarshal_interface_iff)

end
