(* ===== verification/BencodeTyped.thy ===== *)
theory BencodeTyped
  imports BencodeFacts
begin

text \<open>
  Decoding into Go values of known types, the reflective half of \<open>bencode/decode.go\<close>: \<open>parseValue\<close>,
  \<open>parseDict\<close>, \<open>parseList\<close>, \<open>parseInt\<close>, \<open>parseString\<close> and \<open>parseUnmarshaler\<close>, over a description of the types
  that torrent metadata is made of.

  A target is always a fresh zero value of its type, as \<open>reflect.New\<close> makes it, except that the items of a
  dict accumulate in one struct or map. A parse function returns whether there was a value, the error
  it returns, and the value as it was left, which matters where a field's type errors are ignored.
  Fields are named by their bencode keys.
\<close>

section \<open>Types and values\<close>

text \<open>A directory tree of version 2 metadata, the type \<open>FileTree\<close>: length and pieces root of the file
  at this node, and the entries by name.\<close>

datatype ftree = FT (ft_Length: int) (ft_PiecesRoot: string) (ft_Dir: "(string \<times> ftree) list")

datatype govalue =
    GString string
  | GInt int
  | GBool bool
  | GPtr "govalue option"
  | GSlice "govalue list option"
  | GMap "(string \<times> govalue) list option"
  | GStruct "(string \<times> govalue) list"
  | GIface "bvalue option"
  | GTree ftree

text \<open>\<open>TUnmarshaler\<close> is a named type with an \<open>UnmarshalBencode\<close> method, given by its zero value and the method. A
  struct field is its key, its type and whether it carries \<open>ignore_unmarshal_type_error\<close>.\<close>

datatype gotype =
    TString
  | TInt64
  | TUint8
  | TBool
  | TPtr gotype
  | TSlice gotype
  | TMap gotype
  | TStruct string "(string \<times> gotype \<times> bool) list"
  | TIface
  | TUnmarshaler string govalue "string \<Rightarrow> go_error + govalue"

fun type_name :: "gotype \<Rightarrow> string" where
  "type_name TString = ''string''"
| "type_name TInt64 = ''int64''"
| "type_name TUint8 = ''uint8''"
| "type_name TBool = ''bool''"
| "type_name (TPtr t) = ''*'' @ type_name t"
| "type_name (TSlice t) = ''[]'' @ type_name t"
| "type_name (TMap t) = ''map[string]'' @ type_name t"
| "type_name (TStruct n fs) = n"
| "type_name TIface = ''interface {}''"
| "type_name (TUnmarshaler n z f) = n"

fun zero_of :: "gotype \<Rightarrow> govalue" where
  "zero_of TString = GString []"
| "zero_of TInt64 = GInt 0"
| "zero_of TUint8 = GInt 0"
| "zero_of TBool = GBool False"
| "zero_of (TPtr t) = GPtr None"
| "zero_of (TSlice t) = GSlice None"
| "zero_of (TMap t) = GMap None"
| "zero_of (TStruct n fs) = GStruct (map (\<lambda>(k, t, _). (k, zero_of t)) fs)"
| "zero_of TIface = GIface None"
| "zero_of (TUnmarshaler n z f) = z"

section \<open>Integers and strings\<close>

text \<open>The result of a parse function: the returned error and the value left in the target.\<close>

type_synonym filled = "go_error option \<times> govalue"

definition int_type_error :: "gotype \<Rightarrow> go_error" where
  "int_type_error t = UnmarshalTypeError ''int'' (type_name t)"

text \<open>\<open>strconv.ParseUint(s, 10, 64)\<close>, for the elements of a byte slice.\<close>

definition ParseUint :: "string \<Rightarrow> parsed_int" where
  "ParseUint s = (if s = [] then PSyntax else parse_uint 0 s)"

definition UintError :: "string \<Rightarrow> parsed_int \<Rightarrow> go_error" where
  "UintError s r =
     ErrorString (''strconv.ParseUint: parsing '' @ go_quote s @ '': '' @
       (if r = PRange then ''value out of range'' else ''invalid syntax''))"

definition parseInt :: "gotype \<Rightarrow> decoder \<Rightarrow> filled thrown \<times> decoder" where
  "parseInt t d =
     (let start = int (d_Offset d) - 1; z = zero_of t in
      and_then (readInt d)
        (\<lambda>err d.
           case err of Some e \<Rightarrow> (Ret (Some e, z), d)
           | None \<Rightarrow>
             (let s = d_buf d in
              case t of
                TInt64 \<Rightarrow>
                  (case ParseInt s of
                     PInt n \<Rightarrow> (Ret (None, GInt n), reset_buf d)
                   | r \<Rightarrow> (Throw (SyntaxError start (NumError s r)), d))
              | TUint8 \<Rightarrow>
                  (case ParseUint s of
                     PInt n \<Rightarrow> if n > 255 then (Ret (Some (int_type_error t), z), d)
                               else (Ret (None, GInt n), reset_buf d)
                   | r \<Rightarrow> (Throw (SyntaxError start (UintError s r)), d))
              | TBool \<Rightarrow> (Ret (None, GBool (s \<noteq> ''0'')), reset_buf d)
              | _ \<Rightarrow> (Ret (Some (int_type_error t), z), d))))"

text \<open>The closure \<open>read\<close> of \<open>parseString\<close>: \<open>io.ReadFull\<close> reports \<open>EOF\<close> when nothing came and \<open>ErrUnexpectedEOF\<close>
  when the bytes ended early.\<close>

definition read_full :: "nat \<Rightarrow> decoder \<Rightarrow> string thrown \<times> decoder" where
  "read_full n d =
     (let b = take n (d_in d);
          d = d\<lparr>d_in := drop n (d_in d), d_Offset := d_Offset d + length b\<rparr>
      in if length b = n then (Ret b, d)
         else if b = [] then (Throw (SyntaxError (int (d_Offset d)) (Sentinel IoUnexpectedEOF)), d)
         else (Throw (SyntaxError (int (d_Offset d)) (ErrorString ''unexpected I/O error: unexpected EOF'')), d))"

definition parse_bool :: "string \<Rightarrow> bool option" where
  "parse_bool s =
     (if s \<in> set [''1'', ''t'', ''T'', ''TRUE'', ''true'', ''True''] then Some True
      else if s \<in> set [''0'', ''f'', ''F'', ''FALSE'', ''false'', ''False''] then Some False
      else None)"

definition byte_values :: "string \<Rightarrow> govalue list" where
  "byte_values b = map (\<lambda>c. GInt (int (of_char c))) b"

definition parseString :: "gotype \<Rightarrow> decoder \<Rightarrow> filled thrown \<times> decoder" where
  "parseString t d =
     and_then (parseStringLength d)
       (\<lambda>len d.
          case len of Inl err \<Rightarrow> (Ret (Some err, zero_of t), d)
          | Inr n \<Rightarrow>
            and_then (read_full n d)
              (\<lambda>b d.
                 case t of
                   TString \<Rightarrow> (Ret (None, GString b), reset_buf d)
                 | TSlice TUint8 \<Rightarrow> (Ret (None, GSlice (Some (byte_values b))), reset_buf d)
                 | TBool \<Rightarrow>
                     (Ret (None, GBool (case parse_bool b of None \<Rightarrow> n \<noteq> 0 | Some x \<Rightarrow> x)), reset_buf d)
                 | _ \<Rightarrow> (Ret (Some (UnmarshalTypeError ''string'' (type_name t)), zero_of t), reset_buf d)))"

section \<open>Values\<close>

definition UnmarshalerError :: "string \<Rightarrow> go_error \<Rightarrow> go_error" where
  "UnmarshalerError tn err =
     ErrorString (''bencode: error calling UnmarshalBencode for type *'' @ tn @ '': '' @ error_msg err)"

text \<open>\<open>parseUnmarshaler\<close> for a type with the method: \<open>None\<close> when an end symbol follows.\<close>

definition parseUnmarshaler ::
  "string \<Rightarrow> (string \<Rightarrow> go_error + govalue) \<Rightarrow> decoder \<Rightarrow> govalue option thrown \<times> decoder" where
  "parseUnmarshaler n f d =
     (let d = reset_buf d in
      and_then (readOneValue (parse_fuel d) d)
        (\<lambda>found d.
           if \<not> found then (Ret None, d)
           else case f (d_buf d) of
                  Inl err \<Rightarrow> (Throw (UnmarshalerError n err), d)
                | Inr v \<Rightarrow> (Ret (Some v), d)))"

text \<open>\<open>getDictField\<close>: where the value of a key goes. \<open>Discard\<close> is the field of an unknown key of a struct.\<close>

datatype dict_field = Field gotype bool | Discard

definition getDictField :: "gotype \<Rightarrow> string \<Rightarrow> dict_field option" where
  "getDictField t key =
     (case t of
        TMap e \<Rightarrow> Some (Field e False)
      | TStruct n fs \<Rightarrow> (case map_of fs key of Some (ft, ign) \<Rightarrow> Some (Field ft ign) | None \<Rightarrow> Some Discard)
      | _ \<Rightarrow> None)"

fun set_key :: "string \<Rightarrow> 'v \<Rightarrow> (string \<times> 'v) list \<Rightarrow> (string \<times> 'v) list" where
  "set_key k v [] = [(k, v)]"
| "set_key k v ((j, u) # kvs) = (if k = j then (k, v) # kvs else (j, u) # set_key k v kvs)"

definition set_item :: "string \<Rightarrow> govalue \<Rightarrow> govalue \<Rightarrow> govalue" where
  "set_item k v target =
     (case target of
        GMap m \<Rightarrow> GMap (Some (set_key k v (case m of None \<Rightarrow> [] | Some kvs \<Rightarrow> kvs)))
      | GStruct kvs \<Rightarrow> GStruct (set_key k v kvs)
      | _ \<Rightarrow> target)"

text \<open>What \<open>parseValue\<close> returns: whether there was a value, and what it was filled with.\<close>

definition found :: "filled thrown \<times> decoder \<Rightarrow> (bool \<times> filled) thrown \<times> decoder" where
  "found m = and_then m (\<lambda>r d. (Ret (True, r), d))"

definition string_of :: "govalue \<Rightarrow> string" where
  "string_of v = (case v of GString s \<Rightarrow> s | _ \<Rightarrow> [])"

function (sequential) parseValue :: "nat \<Rightarrow> gotype \<Rightarrow> decoder \<Rightarrow> (bool \<times> filled) thrown \<times> decoder"
and parseDict :: "nat \<Rightarrow> gotype \<Rightarrow> govalue \<Rightarrow> decoder \<Rightarrow> filled thrown \<times> decoder"
and parseItem :: "nat \<Rightarrow> gotype \<Rightarrow> govalue \<Rightarrow> string \<Rightarrow> decoder \<Rightarrow> filled thrown \<times> decoder"
and parseList :: "nat \<Rightarrow> gotype \<Rightarrow> decoder \<Rightarrow> filled thrown \<times> decoder"
and parseElems :: "nat \<Rightarrow> gotype \<Rightarrow> govalue list \<Rightarrow> decoder \<Rightarrow> (go_error option \<times> govalue list) thrown \<times> decoder" where
  "parseValue 0 t d = (NoFuel, d)"
| "parseValue (Suc n) (TPtr t) d =
     and_then (parseValue (Suc n) t d) (\<lambda>(ok, err, v) d. (Ret (ok, err, GPtr (Some v)), d))"
| "parseValue (Suc n) (TUnmarshaler tn z f) d =
     and_then (parseUnmarshaler tn f d)
       (\<lambda>r d. case r of
          Some v \<Rightarrow> (Ret (True, None, v), d)
        | None \<Rightarrow> (Ret (False, None, z), d\<lparr>d_in := tl (d_in d), d_Offset := d_Offset d + 1\<rparr>))"
| "parseValue (Suc n) TIface d = and_then (parse_interface d) (\<lambda>v d. (Ret (True, None, GIface (Some v)), d))"
| "parseValue (Suc n) t d =
     (case d_in d of
        [] \<Rightarrow> (Ret (False, Some (Sentinel IoEOF), zero_of t), d)
      | b # bs \<Rightarrow>
        (let d = d\<lparr>d_in := bs, d_Offset := d_Offset d + 1\<rparr> in
         if b = CHR ''e'' then (Ret (False, None, zero_of t), d)
         else if b = CHR ''d'' then found (parseDict n t (zero_of t) d)
         else if b = CHR ''l'' then found (parseList n t d)
         else if b = CHR ''i'' then found (parseInt t d)
         else if is_digit b then found (parseString t (d\<lparr>d_buf := [b]\<rparr>))
         else (Throw (raiseUnknownValueType b (int (d_Offset d) - 1)), d)))"
| "parseDict 0 t target d = (NoFuel, d)"
| "parseDict (Suc n) t target d =
     (if getDictField t [] = None
      then (Ret (Some (ErrorString (''cannot parse dicts into '' @ type_name t)), target), d)
      else
        and_then (parseValue n TString d)
          (\<lambda>(ok, err, key) d.
             case err of Some e \<Rightarrow> (Ret (Some (Errorf ''error parsing dict key: '' e []), target), d)
             | None \<Rightarrow> if \<not> ok then (Ret (None, target), d) else parseItem n t target (string_of key) d))"
| "parseItem 0 t target key d = (NoFuel, d)"
| "parseItem (Suc n) t target key d =
     (case getDictField t key of
        None \<Rightarrow> (Ret (None, target), d)
      | Some Discard \<Rightarrow>
        and_then (parseValueInterface (parse_fuel d) d)
          (\<lambda>iface d.
             case iface of
               None \<Rightarrow> (Ret (Some (ErrorString (''error parsing value for key '' @ go_quote key)), target), d)
             | Some _ \<Rightarrow> parseDict n t target d)
      | Some (Field ft ign) \<Rightarrow>
        and_then (parseValue n ft d)
          (\<lambda>(ok, err, v) d.
             case err of
               Some e \<Rightarrow>
                 if \<not> (as_unmarshal_type e \<and> ign)
                 then (Ret (Some (Errorf (''parsing value for key '' @ go_quote key @ '': '') e []), target), d)
                 else if \<not> ok then (Ret (Some (ErrorString (''missing value for key '' @ go_quote key)), target), d)
                 else parseDict n t (set_item key v target) d
             | None \<Rightarrow>
                 if \<not> ok then (Ret (Some (ErrorString (''missing value for key '' @ go_quote key)), target), d)
                 else parseDict n t (set_item key v target) d))"
| "parseList 0 t d = (NoFuel, d)"
| "parseList (Suc n) (TSlice t) d =
     and_then (parseElems n t [] d) (\<lambda>(err, vs) d. (Ret (err, GSlice (Some vs)), d))"
| "parseList (Suc n) t d =
     and_then (parseElems n t [] d)
       (\<lambda>(err, vs) d.
          case err of Some e \<Rightarrow> (Ret (Some e, zero_of t), d)
          | None \<Rightarrow>
            (case vs of
               [v] \<Rightarrow> (Ret (None, v), d)
             | _ \<Rightarrow> (Ret (Some (UnmarshalTypeError ''list'' (type_name t)), zero_of t), d)))"
| "parseElems 0 t vs d = (NoFuel, d)"
| "parseElems (Suc n) t vs d =
     and_then (parseValue n t d)
       (\<lambda>(ok, err, v) d.
          case err of Some e \<Rightarrow> (Ret (Some e, vs @ [v]), d)
          | None \<Rightarrow> if \<not> ok then (Ret (None, vs), d) else parseElems n t (vs @ [v]) d)"
  by pat_completeness auto
termination
  by (relation "inv_image (less_than <*lex*> less_than)
        (\<lambda>x. case x of Inl (Inl (n, t, _)) \<Rightarrow> (n, size t) | Inl (Inr (n, _)) \<Rightarrow> (n, 0)
         | Inr (Inl (n, _)) \<Rightarrow> (n, 0) | Inr (Inr (Inl (n, _))) \<Rightarrow> (n, 0) | Inr (Inr (Inr (n, _))) \<Rightarrow> (n, 0))") auto

text \<open>\<open>Decode\<close> and \<open>Unmarshal\<close> into a target of a type: the error and the value. A recovered panic leaves the
  target in a state nobody reads.\<close>

definition typed_fuel :: "decoder \<Rightarrow> nat" where
  "typed_fuel d = 3 * length (d_in d) + 1"

definition lone_end :: go_error where
  "lone_end = ErrorString (''unexpected '' @ [CHR 0x27, CHR ''e'', CHR 0x27])"

definition Decode_type :: "gotype \<Rightarrow> decoder \<Rightarrow> filled \<times> decoder" where
  "Decode_type t d =
     (case parseValue (typed_fuel d) t d of
        (Ret (ok, Some err, v), d) \<Rightarrow> ((Some err, v), d)
      | (Ret (True, None, v), d) \<Rightarrow> ((None, v), d)
      | (Ret (False, None, v), d) \<Rightarrow> ((Some (SyntaxError (int (d_Offset d) - 1) lone_end), v), d)
      | (Throw e, d) \<Rightarrow> ((Some (if e = Sentinel IoEOF then Sentinel IoUnexpectedEOF else e), zero_of t), d)
      | (NoFuel, d) \<Rightarrow> ((Some (ErrorString ''out of fuel''), zero_of t), d))"

definition Unmarshal_type :: "gotype \<Rightarrow> string \<Rightarrow> filled" where
  "Unmarshal_type t data =
     (case Decode_type t (new_decoder data) of
        ((Some err, v), d) \<Rightarrow> (Some err, v)
      | ((None, v), d) \<Rightarrow>
        if d_in d \<noteq> [] then (Some (ErrUnusedTrailingBytes (length (d_in d))), v)
        else (ReadEOF d, v))"

section \<open>The typed parsers consume and end\<close>

lemma copies_buf: "copies d s d' \<Longrightarrow> d_buf d' = d_buf d @ s"
  by (cases d; cases d') (simp add: copies_def)

lemma parseInt_consumes:
  assumes "parseInt t d = (Ret r, d')"
  shows "suffix (d_in d') (d_in d)"
proof -
  obtain x d1 where x: "readInt d = (x, d1)" by force
  have "d_in d' = d_in d1"
    using assms x by (cases x) (auto simp: parseInt_def Let_def reset_buf_def split: option.splits gotype.splits parsed_int.splits if_splits)
  then show ?thesis using consumesD [OF consumes_readInt x] by simp
qed

lemma consumes_read_full: "consumes (read_full n)"
  by (rule consumesI) (simp add: read_full_def Let_def suffix_drop)

lemma parseString_consumes:
  assumes "parseString t d = (Ret r, d')"
  shows "suffix (d_in d') (d_in d)"
proof -
  from assms obtain len d1 where l: "parseStringLength d = (Ret len, d1)"
    and k: "(case len of Inl err \<Rightarrow> (Ret (Some err, zero_of t), d1)
          | Inr n \<Rightarrow> and_then (read_full n d1)
              (\<lambda>b d. case t of
                   TString \<Rightarrow> (Ret (None, GString b), reset_buf d)
                 | TSlice TUint8 \<Rightarrow> (Ret (None, GSlice (Some (byte_values b))), reset_buf d)
                 | TBool \<Rightarrow> (Ret (None, GBool (case parse_bool b of None \<Rightarrow> n \<noteq> 0 | Some x \<Rightarrow> x)), reset_buf d)
                 | _ \<Rightarrow> (Ret (Some (UnmarshalTypeError ''string'' (type_name t)), zero_of t), reset_buf d))) = (Ret r, d')"
    unfolding parseString_def by (elim and_then_RetE) auto
  note s = consumesD [OF consumes_parseStringLength l]
  show ?thesis
  proof (cases len)
    case (Inl err)
    with k s show ?thesis by simp
  next
    case (Inr n)
    with k obtain b d2 where d2: "read_full n d1 = (Ret b, d2)" "d_in d' = d_in d2"
      by (auto simp: reset_buf_def elim!: and_then_RetE split: gotype.splits)
    with suffix_order.order_trans [OF consumesD [OF consumes_read_full d2(1)] s] show ?thesis by simp
  qed
qed

definition eats_value :: "nat \<Rightarrow> bool" where
  "eats_value n \<longleftrightarrow> (\<forall>t d ok err v d'. parseValue n t d = (Ret (ok, err, v), d') \<longrightarrow>
     suffix (d_in d') (d_in d) \<and> (ok \<or> err = None \<longrightarrow> length (d_in d') < length (d_in d)))"

definition eats_rest :: "nat \<Rightarrow> bool" where
  "eats_rest n \<longleftrightarrow> (\<forall>t d d' x y u. (parseDict n t x d = (Ret u, d') \<longrightarrow> suffix (d_in d') (d_in d)) \<and>
     (parseItem n t x y d = (Ret u, d') \<longrightarrow> suffix (d_in d') (d_in d)) \<and>
     (parseList n t d = (Ret u, d') \<longrightarrow> suffix (d_in d') (d_in d))) \<and>
     (\<forall>t d d' z u. parseElems n t z d = (Ret u, d') \<longrightarrow> suffix (d_in d') (d_in d))"

lemma found_Ret: "found m = (Ret x, d') \<longleftrightarrow> (\<exists>r. m = (Ret r, d') \<and> x = (True, r))"
  by (cases m; cases "fst m") (auto simp: found_def)

text \<open>The types whose values start with a byte that decides how to go on.\<close>

definition plain_type :: "gotype \<Rightarrow> bool" where
  "plain_type t = (case t of TPtr _ \<Rightarrow> False | TUnmarshaler _ _ _ \<Rightarrow> False | TIface \<Rightarrow> False | _ \<Rightarrow> True)"

lemma plain_types [simp]:
  "plain_type TString" "plain_type TInt64" "plain_type TUint8" "plain_type TBool" "plain_type (TSlice t)"
  "plain_type (TMap t)" "plain_type (TStruct n fs)"
  by (simp_all add: plain_type_def)

lemma parseValue_plain:
  "plain_type t \<Longrightarrow> parseValue (Suc n) t d =
     (case d_in d of
        [] \<Rightarrow> (Ret (False, Some (Sentinel IoEOF), zero_of t), d)
      | b # bs \<Rightarrow>
        (let d = d\<lparr>d_in := bs, d_Offset := d_Offset d + 1\<rparr> in
         if b = CHR ''e'' then (Ret (False, None, zero_of t), d)
         else if b = CHR ''d'' then found (parseDict n t (zero_of t) d)
         else if b = CHR ''l'' then found (parseList n t d)
         else if b = CHR ''i'' then found (parseInt t d)
         else if is_digit b then found (parseString t (d\<lparr>d_buf := [b]\<rparr>))
         else (Throw (raiseUnknownValueType b (int (d_Offset d) - 1)), d)))"
  by (cases t; simp only: plain_type_def gotype.case parseValue.simps)

lemma parse_interface_eats: "parse_interface d = (Ret v, d') \<Longrightarrow> suffix (d_in d') (d_in d) \<and> length (d_in d') < length (d_in d)"
  using consuming_all [of "parse_fuel d"] parse_shrinks [of "parse_fuel d" d]
  by (auto simp: parse_interface_def consuming_def elim!: and_then_RetE split: option.splits dest: consumesD)

lemma parseUnmarshaler_eats:
  assumes "parseUnmarshaler tn f d = (Ret r, d')"
  shows "(\<exists>s. d_in d = s @ d_in d' \<and> (case r of None \<Rightarrow> s = [] \<and> (\<exists>cs. d_in d = CHR ''e'' # cs) | Some v \<Rightarrow> s \<noteq> [] \<and> f s = Inr v))"
proof -
  let ?d = "reset_buf d"
  from assms obtain b d1 where b: "readOneValue (parse_fuel ?d) ?d = (Ret b, d1)"
    and k: "(if \<not> b then (Ret None, d1) else case f (d_buf d1) of
        Inl err \<Rightarrow> (Throw (UnmarshalerError tn err), d1) | Inr v \<Rightarrow> (Ret (Some v), d1)) = (Ret r, d')"
    unfolding parseUnmarshaler_def Let_def by (elim and_then_RetE) blast
  have "d1 = d'" using k by (auto split: if_splits sum.splits)
  show ?thesis
  proof (cases b)
    case True
    then have "readOneValue (parse_fuel ?d) ?d = (Ret True, d1)" using b by simp
    from readOneValue_copies(1) [OF this] obtain s where s: "s \<noteq> []" "copies ?d s d1" by blast
    then have "d_in d = s @ d_in d1" "d_buf d1 = s" using copies_buf [of ?d s d1] copies_in [of ?d s d1] by (simp_all add: reset_buf_def)
    with k True s(1) \<open>d1 = d'\<close> show ?thesis by (auto split: sum.splits)
  next
    case False
    then have "readOneValue (parse_fuel ?d) ?d = (Ret False, d1)" using b by simp
    from readOneValue_copies(2) [OF this] have "d1 = ?d" "\<exists>r. d_in ?d = CHR ''e'' # r" by blast+
    with k False \<open>d1 = d'\<close> show ?thesis by (auto simp: reset_buf_def)
  qed
qed

text \<open>Either form of \<open>parseList\<close> runs the loop over the elements.\<close>

definition single_elem :: "gotype \<Rightarrow> go_error option \<times> govalue list \<Rightarrow> filled" where
  "single_elem t r =
     (case r of
        (Some e, vs) \<Rightarrow> (Some e, zero_of t)
      | (None, [v]) \<Rightarrow> (None, v)
      | (None, _) \<Rightarrow> (Some (UnmarshalTypeError ''list'' (type_name t)), zero_of t))"

lemma parseList_single:
  assumes "\<And>e. t \<noteq> TSlice e"
  shows "parseList (Suc n) t d = and_then (parseElems n t [] d) (\<lambda>r d. (Ret (single_elem t r), d))"
proof -
  have eq: "(\<lambda>r d. (Ret (single_elem t r), d)) =
    (\<lambda>(err, vs) d.
          case err of Some e \<Rightarrow> (Ret (Some e, zero_of t), d)
          | None \<Rightarrow>
            (case vs of
               [v] \<Rightarrow> (Ret (None, v), d)
             | _ \<Rightarrow> (Ret (Some (UnmarshalTypeError ''list'' (type_name t)), zero_of t), d)))"
    by (intro ext) (auto simp: single_elem_def split: option.splits list.splits)
  show ?thesis unfolding eq
  proof (cases t)
    case (TSlice e)
    then show "parseList (Suc n) t d = and_then (parseElems n t [] d) (\<lambda>(err, vs) d.
          case err of Some e \<Rightarrow> (Ret (Some e, zero_of t), d)
          | None \<Rightarrow> (case vs of [v] \<Rightarrow> (Ret (None, v), d)
             | _ \<Rightarrow> (Ret (Some (UnmarshalTypeError ''list'' (type_name t)), zero_of t), d)))" using assms by blast
  qed (simp_all only: parseList.simps)
qed

lemma parseList_elems:
  "\<exists>q g. parseList (Suc n) t d = and_then (parseElems n q [] d) (\<lambda>r d. (Ret (g r), d))"
proof (cases "\<exists>e. t = TSlice e")
  case True
  then obtain e where e: "t = TSlice e" by blast
  show ?thesis
    by (intro exI [of _ e] exI [of _ "\<lambda>(err, vs). (err, GSlice (Some vs))"]) (simp add: e case_prod_unfold)
next
  case False
  then have "\<And>e. t \<noteq> TSlice e" by blast
  from parseList_single [OF this] show ?thesis by blast
qed

lemma eats_restD:
  assumes "eats_rest n"
  shows "parseDict n t x d = (Ret u, d') \<Longrightarrow> suffix (d_in d') (d_in d)"
    "parseItem n t x y d = (Ret u, d') \<Longrightarrow> suffix (d_in d') (d_in d)"
    "parseList n t d = (Ret u, d') \<Longrightarrow> suffix (d_in d') (d_in d)"
    "parseElems n t z d = (Ret w, d') \<Longrightarrow> suffix (d_in d') (d_in d)"
  using assms unfolding eats_rest_def by blast+

lemma eats_plain:
  assumes r: "eats_rest n" and t: "plain_type t" and run: "parseValue (Suc n) t d = (Ret (ok, err, v), d')"
  shows "suffix (d_in d') (d_in d) \<and> (ok \<or> err = None \<longrightarrow> length (d_in d') < length (d_in d))"
proof (cases "d_in d")
  case Nil
  with run t show ?thesis by (auto simp: parseValue_plain)
next
  case (Cons b bs)
  let ?d = "d\<lparr>d_in := bs, d_Offset := d_Offset d + 1\<rparr>"
  have "d' = ?d \<or> (\<exists>u. parseDict n t (zero_of t) ?d = (Ret u, d')) \<or> (\<exists>u. parseList n t ?d = (Ret u, d')) \<or>
      (\<exists>u. parseInt t ?d = (Ret u, d')) \<or> (\<exists>u. parseString t (?d\<lparr>d_buf := [b]\<rparr>) = (Ret u, d'))"
    using run unfolding parseValue_plain [OF t] Cons by (auto simp: Let_def found_Ret split: if_splits)
  then have "suffix (d_in d') bs"
  proof (elim disjE exE)
    show "parseDict n t (zero_of t) ?d = (Ret u, d') \<Longrightarrow> suffix (d_in d') bs" for u
      using eats_restD(1) [OF r, of t "zero_of t" ?d u d'] by simp
    show "parseList n t ?d = (Ret u, d') \<Longrightarrow> suffix (d_in d') bs" for u
      using eats_restD(3) [OF r, of t ?d u d'] by simp
    show "parseInt t ?d = (Ret u, d') \<Longrightarrow> suffix (d_in d') bs" for u
      using parseInt_consumes [of t ?d u d'] by simp
    show "parseString t (?d\<lparr>d_buf := [b]\<rparr>) = (Ret u, d') \<Longrightarrow> suffix (d_in d') bs" for u
      using parseString_consumes [of t "?d\<lparr>d_buf := [b]\<rparr>" u d'] by simp
  qed simp
  then show ?thesis using Cons by (auto simp: suffix_Cons dest: suffix_length_le)
qed

lemma eats_value_step:
  assumes r: "eats_rest n"
  shows "eats_value (Suc n)"
proof -
  have "parseValue (Suc n) t d = (Ret (ok, err, v), d') \<Longrightarrow>
     suffix (d_in d') (d_in d) \<and> (ok \<or> err = None \<longrightarrow> length (d_in d') < length (d_in d))" for t d ok err v d'
  proof (induction t arbitrary: v)
    case (TPtr t)
    from TPtr.prems obtain u where "parseValue (Suc n) t d = (Ret (ok, err, u), d')"
      by (auto simp del: parseValue.simps simp: parseValue.simps(2) elim!: and_then_RetE split: prod.splits)
    with TPtr.IH show ?case by blast
  next
    case TIface
    then show ?case using parse_interface_eats by (auto elim!: and_then_RetE)
  next
    case (TUnmarshaler tn z f)
    from TUnmarshaler.prems obtain r d1 where u: "parseUnmarshaler tn f d = (Ret r, d1)"
      and k: "(case r of Some v \<Rightarrow> (Ret (True, None, v), d1)
        | None \<Rightarrow> (Ret (False, None, z), d1\<lparr>d_in := tl (d_in d1), d_Offset := d_Offset d1 + 1\<rparr>)) = (Ret (ok, err, v), d')"
      by (auto elim!: and_then_RetE)
    show ?case
    proof (cases r)
      case None
      with parseUnmarshaler_eats [OF u] obtain cs where "d_in d1 = d_in d \<and> d_in d = CHR ''e'' # cs" by fastforce
      with k None show ?thesis by (auto simp: suffix_Cons)
    next
      case (Some x)
      with parseUnmarshaler_eats [OF u] k show ?thesis by (auto simp: suffix_def)
    qed
  qed (erule plain_types [THEN eats_plain [OF r]])+
  then show ?thesis unfolding eats_value_def by blast
qed

lemma suffix_via: "suffix (d_in (d2::decoder)) (d_in d1) \<Longrightarrow> suffix (d_in (d1::decoder)) (d_in d) \<Longrightarrow> suffix (d_in d2) (d_in (d::decoder))"
  by (rule suffix_order.order_trans)

lemma eats_rest_step:
  assumes v: "eats_value n" and r: "eats_rest n"
  shows "eats_rest (Suc n)"
proof -
  have val: "suffix (d_in d') (d_in d)" if "parseValue n t d = (Ret x, d')" for t d x d'
    using v that unfolding eats_value_def by (metis prod.collapse)
  note rest = eats_restD(1,2) [OF r] and elems = eats_restD(4) [OF r]
  have iface: "suffix (d_in d') (d_in d)" if "parseValueInterface m d = (Ret x, d')" for m d x d'
    using consuming_all [of m] that unfolding consuming_def by (blast dest: consumesD)
  have 1: "suffix (d_in d') (d_in d)" if run: "parseDict (Suc n) t x d = (Ret u, d')" for t x d u d'
  proof (cases "getDictField t [] = None")
    case False
    then obtain y d1 where d1: "parseValue n TString d = (Ret y, d1)"
      and k: "d' = d1 \<or> parseItem n t x (string_of (snd (snd y))) d1 = (Ret u, d')"
      using run by (auto elim!: and_then_RetE split: option.splits if_splits prod.splits)
    from k val [OF d1] rest(2) suffix_via show ?thesis by blast
  qed (use run in auto)
  have 2: "suffix (d_in d') (d_in d)" if run: "parseItem (Suc n) t x y d = (Ret u, d')" for t x y d u d'
  proof -
    consider "d' = d"
      | z d1 where "parseValueInterface (parse_fuel d) d = (Ret z, d1)" "d' = d1 \<or> parseDict n t x d1 = (Ret u, d')"
      | ft z d1 q where "parseValue n ft d = (Ret z, d1)" "d' = d1 \<or> parseDict n t q d1 = (Ret u, d')"
    proof (cases "getDictField t y")
      case None
      with run that(1) show thesis by auto
    next
      case (Some f)
      show thesis
      proof (cases f)
        case Discard
        with run Some that(1,2) show thesis by (auto elim!: and_then_RetE split: option.splits)
      next
        case (Field ft ign)
        with run Some obtain z d1 where "parseValue n ft d = (Ret z, d1)" and
          k: "d' = d1 \<or> (\<exists>q. parseDict n t q d1 = (Ret u, d'))"
          by (auto elim!: and_then_RetE split: option.splits if_splits prod.splits) blast+
        then show thesis using that(3) by blast
      qed
    qed
    then show ?thesis using iface val rest(1) suffix_via by cases (simp, blast+)
  qed
  have 3: "suffix (d_in d') (d_in d)" if run: "parseList (Suc n) t d = (Ret u, d')" for t d u d'
  proof -
    obtain q g where "parseList (Suc n) t d = and_then (parseElems n q [] d) (\<lambda>r d. (Ret (g r), d))"
      using parseList_elems [of n t d] by blast
    with run obtain z where "parseElems n q [] d = (Ret z, d')" by (auto elim!: and_then_RetE)
    with elems show ?thesis by blast
  qed
  have 4: "suffix (d_in d') (d_in d)" if run: "parseElems (Suc n) t z d = (Ret u, d')" for t z d u d'
  proof -
    from run obtain y d1 where d1: "parseValue n t d = (Ret y, d1)"
      and k: "d' = d1 \<or> (\<exists>q. parseElems n t q d1 = (Ret u, d'))"
      by (auto elim!: and_then_RetE split: option.splits if_splits prod.splits) blast+
    from k val [OF d1] elems suffix_via show ?thesis by blast
  qed
  show ?thesis unfolding eats_rest_def using 1 2 3 4 by blast
qed

lemma eats_all: "eats_value n \<and> eats_rest n"
proof (induction n)
  case 0
  show ?case by (simp add: eats_value_def eats_rest_def)
next
  case (Suc n)
  then show ?case using eats_value_step eats_rest_step by blast
qed

lemma parseValue_suffix: "parseValue n t d = (Ret x, d') \<Longrightarrow> suffix (d_in d') (d_in d)"
  using eats_all [of n] unfolding eats_value_def by (metis prod.collapse)

lemma parseValue_eats:
  "parseValue n t d = (Ret (ok, err, v), d') \<Longrightarrow> ok \<or> err = None \<Longrightarrow> length (d_in d') < length (d_in d)"
  using eats_all [of n] unfolding eats_value_def by blast

text \<open>The fuel of \<open>typed_fuel\<close> is enough: a value takes one step before its contents, and an item of a dict or a
  list at most three for each byte it consumes.\<close>

lemma parseInt_total: "parseInt t d \<noteq> (NoFuel, d')"
  by (auto simp: parseInt_def readInt_def Let_def elim!: and_then_NoFuelE
      split: parsed_int.splits option.splits gotype.splits if_splits)

lemma parseString_total: "parseString t d \<noteq> (NoFuel, d')"
  by (auto simp: parseString_def read_full_def Let_def parseStringLength_total elim!: and_then_NoFuelE
      split: sum.splits gotype.splits if_splits)

lemma parseUnmarshaler_total: "parseUnmarshaler tn f d \<noteq> (NoFuel, d')"
proof -
  have "readOneValue (parse_fuel e) e \<noteq> (NoFuel, e')" for e e'
    using copy_total_all [of "parse_fuel e"] by (simp add: copy_total_def parse_fuel_def)
  then show ?thesis
    by (auto simp: parseUnmarshaler_def Let_def elim!: and_then_NoFuelE split: sum.splits if_splits)
qed

definition ends_value :: "nat \<Rightarrow> bool" where
  "ends_value n \<longleftrightarrow> (\<forall>t d d'. 3 * length (d_in d) + 1 \<le> n \<longrightarrow> parseValue n t d \<noteq> (NoFuel, d'))"

definition ends_loops :: "nat \<Rightarrow> bool" where
  "ends_loops n \<longleftrightarrow> (\<forall>t d d' x y z. 3 * length (d_in d) + 2 \<le> n \<longrightarrow>
     parseDict n t x d \<noteq> (NoFuel, d') \<and> parseItem n t x y d \<noteq> (NoFuel, d') \<and> parseElems n t z d \<noteq> (NoFuel, d'))"

definition ends_list :: "nat \<Rightarrow> bool" where
  "ends_list n \<longleftrightarrow> (\<forall>t d d'. 3 * length (d_in d) + 3 \<le> n \<longrightarrow> parseList n t d \<noteq> (NoFuel, d'))"

lemma found_NoFuel: "found m = (NoFuel, d') \<longleftrightarrow> m = (NoFuel, d')"
  by (cases m; cases "fst m") (auto simp: found_def)

lemma ends_plain:
  assumes "ends_loops n" "ends_list n" and t: "plain_type t" and l: "3 * length (d_in d) + 1 \<le> Suc n"
  shows "parseValue (Suc n) t d \<noteq> (NoFuel, d')"
proof (cases "d_in d")
  case Nil
  then show ?thesis by (simp add: parseValue_plain [OF t])
next
  case (Cons b bs)
  let ?d = "d\<lparr>d_in := bs, d_Offset := d_Offset d + 1\<rparr>"
  have "parseDict n t x ?d \<noteq> (NoFuel, d')" "parseList n t ?d \<noteq> (NoFuel, d')" for x
    using assms(1,2) l Cons by (simp_all add: ends_loops_def ends_list_def)
  then show ?thesis
    using parseInt_total parseString_total unfolding parseValue_plain [OF t] Cons by (simp add: Let_def found_NoFuel)
qed

lemma ends_value_step:
  assumes l: "ends_loops n" "ends_list n"
  shows "ends_value (Suc n)"
proof -
  have "parseValue (Suc n) t d \<noteq> (NoFuel, d')" if len: "3 * length (d_in d) + 1 \<le> Suc n" for t d d'
  proof (induction t arbitrary: d')
    case (TPtr t)
    then show ?case
      by (auto simp del: parseValue.simps simp: parseValue.simps(2) elim!: and_then_NoFuelE split: prod.splits)
  next
    case TIface
    then show ?case by (auto simp: parse_interface_total elim!: and_then_NoFuelE)
  next
    case (TUnmarshaler tn z f)
    then show ?case by (auto simp: parseUnmarshaler_total elim!: and_then_NoFuelE split: option.splits)
  qed (rule plain_types [THEN ends_plain [OF l _ len]])+
  then show ?thesis unfolding ends_value_def by blast
qed

lemma ends_loops_step:
  assumes v: "ends_value n" and l: "ends_loops n"
  shows "ends_loops (Suc n)"
  unfolding ends_loops_def
proof (intro allI impI conjI notI)
  fix t x y z and d d' :: decoder
  assume n: "3 * length (d_in d) + 2 \<le> Suc n"
  have val: "parseValue n q d \<noteq> (NoFuel, e)" for q e
    using v n unfolding ends_value_def by auto
  have nxt: "parseDict n t p d1 \<noteq> (NoFuel, e) \<and> parseItem n t p k d1 \<noteq> (NoFuel, e) \<and> parseElems n t u d1 \<noteq> (NoFuel, e)"
    if "length (d_in d1) < length (d_in d)" for d1 p k u e
    using l [unfolded ends_loops_def, rule_format, of d1] that n by auto
  have sub: "parseDict n t p d1 \<noteq> (NoFuel, e) \<and> parseItem n t p k d1 \<noteq> (NoFuel, e) \<and> parseElems n t u d1 \<noteq> (NoFuel, e)"
    if "parseValue n q d = (Ret (ok, err, w), d1)" "ok \<or> err = None" for q ok err w d1 p k u e
    by (rule nxt [OF parseValue_eats [OF that]])
  have dis: "parseDict n t p d1 \<noteq> (NoFuel, e)" if "parseValueInterface m d = (Ret r, d1)" for m r d1 p e
    using nxt [OF parse_shrinks [OF that]] by blast
  have iface: "parseValueInterface (parse_fuel d) d \<noteq> (NoFuel, e)" for e
    using parse_fuel_enough [of d] by force
  show False if "parseDict (Suc n) t x d = (NoFuel, d')"
    using that val sub
    by (auto elim!: and_then_NoFuelE split: option.splits if_splits prod.splits)
  show False if "parseElems (Suc n) t z d = (NoFuel, d')"
    using that val sub
    by (auto elim!: and_then_NoFuelE split: option.splits if_splits prod.splits)
  show False if "parseItem (Suc n) t x y d = (NoFuel, d')"
  proof (cases "getDictField t y")
    case None
    with that show ?thesis by simp
  next
    case (Some f)
    with that show ?thesis using val sub dis
      by (cases f) (auto simp: iface elim!: and_then_NoFuelE split: option.splits if_splits prod.splits)
  qed
qed

lemma ends_list_step:
  assumes "ends_loops n"
  shows "ends_list (Suc n)"
  unfolding ends_list_def
proof (intro allI impI notI)
  fix t d d'
  assume n: "3 * length (d_in d) + 3 \<le> Suc n" and run: "parseList (Suc n) t d = (NoFuel, d')"
  obtain q g where "parseList (Suc n) t d = and_then (parseElems n q [] d) (\<lambda>r d. (Ret (g r), d))"
    using parseList_elems [of n t d] by blast
  with run obtain e where "parseElems n q [] d = (NoFuel, e)" by (auto elim!: and_then_NoFuelE)
  with assms n show False unfolding ends_loops_def by auto
qed

lemma ends_all: "ends_value n \<and> ends_loops n \<and> ends_list n"
proof (induction n)
  case 0
  show ?case by (simp add: ends_value_def ends_loops_def ends_list_def)
next
  case (Suc n)
  then show ?case using ends_value_step ends_loops_step ends_list_step by blast
qed

lemma parseValue_ends: "parseValue (typed_fuel d) t d \<noteq> (NoFuel, d')"
  using ends_all [of "typed_fuel d"] unfolding ends_value_def typed_fuel_def by blast

end
