(* ===== verification/MetainfoFile.thy ===== *)
theory MetainfoFile
  imports BencodeTyped Magnet Metainfo
begin

text \<open>
  Torrent files: \<open>metainfo.Load\<close> and the methods of \<open>MetaInfo\<close> (\<open>metainfo/metainfo.go\<close>, \<open>announcelist.go\<close>,
  \<open>nodes.go\<close>, \<open>urllist.go\<close>), version 2 file trees (\<open>file-tree.go\<close>), and \<open>TorrentSpecFromMetaInfoErr\<close> of
  \<open>spec.go\<close>. The types are described for the decoder by their bencode tags; SHA-1 and SHA-256 are
  parameters.
\<close>

section \<open>Types\<close>

definition rawType :: gotype where
  "rawType = TUnmarshaler ''bencode.Bytes'' (GString []) (\<lambda>b. Inr (GString b))"

definition goval_kind :: "bvalue \<Rightarrow> string" where
  "goval_kind v =
     (case v of BInt i \<Rightarrow> ''int64'' | BBig i \<Rightarrow> ''*big.Int'' | BStr s \<Rightarrow> ''string'' | BList l \<Rightarrow> ''[]interface {}''
      | BDict m \<Rightarrow> ''map[string]interface {}'')"

definition conversion_error :: "bvalue \<Rightarrow> string \<Rightarrow> go_error" where
  "conversion_error v want = ErrorString (''interface conversion: interface {} is '' @ goval_kind v @ '', not '' @ want)"

definition index_error :: "nat \<Rightarrow> nat \<Rightarrow> go_error" where
  "index_error i n =
     ErrorString (''runtime error: index out of range ['' @ nat_dec i @ ''] with length '' @ nat_dec n)"

definition JoinHostPort :: "string \<Rightarrow> string \<Rightarrow> string" where
  "JoinHostPort host port =
     (if CHR '':'' \<in> set host then ''['' @ host @ '']:'' @ port else host @ '':'' @ port)"

text \<open>\<open>Node.UnmarshalBencode\<close>: the panics of the assertions on the list are recovered as errors.\<close>

definition node_unmarshal :: "string \<Rightarrow> go_error + govalue" where
  "node_unmarshal b =
     (case Unmarshal_interface b of
        Inl err \<Rightarrow> Inl err
      | Inr (BStr s) \<Rightarrow> Inr (GString s)
      | Inr (BList v) \<Rightarrow>
          (case v of
             [] \<Rightarrow> Inl (index_error 0 0)
           | BStr host # rest \<Rightarrow>
               (case rest of
                  [] \<Rightarrow> Inl (index_error 1 1)
                | BInt port # _ \<Rightarrow> Inr (GString (JoinHostPort host (int_dec port)))
                | x # _ \<Rightarrow> Inl (conversion_error x ''int64''))
           | x # _ \<Rightarrow> Inl (conversion_error x ''string''))
      | Inr v \<Rightarrow> Inl (ErrorString (''unsupported type: '' @ goval_kind v)))"

definition nodeType :: gotype where
  "nodeType = TUnmarshaler ''metainfo.Node'' (GString []) node_unmarshal"

definition urlList_unmarshal :: "string \<Rightarrow> go_error + govalue" where
  "urlList_unmarshal b =
     (case b of
        [] \<Rightarrow> Inr (GSlice None)
      | c # _ \<Rightarrow>
        if c = CHR ''l'' then
          (case Unmarshal_type (TSlice TString) b of (Some err, _) \<Rightarrow> Inl err | (None, l) \<Rightarrow> Inr l)
        else
          (case Unmarshal_type TString b of (Some err, _) \<Rightarrow> Inl err | (None, s) \<Rightarrow> Inr (GSlice (Some [s]))))"

definition urlListType :: gotype where
  "urlListType = TUnmarshaler ''metainfo.UrlList'' (GSlice None) urlList_unmarshal"

definition extendedFileAttrs :: "(string \<times> gotype \<times> bool) list" where
  "extendedFileAttrs = [(''attr'', TString, False), (''symlink path'', TSlice TString, False), (''sha1'', TString, False)]"

definition fileInfoType :: gotype where
  "fileInfoType = TStruct ''metainfo.FileInfo''
     ([(''length'', TInt64, False), (''path'', TSlice TString, False), (''path.utf-8'', TSlice TString, False)] @
      extendedFileAttrs)"

definition fileTreeFileType :: gotype where
  "fileTreeFileType = TStruct ''metainfo.FileTreeFile'' [(''length'', TInt64, False), (''pieces root'', TString, False)]"

section \<open>Reading values\<close>

definition get_field :: "string \<Rightarrow> govalue \<Rightarrow> govalue" where
  "get_field k v = (case v of GStruct kvs \<Rightarrow> (case map_of kvs k of Some x \<Rightarrow> x | None \<Rightarrow> GIface None) | _ \<Rightarrow> GIface None)"

definition int_of :: "govalue \<Rightarrow> int" where
  "int_of v = (case v of GInt i \<Rightarrow> i | _ \<Rightarrow> 0)"

definition elems_of :: "govalue \<Rightarrow> govalue list option" where
  "elems_of v = (case v of GSlice vs \<Rightarrow> vs | _ \<Rightarrow> None)"

definition strings_of :: "govalue \<Rightarrow> string list" where
  "strings_of v = (case elems_of v of None \<Rightarrow> [] | Some vs \<Rightarrow> map string_of vs)"

definition bytes_of :: "govalue \<Rightarrow> string" where
  "bytes_of v = (case elems_of v of None \<Rightarrow> [] | Some vs \<Rightarrow> map (\<lambda>x. char_of (nat (int_of x))) vs)"

definition entries_of :: "govalue \<Rightarrow> (string \<times> govalue) list" where
  "entries_of v = (case v of GMap (Some kvs) \<Rightarrow> kvs | _ \<Rightarrow> [])"

section \<open>File trees\<close>

text \<open>The first error among the results, else all of them.\<close>

fun all_ok :: "('e + 'a) list \<Rightarrow> 'e + 'a list" where
  "all_ok [] = Inr []"
| "all_ok (Inl e # rs) = Inl e"
| "all_ok (Inr a # rs) = map_sum id (\<lambda>as. a # as) (all_ok rs)"

definition file_props :: "(string \<times> govalue) list \<Rightarrow> go_error + int \<times> string" where
  "file_props dir =
     (case map_of dir [] of
        None \<Rightarrow> Inr (0, [])
      | Some propBytes \<Rightarrow>
        (case Unmarshal_type fileTreeFileType (string_of propBytes) of
           (Some err, _) \<Rightarrow> Inl err
         | (None, f) \<Rightarrow> Inr (int_of (get_field ''length'' f), string_of (get_field ''pieces root'' f))))"

text \<open>\<open>FileTree.UnmarshalBencode\<close>. The entries of a directory, a Go map, are kept sorted by name. The source
  visits them in no particular order, which shows only in which of several errors is reported.\<close>

fun tree_unmarshal :: "nat \<Rightarrow> string \<Rightarrow> go_error + ftree" where
  "tree_unmarshal 0 b = Inl (ErrorString ''out of fuel'')"
| "tree_unmarshal (Suc n) b =
     (case Unmarshal_type (TMap rawType) b of
        (Some err, _) \<Rightarrow> Inl err
      | (None, v) \<Rightarrow>
        (case file_props (entries_of v) of
           Inl err \<Rightarrow> Inl err
         | Inr (len, root) \<Rightarrow>
           map_sum id (FT len root)
             (all_ok (map (\<lambda>(key, sub). map_sum id (Pair key) (tree_unmarshal n (string_of sub)))
                (sort_key fst (filter (\<lambda>e. fst e \<noteq> []) (entries_of v)))))))"

definition fileTreeType :: gotype where
  "fileTreeType = TUnmarshaler ''metainfo.FileTree'' (GTree (FT 0 [] []))
     (\<lambda>b. map_sum id GTree (tree_unmarshal (length b + 1) b))"

definition tree_of :: "govalue \<Rightarrow> ftree" where
  "tree_of v = (case v of GTree t \<Rightarrow> t | _ \<Rightarrow> FT 0 [] [])"

definition FileTreePropertiesKey :: string where
  "FileTreePropertiesKey = []"

definition NumEntries :: "ftree \<Rightarrow> nat" where
  "NumEntries t =
     (let num = length (ft_Dir t) in
      if FileTreePropertiesKey \<in> fst ` set (ft_Dir t) then num - 1 else num)"

definition tree_IsDir :: "ftree \<Rightarrow> bool" where
  "tree_IsDir t = (NumEntries t \<noteq> 0)"

text \<open>\<open>None\<close> is the panic on a root that does not fill 32 bytes.\<close>

definition PiecesRootAsByteArray :: "ftree \<Rightarrow> string option option" where
  "PiecesRootAsByteArray t =
     (if ft_PiecesRoot t = [] then Some None
      else if length (take 32 (ft_PiecesRoot t)) \<noteq> 32 then None
      else Some (Some (take 32 (ft_PiecesRoot t))))"

text \<open>\<open>upvertedFilesInner\<close>: the files in order and the next offset. \<open>None\<close> is a panic: a malformed root, or the
  division by a piece length of zero.\<close>

fun upvertedFilesInner :: "int \<Rightarrow> string list \<Rightarrow> ftree \<Rightarrow> int \<Rightarrow> (FileInfo list \<times> int) option"
and upverted_dir :: "int \<Rightarrow> string list \<Rightarrow> (string \<times> ftree) list \<Rightarrow> int \<Rightarrow> (FileInfo list \<times> int) option" where
  "upvertedFilesInner pl path (FT len root dir) off =
     (if tree_IsDir (FT len root dir) then upverted_dir pl path dir off
      else case PiecesRootAsByteArray (FT len root dir) of
             None \<Rightarrow> None
           | Some piecesRoot \<Rightarrow>
             if pl = 0 then None
             else Some ([\<lparr>fi_Length = len, fi_Path = path, fi_PathUtf8 = path, fi_PiecesRoot = piecesRoot,
                          fi_TorrentOffset = off\<rparr>],
                        i64 (off + div64 (i64 (len + pl - 1)) pl * pl)))"
| "upverted_dir pl path [] off = Some ([], off)"
| "upverted_dir pl path ((key, sub) # dir) off =
     (if key = FileTreePropertiesKey then upverted_dir pl path dir off
      else case upvertedFilesInner pl (path @ [key]) sub off of
             None \<Rightarrow> None
           | Some (fs, off) \<Rightarrow> map_option (\<lambda>(gs, off). (fs @ gs, off)) (upverted_dir pl path dir off))"

definition upvertedFiles :: "int \<Rightarrow> ftree \<Rightarrow> FileInfo list option" where
  "upvertedFiles pl t = map_option fst (upvertedFilesInner pl [] t 0)"

fun walk_lengths :: "ftree \<Rightarrow> int list" where
  "walk_lengths (FT len root dir) =
     len # concat (map (\<lambda>(key, sub). if key = FileTreePropertiesKey then [] else walk_lengths sub) dir)"

text \<open>The tree as the methods of \<open>Info\<close> see it.\<close>

definition file_tree :: "ftree \<Rightarrow> FileTree" where
  "file_tree t =
     \<lparr>ft_IsDir = tree_IsDir t,
      ft_upvertedFiles = (\<lambda>pl. upvertedFiles pl t),
      ft_walkLengths = walk_lengths t\<rparr>"

section \<open>The info dictionary\<close>

definition infoType :: gotype where
  "infoType = TStruct ''metainfo.Info''
     ([(''piece length'', TInt64, False), (''pieces'', TSlice TUint8, False), (''name'', TString, False),
       (''name.utf-8'', TString, False), (''length'', TInt64, False)] @ extendedFileAttrs @
      [(''private'', TPtr TBool, False), (''source'', TString, False), (''files'', TSlice fileInfoType, False),
       (''meta version'', TInt64, False), (''file tree'', fileTreeType, False)])"

definition file_info :: "govalue \<Rightarrow> FileInfo" where
  "file_info v =
     \<lparr>fi_Length = int_of (get_field ''length'' v), fi_Path = strings_of (get_field ''path'' v),
      fi_PathUtf8 = strings_of (get_field ''path.utf-8'' v), fi_PiecesRoot = None, fi_TorrentOffset = 0\<rparr>"

definition info_of :: "govalue \<Rightarrow> Info" where
  "info_of v =
     \<lparr>PieceLength = int_of (get_field ''piece length'' v), Pieces = bytes_of (get_field ''pieces'' v),
      info_Name = string_of (get_field ''name'' v), NameUtf8 = string_of (get_field ''name.utf-8'' v),
      info_Length = int_of (get_field ''length'' v),
      Files = map_option (map file_info) (elems_of (get_field ''files'' v)),
      MetaVersion = int_of (get_field ''meta version'' v),
      info_FileTree = file_tree (tree_of (get_field ''file tree'' v))\<rparr>"

section \<open>Torrent files\<close>

record MetaFile =
  InfoBytes :: string
  Announce :: string
  AnnounceList :: "string list list"
  Nodes :: "string list"
  CreationDate :: int
  Comment :: string
  CreatedBy :: string
  Encoding :: string
  UrlList :: "string list"
  PieceLayers :: "(string \<times> string) list option"

definition metaInfoType :: gotype where
  "metaInfoType = TStruct ''metainfo.MetaInfo''
     [(''info'', rawType, False), (''announce'', TString, False), (''announce-list'', TSlice (TSlice TString), False),
      (''nodes'', TSlice nodeType, True), (''creation date'', TInt64, True), (''comment'', TString, False),
      (''created by'', TString, False), (''encoding'', TString, False), (''url-list'', urlListType, False),
      (''piece layers'', TMap TString, False)]"

definition meta_file :: "govalue \<Rightarrow> MetaFile" where
  "meta_file v =
     \<lparr>InfoBytes = string_of (get_field ''info'' v), Announce = string_of (get_field ''announce'' v),
      AnnounceList = (case elems_of (get_field ''announce-list'' v) of None \<Rightarrow> [] | Some ts \<Rightarrow> map strings_of ts),
      Nodes = strings_of (get_field ''nodes'' v), CreationDate = int_of (get_field ''creation date'' v),
      Comment = string_of (get_field ''comment'' v), CreatedBy = string_of (get_field ''created by'' v),
      Encoding = string_of (get_field ''encoding'' v), UrlList = strings_of (get_field ''url-list'' v),
      PieceLayers = (case get_field ''piece layers'' v of
          GMap (Some kvs) \<Rightarrow> Some (map (\<lambda>(k, x). (k, string_of x)) kvs)
        | _ \<Rightarrow> None)\<rparr>"

definition mi_Load :: "string \<Rightarrow> go_error + MetaFile" where
  "mi_Load bytes =
     (case Decode_type metaInfoType (new_decoder bytes) of
        ((Some err, _), d) \<Rightarrow> Inl err
      | ((None, v), d) \<Rightarrow>
        (case ReadEOF d of
           Some err \<Rightarrow> Inl (Errorf ''error after decoding metainfo: '' err [])
         | None \<Rightarrow> Inr (meta_file v)))"

definition UnmarshalInfo :: "MetaFile \<Rightarrow> go_error option \<times> Info" where
  "UnmarshalInfo mi = (case Unmarshal_type infoType (InfoBytes mi) of (err, v) \<Rightarrow> (err, info_of v))"

definition HashInfoBytes :: "(string \<Rightarrow> string) \<Rightarrow> MetaFile \<Rightarrow> string" where
  "HashInfoBytes sha1 mi = sha1 (InfoBytes mi)"

definition OverridesAnnounce :: "string list list \<Rightarrow> string \<Rightarrow> bool" where
  "OverridesAnnounce al announce = list_ex (list_ex (\<lambda>url. url \<noteq> [] \<or> announce = [])) al"

definition DistinctValues :: "string list list \<Rightarrow> string list" where
  "DistinctValues al = fold (\<lambda>v ret. if v \<in> set ret then ret else ret @ [v]) (concat al) []"

definition UpvertedAnnounceList :: "MetaFile \<Rightarrow> string list list" where
  "UpvertedAnnounceList mi =
     (if OverridesAnnounce (AnnounceList mi) (Announce mi) then AnnounceList mi
      else if Announce mi \<noteq> [] then [[Announce mi]]
      else [])"

definition MetaInfo_MagnetV2 ::
  "(string \<Rightarrow> string) \<Rightarrow> (string \<Rightarrow> string) \<Rightarrow> MetaFile \<Rightarrow> go_error + MagnetV2" where
  "MetaInfo_MagnetV2 sha1 sha256 mi =
     (case UnmarshalInfo mi of
        (Some err, _) \<Rightarrow> Inl err
      | (None, info) \<Rightarrow>
        Inr \<lparr>mv_InfoHash = (if HasV1 info then Some (HashInfoBytes sha1 mi) else None),
             mv_V2InfoHash = (if HasV2 info then Some (sha256 (InfoBytes mi)) else None),
             mv_Trackers = DistinctValues (UpvertedAnnounceList mi), mv_DisplayName = BestName info,
             mv_Params = [(''ws'', UrlList mi)]\<rparr>)"

text \<open>What \<open>TorrentSpecFromMetaInfoErr\<close> adds to the fields of a magnet's specification.\<close>

record FileSpec = TorrentSpec +
  ts_InfoBytes :: string
  ts_DhtNodes :: "string list"
  ts_PieceLayers :: "(string \<times> string) list option"

definition TorrentSpecFromMetaInfoErr ::
  "(string \<Rightarrow> string) \<Rightarrow> (string \<Rightarrow> string) \<Rightarrow> MetaFile \<Rightarrow> go_error option \<times> FileSpec" where
  "TorrentSpecFromMetaInfoErr sha1 sha256 mi =
     (case UnmarshalInfo mi of
        (err, info) \<Rightarrow>
          (map_option (\<lambda>e. Errorf ''unmarshalling info: '' e []) err,
           \<lparr>ts_InfoHash = (if HasV1 info then HashInfoBytes sha1 mi else zero_hash),
            ts_InfoHashV2 = (if HasV2 info then Some (sha256 (InfoBytes mi)) else None),
            ts_Trackers = UpvertedAnnounceList mi, ts_DisplayName = BestName info, ts_Webseeds = UrlList mi,
            ts_PeerAddrs = [], ts_Sources = [], ts_InfoBytes = InfoBytes mi, ts_DhtNodes = Nodes mi,
            ts_PieceLayers = PieceLayers mi\<rparr>))"

end
