(* ===== verification/MetainfoFacts.thy ===== *)
theory MetainfoFacts
  imports MetainfoFile
begin

text \<open>
  What loading a torrent file guarantees: the info dictionary is kept byte for byte as it stands in
  the file, and a version 2 file tree is read to its end whatever its depth. Also: the layout of the
  files of such a tree.
\<close>

section \<open>Raw fields are bytes of the input\<close>

lemma parseValue_raw:
  assumes "parseValue n rawType d = (Ret (ok, err, v), d')"
  shows "err = None" "ok \<Longrightarrow> \<exists>s. v = GString s \<and> d_in d = s @ d_in d'"
proof -
  obtain m where n: "n = Suc m" using assms by (cases n) auto
  from assms obtain r d1 where u: "parseUnmarshaler ''bencode.Bytes'' (\<lambda>b. Inr (GString b)) d = (Ret r, d1)"
    and k: "(case r of Some v \<Rightarrow> (Ret (True, None, v), d1)
        | None \<Rightarrow> (Ret (False, None, GString []), d1\<lparr>d_in := tl (d_in d1), d_Offset := d_Offset d1 + 1\<rparr>)) =
      (Ret (ok, err, v), d')"
    unfolding rawType_def n by (auto elim!: and_then_RetE)
  show "err = None" using k by (auto split: option.splits)
  assume ok
  with k obtain "r = Some v" "d1 = d'" by (auto split: option.splits)
  with parseUnmarshaler_eats [OF u] show "\<exists>s. v = GString s \<and> d_in d = s @ d_in d'" by auto
qed

lemma map_of_set_key: "map_of (set_key k v kvs) j = (if j = k then Some v else map_of kvs j)"
  by (induction kvs) auto

lemma set_set_key: "set (set_key k v kvs) \<subseteq> insert (k, v) (set kvs)"
  by (induction kvs) (auto split: if_splits)

lemma get_field_set_item:
  "get_field j (set_item k v x) = (if j = k then v else get_field j x) \<or> get_field j (set_item k v x) = GIface None"
  by (cases x) (auto simp: get_field_def set_item_def map_of_set_key)

lemma getDictField_defined [simp]: "getDictField (TStruct tn fs) k \<noteq> None" "getDictField (TMap t) k \<noteq> None"
  by (auto simp: getDictField_def split: option.splits)

lemma string_of_simps [simp]: "string_of (GString s) = s" "string_of (GIface u) = []"
  by (simp_all add: string_of_def)

definition keeps_bytes :: "string \<Rightarrow> string \<Rightarrow> govalue \<Rightarrow> bool" where
  "keeps_bytes k inp v \<longleftrightarrow> sublist (string_of (get_field k v)) inp"

lemma keeps_set_item:
  assumes "keeps_bytes k inp x" "j = k \<Longrightarrow> sublist (string_of v) inp"
  shows "keeps_bytes k inp (set_item j v x)"
  using assms get_field_set_item [of k j v x] by (auto simp: keeps_bytes_def split: if_splits)

lemma dict_keeps_bytes:
  assumes fs: "map_of fs k = Some (rawType, ign)"
  shows "(suffix (d_in d) inp \<longrightarrow> keeps_bytes k inp x \<longrightarrow> parseDict n (TStruct tn fs) x d = (Ret (err, v), d') \<longrightarrow>
       keeps_bytes k inp v) \<and>
     (suffix (d_in d) inp \<longrightarrow> keeps_bytes k inp x \<longrightarrow> parseItem n (TStruct tn fs) x key d = (Ret (err, v), d') \<longrightarrow>
       keeps_bytes k inp v)"
proof (induction n arbitrary: d x key err v d')
  case (Suc n)
  let ?t = "TStruct tn fs"
  note dict = Suc [THEN conjunct1, rule_format] and item = Suc [THEN conjunct2, rule_format]
  show ?case
  proof (intro conjI impI)
    assume s: "suffix (d_in d) inp" and x: "keeps_bytes k inp x" and run: "parseDict (Suc n) ?t x d = (Ret (err, v), d')"
    from run obtain y d1 where d1: "parseValue n TString d = (Ret y, d1)"
      and q: "v = x \<or> parseItem n ?t x (string_of (snd (snd y))) d1 = (Ret (err, v), d')"
      by (auto elim!: and_then_RetE split: option.splits if_splits prod.splits)
    from suffix_order.order_trans [OF parseValue_suffix [OF d1] s] q x item show "keeps_bytes k inp v" by blast
  next
    assume s: "suffix (d_in d) inp" and x: "keeps_bytes k inp x"
      and run: "parseItem (Suc n) ?t x key d = (Ret (err, v), d')"
    show "keeps_bytes k inp v"
    proof (cases "map_of fs key")
      case None
      then obtain z d1 where "parseValueInterface (parse_fuel d) d = (Ret z, d1)" and
        q: "v = x \<or> parseDict n ?t x d1 = (Ret (err, v), d')"
        using run by (auto simp: getDictField_def elim!: and_then_RetE split: option.splits)
      then have "suffix (d_in d1) (d_in d)"
        using consuming_all [of "parse_fuel d"] unfolding consuming_def by (blast dest: consumesD)
      from suffix_order.order_trans [OF this s] q x dict show ?thesis by blast
    next
      case (Some f)
      then obtain ok e w d1 where d1: "parseValue n (fst f) d = (Ret (ok, e, w), d1)" and
        q: "v = x \<or> ok \<and> parseDict n ?t (set_item key w x) d1 = (Ret (err, v), d')"
        using run by (cases f) (auto simp: getDictField_def elim!: and_then_RetE split: option.splits if_splits)
      have "sublist (string_of w) inp" if "key = k" ok
      proof -
        have "parseValue n rawType d = (Ret (ok, e, w), d1)" using d1 Some fs that(1) by auto
        from parseValue_raw(2) [OF this that(2)] obtain b where "w = GString b" "d_in d = b @ d_in d1" by blast
        with s show ?thesis by (auto simp: suffix_def sublist_def)
      qed
      with keeps_set_item [OF x, of key w] dict suffix_order.order_trans [OF parseValue_suffix [OF d1] s] q x
      show ?thesis by blast
    qed
  qed
qed simp

text \<open>What a parse into a struct or a map leaves is its zero value or the result of a dict further on in the
  input: lists of one element are looked through.\<close>

lemma scalars_into_dict:
  assumes t: "(\<exists>tn fs. t = TStruct tn fs) \<or> (\<exists>e. t = TMap e)"
  shows "parseInt t d = (Ret (err, v), d') \<Longrightarrow> v = zero_of t" "parseString t d = (Ret (err, v), d') \<Longrightarrow> v = zero_of t"
  using t by (elim disjE exE; force simp: parseInt_def parseString_def Let_def elim!: and_then_RetE split: option.splits sum.splits)+

lemma parsed_dict:
  assumes t: "(\<exists>tn fs. t = TStruct tn fs) \<or> (\<exists>e. t = TMap e)" and z: "P (zero_of t)"
    and dict: "\<And>n d err v d'. suffix (d_in d) (tl inp) \<Longrightarrow> parseDict n t (zero_of t) d = (Ret (err, v), d') \<Longrightarrow> P v"
  shows "(suffix (d_in d) inp \<longrightarrow> parseValue n t d = (Ret (ok, err, v), d') \<longrightarrow> P v) \<and>
     (suffix (d_in d) inp \<longrightarrow> (\<forall>x\<in>set vs. P x) \<longrightarrow> parseElems n t vs d = (Ret (err, us), d') \<longrightarrow> (\<forall>x\<in>set us. P x))"
proof (induction n arbitrary: d ok err v d' vs us rule: less_induct)
  case (less n)
  have plain: "plain_type t" and slice: "\<And>e. t \<noteq> TSlice e" using t by auto
  show ?case
  proof (intro conjI impI)
    assume s: "suffix (d_in d) inp" and run: "parseValue n t d = (Ret (ok, err, v), d')"
    then obtain m where n: "n = Suc m" by (cases n) auto
    show "P v"
    proof (cases "d_in d")
      case Nil
      with run z show ?thesis by (auto simp: n parseValue_plain [OF plain])
    next
      case (Cons b bs)
      let ?d = "d\<lparr>d_in := bs, d_Offset := d_Offset d + 1\<rparr>"
      have s': "suffix bs (tl inp)" using s Cons by (cases inp) (auto simp: suffix_Cons dest: suffix_ConsD)
      have s1: "suffix bs inp" using s Cons suffix_ConsD by metis
      have "v = zero_of t \<or> (\<exists>err. parseDict m t (zero_of t) ?d = (Ret (err, v), d')) \<or>
          (\<exists>err. parseList m t ?d = (Ret (err, v), d'))"
        using run scalars_into_dict [OF t] unfolding n parseValue_plain [OF plain] Cons
        by (auto simp: Let_def found_Ret split: if_splits)
      then show ?thesis
      proof (elim disjE exE)
        fix e
        assume "parseList m t ?d = (Ret (e, v), d')"
        moreover then obtain l where m: "m = Suc l" by (cases m) auto
        ultimately obtain r where el: "parseElems l t [] ?d = (Ret r, d')" "single_elem t r = (e, v)"
          unfolding m parseList_single [OF slice] by (auto elim!: and_then_RetE)
        have "\<forall>x\<in>set (snd r). P x"
          using less [of l ?d _ "fst r" _ _ "[]" "snd r", THEN conjunct2] el(1) s1 unfolding n m by auto
        with el(2) z show ?thesis
          by (auto simp: single_elem_def split: prod.splits option.splits list.splits)
      qed (use z s' dict [of ?d m] in auto)
    qed
  next
    assume s: "suffix (d_in d) inp" and vs: "\<forall>x\<in>set vs. P x" and run: "parseElems n t vs d = (Ret (err, us), d')"
    then obtain m where n: "n = Suc m" by (cases n) auto
    from run obtain ok e w d1 where d1: "parseValue m t d = (Ret (ok, e, w), d1)"
      and q: "us = vs @ [w] \<or> us = vs \<or> parseElems m t (vs @ [w]) d1 = (Ret (err, us), d')"
      unfolding n by (auto elim!: and_then_RetE split: option.splits if_splits prod.splits)
    have "P w" using less [of m d, THEN conjunct1] d1 s n by blast
    with q vs less [of m d1 _ _ _ _ "vs @ [w]", THEN conjunct2]
      suffix_order.order_trans [OF parseValue_suffix [OF d1] s] n
    show "\<forall>x\<in>set us. P x" by auto
  qed
qed

lemma Decode_type_Ret:
  "Decode_type t d = ((None, v), d') \<Longrightarrow> parseValue (typed_fuel d) t d = (Ret (True, None, v), d')"
  by (auto simp: Decode_type_def split: prod.splits thrown.splits option.splits bool.splits)

lemma Decode_dict:
  assumes run: "Decode_type t (new_decoder inp) = ((None, v), d')"
    and t: "(\<exists>tn fs. t = TStruct tn fs) \<or> (\<exists>e. t = TMap e)" and z: "P (zero_of t)"
    and dict: "\<And>n d err v d'. suffix (d_in d) (tl inp) \<Longrightarrow> parseDict n t (zero_of t) d = (Ret (err, v), d') \<Longrightarrow> P v"
  shows "P v"
proof -
  have "(suffix (d_in (new_decoder inp)) inp \<longrightarrow>
        parseValue (typed_fuel (new_decoder inp)) t (new_decoder inp) = (Ret (True, None, v), d') \<longrightarrow> P v) \<and>
      (suffix (d_in (new_decoder inp)) inp \<longrightarrow> (\<forall>x\<in>set []. P x) \<longrightarrow>
        parseElems (typed_fuel (new_decoder inp)) t [] (new_decoder inp) = (Ret (None, []), d') \<longrightarrow> (\<forall>x\<in>set []. P x))"
    using t z by (rule parsed_dict) (rule dict)
  then show ?thesis using Decode_type_Ret [OF run] by simp
qed

lemma mi_Load_info:
  assumes "mi_Load inp = Inr mi"
  shows "sublist (InfoBytes mi) inp"
proof -
  from assms obtain v d where d: "Decode_type metaInfoType (new_decoder inp) = ((None, v), d)" and mi: "mi = meta_file v"
    by (auto simp: mi_Load_def split: prod.splits option.splits)
  obtain tn fs where t: "metaInfoType = TStruct tn fs" and fs: "map_of fs ''info'' = Some (rawType, False)"
    by (simp add: metaInfoType_def)
  have z: "keeps_bytes ''info'' (tl inp) (zero_of metaInfoType)"
    by (simp add: metaInfoType_def keeps_bytes_def get_field_def rawType_def)
  have "keeps_bytes ''info'' (tl inp) v"
  proof (rule Decode_dict [where P = "keeps_bytes ''info'' (tl inp)", OF d _ z])
    show "(\<exists>tn fs. metaInfoType = TStruct tn fs) \<or> (\<exists>e. metaInfoType = TMap e)" using t by blast
    fix n e err u e'
    assume "suffix (d_in e) (tl inp)" "parseDict n metaInfoType (zero_of metaInfoType) e = (Ret (err, u), e')"
    then show "keeps_bytes ''info'' (tl inp) u"
      using dict_keeps_bytes [OF fs, THEN conjunct1, rule_format] z unfolding t by blast
  qed
  moreover have "sublist (tl inp) inp" by (metis list.collapse sublist_Cons_right sublist_order.order_refl list.sel(2))
  ultimately show ?thesis unfolding mi by (auto simp: keeps_bytes_def meta_file_def intro: sublist_order.order_trans)
qed

section \<open>File trees are read to their end\<close>

lemma map_keeps_bytes:
  "(suffix (d_in d) inp \<longrightarrow> (\<forall>e\<in>set (entries_of x). sublist (string_of (snd e)) inp) \<longrightarrow>
      parseDict n (TMap rawType) x d = (Ret (err, v), d') \<longrightarrow> (\<forall>e\<in>set (entries_of v). sublist (string_of (snd e)) inp)) \<and>
   (suffix (d_in d) inp \<longrightarrow> (\<forall>e\<in>set (entries_of x). sublist (string_of (snd e)) inp) \<longrightarrow>
      parseItem n (TMap rawType) x key d = (Ret (err, v), d') \<longrightarrow> (\<forall>e\<in>set (entries_of v). sublist (string_of (snd e)) inp))"
proof (induction n arbitrary: d x key err v d')
  case (Suc n)
  let ?t = "TMap rawType"
  note dict = Suc [THEN conjunct1, rule_format] and item = Suc [THEN conjunct2, rule_format]
  show ?case
  proof (intro conjI impI)
    assume s: "suffix (d_in d) inp" and x: "\<forall>e\<in>set (entries_of x). sublist (string_of (snd e)) inp"
      and run: "parseDict (Suc n) ?t x d = (Ret (err, v), d')"
    from run obtain y d1 where d1: "parseValue n TString d = (Ret y, d1)"
      and q: "v = x \<or> parseItem n ?t x (string_of (snd (snd y))) d1 = (Ret (err, v), d')"
      by (auto elim!: and_then_RetE split: option.splits if_splits prod.splits)
    from suffix_order.order_trans [OF parseValue_suffix [OF d1] s] q x item
    show "\<forall>e\<in>set (entries_of v). sublist (string_of (snd e)) inp" by blast
  next
    assume s: "suffix (d_in d) inp" and x: "\<forall>e\<in>set (entries_of x). sublist (string_of (snd e)) inp"
      and run: "parseItem (Suc n) ?t x key d = (Ret (err, v), d')"
    from run obtain ok e w d1 where d1: "parseValue n rawType d = (Ret (ok, e, w), d1)" and
      q: "v = x \<or> ok \<and> parseDict n ?t (set_item key w x) d1 = (Ret (err, v), d')"
      by (auto simp: getDictField_def elim!: and_then_RetE split: option.splits if_splits)
    have "sublist (string_of w) inp" if ok
      using parseValue_raw(2) [OF d1 that] s by (auto simp: suffix_def sublist_def) blast
    moreover have "set (entries_of (set_item key w x)) \<subseteq> insert (key, w) (set (entries_of x))"
      by (auto simp: entries_of_def set_item_def dest: subsetD [OF set_set_key] split: govalue.splits option.splits)
    ultimately have "ok \<Longrightarrow> \<forall>e\<in>set (entries_of (set_item key w x)). sublist (string_of (snd e)) inp" using x by auto
    with dict suffix_order.order_trans [OF parseValue_suffix [OF d1] s] q x
    show "\<forall>e\<in>set (entries_of v). sublist (string_of (snd e)) inp" by blast
  qed
qed simp

lemma raw_entries_short:
  assumes "Unmarshal_type (TMap rawType) b = (None, v)" "e \<in> set (entries_of v)"
  shows "length (string_of (snd e)) < length b"
proof -
  let ?P = "\<lambda>v. \<forall>e\<in>set (entries_of v). sublist (string_of (snd e)) (tl b)"
  from assms(1) obtain d where d: "Decode_type (TMap rawType) (new_decoder b) = ((None, v), d)"
    by (auto simp: Unmarshal_type_def split: prod.splits option.splits if_splits)
  have z: "?P (zero_of (TMap rawType))" by (simp add: entries_of_def)
  have "?P v"
  proof (rule Decode_dict [where P = ?P, OF d _ z])
    fix n e err u e'
    assume "suffix (d_in e) (tl b)" "parseDict n (TMap rawType) (zero_of (TMap rawType)) e = (Ret (err, u), e')"
    then show "?P u" using map_keeps_bytes [THEN conjunct1, rule_format] z by blast
  qed blast
  with assms(2) have "length (string_of (snd e)) \<le> length (tl b)" using sublist_length_le by blast
  moreover have "b \<noteq> []"
    using parseValue_eats [OF Decode_type_Ret [OF d]] by auto
  ultimately show ?thesis by (cases b) auto
qed

lemma all_ok_cong: "(\<And>x. x \<in> set xs \<Longrightarrow> f x = g x) \<Longrightarrow> all_ok (map f xs) = all_ok (map g xs)"
  by (metis map_cong)

lemma tree_fuel: "length b < m \<Longrightarrow> length b < n \<Longrightarrow> tree_unmarshal m b = tree_unmarshal n b"
proof (induction b arbitrary: m n rule: length_induct)
  case (1 b)
  obtain m' n' where mn: "m = Suc m'" "n = Suc n'" using 1(2,3) by (cases m; cases n) auto
  have "all_ok (map (\<lambda>(key, sub). map_sum id (Pair key) (tree_unmarshal m' (string_of sub)))
          (sort_key fst (filter (\<lambda>e. fst e \<noteq> []) (entries_of v)))) =
        all_ok (map (\<lambda>(key, sub). map_sum id (Pair key) (tree_unmarshal n' (string_of sub)))
          (sort_key fst (filter (\<lambda>e. fst e \<noteq> []) (entries_of v))))"
    if "Unmarshal_type (TMap rawType) b = (None, v)" for v
  proof (rule all_ok_cong, clarsimp)
    fix key sub
    assume "(key, sub) \<in> set (entries_of v)"
    from raw_entries_short [OF that this] have "length (string_of sub) < length b" by simp
    moreover from this have "length (string_of sub) < m'" "length (string_of sub) < n'" using 1(2,3) mn by simp_all
    ultimately have "tree_unmarshal m' (string_of sub) = tree_unmarshal n' (string_of sub)" using 1(1) by blast
    then show "map_sum id (Pair key) (tree_unmarshal m' (string_of sub)) = map_sum id (Pair key) (tree_unmarshal n' (string_of sub))"
      by simp
  qed
  then show ?case unfolding mn by (auto split: prod.splits option.splits sum.splits)
qed

text \<open>C24: Decoding always ends, whatever the bytes: the fuel of the untyped parser, of the verbatim copy and of the
  parser into a type is enough for every input, and any additional fuel gives a file tree the same
  result.\<close>

theorem torrent_readers_end:
  "fst (parseValueInterface (parse_fuel d) d) \<noteq> NoFuel \<and> fst (readOneValue (parse_fuel d) d) \<noteq> NoFuel \<and>
   fst (parseValue (typed_fuel d) t d) \<noteq> NoFuel \<and>
   tree_unmarshal (length b + 1 + n) b = tree_unmarshal (length b + 1) b"
proof (intro conjI)
  show "fst (parseValueInterface (parse_fuel d) d) \<noteq> NoFuel" by (rule parse_fuel_enough)
  show "fst (readOneValue (parse_fuel d) d) \<noteq> NoFuel"
    using copy_total_all [of "parse_fuel d"] unfolding copy_total_def parse_fuel_def by (metis order_refl prod.collapse)
  show "fst (parseValue (typed_fuel d) t d) \<noteq> NoFuel" using parseValue_ends [of d t] by (metis prod.collapse)
  show "tree_unmarshal (length b + 1 + n) b = tree_unmarshal (length b + 1) b" by (rule tree_fuel) simp_all
qed

section \<open>The layout of version 2 files\<close>

text \<open>A tree as the format wants it: a directory has no data of its own, and lengths are not negative.\<close>

fun proper_tree :: "ftree \<Rightarrow> bool" where
  "proper_tree (FT len root dir) \<longleftrightarrow>
     0 \<le> len \<and> (dir \<noteq> [] \<longrightarrow> len = 0) \<and> list_all (\<lambda>(k, sub). k \<noteq> FileTreePropertiesKey \<and> proper_tree sub) dir"

text \<open>The pieces a file takes, and the length of the torrent with every file rounded up to whole pieces.\<close>

definition file_pieces :: "int \<Rightarrow> int \<Rightarrow> int" where
  "file_pieces pl len = (len + pl - 1) div pl"

abbreviation tree_pieces :: "int \<Rightarrow> int list \<Rightarrow> int" where
  "tree_pieces pl ls \<equiv> sum_list (map (file_pieces pl) ls)"

definition rounded_length :: "int \<Rightarrow> ftree \<Rightarrow> int" where
  "rounded_length pl t = tree_pieces pl (walk_lengths t) * pl"

lemma file_pieces_nonneg: "0 < pl \<Longrightarrow> 0 \<le> len \<Longrightarrow> 0 \<le> file_pieces pl len"
  by (simp add: file_pieces_def pos_imp_zdiv_nonneg_iff)

lemma file_pieces_cover: "0 < pl \<Longrightarrow> len \<le> file_pieces pl len * pl"
  using div_bounds(2) [of pl "len + pl - 1"] by (simp add: file_pieces_def distrib_right)

lemma file_pieces_div64:
  "0 < pl \<Longrightarrow> 0 \<le> len \<Longrightarrow> file_pieces pl len * pl + pl \<le> 2 ^ 63 \<Longrightarrow> div64 (i64 (len + pl - 1)) pl = file_pieces pl len"
  using file_pieces_cover [of pl len] round_up [of len pl] by (simp add: file_pieces_def)

lemma tree_pieces_nonneg: "0 < pl \<Longrightarrow> \<forall>l \<in> set ls. 0 \<le> l \<Longrightarrow> 0 \<le> tree_pieces pl ls"
  by (auto intro!: sum_list_nonneg file_pieces_nonneg)

lemma walk_nonneg: "proper_tree t \<Longrightarrow> \<forall>l \<in> set (walk_lengths t). 0 \<le> l"
  by (induction t rule: walk_lengths.induct) (fastforce simp: list_all_iff split: if_splits)

text \<open>Room for a part of the pieces is room for fewer of them.\<close>

lemma room_less: "m \<le> n \<Longrightarrow> 0 < pl \<Longrightarrow> n * pl + pl \<le> 2 ^ 63 \<Longrightarrow> m * pl + pl \<le> 2 ^ 63" for m n pl :: int
  using mult_right_mono [of m n pl] by linarith

fun laid_out :: "int \<Rightarrow> int \<Rightarrow> FileInfo list \<Rightarrow> bool" where
  "laid_out pl n [] = True"
| "laid_out pl n (f # fs) =
     (fi_TorrentOffset f = n * pl \<and> 0 \<le> fi_Length f \<and> laid_out pl (n + file_pieces pl (fi_Length f)) fs)"

abbreviation all_pieces :: "int \<Rightarrow> FileInfo list \<Rightarrow> int" where
  "all_pieces pl fs \<equiv> sum_list (map (\<lambda>f. file_pieces pl (fi_Length f)) fs)"

lemma laid_out_append: "laid_out pl n (fs @ gs) \<longleftrightarrow> laid_out pl n fs \<and> laid_out pl (n + all_pieces pl fs) gs"
  by (induction fs arbitrary: n) (auto simp: add.assoc)

lemma proper_dir: "proper_tree (FT len root dir) \<Longrightarrow> tree_IsDir (FT len root dir) \<longleftrightarrow> dir \<noteq> []"
  by (force simp: tree_IsDir_def NumEntries_def list_all_iff Let_def)

lemma upverted_layout:
  "0 < pl \<Longrightarrow> proper_tree t \<Longrightarrow> upvertedFilesInner pl path t start = Some (fs, off) \<Longrightarrow> start = n * pl \<Longrightarrow> 0 \<le> n \<Longrightarrow>
      (n + tree_pieces pl (walk_lengths t)) * pl + pl \<le> 2 ^ 63 \<Longrightarrow>
      laid_out pl n fs \<and> off = (n + all_pieces pl fs) * pl \<and> all_pieces pl fs = tree_pieces pl (walk_lengths t)"
  "0 < pl \<Longrightarrow> list_all (\<lambda>(k, sub). k \<noteq> FileTreePropertiesKey \<and> proper_tree sub) dir \<Longrightarrow>
      upverted_dir pl path dir start = Some (fs, off) \<Longrightarrow> start = n * pl \<Longrightarrow> 0 \<le> n \<Longrightarrow>
      (n + tree_pieces pl (concat (map (\<lambda>(key, sub). walk_lengths sub) dir))) * pl + pl \<le> 2 ^ 63 \<Longrightarrow>
      laid_out pl n fs \<and> off = (n + all_pieces pl fs) * pl \<and>
      all_pieces pl fs = tree_pieces pl (concat (map (\<lambda>(key, sub). walk_lengths sub) dir))"
proof (induction pl path t start and pl path dir start arbitrary: n fs off and n fs off
    rule: upvertedFilesInner_upverted_dir.induct)
  case (1 pl path len root dir start)
  have d: "map (\<lambda>(key, sub). if key = FileTreePropertiesKey then [] else walk_lengths sub) dir =
      map (\<lambda>(key, sub). walk_lengths sub) dir"
    using 1(3) by (auto simp: list_all_iff)
  show ?case
  proof (cases "dir = []")
    case True
    have len: "0 \<le> len" using 1(3) by simp
    have room: "(n + file_pieces pl len) * pl + pl \<le> 2 ^ 63" using 1(7) True by simp
    have "div64 (i64 (len + pl - 1)) pl = file_pieces pl len"
      using file_pieces_div64 [OF 1(2) len] room_less [OF _ 1(2) room, of "file_pieces pl len"] 1(6) by simp
    moreover have "0 \<le> (n + file_pieces pl len) * pl" using file_pieces_nonneg [OF 1(2) len] 1(2,6) by simp
    then have "i64 ((n + file_pieces pl len) * pl) = (n + file_pieces pl len) * pl"
      using room 1(2) by (intro i64_nonneg) linarith+
    ultimately show ?thesis using True len 1(4,5) proper_dir [OF 1(3)]
      by (auto simp: distrib_right split: option.splits if_splits)
  next
    case False
    then have len: "len = 0" and sub: "list_all (\<lambda>(k, sub). k \<noteq> FileTreePropertiesKey \<and> proper_tree sub) dir"
      and isdir: "tree_IsDir (FT len root dir)" using 1(3) proper_dir [OF 1(3)] by auto
    have z: "file_pieces pl len = 0" using 1(2) len by (simp add: file_pieces_def)
    then show ?thesis
      using 1(1) [OF isdir 1(2) sub _ 1(5,6)] 1(4,7) isdir by (simp add: d)
  qed
next
  case (2 pl path start)
  then show ?case by simp
next
  case (3 pl path key sub dir start)
  let ?m = "tree_pieces pl (walk_lengths sub)" and ?r = "tree_pieces pl (concat (map (\<lambda>(key, sub). walk_lengths sub) dir))"
  from 3(5) have k: "key \<noteq> FileTreePropertiesKey" "proper_tree sub"
    and rest: "list_all (\<lambda>(k, sub). k \<noteq> FileTreePropertiesKey \<and> proper_tree sub) dir" by auto
  have "0 \<le> ?r" using rest walk_nonneg by (intro tree_pieces_nonneg [OF 3(4)]) (fastforce simp: list_all_iff)
  moreover have room: "(n + (?m + ?r)) * pl + pl \<le> 2 ^ 63" using 3(9) by simp
  ultimately have r1: "(n + ?m) * pl + pl \<le> 2 ^ 63" using room_less [OF _ 3(4) room, of "n + ?m"] by simp
  from 3(6) k obtain gs mid hs where g: "upvertedFilesInner pl (path @ [key]) sub start = Some (gs, mid)"
    and h: "upverted_dir pl path dir mid = Some (hs, off)" and fs: "fs = gs @ hs"
    by (auto split: option.splits)
  note a = 3(2) [OF k(1) 3(4) k(2) g 3(7,8) r1]
  have "0 \<le> ?m" using tree_pieces_nonneg [OF 3(4) walk_nonneg [OF k(2)]] .
  then have n': "0 \<le> n + all_pieces pl gs" "mid = (n + all_pieces pl gs) * pl"
    "(n + all_pieces pl gs + ?r) * pl + pl \<le> 2 ^ 63" using a 3(8) room by (auto simp: add.assoc)
  note b = 3(3) [OF k(1) g refl 3(4) rest h n'(2,1,3)]
  from a b show ?case by (simp add: fs laid_out_append add.assoc)
qed

lemma laid_out_nth:
  "laid_out pl n fs \<Longrightarrow> i < length fs \<Longrightarrow> fi_TorrentOffset (fs ! i) = (n + all_pieces pl (take i fs)) * pl \<and> 0 \<le> fi_Length (fs ! i)"
proof (induction fs arbitrary: n i)
  case (Cons f fs)
  then show ?case by (cases i) (auto simp: add.assoc)
qed simp

lemma all_pieces_nonneg: "0 < pl \<Longrightarrow> laid_out pl n fs \<Longrightarrow> 0 \<le> all_pieces pl (take i fs)"
proof (induction fs arbitrary: n i)
  case (Cons f fs)
  then show ?case by (cases i) (auto simp: file_pieces_nonneg intro!: add_nonneg_nonneg)
qed simp

lemma all_pieces_mono:
  assumes "0 < pl" "laid_out pl n fs" "i < length fs"
  shows "all_pieces pl (take i fs) + file_pieces pl (fi_Length (fs ! i)) \<le> all_pieces pl fs"
proof -
  have "0 \<le> fi_Length f" if "f \<in> set fs" for f
    using laid_out_nth [OF assms(2)] that by (metis in_set_conv_nth)
  then have "0 \<le> all_pieces pl (drop (Suc i) fs)"
    by (auto intro!: sum_list_nonneg file_pieces_nonneg [OF assms(1)] simp: in_set_dropD)
  moreover have "fs = take i fs @ fs ! i # drop (Suc i) fs" using assms(3) by (simp add: Cons_nth_drop_Suc)
  then have "all_pieces pl fs = all_pieces pl (take i fs @ fs ! i # drop (Suc i) fs)" by simp
  ultimately show ?thesis by simp
qed

lemma piece_indices:
  assumes pl: "0 < pl" and n: "0 \<le> n" and f: "fi_TorrentOffset f = n * pl" "0 \<le> fi_Length f"
    and room: "(n + file_pieces pl (fi_Length f)) * pl + pl \<le> 2 ^ 63"
  shows "BeginPieceIndex pl f = n" "EndPieceIndex pl f = n + file_pieces pl (fi_Length f)"
proof -
  have nn: "0 \<le> n * pl" using pl n by simp
  have le: "n * pl + fi_Length f + pl \<le> 2 ^ 63"
    using room file_pieces_cover [OF pl, of "fi_Length f"] by (simp add: distrib_right)
  then have "n * pl < 2 ^ 63" using f(2) pl by linarith
  then show "BeginPieceIndex pl f = n" using pl nn by (simp add: BeginPieceIndex_def f div64_nonneg)
  define m where "m = fi_Length f + pl - 1"
  have "(m + n * pl) div pl = n + m div pl" using pl by simp
  then have "(n * pl + fi_Length f + pl - 1) div pl = n + (fi_Length f + pl - 1) div pl"
    by (simp add: m_def algebra_simps)
  moreover have "0 \<le> n * pl + fi_Length f" using nn f(2) by simp
  ultimately show "EndPieceIndex pl f = n + file_pieces pl (fi_Length f)"
    using pl round_up [of "n * pl + fi_Length f" pl] le by (simp add: EndPieceIndex_def file_pieces_def f(1))
qed

lemma NumPieces_v2:
  assumes "0 < PieceLength info" "HasV2 info" "info_FileTree info = file_tree t" "proper_tree t"
    "rounded_length (PieceLength info) t + PieceLength info \<le> 2 ^ 63"
  shows "NumPieces info = tree_pieces (PieceLength info) (walk_lengths t)"
proof -
  let ?p = "PieceLength info" and ?n = "tree_pieces (PieceLength info) (walk_lengths t)"
  note pos = walk_nonneg [OF assms(4)]
  have n: "0 \<le> ?n" using tree_pieces_nonneg [OF assms(1) pos] .
  have "file_pieces ?p l \<le> ?n" if "l \<in> set (walk_lengths t)" for l
    using that pos file_pieces_nonneg [OF assms(1)] by (intro member_le_sum_list) auto
  then have "file_pieces ?p l * ?p + ?p \<le> 2 ^ 63" if "l \<in> set (walk_lengths t)" for l
    using that room_less [OF _ assms(1), of "file_pieces ?p l" ?n] assms(5) unfolding rounded_length_def by blast
  then have "map (\<lambda>l. div64 (i64 (l + ?p - 1)) ?p) (walk_lengths t) = map (file_pieces ?p) (walk_lengths t)"
    using pos file_pieces_div64 [OF assms(1)] by (intro map_cong) auto
  moreover have "?n * 1 \<le> ?n * ?p" using n assms(1) by (intro mult_left_mono) auto
  then have "i64 ?n = ?n" using n assms(1,5) by (intro i64_nonneg) (auto simp: rounded_length_def)
  ultimately show ?thesis using assms(2,3) by (simp add: NumPieces_def file_tree_def del: map_eq_conv)
qed

text \<open>C27: the files of a version 2 torrent never share a piece. For every tree in which directories have no
  data of their own and every positive piece length, where the torrent with each file rounded up to
  whole pieces leaves room for one more piece below \<open>2 ^ 63\<close>: the pieces of each file begin where those
  of the file before it end, each file starts on a piece boundary, and the last file's pieces end at
  the number of pieces of the torrent.\<close>

theorem v2_layout:
  assumes "0 < PieceLength info" "HasV2 info" "info_FileTree info = file_tree t" "proper_tree t"
    "rounded_length (PieceLength info) t + PieceLength info \<le> 2 ^ 63"
    "upvertedFiles (PieceLength info) t = Some fs"
  shows "(\<forall>i<length fs.
      PieceLength info dvd fi_TorrentOffset (fs ! i) \<and>
      BeginPieceIndex (PieceLength info) (fs ! i) =
        (if i = 0 then 0 else EndPieceIndex (PieceLength info) (fs ! (i - 1)))) \<and>
    NumPieces info = (if fs = [] then 0 else EndPieceIndex (PieceLength info) (last fs))"
proof -
  let ?p = "PieceLength info"
  from assms(6) obtain off where run: "upvertedFilesInner ?p [] t 0 = Some (fs, off)" by (auto simp: upvertedFiles_def)
  have room: "(0 + tree_pieces ?p (walk_lengths t)) * ?p + ?p \<le> 2 ^ 63" using assms(5) by (simp add: rounded_length_def)
  from upverted_layout(1) [OF assms(1,4) run _ _ room]
  have laid: "laid_out ?p 0 fs" and total: "all_pieces ?p fs = tree_pieces ?p (walk_lengths t)" by simp_all
  have at: "?p dvd fi_TorrentOffset (fs ! i)" "BeginPieceIndex ?p (fs ! i) = all_pieces ?p (take i fs)"
      "EndPieceIndex ?p (fs ! i) = all_pieces ?p (take (Suc i) fs)" if "i < length fs" for i
    using laid_out_nth [OF laid that] all_pieces_mono [OF assms(1) laid that] room total
      piece_indices [OF assms(1) all_pieces_nonneg [OF assms(1) laid, of i], of "fs ! i"]
      room_less [OF _ assms(1), of "all_pieces ?p (take i fs) + file_pieces ?p (fi_Length (fs ! i))" "all_pieces ?p fs"]
    by (simp_all add: take_Suc_conv_app_nth [OF that])
  have "NumPieces info = all_pieces ?p fs" using NumPieces_v2 [OF assms(1-5)] total by simp
  then have "NumPieces info = (if fs = [] then 0 else EndPieceIndex ?p (last fs))"
    using at(3) [of "length fs - 1"] by (simp add: last_conv_nth)
  moreover have "BeginPieceIndex ?p (fs ! i) = (if i = 0 then 0 else EndPieceIndex ?p (fs ! (i - 1)))" if "i < length fs" for i
    using at(2) [OF that] at(3) [of "i - 1"] that by simp
  ultimately show ?thesis using at(1) by blast
qed

text \<open>A witness: two files of 5 and 4 bytes in pieces of 4, the first in a directory.\<close>

definition sample_tree :: ftree where
  "sample_tree = FT 0 [] [(''a'', FT 0 [] [(''b'', FT 5 [] [])]), (''c'', FT 4 [] [])]"

definition sample_v2 :: Info where
  "sample_v2 = \<lparr>PieceLength = 4, Pieces = [], info_Name = ''t'', NameUtf8 = [], info_Length = 0, Files = None,
     MetaVersion = 2, info_FileTree = file_tree sample_tree\<rparr>"

lemma sample_v2_facts:
  "0 < PieceLength sample_v2" "HasV2 sample_v2" "info_FileTree sample_v2 = file_tree sample_tree" "proper_tree sample_tree"
  "rounded_length (PieceLength sample_v2) sample_tree + PieceLength sample_v2 \<le> 2 ^ 63"
  "upvertedFiles (PieceLength sample_v2) sample_tree = Some
     [\<lparr>fi_Length = 5, fi_Path = [''a'', ''b''], fi_PathUtf8 = [''a'', ''b''], fi_PiecesRoot = None, fi_TorrentOffset = 0\<rparr>,
      \<lparr>fi_Length = 4, fi_Path = [''c''], fi_PathUtf8 = [''c''], fi_PiecesRoot = None, fi_TorrentOffset = 8\<rparr>]"
  by (simp_all add: sample_v2_def sample_tree_def HasV2_def FileTreePropertiesKey_def upvertedFiles_def tree_IsDir_def
      NumEntries_def PiecesRootAsByteArray_def div64_nonneg i64_nonneg rounded_length_def file_pieces_def)

theorem v2_layout_witness:
  "BeginPieceIndex 4 \<lparr>fi_Length = 4, fi_Path = [''c''], fi_PathUtf8 = [''c''], fi_PiecesRoot = None, fi_TorrentOffset = 8\<rparr> =
     EndPieceIndex 4 \<lparr>fi_Length = 5, fi_Path = [''a'', ''b''], fi_PathUtf8 = [''a'', ''b''], fi_PiecesRoot = None, fi_TorrentOffset = 0\<rparr> \<and>
   NumPieces sample_v2 = EndPieceIndex 4 \<lparr>fi_Length = 4, fi_Path = [''c''], fi_PathUtf8 = [''c''], fi_PiecesRoot = None, fi_TorrentOffset = 8\<rparr>"
  using v2_layout [OF sample_v2_facts] by (auto simp: sample_v2_def dest: spec [of _ 1])

end
