(* ===== verification/LoadFacts.thy ===== *)
theory LoadFacts
  imports MetainfoFacts
begin

text \<open>
  Torrent files as the encoder writes them are loaded: \<open>readOneValue\<close> copies the encoding of every
  value, and a dictionary whose text fields hold strings gives these fields and the bytes of its info.
\<close>

section \<open>Copying an encoded value\<close>

definition copyable :: "bvalue \<Rightarrow> bool" where
  "copyable v \<longleftrightarrow> (\<forall>n d d'. copies d (reflectValue v) d' \<longrightarrow> 2 * length (reflectValue v) \<le> n \<longrightarrow>
     readOneValue n d = (Ret True, d'))"

lemma copies_split:
  assumes "copies d (s @ t) d'"
  obtains d1 where "copies d s d1" "copies d1 t d'"
proof -
  let ?d = "d\<lparr>d_in := t @ d_in d', d_Offset := d_Offset d + length s, d_buf := d_buf d @ s\<rparr>"
  have "copies d s ?d" "copies ?d t d'"
    using assms by (cases d; cases d'; auto simp: copies_def)+
  then show thesis by (rule that)
qed

lemma copyable_int: "copyable (BInt i)" "copyable (BBig i)"
proof -
  have e: "CHR ''e'' \<notin> set (int_dec i)" using int_dec_chars by (fastforce simp: is_digit_def)
  have "readOneValue n d = (Ret True, d')" if c: "copies d (CHR ''i'' # int_dec i @ ''e'') d'" and n: "0 < n" for n d d'
  proof -
    obtain m where m: "n = Suc m" using n by (cases n) auto
    let ?d = "d\<lparr>d_in := int_dec i @ CHR ''e'' # d_in d', d_Offset := d_Offset d + 1, d_buf := d_buf d @ ''i''\<rparr>"
    have "readUntil (CHR ''e'') ?d = (Ret (), ?d\<lparr>d_in := d_in d', d_Offset := d_Offset ?d + length (int_dec i) + 1,
        d_buf := d_buf ?d @ int_dec i\<rparr>)"
      unfolding readUntil_Ret using e by auto
    then show ?thesis using c unfolding m by (cases d; cases d') (auto simp: copies_def Let_def)
  qed
  then show "copyable (BInt i)" "copyable (BBig i)" by (simp_all add: copyable_def)
qed

lemma copyable_string:
  assumes "length s < 2 ^ 63"
  shows "copyable (BStr s)"
  unfolding copyable_def
proof (intro allI impI)
  fix n d d'
  assume c: "copies d (reflectValue (BStr s)) d'" and n: "2 * length (reflectValue (BStr s)) \<le> n"
  obtain b t where bt: "nat_dec (length s) = b # t" using nat_dec_digits [of "length s"] by (cases "nat_dec (length s)") auto
  have b: "is_digit b" using nat_dec_digits [of "length s"] bt by simp
  have t: "CHR '':'' \<notin> set t" using nat_dec_no_colon [of "length s"] bt by simp
  have "0 < n" using n length_reflectValue [of "BStr s"] by linarith
  then obtain m where m: "n = Suc m" by (cases n) auto
  let ?r = "s @ d_in d'"
  let ?d = "d\<lparr>d_in := t @ CHR '':'' # ?r, d_Offset := d_Offset d + 1, d_buf := d_buf d @ [b]\<rparr>"
  let ?d1 = "?d\<lparr>d_in := ?r, d_Offset := d_Offset ?d + length t + 1, d_buf := d_buf ?d @ t\<rparr>"
  have inn: "d_in d = b # t @ CHR '':'' # ?r" using c bt by (simp add: copies_def reflectString_def writeStringPrefix_def)
  have u: "readUntil (CHR '':'') ?d = (Ret (), ?d1)" unfolding readUntil_Ret using t by auto
  have "ParseInt (drop (length (d_buf d)) (d_buf ?d1)) = PInt (int (length s))"
    using ParseInt_int_dec [of "int (length s)"] bt assms by (simp add: int_dec_def fits64_def)
  then have "copy_string ?d (length (d_buf d)) = (Ret True, d')"
    unfolding copy_string_def u using c bt
    by (cases d; cases d') (auto simp: copies_def Let_def reflectString_def writeStringPrefix_def)
  moreover have "b \<noteq> CHR ''e''" "b \<noteq> CHR ''d''" "b \<noteq> CHR ''l''" "b \<noteq> CHR ''i''" using b by (auto simp: is_digit_def)
  ultimately show "readOneValue n d = (Ret True, d')" using inn b unfolding m by (simp add: Let_def)
qed

lemma copyable_items:
  assumes "\<forall>v \<in> set vs. copyable v" "copies d (concat (map reflectValue vs)) d'" "d_in d' = CHR ''e'' # r"
    "2 * length (concat (map reflectValue vs)) + 2 \<le> n"
  shows "readItems n d = (Ret (), d')"
  using assms
proof (induction vs arbitrary: d n)
  case Nil
  then have "2 \<le> n" by simp
  then obtain m where "n = Suc (Suc m)" by (metis add_2_eq_Suc le_Suc_ex)
  moreover have "d = d'" using Nil(2) by (cases d; cases d') (simp add: copies_def)
  ultimately show ?case using Nil(3) by simp
next
  case (Cons v vs)
  from Cons.prems(2) obtain d1 where d1: "copies d (reflectValue v) d1" "copies d1 (concat (map reflectValue vs)) d'"
    using copies_split [of d "reflectValue v"] by auto
  obtain m where m: "n = Suc m" using Cons.prems(4) by (cases n) auto
  have "readOneValue m d = (Ret True, d1)"
    using Cons.prems d1(1) m length_reflectValue [of v] unfolding copyable_def by auto
  moreover have "readItems m d1 = (Ret (), d')"
    using Cons.prems d1 m length_reflectValue [of v] by (intro Cons.IH) auto
  ultimately show ?case by (simp add: m del: readOneValue.simps)
qed

lemma copyable_seq:
  assumes "\<forall>v \<in> set vs. copyable v" and c: "c = CHR ''d'' \<or> c = CHR ''l''"
    and r: "copies d (c # concat (map reflectValue vs) @ ''e'') d'" and n: "2 * length (c # concat (map reflectValue vs) @ ''e'') \<le> n"
  shows "readOneValue n d = (Ret True, d')"
proof -
  have "copies d ([c] @ concat (map reflectValue vs) @ ''e'') d'" using r by simp
  then obtain d1 where d1: "copies d [c] d1" and "copies d1 (concat (map reflectValue vs) @ ''e'') d'"
    by (rule copies_split)
  from this(2) obtain d2 where d2: "copies d1 (concat (map reflectValue vs)) d2" "copies d2 ''e'' d'"
    by (rule copies_split)
  obtain m where m: "n = Suc m" using n by (cases n) auto
  have "readItems m d1 = (Ret (), d2)"
    using assms(1) d2 n m by (intro copyable_items) (auto simp: copies_def)
  moreover have "d_in d = c # d_in d1" "d1 = d\<lparr>d_in := d_in d1, d_Offset := d_Offset d + 1, d_buf := d_buf d @ [c]\<rparr>"
    using d1 by (simp_all add: copies_def)
  moreover have "readByte d2 = (Ret (CHR ''e''), d2\<lparr>d_in := d_in d', d_Offset := d_Offset d2 + 1\<rparr>)"
    "d' = d2\<lparr>d_in := d_in d', d_Offset := d_Offset d2 + 1, d_buf := d_buf d2 @ ''e''\<rparr>"
    using d2(2) by (simp_all add: copies_def readByte_def)
  ultimately show ?thesis using c m by (auto simp: Let_def)
qed

lemma wf_copyable: "wf_bvalue mx v \<Longrightarrow> mx < 2 ^ 63 \<Longrightarrow> copyable v"
proof (induction v)
  case (BList vs)
  then show ?case using copyable_seq [of vs "CHR ''l''"] by (auto simp: copyable_def [of "BList vs"])
next
  case (BDict kvs)
  let ?vs = "concat (map (\<lambda>kv. [BStr (fst kv), snd kv]) kvs)"
  have "copyable (BStr (fst kv)) \<and> copyable (snd kv)" if "kv \<in> set kvs" for kv
    using BDict that copyable_string [of "fst kv"]
    by (cases kv) (fastforce simp: wf_BDict simp del: wf_bvalue.simps)
  then have "\<forall>v \<in> set ?vs. copyable v" by auto
  moreover have "concat (map reflectValue ?vs) = concat (map item kvs)" by (induction kvs) auto
  ultimately show ?case
    using copyable_seq [of ?vs "CHR ''d''"]
    by (simp add: copyable_def [of "BDict kvs"] reflectValue_BDict del: reflectValue.simps)
qed (auto simp: copyable_int copyable_string)

section \<open>Reading encoded fields\<close>

lemma raw_complete:
  assumes "wf_bvalue mx v" "mx < 2 ^ 63" "d_in d = reflectValue v @ r"
  shows "\<exists>d'. (\<forall>n. parseValue (Suc n) rawType d = (Ret (True, None, GString (reflectValue v)), d')) \<and> d_in d' = r \<and>
    d_MaxStrLen d' = d_MaxStrLen d"
proof -
  let ?d = "reset_buf d"
  let ?d' = "?d\<lparr>d_in := r, d_Offset := d_Offset d + length (reflectValue v), d_buf := reflectValue v\<rparr>"
  have "copies ?d (reflectValue v) ?d'" using assms(3) by (simp add: copies_def reset_buf_def)
  then have "readOneValue (parse_fuel ?d) ?d = (Ret True, ?d')"
    using wf_copyable [OF assms(1,2)] assms(3) unfolding copyable_def by (auto simp: parse_fuel_def reset_buf_def simp del: readOneValue.simps)
  then show ?thesis by (simp add: rawType_def parseUnmarshaler_def reset_buf_def)
qed

lemma string_start:
  assumes s: "length s \<le> limit d" and d: "d_in d = reflectString s @ r"
  shows "\<exists>b bs d1. d_in d = b # bs \<and> is_digit b \<and> d_in d1 = s @ r \<and> d_buf d1 = [] \<and> d_MaxStrLen d1 = d_MaxStrLen d \<and>
    parseStringLength (d\<lparr>d_in := bs, d_Offset := d_Offset d + 1, d_buf := [b]\<rparr>) = (Ret (Inr (length s)), d1)"
proof -
  obtain b t where bt: "nat_dec (length s) = b # t" using nat_dec_digits [of "length s"] by (cases "nat_dec (length s)") auto
  have b: "is_digit b" using nat_dec_digits [of "length s"] bt by simp
  let ?d = "d\<lparr>d_in := t @ '':'' @ s @ r, d_Offset := d_Offset d + 1, d_buf := [b]\<rparr>"
  let ?d1 = "?d\<lparr>d_in := s @ r, d_Offset := d_Offset ?d + length (t @ '':''), d_buf := []\<rparr>"
  have "length s \<le> getMaxStrLen ?d" "length s < 2 ^ 63" using s by (simp_all add: limit_def)
  then have "parseStringLength ?d = (Ret (Inr (length s)), ?d1)"
    using bt b parseStringLength_iff [of ?d b "length s" ?d1] by (simp add: reads_def)
  then show ?thesis using b d bt
    by (intro exI [of _ b] exI [of _ "t @ '':'' @ s @ r"] exI [of _ ?d1]) (simp add: reflectString_def writeStringPrefix_def)
qed

lemma text_complete:
  assumes s: "length s \<le> limit d" "d_in d = reflectString s @ r"
    and t: "t = TString \<and> v = GString s \<or> t = TSlice TUint8 \<and> v = GSlice (Some (byte_values s))"
  shows "\<exists>d'. (\<forall>n. parseValue (Suc n) t d = (Ret (True, None, v), d')) \<and> d_in d' = r \<and> d_buf d' = [] \<and>
    d_MaxStrLen d' = d_MaxStrLen d"
proof -
  from string_start [OF s] obtain b bs d1 where b: "d_in d = b # bs" "is_digit b" and d1: "d_in d1 = s @ r" "d_buf d1 = []"
    "d_MaxStrLen d1 = d_MaxStrLen d"
    and l: "parseStringLength (d\<lparr>d_in := bs, d_Offset := d_Offset d + 1, d_buf := [b]\<rparr>) = (Ret (Inr (length s)), d1)" by blast
  then have letters: "b \<noteq> CHR ''e''" "b \<noteq> CHR ''d''" "b \<noteq> CHR ''l''" "b \<noteq> CHR ''i''" by (auto simp: is_digit_def)
  let ?d' = "d1\<lparr>d_in := r, d_Offset := d_Offset d1 + length s\<rparr>"
  have "parseString t (d\<lparr>d_in := bs, d_Offset := d_Offset d + 1, d_buf := [b]\<rparr>) = (Ret (None, v), ?d')"
    using l d1 t by (auto simp: parseString_def read_full_def Let_def reset_buf_def)
  moreover have "plain_type t" using t by auto
  ultimately show ?thesis
    using b letters d1 by (intro exI [of _ ?d']) (simp add: parseValue_plain Let_def found_def)
qed

lemma string_complete:
  assumes "length s \<le> limit d" "d_in d = reflectString s @ r"
  shows "\<exists>d'. (\<forall>n. parseValue (Suc n) TString d = (Ret (True, None, GString s), d')) \<and> d_in d' = r \<and> d_buf d' = [] \<and>
    d_MaxStrLen d' = d_MaxStrLen d"
  using assms by (rule text_complete) simp

lemma int_complete:
  assumes "fits64 i" "d_buf d = []" "d_in d = CHR ''i'' # int_dec i @ ''e'' @ r"
  shows "\<exists>d'. (\<forall>n. parseValue (Suc n) TInt64 d = (Ret (True, None, GInt i), d')) \<and> d_in d' = r \<and> d_buf d' = [] \<and>
    d_MaxStrLen d' = d_MaxStrLen d"
proof -
  let ?d = "d\<lparr>d_in := int_dec i @ ''e'' @ r, d_Offset := d_Offset d + 1\<rparr>"
  let ?d1 = "?d\<lparr>d_in := r, d_Offset := d_Offset ?d + length (int_dec i) + 1, d_buf := int_dec i\<rparr>"
  have "CHR ''e'' \<notin> set (int_dec i)" using int_dec_chars by (fastforce simp: is_digit_def)
  then have "readUntil (CHR ''e'') ?d = (Ret (), ?d1)" unfolding readUntil_Ret using assms(2) by auto
  moreover have "checkBufferedInt ?d1 = None" using checkBufferedInt_int_dec [of ?d1 i] by simp
  ultimately have "parseInt TInt64 ?d = (Ret (None, GInt i), reset_buf ?d1)"
    using assms(1) by (simp add: parseInt_def readInt_def ParseInt_int_dec Let_def)
  then show ?thesis using assms(3) by (simp add: Let_def found_def reset_buf_def)
qed

text \<open>An item that a struct takes: an unknown key, a raw field, a text or byte field with a string, or a number.\<close>

definition takes :: "(string \<times> gotype \<times> bool) list \<Rightarrow> string \<Rightarrow> bvalue \<Rightarrow> govalue option \<Rightarrow> bool" where
  "takes fs k v u \<longleftrightarrow>
     map_of fs k = None \<and> u = None \<or>
     (\<exists>i. map_of fs k = Some (rawType, i)) \<and> u = Some (GString (reflectValue v)) \<or>
     (\<exists>i s. map_of fs k = Some (TString, i) \<and> v = BStr s \<and> u = Some (GString s)) \<or>
     (\<exists>i s. map_of fs k = Some (TSlice TUint8, i) \<and> v = BStr s \<and> u = Some (GSlice (Some (byte_values s)))) \<or>
     (\<exists>i n. map_of fs k = Some (TInt64, i) \<and> v = BInt n \<and> u = Some (GInt n))"

definition put :: "(string \<Rightarrow> bvalue \<Rightarrow> govalue option) \<Rightarrow> string \<times> bvalue \<Rightarrow> govalue \<Rightarrow> govalue" where
  "put g kv x = (case g (fst kv) (snd kv) of None \<Rightarrow> x | Some u \<Rightarrow> set_item (fst kv) u x)"

lemma limit_cong: "d_MaxStrLen d = d_MaxStrLen d' \<Longrightarrow> limit d = limit d'"
  by (simp add: limit_def getMaxStrLen_def)

lemma item_complete:
  assumes t: "takes fs k v (g k v)" and d: "d_buf d = []" "wf_bvalue (limit d) v" "d_in d = reflectValue v @ r"
  shows "\<exists>d'. d_in d' = r \<and> d_MaxStrLen d' = d_MaxStrLen d \<and>
    (\<forall>n x. parseItem (Suc (Suc n)) (TStruct tn fs) x k d = parseDict (Suc n) (TStruct tn fs) (put g (k, v) x) d')"
proof -
  have lim: "limit d < 2 ^ 63" by (simp add: limit_def)
  from t consider "map_of fs k = None" "g k v = None"
    | i where "map_of fs k = Some (rawType, i)" "g k v = Some (GString (reflectValue v))"
    | i s t u where "map_of fs k = Some (t, i)" "v = BStr s" "g k v = Some u"
        "t = TString \<and> u = GString s \<or> t = TSlice TUint8 \<and> u = GSlice (Some (byte_values s))"
    | i m where "map_of fs k = Some (TInt64, i)" "v = BInt m" "g k v = Some (GInt m)"
    unfolding takes_def by auto
  then show ?thesis
  proof cases
    case 1
    obtain d' where r: "reads d (reflectValue v) d'" "d_in d' = r" using reads_exists [OF d(3)] by blast
    have "parseValueInterface (parse_fuel d) d = (Ret (Some v), d')"
      using d by (intro parseValueInterface_complete r(1)) (simp_all add: parse_fuel_def)
    with 1 r show ?thesis by (intro exI [of _ d']) (simp add: getDictField_def put_def)
  next
    case 2
    from raw_complete [OF d(2) lim d(3)] obtain d' where
      "\<forall>n. parseValue (Suc n) rawType d = (Ret (True, None, GString (reflectValue v)), d')"
      "d_in d' = r" "d_MaxStrLen d' = d_MaxStrLen d" by blast
    with 2 show ?thesis by (intro exI [of _ d']) (simp add: getDictField_def put_def del: parseValue.simps)
  next
    case 3
    then have "length s \<le> limit d" "d_in d = reflectString s @ r" using d by simp_all
    from text_complete [OF this 3(4)] obtain d' where
      "\<forall>n. parseValue (Suc n) t d = (Ret (True, None, u), d')"
      "d_in d' = r" "d_MaxStrLen d' = d_MaxStrLen d" by blast
    with 3(1,3) show ?thesis by (intro exI [of _ d']) (simp add: getDictField_def put_def del: parseValue.simps)
  next
    case 4
    then have "fits64 m" "d_in d = CHR ''i'' # int_dec m @ ''e'' @ r" using d by simp_all
    from int_complete [OF this(1) d(1) this(2)] obtain d' where
      "\<forall>n. parseValue (Suc n) TInt64 d = (Ret (True, None, GInt m), d')"
      "d_in d' = r" "d_MaxStrLen d' = d_MaxStrLen d" by blast
    with 4 show ?thesis by (intro exI [of _ d']) (simp add: getDictField_def put_def del: parseValue.simps)
  qed
qed

lemma dict_complete:
  assumes "\<forall>kv \<in> set kvs. takes fs (fst kv) (snd kv) (g (fst kv) (snd kv)) \<and> length (fst kv) \<le> limit d \<and> wf_bvalue (limit d) (snd kv)"
    "d_in d = concat (map item kvs) @ ''e'' @ r" "2 * length kvs + 2 \<le> n"
  shows "\<exists>d'. parseDict n (TStruct tn fs) x d = (Ret (None, fold (put g) kvs x), d') \<and> d_in d' = r"
  using assms
proof (induction kvs arbitrary: d x n)
  case Nil
  then have "2 \<le> n" by simp
  then obtain m where "n = Suc (Suc m)" by (metis add_2_eq_Suc le_Suc_ex)
  with Nil show ?case by simp
next
  case (Cons kv kvs)
  obtain k v where kv: "kv = (k, v)" by force
  let ?rest = "concat (map item kvs) @ ''e'' @ r"
  have n: "4 \<le> n" using Cons.prems(3) by simp
  then obtain m where m: "n = Suc (Suc (Suc (Suc m)))" by (metis add_Suc add_0 le_Suc_ex numeral_eq_Suc pred_numeral_simps(1,2,3) BitM.simps eval_nat_numeral)
  have "length k \<le> limit d" "d_in d = reflectString k @ reflectValue v @ ?rest" using Cons.prems by (simp_all add: kv)
  from string_complete [OF this] obtain d1 where key: "\<forall>n. parseValue (Suc n) TString d = (Ret (True, None, GString k), d1)"
    and d1: "d_in d1 = reflectValue v @ ?rest" "d_buf d1 = []" "d_MaxStrLen d1 = d_MaxStrLen d" by blast
  note lim = limit_cong [OF d1(3)]
  have "takes fs k v (g k v)" "wf_bvalue (limit d1) v" using Cons.prems(1) lim by (simp_all add: kv)
  from item_complete [of fs k v g, OF this(1) d1(2) this(2) d1(1)] obtain d2 where d2: "d_in d2 = ?rest" "d_MaxStrLen d2 = d_MaxStrLen d1"
    and it: "\<forall>n x. parseItem (Suc (Suc n)) (TStruct tn fs) x k d1 = parseDict (Suc n) (TStruct tn fs) (put g (k, v) x) d2"
    by blast
  have "limit d2 = limit d" using lim limit_cong [OF d2(2)] by simp
  then obtain d' where "parseDict (Suc (Suc m)) (TStruct tn fs) (put g (k, v) x) d2 = (Ret (None, fold (put g) kvs (put g (k, v) x)), d')"
    "d_in d' = r"
    using Cons.IH [of d2 "Suc (Suc m)" "put g (k, v) x"] Cons.prems d2(1) m by auto
  with key it show ?case by (intro exI [of _ d']) (simp add: m kv string_of_def del: parseValue.simps parseItem.simps)
qed

section \<open>Loading an encoded torrent file\<close>

definition text_keys :: "string list" where
  "text_keys = [''announce'', ''comment'', ''created by'', ''encoding'']"

definition structured_keys :: "string list" where
  "structured_keys = [''announce-list'', ''nodes'', ''url-list'', ''piece layers'']"

definition text_value :: "bvalue option \<Rightarrow> string" where
  "text_value v = (case v of Some (BStr s) \<Rightarrow> s | _ \<Rightarrow> [])"

definition date_value :: "bvalue option \<Rightarrow> int" where
  "date_value v = (case v of Some (BInt n) \<Rightarrow> n | _ \<Rightarrow> 0)"

definition meta_value :: "string \<Rightarrow> bvalue \<Rightarrow> govalue option" where
  "meta_value k v =
     (if k = ''info'' then Some (GString (reflectValue v))
      else if k \<in> set text_keys then Some (GString (text_value (Some v)))
      else if k = ''creation date'' then Some (GInt (date_value (Some v)))
      else None)"

lemma get_set_struct: "get_field j (set_item k v (GStruct kvs)) = (if j = k then v else get_field j (GStruct kvs))"
  by (simp add: get_field_def set_item_def map_of_set_key)

lemma set_item_struct: "\<exists>kvs'. set_item k v (GStruct kvs) = GStruct kvs'"
  by (simp add: set_item_def)

lemma get_field_fold:
  assumes "distinct (map fst kvs)" "\<forall>kv \<in> set kvs. fst kv = k \<longrightarrow> g k (snd kv) \<noteq> None"
  shows "get_field k (fold (put g) kvs (GStruct xs)) =
    (case map_of kvs k of Some v \<Rightarrow> the (g k v) | None \<Rightarrow> get_field k (GStruct xs))"
  using assms
proof (induction kvs arbitrary: xs)
  case (Cons kv kvs)
  obtain j v where kv: "kv = (j, v)" by force
  obtain ys where ys: "put g kv (GStruct xs) = GStruct ys"
    using set_item_struct [of "fst kv" _ xs] by (cases "g (fst kv) (snd kv)") (auto simp: put_def)
  have "get_field k (put g kv (GStruct xs)) = (if j = k then the (g k v) else get_field k (GStruct xs))"
    using Cons.prems(2) by (auto simp: put_def kv get_set_struct split: option.splits)
  then have "get_field k (GStruct ys) = (if j = k then the (g k v) else get_field k (GStruct xs))" by (simp add: ys)
  moreover have "map_of kvs j = None" using Cons.prems(1) kv by (simp add: map_of_eq_None_iff)
  ultimately show ?case using Cons ys by (auto simp: kv split: option.split)
qed simp

text \<open>A dictionary whose items a struct takes decodes into it.\<close>

lemma Decode_struct:
  assumes wf: "wf_bvalue DefaultDecodeMaxStrLen (BDict kvs)"
    and tk: "\<And>kv. kv \<in> set kvs \<Longrightarrow> takes fs (fst kv) (snd kv) (g (fst kv) (snd kv))"
  shows "\<exists>d'. Decode_type (TStruct tn fs) (new_decoder (reflectValue (BDict kvs))) =
    ((None, fold (put g) kvs (zero_of (TStruct tn fs))), d') \<and> d_in d' = []"
proof -
  let ?s = "reflectValue (BDict kvs)" and ?t = "TStruct tn fs"
  let ?d = "(new_decoder ?s)\<lparr>d_in := concat (map item kvs) @ ''e'', d_Offset := 1\<rparr>"
  have s: "?s = CHR ''d'' # concat (map item kvs) @ ''e''" by (simp add: reflectValue_BDict del: reflectValue.simps)
  have lim: "limit ?d = DefaultDecodeMaxStrLen"
    by (simp add: limit_def getMaxStrLen_def new_decoder_def DefaultDecodeMaxStrLen_def)
  have "length kvs \<le> length (concat (map item kvs))"
  proof (induction kvs)
    case (Cons kv kvs)
    then show ?case using length_reflectString [of "fst kv"] by simp
  qed simp
  then have fuel: "2 * length kvs + 2 \<le> 3 * length ?s" unfolding s by simp
  obtain d' where "parseDict (3 * length ?s) ?t (zero_of ?t) ?d = (Ret (None, fold (put g) kvs (zero_of ?t)), d')"
    "d_in d' = []"
    using dict_complete [where kvs = kvs and fs = fs and g = g and d = ?d and r = "[]" and n = "3 * length ?s"
        and tn = tn and x = "zero_of ?t"] tk wf fuel lim
    by (auto simp: wf_BDict simp del: wf_bvalue.simps)
  moreover have "plain_type ?t" by simp
  moreover have "d_in (new_decoder ?s) = CHR ''d'' # concat (map item kvs) @ ''e''" using s by simp
  moreover have "(new_decoder ?s)\<lparr>d_in := concat (map item kvs) @ ''e'', d_Offset := d_Offset (new_decoder ?s) + 1\<rparr> = ?d"
    by (simp add: new_decoder_def)
  ultimately have "parseValue (Suc (3 * length ?s)) ?t (new_decoder ?s) =
      (Ret (True, None, fold (put g) kvs (zero_of ?t)), d')"
    by (simp only: parseValue_plain list.case Let_def found_def and_then_simps if_False if_True char.inject simp_thms)
  moreover have "typed_fuel (new_decoder ?s) = Suc (3 * length ?s)" by (simp add: typed_fuel_def)
  ultimately have "Decode_type ?t (new_decoder ?s) = ((None, fold (put g) kvs (zero_of ?t)), d')"
    by (simp only: Decode_type_def prod.case thrown.case option.case bool.case)
  then show ?thesis using \<open>d_in d' = []\<close> by blast
qed

lemma mi_Load_encoded:
  assumes wf: "wf_bvalue DefaultDecodeMaxStrLen (BDict kvs)"
    and tx: "\<forall>kv \<in> set kvs. fst kv \<in> set text_keys \<longrightarrow> (\<exists>s. snd kv = BStr s)"
    and date: "\<forall>kv \<in> set kvs. fst kv = ''creation date'' \<longrightarrow> (\<exists>n. snd kv = BInt n)"
    and none: "\<forall>kv \<in> set kvs. fst kv \<notin> set structured_keys"
  shows "mi_Load (reflectValue (BDict kvs)) = Inr (meta_file (fold (put meta_value) kvs (zero_of metaInfoType)))"
proof -
  obtain fs where fs: "metaInfoType = TStruct ''metainfo.MetaInfo'' fs" by (simp add: metaInfoType_def)
  have tk: "takes fs (fst kv) (snd kv) (meta_value (fst kv) (snd kv))" if "kv \<in> set kvs" for kv
    using that tx date none fs
    by (auto simp: takes_def meta_value_def text_keys_def structured_keys_def text_value_def date_value_def metaInfoType_def
        split: if_splits)
  from Decode_struct [OF wf tk] obtain d' where
    "Decode_type metaInfoType (new_decoder (reflectValue (BDict kvs))) =
      ((None, fold (put meta_value) kvs (zero_of metaInfoType)), d')" "d_in d' = []" unfolding fs by blast
  then show ?thesis by (simp only: mi_Load_def ReadEOF_def prod.case option.case if_True simp_thms)
qed

lemma meta_zero:
  "\<exists>xs. zero_of metaInfoType = GStruct xs \<and> (\<forall>k \<in> set (''info'' # text_keys). get_field k (GStruct xs) = GString []) \<and>
    get_field ''creation date'' (GStruct xs) = GInt 0 \<and> get_field ''announce-list'' (GStruct xs) = GSlice None \<and>
    get_field ''nodes'' (GStruct xs) = GSlice None \<and> get_field ''url-list'' (GStruct xs) = GSlice None \<and>
    get_field ''piece layers'' (GStruct xs) = GMap None"
  by (simp add: metaInfoType_def text_keys_def get_field_def rawType_def urlListType_def)

lemma encoded_file_loads:
  assumes "wf_bvalue DefaultDecodeMaxStrLen (BDict kvs)"
    and "\<forall>kv \<in> set kvs. fst kv \<in> set text_keys \<longrightarrow> (\<exists>s. snd kv = BStr s)"
    and "\<forall>kv \<in> set kvs. fst kv = ''creation date'' \<longrightarrow> (\<exists>n. snd kv = BInt n)"
    and "\<forall>kv \<in> set kvs. fst kv \<notin> set structured_keys"
  shows "\<exists>mi. mi_Load (reflectValue (BDict kvs)) = Inr mi \<and>
    InfoBytes mi = (case map_of kvs ''info'' of None \<Rightarrow> [] | Some v \<Rightarrow> reflectValue v) \<and>
    Announce mi = text_value (map_of kvs ''announce'') \<and> Comment mi = text_value (map_of kvs ''comment'') \<and>
    CreatedBy mi = text_value (map_of kvs ''created by'') \<and> Encoding mi = text_value (map_of kvs ''encoding'') \<and>
    CreationDate mi = date_value (map_of kvs ''creation date'') \<and>
    AnnounceList mi = [] \<and> Nodes mi = [] \<and> UrlList mi = [] \<and> PieceLayers mi = None"
proof -
  define v where "v = fold (put meta_value) kvs (zero_of metaInfoType)"
  obtain xs where z: "zero_of metaInfoType = GStruct xs"
    and zk: "\<And>k. k \<in> set (''info'' # text_keys) \<Longrightarrow> get_field k (GStruct xs) = GString []"
    and zs: "get_field ''creation date'' (GStruct xs) = GInt 0" "get_field ''announce-list'' (GStruct xs) = GSlice None"
      "get_field ''nodes'' (GStruct xs) = GSlice None" "get_field ''url-list'' (GStruct xs) = GSlice None"
      "get_field ''piece layers'' (GStruct xs) = GMap None" using meta_zero by blast
  have dist: "distinct (map fst kvs)" using assms(1) by (auto simp: strict_sorted_iff)
  have known: "get_field k v = (case map_of kvs k of Some u \<Rightarrow> the (meta_value k u) | None \<Rightarrow> get_field k (GStruct xs))"
    if "k \<in> set (''info'' # ''creation date'' # text_keys)" for k
    unfolding v_def z using that by (intro get_field_fold [OF dist]) (auto simp: meta_value_def)
  have other: "get_field k v = get_field k (GStruct xs)" if "k \<in> set structured_keys" for k
  proof -
    have n: "\<forall>kv \<in> set kvs. fst kv \<noteq> k" using that assms(4) by auto
    then have "map_of kvs k = None" by (auto simp: map_of_eq_None_iff)
    with n show ?thesis unfolding v_def z by (subst get_field_fold [OF dist]) auto
  qed
  have tx: "string_of (get_field k v) = text_value (map_of kvs k)" if "k \<in> set text_keys" for k
    using that known [of k] zk [of k] by (auto simp: meta_value_def text_keys_def text_value_def split: option.splits)
  have "string_of (get_field ''info'' v) = (case map_of kvs ''info'' of None \<Rightarrow> [] | Some u \<Rightarrow> reflectValue u)"
    "int_of (get_field ''creation date'' v) = date_value (map_of kvs ''creation date'')"
    using known [of "''info''"] known [of "''creation date''"] zk [of "''info''"] zs(1)
    by (simp_all add: meta_value_def text_keys_def date_value_def int_of_def split: option.split)
  then show ?thesis using tx other zs mi_Load_encoded [OF assms]
    by (simp add: v_def [symmetric] meta_file_def text_keys_def structured_keys_def elems_of_def strings_of_def)
qed

text \<open>C23: Torrent files without a list of trackers, nodes, web seeds or piece layers that the encoder writes are
  loaded. For a dictionary whose text fields hold strings and whose creation date is a number, with an
  info of any shape and any further keys that the format does not know, \<open>Load\<close> succeeds; the info bytes
  are the encoding of the info value, the text fields are the strings of the dictionary, and the four
  structured fields are empty.\<close>

theorem Load_encoded_file:
  assumes "wf_bvalue DefaultDecodeMaxStrLen (BDict kvs)"
    and "\<forall>kv \<in> set kvs. fst kv \<in> set text_keys \<longrightarrow> (\<exists>s. snd kv = BStr s)"
    and "\<forall>kv \<in> set kvs. fst kv = ''creation date'' \<longrightarrow> (\<exists>n. snd kv = BInt n)"
    and "\<forall>kv \<in> set kvs. fst kv \<notin> set structured_keys"
  shows "\<exists>mi. mi_Load (reflectValue (BDict kvs)) = Inr mi \<and>
    InfoBytes mi = (case map_of kvs ''info'' of None \<Rightarrow> [] | Some v \<Rightarrow> reflectValue v) \<and>
    Announce mi = text_value (map_of kvs ''announce'') \<and> Comment mi = text_value (map_of kvs ''comment'') \<and>
    CreatedBy mi = text_value (map_of kvs ''created by'') \<and> Encoding mi = text_value (map_of kvs ''encoding'') \<and>
    CreationDate mi = date_value (map_of kvs ''creation date'') \<and>
    AnnounceList mi = [] \<and> Nodes mi = [] \<and> UrlList mi = [] \<and> PieceLayers mi = None"
  using assms by (rule encoded_file_loads)

definition small_dict :: "(string \<times> bvalue) list" where
  "small_dict = [(''comment'', BStr ''a''), (''creation date'', BInt 12), (''info'', BDict [(''name'', BStr ''x'')]), (''zzz'', BInt 7)]"

lemma small_dict_facts:
  "wf_bvalue DefaultDecodeMaxStrLen (BDict small_dict)"
  "\<forall>kv \<in> set small_dict. fst kv \<in> set text_keys \<longrightarrow> (\<exists>s. snd kv = BStr s)"
  "\<forall>kv \<in> set small_dict. fst kv = ''creation date'' \<longrightarrow> (\<exists>n. snd kv = BInt n)"
  "\<forall>kv \<in> set small_dict. fst kv \<notin> set structured_keys"
  by (simp_all add: small_dict_def text_keys_def structured_keys_def DefaultDecodeMaxStrLen_def fits64_def less_char_def)

theorem Load_encoded_file_witness:
  "\<exists>mi. mi_Load (reflectValue (BDict small_dict)) = Inr mi \<and> InfoBytes mi = reflectValue (BDict [(''name'', BStr ''x'')]) \<and>
     Comment mi = ''a'' \<and> CreationDate mi = 12 \<and> Announce mi = []"
  using Load_encoded_file [OF small_dict_facts] by (simp add: small_dict_def text_value_def date_value_def) blast

text \<open>The info dictionary of a loaded torrent file is kept byte for byte: it is a run of consecutive bytes of the
  file, never a re-encoding, so that the info hash is the hash of what the file's author wrote.\<close>

theorem Load_info_verbatim:
  assumes "mi_Load bytes = Inr mi"
  shows "\<exists>before after. bytes = before @ InfoBytes mi @ after"
  using mi_Load_info [OF assms] by (auto simp: sublist_def)

theorem Load_info_verbatim_witness:
  "\<exists>mi before after. mi_Load (reflectValue (BDict small_dict)) = Inr mi \<and>
     reflectValue (BDict small_dict) = before @ InfoBytes mi @ after"
  using Load_info_verbatim mi_Load_encoded [OF small_dict_facts] by blast

section \<open>The info of a single-file torrent\<close>

definition v1_items :: "string \<Rightarrow> int \<Rightarrow> int \<Rightarrow> string \<Rightarrow> (string \<times> bvalue) list" where
  "v1_items nm len pl ps = [(''length'', BInt len), (''name'', BStr nm), (''piece length'', BInt pl), (''pieces'', BStr ps)]"

definition v1_value :: "string \<Rightarrow> bvalue \<Rightarrow> govalue option" where
  "v1_value k v =
     (case v of
        BInt i \<Rightarrow> Some (GInt i)
      | BStr s \<Rightarrow> Some (if k = ''pieces'' then GSlice (Some (byte_values s)) else GString s)
      | _ \<Rightarrow> None)"

lemma bytes_of_values [simp]: "bytes_of (GSlice (Some (byte_values s))) = s"
  by (induction s) (simp_all add: bytes_of_def elems_of_def byte_values_def int_of_def)

definition v1_info :: "string \<Rightarrow> int \<Rightarrow> int \<Rightarrow> string \<Rightarrow> Info" where
  "v1_info nm len pl ps =
     \<lparr>PieceLength = pl, Pieces = ps, info_Name = nm, NameUtf8 = [], info_Length = len, Files = None, MetaVersion = 0,
      info_FileTree = file_tree (FT 0 [] [])\<rparr>"

lemma UnmarshalInfo_v1:
  assumes "InfoBytes mi = reflectValue (BDict (v1_items nm len pl ps))" "fits64 len" "fits64 pl"
    "length nm \<le> DefaultDecodeMaxStrLen" "length ps \<le> DefaultDecodeMaxStrLen"
  shows "UnmarshalInfo mi = (None, v1_info nm len pl ps)"
proof -
  let ?k = "v1_items nm len pl ps"
  define x where "x = fold (put v1_value) ?k (zero_of infoType)"
  obtain fs where fs: "infoType = TStruct ''metainfo.Info'' fs" and
    fld: "map_of fs ''length'' = Some (TInt64, False)" "map_of fs ''name'' = Some (TString, False)"
      "map_of fs ''piece length'' = Some (TInt64, False)" "map_of fs ''pieces'' = Some (TSlice TUint8, False)"
    by (simp add: infoType_def extendedFileAttrs_def)
  have wf: "wf_bvalue DefaultDecodeMaxStrLen (BDict ?k)"
    using assms(2-) by (auto simp: v1_items_def DefaultDecodeMaxStrLen_def less_char_def)
  have tk: "takes fs (fst kv) (snd kv) (v1_value (fst kv) (snd kv))" if "kv \<in> set ?k" for kv
    using that fld by (auto simp: takes_def v1_items_def v1_value_def)
  from Decode_struct [OF wf tk] obtain d' where
    "Decode_type infoType (new_decoder (reflectValue (BDict ?k))) = ((None, x), d')" "d_in d' = []" unfolding fs x_def by blast
  then have un: "Unmarshal_type infoType (InfoBytes mi) = (None, x)"
    using assms(1) by (simp add: Unmarshal_type_def ReadEOF_def del: reflectValue.simps)
  obtain xs where z: "zero_of infoType = GStruct xs" by (simp add: infoType_def)
  have get: "get_field k x = (case map_of ?k k of Some v \<Rightarrow> the (v1_value k v) | None \<Rightarrow> get_field k (zero_of infoType))" for k
    unfolding z x_def by (rule get_field_fold) (auto simp: v1_items_def v1_value_def)
  have zero: "get_field ''name.utf-8'' (zero_of infoType) = GString []" "get_field ''files'' (zero_of infoType) = GSlice None"
    "get_field ''meta version'' (zero_of infoType) = GInt 0" "get_field ''file tree'' (zero_of infoType) = GTree (FT 0 [] [])"
    by (simp_all add: infoType_def get_field_def extendedFileAttrs_def fileTreeType_def)
  have "get_field ''length'' x = GInt len" "get_field ''name'' x = GString nm" "get_field ''piece length'' x = GInt pl"
    "get_field ''pieces'' x = GSlice (Some (byte_values ps))"
    by (simp_all add: get v1_items_def v1_value_def)
  moreover have "get_field ''name.utf-8'' x = GString []" "get_field ''files'' x = GSlice None"
    "get_field ''meta version'' x = GInt 0" "get_field ''file tree'' x = GTree (FT 0 [] [])"
    by (simp_all add: get v1_items_def zero)
  ultimately have "info_of x = v1_info nm len pl ps"
    by (simp add: info_of_def v1_info_def int_of_def elems_of_def tree_of_def)
  with un show ?thesis by (simp add: UnmarshalInfo_def)
qed

end
