(* ===== verification/TorrentFile.thy ===== *)
theory TorrentFile
  imports LoadFacts Samples
begin

text \<open>
  Uploading a torrent file, with the decoder of the library in place: the composition of \<open>metainfo.Load\<close>,
  \<open>TorrentSpecFromMetaInfoErr\<close>, the client, the engine and the service. SHA-1 is a parameter.
\<close>

section \<open>What the client gets of a file\<close>

definition torrent_load :: "(string \<Rightarrow> string) \<Rightarrow> string \<Rightarrow> go_error + MetaInfo" where
  "torrent_load sha1 bytes =
     map_sum id
       (\<lambda>mi. \<lparr>mi_Info = (case UnmarshalInfo mi of (Some e, _) \<Rightarrow> Inl e | (None, info) \<Rightarrow> Inr info),
             mi_Hash = HashInfoBytes sha1 mi, mi_PieceLayers = PieceLayers mi\<rparr>)
       (mi_Load bytes)"

text \<open>It is what \<open>TorrentSpecFromMetaInfoErr\<close> says of the file.\<close>

lemma torrent_load_spec:
  assumes "torrent_load sha1 bytes = Inr m" "mi_Load bytes = Inr mi"
  shows "mi_Info m = Inr info \<Longrightarrow> TorrentSpecFromMetaInfoErr sha1 sha256 mi = (err, spec) \<Longrightarrow>
    err = None \<and> ts_DisplayName spec = BestName info \<and> ts_PieceLayers spec = mi_PieceLayers m \<and> ts_InfoHash spec = (if HasV1 info then mi_Hash m else zero_hash)"
  using assms by (auto simp: torrent_load_def TorrentSpecFromMetaInfoErr_def split: prod.splits option.splits)

section \<open>The engine\<close>

lemma AddTorrentSpec_Ok: "AddTorrentSpec k dn infoo layers w = (Ok t, w') \<Longrightarrow> t = k \<and> \<not> IsZero k"
  using frame_AddTorrentSpec(2) by blast

lemma start_hash: "start (lib_engine load dir) c t w = (Ok s, w') \<Longrightarrow> s = HexString t"
  by (auto simp: start_def Let_def lib_client_def call_def lib_engine_def split: res.splits prod.splits wakeup.splits)

lemma IsZero_zero: "IsZero (replicate Size (CHR 0x00))"
  by (simp add: IsZero_def)

lemma eng_AddFile_hash:
  assumes "eng_AddFile (lib_engine (torrent_load sha1) dir) c bytes w = (Ok h, w')"
  shows "\<exists>mi. mi_Load bytes = Inr mi \<and> h = HexString (to_array (sha1 (InfoBytes mi)))"
proof (cases "mi_Load bytes")
  case (Inl e)
  with assms show ?thesis by (simp add: eng_AddFile_def torrent_load_def)
next
  case (Inr mi)
  let ?m = "\<lparr>mi_Info = (case UnmarshalInfo mi of (Some e, _) \<Rightarrow> Inl e | (None, info) \<Rightarrow> Inr info),
             mi_Hash = HashInfoBytes sha1 mi, mi_PieceLayers = PieceLayers mi\<rparr>"
  have "torrent_load sha1 bytes = Inr ?m" by (simp add: torrent_load_def Inr)
  with assms obtain t v where add: "lib_AddTorrent ?m w = (Ok t, v)"
    and st: "start (lib_engine (torrent_load sha1) dir) c t v = (Ok h, w')"
    by (auto simp: eng_AddFile_def call_def lib_client_def lib_engine_simps split: res.splits prod.splits)
  from add have "t = to_array (HashInfoBytes sha1 mi)"
    using AddTorrentSpec_Ok IsZero_zero by (auto simp: lib_AddTorrent_def Let_def split: sum.splits if_splits)
  with start_hash [OF st] Inr show ?thesis by (simp add: HashInfoBytes_def)
qed

definition known_info :: "world \<Rightarrow> hash \<Rightarrow> Info option" where
  "known_info w k = Option.bind (torrentsByShortHash w k) lt_info"

lemma known_pieceHashed: "known_info (pieceHashed k i b w) k = known_info w k"
proof -
  obtain r v where ps: "piece_Set (k, i) b w = (r, v)" by force
  then have "torrentsByShortHash v = torrentsByShortHash w" by (cases rule: piece_Set_cases) simp_all
  with ps show ?thesis by (cases "torrentsByShortHash w k") (simp_all add: pieceHashed_def set_torrent_def known_info_def)
qed

lemma known_fold:
  "known_info (fold (\<lambda>(i, ok). pieceHashed k i ok) ps w) k = known_info w k"
  "env_verify (fold (\<lambda>(i, ok). pieceHashed k i ok) ps w) = env_verify w"
  by (induction ps arbitrary: w) (auto simp: known_pieceHashed)

lemma setInfo_accepts:
  assumes "torrentsByShortHash w k = Some t" "lt_info t = None" "validateInfo info = None" "\<not> UpvertedFiles_panics info"
    "env_open w = (\<lambda>_. None)"
  shows "\<exists>w'. lib_setInfo k info w = (Ok (), w') \<and> known_info w' k = Some info \<and> env_verify w' = env_verify w"
proof -
  let ?f = "\<lambda>t. t\<lparr>lt_info := Some info, lt_displayName := [], lt_completed := (\<lambda>i. piece_cache w (k, i) = Some True),
    lt_dirty := (\<lambda>_. 0)\<rparr>"
  let ?w = "set_torrent k ?f (tock w)"
  have "known_info ?w k = Some info" "env_verify ?w = env_verify w"
    using assms(1) by (simp_all add: known_info_def set_torrent_def)
  then show ?thesis using assms by (simp add: lib_setInfo_def Let_def known_fold del: map_option_eq_Some)
qed

lemma AddTorrentSpec_accepts:
  assumes "torrentsByShortHash w k = None" "\<not> IsZero k" "validateInfo info = None" "\<not> UpvertedFiles_panics info"
    "env_open w = (\<lambda>_. None)"
  shows "\<exists>w'. AddTorrentSpec k dn (Some info) None w = (Ok k, w') \<and> known_info w' k = Some info \<and> env_verify w' = env_verify w"
proof -
  let ?w = "w\<lparr>torrentsByShortHash := (torrentsByShortHash w)(k \<mapsto> new_torrent)\<rparr>"
  have "torrentsByShortHash ?w k = Some new_torrent" "lt_info new_torrent = None" "env_open ?w = (\<lambda>_. None)"
    using assms(5) by (simp_all add: new_torrent_def)
  from setInfo_accepts [OF this(1,2) assms(3,4) this(3)]
  obtain v where v: "lib_setInfo k info ?w = (Ok (), v)" "known_info v k = Some info" "env_verify v = env_verify w" by auto
  then obtain t where t: "torrentsByShortHash v k = Some t" "lt_info t = Some info"
    by (cases "torrentsByShortHash v k") (auto simp: known_info_def)
  have opt: "AddTorrentOpt k (Some info) w = (Ok True, v)" using assms(1,2) v(1) by (simp add: AddTorrentOpt_def Let_def)
  define u where "u = (if dn \<noteq> [] then set_torrent k (\<lambda>t. if lt_info t = None then t\<lparr>lt_displayName := dn\<rparr> else t) v else v)"
  have u: "torrentsByShortHash u k = Some t" "env_verify u = env_verify w" using t v(3) by (simp_all add: u_def set_torrent_def)
  then have "MergeSpec k dn (Some info) None v = (Ok (), u)"
    using t(2) by (simp add: MergeSpec_def Let_def u_def [symmetric] lib_setInfo_def lib_addPieceLayers_def)
  then show ?thesis using opt u t(2) by (simp add: AddTorrentSpec_def known_info_def)
qed

lemma verify_succeeds: "env_verify w = (\<lambda>_. None) \<Longrightarrow> \<exists>w'. verify_pieces background k js w = (Ok (), w')"
  by (induction js arbitrary: w) auto

lemma start_succeeds:
  assumes "known_info w k = Some info" "env_verify w = (\<lambda>_. None)"
  shows "\<exists>w'. start (lib_engine load dir) background k w = (Ok (HexString k), w')"
proof -
  obtain t where t: "torrentsByShortHash w k = Some t" "lt_info t = Some info" using assms(1) by (auto simp: known_info_def bind_eq_Some_conv)
  have "lib_select background k w = (GotInfo, tock w)" using t by (simp add: lib_select_def)
  moreover obtain v where "lib_VerifyDataContext background k (tock w) = (Ok (), v)"
    using t assms(2) verify_succeeds [of "tock w"] by (auto simp: lib_VerifyDataContext_def)
  ultimately show ?thesis by (simp add: start_def Let_def)
qed

section \<open>A single-file torrent\<close>

definition single_file :: "string \<Rightarrow> string \<Rightarrow> int \<Rightarrow> int \<Rightarrow> string \<Rightarrow> (string \<times> bvalue) list" where
  "single_file tracker nm len pl ps = [(''announce'', BStr tracker), (''info'', BDict (v1_items nm len pl ps))]"

definition single_ok :: "string \<Rightarrow> string \<Rightarrow> int \<Rightarrow> int \<Rightarrow> string \<Rightarrow> bool" where
  "single_ok tracker nm len pl ps \<longleftrightarrow>
     length tracker \<le> DefaultDecodeMaxStrLen \<and> length nm \<le> DefaultDecodeMaxStrLen \<and> length ps \<le> DefaultDecodeMaxStrLen \<and>
     0 \<le> len \<and> 0 < pl \<and> pl < 2 ^ 32 \<and> len + pl \<le> 2 ^ 63 \<and> int (length ps) = 20 * ((len + pl - 1) div pl)"

lemma single_file_loads:
  assumes ok: "single_ok tracker nm len pl ps"
  shows "\<exists>mi. mi_Load (reflectValue (BDict (single_file tracker nm len pl ps))) = Inr mi \<and>
    InfoBytes mi = reflectValue (BDict (v1_items nm len pl ps)) \<and> UnmarshalInfo mi = (None, v1_info nm len pl ps) \<and>
    PieceLayers mi = None"
proof -
  let ?k = "single_file tracker nm len pl ps"
  have wf: "wf_bvalue DefaultDecodeMaxStrLen (BDict ?k)"
    using ok by (auto simp: single_ok_def single_file_def v1_items_def DefaultDecodeMaxStrLen_def less_char_def fits64_def)
  have "\<forall>kv \<in> set ?k. fst kv \<in> set text_keys \<longrightarrow> (\<exists>s. snd kv = BStr s)"
    "\<forall>kv \<in> set ?k. fst kv = ''creation date'' \<longrightarrow> (\<exists>n. snd kv = BInt n)" "\<forall>kv \<in> set ?k. fst kv \<notin> set structured_keys"
    by (simp_all add: single_file_def text_keys_def structured_keys_def)
  from encoded_file_loads [OF wf this] obtain mi where "mi_Load (reflectValue (BDict ?k)) = Inr mi"
    "InfoBytes mi = reflectValue (BDict (v1_items nm len pl ps))" "PieceLayers mi = None"
    by (auto simp: single_file_def simp del: reflectValue.simps)
  moreover from UnmarshalInfo_v1 [OF this(2)] ok have "UnmarshalInfo mi = (None, v1_info nm len pl ps)"
    by (simp add: single_ok_def fits64_def)
  ultimately show ?thesis by blast
qed

lemma single_file_valid:
  assumes "single_ok tracker nm len pl ps"
  shows "validateInfo (v1_info nm len pl ps) = None" "HasV1 (v1_info nm len pl ps)" "\<not> UpvertedFiles_panics (v1_info nm len pl ps)"
proof -
  let ?n = "(len + pl - 1) div pl"
  have n: "int (length ps) = 20 * ?n" "0 < pl" "0 \<le> len" "len + pl \<le> 2 ^ 63" using assms by (simp_all add: single_ok_def)
  then have "(20 :: int) dvd int (length ps)" by simp
  then have "length ps mod 20 = 0" by presburger
  moreover have "i64 len = len" using n(2-4) by (intro i64_nonneg) linarith+
  then have "TotalLength (v1_info nm len pl ps) = len"
    by (simp add: v1_info_def TotalLength_def UpvertedFiles_def UpvertedV1Files_def HasV2_def files_of_def)
  moreover have "NumPieces (v1_info nm len pl ps) = ?n"
    using n(1,2) by (simp add: v1_info_def NumPieces_def HasV2_def sdiv_nonneg)
  ultimately show "validateInfo (v1_info nm len pl ps) = None"
    using round_up [OF n(3,2,4)] n(2) by (simp add: validateInfo_def v1_info_def)
  show "HasV1 (v1_info nm len pl ps)" "\<not> UpvertedFiles_panics (v1_info nm len pl ps)"
    by (simp_all add: HasV1_def v1_info_def UpvertedFiles_panics_def HasV2_def)
qed

section \<open>Uploading\<close>

lemma upload_ok:
  assumes inv: "db_inv w" "lib_inv w" and run: "svc_AddFile (service (torrent_load sha1) dir) c bytes opts w = (Ok t, w')"
  shows "\<exists>mi row. mi_Load bytes = Inr mi \<and> sublist (InfoBytes mi) bytes \<and>
      InfoHash t = HexString (to_array (sha1 (InfoBytes mi))) \<and> rows w (InfoHash t) = None \<and>
      rows w' = (rows w)(InfoHash t \<mapsto> row) \<and> db_InfoHash row = InfoHash t \<and>
      db_Magnet row = ''magnet:?xt=urn:btih:'' @ InfoHash t \<and> db_Label row = opt_Label opts \<and> \<not> db_Paused row"
proof -
  let ?s = "service (torrent_load sha1) dir"
  obtain ra v where add: "te_AddFile (engine ?s) c bytes w = (ra, v)" by force
  note f = svc.add_file_law [OF inv add]
  from run add obtain h where h: "ra = Ok h" "persist ?s c h (''magnet:?xt=urn:btih:'' @ h) opts v = (Ok t, w')"
    by (cases ra) (auto simp: svc_AddFile_def call_def split: if_splits)
  have "eng_AddFile (lib_engine (torrent_load sha1) dir) c bytes w = (Ok h, v)" using add h(1) by simp
  from eng_AddFile_hash [OF this] obtain mi where
    mi: "mi_Load bytes = Inr mi" "h = HexString (to_array (sha1 (InfoBytes mi)))" by blast
  have v: "db_inv v" "rows v = rows w" using f by blast+
  from svc.persist_effect [OF v(1) h(2)] obtain row where row: "rows v h = None" "rows w' = (rows v)(h \<mapsto> row)"
    "svc.added_row h (''magnet:?xt=urn:btih:'' @ h) opts row" "t = hydrate ?s row v" by blast
  have "InfoHash t = h" using row(3,4) by (simp add: hydrate_def svc.added_row_def Let_def split: sum.split)
  with mi mi_Load_info [OF mi(1)] row v(2) show ?thesis
    by (auto simp: svc.added_row_def)
qed

text \<open>C20: Uploading a torrent file. When the upload succeeds, the torrent was not managed before, its info hash is
  the hash of a run of bytes of the uploaded file, and exactly its row is new, with a magnet link made of
  that hash. A file that does not load is refused as invalid and nothing changes. A file that loads but
  has no version 1 part makes the library panic.\<close>

theorem upload_outcome:
  assumes "db_inv w" "lib_inv w"
  shows "(\<forall>t w'. svc_AddFile (service (torrent_load sha1) dir) c bytes opts w = (Ok t, w') \<longrightarrow>
      (\<exists>mi row. mi_Load bytes = Inr mi \<and> sublist (InfoBytes mi) bytes \<and>
         InfoHash t = HexString (to_array (sha1 (InfoBytes mi))) \<and> rows w (InfoHash t) = None \<and>
         rows w' = (rows w)(InfoHash t \<mapsto> row) \<and> db_InfoHash row = InfoHash t \<and>
         db_Magnet row = ''magnet:?xt=urn:btih:'' @ InfoHash t \<and> db_Label row = opt_Label opts \<and> \<not> db_Paused row)) \<and>
    (\<forall>err. mi_Load bytes = Inl err \<longrightarrow>
      svc_AddFile (service (torrent_load sha1) dir) c bytes opts w = (Err (Sentinel SvcInvalidTorrentFile), w)) \<and>
    (\<forall>mi info. mi_Load bytes = Inr mi \<longrightarrow> UnmarshalInfo mi = (None, info) \<longrightarrow> \<not> HasV1 info \<longrightarrow>
      svc_AddFile (service (torrent_load sha1) dir) c bytes opts w = (Panic ''zero value'', w))"
proof (intro conjI allI impI)
  fix t w'
  assume "svc_AddFile (service (torrent_load sha1) dir) c bytes opts w = (Ok t, w')"
  from upload_ok [OF assms this] show "\<exists>mi row. mi_Load bytes = Inr mi \<and> sublist (InfoBytes mi) bytes \<and>
         InfoHash t = HexString (to_array (sha1 (InfoBytes mi))) \<and> rows w (InfoHash t) = None \<and>
         rows w' = (rows w)(InfoHash t \<mapsto> row) \<and> db_InfoHash row = InfoHash t \<and>
         db_Magnet row = ''magnet:?xt=urn:btih:'' @ InfoHash t \<and> db_Label row = opt_Label opts \<and> \<not> db_Paused row" .
qed (simp_all add: svc_AddFile_def eng_AddFile_def torrent_load_def lib_AddTorrent_def AddTorrentSpec_def AddTorrentOpt_def IsZero_zero)

theorem upload_outcome_witness:
  "\<exists>err. mi_Load [] = Inl err \<and>
    svc_AddFile (service (torrent_load (\<lambda>_. [])) ''/data'') background [] \<lparr>opt_Label = [], opt_TargetDir = []\<rparr> empty_world =
      (Err (Sentinel SvcInvalidTorrentFile), empty_world)"
proof -
  obtain err where "mi_Load [] = Inl err"
    by (simp add: mi_Load_def Decode_type_def typed_fuel_def new_decoder_def metaInfoType_def)
  with upload_outcome [OF db_inv_samples(1) lib_inv_samples(1), of "\<lambda>_. []" "''/data''" background "[]" "\<lparr>opt_Label = [], opt_TargetDir = []\<rparr>"]
  show ?thesis by blast
qed

lemma eng_single_file:
  assumes ok: "single_ok tracker nm len pl ps" and env: "env_open w = (\<lambda>_. None)" "env_verify w = (\<lambda>_. None)"
    and k: "k = to_array (sha1 (reflectValue (BDict (v1_items nm len pl ps))))" "\<not> IsZero k" "torrentsByShortHash w k = None"
  shows "\<exists>v. eng_AddFile (lib_engine (torrent_load sha1) dir) background
      (reflectValue (BDict (single_file tracker nm len pl ps))) w = (Ok (HexString k), v)"
proof -
  let ?b = "reflectValue (BDict (single_file tracker nm len pl ps))" and ?i = "v1_info nm len pl ps"
  obtain mi where mi: "mi_Load ?b = Inr mi" "InfoBytes mi = reflectValue (BDict (v1_items nm len pl ps))"
    "UnmarshalInfo mi = (None, ?i)" "PieceLayers mi = None" using single_file_loads [OF ok] by blast
  have load: "torrent_load sha1 ?b = Inr \<lparr>mi_Info = Inr ?i, mi_Hash = sha1 (reflectValue (BDict (v1_items nm len pl ps))),
      mi_PieceLayers = None\<rparr>"
    unfolding torrent_load_def mi(1) by (simp add: mi(2-4) HashInfoBytes_def del: reflectValue.simps)
  obtain v where v: "AddTorrentSpec k (BestName ?i) (Some ?i) None w = (Ok k, v)" "known_info v k = Some ?i" "env_verify v = env_verify w"
    using AddTorrentSpec_accepts [OF k(3,2) single_file_valid(1,3) [OF ok] env(1)] by blast
  have "env_verify v = (\<lambda>_. None)" using v(3) env(2) by simp
  from start_succeeds [OF v(2) this] obtain u where
    "start (lib_engine (torrent_load sha1) dir) background k v = (Ok (HexString k), u)" by blast
  moreover have "lib_AddTorrent \<lparr>mi_Info = Inr ?i, mi_Hash = sha1 (reflectValue (BDict (v1_items nm len pl ps))),
      mi_PieceLayers = None\<rparr> w = (Ok k, v)"
    using v(1) single_file_valid(2) [OF ok] k(1) by (simp add: lib_AddTorrent_def del: reflectValue.simps)
  ultimately show ?thesis using load by (simp add: eng_AddFile_def del: reflectValue.simps)
qed

text \<open>C21: Uploading works. The encoded torrent file of a single file (name, length, a piece length below \<open>2 ^ 32\<close>
  that the length leaves room for below \<open>2 ^ 63\<close>, and one hash for every piece) is added by a server that does not manage it yet: when the database, the storage and the
  hashing report no error, the upload succeeds, under the hash of the info dictionary's bytes.\<close>

theorem single_file_added:
  assumes "single_ok tracker nm len pl ps" "env_open w = (\<lambda>_. None)" "env_verify w = (\<lambda>_. None)"
    "k = to_array (sha1 (reflectValue (BDict (v1_items nm len pl ps))))" "\<not> IsZero k" "torrentsByShortHash w k = None"
    "rows w (HexString k) = None" "db_inv w" "lib_inv w" "healthy background w"
  shows "\<exists>t w'. svc_AddFile (service (torrent_load sha1) dir) background
      (reflectValue (BDict (single_file tracker nm len pl ps))) opts w = (Ok t, w') \<and> InfoHash t = HexString k"
proof -
  let ?b = "reflectValue (BDict (single_file tracker nm len pl ps))" and ?s = "service (torrent_load sha1) dir"
  from eng_single_file [where ?sha1.0 = sha1, OF assms(1-6)] obtain v where "te_AddFile (engine ?s) background ?b w = (Ok (HexString k), v)"
    by (auto simp del: reflectValue.simps)
  from svc.AddFile_result [OF assms(8,9) this assms(10), of opts] assms(7)
  obtain t w' where run: "svc_AddFile ?s background ?b opts w = (Ok t, w')" by auto
  from upload_ok [OF assms(8,9) run] obtain mi where mi: "mi_Load ?b = Inr mi" "InfoHash t = HexString (to_array (sha1 (InfoBytes mi)))"
    by blast
  moreover have "InfoBytes mi = reflectValue (BDict (v1_items nm len pl ps))"
    using single_file_loads [OF assms(1)] mi(1) by (auto simp del: reflectValue.simps)
  ultimately have "InfoHash t = HexString k" using assms(4) by (simp del: reflectValue.simps)
  with run show ?thesis by blast
qed

text \<open>A file of seven bytes in pieces of four; the digest is always \<open>hash_b\<close>.\<close>

theorem single_file_added_witness:
  "\<exists>t w'. svc_AddFile (service (torrent_load (\<lambda>_. hash_b)) ''/data'') background
      (reflectValue (BDict (single_file ''udp://t'' ''film'' 7 4 (replicate 40 (CHR ''x''))))) \<lparr>opt_Label = [], opt_TargetDir = []\<rparr>
      empty_world = (Ok t, w') \<and> InfoHash t = HexString hash_b"
proof (rule single_file_added)
  show "single_ok ''udp://t'' ''film'' 7 4 (replicate 40 (CHR ''x''))"
    by (simp add: single_ok_def DefaultDecodeMaxStrLen_def)
  show "hash_b = to_array ((\<lambda>_. hash_b) (reflectValue (BDict (v1_items ''film'' 7 4 (replicate 40 (CHR ''x''))))))"
    by (simp add: to_array_def hash_b_def Size_def)
  show "env_open empty_world = (\<lambda>_. None)" "torrentsByShortHash empty_world hash_b = None" by (simp_all add: empty_world_def)
qed simp_all

end
