(* ===== verification/Segments.thy ===== *)
theory Segments
  imports Metainfo
begin

text \<open>
  Where a range of a torrent's bytes lies in its files
  (\<open>licenses/github.com/anacrolix/torrent/segments/segments.go\<close>, \<open>index.go\<close>). An index holds the files as
  extents of the torrent; \<open>LocateIter\<close> finds the first file by binary search and walks on from there.
  An iterator is the list of what it yields. The integers are 64 bits wide, as \<open>segments.Int\<close> is. \<open>walk\<close> is the reference: go through the lengths
  from the first file. The lemmas equate the two and say that the pieces of the range, put
  together, are the range.
\<close>

section \<open>Extents and indexes\<close>

record Extent =
  ex_Start :: int
  ex_Length :: int

definition Extent_End :: "Extent \<Rightarrow> int" where
  "Extent_End e = i64 (ex_Start e + ex_Length e)"

text \<open>The loop of \<open>NewIndex\<close>.\<close>

fun NewIndex :: "int \<Rightarrow> int list \<Rightarrow> Extent list" where
  "NewIndex start [] = []"
| "NewIndex start (l # ls) = \<lparr>ex_Start = start, ex_Length = l\<rparr> # NewIndex (i64 (start + l)) ls"

definition FileSegmentsIndex :: "Info \<Rightarrow> Extent list" where
  "FileSegmentsIndex info =
     map (\<lambda>fi. \<lparr>ex_Start = fi_TorrentOffset fi, ex_Length = fi_Length fi\<rparr>) (UpvertedFiles info)"

text \<open>\<open>lastEnd\<close> is \<open>None\<close> before the first segment.\<close>

fun iterSegments :: "int option \<Rightarrow> Extent list \<Rightarrow> Extent list" where
  "iterSegments lastEnd [] = []"
| "iterSegments lastEnd (cur # rest) =
     \<lparr>ex_Start = i64 (ex_Start cur - (case lastEnd of None \<Rightarrow> ex_Start cur | Some e \<Rightarrow> e)),
      ex_Length = ex_Length cur\<rparr> # iterSegments (Some (Extent_End cur)) rest"

text \<open>The loop of \<open>scanConsecutive\<close>: its variables are \<open>startedNeedle\<close>, what is left of the haystack,
  and \<open>needle\<close>.\<close>

fun scanConsecutive :: "bool \<Rightarrow> Extent list \<Rightarrow> Extent \<Rightarrow> Extent list" where
  "scanConsecutive startedNeedle [] needle = []"
| "scanConsecutive startedNeedle (l # haystack) needle =
     (if ex_Length needle = 0 then []
      else
        (let start = max (i64 (ex_Start needle - ex_Start l)) 0;
             len = max (i64 (min (ex_Length l) (i64 (Extent_End needle - ex_Start l)) - start)) 0;
             needle' = \<lparr>ex_Start = max 0 (i64 (ex_Start needle - Extent_End l)),
                        ex_Length = i64 (ex_Length needle - (len + ex_Start l))\<rparr> in
         if len > 0 \<or> (startedNeedle \<and> ex_Length needle' \<noteq> 0)
         then \<lparr>ex_Start = start, ex_Length = len\<rparr> # scanConsecutive True haystack needle'
         else scanConsecutive startedNeedle haystack needle'))"

text \<open>\<open>slices.BinarySearchFunc\<close>: the first index whose element does not compare less than the target,
  here the first segment whose end is at least \<open>target + 1\<close>.\<close>

function search_from :: "Extent list \<Rightarrow> int \<Rightarrow> nat \<Rightarrow> nat \<Rightarrow> nat" where
  "search_from segs target i j =
     (if i < j then
        (let h = (i + j) div 2 in
         if Extent_End (segs ! h) < i64 (target + 1) then search_from segs target (h + 1) j
         else search_from segs target i h)
      else i)"
  by auto
termination by (relation "measure (\<lambda>(_, _, i, j). j - i)") auto

declare search_from.simps [simp del]

definition LocateIter :: "Extent list \<Rightarrow> Extent \<Rightarrow> (nat \<times> Extent) list" where
  "LocateIter segs e =
     (let first = search_from segs (ex_Start e) 0 (length segs) in
      if first = length segs then []
      else
        (let start = i64 (ex_Start e - ex_Start (segs ! first));
             e' = (if start < 0 then \<lparr>ex_Start = 0, ex_Length = i64 (ex_Length e + start)\<rparr>
                   else \<lparr>ex_Start = start, ex_Length = ex_Length e\<rparr>) in
         enumerate first (scanConsecutive False (iterSegments None (drop first segs)) e')))"

text \<open>\<open>LocateOffset\<close>: \<open>Panic\<close> when extents overlap on the offset.\<close>

definition LocateOffset :: "Extent list \<Rightarrow> int \<Rightarrow> (nat \<times> int) option res" where
  "LocateOffset segs off =
     (case LocateIter segs \<lparr>ex_Start = off, ex_Length = 1\<rparr> of
        [] \<Rightarrow> Ok None
      | (i, e) # rest \<Rightarrow>
          if ex_Length e \<noteq> 1 then Panic ''NotEq''
          else if rest \<noteq> [] then Panic ''True''
          else Ok (Some (i, ex_Start e)))"

section \<open>The reference walk\<close>

text \<open>\<open>walk_on\<close>: the range has begun in an earlier file and \<open>n\<close> bytes of it are left.\<close>

fun walk_on :: "nat \<Rightarrow> int list \<Rightarrow> int \<Rightarrow> (nat \<times> Extent) list" where
  "walk_on k [] n = []"
| "walk_on k (l # ls) n =
     (if n = 0 then []
      else (k, \<lparr>ex_Start = 0, ex_Length = min l n\<rparr>) # walk_on (Suc k) ls (n - min l n))"

fun walk :: "nat \<Rightarrow> int list \<Rightarrow> int \<Rightarrow> int \<Rightarrow> (nat \<times> Extent) list" where
  "walk k [] a n = []"
| "walk k (l # ls) a n =
     (if l \<le> a then walk (Suc k) ls (a - l) n
      else (k, \<lparr>ex_Start = a, ex_Length = min (l - a) n\<rparr>) # walk_on (Suc k) ls (n - min (l - a) n))"

section \<open>Locating equals walking\<close>

text \<open>Lengths that are not negative and whose running sum from \<open>s\<close> stays below \<open>2 ^ 63\<close>.\<close>

definition within64 :: "int \<Rightarrow> int list \<Rightarrow> bool" where
  "within64 s ls \<longleftrightarrow> 0 \<le> s \<and> (\<forall>l \<in> set ls. 0 \<le> l) \<and> s + sum_list ls < 2 ^ 63"

lemma within64_Cons: "within64 s (l # ls) \<longleftrightarrow> 0 \<le> s \<and> 0 \<le> l \<and> within64 (s + l) ls"
  by (auto simp: within64_def add.assoc)

lemma within64_le: "within64 s ls \<Longrightarrow> 0 \<le> s \<and> s < 2 ^ 63"
  using sum_list_nonneg [of ls] by (auto simp: within64_def)

lemma within64_step: "within64 s (l # ls) \<Longrightarrow> i64 (s + l) = s + l \<and> 0 \<le> l \<and> l < 2 ^ 63 \<and> within64 (s + l) ls"
  using within64_le [of "s + l" ls] by (simp add: within64_Cons i64_nonneg)

lemma scan_contiguous:
  assumes "0 \<le> n" "n < 2 ^ 63" "within64 s ls"
  shows "enumerate k (scanConsecutive True (iterSegments (Some s) (NewIndex s ls)) \<lparr>ex_Start = 0, ex_Length = n\<rparr>) =
    walk_on k ls n"
  using assms
proof (induction ls arbitrary: k s n)
  case (Cons l ls)
  note st = within64_step [OF Cons.prems(3)]
  have m: "0 \<le> min l n" "min l n < 2 ^ 63" "0 \<le> n - min l n" "n - min l n < 2 ^ 63" using st Cons.prems(1,2) by auto
  note IH = Cons.IH [OF m(3,4), of "s + l" "Suc k"]
  have "i64 (- l) = - l" using st by (intro i64_fits) (simp add: fits64_def)
  then have w: "i64 l = l" "i64 n = n" "i64 (min l n) = min l n" "i64 (n - min l n) = n - min l n" "max 0 (i64 (- l)) = 0"
    using st m Cons.prems(1,2) by (auto simp: i64_nonneg)
  have "scanConsecutive True (iterSegments (Some s) (NewIndex s (l # ls))) \<lparr>ex_Start = 0, ex_Length = n\<rparr> =
    (if n = 0 then [] else \<lparr>ex_Start = 0, ex_Length = min l n\<rparr> #
       scanConsecutive True (iterSegments (Some (s + l)) (NewIndex (s + l) ls))
         \<lparr>ex_Start = 0, ex_Length = n - min l n\<rparr>)"
    using st m w by (auto simp: Let_def Extent_End_def max_absorb1)
  then show ?case using IH st by simp
qed simp

lemma length_NewIndex [simp]: "length (NewIndex s ls) = length ls"
  by (induction s ls rule: NewIndex.induct) auto

lemma drop_NewIndex:
  "within64 s ls \<Longrightarrow> i \<le> length ls \<Longrightarrow> drop i (NewIndex s ls) = NewIndex (s + sum_list (take i ls)) (drop i ls) \<and>
    within64 (s + sum_list (take i ls)) (drop i ls)"
proof (induction i arbitrary: s ls)
  case (Suc i)
  then obtain l ls' where ls: "ls = l # ls'" by (cases ls) auto
  with Suc.prems within64_step [of s l ls'] Suc.IH [of "s + l" ls'] show ?case by (simp add: add.assoc)
qed simp

lemma NewIndex_nth:
  assumes "within64 s ls" "i < length ls"
  shows "NewIndex s ls ! i = \<lparr>ex_Start = s + sum_list (take i ls), ex_Length = ls ! i\<rparr>"
proof -
  have "drop i ls = ls ! i # drop (Suc i) ls" using assms(2) by (simp add: Cons_nth_drop_Suc)
  then have "drop i (NewIndex s ls) ! 0 = \<lparr>ex_Start = s + sum_list (take i ls), ex_Length = ls ! i\<rparr>"
    using drop_NewIndex [OF assms(1), of i] assms(2) by simp
  then show ?thesis using assms(2) by simp
qed

lemma search_from_spec:
  assumes "i \<le> j" "j \<le> length segs"
    and mono: "\<And>x y. x \<le> y \<Longrightarrow> y < length segs \<Longrightarrow> Extent_End (segs ! x) \<le> Extent_End (segs ! y)"
    and lo: "\<And>x. x < i \<Longrightarrow> Extent_End (segs ! x) \<le> t"
    and hi: "\<And>x. j \<le> x \<Longrightarrow> x < length segs \<Longrightarrow> t < Extent_End (segs ! x)"
    and t: "i64 (t + 1) = t + 1"
  shows "search_from segs t i j \<le> length segs \<and>
    (\<forall>x < search_from segs t i j. Extent_End (segs ! x) \<le> t) \<and>
    (\<forall>x. search_from segs t i j \<le> x \<longrightarrow> x < length segs \<longrightarrow> t < Extent_End (segs ! x))"
  using assms(1,2) lo hi
proof (induction "j - i" arbitrary: i j rule: less_induct)
  case less
  let ?h = "(i + j) div 2"
  show ?case
  proof (cases "i < j")
    case True
    then have h: "i \<le> ?h" "?h < j" by auto
    show ?thesis
    proof (cases "Extent_End (segs ! ?h) < t + 1")
      case True
      have "Extent_End (segs ! x) \<le> t" if "x < ?h + 1" for x
        using that mono [of x ?h] True h less.prems(2) by force
      with less.hyps [of j "?h + 1"] less.prems h True \<open>i < j\<close> show ?thesis
        by (subst (1 2 3) search_from.simps) (simp add: Let_def t)
    next
      case False
      have "t < Extent_End (segs ! x)" if "?h \<le> x" "x < length segs" for x
        using that mono [of ?h x] False by force
      with less.hyps [of ?h i] less.prems h False \<open>i < j\<close> show ?thesis
        by (subst (1 2 3) search_from.simps) (simp add: Let_def t)
    qed
  next
    case False
    with less.prems show ?thesis by (subst (1 2 3) search_from.simps) simp
  qed
qed


lemma sum_take_mono:
  "\<forall>l \<in> set ls. 0 \<le> (l::int) \<Longrightarrow> x \<le> y \<Longrightarrow> sum_list (take x ls) \<le> sum_list (take y ls)"
proof (induction ls arbitrary: x y)
  case (Cons l ls)
  then show ?case
    by (cases x; cases y) (auto intro!: sum_list_nonneg add_nonneg_nonneg dest: in_set_takeD)
qed simp

lemma NewIndex_End:
  assumes "within64 s ls" "x < length ls"
  shows "Extent_End (NewIndex s ls ! x) = s + sum_list (take (Suc x) ls)"
proof -
  have "within64 (s + sum_list (take (Suc x) ls)) (drop (Suc x) ls)" using drop_NewIndex [OF assms(1), of "Suc x"] assms(2) by simp
  from within64_le [OF this] have "i64 (s + sum_list (take (Suc x) ls)) = s + sum_list (take (Suc x) ls)" by (simp add: i64_nonneg)
  with assms show ?thesis by (simp add: NewIndex_nth Extent_End_def take_Suc_conv_app_nth add.assoc)
qed

lemma walk_skip:
  assumes "f \<le> length ls" "\<forall>x < f. sum_list (take (Suc x) ls) \<le> a"
  shows "walk k ls a n = walk (k + f) (drop f ls) (a - sum_list (take f ls)) n"
  using assms
proof (induction f arbitrary: k ls a)
  case (Suc f)
  then obtain l ls' where ls: "ls = l # ls'" by (cases ls) auto
  have "\<forall>x < f. sum_list (take (Suc x) ls') \<le> a - l" using Suc.prems(2) ls by auto
  moreover have "l \<le> a" using Suc.prems(2) ls by auto
  ultimately show ?case using Suc.IH [of ls' "a - l" "Suc k"] Suc.prems(1) ls by (simp add: algebra_simps)
qed simp

lemma LocateIter_walk:
  assumes lens: "within64 0 ls" and a: "0 \<le> a" and n: "0 < n" and an: "a + n < 2 ^ 63"
  shows "LocateIter (NewIndex 0 ls) \<lparr>ex_Start = a, ex_Length = n\<rparr> = walk 0 ls a n"
proof -
  let ?idx = "NewIndex 0 ls"
  define f where "f = search_from ?idx a 0 (length ls)"
  have pos: "\<forall>l \<in> set ls. 0 \<le> l" using lens by (simp add: within64_def)
  have "i64 (a + 1) = a + 1" using a n an by (intro i64_nonneg) linarith+
  then have spec: "f \<le> length ls" "\<forall>x < f. Extent_End (?idx ! x) \<le> a"
    "\<forall>x. f \<le> x \<longrightarrow> x < length ls \<longrightarrow> a < Extent_End (?idx ! x)"
    using search_from_spec [of 0 "length ls" ?idx a] pos
    by (auto simp: f_def NewIndex_End [OF lens] intro: sum_take_mono)
  let ?b = "a - sum_list (take f ls)"
  have skip: "walk 0 ls a n = walk f (drop f ls) ?b n"
    using walk_skip [of f ls a 0 n] spec(1,2) by (simp add: NewIndex_End [OF lens])
  show ?thesis
  proof (cases "f = length ls")
    case True
    then show ?thesis using skip by (simp add: LocateIter_def flip: f_def)
  next
    case False
    then have f: "f < length ls" using spec(1) by simp
    then obtain l rest where d: "drop f ls = l # rest" by (metis Cons_nth_drop_Suc)
    then have lf: "ls ! f = l" by (metis f hd_drop_conv_nth list.sel(1))
    let ?s = "sum_list (take f ls)"
    have di: "drop f ?idx = NewIndex ?s (l # rest)" "within64 ?s (l # rest)"
      using drop_NewIndex [OF lens, of f] spec(1) by (simp_all add: d)
    note st = within64_step [OF di(2)]
    have b: "0 \<le> ?b" "?b < l"
      using spec f a lf NewIndex_End [OF lens, of "f - 1"] NewIndex_End [OF lens f]
      by (cases f; force simp: take_Suc_conv_app_nth)+
    have small: "?b + n < 2 ^ 63" using an within64_le [OF di(2)] by linarith
    let ?m = "min (l - ?b) n"
    have m: "min l (?b + n) - ?b = ?m" "0 < ?m" "?m < 2 ^ 63" "0 \<le> n - ?m" "n - ?m < 2 ^ 63" using b n st an a by auto
    have i: "i64 l = l" "i64 ?b = ?b" "i64 (?b + n) = ?b + n" "i64 ?m = ?m" "i64 (n - ?m) = n - ?m" "i64 (?b - l) = ?b - l"
      using b n st m small by (auto intro!: i64_fits simp: fits64_def)
    have "scanConsecutive False (iterSegments None (drop f ?idx)) \<lparr>ex_Start = ?b, ex_Length = n\<rparr> =
        \<lparr>ex_Start = ?b, ex_Length = ?m\<rparr> #
        scanConsecutive True (iterSegments (Some (?s + l)) (NewIndex (?s + l) rest)) \<lparr>ex_Start = 0, ex_Length = n - ?m\<rparr>"
      using b n m st i unfolding di(1) by (simp add: Let_def Extent_End_def)
    then show ?thesis
      using skip b d f False n i m(4,5) st scan_contiguous [of "n - ?m" "?s + l" rest "Suc f"]
      by (simp add: LocateIter_def NewIndex_nth [OF lens] Let_def flip: f_def)
  qed
qed

text \<open>Whatever the range, also one that wraps, the indices are those of segments.\<close>

lemma length_iterSegments [simp]: "length (iterSegments le segs) = length segs"
  by (induction le segs rule: iterSegments.induct) auto

lemma length_scanConsecutive: "length (scanConsecutive b hay needle) \<le> length hay"
proof (induction b hay needle rule: scanConsecutive.induct)
  case (2 b l hay needle)
  then show ?case by (auto simp: Let_def) (meson le_SucI)+
qed simp

lemma search_from_le: "i \<le> j \<Longrightarrow> search_from segs t i j \<le> j"
proof (induction segs t i j rule: search_from.induct)
  case (1 segs t i j)
  then show ?case by (subst search_from.simps) (fastforce simp: Let_def intro: order_trans)
qed

lemma LocateIter_index:
  assumes "(i, e) \<in> set (LocateIter segs ext)"
  shows "i < length segs"
proof -
  define f where "f = search_from segs (ex_Start ext) 0 (length segs)"
  have f: "f \<le> length segs" unfolding f_def by (rule search_from_le) simp
  have "i < f + length (scanConsecutive False (iterSegments None (drop f segs)) needle) \<Longrightarrow> i < length segs" for needle
    using length_scanConsecutive [of False "iterSegments None (drop f segs)" needle] f by simp
  then show ?thesis using assms
    unfolding LocateIter_def f_def [symmetric] Let_def in_set_enumerate_eq
    by (auto simp: in_set_enumerate_eq add.commute split: if_splits)
qed

section \<open>What the located extents hold\<close>

text \<open>\<open>xs[a:a+n]\<close>, and \<open>xs\<close> with \<open>p\<close> written over it at \<open>a\<close>.\<close>

definition slice :: "int \<Rightarrow> int \<Rightarrow> 'a list \<Rightarrow> 'a list" where
  "slice a n xs = take (nat n) (drop (nat a) xs)"

definition overwrite :: "int \<Rightarrow> 'a list \<Rightarrow> 'a list \<Rightarrow> 'a list" where
  "overwrite a p xs = take (nat a) xs @ p @ drop (nat a + length p) xs"

abbreviation lens :: "'a list list \<Rightarrow> int list" where
  "lens files \<equiv> map (\<lambda>f. int (length f)) files"

lemma length_overwrite: "0 \<le> a \<Longrightarrow> a + int (length p) \<le> int (length xs) \<Longrightarrow> length (overwrite a p xs) = length xs"
  by (simp add: overwrite_def)

lemma overwrite_Nil [simp]: "overwrite a [] xs = xs"
  by (simp add: overwrite_def)

lemma slice_overwrite:
  "0 \<le> a \<Longrightarrow> a \<le> int (length xs) \<Longrightarrow> slice a (int (length p)) (overwrite a p xs) = p"
  by (simp add: slice_def overwrite_def)

text \<open>Reading: the slices in the order of the walk are the slice of the whole.\<close>

definition gather :: "nat \<Rightarrow> 'a list list \<Rightarrow> (nat \<times> Extent) list \<Rightarrow> 'a list" where
  "gather k files es = concat (map (\<lambda>(i, e). slice (ex_Start e) (ex_Length e) (files ! (i - k))) es)"

lemma walk_on_ge: "(i, e) \<in> set (walk_on k ls n) \<Longrightarrow> k \<le> i"
  by (induction k ls n rule: walk_on.induct) (auto split: if_splits)

lemma walk_ge: "(i, e) \<in> set (walk k ls a n) \<Longrightarrow> k \<le> i"
  by (induction k ls a n rule: walk.induct) (auto split: if_splits dest: walk_on_ge)

lemma gather_Suc:
  "(\<And>i e. (i, e) \<in> set es \<Longrightarrow> Suc k \<le> i) \<Longrightarrow>
    gather k (f # fs) es = gather (Suc k) fs es"
proof -
  assume ge: "\<And>i e. (i, e) \<in> set es \<Longrightarrow> Suc k \<le> i"
  have "(f # fs) ! (i - k) = fs ! (i - Suc k)" if "(i, e) \<in> set es" for i e
    using ge [OF that] by (simp add: Suc_diff_Suc nth_Cons')
  then show ?thesis
    unfolding gather_def by (intro arg_cong [where f = concat] map_cong) auto
qed

lemma gather_walk_on:
  assumes "0 \<le> n"
  shows "gather k files (walk_on k (lens files) n) = take (nat n) (concat files)"
  using assms
proof (induction files arbitrary: k n)
  case (Cons f fs)
  let ?m = "min (int (length f)) n"
  have "gather k (f # fs) (walk_on (Suc k) (lens fs) (n - ?m)) = take (nat (n - ?m)) (concat fs)"
    using Cons by (subst gather_Suc) (auto dest: walk_on_ge)
  then show ?case using Cons.prems
    by (auto simp: gather_def slice_def nat_diff_distrib min_def)
qed (simp add: gather_def)

lemma gather_walk:
  assumes "0 \<le> a" "0 \<le> n"
  shows "gather k files (walk k (lens files) a n) = slice a n (concat files)"
  using assms
proof (induction files arbitrary: k a)
  case (Cons f fs)
  show ?case
  proof (cases "int (length f) \<le> a")
    case True
    have "gather k (f # fs) (walk (Suc k) (lens fs) (a - int (length f)) n) = slice (a - int (length f)) n (concat fs)"
      using Cons True by (subst gather_Suc) (auto dest: walk_ge)
    then show ?thesis using True Cons.prems by (simp add: slice_def nat_diff_distrib)
  next
    case False
    let ?m = "min (int (length f) - a) n"
    have "gather k (f # fs) (walk_on (Suc k) (lens fs) (n - ?m)) = take (nat (n - ?m)) (concat fs)"
      using Cons.prems by (subst gather_Suc) (auto simp: gather_walk_on dest: walk_on_ge)
    then show ?thesis using False Cons.prems
      by (auto simp: gather_def slice_def nat_diff_distrib min_def)
  qed
qed (simp add: gather_def slice_def)


text \<open>Writing: \<open>p\<close> dealt out to the extents overwrites the range of the whole.\<close>

fun deal :: "(nat \<times> Extent) list \<Rightarrow> 'a list \<Rightarrow> 'a list list \<Rightarrow> 'a list list" where
  "deal [] p files = files"
| "deal ((i, e) # es) p files =
     deal es (drop (nat (ex_Length e)) p)
       (files[i := overwrite (ex_Start e) (take (nat (ex_Length e)) p) (files ! i)])"

lemma take_drop_append: "take k p @ drop k p @ r = p @ r"
  by (metis append.assoc append_take_drop_id)

lemma deal_walk_on:
  assumes "length p \<le> length (concat rest)"
  shows "\<exists>rest'. deal (walk_on (length pre) (lens rest) (int (length p))) p (pre @ rest) = pre @ rest' \<and>
    lens rest' = lens rest \<and> concat rest' = overwrite 0 p (concat rest)"
  using assms
proof (induction rest arbitrary: pre p)
  case (Cons f fs)
  let ?m = "min (length f) (length p)"
  let ?g = "overwrite 0 (take ?m p) f"
  show ?case
  proof (cases "p = []")
    case False
    have m: "min (int (length f)) (int (length p)) = int ?m" by simp
    have "length (drop ?m p) \<le> length (concat fs)" using Cons.prems by auto
    from Cons.IH [OF this, of "pre @ [?g]"] obtain fs' where fs':
      "deal (walk_on (Suc (length pre)) (lens fs) (int (length (drop ?m p)))) (drop ?m p) (pre @ ?g # fs) = pre @ ?g # fs'"
      "lens fs' = lens fs" "concat fs' = overwrite 0 (drop ?m p) (concat fs)"
      by auto
    have "int (length p) - int ?m = int (length (drop ?m p))" by (simp add: of_nat_diff)
    then have "deal (walk_on (length pre) (lens (f # fs)) (int (length p))) p (pre @ f # fs) = pre @ ?g # fs'"
      using False fs'(1) m by simp
    moreover have "length ?g = length f" by (simp add: overwrite_def)
    moreover have "concat (?g # fs') = overwrite 0 p (concat (f # fs))"
      using fs'(3) by (auto simp: overwrite_def min_def)
    ultimately show ?thesis using fs'(2) by (intro exI [of _ "?g # fs'"]) simp
  qed (auto intro: exI [of _ "f # fs"])
qed simp

lemma deal_walk:
  assumes "0 \<le> a" "a + int (length p) \<le> int (length (concat rest))"
  shows "\<exists>rest'. deal (walk (length pre) (lens rest) a (int (length p))) p (pre @ rest) = pre @ rest' \<and>
    lens rest' = lens rest \<and> concat rest' = overwrite a p (concat rest)"
  using assms
proof (induction rest arbitrary: pre a)
  case (Cons f fs)
  show ?case
  proof (cases "int (length f) \<le> a")
    case True
    obtain fs' where "deal (walk (Suc (length pre)) (lens fs) (a - int (length f)) (int (length p))) p (pre @ f # fs) =
      pre @ f # fs'" "lens fs' = lens fs" "concat fs' = overwrite (a - int (length f)) p (concat fs)"
      using Cons.IH [of "a - int (length f)" "pre @ [f]"] Cons.prems True by auto
    with True Cons.prems show ?thesis
      by (intro exI [of _ "f # fs'"]) (auto simp: overwrite_def nat_diff_distrib nat_le_iff le_nat_iff)
  next
    case False
    define b where "b = nat a"
    have b: "a = int b" "b < length f" using False Cons.prems by (auto simp: b_def)
    let ?m = "min (length f - b) (length p)"
    let ?g = "overwrite a (take ?m p) f"
    have m: "min (int (length f) - a) (int (length p)) = int ?m" using b by (simp add: of_nat_diff)
    have "length (drop ?m p) \<le> length (concat fs)" using Cons.prems b by auto
    from deal_walk_on [OF this, of "pre @ [?g]"] obtain fs' where fs':
      "deal (walk_on (Suc (length pre)) (lens fs) (int (length (drop ?m p)))) (drop ?m p) (pre @ ?g # fs) = pre @ ?g # fs'"
      "lens fs' = lens fs" "concat fs' = overwrite 0 (drop ?m p) (concat fs)"
      by auto
    have "int (length p) - int ?m = int (length (drop ?m p))" by (simp add: of_nat_diff)
    then have "deal (walk (length pre) (lens (f # fs)) a (int (length p))) p (pre @ f # fs) = pre @ ?g # fs'"
      using False fs'(1) m by simp
    moreover have "length ?g = length f" using b by (auto simp: overwrite_def)
    moreover have "concat (?g # fs') = overwrite a p (concat (f # fs))"
      using fs'(3) b by (auto simp: overwrite_def min_def add.commute take_drop_append)
    ultimately show ?thesis using fs'(2) by (intro exI [of _ "?g # fs'"]) simp
  qed
next
  case Nil
  then show ?case by (cases p) auto
qed

lemma walk_on_bounds:
  assumes "(i, e) \<in> set (walk_on k ls n)" "0 \<le> n" "\<forall>l \<in> set ls. 0 \<le> l"
  shows "k \<le> i \<and> i < k + length ls \<and> 0 \<le> ex_Start e \<and> 0 \<le> ex_Length e \<and> ex_Start e + ex_Length e \<le> ls ! (i - k)"
  using assms
proof (induction ls arbitrary: k n)
  case (Cons l ls)
  show ?case
  proof (cases "(i, e) \<in> set (walk_on (Suc k) ls (n - min l n))")
    case True
    with Cons.IH [OF True] Cons.prems show ?thesis by (auto simp: nth_Cons')
  next
    case False
    with Cons.prems show ?thesis by (auto simp: Extent_End_def split: if_splits)
  qed
qed simp

lemma walk_bounds:
  assumes "(i, e) \<in> set (walk k ls a n)" "0 \<le> a" "0 \<le> n" "\<forall>l \<in> set ls. 0 \<le> l"
  shows "k \<le> i \<and> i < k + length ls \<and> 0 \<le> ex_Start e \<and> 0 \<le> ex_Length e \<and> ex_Start e + ex_Length e \<le> ls ! (i - k)"
  using assms
proof (induction ls arbitrary: k a)
  case (Cons l ls)
  show ?case
  proof (cases "l \<le> a")
    case True
    with Cons.IH [of "Suc k" "a - l"] Cons.prems show ?thesis by (auto simp: nth_Cons')
  next
    case False
    show ?thesis
    proof (cases "(i, e) \<in> set (walk_on (Suc k) ls (n - min (l - a) n))")
      case True
      with walk_on_bounds [OF True] Cons.prems show ?thesis by (auto simp: nth_Cons')
    next
      case False
      with \<open>\<not> l \<le> a\<close> Cons.prems show ?thesis by (auto simp: Extent_End_def split: if_splits)
    qed
  qed
qed simp

text \<open>The extents of a range that lies within the files add up to it.\<close>

lemma walk_on_total:
  "0 \<le> n \<Longrightarrow> n \<le> sum_list ls \<Longrightarrow> \<forall>l \<in> set ls. 0 \<le> l \<Longrightarrow>
    sum_list (map (\<lambda>(i, e). ex_Length e) (walk_on k ls n)) = n"
proof (induction ls arbitrary: k n)
  case (Cons l ls)
  have "0 \<le> n - min l n" "n - min l n \<le> sum_list ls"
    using Cons.prems by (auto simp: min_def intro: sum_list_nonneg)
  with Cons.IH [of "n - min l n" "Suc k"] Cons.prems show ?case by simp
qed simp

lemma walk_total:
  "0 \<le> a \<Longrightarrow> 0 \<le> n \<Longrightarrow> a + n \<le> sum_list ls \<Longrightarrow> \<forall>l \<in> set ls. 0 \<le> l \<Longrightarrow>
    sum_list (map (\<lambda>(i, e). ex_Length e) (walk k ls a n)) = n"
proof (induction ls arbitrary: k a)
  case (Cons l ls)
  have "n - min (l - a) n \<le> sum_list ls" using Cons.prems by (auto simp: min_def intro: sum_list_nonneg)
  with Cons walk_on_total [of "n - min (l - a) n" ls "Suc k"] show ?case by auto
qed simp

lemma FileSegmentsIndex_v1:
  assumes "\<not> HasV2 info"
  shows "FileSegmentsIndex info = NewIndex 0 (map fi_Length (UpvertedFiles info))"
proof -
  have "map (\<lambda>fi. \<lparr>ex_Start = fi_TorrentOffset fi, ex_Length = fi_Length fi\<rparr>) (with_offsets s fs) =
      NewIndex s (map fi_Length (with_offsets s fs))" for s fs
    by (induction s fs rule: with_offsets.induct) auto
  then show ?thesis using assms
    by (simp add: FileSegmentsIndex_def UpvertedFiles_def UpvertedV1Files_def)
qed


lemma walk_on_distinct: "distinct (map fst (walk_on k ls n))"
proof (induction ls arbitrary: k n)
  case (Cons l ls)
  then show ?case by (auto dest: walk_on_ge)
qed simp

lemma walk_distinct: "distinct (map fst (walk k ls a n))"
proof (induction ls arbitrary: k a)
  case (Cons l ls)
  then show ?case using walk_on_distinct by (auto dest: walk_on_ge)
qed simp

end
