(* ===== verification/FileIo.thy ===== *)
theory FileIo
  imports Segments
begin

text \<open>
  Files as the torrent library's storage uses them
  (\<open>licenses/github.com/anacrolix/torrent/storage/\<close>): the operating system's files, and the two
  implementations of the interface \<open>fileIo\<close> (\<open>file-io.go\<close>), the classic one (\<open>file-io-classic.go\<close>) and the one
  over memory maps (\<open>file-io-mmap.go\<close>) that is the default.

  \<^item> A disk maps names to files and files to their bytes, so that a handle keeps its file when the
    name is moved. What the environment refuses (an I/O error, a full disk, a name that is not a
    regular file) is the field \<open>d_refuses\<close>, for each operation and name.
  \<^item> The calls run one after another: the storage holds its locks over each of them.
  \<^item> \<open>mmap.Map\<close> of the mmap package is a parameter: given the size of the file it fails or maps the whole
    file. A mapping is shared, so that it shows what is written to the file.
  \<^item> The locale \<open>file_io\<close> is what the storage relies on; both implementations satisfy it.
\<close>

section \<open>The operating system's files\<close>

datatype fsop = OpStat | OpOpen | OpOpenFile | OpMkdirAll | OpChmod | OpRename
  | OpTruncate | OpReadAt | OpWriteAt | OpSync

record inode =
  in_data :: string
  in_writable :: bool

record disk =
  d_names :: "string \<Rightarrow> nat option"
  d_nodes :: "nat \<Rightarrow> inode"
  d_next :: nat
  d_dirs :: "string \<Rightarrow> bool"
  d_refuses :: "fsop \<Rightarrow> string \<Rightarrow> go_error option"

definition path_error :: "string \<Rightarrow> string \<Rightarrow> sentinel \<Rightarrow> go_error" where
  "path_error what name s = Errorf (what @ '' '' @ name @ '': '') (Sentinel s) []"

text \<open>\<open>filepath.Dir\<close>, and a directory with all its parents.\<close>

definition path_Dir :: "string \<Rightarrow> string" where
  "path_Dir p = Clean (rev (dropWhile (\<lambda>c. c \<noteq> slash) (rev p)))"

definition dir_chain :: "string \<Rightarrow> string list" where
  "dir_chain d = map (\<lambda>k. render_path (is_abs d) (take k (clean_comps d))) [0..<Suc (length (clean_comps d))]"

definition zeros :: "nat \<Rightarrow> string" where
  "zeros n = replicate n (CHR 0x00)"

text \<open>A file cut or extended with zeros to a size.\<close>

definition resize :: "nat \<Rightarrow> string \<Rightarrow> string" where
  "resize n x = take n x @ zeros (n - length x)"

definition set_data :: "nat \<Rightarrow> string \<Rightarrow> 'm disk_scheme \<Rightarrow> 'm disk_scheme" where
  "set_data i x d = d\<lparr>d_nodes := (d_nodes d)(i := (d_nodes d i)\<lparr>in_data := x\<rparr>)\<rparr>"

definition os_Stat :: "string \<Rightarrow> 'm disk_scheme \<Rightarrow> int res" where
  "os_Stat name d =
     (case d_refuses d OpStat name of
        Some e \<Rightarrow> Err e
      | None \<Rightarrow>
          (case d_names d name of
             None \<Rightarrow> Err (path_error ''stat'' name FsNotExist)
           | Some i \<Rightarrow> Ok (int (length (in_data (d_nodes d i))))))"

definition os_Open :: "string \<Rightarrow> 'm disk_scheme \<Rightarrow> nat res" where
  "os_Open name d =
     (case d_refuses d OpOpen name of
        Some e \<Rightarrow> Err e
      | None \<Rightarrow>
          (case d_names d name of
             None \<Rightarrow> Err (path_error ''open'' name FsNotExist)
           | Some i \<Rightarrow> Ok i))"

text \<open>\<open>os.OpenFile\<close> for writing, with the flags \<open>O_CREATE\<close> and \<open>O_TRUNC\<close>.\<close>

definition os_OpenFile :: "bool \<Rightarrow> bool \<Rightarrow> string \<Rightarrow> 'm disk_scheme \<Rightarrow> nat res \<times> 'm disk_scheme" where
  "os_OpenFile creat trunc name d =
     (case d_refuses d OpOpenFile name of
        Some e \<Rightarrow> (Err e, d)
      | None \<Rightarrow>
          (case d_names d name of
             Some i \<Rightarrow>
               if in_writable (d_nodes d i) then (Ok i, if trunc then set_data i [] d else d)
               else (Err (path_error ''open'' name FsPermission), d)
           | None \<Rightarrow>
               if d_dirs d name then (Err (Errorf (''open '' @ name @ '': '') (ErrorString ''is a directory'') []), d)
               else if creat \<and> d_dirs d (path_Dir name) then
                 (Ok (d_next d),
                  d\<lparr>d_names := (d_names d)(name \<mapsto> d_next d),
                    d_nodes := (d_nodes d)(d_next d := \<lparr>in_data = [], in_writable = True\<rparr>),
                    d_next := Suc (d_next d)\<rparr>)
               else (Err (path_error ''open'' name FsNotExist), d)))"

definition os_MkdirAll :: "string \<Rightarrow> 'm disk_scheme \<Rightarrow> unit res \<times> 'm disk_scheme" where
  "os_MkdirAll dir d =
     (case d_refuses d OpMkdirAll dir of
        Some e \<Rightarrow> (Err e, d)
      | None \<Rightarrow>
          if list_ex (\<lambda>p. d_names d p \<noteq> None) (dir_chain dir)
          then (Err (Errorf (''mkdir '' @ dir @ '': '') (ErrorString ''not a directory'') []), d)
          else (Ok (), d\<lparr>d_dirs := \<lambda>p. d_dirs d p \<or> p \<in> set (dir_chain dir)\<rparr>))"

text \<open>\<open>os.Chmod\<close> to \<open>filePerm\<close> or to \<open>filePerm &^ 0o222\<close>.\<close>

definition os_Chmod :: "string \<Rightarrow> bool \<Rightarrow> 'm disk_scheme \<Rightarrow> unit res \<times> 'm disk_scheme" where
  "os_Chmod name writable d =
     (case d_refuses d OpChmod name of
        Some e \<Rightarrow> (Err e, d)
      | None \<Rightarrow>
          (case d_names d name of
             None \<Rightarrow> (Err (path_error ''chmod'' name FsNotExist), d)
           | Some i \<Rightarrow> (Ok (), d\<lparr>d_nodes := (d_nodes d)(i := (d_nodes d i)\<lparr>in_writable := writable\<rparr>)\<rparr>)))"

definition os_Rename :: "string \<Rightarrow> string \<Rightarrow> 'm disk_scheme \<Rightarrow> unit res \<times> 'm disk_scheme" where
  "os_Rename old new d =
     (case d_refuses d OpRename old of
        Some e \<Rightarrow> (Err e, d)
      | None \<Rightarrow>
          (case d_names d old of
             None \<Rightarrow> (Err (path_error ''rename'' old FsNotExist), d)
           | Some i \<Rightarrow> (Ok (), d\<lparr>d_names := (d_names d)(old := None, new \<mapsto> i)\<rparr>)))"

definition os_Truncate :: "string \<Rightarrow> nat \<Rightarrow> int \<Rightarrow> 'm disk_scheme \<Rightarrow> unit res \<times> 'm disk_scheme" where
  "os_Truncate name i sz d =
     (case d_refuses d OpTruncate name of
        Some e \<Rightarrow> (Err e, d)
      | None \<Rightarrow>
          if sz < 0 then (Err (path_error ''truncate'' name FsInvalid), d)
          else (Ok (), set_data i (resize (nat sz) (in_data (d_nodes d i))) d))"

text \<open>\<open>(*os.File).ReadAt\<close> reads until the buffer is full or the file ends; \<open>WriteAt\<close> fills a gap behind the
  end with zeros. Both give what was read or written and the error beside it.\<close>

definition os_ReadAt :: "string \<Rightarrow> nat \<Rightarrow> nat \<Rightarrow> int \<Rightarrow> 'm disk_scheme \<Rightarrow> string \<times> go_error option" where
  "os_ReadAt name i n off d =
     (if off < 0 then ([], Some (Errorf (''readat '' @ name @ '': '') (ErrorString ''negative offset'') []))
      else
        (case d_refuses d OpReadAt name of
           Some e \<Rightarrow> ([], Some e)
         | None \<Rightarrow>
             (let b = slice off (int n) (in_data (d_nodes d i)) in
              (b, if length b < n then Some (Sentinel IoEOF) else None))))"

definition os_WriteAt :: "string \<Rightarrow> nat \<Rightarrow> string \<Rightarrow> int \<Rightarrow> 'm disk_scheme \<Rightarrow> (nat \<times> go_error option) \<times> 'm disk_scheme" where
  "os_WriteAt name i p off d =
     (if off < 0 then ((0, Some (Errorf (''writeat '' @ name @ '': '') (ErrorString ''negative offset'') [])), d)
      else
        (case d_refuses d OpWriteAt name of
           Some e \<Rightarrow> ((0, Some e), d)
         | None \<Rightarrow>
             (let x = in_data (d_nodes d i) in
              ((length p, None),
               if p = [] then d
               else set_data i (overwrite off p (x @ zeros (nat off + length p - length x))) d))))"

definition os_Sync :: "string \<Rightarrow> 'm disk_scheme \<Rightarrow> unit res" where
  "os_Sync name d = (case d_refuses d OpSync name of Some e \<Rightarrow> Err e | None \<Rightarrow> Ok ())"

section \<open>The interface\<close>

text \<open>An open file: an \<open>*os.File\<close>, or a \<open>mmapSharedFileHandle\<close> by the address of its \<open>fileMmap\<close>.\<close>

datatype handle = OsFile string nat | Mapped nat

record 's fileIo =
  openForSharedRead :: "string \<Rightarrow> 's \<Rightarrow> handle res \<times> 's"
  openForWrite :: "string \<Rightarrow> int \<Rightarrow> 's \<Rightarrow> handle res \<times> 's"
  h_ReadAt :: "handle \<Rightarrow> nat \<Rightarrow> int \<Rightarrow> 's \<Rightarrow> (string \<times> go_error option) res"
  h_WriteAt :: "handle \<Rightarrow> string \<Rightarrow> int \<Rightarrow> 's \<Rightarrow> (nat \<times> go_error option) \<times> 's"
  h_Close :: "handle \<Rightarrow> 's \<Rightarrow> unit res \<times> 's"
  io_flush :: "string \<Rightarrow> int \<Rightarrow> int \<Rightarrow> 's \<Rightarrow> unit res \<times> 's"
  io_rename :: "string \<Rightarrow> string \<Rightarrow> 's \<Rightarrow> unit res \<times> 's"

text \<open>\<open>openFileExtra\<close> (\<open>file-io-common.go\<close>): creates the directories or makes the file writable, and
  tries once more.\<close>

definition openFileExtra :: "string \<Rightarrow> 'm disk_scheme \<Rightarrow> nat res \<times> 'm disk_scheme" where
  "openFileExtra p d =
     call (os_OpenFile True False p d)
       (\<lambda>i d. (Ok i, d))
       (\<lambda>err d.
          if errors_is err FsNotExist then
            call (os_MkdirAll (path_Dir p) d) (\<lambda>_ d. os_OpenFile True False p d) (\<lambda>err d. (Err err, d))
          else if errors_is err FsPermission then
            call (os_Chmod p True d) (\<lambda>_ d. os_OpenFile True False p d) (\<lambda>err d. (Err err, d))
          else (Err err, d))"

text \<open>\<open>fsync\<close> (\<open>file-misc.go\<close>).\<close>

definition fsync :: "string \<Rightarrow> 'm disk_scheme \<Rightarrow> unit res \<times> 'm disk_scheme" where
  "fsync name d =
     call (os_OpenFile False False name d) (\<lambda>i d. (os_Sync name d, d)) (\<lambda>err d. (Err err, d))"

section \<open>The classic implementation\<close>

definition classic_rename :: "string \<Rightarrow> string \<Rightarrow> 'm disk_scheme \<Rightarrow> unit res \<times> 'm disk_scheme" where
  "classic_rename src dst d = call (os_Rename src dst d) (\<lambda>_ d. (Ok (), d)) (\<lambda>c d. (Err (Joined [c]), d))"

definition classic_open_read :: "string \<Rightarrow> 'm disk_scheme \<Rightarrow> handle res \<times> 'm disk_scheme" where
  "classic_open_read name d = call (os_Open name d, d) (\<lambda>i d. (Ok (OsFile name i), d)) (\<lambda>e d. (Err e, d))"

definition classic_open_write :: "string \<Rightarrow> int \<Rightarrow> 'm disk_scheme \<Rightarrow> handle res \<times> 'm disk_scheme" where
  "classic_open_write p sz d = call (openFileExtra p d) (\<lambda>i d. (Ok (OsFile p i), d)) (\<lambda>e d. (Err e, d))"

definition classicFileIo :: "'m disk_scheme fileIo" where
  "classicFileIo =
     \<lparr>openForSharedRead = classic_open_read,
      openForWrite = classic_open_write,
      h_ReadAt = (\<lambda>h n off d. case h of OsFile name i \<Rightarrow> Ok (os_ReadAt name i n off d) | Mapped a \<Rightarrow> Panic ''type''),
      h_WriteAt = (\<lambda>h p off d. case h of OsFile name i \<Rightarrow> os_WriteAt name i p off d
                                 | Mapped a \<Rightarrow> ((0, Some (Sentinel FsInvalid)), d)),
      h_Close = (\<lambda>h d. (Ok (), d)),
      io_flush = (\<lambda>name offset nbytes d. fsync name d),
      io_rename = classic_rename\<rparr>"

section \<open>The implementation over memory maps\<close>

text \<open>\<open>fileMmap\<close>: the mapping shows the first \<open>mm_len\<close> bytes of the file; \<open>Unmap\<close> leaves a nil mapping, of length
  zero. The heap of them is \<open>mm_objs\<close>, \<open>mm_paths\<close> is the map of the store.\<close>

record fileMmap =
  mm_name :: string
  mm_node :: nat
  mm_len :: nat
  mm_refs :: int
  mm_writable :: bool

record mmap_disk = disk +
  mm_paths :: "string \<Rightarrow> nat option"
  mm_objs :: "fileMmap list"

definition mm_set :: "nat \<Rightarrow> fileMmap \<Rightarrow> 'm mmap_disk_scheme \<Rightarrow> 'm mmap_disk_scheme" where
  "mm_set a v d = d\<lparr>mm_objs := (mm_objs d)[a := v]\<rparr>"

definition mm_close :: "nat \<Rightarrow> 'm mmap_disk_scheme \<Rightarrow> 'm mmap_disk_scheme" where
  "mm_close a d = mm_set a ((mm_objs d ! a)\<lparr>mm_len := 0\<rparr>) d"

definition mm_inc :: "nat \<Rightarrow> 'm mmap_disk_scheme \<Rightarrow> unit res \<times> 'm mmap_disk_scheme" where
  "mm_inc a d =
     (let r = mm_refs (mm_objs d ! a) + 1; d' = mm_set a ((mm_objs d ! a)\<lparr>mm_refs := r\<rparr>) d in
      if r \<le> 0 then (Panic ''LessThanOrEqual'', d') else (Ok (), d'))"

definition mm_dec :: "nat \<Rightarrow> 'm mmap_disk_scheme \<Rightarrow> 'm mmap_disk_scheme" where
  "mm_dec a d =
     (let r = mm_refs (mm_objs d ! a) - 1; d' = mm_set a ((mm_objs d ! a)\<lparr>mm_refs := r\<rparr>) d in
      if r = 0 then mm_close a d' else d')"

text \<open>\<open>close\<close> of the store.\<close>

definition mm_drop :: "string \<Rightarrow> 'm mmap_disk_scheme \<Rightarrow> 'm mmap_disk_scheme" where
  "mm_drop name d =
     (case mm_paths d name of
        None \<Rightarrow> d
      | Some a \<Rightarrow> (mm_close a d)\<lparr>mm_paths := (mm_paths d)(name := None)\<rparr>)"

definition mmap_rename :: "string \<Rightarrow> string \<Rightarrow> 'm mmap_disk_scheme \<Rightarrow> unit res \<times> 'm mmap_disk_scheme" where
  "mmap_rename src dst d = os_Rename src dst (mm_drop dst (mm_drop src d))"

text \<open>\<open>msync\<close> slices the mapping, which panics when it is shorter.\<close>

definition mmap_flush :: "string \<Rightarrow> int \<Rightarrow> int \<Rightarrow> 'm mmap_disk_scheme \<Rightarrow> unit res \<times> 'm mmap_disk_scheme" where
  "mmap_flush name offset nbytes d =
     (case mm_paths d name of
        None \<Rightarrow> (Ok (), d)
      | Some a \<Rightarrow>
          if \<not> mm_writable (mm_objs d ! a) then (Ok (), d)
          else if offset < 0 \<or> nbytes < 0 \<or> int (mm_len (mm_objs d ! a)) < offset + nbytes
          then (Panic ''slice bounds out of range'', d)
          else (os_Sync name d, d))"

definition addNewMmap :: "string \<Rightarrow> nat \<Rightarrow> nat \<Rightarrow> bool \<Rightarrow> 'm mmap_disk_scheme \<Rightarrow> nat res \<times> 'm mmap_disk_scheme" where
  "addNewMmap name i len writable d =
     (let a = length (mm_objs d) in
      if mm_paths d name \<noteq> None then (Panic ''MapMustAssignNew'', d)
      else (Ok a, d\<lparr>mm_objs := mm_objs d @
                    [\<lparr>mm_name = name, mm_node = i, mm_len = len, mm_refs = 1, mm_writable = writable\<rparr>],
                    mm_paths := (mm_paths d)(name \<mapsto> a)\<rparr>))"

definition newMmapFile :: "nat \<Rightarrow> 'm mmap_disk_scheme \<Rightarrow> handle res \<times> 'm mmap_disk_scheme" where
  "newMmapFile a d = call (mm_inc a d) (\<lambda>_ d. (Ok (Mapped a), d)) (\<lambda>e d. (Err e, d))"

type_synonym mapper = "string \<Rightarrow> nat \<Rightarrow> go_error option"

definition openReadOnly :: "mapper \<Rightarrow> string \<Rightarrow> 'm mmap_disk_scheme \<Rightarrow> handle res \<times> 'm mmap_disk_scheme" where
  "openReadOnly Map name d =
     (case mm_paths d name of
        Some a \<Rightarrow> newMmapFile a d
      | None \<Rightarrow>
          call (os_Open name d, d)
            (\<lambda>i d.
               let size = length (in_data (d_nodes d i)) in
               case Map name size of
                 Some err \<Rightarrow> (Err (Errorf ''mapping file: '' err []), d)
               | None \<Rightarrow> call (addNewMmap name i size False d) newMmapFile (\<lambda>e d. (Err e, d)))
            (\<lambda>e d. (Err e, d)))"

definition mmap_open_write :: "mapper \<Rightarrow> string \<Rightarrow> int \<Rightarrow> 'm mmap_disk_scheme \<Rightarrow> handle res \<times> 'm mmap_disk_scheme" where
  "mmap_open_write Map name sz d =
     (let fresh = (\<lambda>d.
        call (openFileExtra name d)
          (\<lambda>i d.
             call (os_Truncate name i sz d)
               (\<lambda>_ d.
                  let len = length (in_data (d_nodes d i)) in
                  case Map name len of
                    Some err \<Rightarrow> (Err err, d)
                  | None \<Rightarrow>
                      if int len \<noteq> sz
                      then (Err (ErrorString (''new mmap has wrong size '' @ int_dec (int len) @ '', expected '' @ int_dec sz)), d)
                      else call (addNewMmap name i len True d) newMmapFile (\<lambda>e d. (Err e, d)))
               (\<lambda>err d. (Err (Errorf ''error truncating file: '' err []), d)))
          (\<lambda>err d. (Err err, d))) in
      case mm_paths d name of
        Some a \<Rightarrow>
          if int (mm_len (mm_objs d ! a)) = sz \<and> mm_writable (mm_objs d ! a) then newMmapFile a d
          else fresh ((mm_dec a d)\<lparr>mm_paths := (mm_paths d)(name := None)\<rparr>)
      | None \<Rightarrow> fresh d)"

text \<open>\<open>ReadAt\<close> copies from \<open>m[off:]\<close>, which panics when the offset lies outside the mapping.\<close>

definition mmap_ReadAt :: "nat \<Rightarrow> nat \<Rightarrow> int \<Rightarrow> 'm mmap_disk_scheme \<Rightarrow> (string \<times> go_error option) res" where
  "mmap_ReadAt a n off d =
     (let v = mm_objs d ! a; m = take (mm_len v) (in_data (d_nodes d (mm_node v))) in
      if off < 0 \<or> int (length m) < off then Panic ''slice bounds out of range''
      else
        (let b = slice off (int n) m in
         Ok (b, if off + int (length b) = int (length m) then Some (Sentinel IoEOF) else None)))"

definition mmapFileIo :: "mapper \<Rightarrow> 'm mmap_disk_scheme fileIo" where
  "mmapFileIo Map =
     \<lparr>openForSharedRead = openReadOnly Map,
      openForWrite = mmap_open_write Map,
      h_ReadAt = (\<lambda>h n off d. case h of Mapped a \<Rightarrow> mmap_ReadAt a n off d | OsFile name i \<Rightarrow> Panic ''type''),
      h_WriteAt = (\<lambda>h p off d. case h of
          Mapped a \<Rightarrow> os_WriteAt (mm_name (mm_objs d ! a)) (mm_node (mm_objs d ! a)) p off d
        | OsFile name i \<Rightarrow> ((0, Some (Sentinel FsInvalid)), d)),
      h_Close = (\<lambda>h d. case h of Mapped a \<Rightarrow> (Ok (), mm_dec a d) | OsFile name i \<Rightarrow> (Ok (), d)),
      io_flush = mmap_flush,
      io_rename = mmap_rename\<rparr>"


section \<open>What the storage relies on\<close>

definition content :: "'m disk_scheme \<Rightarrow> string \<Rightarrow> string option" where
  "content d p = map_option (\<lambda>i. in_data (d_nodes d i)) (d_names d p)"

text \<open>Every name has a file of its own, and the next file to be made is none of them.\<close>

definition disk_ok :: "'m disk_scheme \<Rightarrow> bool" where
  "disk_ok d \<longleftrightarrow> inj_on (d_names d) (dom (d_names d)) \<and> (\<forall>p i. d_names d p = Some i \<longrightarrow> i < d_next d)"

text \<open>The environment refuses nothing.\<close>

definition quiet :: "'m disk_scheme \<Rightarrow> bool" where
  "quiet d \<longleftrightarrow> (\<forall>op p. d_refuses d op p = None)"

text \<open>A file can be made at \<open>p\<close>: no directory is there, and no file is where its directories go.\<close>

definition placeable :: "'m disk_scheme \<Rightarrow> string \<Rightarrow> bool" where
  "placeable d p \<longleftrightarrow> \<not> d_dirs d p \<and> list_all (\<lambda>q. d_names d q = None \<and> q \<noteq> p) (dir_chain (path_Dir p))"

text \<open>What nothing but the named file may change.\<close>

definition view :: "'m disk_scheme \<Rightarrow> (string \<Rightarrow> string option) \<times> (string \<Rightarrow> bool) \<times> (fsop \<Rightarrow> string \<Rightarrow> go_error option)" where
  "view d = (content d, d_dirs d, d_refuses d)"

definition changed :: "string \<Rightarrow> string option \<Rightarrow> 'm disk_scheme \<Rightarrow> 'm disk_scheme \<Rightarrow> bool" where
  "changed p x d d' \<longleftrightarrow> content d' = (content d)(p := x) \<and> d_refuses d' = d_refuses d \<and>
     (\<forall>q. d_dirs d' q \<longrightarrow> d_dirs d q \<or> q \<in> set (dir_chain (path_Dir p)))"

locale file_io =
  fixes io :: "'m disk_scheme fileIo"
    and inv :: "'m disk_scheme \<Rightarrow> bool"
    and live :: "handle \<Rightarrow> string \<Rightarrow> 'm disk_scheme \<Rightarrow> bool"
    and wlive :: "handle \<Rightarrow> string \<Rightarrow> nat \<Rightarrow> 'm disk_scheme \<Rightarrow> bool"
    and openable :: "nat \<Rightarrow> bool"
  assumes inv_ok: "inv d \<Longrightarrow> disk_ok d"
    and wlive_live: "wlive h p sz d \<Longrightarrow> live h p d"
    and open_missing: "inv d \<Longrightarrow> quiet d \<Longrightarrow> content d p = None \<Longrightarrow>
      \<exists>e. openForSharedRead io p d = (Err e, d) \<and> errors_is e FsNotExist"
    and open_read: "inv d \<Longrightarrow> quiet d \<Longrightarrow> content d p = Some x \<Longrightarrow> openable (length x) \<Longrightarrow>
      \<exists>h d'. openForSharedRead io p d = (Ok h, d') \<and> inv d' \<and> live h p d' \<and> view d' = view d"
    and read_at: "inv d \<Longrightarrow> quiet d \<Longrightarrow> live h p d \<Longrightarrow> content d p = Some x \<Longrightarrow> 0 \<le> off \<Longrightarrow> off \<le> int (length x) \<Longrightarrow>
      \<exists>err. h_ReadAt io h n off d = Ok (slice off (int n) x, err) \<and>
        (length (slice off (int n) x) < n \<longrightarrow> err = Some (Sentinel IoEOF))"
    and open_write: "inv d \<Longrightarrow> quiet d \<Longrightarrow> openable sz \<Longrightarrow> content d p \<noteq> None \<or> placeable d p \<Longrightarrow>
      old = (case content d p of None \<Rightarrow> [] | Some x \<Rightarrow> x) \<Longrightarrow> length old \<le> sz \<Longrightarrow>
      \<exists>h d' y. openForWrite io p (int sz) d = (Ok h, d') \<and> inv d' \<and> wlive h p sz d' \<and> changed p (Some y) d d' \<and>
        length y \<le> sz \<and> openable (length y) \<and> resize sz y = resize sz old"
    and write_at: "inv d \<Longrightarrow> quiet d \<Longrightarrow> openable sz \<Longrightarrow> wlive h p sz d \<Longrightarrow> content d p = Some x \<Longrightarrow> length x \<le> sz \<Longrightarrow>
      0 \<le> off \<Longrightarrow> off + int (length q) \<le> int sz \<Longrightarrow>
      \<exists>d' y. h_WriteAt io h q off d = ((length q, None), d') \<and> inv d' \<and> wlive h p sz d' \<and> changed p (Some y) d d' \<and>
        length y \<le> sz \<and> openable (length y) \<and> (q \<noteq> [] \<longrightarrow> off + int (length q) \<le> int (length y)) \<and>
        resize sz y = overwrite off q (resize sz x)"
    and close: "inv d \<Longrightarrow> live h p d \<Longrightarrow> \<exists>d'. h_Close io h d = (Ok (), d') \<and> inv d' \<and> view d' = view d"
    and rename_missing: "inv d \<Longrightarrow> quiet d \<Longrightarrow> content d p = None \<Longrightarrow>
      \<exists>e d'. io_rename io p q d = (Err e, d') \<and> errors_is e FsNotExist \<and> inv d' \<and> view d' = view d"
    and rename: "inv d \<Longrightarrow> quiet d \<Longrightarrow> content d p = Some x \<Longrightarrow> p \<noteq> q \<Longrightarrow>
      \<exists>d'. io_rename io p q d = (Ok (), d') \<and> inv d' \<and> content d' = (content d)(p := None, q := Some x) \<and>
        d_dirs d' = d_dirs d \<and> d_refuses d' = d_refuses d"
    and flush: "inv d \<Longrightarrow> quiet d \<Longrightarrow> 0 \<le> off \<Longrightarrow> 0 \<le> m \<Longrightarrow>
      (\<And>x. content d p = Some x \<Longrightarrow> off + m \<le> int (length x)) \<Longrightarrow> \<exists>r. io_flush io p off m d = (r, d) \<and> returns r"
    and chmod: "inv d \<Longrightarrow> quiet d \<Longrightarrow> \<exists>r d'. os_Chmod p w d = (r, d') \<and> returns r \<and> inv d' \<and> view d' = view d"

subsection \<open>Disks\<close>

lemma quiet_simps: "quiet d \<Longrightarrow> d_refuses d op p = None"
  by (simp add: quiet_def)

lemma content_Some: "content d p = Some x \<longleftrightarrow> (\<exists>i. d_names d p = Some i \<and> x = in_data (d_nodes d i))"
  by (auto simp: content_def)

lemma content_None [simp]: "content d p = None \<longleftrightarrow> d_names d p = None"
  by (simp add: content_def)

lemma set_data_simps [simp]:
  "d_names (set_data i x d) = d_names d" "d_next (set_data i x d) = d_next d"
  "d_dirs (set_data i x d) = d_dirs d" "d_refuses (set_data i x d) = d_refuses d"
  "d_nodes (set_data i x d) = (d_nodes d)(i := (d_nodes d i)\<lparr>in_data := x\<rparr>)"
  "disk_ok (set_data i x d) = disk_ok d" "quiet (set_data i x d) = quiet d"
  by (auto simp: set_data_def disk_ok_def quiet_def)

lemma disk_ok_inj: "disk_ok d \<Longrightarrow> d_names d p = Some i \<Longrightarrow> d_names d q = Some i \<Longrightarrow> p = q"
  by (auto simp: disk_ok_def inj_on_def dom_def)

lemma content_set_data:
  "disk_ok d \<Longrightarrow> d_names d p = Some i \<Longrightarrow> content (set_data i x d) = (content d)(p \<mapsto> x)"
proof
  fix q
  assume "disk_ok d" "d_names d p = Some i"
  then show "content (set_data i x d) q = ((content d)(p \<mapsto> x)) q"
    by (cases "d_names d q") (auto simp: content_def dest: disk_ok_inj)
qed

lemma length_resize [simp]: "length (resize n x) = n"
  by (simp add: resize_def zeros_def)

lemma resize_resize: "length x \<le> n \<Longrightarrow> resize n (resize n x) = resize n x"
  by (simp add: resize_def zeros_def)

lemma resize_overwrite:
  assumes "length x \<le> sz" "0 \<le> off" "off + int (length q) \<le> int sz"
  shows "resize sz (overwrite off q (x @ zeros (nat off + length q - length x))) = overwrite off q (resize sz x)"
proof -
  define k where "k = nat off"
  have k: "off = int k" "k + length q \<le> sz" using assms by (auto simp: k_def)
  show ?thesis
  proof (cases "k + length q \<le> length x")
    case True
    with k assms(1) show ?thesis by (simp add: overwrite_def resize_def zeros_def)
  next
    case False
    then have len: "length (overwrite off q (x @ zeros (k + length q - length x))) = k + length q"
      by (simp add: overwrite_def zeros_def k(1))
    show ?thesis using False k assms(1) len
      by (simp add: overwrite_def resize_def zeros_def min_def) arith
  qed
qed


subsection \<open>The operating system's calls when nothing is refused\<close>

lemma foldl_clean_dotdots: "foldl (clean_step False) (replicate m ''..'') (replicate n ''..'') = replicate (n + m) ''..''"
proof (induction n arbitrary: m)
  case (Suc n)
  have "clean_step False (replicate m ''..'') ''..'' = replicate (Suc m) ''..''"
    by (cases m) (auto simp: clean_step_def)
  then show ?case using Suc [of "Suc m"] by simp
qed simp

lemma foldl_clean_good:
  assumes "good_stack r (rev cs)"
  shows "foldl (clean_step r) [] cs = rev cs"
proof -
  obtain ps n where cs: "cs = replicate n ''..'' @ rev ps" and ps: "list_all plain_component ps" and n: "r \<longrightarrow> n = 0"
    using assms by (auto simp: good_stack_def rev_swap)
  have "foldl (clean_step r) [] (replicate n ''..'') = replicate n ''..''"
    using n foldl_clean_dotdots [of 0 n] by (cases r) auto
  moreover have "filter plain_component (rev ps) = rev ps"
    using ps by (simp add: filter_id_conv list_all_iff)
  ultimately show ?thesis
    using foldl_clean_plain [of "rev ps" r "replicate n ''..''"] ps by (simp add: cs list_all_iff)
qed

lemma clean_comps_Clean: "clean_comps (Clean s) = clean_comps s"
proof -
  let ?cs = "clean_comps s"
  have noslash: "slash \<notin> set c" if "c \<in> set ?cs" for c using clean_comps_noslash [OF that] by simp
  have "foldl (clean_step (is_abs s)) [] (split_on slash (render_path (is_abs s) ?cs)) = foldl (clean_step (is_abs s)) [] ?cs"
    using split_on_join [of ?cs slash] noslash by (cases "?cs = []") (auto simp: render_path_def)
  then show ?thesis using foldl_clean_good [OF clean_comps_good]
    unfolding clean_comps_def [of "Clean s"] is_abs_Clean by (simp add: Clean_def)
qed

lemma Clean_Clean [simp]: "Clean (Clean s) = Clean s"
  by (simp add: Clean_def [of "Clean s"] clean_comps_Clean) (simp add: Clean_def)

lemma path_Dir_chain: "path_Dir p \<in> set (dir_chain (path_Dir p))"
proof -
  have "render_path (is_abs (path_Dir p)) (clean_comps (path_Dir p)) = path_Dir p"
    unfolding path_Dir_def by (simp only: Clean_Clean flip: Clean_def)
  then show ?thesis by (auto simp: dir_chain_def intro: image_eqI [of _ _ "length (clean_comps (path_Dir p))"])
qed

lemma changed_self: "disk_ok d \<Longrightarrow> d_names d p = Some i \<Longrightarrow> changed p (Some (in_data (d_nodes d i))) d d"
  by (auto simp: changed_def content_def)

lemma changed_trans: "changed p x d d' \<Longrightarrow> changed p y d' d'' \<Longrightarrow> changed p y d d''"
  by (auto simp: changed_def)

lemma changed_view: "changed p x d d' \<Longrightarrow> view d'' = view d' \<Longrightarrow> changed p x d d''"
  by (auto simp: changed_def view_def)

lemma changed_set_data: "disk_ok d \<Longrightarrow> d_names d p = Some i \<Longrightarrow> changed p (Some x) d (set_data i x d)"
  by (simp add: changed_def content_set_data)

text \<open>Opening for writing finds the file, makes it writable, or creates it empty.\<close>

lemma openFileExtra_works:
  assumes ok: "disk_ok d" and q: "quiet d" and p: "content d p \<noteq> None \<or> placeable d p"
  defines "old \<equiv> (case content d p of None \<Rightarrow> [] | Some x \<Rightarrow> x)"
  shows "\<exists>i d'. openFileExtra p d = (Ok i, d') \<and> disk_ok d' \<and> d_names d' p = Some i \<and>
    in_data (d_nodes d' i) = old \<and> changed p (Some old) d d' \<and>
    disk.more d' = disk.more d \<and> (\<forall>r. r \<noteq> p \<longrightarrow> d_names d' r = d_names d r) \<and>
    (\<forall>j. d_names d p = Some j \<longrightarrow> j = i) \<and> (\<forall>j. j \<noteq> i \<longrightarrow> d_nodes d' j = d_nodes d j) \<and>
    (d_names d p = None \<longrightarrow> i = d_next d)"
proof (cases "d_names d p")
  case (Some i)
  show ?thesis
  proof (cases "in_writable (d_nodes d i)")
    case True
    then have "openFileExtra p d = (Ok i, d)"
      using Some q by (simp add: openFileExtra_def os_OpenFile_def quiet_simps)
    then show ?thesis using Some ok changed_self by (auto simp: old_def content_def)
  next
    case False
    let ?d = "d\<lparr>d_nodes := (d_nodes d)(i := (d_nodes d i)\<lparr>in_writable := True\<rparr>)\<rparr>"
    have "openFileExtra p d = (Ok i, ?d)"
      using Some q False
      by (simp add: openFileExtra_def os_OpenFile_def os_Chmod_def quiet_simps path_error_def)
    moreover have "content ?d = content d"
      by (auto simp: content_def intro!: ext option.map_cong0)
    ultimately show ?thesis using Some ok
      by (auto simp: old_def content_def changed_def disk_ok_def)
  qed
next
  case None
  then have pl: "placeable d p" using p by simp
  let ?e = "d\<lparr>d_dirs := \<lambda>r. d_dirs d r \<or> r \<in> set (dir_chain (path_Dir p))\<rparr>"
  let ?mk = "\<lambda>d. d\<lparr>d_names := (d_names d)(p \<mapsto> d_next d),
      d_nodes := (d_nodes d)(d_next d := \<lparr>in_data = [], in_writable = True\<rparr>), d_next := Suc (d_next d)\<rparr>"
  have fresh: "j < d_next d" if "d_names d r = Some j" for r j
    using ok that by (auto simp: disk_ok_def)
  have "openFileExtra p d = (Ok (d_next d), ?mk (if d_dirs d (path_Dir p) then d else ?e))"
    using None q pl path_Dir_chain [of p]
    by (auto simp: openFileExtra_def os_OpenFile_def os_MkdirAll_def quiet_simps path_error_def
        placeable_def list_all_iff list_ex_iff)
  moreover have "disk_ok (?mk (if d_dirs d (path_Dir p) then d else ?e))"
    using ok fresh by (force simp: disk_ok_def inj_on_def dom_def)
  moreover have "content (?mk (if d_dirs d (path_Dir p) then d else ?e)) = (content d)(p \<mapsto> [])"
  proof
    fix r
    show "content (?mk (if d_dirs d (path_Dir p) then d else ?e)) r = ((content d)(p \<mapsto> [])) r"
      using fresh [of r] by (cases "d_names d r") (auto simp: content_def)
  qed
  moreover have "old = []" using None by (simp add: old_def content_def)
  ultimately show ?thesis using None by (auto simp: changed_def)
qed


lemma os_WriteAt_works:
  assumes ok: "disk_ok d" and q: "quiet d" and p: "d_names d p = Some i" and x: "in_data (d_nodes d i) = x"
    and b: "length x \<le> sz" "0 \<le> off" "off + int (length w) \<le> int sz"
  shows "\<exists>y. os_WriteAt name i w off d = ((length w, None), if w = [] then d else set_data i y d) \<and>
    (w = [] \<longrightarrow> y = x) \<and> length y = (if w = [] then length x else max (length x) (nat off + length w)) \<and>
    resize sz y = overwrite off w (resize sz x)"
proof (cases "w = []")
  case True
  then show ?thesis using q b(2) by (simp add: os_WriteAt_def quiet_simps)
next
  case False
  let ?y = "overwrite off w (x @ zeros (nat off + length w - length x))"
  have "length ?y = max (length x) (nat off + length w)"
    using b by (auto simp: overwrite_def zeros_def)
  with False show ?thesis using q b x resize_overwrite [OF b]
    by (intro exI [of _ ?y]) (simp add: os_WriteAt_def quiet_simps)
qed

lemma fsync_works: "quiet d \<Longrightarrow> \<exists>r. fsync p d = (r, d) \<and> returns r"
  by (auto simp: fsync_def os_OpenFile_def os_Sync_def quiet_simps split: option.split)

lemma os_Chmod_view: "quiet d \<Longrightarrow> \<exists>r d'. os_Chmod p w d = (r, d') \<and> returns r \<and> view d' = view d \<and>
    d_names d' = d_names d \<and> d_next d' = d_next d \<and> disk.more d' = disk.more d \<and>
    (\<forall>i. in_data (d_nodes d' i) = in_data (d_nodes d i))"
proof -
  assume "quiet d"
  have "content (d\<lparr>d_nodes := (d_nodes d)(i := (d_nodes d i)\<lparr>in_writable := w\<rparr>)\<rparr>) = content d" for i
    by (auto simp: content_def intro!: ext option.map_cong0)
  with \<open>quiet d\<close> show ?thesis
    by (cases "d_names d p") (auto simp: os_Chmod_def quiet_simps view_def)
qed

lemma os_Rename_works:
  assumes "disk_ok d" "quiet d" "d_names d p = Some i" "p \<noteq> q"
  defines "d' \<equiv> d\<lparr>d_names := (d_names d)(p := None, q \<mapsto> i)\<rparr>"
  shows "os_Rename p q d = (Ok (), d')" "disk_ok d'"
    "content d' = (content d)(p := None, q := content d p)"
proof -
  show "os_Rename p q d = (Ok (), d')" using assms by (simp add: os_Rename_def quiet_simps)
  show "content d' = (content d)(p := None, q := content d p)"
    using assms(3) by (auto simp: d'_def content_def)
  have inj: "r = p" if "d_names d r = Some i" for r using assms(1,3) that by (auto dest: disk_ok_inj)
  have lt: "j < d_next d" if "d_names d r = Some j" for r j using assms(1) that by (auto simp: disk_ok_def)
  have "inj_on (d_names d') (dom (d_names d'))"
  proof (rule inj_onI)
    fix r s
    assume "r \<in> dom (d_names d')" "s \<in> dom (d_names d')" "d_names d' r = d_names d' s"
    then show "r = s" using inj disk_ok_inj [OF assms(1)] assms(4)
      by (auto simp: d'_def dom_def split: if_splits)
  qed
  moreover have "d_names d' r = Some j \<longrightarrow> j < d_next d'" for r j
    using lt assms(3) by (auto simp: d'_def split: if_splits)
  ultimately show "disk_ok d'" by (simp add: disk_ok_def)
qed

section \<open>The classic implementation keeps the contract\<close>

definition classic_live :: "handle \<Rightarrow> string \<Rightarrow> 'm disk_scheme \<Rightarrow> bool" where
  "classic_live h p d \<longleftrightarrow> (\<exists>i. h = OsFile p i \<and> d_names d p = Some i)"

definition classic_wlive :: "handle \<Rightarrow> string \<Rightarrow> nat \<Rightarrow> 'm disk_scheme \<Rightarrow> bool" where
  "classic_wlive h p sz d \<longleftrightarrow> classic_live h p d"

lemmas classic_defs = classicFileIo_def classic_live_def classic_wlive_def classic_open_read_def
  classic_open_write_def classic_rename_def

interpretation classic: file_io classicFileIo disk_ok classic_live classic_wlive "\<lambda>_. True"
proof
  fix d :: "'m disk_scheme" and p x off n
  assume "quiet d" "content d p = Some x" "(0::int) \<le> off"
  fix h assume "classic_live h p d"
  then show "\<exists>err. h_ReadAt classicFileIo h n off d = Ok (slice off (int n) x, err) \<and>
      (length (slice off (int n) x) < n \<longrightarrow> err = Some (Sentinel IoEOF))"
    using \<open>quiet d\<close> \<open>content d p = Some x\<close> \<open>0 \<le> off\<close>
    by (auto simp: classic_defs content_Some os_ReadAt_def quiet_simps Let_def)
next
  fix d :: "'m disk_scheme" and p sz old
  assume a: "disk_ok d" "quiet d" "content d p \<noteq> None \<or> placeable d p"
    "old = (case content d p of None \<Rightarrow> [] | Some x \<Rightarrow> x)" "length old \<le> sz"
  from openFileExtra_works [OF a(1-3)] a(4) obtain i d' where
    "openFileExtra p d = (Ok i, d')" "disk_ok d'" "d_names d' p = Some i" "changed p (Some old) d d'"
    by auto
  with a(5) show "\<exists>h d' y. openForWrite classicFileIo p (int sz) d = (Ok h, d') \<and> disk_ok d' \<and> classic_wlive h p sz d' \<and>
      changed p (Some y) d d' \<and> length y \<le> sz \<and> True \<and> resize sz y = resize sz old"
    by (auto simp: classic_defs intro!: exI [of _ old])
next
  fix d :: "'m disk_scheme" and h p sz x off and q :: string
  assume a: "disk_ok d" "quiet d" "classic_wlive h p sz d" "content d p = Some x" "length x \<le> sz" "0 \<le> off"
    "off + int (length q) \<le> int sz"
  then obtain i where i: "h = OsFile p i" "d_names d p = Some i" "in_data (d_nodes d i) = x"
    by (auto simp: classic_defs content_Some)
  from os_WriteAt_works [OF a(1,2) i(2,3) a(5-7), of p] obtain y where
    "os_WriteAt p i q off d = ((length q, None), if q = [] then d else set_data i y d)" "q = [] \<longrightarrow> y = x"
    "length y = (if q = [] then length x else max (length x) (nat off + length q))"
    "resize sz y = overwrite off q (resize sz x)" by blast
  with a(1,5-7) i show "\<exists>d' y. h_WriteAt classicFileIo h q off d = ((length q, None), d') \<and> disk_ok d' \<and>
      classic_wlive h p sz d' \<and> changed p (Some y) d d' \<and> length y \<le> sz \<and> True \<and>
      (q \<noteq> [] \<longrightarrow> off + int (length q) \<le> int (length y)) \<and> resize sz y = overwrite off q (resize sz x)"
    by (auto simp: classic_defs changed_self changed_set_data intro!: exI [of _ y])
next
  fix d :: "'m disk_scheme" and p q x
  assume a: "disk_ok d" "quiet d" "content d p = Some x" "p \<noteq> q"
  then obtain i where "d_names d p = Some i" by (auto simp: content_Some)
  from os_Rename_works [OF a(1,2) this a(4)] a(3)
  show "\<exists>d'. io_rename classicFileIo p q d = (Ok (), d') \<and> disk_ok d' \<and>
      content d' = (content d)(p := None, q := Some x) \<and> d_dirs d' = d_dirs d \<and> d_refuses d' = d_refuses d"
    by (auto simp: classic_defs)
next
  fix d :: "'m disk_scheme" and p w
  assume "disk_ok d" "quiet d"
  with os_Chmod_view [of d p w] show "\<exists>r d'. os_Chmod p w d = (r, d') \<and> returns r \<and> disk_ok d' \<and> view d' = view d"
    by (auto simp: disk_ok_def)
next
  fix d :: "'m disk_scheme" and p q
  assume "quiet d" "content d p = None"
  then show "\<exists>e d'. io_rename classicFileIo p q d = (Err e, d') \<and> errors_is e FsNotExist \<and> disk_ok d' \<and> view d' = view d"
    if "disk_ok d"
    using that by (auto simp: classic_defs os_Rename_def quiet_simps path_error_def)
qed (auto simp: classic_defs os_Open_def quiet_simps path_error_def content_Some fsync_works)


section \<open>Memory maps keep the contract\<close>

text \<open>Every mapping in the store is of the file that has its name, and of all of it.\<close>

definition mm_entry :: "'m mmap_disk_scheme \<Rightarrow> string \<Rightarrow> fileMmap \<Rightarrow> bool" where
  "mm_entry d name v \<longleftrightarrow> mm_name v = name \<and> 1 \<le> mm_refs v \<and> d_names d name = Some (mm_node v) \<and>
     mm_len v = length (in_data (d_nodes d (mm_node v)))"

definition mm_inv :: "'m mmap_disk_scheme \<Rightarrow> bool" where
  "mm_inv d \<longleftrightarrow> disk_ok d \<and>
     (\<forall>name a. mm_paths d name = Some a \<longrightarrow> a < length (mm_objs d) \<and> mm_entry d name (mm_objs d ! a))"

definition mm_live :: "handle \<Rightarrow> string \<Rightarrow> 'm mmap_disk_scheme \<Rightarrow> bool" where
  "mm_live h p d \<longleftrightarrow> (\<exists>a. h = Mapped a \<and> mm_paths d p = Some a \<and> 2 \<le> mm_refs (mm_objs d ! a))"

definition mm_wlive :: "handle \<Rightarrow> string \<Rightarrow> nat \<Rightarrow> 'm mmap_disk_scheme \<Rightarrow> bool" where
  "mm_wlive h p sz d \<longleftrightarrow> mm_live h p d \<and> map_option length (content d p) = Some sz"

text \<open>The sizes that \<open>mmap.Map\<close> can map.\<close>

definition mappable :: "mapper \<Rightarrow> nat \<Rightarrow> bool" where
  "mappable Map n \<longleftrightarrow> (\<forall>name. Map name n = None)"

lemma mm_invD:
  "mm_inv d \<Longrightarrow> disk_ok d"
  "mm_inv d \<Longrightarrow> mm_paths d p = Some a \<Longrightarrow> a < length (mm_objs d) \<and> mm_entry d p (mm_objs d ! a)"
  by (auto simp: mm_inv_def)

lemma mm_paths_inj: "mm_inv d \<Longrightarrow> mm_paths d p = Some a \<Longrightarrow> mm_paths d q = Some a \<Longrightarrow> p = q"
  by (auto simp: mm_inv_def mm_entry_def)

lemma view_mm [simp]:
  "view (d\<lparr>mm_objs := os\<rparr>) = view d" "view (d\<lparr>mm_paths := ps\<rparr>) = view d"
  "disk_ok (d\<lparr>mm_objs := os\<rparr>) = disk_ok d" "disk_ok (d\<lparr>mm_paths := ps\<rparr>) = disk_ok d"
  "mm_entry (d\<lparr>mm_objs := os\<rparr>) = mm_entry d" "mm_entry (d\<lparr>mm_paths := ps\<rparr>) = mm_entry d"
  "content (d\<lparr>mm_objs := os\<rparr>) = content d" "content (d\<lparr>mm_paths := ps\<rparr>) = content d"
  "quiet (d\<lparr>mm_objs := os\<rparr>) = quiet d" "quiet (d\<lparr>mm_paths := ps\<rparr>) = quiet d"
  by (auto simp: view_def content_def [abs_def] disk_ok_def mm_entry_def [abs_def] quiet_def intro!: ext)

text \<open>Changing the count of a mapping that stays positive.\<close>

lemma mm_inv_refs:
  assumes "mm_inv d" "mm_paths d p = Some a" "1 \<le> r"
  shows "mm_inv (mm_set a ((mm_objs d ! a)\<lparr>mm_refs := r\<rparr>) d)"
proof -
  have "a < length (mm_objs d)" using mm_invD [OF assms(1)] assms(2) by blast
  with assms show ?thesis
    by (auto simp: mm_inv_def mm_set_def nth_list_update mm_entry_def)
qed

lemma newMmapFile_works:
  assumes inv: "mm_inv d" and p: "mm_paths d p = Some a"
  shows "\<exists>d'. newMmapFile a d = (Ok (Mapped a), d') \<and> mm_inv d' \<and> mm_live (Mapped a) p d' \<and> view d' = view d"
proof -
  note e = mm_invD(2) [OF inv p]
  let ?r = "mm_refs (mm_objs d ! a) + 1"
  have "newMmapFile a d = (Ok (Mapped a), mm_set a ((mm_objs d ! a)\<lparr>mm_refs := ?r\<rparr>) d)"
    using e by (simp add: newMmapFile_def mm_inc_def mm_entry_def Let_def)
  moreover have "mm_inv (mm_set a ((mm_objs d ! a)\<lparr>mm_refs := ?r\<rparr>) d)"
    using mm_inv_refs [OF inv p] e by (simp add: mm_entry_def)
  ultimately show ?thesis using e p by (simp add: mm_live_def mm_set_def mm_entry_def)
qed

lemma addNewMmap_works:
  assumes inv: "mm_inv d" and p: "mm_paths d p = None" and i: "d_names d p = Some i"
  shows "\<exists>h d'. call (addNewMmap p i (length (in_data (d_nodes d i))) w d) newMmapFile (\<lambda>e d. (Err e, d)) = (Ok h, d') \<and>
    mm_inv d' \<and> mm_live h p d' \<and> view d' = view d"
proof -
  let ?a = "length (mm_objs d)"
  let ?v = "\<lparr>mm_name = p, mm_node = i, mm_len = length (in_data (d_nodes d i)), mm_refs = 1, mm_writable = w\<rparr>"
  let ?d = "d\<lparr>mm_objs := mm_objs d @ [?v], mm_paths := (mm_paths d)(p \<mapsto> ?a)\<rparr>"
  have "mm_entry d p ?v" using i by (simp add: mm_entry_def)
  then have "mm_inv ?d" using inv by (auto simp: mm_inv_def nth_append less_Suc_eq)
  from newMmapFile_works [OF this, of p ?a] p show ?thesis by (auto simp: addNewMmap_def Let_def)
qed

lemma mm_drop_works:
  assumes "mm_inv d"
  shows "mm_inv (mm_drop p d) \<and> mm_paths (mm_drop p d) = (mm_paths d)(p := None) \<and> view (mm_drop p d) = view d \<and>
    d_names (mm_drop p d) = d_names d \<and> d_nodes (mm_drop p d) = d_nodes d"
proof (cases "mm_paths d p")
  case (Some a)
  have "(mm_objs d)[a := v] ! b = mm_objs d ! b" if "mm_paths d q = Some b" "q \<noteq> p" for q b v
    using mm_paths_inj [OF assms Some] that by (cases "b = a") auto
  with assms Some show ?thesis by (auto simp: mm_drop_def mm_close_def mm_set_def mm_inv_def)
qed (use assms in \<open>auto simp: mm_drop_def\<close>)

lemma mm_dec_drop_works:
  assumes "mm_inv d" "mm_paths d p = Some a"
  defines "d' \<equiv> (mm_dec a d)\<lparr>mm_paths := (mm_paths d)(p := None)\<rparr>"
  shows "mm_inv d' \<and> mm_paths d' p = None \<and> view d' = view d \<and> d_names d' = d_names d"
proof -
  have "(mm_objs d)[a := v] ! b = mm_objs d ! b" if "mm_paths d q = Some b" "q \<noteq> p" for q b v
    using mm_paths_inj [OF assms(1,2)] that by (cases "b = a") auto
  with assms show ?thesis by (auto simp: mm_dec_def mm_close_def mm_set_def mm_inv_def Let_def)
qed

lemma mm_more: "disk.more d' = disk.more d \<Longrightarrow> mm_paths d' = mm_paths d \<and> mm_objs d' = mm_objs d"
  by (cases d; cases d') simp

text \<open>A change to a file that is not in the store keeps the invariant.\<close>

lemma mm_inv_frame:
  assumes inv: "mm_inv d" and p: "mm_paths d p = None" and ok: "disk_ok d'" and more: "disk.more d' = disk.more d"
    and names: "\<forall>r. r \<noteq> p \<longrightarrow> d_names d' r = d_names d r" and pi: "d_names d' p = Some i"
    and nodes: "\<forall>j. j \<noteq> i \<longrightarrow> d_nodes d' j = d_nodes d j"
  shows "mm_inv d'"
proof -
  have "mm_entry d' q (mm_objs d ! a)" if q: "mm_paths d q = Some a" for q a
  proof -
    have e: "mm_entry d q (mm_objs d ! a)" "q \<noteq> p" using inv q p by (auto simp: mm_inv_def)
    then have "mm_node (mm_objs d ! a) \<noteq> i" using names pi disk_ok_inj [OF ok, of q i p] by (auto simp: mm_entry_def)
    with e names nodes show ?thesis by (simp add: mm_entry_def)
  qed
  with inv ok mm_more [OF more] show ?thesis by (auto simp: mm_inv_def)
qed


lemma disk_more_set_data [simp]: "disk.more (set_data i x d) = disk.more d"
  by (simp add: set_data_def)

text \<open>The part of opening for writing that maps the file afresh.\<close>

lemma mmap_fresh_works:
  assumes inv: "mm_inv d" and q: "quiet d" and p: "mm_paths d p = None"
    and pl: "content d p \<noteq> None \<or> placeable d p" and mp: "Map p sz = None"
    and old: "old = (case content d p of None \<Rightarrow> [] | Some x \<Rightarrow> x)"
  shows "\<exists>h d'. mmap_open_write Map p (int sz) d = (Ok h, d') \<and> mm_inv d' \<and> mm_live h p d' \<and>
    changed p (Some (resize sz old)) d d'"
proof -
  from openFileExtra_works [OF mm_invD(1) [OF inv] q pl] obtain i e where
    e: "openFileExtra p d = (Ok i, e)" "disk_ok e" "d_names e p = Some i" "in_data (d_nodes e i) = old"
      "changed p (Some old) d e" "disk.more e = disk.more d" "\<forall>r. r \<noteq> p \<longrightarrow> d_names e r = d_names d r"
      "\<forall>j. j \<noteq> i \<longrightarrow> d_nodes e j = d_nodes d j"
    unfolding old by blast
  let ?f = "set_data i (resize sz old) e"
  have f: "mm_inv ?f" using e by (intro mm_inv_frame [OF inv p, of ?f i]) auto
  have pf: "mm_paths ?f p = None" using mm_more [of ?f d] e(6) p by simp
  have qe: "quiet e" using q e(5) by (simp add: quiet_def changed_def)
  from addNewMmap_works [OF f pf, of i True] e(3) obtain h d' where
    d': "call (addNewMmap p i sz True ?f) newMmapFile (\<lambda>e d. (Err e, d)) = (Ok h, d')" "mm_inv d'" "mm_live h p d'"
      "view d' = view ?f" by auto
  have "mmap_open_write Map p (int sz) d = (Ok h, d')"
    using p e(1,4) qe mp d'(1) by (simp add: mmap_open_write_def os_Truncate_def quiet_simps Let_def)
  moreover have "changed p (Some (resize sz old)) d d'"
    using changed_view [OF changed_trans [OF e(5) changed_set_data [OF e(2,3)]] d'(4)] .
  ultimately show ?thesis using d' by blast
qed

lemma mmap_open_write_works:
  assumes inv: "mm_inv d" and q: "quiet d" and mp: "Map p sz = None" and pl: "content d p \<noteq> None \<or> placeable d p"
    and old: "old = (case content d p of None \<Rightarrow> [] | Some x \<Rightarrow> x)" and len: "length old \<le> sz"
  shows "\<exists>h d' y. mmap_open_write Map p (int sz) d = (Ok h, d') \<and> mm_inv d' \<and> mm_wlive h p sz d' \<and>
    changed p (Some y) d d' \<and> length y = sz \<and> resize sz y = resize sz old"
proof (cases "mm_paths d p")
  case None
  from mmap_fresh_works [of d p Map sz old, OF inv q None pl mp old] obtain h d' where
    "mmap_open_write Map p (int sz) d = (Ok h, d')" "mm_inv d'" "mm_live h p d'" "changed p (Some (resize sz old)) d d'"
    by blast
  then show ?thesis using len
    by (intro exI [of _ h] exI [of _ d'] exI [of _ "resize sz old"])
      (auto simp: mm_wlive_def changed_def resize_resize)
next
  case (Some a)
  note e = mm_invD(2) [OF inv Some]
  show ?thesis
  proof (cases "mm_len (mm_objs d ! a) = sz \<and> mm_writable (mm_objs d ! a)")
    case True
    from newMmapFile_works [OF inv Some] obtain d' where
      d': "newMmapFile a d = (Ok (Mapped a), d')" "mm_inv d'" "mm_live (Mapped a) p d'" "view d' = view d" by blast
    have c: "content d p = Some old" "length old = sz"
      using e True old by (auto simp: mm_entry_def content_def)
    have "changed p (Some old) d d'" using c d'(4) by (auto simp: changed_def view_def)
    with True Some d' c show ?thesis
      by (intro exI [of _ "Mapped a"] exI [of _ d'] exI [of _ old])
        (auto simp: mmap_open_write_def mm_wlive_def changed_def)
  next
    case False
    let ?d = "(mm_dec a d)\<lparr>mm_paths := (mm_paths d)(p := None)\<rparr>"
    note dd = mm_dec_drop_works [OF inv Some]
    have same: "content ?d = content d" "quiet ?d" "d_dirs ?d = d_dirs d" "d_refuses ?d = d_refuses d"
      using dd q by (auto simp: view_def quiet_def)
    have "mmap_open_write Map p (int sz) d = mmap_open_write Map p (int sz) ?d"
      using False Some by (auto simp: mmap_open_write_def)
    moreover have "content ?d p \<noteq> None \<or> placeable ?d p" using e unfolding same(1) by (simp add: mm_entry_def)
    ultimately obtain h d' where
      "mmap_open_write Map p (int sz) d = (Ok h, d')" "mm_inv d'" "mm_live h p d'"
      "changed p (Some (resize sz old)) ?d d'"
      using mmap_fresh_works [of ?d p Map sz old] dd mp old same by auto
    then show ?thesis using len same
      by (intro exI [of _ h] exI [of _ d'] exI [of _ "resize sz old"])
        (auto simp: mm_wlive_def changed_def resize_resize)
  qed
qed

lemma mmap_read_works:
  assumes "mm_inv d" "mm_live h p d" "content d p = Some x" "0 \<le> off" "off \<le> int (length x)"
  shows "\<exists>err. h_ReadAt (mmapFileIo Map) h n off d = Ok (slice off (int n) x, err) \<and>
    (length (slice off (int n) x) < n \<longrightarrow> err = Some (Sentinel IoEOF))"
proof -
  from assms obtain a where a: "h = Mapped a" "mm_paths d p = Some a" by (auto simp: mm_live_def)
  with assms mm_invD(2) [OF assms(1), of p a] show ?thesis
    by (auto simp: mmapFileIo_def mmap_ReadAt_def mm_entry_def content_Some Let_def slice_def)
qed

lemma mmap_write_works:
  assumes inv: "mm_inv d" and q: "quiet d" and w: "mm_wlive h p sz d" and x: "content d p = Some x"
    and b: "0 \<le> off" "off + int (length b) \<le> int sz"
  shows "\<exists>d' y. h_WriteAt (mmapFileIo Map) h b off d = ((length b, None), d') \<and> mm_inv d' \<and> mm_wlive h p sz d' \<and>
    changed p (Some y) d d' \<and> length y = sz \<and> resize sz y = overwrite off b (resize sz x)"
proof -
  from w x obtain a where a: "h = Mapped a" "mm_paths d p = Some a" "2 \<le> mm_refs (mm_objs d ! a)" "length x = sz"
    by (auto simp: mm_wlive_def mm_live_def)
  note e = mm_invD(2) [OF inv a(2)]
  let ?i = "mm_node (mm_objs d ! a)"
  have i: "d_names d p = Some ?i" "in_data (d_nodes d ?i) = x" "mm_name (mm_objs d ! a) = p"
    using e x by (auto simp: mm_entry_def content_Some)
  note ok = mm_invD(1) [OF inv]
  from os_WriteAt_works [OF ok q i(1,2) _ b, of p] a(4) obtain y where
    y: "os_WriteAt p ?i b off d = ((length b, None), if b = [] then d else set_data ?i y d)" "b = [] \<longrightarrow> y = x"
      "length y = (if b = [] then length x else max (length x) (nat off + length b))"
      "resize sz y = overwrite off b (resize sz x)" by auto
  have ly: "length y = sz" using y(3) a(4) b by auto
  let ?d = "if b = [] then d else set_data ?i y d"
  have more: "mm_paths ?d = mm_paths d" "mm_objs ?d = mm_objs d" using mm_more [of ?d d] by auto
  have "mm_entry ?d r (mm_objs d ! c)" if "mm_paths d r = Some c" for r c
    using mm_invD(2) [OF inv that] ly a(4) i by (auto simp: mm_entry_def)
  then have "mm_inv ?d" using inv more by (auto simp: mm_inv_def)
  moreover have "changed p (Some y) d ?d" using y(2) i(2) ok i(1) changed_self changed_set_data by fastforce
  moreover have "mm_wlive h p sz ?d"
    using a ly more \<open>changed p (Some y) d ?d\<close> by (auto simp: mm_wlive_def mm_live_def changed_def)
  ultimately show ?thesis using y ly a(1) i(3)
    by (intro exI [of _ ?d] exI [of _ y]) (simp add: mmapFileIo_def)
qed

lemma mmap_close_works:
  assumes "mm_inv d" "mm_live h p d"
  shows "\<exists>d'. h_Close (mmapFileIo Map) h d = (Ok (), d') \<and> mm_inv d' \<and> view d' = view d"
proof -
  from assms(2) obtain a where a: "h = Mapped a" "mm_paths d p = Some a" "2 \<le> mm_refs (mm_objs d ! a)"
    by (auto simp: mm_live_def)
  with mm_inv_refs [OF assms(1) a(2), of "mm_refs (mm_objs d ! a) - 1"] show ?thesis
    by (simp add: mmapFileIo_def mm_dec_def mm_set_def Let_def)
qed

lemma mmap_rename_works:
  assumes inv: "mm_inv d" and q: "quiet d"
  shows "content d p = None \<Longrightarrow> \<exists>e d'. mmap_rename p r d = (Err e, d') \<and> errors_is e FsNotExist \<and> mm_inv d' \<and> view d' = view d"
    and "content d p = Some x \<Longrightarrow> p \<noteq> r \<Longrightarrow> \<exists>d'. mmap_rename p r d = (Ok (), d') \<and> mm_inv d' \<and>
      content d' = (content d)(p := None, r := Some x) \<and> d_dirs d' = d_dirs d \<and> d_refuses d' = d_refuses d"
proof -
  let ?e = "mm_drop r (mm_drop p d)"
  note 1 = mm_drop_works [OF inv, of p]
  then have 2: "mm_inv ?e \<and> mm_paths ?e = (mm_paths d)(p := None, r := None) \<and> view ?e = view d \<and>
      d_names ?e = d_names d \<and> d_nodes ?e = d_nodes d"
    using mm_drop_works [of "mm_drop p d" r] by auto
  have same: "content ?e = content d" "quiet ?e" "d_dirs ?e = d_dirs d" "d_refuses ?e = d_refuses d"
    using 2 q by (auto simp: view_def quiet_def)
  show "content d p = None \<Longrightarrow> \<exists>e d'. mmap_rename p r d = (Err e, d') \<and> errors_is e FsNotExist \<and> mm_inv d' \<and> view d' = view d"
    using 2 same q by (auto simp: mmap_rename_def os_Rename_def quiet_def path_error_def)
  assume x: "content d p = Some x" and pr: "p \<noteq> r"
  then obtain i where i: "d_names ?e p = Some i" using 2 by (auto simp: content_Some)
  let ?f = "?e\<lparr>d_names := (d_names ?e)(p := None, r \<mapsto> i)\<rparr>"
  note f = os_Rename_works [OF mm_invD(1) same(2) i pr]
  have "mm_inv ?f" using 2 f(2) by (auto simp: mm_inv_def mm_entry_def)
  with f same x show "\<exists>d'. mmap_rename p r d = (Ok (), d') \<and> mm_inv d' \<and>
      content d' = (content d)(p := None, r := Some x) \<and> d_dirs d' = d_dirs d \<and> d_refuses d' = d_refuses d"
    using 2 by (auto simp: mmap_rename_def)
qed


lemma mmap_flush_works:
  assumes "mm_inv d" "quiet d" "0 \<le> off" "0 \<le> m" "\<And>x. content d p = Some x \<Longrightarrow> off + m \<le> int (length x)"
  shows "\<exists>r. mmap_flush p off m d = (r, d) \<and> returns r"
proof (cases "mm_paths d p")
  case (Some a)
  with mm_invD(2) [OF assms(1) Some] assms(2-5) show ?thesis
    by (auto simp: mmap_flush_def mm_entry_def content_def os_Sync_def quiet_simps)
qed (simp add: mmap_flush_def)

interpretation mmap: file_io "mmapFileIo Map" mm_inv mm_live mm_wlive "mappable Map" for Map
proof
  fix d :: "'m mmap_disk_scheme" and p x
  assume a: "mm_inv d" "quiet d" "content d p = Some x" "mappable Map (length x)"
  then obtain i where i: "d_names d p = Some i" "in_data (d_nodes d i) = x" by (auto simp: content_Some)
  show "\<exists>h d'. openForSharedRead (mmapFileIo Map) p d = (Ok h, d') \<and> mm_inv d' \<and> mm_live h p d' \<and> view d' = view d"
  proof (cases "mm_paths d p")
    case None
    with addNewMmap_works [OF a(1) None i(1), of False] a i show ?thesis
      by (auto simp: mmapFileIo_def openReadOnly_def os_Open_def quiet_simps mappable_def)
  next
    case (Some b)
    with newMmapFile_works [OF a(1) Some] show ?thesis by (auto simp: mmapFileIo_def openReadOnly_def)
  qed
next
  fix d :: "'m mmap_disk_scheme" and p
  assume "mm_inv d" "quiet d" "content d p = None"
  moreover from this have "mm_paths d p = None" by (cases "mm_paths d p") (auto simp: mm_inv_def mm_entry_def)
  ultimately show "\<exists>e. openForSharedRead (mmapFileIo Map) p d = (Err e, d) \<and> errors_is e FsNotExist"
    by (simp add: mmapFileIo_def openReadOnly_def os_Open_def quiet_simps path_error_def)
next
  fix d :: "'m mmap_disk_scheme" and sz p old
  assume a: "mm_inv d" "quiet d" "mappable Map sz" "content d p \<noteq> None \<or> placeable d p"
    "old = (case content d p of None \<Rightarrow> [] | Some x \<Rightarrow> x)" "length old \<le> sz"
  then have "Map p sz = None" by (simp add: mappable_def)
  from mmap_open_write_works [of d Map p sz old, OF a(1,2) this a(4-6)]
  show "\<exists>h d' y. openForWrite (mmapFileIo Map) p (int sz) d = (Ok h, d') \<and> mm_inv d' \<and> mm_wlive h p sz d' \<and>
      changed p (Some y) d d' \<and> length y \<le> sz \<and> mappable Map (length y) \<and> resize sz y = resize sz old"
    using a(3) by (fastforce simp: mmapFileIo_def)
next
  fix d :: "'m mmap_disk_scheme" and p w
  assume a: "mm_inv d" "quiet d"
  from os_Chmod_view [OF a(2), of p w] obtain r d' where
    d': "os_Chmod p w d = (r, d')" "returns r" "view d' = view d" "d_names d' = d_names d" "d_next d' = d_next d"
      "disk.more d' = disk.more d" "\<forall>i. in_data (d_nodes d' i) = in_data (d_nodes d i)" by blast
  moreover have "mm_inv d'"
    using a(1) d' mm_more [OF d'(6)] by (auto simp: mm_inv_def disk_ok_def mm_entry_def)
  ultimately show "\<exists>r d'. os_Chmod p w d = (r, d') \<and> returns r \<and> mm_inv d' \<and> view d' = view d" by blast
next
  fix h p sz and d :: "'m mmap_disk_scheme"
  show "mm_wlive h p sz d \<Longrightarrow> mm_live h p d" by (simp add: mm_wlive_def)
next
  fix d :: "'m mmap_disk_scheme" and h p sz x off and b :: string
  assume a: "mm_inv d" "quiet d" "mm_wlive h p sz d" "content d p = Some x" "0 \<le> off" "off + int (length b) \<le> int sz"
    and m: "mappable Map sz"
  from mmap_write_works [OF a, of Map] m a(6)
  show "\<exists>d' y. h_WriteAt (mmapFileIo Map) h b off d = ((length b, None), d') \<and> mm_inv d' \<and> mm_wlive h p sz d' \<and>
      changed p (Some y) d d' \<and> length y \<le> sz \<and> mappable Map (length y) \<and>
      (b \<noteq> [] \<longrightarrow> off + int (length b) \<le> int (length y)) \<and> resize sz y = overwrite off b (resize sz x)"
    by blast
qed (simp_all add: mm_invD mmap_read_works mmap_close_works,
    simp_all add: mmapFileIo_def mmap_rename_works mmap_flush_works)

end
