(* ===== verification/FileStorage.thy ===== *)
theory FileStorage
  imports FileIo PieceRepo
begin

text \<open>
  The file storage the server gives to the torrent client
  (\<open>licenses/github.com/anacrolix/torrent/storage/\<close>: \<open>file-client.go\<close>, \<open>file-paths.go\<close>, \<open>file-misc.go\<close>,
  \<open>file-torrent.go\<close>, \<open>file-torrent-io.go\<close>, \<open>file-piece.go\<close>, \<open>piece-completion.go\<close>): where the files of a torrent
  are, reading and writing the torrent as one range of bytes, and the completion of pieces with
  the promotion of finished files. The state is the disk and what the piece-completion store
  keeps; the store and the file implementation are records of operations. The server's store is
  \<open>PieceRepo\<close>. Log lines are left out.
\<close>

section \<open>State and interfaces\<close>

text \<open>\<open>PieceCompletion\<close> with the optional \<open>Persistent\<close>.\<close>

record 'w PieceCompletion =
  pc_Get :: "hash \<times> int \<Rightarrow> 'w \<Rightarrow> completion res \<times> 'w"
  pc_Set :: "hash \<times> int \<Rightarrow> bool \<Rightarrow> 'w \<Rightarrow> unit res \<times> 'w"
  pc_Persistent :: "bool option"

definition pieceCompletionIsPersistent :: "'w PieceCompletion \<Rightarrow> bool" where
  "pieceCompletionIsPersistent pc = (case pc_Persistent pc of Some b \<Rightarrow> b | None \<Rightarrow> True)"

definition repo_completion :: "'a piece_world_scheme PieceCompletion" where
  "repo_completion = \<lparr>pc_Get = piece_Get, pc_Set = piece_Set, pc_Persistent = Some Persistent\<rparr>"

record 'w NewFileClientOpts =
  ClientBaseDir :: string
  FilePathMaker :: "Info \<Rightarrow> FileInfo \<Rightarrow> string"
  TorrentDirMaker :: "string \<Rightarrow> Info \<Rightarrow> hash \<Rightarrow> string"
  opt_PieceCompletion :: "'w PieceCompletion"
  UsePartFiles :: "bool option"

definition opts_partFiles :: "'w NewFileClientOpts \<Rightarrow> bool" where
  "opts_partFiles o' = (case UsePartFiles o' of Some b \<Rightarrow> b | None \<Rightarrow> True)"

definition defaultPathMaker :: "string \<Rightarrow> Info \<Rightarrow> hash \<Rightarrow> string" where
  "defaultPathMaker baseDir info infoHash = baseDir"

definition NoName :: string where
  "NoName = ''-''"

text \<open>The default \<open>FilePathMaker\<close> of \<open>NewFileOpts\<close>.\<close>

definition defaultFilePathMaker :: "Info \<Rightarrow> FileInfo \<Rightarrow> string" where
  "defaultFilePathMaker info fi =
     path_Join ((if BestName info \<noteq> NoName then [BestName info] else []) @ BestPath fi)"

definition NewFileWithCompletion :: "string \<Rightarrow> 'w PieceCompletion \<Rightarrow> 'w NewFileClientOpts" where
  "NewFileWithCompletion baseDir completion =
     \<lparr>ClientBaseDir = baseDir, FilePathMaker = defaultFilePathMaker, TorrentDirMaker = defaultPathMaker,
      opt_PieceCompletion = completion, UsePartFiles = None\<rparr>"

text \<open>\<open>fileTorrentImpl\<close>; of every \<open>fileExtra\<close> the path.\<close>

record ('d, 'w) fileTorrentImpl =
  fts_info :: Info
  fts_files :: "string list"
  fts_fileInfos :: "FileInfo list"
  fts_index :: "Extent list"
  fts_infoHash :: hash
  fts_io :: "'d fileIo"
  fts_client :: "'w NewFileClientOpts"

text \<open>Calls that touch only the disk or only the store.\<close>

definition on_disk :: "('d \<Rightarrow> 'a res \<times> 'd) \<Rightarrow> 'd \<times> 'w \<Rightarrow> 'a res \<times> 'd \<times> 'w" where
  "on_disk f s = (case f (fst s) of (r, d) \<Rightarrow> (r, d, snd s))"

definition on_store :: "('w \<Rightarrow> 'a res \<times> 'w) \<Rightarrow> 'd \<times> 'w \<Rightarrow> 'a res \<times> 'd \<times> 'w" where
  "on_store f s = (case f (snd s) of (r, w) \<Rightarrow> (r, fst s, w))"

text \<open>\<open>for x := range xs { body }\<close> where the body may return an error from the whole call.\<close>

fun each :: "('a \<Rightarrow> 's \<Rightarrow> unit res \<times> 's) \<Rightarrow> 'a list \<Rightarrow> 's \<Rightarrow> unit res \<times> 's" where
  "each f [] s = (Ok (), s)"
| "each f (x # xs) s = call (f x s) (\<lambda>_ s. each f xs s) (\<lambda>e s. (Err e, s))"

section \<open>Paths\<close>

text \<open>\<open>filepath.Rel\<close> on Unix: up from what is left of the base, down what is left of the target.\<close>

fun common_prefix :: "'a list \<Rightarrow> 'a list \<Rightarrow> nat" where
  "common_prefix (x # xs) (y # ys) = (if x = y then Suc (common_prefix xs ys) else 0)"
| "common_prefix xs ys = 0"

definition path_Rel :: "string \<Rightarrow> string \<Rightarrow> go_error + string" where
  "path_Rel basepath targpath =
     (let base = Clean basepath; targ = Clean targpath;
          err = ErrorString (''Rel: can't make '' @ targpath @ '' relative to '' @ basepath) in
      if targ = base then Inr ''.''
      else
        (let base = (if base = ''.'' then [] else base) in
         if is_abs base \<noteq> is_abs targ then Inl err
         else
           (let bs = path_comps base; ts = path_comps targ; k = common_prefix bs ts in
            if k < length bs \<and> k < length ts \<and> bs ! k = ''..'' then Inl err
            else Inr (join_with [slash] (replicate (length bs - k) ''..'' @ drop k ts)))))"

definition isSubFilepath :: "string \<Rightarrow> string \<Rightarrow> bool" where
  "isSubFilepath base sub =
     (case path_Rel base sub of
        Inl err \<Rightarrow> False
      | Inr rel \<Rightarrow> rel \<noteq> ''..'' \<and> \<not> has_prefix rel (''..'' @ [slash]))"

definition partFilePath :: "string \<Rightarrow> string" where
  "partFilePath safeOsPath = safeOsPath @ ''.part''"

definition CreateNativeZeroLengthFile :: "string \<Rightarrow> 'm disk_scheme \<Rightarrow> unit res \<times> 'm disk_scheme" where
  "CreateNativeZeroLengthFile path d =
     call (os_OpenFile True True path (snd (os_MkdirAll (path_Dir path) d)))
       (\<lambda>i d. (Ok (), d))
       (\<lambda>err d. if os_Stat path d = Ok 0 then (Ok (), d) else (Err err, d))"

section \<open>Completion of pieces\<close>

definition fts_partFiles :: "('d, 'w) fileTorrentImpl \<Rightarrow> bool" where
  "fts_partFiles t = opts_partFiles (fts_client t)"

abbreviation fts_completion :: "('d, 'w) fileTorrentImpl \<Rightarrow> 'w PieceCompletion" where
  "fts_completion t \<equiv> opt_PieceCompletion (fts_client t)"

definition pathForWrite :: "('d, 'w) fileTorrentImpl \<Rightarrow> nat \<Rightarrow> string" where
  "pathForWrite t i = (if fts_partFiles t then partFilePath (fts_files t ! i) else fts_files t ! i)"

definition setPieceCompletion :: "('d, 'w) fileTorrentImpl \<Rightarrow> int \<Rightarrow> bool \<Rightarrow> 'w \<Rightarrow> unit res \<times> 'w" where
  "setPieceCompletion t p b = pc_Set (fts_completion t) (fts_infoHash t, p) b"

definition getCompletion :: "('d, 'w) fileTorrentImpl \<Rightarrow> int \<Rightarrow> 'w \<Rightarrow> completion res \<times> 'w" where
  "getCompletion t p w =
     call (pc_Get (fts_completion t) (fts_infoHash t, p) w)
       (\<lambda>c w. (Ok (c\<lparr>cmp_Err := errors_Join [cmp_Err c, None]\<rparr>), w))
       (\<lambda>e w. (Ok \<lparr>cmp_Err = errors_Join [None, Some e], cmp_Ok = False, cmp_Complete = False\<rparr>, w))"

definition file_begin :: "('d, 'w) fileTorrentImpl \<Rightarrow> nat \<Rightarrow> int" where
  "file_begin t i = BeginPieceIndex (PieceLength (fts_info t)) (fts_fileInfos t ! i)"

definition file_end :: "('d, 'w) fileTorrentImpl \<Rightarrow> nat \<Rightarrow> int" where
  "file_end t i = EndPieceIndex (PieceLength (fts_info t)) (fts_fileInfos t ! i)"

definition file_length :: "('d, 'w) fileTorrentImpl \<Rightarrow> nat \<Rightarrow> int" where
  "file_length t i = fi_Length (fts_fileInfos t ! i)"

text \<open>The loops of \<open>setCompletionFromPartFiles\<close>: \<open>notComplete[pieceIndex] = true\<close> for the pieces of a file that is
  not there in full, then the store is told.\<close>

fun mark_pieces :: "bool list \<Rightarrow> int list \<Rightarrow> bool list res" where
  "mark_pieces nc [] = Ok nc"
| "mark_pieces nc (p # ps) =
     (if 0 \<le> p \<and> p < int (length nc) then mark_pieces (nc[nat p := True]) ps
      else Panic ''index out of range'')"

fun scan_files :: "('m disk_scheme, 'w) fileTorrentImpl \<Rightarrow> 'm disk_scheme \<Rightarrow> nat list \<Rightarrow> bool list \<Rightarrow> bool list res" where
  "scan_files t d [] nc = Ok nc"
| "scan_files t d (i # is) nc =
     (if os_Stat (fts_files t ! i) d = Ok (file_length t i) then scan_files t d is nc
      else
        (case mark_pieces nc [file_begin t i..file_end t i - 1] of
           Ok nc' \<Rightarrow> scan_files t d is nc'
         | r \<Rightarrow> r))"

definition tell_piece :: "('d, 'w) fileTorrentImpl \<Rightarrow> nat \<times> bool \<Rightarrow> 'w \<Rightarrow> unit res \<times> 'w" where
  "tell_piece t x w =
     (case x of (i, nc) \<Rightarrow>
        if nc then
          call (getCompletion t (int i) w)
            (\<lambda>c w. if cmp_Complete c
               then call (setPieceCompletion t (int i) False w) (\<lambda>_ w. (Ok (), w)) (\<lambda>e w. (Panic (error_msg e), w))
               else (Ok (), w))
            (\<lambda>e w. (Err e, w))
        else
          call (setPieceCompletion t (int i) True w) (\<lambda>_ w. (Ok (), w))
            (\<lambda>err w. (Err (Errorf (''setting piece '' @ nat_dec i @ '' completion: '') err []), w)))"

definition setCompletionFromPartFiles :: "('m disk_scheme, 'w) fileTorrentImpl \<Rightarrow> 'm disk_scheme \<times> 'w \<Rightarrow> unit res \<times> 'm disk_scheme \<times> 'w" where
  "setCompletionFromPartFiles t s =
     (let n = NumPieces (fts_info t) in
      if n < 0 then (Panic ''makeslice: len out of range'', s)
      else
        (case scan_files t (fst s) [0..<length (fts_files t)] (replicate (nat n) False) of
           Ok nc \<Rightarrow> on_store (each (tell_piece t) (enumerate 0 nc)) s
         | Err e \<Rightarrow> (Err e, s) | Panic p \<Rightarrow> (Panic p, s) | Hang \<Rightarrow> (Hang, s)))"

section \<open>Opening a torrent\<close>

fun open_paths :: "'w NewFileClientOpts \<Rightarrow> Info \<Rightarrow> string \<Rightarrow> nat \<Rightarrow> FileInfo list \<Rightarrow> 'm disk_scheme \<Rightarrow> string list res \<times> 'm disk_scheme" where
  "open_paths opts info dir i [] d = (Ok [], d)"
| "open_paths opts info dir i (fi # fis) d =
     (let filePath = path_Join [dir, FilePathMaker opts info fi] in
      if \<not> isSubFilepath dir filePath then
        (Err (ErrorString (''file '' @ nat_dec i @ '': path '' @ go_quote filePath @ '' is not sub path of '' @ go_quote dir)), d)
      else
        call (if fi_Length fi = 0 then CreateNativeZeroLengthFile filePath d else (Ok (), d))
          (\<lambda>_ d. call (open_paths opts info dir (Suc i) fis d) (\<lambda>ps d. (Ok (filePath # ps), d)) (\<lambda>e d. (Err e, d)))
          (\<lambda>err d. (Err (Errorf ''creating zero length file: '' err []), d)))"

definition OpenTorrent ::
  "'w NewFileClientOpts \<Rightarrow> 'm disk_scheme fileIo \<Rightarrow> Info \<Rightarrow> hash \<Rightarrow> 'm disk_scheme \<times> 'w \<Rightarrow>
   ('m disk_scheme, 'w) fileTorrentImpl res \<times> 'm disk_scheme \<times> 'w" where
  "OpenTorrent fs defaultFileIo info infoHash s =
     (let dir = TorrentDirMaker fs (ClientBaseDir fs) info infoHash in
      if UpvertedFiles_panics info then (Panic ''upvertedFiles'', s)
      else
      call (on_disk (open_paths fs info dir 0 (UpvertedFiles info)) s)
        (\<lambda>files s.
           let t = \<lparr>fts_info = info, fts_files = files, fts_fileInfos = UpvertedFiles info,
                    fts_index = FileSegmentsIndex info, fts_infoHash = infoHash, fts_io = defaultFileIo,
                    fts_client = fs\<rparr> in
           if fts_partFiles t then
             call (setCompletionFromPartFiles t s) (\<lambda>_ s. (Ok t, s))
               (\<lambda>err s. (Err (Errorf ''setting completion from part files: '' err []), s))
           else (Ok t, s))
        (\<lambda>e s. (Err e, s)))"


section \<open>Reading and writing a torrent\<close>

text \<open>\<open>openSharedFile\<close>: the part file first, the finished file when that does not exist.\<close>

definition openSharedFile :: "('d, 'w) fileTorrentImpl \<Rightarrow> nat \<Rightarrow> 'd \<Rightarrow> handle res \<times> 'd" where
  "openSharedFile t i d =
     (if fts_partFiles t then
        call (openForSharedRead (fts_io t) (partFilePath (fts_files t ! i)) d) (\<lambda>h d. (Ok h, d))
          (\<lambda>err d. if errors_is err FsNotExist then openForSharedRead (fts_io t) (fts_files t ! i) d else (Err err, d))
      else openForSharedRead (fts_io t) (fts_files t ! i) d)"

text \<open>The loop of \<open>readFileAt\<close>; \<open>n\<close> is \<open>len(b)\<close>. Every round reads at least one byte or leaves.\<close>

function read_loop :: "('d, 'w) fileTorrentImpl \<Rightarrow> handle \<Rightarrow> int \<Rightarrow> nat \<Rightarrow> int \<Rightarrow> 'd \<Rightarrow> (string \<times> go_error option) res" where
  "read_loop t h len n off d =
     (if off < len \<and> n \<noteq> 0 then
        (case h_ReadAt (fts_io t) h n off d of
           Ok (b, err1) \<Rightarrow>
             if n < length b then Panic ''slice bounds out of range''
             else if b = [] then Ok ([], err1)
             else
               (case read_loop t h len (n - length b) (off + int (length b)) d of
                  Ok (b', err) \<Rightarrow> Ok (b @ b', err)
                | r \<Rightarrow> r)
         | Err e \<Rightarrow> Ok ([], Some e) | Panic p \<Rightarrow> Panic p | Hang \<Rightarrow> Hang)
      else Ok ([], None))"
  by pat_completeness auto
termination
  by (relation "measure (\<lambda>(t, h, len, n, off, d). n)") auto

declare read_loop.simps [simp del]

text \<open>\<open>readFileAt\<close> gives the bytes and the error beside them; a missing file reads as its end.\<close>

definition readFileAt :: "('d, 'w) fileTorrentImpl \<Rightarrow> nat \<Rightarrow> nat \<Rightarrow> int \<Rightarrow> 'd \<Rightarrow> (string \<times> go_error option) res \<times> 'd" where
  "readFileAt t i n off d =
     call (openSharedFile t i d)
       (\<lambda>f d.
          if int n > i64 (file_length t i - off) \<and> i64 (file_length t i - off) < 0
          then (Panic ''slice bounds out of range'', snd (h_Close (fts_io t) f d))
          else
            (let n' = (if int n > i64 (file_length t i - off) then nat (i64 (file_length t i - off)) else n) in
             (read_loop t f (file_length t i) n' off d, snd (h_Close (fts_io t) f d))))
       (\<lambda>err d. (Ok ([], Some (if errors_is err FsNotExist then Sentinel IoEOF else err)), d))"

text \<open>The loop of \<open>ReadAt\<close> over the located extents, with what is left of the buffer.\<close>

fun read_extents :: "('d, 'w) fileTorrentImpl \<Rightarrow> (nat \<times> Extent) list \<Rightarrow> nat \<Rightarrow> 'd \<Rightarrow> (string \<times> go_error option) res \<times> 'd" where
  "read_extents t [] n d = (Ok ([], if n \<noteq> 0 then Some (Sentinel IoEOF) else None), d)"
| "read_extents t ((i, e) # es) n d =
     (if ex_Length e < 0 \<or> int n < ex_Length e then (Panic ''slice bounds out of range'', d)
      else
        call (readFileAt t i (nat (ex_Length e)) (ex_Start e) d)
          (\<lambda>(b, err1) d.
             if int (length b) = ex_Length e then
               (if err1 = None \<or> err1 = Some (Sentinel IoEOF) then
                  call (read_extents t es (n - length b) d) (\<lambda>(b', err) d. (Ok (b @ b', err), d)) (\<lambda>e d. (Err e, d))
                else (Ok (b, err1), d))
             else if err1 = None then (Panic ''Nil'', d)
             else (Ok (b, err1), d))
          (\<lambda>e d. (Err e, d)))"

definition fts_ReadAt :: "('d, 'w) fileTorrentImpl \<Rightarrow> nat \<Rightarrow> int \<Rightarrow> 'd \<Rightarrow> (string \<times> go_error option) res \<times> 'd" where
  "fts_ReadAt t n off d =
     read_extents t (LocateIter (fts_index t) \<lparr>ex_Start = off, ex_Length = int n\<rparr>) n d"

definition fts_openForWrite :: "('d, 'w) fileTorrentImpl \<Rightarrow> nat \<Rightarrow> 'd \<Rightarrow> handle res \<times> 'd" where
  "fts_openForWrite t i d = openForWrite (fts_io t) (pathForWrite t i) (file_length t i) d"

text \<open>The loop of \<open>WriteAt\<close>; the result is the count of bytes written and the error beside it.\<close>

fun write_extents :: "('d, 'w) fileTorrentImpl \<Rightarrow> (nat \<times> Extent) list \<Rightarrow> string \<Rightarrow> 'd \<Rightarrow> (nat \<times> go_error option) res \<times> 'd" where
  "write_extents t [] p d = (Ok (0, None), d)"
| "write_extents t ((i, e) # es) p d =
     call (fts_openForWrite t i d)
       (\<lambda>f d.
          if ex_Length e < 0 \<or> int (length p) < ex_Length e then (Panic ''slice bounds out of range'', d)
          else
            (case h_WriteAt (fts_io t) f (take (nat (ex_Length e)) p) (ex_Start e) d of
               ((n1, err), d) \<Rightarrow>
                 let (closed, d) = h_Close (fts_io t) f d;
                     err = (if err = None then (case closed of Err ce \<Rightarrow> Some ce | _ \<Rightarrow> None) else err);
                     err = (if err = None \<and> int n1 \<noteq> ex_Length e then Some (Sentinel IoShortWrite) else err) in
                 if err \<noteq> None then (Ok (n1, err), d)
                 else call (write_extents t es (drop n1 p) d) (\<lambda>(n, err) d. (Ok (n1 + n, err), d)) (\<lambda>e d. (Err e, d))))
       (\<lambda>err d. (Ok (0, Some err), d))"

definition fts_WriteAt :: "('d, 'w) fileTorrentImpl \<Rightarrow> string \<Rightarrow> int \<Rightarrow> 'd \<Rightarrow> (nat \<times> go_error option) res \<times> 'd" where
  "fts_WriteAt t p off d =
     write_extents t (LocateIter (fts_index t) \<lparr>ex_Start = off, ex_Length = int (length p)\<rparr>) p d"

section \<open>Pieces\<close>

text \<open>\<open>Piece.Length\<close>: the loop over the files of a version 2 info, or \<open>V1Length\<close>; \<open>Panic\<close> as there.\<close>

fun v2_file_end :: "int \<Rightarrow> int \<Rightarrow> FileInfo list \<Rightarrow> int \<Rightarrow> int \<Rightarrow> int res" where
  "v2_file_end pl i [] offset lastFileEnd = Ok lastFileEnd"
| "v2_file_end pl i (fi # fis) offset lastFileEnd =
     (if offset \<noteq> fi_TorrentOffset fi then Panic ''NotEq''
      else if pl = 0 then Panic ''integer divide by zero''
      else if i < div64 offset pl then Ok lastFileEnd
      else (let stop = i64 (offset + fi_Length fi) in
            v2_file_end pl i fis (i64 (div64 (i64 (stop + pl - 1)) pl * pl)) stop))"

definition piece_Length :: "Info \<Rightarrow> int \<Rightarrow> int res" where
  "piece_Length info i =
     (if HasV2 info then
        (if UpvertedFiles_panics info then Panic ''upvertedFiles''
         else
           case v2_file_end (PieceLength info) i (UpvertedFiles info) 0 0 of
             Ok lastFileEnd \<Rightarrow>
               (let ret = min (i64 (lastFileEnd - i * PieceLength info)) (PieceLength info) in
                if ret \<le> 0 then Panic (int_dec ret) else Ok ret)
           | r \<Rightarrow> r)
      else (case V1Length info i of Some l \<Rightarrow> Ok l | None \<Rightarrow> Panic (int_dec i)))"

definition piece_Offset :: "Info \<Rightarrow> int \<Rightarrow> int" where
  "piece_Offset info i = i64 (i * PieceLength info)"

definition fileExtents :: "('d, 'w) fileTorrentImpl \<Rightarrow> int \<Rightarrow> (nat \<times> Extent) list res" where
  "fileExtents t p =
     (case piece_Length (fts_info t) p of
        Ok l \<Rightarrow> Ok (LocateIter (fts_index t) \<lparr>ex_Start = piece_Offset (fts_info t) p, ex_Length = l\<rparr>)
      | Err e \<Rightarrow> Err e | Panic m \<Rightarrow> Panic m | Hang \<Rightarrow> Hang)"

definition piece_Flush :: "('d, 'w) fileTorrentImpl \<Rightarrow> int \<Rightarrow> 'd \<Rightarrow> unit res \<times> 'd" where
  "piece_Flush t p d =
     call (fileExtents t p, d)
       (each (\<lambda>(i, e) d.
          call (io_flush (fts_io t) (pathForWrite t i) (ex_Start e) (ex_Length e) d) (\<lambda>_ d. (Ok (), d))
            (\<lambda>err1 d. (Err (Joined [Errorf (''flushing '' @ go_quote (pathForWrite t i) @ '':'' @ int_dec (ex_Start e) @
                ''+'' @ int_dec (ex_Length e) @ '': '') err1 []]), d))))
       (\<lambda>e d. (Err e, d))"

text \<open>\<open>Rename from if exists\<close>.\<close>

definition exclRenameIfExists :: "('d, 'w) fileTorrentImpl \<Rightarrow> string \<Rightarrow> string \<Rightarrow> 'd \<Rightarrow> bool res \<times> 'd" where
  "exclRenameIfExists t src dst d =
     call (io_rename (fts_io t) src dst d) (\<lambda>_ d. (Ok True, d))
       (\<lambda>err d. if errors_is err FsNotExist then (Ok False, d) else (Err err, d))"

definition promotePartFile :: "('m disk_scheme, 'w) fileTorrentImpl \<Rightarrow> nat \<Rightarrow> 'm disk_scheme \<Rightarrow> unit res \<times> 'm disk_scheme" where
  "promotePartFile t i d =
     (let part = partFilePath (fts_files t ! i);
          after = (\<lambda>d.
            if \<not> fts_partFiles t then (Ok (), d)
            else
              call (exclRenameIfExists t part (fts_files t ! i) d)
                (\<lambda>renamed d.
                   if \<not> renamed then (Ok (), d)
                   else call (os_Chmod (fts_files t ! i) False d) (\<lambda>_ d. (Ok (), d)) (\<lambda>_ d. (Ok (), d)))
                (\<lambda>e d. (Err e, d))) in
      call (io_flush (fts_io t) part 0 (file_length t i) d) (\<lambda>_ d. after d) (\<lambda>_ d. after d))"

text \<open>\<open>allFilePiecesComplete\<close>: the completions of the file's pieces one by one.\<close>

fun pieces_complete :: "('d, 'w) fileTorrentImpl \<Rightarrow> int list \<Rightarrow> 'w \<Rightarrow> bool res \<times> 'w" where
  "pieces_complete t [] w = (Ok True, w)"
| "pieces_complete t (p # ps) w =
     (let wrap = (\<lambda>e. Err (Errorf (''error getting completion for piece '' @ int_dec p @ '': '') e [])) in
      call (pc_Get (fts_completion t) (fts_infoHash t, p) w)
        (\<lambda>c w. (case cmp_Err c of
                   Some e \<Rightarrow> (wrap e, w)
                 | None \<Rightarrow> if \<not> cmp_Ok c \<or> \<not> cmp_Complete c then (Ok False, w) else pieces_complete t ps w))
        (\<lambda>e w. (wrap e, w)))"

definition allFilePiecesComplete :: "('d, 'w) fileTorrentImpl \<Rightarrow> nat \<Rightarrow> 'w \<Rightarrow> bool res \<times> 'w" where
  "allFilePiecesComplete t i = pieces_complete t [file_begin t i..file_end t i - 1]"

definition complete_file :: "('m disk_scheme, 'w) fileTorrentImpl \<Rightarrow> nat \<Rightarrow> 'm disk_scheme \<times> 'w \<Rightarrow> unit res \<times> 'm disk_scheme \<times> 'w" where
  "complete_file t i s =
     call (on_store (allFilePiecesComplete t i) s)
       (\<lambda>ok s.
          if \<not> ok then (Ok (), s)
          else
            call (on_disk (promotePartFile t i) s) (\<lambda>_ s. (Ok (), s))
              (\<lambda>err s. (Err (Errorf (''error promoting part file '' @ go_quote (fts_files t ! i) @ '': '') err []), s)))
       (\<lambda>e s. (Err e, s))"

definition MarkComplete :: "('m disk_scheme, 'w) fileTorrentImpl \<Rightarrow> int \<Rightarrow> 'm disk_scheme \<times> 'w \<Rightarrow> unit res \<times> 'm disk_scheme \<times> 'w" where
  "MarkComplete t p s =
     (let files = (\<lambda>s. call (fileExtents t p, s) (\<lambda>es. each (complete_file t) (map fst es)) (\<lambda>e s. (Err e, s))) in
      call (on_store (setPieceCompletion t p True) s)
        (\<lambda>_ s.
           if pieceCompletionIsPersistent (fts_completion t)
           then call (on_disk (piece_Flush t p) s) (\<lambda>_ s. files s) (\<lambda>_ s. files s)
           else files s)
        (\<lambda>e s. (Err e, s)))"

definition onFileNotComplete :: "('d, 'w) fileTorrentImpl \<Rightarrow> nat \<Rightarrow> 'd \<Rightarrow> unit res \<times> 'd" where
  "onFileNotComplete t i d =
     (if \<not> fts_partFiles t then (Ok (), d)
      else
        call (exclRenameIfExists t (fts_files t ! i) (partFilePath (fts_files t ! i)) d) (\<lambda>_ d. (Ok (), d))
          (\<lambda>err d. (Err (Errorf ''restoring part file: '' err []), d)))"

definition incomplete_file :: "('m disk_scheme, 'w) fileTorrentImpl \<Rightarrow> nat \<Rightarrow> 'm disk_scheme \<times> 'w \<Rightarrow> unit res \<times> 'm disk_scheme \<times> 'w" where
  "incomplete_file t i s =
     call (on_disk (onFileNotComplete t i) s) (\<lambda>_ s. (Ok (), s))
       (\<lambda>err s. (Err (Errorf (''preparing incomplete file '' @ go_quote (fts_files t ! i) @ '': '') err []), s))"

definition MarkNotComplete :: "('m disk_scheme, 'w) fileTorrentImpl \<Rightarrow> int \<Rightarrow> 'm disk_scheme \<times> 'w \<Rightarrow> unit res \<times> 'm disk_scheme \<times> 'w" where
  "MarkNotComplete t p s =
     call (on_store (setPieceCompletion t p False) s)
       (\<lambda>_ s. call (fileExtents t p, s) (\<lambda>es. each (incomplete_file t) (map fst es)) (\<lambda>e s. (Err e, s)))
       (\<lambda>e s. (Err e, s))"

text \<open>\<open>markIncompletePieces\<close> stops at the first error and keeps it to itself.\<close>

definition markIncompletePieces :: "('d, 'w) fileTorrentImpl \<Rightarrow> nat \<Rightarrow> int \<Rightarrow> 'w \<Rightarrow> unit res \<times> 'w" where
  "markIncompletePieces t i sz w =
     (let fi = fts_fileInfos t ! i; pl = PieceLength (fts_info t) in
      if sz \<ge> fi_Length fi then (Ok (), w)
      else if pl = 0 then (Panic ''integer divide by zero'', w)
      else
        call (each (\<lambda>p. setPieceCompletion t p False)
                [div64 (i64 (fi_TorrentOffset fi + sz)) pl..div64 (i64 (fi_TorrentOffset fi + fi_Length fi + pl - 1)) pl - 1] w)
          (\<lambda>_ w. (Ok (), w)) (\<lambda>_ w. (Ok (), w)))"

definition stat_either :: "('m disk_scheme, 'w) fileTorrentImpl \<Rightarrow> nat \<Rightarrow> 'm disk_scheme \<Rightarrow> int res" where
  "stat_either t i d =
     (case os_Stat (fts_files t ! i) d of
        Err e \<Rightarrow> if fts_partFiles t \<and> errors_is e FsNotExist then os_Stat (partFilePath (fts_files t ! i)) d else Err e
      | r \<Rightarrow> r)"

text \<open>\<open>checkCompleteFileSizes\<close>; the end of \<open>iterFileSegments\<close> panics when a piece of positive length has no file.\<close>

fun check_sizes :: "('m disk_scheme, 'w) fileTorrentImpl \<Rightarrow> (nat \<times> Extent) list \<Rightarrow> 'm disk_scheme \<times> 'w \<Rightarrow> completion res \<times> 'm disk_scheme \<times> 'w" where
  "check_sizes t [] s = (Ok \<lparr>cmp_Err = None, cmp_Ok = True, cmp_Complete = True\<rparr>, s)"
| "check_sizes t ((i, e) # es) s =
     (let no = \<lparr>cmp_Err = None, cmp_Ok = True, cmp_Complete = False\<rparr> in
      case stat_either t i (fst s) of
        Err err \<Rightarrow>
          if errors_is err FsNotExist
          then call (on_store (markIncompletePieces t i 0) s) (\<lambda>_ s. (Ok no, s)) (\<lambda>e s. (Err e, s))
          else (Ok (no\<lparr>cmp_Err := Some (Errorf (''checking file '' @ fts_files t ! i @ '': '') err [])\<rparr>), s)
      | Ok sz \<Rightarrow>
          if sz < Extent_End e
          then call (on_store (markIncompletePieces t i sz) s) (\<lambda>_ s. (Ok no, s)) (\<lambda>e s. (Err e, s))
          else check_sizes t es s
      | Panic m \<Rightarrow> (Panic m, s) | Hang \<Rightarrow> (Hang, s))"

definition checkCompleteFileSizes :: "('m disk_scheme, 'w) fileTorrentImpl \<Rightarrow> int \<Rightarrow> 'm disk_scheme \<times> 'w \<Rightarrow> completion res \<times> 'm disk_scheme \<times> 'w" where
  "checkCompleteFileSizes t p s =
     call (fileExtents t p, s)
       (\<lambda>es s. if es = [] \<and> piece_Length (fts_info t) p \<noteq> Ok 0 then (Panic ''NotEq'', s) else check_sizes t es s)
       (\<lambda>e s. (Err e, s))"

definition piece_Completion :: "('m disk_scheme, 'w) fileTorrentImpl \<Rightarrow> int \<Rightarrow> 'm disk_scheme \<times> 'w \<Rightarrow> completion res \<times> 'm disk_scheme \<times> 'w" where
  "piece_Completion t p s =
     call (on_store (getCompletion t p) s)
       (\<lambda>c s. if \<not> cmp_Ok c \<or> cmp_Err c \<noteq> None then (Ok c, s)
              else if cmp_Complete c then checkCompleteFileSizes t p s
              else (Ok c, s))
       (\<lambda>e s. (Err e, s))"

end
