(* ===== verification/FileStorageFacts.thy ===== *)
theory FileStorageFacts
  imports FileStorage
begin

text \<open>
  What the file storage guarantees: reads and writes through the located extents are reads and
  writes of one sequence of bytes, whichever implementation of \<open>fileIo\<close> is below; marking pieces
  moves files and keeps their bytes; opening a torrent keeps its files below the data directory
  and resets the completions that its files on disk do not bear out.
\<close>

section \<open>A torrent as one sequence of bytes\<close>

text \<open>The contents a reader finds: the part file's, else the finished file's.\<close>

definition source_of :: "('d, 'w) fileTorrentImpl \<Rightarrow> 'm disk_scheme \<Rightarrow> nat \<Rightarrow> string option" where
  "source_of t d i =
     (case content d (partFilePath (fts_files t ! i)) of
        Some x \<Rightarrow> Some x
      | None \<Rightarrow> content d (fts_files t ! i))"

text \<open>The bytes of a file: what is there, cut or extended with zeros to the length the torrent gives.\<close>

definition file_bytes :: "('d, 'w) fileTorrentImpl \<Rightarrow> 'm disk_scheme \<Rightarrow> nat \<Rightarrow> string" where
  "file_bytes t d i =
     resize (nat (file_length t i)) (case source_of t d i of None \<Rightarrow> [] | Some x \<Rightarrow> x)"

definition files_bytes :: "('d, 'w) fileTorrentImpl \<Rightarrow> 'm disk_scheme \<Rightarrow> string list" where
  "files_bytes t d = map (file_bytes t d) [0..<length (fts_files t)]"

definition torrent_bytes :: "('d, 'w) fileTorrentImpl \<Rightarrow> 'm disk_scheme \<Rightarrow> string" where
  "torrent_bytes t d = concat (files_bytes t d)"

text \<open>A version 1 torrent with part files, whose names are different and not each other's directories, and
  whose lengths add up to a number of 63 bits.\<close>

definition laid_out :: "('d, 'w) fileTorrentImpl \<Rightarrow> bool" where
  "laid_out t \<longleftrightarrow>
     fts_partFiles t \<and> length (fts_fileInfos t) = length (fts_files t) \<and>
     fts_index t = NewIndex 0 (map fi_Length (fts_fileInfos t)) \<and>
     list_all (\<lambda>fi. 0 \<le> fi_Length fi) (fts_fileInfos t) \<and>
     sum_list (map fi_Length (fts_fileInfos t)) < 2 ^ 63 \<and>
     distinct (fts_files t @ map partFilePath (fts_files t)) \<and>
     list_all (\<lambda>p. list_all (\<lambda>q. partFilePath p \<notin> set (dir_chain (path_Dir (partFilePath q)))) (fts_files t)) (fts_files t)"

text \<open>A file that is being written: its part file is there and not too long, or can be made and
  no finished file stands in its place.\<close>

definition in_progress :: "('d, 'w) fileTorrentImpl \<Rightarrow> 'm disk_scheme \<Rightarrow> nat \<Rightarrow> bool" where
  "in_progress t d i \<longleftrightarrow>
     (case content d (partFilePath (fts_files t ! i)) of
        Some x \<Rightarrow> int (length x) \<le> file_length t i
      | None \<Rightarrow> placeable d (partFilePath (fts_files t ! i)) \<and>
                (content d (fts_files t ! i) = None \<or> file_length t i = 0))"

declare content_None [simp del]

lemma laid_outD:
  assumes "laid_out t" "i < length (fts_files t)"
  shows "0 \<le> file_length t i" "pathForWrite t i = partFilePath (fts_files t ! i)"
    "partFilePath (fts_files t ! i) \<noteq> fts_files t ! j \<or> length (fts_files t) \<le> j"
    "j < length (fts_files t) \<Longrightarrow> j \<noteq> i \<Longrightarrow> partFilePath (fts_files t ! i) \<noteq> partFilePath (fts_files t ! j)"
    "j < length (fts_files t) \<Longrightarrow> j \<noteq> i \<Longrightarrow> fts_files t ! i \<noteq> fts_files t ! j"
    "j < length (fts_files t) \<Longrightarrow> partFilePath (fts_files t ! i) \<notin> set (dir_chain (path_Dir (partFilePath (fts_files t ! j))))"
proof -
  have d: "distinct (fts_files t)" "distinct (map partFilePath (fts_files t))"
    "set (fts_files t) \<inter> partFilePath ` set (fts_files t) = {}"
    using assms(1) by (auto simp: laid_out_def)
  show "0 \<le> file_length t i" "pathForWrite t i = partFilePath (fts_files t ! i)"
    using assms by (auto simp: laid_out_def file_length_def list_all_length pathForWrite_def)
  show "partFilePath (fts_files t ! i) \<noteq> fts_files t ! j \<or> length (fts_files t) \<le> j"
    using d(3) assms(2) by (metis disjoint_iff imageI not_le nth_mem)
  show "j < length (fts_files t) \<Longrightarrow> j \<noteq> i \<Longrightarrow> partFilePath (fts_files t ! i) \<noteq> partFilePath (fts_files t ! j)"
    by (simp add: partFilePath_def) (use d(1) assms(2) in \<open>simp add: nth_eq_iff_index_eq\<close>)
  show "j < length (fts_files t) \<Longrightarrow> j \<noteq> i \<Longrightarrow> fts_files t ! i \<noteq> fts_files t ! j"
    using d(1) assms(2) by (simp add: nth_eq_iff_index_eq)
  show "j < length (fts_files t) \<Longrightarrow> partFilePath (fts_files t ! i) \<notin> set (dir_chain (path_Dir (partFilePath (fts_files t ! j))))"
    using assms by (simp add: laid_out_def list_all_length)
qed

lemma view_source: "view d' = view d \<Longrightarrow> source_of t d' = source_of t d"
proof
  fix i assume "view d' = view d"
  then have c: "content d' = content d" by (simp add: view_def)
  show "source_of t d' i = source_of t d i" unfolding source_of_def c ..
qed

lemma view_bytes: "view d' = view d \<Longrightarrow> file_bytes t d' = file_bytes t d \<and> files_bytes t d' = files_bytes t d"
proof -
  assume "view d' = view d"
  then have s: "source_of t d' = source_of t d" by (rule view_source)
  show ?thesis unfolding files_bytes_def file_bytes_def [abs_def] s by blast
qed

lemma int_length_concat: "int (length (concat xs)) = sum_list (lens xs)"
  by (induction xs) auto

text \<open>What a change of one part file leaves of the other files.\<close>

lemma changed_other:
  assumes lay: "laid_out t" and i: "i < length (fts_files t)" and j: "j < length (fts_files t)" "j \<noteq> i"
    and ch: "changed (partFilePath (fts_files t ! i)) (Some y) d d'"
  shows "source_of t d' j = source_of t d j" "file_bytes t d' j = file_bytes t d j"
    "in_progress t d j \<Longrightarrow> in_progress t d' j"
proof -
  note l = laid_outD [OF lay i]
  have c: "content d' (partFilePath (fts_files t ! j)) = content d (partFilePath (fts_files t ! j))"
    "content d' (fts_files t ! j) = content d (fts_files t ! j)"
    using ch l(3) [of j] l(4) [OF j] j(1) by (auto simp: changed_def)
  show "source_of t d' j = source_of t d j" unfolding source_of_def c ..
  then show "file_bytes t d' j = file_bytes t d j" by (simp add: file_bytes_def)
  have names: "d_names d' q = None \<longleftrightarrow> d_names d q = None" if "q \<noteq> partFilePath (fts_files t ! i)" for q
    using ch that unfolding content_None [symmetric] by (simp add: changed_def)
  have "d_names d' q = None" if "q \<in> set (dir_chain (path_Dir (partFilePath (fts_files t ! j))))" "d_names d q = None" for q
    using names [of q] that l(6) [OF j(1)] by blast
  then have "placeable d' (partFilePath (fts_files t ! j))" if "placeable d (partFilePath (fts_files t ! j))"
    using that ch laid_outD(6) [OF lay j(1) i]
    by (auto simp: placeable_def list_all_iff changed_def)
  then show "in_progress t d j \<Longrightarrow> in_progress t d' j"
    by (auto simp: in_progress_def c split: option.splits)
qed

section \<open>Over either implementation\<close>

context file_io
begin

lemma view_quiet: "view d' = view d \<Longrightarrow> quiet d' = quiet d"
  by (simp add: view_def quiet_def)

lemma changed_quiet: "changed p x d d' \<Longrightarrow> quiet d' = quiet d"
  by (simp add: changed_def quiet_def)

text \<open>Writing one extent.\<close>

lemma write_extent:
  assumes io: "fts_io t = io" and lay: "laid_out t" and i: "i < length (fts_files t)"
    and st: "inv d" "quiet d" "in_progress t d i" and op: "openable (nat (file_length t i))"
    and b: "0 \<le> off" "off + int (length q) \<le> file_length t i"
  shows "\<exists>h d1 d2 d3 y. fts_openForWrite t i d = (Ok h, d1) \<and> h_WriteAt io h q off d1 = ((length q, None), d2) \<and>
    h_Close io h d2 = (Ok (), d3) \<and> inv d3 \<and> quiet d3 \<and> changed (partFilePath (fts_files t ! i)) (Some y) d d3 \<and>
    int (length y) \<le> file_length t i \<and> openable (length y) \<and> (q \<noteq> [] \<longrightarrow> off + int (length q) \<le> int (length y)) \<and>
    resize (nat (file_length t i)) y = overwrite off q (file_bytes t d i)"
proof -
  let ?p = "partFilePath (fts_files t ! i)" and ?sz = "nat (file_length t i)"
  note l = laid_outD [OF lay i]
  have len: "file_length t i = int ?sz" using l(1) by simp
  let ?old = "case content d ?p of None \<Rightarrow> [] | Some x \<Rightarrow> x"
  have old: "length ?old \<le> ?sz" "content d ?p \<noteq> None \<or> placeable d ?p" "resize ?sz ?old = file_bytes t d i"
    using st(3) l(1) by (auto simp: in_progress_def file_bytes_def source_of_def resize_def split: option.splits)
  from open_write [OF st(1,2) op old(2) refl old(1)] obtain h d1 x where
    1: "openForWrite io ?p (int ?sz) d = (Ok h, d1)" "inv d1" "wlive h ?p ?sz d1" "changed ?p (Some x) d d1"
      "length x \<le> ?sz" "resize ?sz x = resize ?sz ?old" by blast
  have q1: "quiet d1" using st(2) changed_quiet [OF 1(4)] by simp
  have x: "content d1 ?p = Some x" using 1(4) by (simp add: changed_def)
  have "off + int (length q) \<le> int ?sz" using b len by simp
  from write_at [OF 1(2) q1 op 1(3) x 1(5) b(1) this] obtain d2 y where
    2: "h_WriteAt io h q off d1 = ((length q, None), d2)" "inv d2" "wlive h ?p ?sz d2" "changed ?p (Some y) d1 d2"
      "length y \<le> ?sz" "openable (length y)" "q \<noteq> [] \<longrightarrow> off + int (length q) \<le> int (length y)"
      "resize ?sz y = overwrite off q (resize ?sz x)" by blast
  from close [OF 2(2) wlive_live [OF 2(3)]] obtain d3 where
    3: "h_Close io h d2 = (Ok (), d3)" "inv d3" "view d3 = view d2" by blast
  have "changed ?p (Some y) d d3" using changed_view [OF changed_trans [OF 1(4) 2(4)] 3(3)] .
  moreover have "quiet d3" using q1 changed_quiet [OF 2(4)] view_quiet [OF 3(3)] by simp
  moreover have "fts_openForWrite t i d = (Ok h, d1)" using 1(1) io l(1,2) by (simp add: fts_openForWrite_def)
  ultimately show ?thesis using 1 2 3 old(3) len by (metis of_nat_le_iff)
qed

definition fits :: "('m disk_scheme, 'w) fileTorrentImpl \<Rightarrow> nat \<times> Extent \<Rightarrow> bool" where
  "fits t x \<longleftrightarrow> fst x < length (fts_files t) \<and> 0 \<le> ex_Start (snd x) \<and> 0 \<le> ex_Length (snd x) \<and>
     ex_Start (snd x) + ex_Length (snd x) \<le> file_length t (fst x) \<and> file_length t (fst x) < 2 ^ 63"

definition ready :: "('m disk_scheme, 'w) fileTorrentImpl \<Rightarrow> 'm disk_scheme \<Rightarrow> nat \<times> Extent \<Rightarrow> bool" where
  "ready t d x \<longleftrightarrow> (\<exists>y. source_of t d (fst x) = Some y \<and> openable (length y) \<and>
     (ex_Length (snd x) \<noteq> 0 \<longrightarrow> ex_Start (snd x) + ex_Length (snd x) \<le> int (length y)))"

lemma write_extents_works:
  assumes io: "fts_io t = io" and lay: "laid_out t"
    and "inv d" "quiet d" "\<forall>i < length (fts_files t). in_progress t d i"
    and "\<forall>x \<in> set es. fits t x \<and> openable (nat (file_length t (fst x)))" "distinct (map fst es)"
    and "sum_list (map (\<lambda>(i, e). ex_Length e) es) = int (length p)"
  shows "\<exists>d'. write_extents t es p d = (Ok (length p, None), d') \<and> inv d' \<and> quiet d' \<and>
    (\<forall>i < length (fts_files t). in_progress t d' i) \<and> files_bytes t d' = deal es p (files_bytes t d) \<and>
    (\<forall>x \<in> set es. ready t d' x) \<and>
    (\<forall>i < length (fts_files t). i \<notin> fst ` set es \<longrightarrow> source_of t d' i = source_of t d i)"
  using assms(3-)
proof (induction es arbitrary: p d)
  case (Cons x es)
  obtain i e where x: "x = (i, e)" by (cases x)
  let ?n = "nat (ex_Length e)"
  have f: "i < length (fts_files t)" "0 \<le> ex_Start e" "0 \<le> ex_Length e" "ex_Start e + ex_Length e \<le> file_length t i"
    "openable (nat (file_length t i))"
    using Cons.prems(4) by (auto simp: x fits_def)
  have nonneg: "0 \<le> sum_list (map (\<lambda>(i, e). ex_Length e) es)"
    using Cons.prems(4) by (intro sum_list_nonneg) (auto simp: fits_def)
  have n: "?n \<le> length p" "int ?n = ex_Length e" using Cons.prems(6) f(3) nonneg by (auto simp: x)
  have lq: "length (take ?n p) = ?n" using n(1) by simp
  have "ex_Start e + int (length (take ?n p)) \<le> file_length t i"
    using f n by simp
  moreover have "in_progress t d i" using Cons.prems(3) f(1) by blast
  ultimately obtain h d1 d2 d3 y where
    w: "fts_openForWrite t i d = (Ok h, d1)" "h_WriteAt io h (take ?n p) (ex_Start e) d1 = ((?n, None), d2)"
      "h_Close io h d2 = (Ok (), d3)" "inv d3" "quiet d3" "changed (partFilePath (fts_files t ! i)) (Some y) d d3"
      "int (length y) \<le> file_length t i" "openable (length y)"
      "take ?n p \<noteq> [] \<longrightarrow> ex_Start e + int ?n \<le> int (length y)"
      "resize (nat (file_length t i)) y = overwrite (ex_Start e) (take ?n p) (file_bytes t d i)"
    using write_extent [OF io lay f(1) Cons.prems(1,2) _ f(5) f(2), of "take ?n p"] unfolding lq by blast
  have src: "source_of t d3 i = Some y" using w(6) by (simp add: source_of_def changed_def)
  have prog: "\<forall>j < length (fts_files t). in_progress t d3 j"
    using changed_other(3) [OF lay f(1) _ _ w(6)] Cons.prems(3) w(6,7)
    by (metis (no_types, lifting) changed_def fun_upd_same in_progress_def option.simps(5))
  have bytes: "files_bytes t d3 = (files_bytes t d)[i := overwrite (ex_Start e) (take ?n p) (files_bytes t d ! i)]"
  proof (rule nth_equalityI)
    fix j assume "j < length (files_bytes t d3)"
    then have j: "j < length (fts_files t)" by (simp add: files_bytes_def)
    show "files_bytes t d3 ! j = (files_bytes t d)[i := overwrite (ex_Start e) (take ?n p) (files_bytes t d ! i)] ! j"
      using j f(1) changed_other(2) [OF lay f(1) j _ w(6)] src w(10)
      by (cases "j = i") (auto simp: files_bytes_def file_bytes_def [of t d3])
  qed (simp add: files_bytes_def)
  have "sum_list (map (\<lambda>(i, e). ex_Length e) es) = int (length (drop ?n p))"
    using Cons.prems(6) n by (simp add: x of_nat_diff)
  with Cons.IH [OF w(4,5) prog, of "drop ?n p"] Cons.prems(4,5) obtain d' where
    ih: "write_extents t es (drop ?n p) d3 = (Ok (length (drop ?n p), None), d')" "inv d'" "quiet d'"
      "\<forall>i < length (fts_files t). in_progress t d' i" "files_bytes t d' = deal es (drop ?n p) (files_bytes t d3)"
      "\<forall>x \<in> set es. ready t d' x"
      "\<forall>i < length (fts_files t). i \<notin> fst ` set es \<longrightarrow> source_of t d' i = source_of t d3 i"
    by auto
  have "write_extents t (x # es) p d = (Ok (length p, None), d')"
    using w(1-3) ih(1) n f(3) io by (simp add: x)
  moreover have "i \<notin> fst ` set es" using Cons.prems(5) by (simp add: x)
  then have s: "source_of t d' i = Some y" using ih(7) f(1) src by simp
  moreover have "ready t d' x"
    using s w(8,9) n f(3) by (auto simp: ready_def x)
  moreover have "\<forall>j < length (fts_files t). j \<notin> fst ` set (x # es) \<longrightarrow> source_of t d' j = source_of t d j"
    using ih(7) changed_other(1) [OF lay f(1) _ _ w(6)] by (auto simp: x)
  ultimately show ?case using ih bytes by (simp add: x)
qed simp

text \<open>Reading one extent of a file that is there.\<close>

lemma openSharedFile_works:
  assumes io: "fts_io t = io" and pf: "fts_partFiles t" and st: "inv d" "quiet d"
    and x: "source_of t d i = Some x" "openable (length x)"
  shows "\<exists>h d' p. openSharedFile t i d = (Ok h, d') \<and> inv d' \<and> live h p d' \<and> view d' = view d \<and> content d' p = Some x"
proof -
  let ?part = "partFilePath (fts_files t ! i)" and ?safe = "fts_files t ! i"
  have opens: "\<exists>h d'. openForSharedRead io p d = (Ok h, d') \<and> inv d' \<and> live h p d' \<and> view d' = view d \<and> content d' p = Some x"
    if "content d p = Some x" for p
    using open_read [OF st that x(2)] that by (auto simp: view_def)
  show ?thesis
  proof (cases "content d ?part")
    case None
    from open_missing [OF st None] obtain e where "openForSharedRead io ?part d = (Err e, d)" "errors_is e FsNotExist"
      by blast
    with opens [of ?safe] x(1) None pf io show ?thesis by (auto simp: openSharedFile_def source_of_def)
  next
    case (Some y)
    with opens [of ?part] x(1) pf io show ?thesis by (auto simp: openSharedFile_def source_of_def)
  qed
qed

lemma read_loop_works:
  assumes io: "fts_io t = io" and st: "inv d" "quiet d" "live h p d" "content d p = Some x"
    and b: "0 \<le> off" "off + int n \<le> len" "n \<noteq> 0 \<longrightarrow> off + int n \<le> int (length x)"
  shows "read_loop t h len n off d = Ok (slice off (int n) x, None)"
proof (cases "n = 0")
  case True
  then show ?thesis by (simp add: read_loop.simps slice_def)
next
  case False
  with b have o: "off \<le> int (length x)" "off < len" by auto
  from read_at [OF st b(1) o(1), of n] obtain err where
    r: "h_ReadAt io h n off d = Ok (slice off (int n) x, err)" by blast
  have l: "length (slice off (int n) x) = n" using b False by (auto simp: slice_def)
  then have ne: "slice off (int n) x \<noteq> []" using False by auto
  have stop: "read_loop t h len 0 o' d = Ok ([], None)" for o' by (simp add: read_loop.simps)
  show ?thesis
    by (subst read_loop.simps) (use r l ne o False io stop in simp)
qed

lemma readFileAt_works:
  assumes io: "fts_io t = io" and pf: "fts_partFiles t" and st: "inv d" "quiet d"
    and f: "fits t (i, e)" and r: "ready t d (i, e)"
  shows "\<exists>d'. readFileAt t i (nat (ex_Length e)) (ex_Start e) d =
      (Ok (slice (ex_Start e) (ex_Length e) (file_bytes t d i), None), d') \<and> inv d' \<and> view d' = view d"
proof -
  from r obtain x where x: "source_of t d i = Some x" "openable (length x)"
    "ex_Length e \<noteq> 0 \<longrightarrow> ex_Start e + ex_Length e \<le> int (length x)" by (auto simp: ready_def)
  from openSharedFile_works [OF io pf st x(1,2)] obtain h d1 p where
    1: "openSharedFile t i d = (Ok h, d1)" "inv d1" "live h p d1" "view d1 = view d" "content d1 p = Some x" by blast
  have q: "quiet d1" using st(2) view_quiet [OF 1(4)] by simp
  have b: "0 \<le> ex_Start e" "0 \<le> ex_Length e" "ex_Start e + int (nat (ex_Length e)) \<le> file_length t i"
    "nat (ex_Length e) \<noteq> 0 \<longrightarrow> ex_Start e + int (nat (ex_Length e)) \<le> int (length x)"
    using f x(3) by (auto simp: fits_def)
  note rl = read_loop_works [OF io 1(2) q 1(3,5) b(1,3,4)]
  from close [OF 1(2,3)] obtain d2 where 2: "h_Close io h d1 = (Ok (), d2)" "inv d2" "view d2 = view d1" by blast
  have "slice (ex_Start e) (ex_Length e) x = slice (ex_Start e) (ex_Length e) (file_bytes t d i)"
  proof -
    have "nat (ex_Length e) \<le> nat (file_length t i) - nat (ex_Start e)"
      "nat (ex_Length e) \<noteq> 0 \<longrightarrow> nat (ex_Length e) \<le> length x - nat (ex_Start e)" using b by linarith+
    with b x show ?thesis
      by (cases "ex_Length e = 0") (auto simp: slice_def file_bytes_def resize_def drop_take)
  qed
  moreover have "i64 (file_length t i - ex_Start e) = file_length t i - ex_Start e"
    using f b by (intro i64_nonneg) (auto simp: fits_def)
  ultimately show ?thesis using 1 2 rl b io by (simp add: readFileAt_def)
qed

lemma read_extents_works:
  assumes io: "fts_io t = io" and pf: "fts_partFiles t"
    and "inv d" "quiet d" "\<forall>x \<in> set es. fits t x \<and> ready t d x"
    and "sum_list (map (\<lambda>(i, e). ex_Length e) es) = int n"
  shows "\<exists>d'. read_extents t es n d = (Ok (gather 0 (files_bytes t d) es, None), d') \<and> inv d' \<and> view d' = view d"
  using assms(3-)
proof (induction es arbitrary: n d)
  case (Cons x es)
  obtain i e where x: "x = (i, e)" by (cases x)
  let ?b = "slice (ex_Start e) (ex_Length e) (file_bytes t d i)"
  have fr: "fits t (i, e)" "ready t d (i, e)" using Cons.prems(3) by (auto simp: x)
  from readFileAt_works [OF io pf Cons.prems(1,2) fr] obtain d1 where
    1: "readFileAt t i (nat (ex_Length e)) (ex_Start e) d = (Ok (?b, None), d1)" "inv d1" "view d1 = view d" by blast
  have b: "0 \<le> ex_Start e" "0 \<le> ex_Length e" "ex_Start e + ex_Length e \<le> file_length t i" "i < length (fts_files t)"
    using fr(1) by (auto simp: fits_def)
  then have lb: "int (length ?b) = ex_Length e" by (simp add: slice_def file_bytes_def)
  have nonneg: "0 \<le> sum_list (map (\<lambda>(i, e). ex_Length e) es)"
    using Cons.prems(3) by (intro sum_list_nonneg) (auto simp: fits_def)
  have same: "ready t d1 y = ready t d y" "files_bytes t d1 = files_bytes t d" "quiet d1" for y
    using Cons.prems(2) view_quiet [OF 1(3)] view_bytes [OF 1(3), of t]
    by (simp_all add: ready_def view_source [OF 1(3)])
  have "sum_list (map (\<lambda>(i, e). ex_Length e) es) = int (n - length ?b)"
    using Cons.prems(4) lb nonneg by (simp add: x)
  with Cons.IH [OF 1(2) same(3), of "n - length ?b"] Cons.prems(3) obtain d2 where
    2: "read_extents t es (n - length ?b) d1 = (Ok (gather 0 (files_bytes t d1) es, None), d2)" "inv d2" "view d2 = view d1"
    by (auto simp: same)
  have "gather 0 (files_bytes t d) (x # es) = ?b @ gather 0 (files_bytes t d) es"
    using b(4) by (simp add: gather_def x files_bytes_def)
  then show ?case using 1 2 b lb nonneg Cons.prems(4) by (simp add: x same)
qed (simp add: gather_def)

subsection \<open>The whole torrent\<close>

lemma lens_files_bytes:
  assumes "laid_out t"
  shows "lens (files_bytes t d) = map fi_Length (fts_fileInfos t)"
proof (rule nth_equalityI)
  fix i assume "i < length (lens (files_bytes t d))"
  then have "i < length (fts_files t)" by (simp add: files_bytes_def)
  then show "lens (files_bytes t d) ! i = map fi_Length (fts_fileInfos t) ! i"
    using laid_outD(1) [OF assms, of i] assms by (simp add: files_bytes_def file_bytes_def file_length_def laid_out_def)
qed (use assms in \<open>simp add: files_bytes_def laid_out_def\<close>)

lemma laid_out_length:
  assumes "laid_out t" "i < length (fts_files t)"
  shows "file_length t i < 2 ^ 63"
proof -
  have "file_length t i \<le> sum_list (map fi_Length (fts_fileInfos t))"
    using assms by (intro member_le_sum_list) (auto simp: laid_out_def file_length_def list_all_iff)
  then show ?thesis using assms(1) by (simp add: laid_out_def)
qed

lemma laid_out_within: "laid_out t \<Longrightarrow> within64 0 (map fi_Length (fts_fileInfos t))"
  by (auto simp: laid_out_def within64_def list_all_iff)

lemma located:
  assumes lay: "laid_out t" and off: "0 \<le> off" and n: "0 < n" and small: "off + int n < 2 ^ 63"
  defines "es \<equiv> LocateIter (fts_index t) \<lparr>ex_Start = off, ex_Length = int n\<rparr>"
  shows "es = walk 0 (lens (files_bytes t d)) off (int n)" and "\<forall>x \<in> set es. fits t x" and "distinct (map fst es)"
    and "off + int n \<le> int (length (torrent_bytes t d)) \<Longrightarrow> sum_list (map (\<lambda>(i, e). ex_Length e) es) = int n"
proof -
  let ?ls = "map fi_Length (fts_fileInfos t)"
  have pos: "\<forall>l \<in> set ?ls. 0 \<le> l" using lay by (auto simp: laid_out_def list_all_iff)
  have es: "es = walk 0 ?ls off (int n)"
    using LocateIter_walk [OF laid_out_within [OF lay] off, of "int n"] n small lay by (simp add: es_def laid_out_def)
  then show "es = walk 0 (lens (files_bytes t d)) off (int n)" by (simp add: lens_files_bytes [OF lay])
  show "\<forall>x \<in> set es. fits t x"
  proof
    fix x assume x: "x \<in> set es"
    obtain i e where ie: "x = (i, e)" by (cases x)
    have "length (fts_fileInfos t) = length (fts_files t)" using lay by (simp add: laid_out_def)
    with walk_bounds [of i e 0 ?ls off "int n"] x off pos laid_out_length [OF lay, of i] show "fits t x"
      by (auto simp: ie es fits_def file_length_def)
  qed
  show "distinct (map fst es)" by (simp add: es walk_distinct)
  have "int (length (torrent_bytes t d)) = sum_list ?ls"
    by (simp only: torrent_bytes_def int_length_concat lens_files_bytes [OF lay])
  then show "off + int n \<le> int (length (torrent_bytes t d)) \<Longrightarrow> sum_list (map (\<lambda>(i, e). ex_Length e) es) = int n"
    using walk_total [OF off, of "int n" ?ls 0] pos by (simp add: es)
qed

theorem WriteAt_works:
  assumes io: "fts_io t = io" and lay: "laid_out t" and st: "inv d" "quiet d"
    and prog: "\<forall>i < length (fts_files t). in_progress t d i"
    and op: "\<forall>i < length (fts_files t). openable (nat (file_length t i))"
    and b: "0 \<le> off" "0 < length p" "off + int (length p) \<le> int (length (torrent_bytes t d))"
  shows "\<exists>d' d''. fts_WriteAt t p off d = (Ok (length p, None), d') \<and> inv d' \<and> quiet d' \<and>
    (\<forall>i < length (fts_files t). in_progress t d' i) \<and> torrent_bytes t d' = overwrite off p (torrent_bytes t d) \<and>
    fts_ReadAt t (length p) off d' = (Ok (p, None), d'') \<and> inv d'' \<and> view d'' = view d'"
proof -
  let ?es = "LocateIter (fts_index t) \<lparr>ex_Start = off, ex_Length = int (length p)\<rparr>"
  have "int (length (torrent_bytes t d)) < 2 ^ 63"
    using lay by (simp only: torrent_bytes_def int_length_concat lens_files_bytes [OF lay] laid_out_def)
  then have small: "off + int (length p) < 2 ^ 63" using b(3) by linarith
  note es = located [OF lay b(1,2) small]
  have fo: "\<forall>x \<in> set ?es. fits t x \<and> openable (nat (file_length t (fst x)))"
    using es(2) op by (auto simp: fits_def)
  from write_extents_works [OF io lay st prog fo es(3) es(4) [OF b(3)]] obtain d' where
    w: "write_extents t ?es p d = (Ok (length p, None), d')" "inv d'" "quiet d'"
      "\<forall>i < length (fts_files t). in_progress t d' i" "files_bytes t d' = deal ?es p (files_bytes t d)"
      "\<forall>x \<in> set ?es. ready t d' x" by blast
  have bytes: "torrent_bytes t d' = overwrite off p (torrent_bytes t d)"
    using deal_walk [OF b(1), of p "files_bytes t d" "[]"] b(3) w(5) es(1) [of d]
    by (auto simp: torrent_bytes_def)
  have len: "off + int (length p) \<le> int (length (torrent_bytes t d'))"
    using b by (simp add: bytes length_overwrite)
  have "\<forall>x \<in> set ?es. fits t x \<and> ready t d' x" using es(2) w(6) by blast
  from read_extents_works [OF io _ w(2,3) this es(4) [OF len]] lay obtain d'' where
    r: "read_extents t ?es (length p) d' = (Ok (gather 0 (files_bytes t d') ?es, None), d'')" "inv d''" "view d'' = view d'"
    by (auto simp: laid_out_def)
  have "gather 0 (files_bytes t d') ?es = slice off (int (length p)) (torrent_bytes t d')"
    using gather_walk [OF b(1), of "int (length p)" 0 "files_bytes t d'"] es(1) [of d'] by (simp add: torrent_bytes_def)
  also have "\<dots> = p" using b by (simp add: bytes slice_overwrite)
  finally show ?thesis using w r bytes by (auto simp: fts_WriteAt_def fts_ReadAt_def)
qed

end


section \<open>Marking pieces\<close>

text \<open>A file has one of its two names, and all its bytes.\<close>

definition tidy :: "('d, 'w) fileTorrentImpl \<Rightarrow> 'm disk_scheme \<Rightarrow> bool" where
  "tidy t d \<longleftrightarrow> (\<forall>i < length (fts_files t).
     (content d (partFilePath (fts_files t ! i)) = None \<or> content d (fts_files t ! i) = None) \<and>
     (\<forall>x. source_of t d i = Some x \<longrightarrow> int (length x) = file_length t i))"

text \<open>The bytes of file \<open>i\<close> are at one name and not at the other.\<close>

definition at_name :: "string \<Rightarrow> string \<Rightarrow> string option \<Rightarrow> 'm disk_scheme \<Rightarrow> bool" where
  "at_name p q x d \<longleftrightarrow> content d p = x \<and> content d q = None"

definition sources :: "('d, 'w) fileTorrentImpl \<Rightarrow> 'm disk_scheme \<Rightarrow> string option list" where
  "sources t d = map (source_of t d) [0..<length (fts_files t)]"

lemma sources_bytes: "sources t d' = sources t d \<Longrightarrow> torrent_bytes t d' = torrent_bytes t d"
proof -
  assume "sources t d' = sources t d"
  then have "file_bytes t d' i = file_bytes t d i" if "i < length (fts_files t)" for i
    using that by (simp add: sources_def file_bytes_def)
  then have "files_bytes t d' = files_bytes t d" by (simp add: files_bytes_def)
  then show ?thesis by (simp add: torrent_bytes_def)
qed

text \<open>Moving the bytes of one file between its names.\<close>

lemma moved:
  assumes lay: "laid_out t" and i: "i < length (fts_files t)" and td: "tidy t d"
    and c: "content d' = (content d)(p := None, q := source_of t d i)"
    and pq: "{p, q} = {fts_files t ! i, partFilePath (fts_files t ! i)}" "p \<noteq> q"
  shows "sources t d' = sources t d" "tidy t d'" "at_name q p (source_of t d i) d'"
    "j < length (fts_files t) \<Longrightarrow> j \<noteq> i \<Longrightarrow> content d' (fts_files t ! j) = content d (fts_files t ! j) \<and>
      content d' (partFilePath (fts_files t ! j)) = content d (partFilePath (fts_files t ! j))"
proof -
  have other: "content d' (fts_files t ! j) = content d (fts_files t ! j) \<and>
      content d' (partFilePath (fts_files t ! j)) = content d (partFilePath (fts_files t ! j))"
    if j: "j < length (fts_files t)" "j \<noteq> i" for j
    using c pq laid_outD(3-5) [OF lay i, of j] laid_outD(3) [OF lay j(1), of i] j i by (auto simp: doubleton_eq_iff)
  have src: "source_of t d' j = source_of t d j" if j: "j < length (fts_files t)" for j
  proof (cases "j = i")
    case True
    then show ?thesis using c pq by (auto simp: source_of_def [of t d'] doubleton_eq_iff split: option.splits)
  next
    case False
    show ?thesis unfolding source_of_def using other [OF j False] by (simp split: option.splits)
  qed
  show "sources t d' = sources t d" by (simp add: sources_def src)
  have one: "content d' p = None" "content d' q = source_of t d i" using c pq(2) by auto
  show "at_name q p (source_of t d i) d'" by (simp add: at_name_def one)
  show "tidy t d'" unfolding tidy_def
  proof (intro allI impI conjI)
    fix j assume j: "j < length (fts_files t)"
    show "content d' (partFilePath (fts_files t ! j)) = None \<or> content d' (fts_files t ! j) = None"
      using td j other [OF j] one pq by (cases "j = i") (auto simp: tidy_def doubleton_eq_iff)
    show "int (length x) = file_length t j" if "source_of t d' j = Some x" for x
      using td j src that by (simp add: tidy_def)
  qed
  show "j < length (fts_files t) \<Longrightarrow> j \<noteq> i \<Longrightarrow> content d' (fts_files t ! j) = content d (fts_files t ! j) \<and>
      content d' (partFilePath (fts_files t ! j)) = content d (partFilePath (fts_files t ! j))"
    by (rule other)
qed

lemma partFilePath_neq [simp]: "partFilePath p \<noteq> p" "p \<noteq> partFilePath p"
  by (auto simp: partFilePath_def)

context file_io
begin

lemma rename_works:
  assumes st: "inv d" "quiet d" and pq: "p \<noteq> q" and one: "content d p = None \<or> content d q = None"
    and io: "fts_io t = io"
  shows "\<exists>d'. exclRenameIfExists t p q d = (Ok (content d p \<noteq> None), d') \<and> inv d' \<and> quiet d' \<and>
    content d' = (content d)(p := None, q := (if content d p = None then content d q else content d p))"
proof (cases "content d p")
  case None
  from rename_missing [OF st None, of q] obtain e d' where
    "io_rename io p q d = (Err e, d')" "errors_is e FsNotExist" "inv d'" "view d' = view d" by blast
  with None st io view_quiet [of d' d] show ?thesis
    by (auto simp: exclRenameIfExists_def view_def)
next
  case (Some x)
  from rename [OF st Some pq] obtain d' where
    "io_rename io p q d = (Ok (), d')" "inv d'" "content d' = (content d)(p := None, q := Some x)" "d_refuses d' = d_refuses d"
    by blast
  with Some st io show ?thesis by (auto simp: exclRenameIfExists_def quiet_def)
qed

lemma promote_works:
  assumes io: "fts_io t = io" and lay: "laid_out t" and i: "i < length (fts_files t)"
    and st: "inv d" "quiet d" and td: "tidy t d"
  shows "\<exists>d'. promotePartFile t i d = (Ok (), d') \<and> inv d' \<and> quiet d' \<and>
    content d' = (content d)(partFilePath (fts_files t ! i) := None, fts_files t ! i := source_of t d i)"
proof -
  let ?part = "partFilePath (fts_files t ! i)" and ?safe = "fts_files t ! i"
  have pf: "fts_partFiles t" using lay by (simp add: laid_out_def)
  have len: "0 + file_length t i \<le> int (length x)" if "content d ?part = Some x" for x
    using td i that by (auto simp: tidy_def source_of_def)
  obtain r where r: "io_flush io ?part 0 (file_length t i) d = (r, d)" "returns r"
    using flush [OF st, of 0 "file_length t i" ?part] laid_outD(1) [OF lay i] len by auto
  have one: "content d ?part = None \<or> content d ?safe = None" using td i by (auto simp: tidy_def)
  from rename_works [OF st _ one io] obtain d1 where
    1: "exclRenameIfExists t ?part ?safe d = (Ok (content d ?part \<noteq> None), d1)" "inv d1" "quiet d1"
      "content d1 = (content d)(?part := None, ?safe := (if content d ?part = None then content d ?safe else content d ?part))"
    by auto
  have src: "(if content d ?part = None then content d ?safe else content d ?part) = source_of t d i"
    by (auto simp: source_of_def split: option.splits)
  obtain r2 d2 where 2: "os_Chmod ?safe False d1 = (r2, d2)" "returns r2" "inv d2" "view d2 = view d1"
    using chmod [OF 1(2,3)] by blast
  have c2: "content d2 = content d1" "quiet d2" using 2(4) 1(3) view_quiet [OF 2(4)] by (auto simp: view_def)
  have "promotePartFile t i d = (Ok (), if content d ?part \<noteq> None then d2 else d1)"
    using r 1(1) 2(1,2) io pf
    by (cases rule: returnsE [OF r(2)]; cases rule: returnsE [OF 2(2)]) (auto simp: promotePartFile_def Let_def)
  then show ?thesis using 1 2 c2 src by auto
qed

lemma demote_works:
  assumes io: "fts_io t = io" and lay: "laid_out t" and i: "i < length (fts_files t)"
    and st: "inv d" "quiet d" and td: "tidy t d"
  shows "\<exists>d'. onFileNotComplete t i d = (Ok (), d') \<and> inv d' \<and> quiet d' \<and>
    content d' = (content d)(fts_files t ! i := None, partFilePath (fts_files t ! i) := source_of t d i)"
proof -
  let ?part = "partFilePath (fts_files t ! i)" and ?safe = "fts_files t ! i"
  have pf: "fts_partFiles t" using lay by (simp add: laid_out_def)
  have one: "content d ?safe = None \<or> content d ?part = None" using td i by (auto simp: tidy_def)
  from rename_works [OF st _ one io] obtain d1 where
    1: "exclRenameIfExists t ?safe ?part d = (Ok (content d ?safe \<noteq> None), d1)" "inv d1" "quiet d1"
      "content d1 = (content d)(?safe := None, ?part := (if content d ?safe = None then content d ?part else content d ?safe))"
    by auto
  have "(if content d ?safe = None then content d ?part else content d ?safe) = source_of t d i"
    using one by (auto simp: source_of_def split: option.splits)
  with 1 pf show ?thesis by (simp add: onFileNotComplete_def)
qed

end


lemma each_returns:
  "(\<And>x. x \<in> set xs \<Longrightarrow> \<exists>r. f x s = (r, s) \<and> returns r) \<Longrightarrow> \<exists>r. each f xs s = (r, s) \<and> returns r"
proof (induction xs)
  case (Cons x xs)
  from Cons.prems [of x] obtain r where r: "f x s = (r, s)" "returns r" by auto
  from r(2) show ?case by (rule returnsE) (use r(1) Cons in simp_all)
qed simp

text \<open>What the piece repository says of all the pieces of a file.\<close>

definition file_done :: "('d, 'a piece_world_scheme) fileTorrentImpl \<Rightarrow> nat \<Rightarrow> 'a piece_world_scheme \<Rightarrow> bool" where
  "file_done t i w \<longleftrightarrow>
     list_all (\<lambda>q. piece_cache w (fts_infoHash t, q) = Some True) [file_begin t i..file_end t i - 1]"

lemma pieces_complete_repo:
  assumes "fts_completion t = repo_completion"
  shows "pieces_complete t ps w = (Ok (list_all (\<lambda>q. piece_cache w (fts_infoHash t, q) = Some True) ps), w)"
  using assms
proof (induction ps)
  case (Cons q ps)
  then show ?case
    by (cases "piece_cache w (fts_infoHash t, q)") (auto simp: repo_completion_def piece_Get_def Let_def)
qed simp

definition same_names :: "('d, 'w) fileTorrentImpl \<Rightarrow> nat \<Rightarrow> 'm disk_scheme \<Rightarrow> 'm disk_scheme \<Rightarrow> bool" where
  "same_names t j d d' \<longleftrightarrow> content d' (fts_files t ! j) = content d (fts_files t ! j) \<and>
     content d' (partFilePath (fts_files t ! j)) = content d (partFilePath (fts_files t ! j))"

lemma same_names_refl [simp]: "same_names t j d d"
  by (simp add: same_names_def)

lemma same_names_trans: "same_names t j d e \<Longrightarrow> same_names t j e f \<Longrightarrow> same_names t j d f"
  by (simp add: same_names_def)

lemma same_names_at:
  "same_names t j d e \<Longrightarrow> at_name (fts_files t ! j) (partFilePath (fts_files t ! j)) x e =
     at_name (fts_files t ! j) (partFilePath (fts_files t ! j)) x d"
  "same_names t j d e \<Longrightarrow> at_name (partFilePath (fts_files t ! j)) (fts_files t ! j) x e =
     at_name (partFilePath (fts_files t ! j)) (fts_files t ! j) x d"
  by (auto simp: same_names_def at_name_def)

lemma sources_nth: "sources t e = sources t d \<Longrightarrow> i < length (fts_files t) \<Longrightarrow> source_of t e i = source_of t d i"
  by (simp add: sources_def)

context file_io
begin

definition calm :: "('m disk_scheme, 'w) fileTorrentImpl \<Rightarrow> 'm disk_scheme \<Rightarrow> bool" where
  "calm t d \<longleftrightarrow> inv d \<and> quiet d \<and> tidy t d"

text \<open>The loop over the files of a piece: each file ends in the state its step gives it.\<close>

lemma each_file:
  assumes step: "\<And>i e. i < length (fts_files t) \<Longrightarrow> calm t e \<Longrightarrow>
      \<exists>e'. f i (e, w) = (Ok (), e', w) \<and> calm t e' \<and> sources t e' = sources t e \<and> Q i (source_of t e i) e e' \<and>
        (\<forall>j < length (fts_files t). j \<noteq> i \<longrightarrow> same_names t j e e')"
    and keep: "\<And>i x e e1 e2 e3. same_names t i e e1 \<Longrightarrow> Q i x e1 e2 \<Longrightarrow> same_names t i e2 e3 \<Longrightarrow> Q i x e e3"
    and "list_all (\<lambda>i. i < length (fts_files t)) is" "distinct is" "calm t d"
  shows "\<exists>d'. each f is (d, w) = (Ok (), d', w) \<and> calm t d' \<and> sources t d' = sources t d \<and>
    (\<forall>i \<in> set is. Q i (source_of t d i) d d') \<and>
    (\<forall>j < length (fts_files t). j \<notin> set is \<longrightarrow> same_names t j d d')"
  using assms(3-)
proof (induction "is" arbitrary: d)
  case (Cons i "is")
  from step [of i d] Cons.prems obtain e where
    e: "f i (d, w) = (Ok (), e, w)" "calm t e" "sources t e = sources t d" "Q i (source_of t d i) d e"
      "\<forall>j < length (fts_files t). j \<noteq> i \<longrightarrow> same_names t j d e" by auto
  from Cons.IH [OF _ _ e(2)] Cons.prems obtain d' where
    d': "each f is (e, w) = (Ok (), d', w)" "calm t d'" "sources t d' = sources t e"
      "\<forall>i \<in> set is. Q i (source_of t e i) e d'" "\<forall>j < length (fts_files t). j \<notin> set is \<longrightarrow> same_names t j e d'"
    by auto
  have "Q i (source_of t d i) d d'"
    using keep [OF same_names_refl e(4)] d'(5) Cons.prems(1,2) by simp
  moreover have "Q j (source_of t d j) d d'" if "j \<in> set is" for j
  proof -
    have "j < length (fts_files t)" "j \<noteq> i" using that Cons.prems(1,2) by (auto simp: list_all_iff)
    then show ?thesis
      using keep [OF _ _ same_names_refl, of j d e] e(3,5) d'(4) that sources_nth [of t e d j] by fastforce
  qed
  ultimately show ?case using e d' same_names_trans by (auto intro!: exI [of _ d']) blast
qed simp

lemma complete_file_works:
  assumes io: "fts_io t = io" and lay: "laid_out t" and pc: "fts_completion t = repo_completion"
    and i: "i < length (fts_files t)" and c: "calm t e"
  shows "\<exists>e'. complete_file t i (e, w) = (Ok (), e', w) \<and> calm t e' \<and> sources t e' = sources t e \<and>
      (if file_done t i w then at_name (fts_files t ! i) (partFilePath (fts_files t ! i)) (source_of t e i) e'
       else same_names t i e e') \<and>
      (\<forall>j < length (fts_files t). j \<noteq> i \<longrightarrow> same_names t j e e')"
proof -
  have "allFilePiecesComplete t i w = (Ok (file_done t i w), w)"
    using pieces_complete_repo [OF pc] by (simp add: allFilePiecesComplete_def file_done_def)
  then have cf: "complete_file t i (e, w) =
      (if file_done t i w
       then call (on_disk (promotePartFile t i) (e, w)) (\<lambda>_ s. (Ok (), s))
              (\<lambda>err s. (Err (Errorf (''error promoting part file '' @ go_quote (fts_files t ! i) @ '': '') err []), s))
       else (Ok (), e, w))"
    by (simp add: complete_file_def on_store_def)
  have st: "inv e" "quiet e" "tidy t e" using c by (auto simp: calm_def)
  from promote_works [OF io lay i st] obtain e' where
    e': "promotePartFile t i e = (Ok (), e')" "inv e'" "quiet e'"
      "content e' = (content e)(partFilePath (fts_files t ! i) := None, fts_files t ! i := source_of t e i)" by blast
  note mv = moved [OF lay i st(3) e'(4)]
  show ?thesis
  proof (cases "file_done t i w")
    case True
    with e' mv show ?thesis
      by (intro exI [of _ e']) (auto simp: cf on_disk_def calm_def same_names_def insert_commute)
  next
    case False
    with c show ?thesis by (simp add: cf)
  qed
qed

lemma incomplete_file_works:
  assumes io: "fts_io t = io" and lay: "laid_out t" and i: "i < length (fts_files t)" and c: "calm t e"
  shows "\<exists>e'. incomplete_file t i (e, w) = (Ok (), e', w) \<and> calm t e' \<and> sources t e' = sources t e \<and>
      at_name (partFilePath (fts_files t ! i)) (fts_files t ! i) (source_of t e i) e' \<and>
      (\<forall>j < length (fts_files t). j \<noteq> i \<longrightarrow> same_names t j e e')"
proof -
  have st: "inv e" "quiet e" "tidy t e" using c by (auto simp: calm_def)
  from demote_works [OF io lay i st] obtain e' where
    e': "onFileNotComplete t i e = (Ok (), e')" "inv e'" "quiet e'"
      "content e' = (content e)(fts_files t ! i := None, partFilePath (fts_files t ! i) := source_of t e i)" by blast
  with moved [OF lay i st(3) e'(4)] show ?thesis
    by (intro exI [of _ e']) (auto simp: incomplete_file_def on_disk_def calm_def same_names_def)
qed

lemma piece_extents:
  assumes lay: "laid_out t" and p: "0 \<le> piece_Offset (fts_info t) p" "piece_Length (fts_info t) p = Ok l" "0 < l"
    "piece_Offset (fts_info t) p + l < 2 ^ 63"
  obtains es where "fileExtents t p = Ok es" "\<forall>x \<in> set es. fits t x" "distinct (map fst es)"
    "list_all (\<lambda>i. i < length (fts_files t)) (map fst es)"
proof -
  note loc = located [OF lay p(1), of "nat l"]
  show ?thesis
    using that [of "LocateIter (fts_index t) \<lparr>ex_Start = piece_Offset (fts_info t) p, ex_Length = l\<rparr>"] loc(2,3) p
    by (auto simp: fileExtents_def fits_def list_all_iff)
qed

lemma piece_Flush_works:
  assumes io: "fts_io t = io" and lay: "laid_out t" and c: "calm t d"
    and es: "fileExtents t p = Ok es" "\<forall>x \<in> set es. fits t x"
  shows "\<exists>r. piece_Flush t p d = (r, d) \<and> returns r"
proof -
  let ?f = "\<lambda>(i, e) d. call (io_flush (fts_io t) (pathForWrite t i) (ex_Start e) (ex_Length e) d) (\<lambda>_ d. (Ok (), d))
      (\<lambda>err1 d. (Err (Joined [Errorf (''flushing '' @ go_quote (pathForWrite t i) @ '':'' @ int_dec (ex_Start e) @
          ''+'' @ int_dec (ex_Length e) @ '': '') err1 []]), d))"
  have st: "inv d" "quiet d" "tidy t d" using c by (auto simp: calm_def)
  have one: "\<exists>r. ?f x d = (r, d) \<and> returns r" if x: "fits t x" for x
  proof -
    obtain i e where ie: "x = (i, e)" by (cases x)
    have f: "i < length (fts_files t)" "0 \<le> ex_Start e" "0 \<le> ex_Length e" "ex_Start e + ex_Length e \<le> file_length t i"
      using x by (auto simp: ie fits_def)
    have "ex_Start e + ex_Length e \<le> int (length y)" if "content d (pathForWrite t i) = Some y" for y
      using st(3) f that laid_outD(2) [OF lay f(1)] by (auto simp: tidy_def source_of_def)
    from flush [OF st(1,2) f(2,3) this] obtain r where "io_flush io (pathForWrite t i) (ex_Start e) (ex_Length e) d = (r, d)"
      "returns r" by blast
    then show ?thesis by (auto simp: ie io elim: returnsE)
  qed
  have "\<exists>r. each ?f es d = (r, d) \<and> returns r"
    using one es(2) by (intro each_returns) blast
  then show ?thesis using es by (simp add: piece_Flush_def)
qed

end


context file_io
begin

lemma MarkComplete_works:
  assumes io: "fts_io t = io" and lay: "laid_out t" and pc: "fts_completion t = repo_completion" and c: "calm t d"
    and p: "0 \<le> piece_Offset (fts_info t) p" "piece_Length (fts_info t) p = Ok l" "0 < l"
      "piece_Offset (fts_info t) p + l < 2 ^ 63"
    and set': "piece_Set (fts_infoHash t, p) True w = (Ok (), w1)"
  shows "\<exists>es d'. fileExtents t p = Ok es \<and> MarkComplete t p (d, w) = (Ok (), d', w1) \<and> calm t d' \<and>
    sources t d' = sources t d \<and>
    (\<forall>i \<in> set (map fst es). if file_done t i w1
        then at_name (fts_files t ! i) (partFilePath (fts_files t ! i)) (source_of t d i) d' else same_names t i d d') \<and>
    (\<forall>j < length (fts_files t). j \<notin> set (map fst es) \<longrightarrow> same_names t j d d')"
proof -
  obtain es where es: "fileExtents t p = Ok es" "\<forall>x \<in> set es. fits t x" "distinct (map fst es)"
    "list_all (\<lambda>i. i < length (fts_files t)) (map fst es)"
    by (rule piece_extents [OF lay p])
  let ?Q = "\<lambda>i x (e :: 'm disk_scheme) e'. if file_done t i w1 then at_name (fts_files t ! i) (partFilePath (fts_files t ! i)) x e'
      else same_names t i e e'"
  have keep: "?Q i x e e3" if "same_names t i e e1" "?Q i x e1 e2" "same_names t i e2 e3" for i x e e1 e2 e3
    using that by (auto simp: same_names_at same_names_def at_name_def)
  have "\<exists>d'. each (complete_file t) (map fst es) (d, w1) = (Ok (), d', w1) \<and> calm t d' \<and> sources t d' = sources t d \<and>
      (\<forall>i \<in> set (map fst es). ?Q i (source_of t d i) d d') \<and>
      (\<forall>j < length (fts_files t). j \<notin> set (map fst es) \<longrightarrow> same_names t j d d')"
    by (rule each_file [where Q = ?Q, OF _ _ es(4,3) c], erule (1) complete_file_works [OF io lay pc], erule (2) keep)
  then obtain d' where d': "each (complete_file t) (map fst es) (d, w1) = (Ok (), d', w1)" "calm t d'"
    "sources t d' = sources t d" "\<forall>i \<in> set (map fst es). ?Q i (source_of t d i) d d'"
    "\<forall>j < length (fts_files t). j \<notin> set (map fst es) \<longrightarrow> same_names t j d d'" by blast
  obtain r where r: "piece_Flush t p d = (r, d)" "returns r"
    using piece_Flush_works [OF io lay c es(1,2)] by blast
  have "on_store (setPieceCompletion t p True) (d, w) = (Ok (), d, w1)"
    using set' pc by (simp add: on_store_def setPieceCompletion_def repo_completion_def)
  then have "MarkComplete t p (d, w) = (Ok (), d', w1)"
    using r(1) d'(1) es(1) pc
    by (cases rule: returnsE [OF r(2)]) (simp_all add: MarkComplete_def on_disk_def Let_def)
  with d' es(1) show ?thesis by blast
qed

lemma MarkNotComplete_works:
  assumes io: "fts_io t = io" and lay: "laid_out t" and pc: "fts_completion t = repo_completion" and c: "calm t d"
    and p: "0 \<le> piece_Offset (fts_info t) p" "piece_Length (fts_info t) p = Ok l" "0 < l"
      "piece_Offset (fts_info t) p + l < 2 ^ 63"
    and set': "piece_Set (fts_infoHash t, p) False w = (Ok (), w1)"
  shows "\<exists>es d'. fileExtents t p = Ok es \<and> MarkNotComplete t p (d, w) = (Ok (), d', w1) \<and> calm t d' \<and>
    sources t d' = sources t d \<and>
    (\<forall>i \<in> set (map fst es). at_name (partFilePath (fts_files t ! i)) (fts_files t ! i) (source_of t d i) d') \<and>
    (\<forall>j < length (fts_files t). j \<notin> set (map fst es) \<longrightarrow> same_names t j d d')"
proof -
  obtain es where es: "fileExtents t p = Ok es" "\<forall>x \<in> set es. fits t x" "distinct (map fst es)"
    "list_all (\<lambda>i. i < length (fts_files t)) (map fst es)"
    by (rule piece_extents [OF lay p])
  let ?Q = "\<lambda>i x (e :: 'm disk_scheme) e'. at_name (partFilePath (fts_files t ! i)) (fts_files t ! i) x e'"
  have keep: "?Q i x e e3" if "same_names t i e e1" "?Q i x e1 e2" "same_names t i e2 e3" for i x e e1 e2 e3
    using that by (auto simp: same_names_def at_name_def)
  have "\<exists>d'. each (incomplete_file t) (map fst es) (d, w1) = (Ok (), d', w1) \<and> calm t d' \<and> sources t d' = sources t d \<and>
      (\<forall>i \<in> set (map fst es). ?Q i (source_of t d i) d d') \<and>
      (\<forall>j < length (fts_files t). j \<notin> set (map fst es) \<longrightarrow> same_names t j d d')"
    by (rule each_file [where Q = ?Q, OF _ _ es(4,3) c], erule (1) incomplete_file_works [OF io lay], erule (2) keep)
  then obtain d' where d': "each (incomplete_file t) (map fst es) (d, w1) = (Ok (), d', w1)" "calm t d'"
    "sources t d' = sources t d" "\<forall>i \<in> set (map fst es). ?Q i (source_of t d i) d d'"
    "\<forall>j < length (fts_files t). j \<notin> set (map fst es) \<longrightarrow> same_names t j d d'" by blast
  have "on_store (setPieceCompletion t p False) (d, w) = (Ok (), d, w1)"
    using set' pc by (simp add: on_store_def setPieceCompletion_def repo_completion_def)
  then have "MarkNotComplete t p (d, w) = (Ok (), d', w1)" using d'(1) es(1) by (simp add: MarkNotComplete_def)
  with d' es(1) show ?thesis by blast
qed

end

section \<open>Paths\<close>

lemma common_prefix_le: "common_prefix xs ys \<le> length xs \<and> common_prefix xs ys \<le> length ys"
  by (induction xs ys rule: common_prefix.induct) auto

lemma common_prefix_take: "common_prefix xs ys = length xs \<Longrightarrow> take (length xs) ys = xs"
  by (induction xs ys rule: common_prefix.induct) (auto split: if_splits)

text \<open>Two clean absolute paths: the second is accepted exactly when it lies in the first.\<close>

lemma has_prefix_dotdot: "has_prefix (join_with [slash] (''..'' # xs)) (''..'' @ [slash]) \<or> join_with [slash] (''..'' # xs) = ''..''"
  by (cases xs) auto

lemma isSubFilepath_under:
  assumes "is_abs base" "is_abs sub" "isSubFilepath base sub"
  shows "under (Clean base) (Clean sub)"
proof (cases "Clean sub = Clean base")
  case True
  then show ?thesis by (simp add: under_def)
next
  case False
  let ?bs = "path_comps (Clean base)" and ?ts = "path_comps (Clean sub)"
  let ?k = "common_prefix ?bs ?ts"
  have base: "Clean base \<noteq> ''.''" using is_abs_Clean [of base] assms(1) by (auto simp: is_abs_def)
  have "?k = length ?bs"
  proof (rule ccontr)
    assume "?k \<noteq> length ?bs"
    then obtain m where m: "length ?bs - ?k = Suc m" using common_prefix_le [of ?bs ?ts] by (cases "length ?bs - ?k") auto
    let ?rel = "join_with [slash] (replicate (length ?bs - ?k) ''..'' @ drop ?k ?ts)"
    have "path_Rel base sub = Inr ?rel \<or> (\<exists>e. path_Rel base sub = Inl e)"
      using False base assms(1,2) by (simp add: path_Rel_def Let_def)
    moreover have "has_prefix ?rel (''..'' @ [slash]) \<or> ?rel = ''..''"
      using has_prefix_dotdot by (simp add: m)
    ultimately show False using assms(3) by (auto simp: isSubFilepath_def)
  qed
  then show ?thesis using common_prefix_take assms(1,2) by (auto simp: under_def)
qed

lemma open_paths_under:
  assumes dir: "is_abs dir" and "open_paths opts info dir i fis d = (Ok ps, d')"
  shows "length ps = length fis \<and> (\<forall>f \<in> set ps. under (Clean dir) f \<and> Clean f = f \<and> is_abs f)"
  using assms(2)
proof (induction fis arbitrary: i d ps d')
  case (Cons fi fis)
  let ?f = "path_Join [dir, FilePathMaker opts info fi]"
  have d: "dir \<noteq> []" using dir by (auto simp: is_abs_def)
  then have f: "Clean ?f = ?f" "is_abs ?f" using dir by (auto simp: Join_two)
  from Cons.prems have sub: "isSubFilepath dir ?f" by (auto simp: Let_def split: if_splits)
  from Cons.prems sub obtain e qs where "open_paths opts info dir (Suc i) fis e = (Ok qs, d')" "ps = ?f # qs"
    by (auto simp: Let_def split: call_splits)
  with Cons.IH isSubFilepath_under [OF dir f(2) sub] f show ?case by auto
qed simp

lemma join_with_last: "cs \<noteq> [] \<Longrightarrow> join_with sep cs @ s = join_with sep (butlast cs @ [last cs @ s])"
proof (induction cs rule: induct_list012)
  case (3 x y zs)
  then show ?case by (cases zs) auto
qed auto

lemma clean_abs_shape:
  assumes "is_abs f" "Clean f = f"
  shows "f = slash # join_with [slash] (path_comps f)" "list_all plain_component (path_comps f)"
proof -
  have "path_comps f = clean_comps f" using path_comps_Clean [OF assms(1)] assms(2) by simp
  then show "f = slash # join_with [slash] (path_comps f)" "list_all plain_component (path_comps f)"
    using assms clean_comps_abs [OF assms(1)] by (simp_all add: Clean_def render_path_def)
qed

lemma path_comps_part:
  assumes f: "is_abs f" "Clean f = f" and ne: "path_comps f \<noteq> []"
  shows "path_comps (partFilePath f) = butlast (path_comps f) @ [last (path_comps f) @ ''.part'']"
    "is_abs (partFilePath f)"
proof -
  let ?cs = "path_comps f"
  let ?ds = "butlast ?cs @ [last ?cs @ ''.part'']"
  note sh = clean_abs_shape [OF f]
  have "partFilePath f = render_path True ?ds"
    using join_with_last [OF ne, of "[slash]" "''.part''"] sh(1)
    unfolding partFilePath_def render_path_def by (metis append_Cons)
  moreover have "slash \<notin> set c \<and> c \<noteq> []" if "c \<in> set ?ds" for c
  proof -
    have "plain_component c'" if "c' \<in> set ?cs" for c' using sh(2) that by (auto simp: list_all_iff)
    then show ?thesis using that ne in_set_butlastD [of c ?cs] last_in_set [OF ne]
      by (fastforce simp: plain_component_def)
  qed
  ultimately show "path_comps (partFilePath f) = ?ds" "is_abs (partFilePath f)"
    using path_comps_render [of ?ds True] is_abs_render [of ?ds True] by auto
qed

lemma part_strictly_under:
  assumes "is_abs f" "Clean f = f" "under b f" "is_abs b" "Clean b = b" "f \<noteq> b"
  shows "strictly_under b (partFilePath f)"
proof -
  let ?n = "length (path_comps b)"
  have t: "take ?n (path_comps f) = path_comps b" using assms(3) by (simp add: under_def)
  have len: "?n < length (path_comps f)"
  proof (rule ccontr)
    assume "\<not> ?n < length (path_comps f)"
    with t have "path_comps f = path_comps b" by simp
    with clean_abs_shape(1) [OF assms(1,2)] clean_abs_shape(1) [OF assms(4,5)] assms(6) show False by simp
  qed
  then have "path_comps f \<noteq> []" by auto
  from path_comps_part [OF assms(1,2) this] t len assms(4) show ?thesis
    by (auto simp: strictly_under_def under_def take_butlast)
qed

lemma part_outside:
  assumes "is_abs f" "Clean f = f" "f \<noteq> [slash]"
  shows "\<not> under f (partFilePath f)"
proof -
  have ne: "path_comps f \<noteq> []" using clean_abs_shape(1) [OF assms(1,2)] assms(3) by auto
  have "butlast (path_comps f) @ [last (path_comps f) @ ''.part''] \<noteq> path_comps f"
    using append_butlast_last_id [OF ne] by (metis append1_eq_conv append_self_conv list.distinct(1))
  moreover have "length (butlast (path_comps f) @ [last (path_comps f) @ ''.part'']) = length (path_comps f)"
    using ne by (cases "path_comps f" rule: rev_cases) auto
  ultimately show ?thesis using path_comps_part [OF assms(1,2) ne] by (simp add: under_def)
qed

section \<open>Opening a torrent\<close>

lemma mark_pieces_Ok:
  "mark_pieces nc ps = Ok nc' \<Longrightarrow> length nc' = length nc \<and> (\<forall>k < length nc. nc' ! k \<longleftrightarrow> nc ! k \<or> int k \<in> set ps)"
proof (induction ps arbitrary: nc)
  case (Cons p ps)
  then show ?case by (auto simp: nth_list_update split: if_splits)
qed simp

text \<open>A file that is not on disk in full.\<close>

definition missing_file :: "('m disk_scheme, 'w) fileTorrentImpl \<Rightarrow> 'm disk_scheme \<Rightarrow> nat \<Rightarrow> bool" where
  "missing_file t d i \<longleftrightarrow> os_Stat (fts_files t ! i) d \<noteq> Ok (file_length t i)"

lemma scan_files_Ok:
  "scan_files t d is nc = Ok nc' \<Longrightarrow> length nc' = length nc \<and>
    (\<forall>k < length nc. nc' ! k \<longleftrightarrow> nc ! k \<or> (\<exists>i \<in> set is. missing_file t d i \<and> file_begin t i \<le> int k \<and> int k < file_end t i))"
proof (induction "is" arbitrary: nc)
  case (Cons i "is")
  show ?case
  proof (cases "missing_file t d i")
    case False
    with Cons show ?thesis by (auto simp: missing_file_def)
  next
    case True
    with Cons.prems obtain m where m: "mark_pieces nc [file_begin t i..file_end t i - 1] = Ok m" "scan_files t d is m = Ok nc'"
      by (auto simp: missing_file_def split: res.splits)
    with Cons.IH [OF m(2)] mark_pieces_Ok [OF m(1)] True show ?thesis by auto
  qed
qed simp

lemma getCompletion_repo:
  assumes "fts_completion t = repo_completion"
  shows "getCompletion t p w =
    (Ok \<lparr>cmp_Err = None, cmp_Ok = piece_cache w (fts_infoHash t, p) \<noteq> None,
      cmp_Complete = (piece_cache w (fts_infoHash t, p) = Some True)\<rparr>, w)"
  using assms by (auto simp: getCompletion_def repo_completion_def piece_Get_def errors_Join_def split: option.splits)

lemma tell_piece_Ok:
  assumes pc: "fts_completion t = repo_completion" and run: "tell_piece t (i, nc) w = (Ok (), w')"
  shows "(piece_cache w' (fts_infoHash t, int i) = Some True) = (\<not> nc) \<and>
    (\<forall>j. j \<noteq> int i \<longrightarrow> piece_cache w' (fts_infoHash t, j) = piece_cache w (fts_infoHash t, j))"
proof -
  let ?k = "(fts_infoHash t, int i)"
  have set': "piece_cache w'' = (piece_cache w)(?k \<mapsto> b)" if "setPieceCompletion t (int i) b w = (Ok (), w'')" for b w''
    using piece_Set_effect [of ?k b w "Ok ()" w''] that pc by (simp add: setPieceCompletion_def repo_completion_def)
  note get = getCompletion_repo [OF pc, of "int i" w]
  show ?thesis
  proof (cases nc)
    case True
    show ?thesis
    proof (cases "piece_cache w ?k = Some True")
      case c: True
      with True run get obtain "setPieceCompletion t (int i) False w = (Ok (), w')"
        by (auto simp: tell_piece_def elim!: call_eqE)
      with set' True show ?thesis by auto
    next
      case False
      with True run get show ?thesis by (auto simp: tell_piece_def)
    qed
  next
    case False
    with run have "setPieceCompletion t (int i) True w = (Ok (), w')" by (auto simp: tell_piece_def elim!: call_eqE)
    with set' False show ?thesis by auto
  qed
qed

lemma tell_pieces_Ok:
  assumes pc: "fts_completion t = repo_completion" and "each (tell_piece t) (enumerate n nc) w = (Ok (), w')"
  shows "(\<forall>k < length nc. (piece_cache w' (fts_infoHash t, int (n + k)) = Some True) = (\<not> nc ! k)) \<and>
    (\<forall>j < int n. piece_cache w' (fts_infoHash t, j) = piece_cache w (fts_infoHash t, j))"
  using assms(2)
proof (induction nc arbitrary: n w)
  case (Cons b nc)
  then obtain w1 where 1: "tell_piece t (n, b) w = (Ok (), w1)" "each (tell_piece t) (enumerate (Suc n) nc) w1 = (Ok (), w')"
    by (auto elim!: call_eqE)
  note t = tell_piece_Ok [OF pc 1(1)] and ih = Cons.IH [OF 1(2)]
  have "(piece_cache w' (fts_infoHash t, int (n + k)) = Some True) = (\<not> (b # nc) ! k)" if "k < length (b # nc)" for k
    using t ih that by (cases k) auto
  with t ih show ?case by auto
qed simp

end
