(* ===== verification/StorageProps.thy ===== *)
theory StorageProps
  imports FileStorageFacts
begin

text \<open>
  The properties of the file storage, over the server's configuration of it: the data directory,
  the piece repository as the completion store, part files, and the implementation over memory
  maps. A small torrent on an empty disk is the witness of most of them.
\<close>

section \<open>A sample\<close>

definition st_file :: "string \<Rightarrow> int \<Rightarrow> FileInfo" where
  "st_file p l = \<lparr>fi_Length = l, fi_Path = [p], fi_PathUtf8 = [], fi_PiecesRoot = None, fi_TorrentOffset = 0\<rparr>"

definition st_info :: "FileInfo list \<Rightarrow> Info" where
  "st_info fs =
     \<lparr>PieceLength = 4, Pieces = replicate 40 (CHR ''h''), info_Name = ''n'', NameUtf8 = [], info_Length = 0,
      Files = Some fs, MetaVersion = 0,
      info_FileTree = \<lparr>ft_IsDir = False, ft_upvertedFiles = (\<lambda>_. Some []), ft_walkLengths = []\<rparr>\<rparr>"

definition st_disk :: mmap_disk where
  "st_disk =
     \<lparr>d_names = (\<lambda>_. None), d_nodes = (\<lambda>_. \<lparr>in_data = [], in_writable = True\<rparr>), d_next = 0,
      d_dirs = (\<lambda>p. p = ''/''), d_refuses = (\<lambda>_ _. None), mm_paths = (\<lambda>_. None), mm_objs = []\<rparr>"

definition st_store :: piece_world where
  "st_store =
     \<lparr>tick = 0, fault = (\<lambda>_. None), now_at = (\<lambda>_. \<lparr>year = 2024, month = 1, day = 1, hour = 0, minute = 0, second = 0, nanos = 0\<rparr>), parse_general = (\<lambda>_. Inl (ErrorString [])),
      torrent_tbl = [], piece_tbl = [], piece_cache = (\<lambda>_. None)\<rparr>"

text \<open>\<open>mmap.Map\<close> as the documentation of \<open>mmap(2)\<close> has it: a mapping of length zero is invalid.\<close>

definition st_Map :: mapper where
  "st_Map path n = (if n = 0 then Some (Sentinel FsInvalid) else None)"

definition st_opts :: "piece_world NewFileClientOpts" where
  "st_opts = NewFileWithCompletion ''/d'' repo_completion"

definition st_torrent :: "FileInfo list \<Rightarrow> (mmap_disk, piece_world) fileTorrentImpl" where
  "st_torrent fs =
     (let info = st_info fs in
      \<lparr>fts_info = info, fts_files = map (\<lambda>fi. path_Join [''/d'', defaultFilePathMaker info fi]) (UpvertedFiles info),
       fts_fileInfos = UpvertedFiles info, fts_index = FileSegmentsIndex info, fts_infoHash = [],
       fts_io = mmapFileIo st_Map, fts_client = st_opts\<rparr>)"

section \<open>Where a range of bytes lies\<close>

text \<open>C17: For a version 1 torrent whose lengths add up to less than \<open>2 ^ 63\<close> and a range that ends below
  \<open>2 ^ 63\<close>, \<open>LocateIter\<close> on the index of its files, which finds the first file by
  binary search and scans on in relative positions, yields exactly the extents of the plain walk
  over the file lengths: the rest of the first file behind the offset, then every following
  file, empty ones too, until the range is used up.\<close>

theorem located_extents:
  assumes "\<not> HasV2 info" "list_all (\<lambda>fi. 0 \<le> fi_Length fi) (UpvertedFiles info)"
    "sum_list (map fi_Length (UpvertedFiles info)) < 2 ^ 63" "0 \<le> off" "0 < n" "off + n < 2 ^ 63"
  shows "LocateIter (FileSegmentsIndex info) \<lparr>ex_Start = off, ex_Length = n\<rparr> =
    walk 0 (map fi_Length (UpvertedFiles info)) off n"
  using LocateIter_walk [of "map fi_Length (UpvertedFiles info)" off n] assms
  by (simp add: FileSegmentsIndex_v1 list_all_iff within64_def)

theorem located_extents_witness:
  "LocateIter (FileSegmentsIndex (st_info [st_file ''a'' 2, st_file ''b'' 0, st_file ''c'' 3])) \<lparr>ex_Start = 1, ex_Length = 3\<rparr> =
    [(0, \<lparr>ex_Start = 1, ex_Length = 1\<rparr>), (1, \<lparr>ex_Start = 0, ex_Length = 0\<rparr>), (2, \<lparr>ex_Start = 0, ex_Length = 2\<rparr>)]"
  using located_extents [of "st_info [st_file ''a'' 2, st_file ''b'' 0, st_file ''c'' 3]" 1 3]
  by (simp add: st_info_def st_file_def HasV2_def UpvertedFiles_def UpvertedV1Files_def files_of_def)

section \<open>Reading and writing\<close>

text \<open>C14: Over memory maps, for a version 1 torrent whose files are being written and whose sizes can be
  mapped: a write anywhere in the torrent writes all its bytes and reports no error, the
  torrent's bytes afterwards are those before with the written ones in their place, and reading
  the range gives back what was written.\<close>

theorem storage_write_read:
  assumes "fts_io t = mmapFileIo Map" "laid_out t" "mm_inv d" "quiet d"
    "\<forall>i < length (fts_files t). in_progress t d i \<and> mappable Map (nat (file_length t i))"
    "0 \<le> off" "0 < length p" "off + int (length p) \<le> int (length (torrent_bytes t d))"
  shows "\<exists>d' d''. fts_WriteAt t p off d = (Ok (length p, None), d') \<and>
    torrent_bytes t d' = overwrite off p (torrent_bytes t d) \<and>
    fts_ReadAt t (length p) off d' = (Ok (p, None), d'')"
  using mmap.WriteAt_works [of t Map d off p] assms by blast

lemma st_two:
  defines "t \<equiv> st_torrent [st_file ''a'' 2, st_file ''b'' 3]"
  shows "laid_out t" "\<forall>i < length (fts_files t). in_progress t st_disk i \<and> 0 < file_length t i"
    "length (torrent_bytes t st_disk) = 5" "fts_io t = mmapFileIo st_Map"
  unfolding t_def
  subgoal by code_simp
  subgoal by code_simp
  subgoal by code_simp
  subgoal by (simp add: st_torrent_def Let_def)
  done


lemma st_disk_ok: "mm_inv st_disk" "quiet st_disk"
  by (auto simp: mm_inv_def disk_ok_def quiet_def st_disk_def)

lemma st_mappable: "0 < n \<Longrightarrow> mappable st_Map n"
  by (simp add: mappable_def st_Map_def)

theorem storage_write_read_witness:
  "\<exists>d' d''. fts_WriteAt (st_torrent [st_file ''a'' 2, st_file ''b'' 3]) ''xyz'' 1 st_disk = (Ok (3, None), d') \<and>
    torrent_bytes (st_torrent [st_file ''a'' 2, st_file ''b'' 3]) d' =
      overwrite 1 ''xyz'' (torrent_bytes (st_torrent [st_file ''a'' 2, st_file ''b'' 3]) st_disk) \<and>
    fts_ReadAt (st_torrent [st_file ''a'' 2, st_file ''b'' 3]) 3 1 d' = (Ok (''xyz'', None), d'')"
  using storage_write_read [of "st_torrent [st_file ''a'' 2, st_file ''b'' 3]" st_Map st_disk 1 "''xyz''"]
    st_two st_disk_ok st_mappable by (simp add: numeral_3_eq_3)

text \<open>A mapping of an empty file never comes about, and the other files' writes do not make one.\<close>

lemma os_more [simp]:
  "disk.more (snd (os_OpenFile c tr p d)) = disk.more d" "disk.more (snd (os_MkdirAll p d)) = disk.more d"
  "disk.more (snd (os_Chmod p w d)) = disk.more d" "disk.more (snd (os_Truncate p i sz d)) = disk.more d"
  "disk.more (snd (os_WriteAt p i b off d)) = disk.more d"
  by (auto simp: os_OpenFile_def os_MkdirAll_def os_Chmod_def os_Truncate_def os_WriteAt_def Let_def
      split: option.split)

lemma call_keeps:
  assumes "P (snd m)" "\<And>a e. P e \<Longrightarrow> P (snd (f a e))" "\<And>a e. P e \<Longrightarrow> P (snd (g a e))"
  shows "P (snd (call m f g))"
  using assms by (cases m; cases "fst m") auto

lemma openFileExtra_more [simp]: "disk.more (snd (openFileExtra p d)) = disk.more d"
  unfolding openFileExtra_def
  by (rule call_keeps [where P = "\<lambda>e. disk.more e = disk.more d"])
    (auto intro!: call_keeps [where P = "\<lambda>e. disk.more e = disk.more d"])

lemma mm_paths_more: "disk.more e = disk.more d \<Longrightarrow> mm_paths e = mm_paths d"
  using mm_more by blast

lemma mm_dec_paths [simp]: "mm_paths (mm_dec a d) = mm_paths d"
  by (simp add: mm_dec_def mm_close_def mm_set_def Let_def)

lemma newMmapFile_paths: "mm_paths (snd (newMmapFile a d)) = mm_paths d"
  by (simp add: newMmapFile_def mm_inc_def mm_set_def Let_def)

lemma mmap_open_write_paths:
  assumes "q \<noteq> p"
  shows "mm_paths (snd (mmap_open_write Map p sz d)) q = mm_paths d q"
proof -
  let ?P = "\<lambda>e. mm_paths e q = mm_paths d q"
  have disk: "?P (snd (openFileExtra p e))" "?P (snd (os_Truncate p i sz e))" if "?P e" for e i
    using that mm_paths_more [of "snd (openFileExtra p e)" e] mm_paths_more [of "snd (os_Truncate p i sz e)" e] by simp_all
  have add: "?P (snd (addNewMmap p i n True e))" if "?P e" for i n e
    using that assms by (simp add: addNewMmap_def Let_def)
  show ?thesis unfolding mmap_open_write_def Let_def
    using assms disk add
    by (auto simp: newMmapFile_paths split: option.splits intro!: call_keeps [where P = ?P])
qed

lemma mmap_open_empty:
  assumes "mm_paths d p = None" "\<And>nm. Map nm 0 \<noteq> None"
  shows "mmap_open_write Map p 0 d \<noteq> (Ok h, d')"
  using assms(1) assms(2) [of p]
  by (auto simp: mmap_open_write_def Let_def os_Truncate_def resize_def zeros_def
      elim!: call_eqE split: option.splits if_splits)

text \<open>C35: Over memory maps, where \<open>mmap.Map\<close> refuses an empty file as the system call does: a write whose range
  takes in a file of length zero never succeeds. \<open>LocateIter\<close> yields such a file when it lies inside the range,
  \<open>WriteAt\<close> opens it for its zero bytes, and opening it maps it.\<close>

theorem empty_file_blocks_write:
  assumes io: "fts_io t = mmapFileIo Map" and lay: "laid_out t" and map: "\<forall>nm. Map nm 0 \<noteq> None"
    and ie: "(i, e) \<in> set (LocateIter (fts_index t) \<lparr>ex_Start = off, ex_Length = int (length p)\<rparr>)"
    and empty: "file_length t i = 0" and unmapped: "mm_paths d (partFilePath (fts_files t ! i)) = None"
    and range: "0 \<le> off" "0 < length p"
  shows "\<not> (\<exists>n d'. fts_WriteAt t p off d = (Ok (n, None), d'))"
proof -
  let ?es = "LocateIter (fts_index t) \<lparr>ex_Start = off, ex_Length = int (length p)\<rparr>"
  have i: "\<forall>x \<in> set ?es. fst x < length (fts_files t)" "i < length (fts_files t)"
    using LocateIter_index [of _ _ "fts_index t"] lay ie by (force simp: laid_out_def)+
  have "write_extents t es p d \<noteq> (Ok (n, None), d')"
    if "\<forall>x \<in> set es. fst x < length (fts_files t)" "(i, e) \<in> set es"
      "mm_paths d (partFilePath (fts_files t ! i)) = None" for es n d' and p d
    using that
  proof (induction es arbitrary: p d n)
    case (Cons x es)
    obtain j f where x: "x = (j, f)" by (cases x)
    have j: "j < length (fts_files t)" "pathForWrite t j = partFilePath (fts_files t ! j)"
      using Cons.prems(1) laid_outD(2) [OF lay] by (auto simp: x)
    show ?case
    proof (cases "j = i")
      case True
      have "fts_openForWrite t i d \<noteq> (Ok h, d1)" for h d1
        using mmap_open_empty [OF Cons.prems(3), of Map] map empty io j(2) True
        by (simp add: fts_openForWrite_def mmapFileIo_def)
      then show ?thesis using True by (auto simp: x elim!: call_eqE)
    next
      case False
      have ne: "partFilePath (fts_files t ! i) \<noteq> partFilePath (fts_files t ! j)"
        using laid_outD(4) [OF lay i(2) j(1) False] .
      show ?thesis
      proof
        assume run: "write_extents t (x # es) p d = (Ok (n, None), d')"
        then obtain h d1 n1 d2 d3 m where
          o': "fts_openForWrite t j d = (Ok h, d1)" and w: "h_WriteAt (fts_io t) h (take (nat (ex_Length f)) p) (ex_Start f) d1 = ((n1, None), d2)"
          and c: "snd (h_Close (fts_io t) h d2) = d3" and r: "write_extents t es (drop n1 p) d3 = (Ok (m, None), d')"
          by (auto simp: x Let_def elim!: call_eqE split: if_splits prod.splits option.splits)
        have "mm_paths d1 (partFilePath (fts_files t ! i)) = None"
          using mmap_open_write_paths [OF ne, of Map "file_length t j" d] o' io j(2) Cons.prems(3)
          by (simp add: fts_openForWrite_def mmapFileIo_def)
        moreover have "disk.more d2 = disk.more d1"
          using w io by (cases h) (auto simp: mmapFileIo_def, metis os_more(5) snd_conv)
        then have "mm_paths d2 = mm_paths d1" by (rule mm_paths_more)
        moreover have "mm_paths d3 = mm_paths d2"
          using c io by (auto simp: mmapFileIo_def split: handle.splits)
        ultimately show False
          using Cons.IH [of d3 "drop n1 p" m] r Cons.prems(1,2) False by (auto simp: x)
      qed
    qed
  qed simp
  then show ?thesis using i ie unmapped by (auto simp: fts_WriteAt_def)
qed

theorem empty_file_blocks_write_witness:
  "\<not> (\<exists>n d'. fts_WriteAt (st_torrent [st_file ''a'' 2, st_file ''b'' 0, st_file ''c'' 3]) ''xyz'' 1 st_disk = (Ok (n, None), d'))"
proof (rule empty_file_blocks_write [where Map = st_Map and i = 1 and e = "\<lparr>ex_Start = 0, ex_Length = 0\<rparr>"])
  show "laid_out (st_torrent [st_file ''a'' 2, st_file ''b'' 0, st_file ''c'' 3])" by code_simp
  show "(1, \<lparr>ex_Start = 0, ex_Length = 0\<rparr>) \<in> set (LocateIter (fts_index (st_torrent [st_file ''a'' 2, st_file ''b'' 0, st_file ''c'' 3]))
      \<lparr>ex_Start = 1, ex_Length = int (length ''xyz'')\<rparr>)" by code_simp
  show "file_length (st_torrent [st_file ''a'' 2, st_file ''b'' 0, st_file ''c'' 3]) 1 = 0" by code_simp
qed (simp_all add: st_torrent_def Let_def st_Map_def st_disk_def)


section \<open>Completion of pieces\<close>

text \<open>C16: Marking a piece that ends below \<open>2 ^ 63\<close>, complete or not, over memory maps and the piece
  repository, for a torrent each of whose files has one of its two names and all its bytes: the store is told, no error comes back,
  and the torrent's bytes stay. Marking it complete moves every file of the piece whose
  pieces are now all complete to its final name and leaves the other files alone; marking it not
  complete moves every file of the piece back to the part name.\<close>

theorem marks_move_files:
  assumes "fts_io t = mmapFileIo Map" "laid_out t" "fts_completion t = repo_completion"
    "mm_inv d" "quiet d" "tidy t d"
    "0 \<le> piece_Offset (fts_info t) p" "piece_Length (fts_info t) p = Ok l" "0 < l"
    "piece_Offset (fts_info t) p + l < 2 ^ 63"
    "piece_Set (fts_infoHash t, p) b w = (Ok (), w1)"
  shows "\<exists>es d'. fileExtents t p = Ok es \<and>
    (if b then MarkComplete t p (d, w) else MarkNotComplete t p (d, w)) = (Ok (), d', w1) \<and>
    torrent_bytes t d' = torrent_bytes t d \<and>
    (\<forall>i \<in> set (map fst es).
       if \<not> b then at_name (partFilePath (fts_files t ! i)) (fts_files t ! i) (source_of t d i) d'
       else if file_done t i w1 then at_name (fts_files t ! i) (partFilePath (fts_files t ! i)) (source_of t d i) d'
       else same_names t i d d') \<and>
    (\<forall>j < length (fts_files t). j \<notin> set (map fst es) \<longrightarrow> same_names t j d d')"
proof -
  have c: "mmap.calm t d" using assms by (simp add: mmap.calm_def)
  show ?thesis
  proof (cases b)
    case True
    then show ?thesis
      using mmap.MarkComplete_works [OF assms(1-3) c assms(7-10), of w w1] assms(11)
      by (fastforce dest: sources_bytes)
  next
    case False
    then show ?thesis
      using mmap.MarkNotComplete_works [OF assms(1-3) c assms(7-10), of w w1] assms(11)
      by (fastforce dest: sources_bytes)
  qed
qed

definition st_full :: mmap_disk where
  "st_full = st_disk\<lparr>d_names := [''/d/n/a.part'' \<mapsto> 0, ''/d/n/b.part'' \<mapsto> 1],
     d_nodes := (\<lambda>i. \<lparr>in_data = (if i = 0 then ''xy'' else ''zzz''), in_writable = True\<rparr>), d_next := 2\<rparr>"

definition st_restart :: piece_world where
  "st_restart = st_store\<lparr>piece_cache := [([], 0) \<mapsto> True, ([], 1) \<mapsto> True]\<rparr>"

lemma tidy_iff:
  "tidy t d \<longleftrightarrow> list_all (\<lambda>i.
     (content d (partFilePath (fts_files t ! i)) = None \<or> content d (fts_files t ! i) = None) \<and>
     (case source_of t d i of None \<Rightarrow> True | Some x \<Rightarrow> int (length x) = file_length t i)) [0..<length (fts_files t)]"
proof -
  have c: "(case x of None \<Rightarrow> True | Some y \<Rightarrow> P y) \<longleftrightarrow> (\<forall>y. x = Some y \<longrightarrow> P y)" for x :: "string option" and P
    by (cases x) auto
  show ?thesis unfolding tidy_def c by (auto simp: list_all_iff)
qed

theorem marks_move_files_witness:
  "\<exists>es d'. fileExtents (st_torrent [st_file ''a'' 2, st_file ''b'' 3]) 0 = Ok es \<and>
    MarkComplete (st_torrent [st_file ''a'' 2, st_file ''b'' 3]) 0 (st_full, st_store) =
      (Ok (), d', snd (piece_Set ([], 0) True st_store)) \<and>
    torrent_bytes (st_torrent [st_file ''a'' 2, st_file ''b'' 3]) d' = ''xyzzz''"
proof -
  let ?t = "st_torrent [st_file ''a'' 2, st_file ''b'' 3]"
  have inv: "mm_inv st_full" "quiet st_full"
    by (auto simp: mm_inv_def disk_ok_def quiet_def st_full_def st_disk_def inj_on_def)
  have tidy: "tidy ?t st_full" unfolding tidy_iff by code_simp
  have bytes: "torrent_bytes ?t st_full = ''xyzzz''" by code_simp
  have "fst (piece_Set ([], 0) True st_store) = Ok ()" by code_simp
  then have set': "piece_Set (fts_infoHash ?t, 0) True st_store = (Ok (), snd (piece_Set ([], 0) True st_store))"
    by (simp add: prod_eq_iff st_torrent_def Let_def)
  have pl: "piece_Length (fts_info ?t) 0 = Ok 4" "0 \<le> piece_Offset (fts_info ?t) 0"
    "piece_Offset (fts_info ?t) 0 + 4 < 2 ^ 63" by code_simp+
  have pc: "fts_completion ?t = repo_completion"
    by (simp add: st_torrent_def Let_def st_opts_def NewFileWithCompletion_def)
  from marks_move_files [OF st_two(4,1) pc inv tidy pl(2,1) _ pl(3) set'] bytes show ?thesis by auto
qed

lemma check_sizes_complete:
  "check_sizes t es s = (Ok c, s') \<Longrightarrow> cmp_Complete c \<Longrightarrow>
    s' = s \<and> (\<forall>x \<in> set es. \<exists>sz. stat_either t (fst x) (fst s) = Ok sz \<and> Extent_End (snd x) \<le> sz)"
proof (induction t es s rule: check_sizes.induct)
  case (2 t i e es s)
  then show ?case by (auto simp: Let_def split: res.splits if_splits elim!: call_eqE)
qed auto

text \<open>C19: A piece is reported complete only when the piece repository has it as complete and every file it
  touches is there, under either name, and reaches the end of the piece's part in it; then the report
  changes nothing.\<close>

theorem completion_sound:
  assumes "fts_completion t = repo_completion" "piece_Completion t p (d, w) = (Ok c, s')" "cmp_Complete c"
  shows "s' = (d, w) \<and> piece_cache w (fts_infoHash t, p) = Some True \<and>
    (\<exists>es. fileExtents t p = Ok es \<and> (\<forall>x \<in> set es. \<exists>sz. stat_either t (fst x) d = Ok sz \<and> Extent_End (snd x) \<le> sz))"
proof -
  let ?k = "(fts_infoHash t, p)"
  have get: "getCompletion t p w =
      (Ok \<lparr>cmp_Err = None, cmp_Ok = piece_cache w ?k \<noteq> None, cmp_Complete = (piece_cache w ?k = Some True)\<rparr>, w)"
    using assms(1) by (rule getCompletion_repo)
  have cached: "piece_cache w ?k = Some True" and check: "checkCompleteFileSizes t p (d, w) = (Ok c, s')"
    using assms(2,3) get by (auto simp: piece_Completion_def on_store_def split: if_splits)
  from check obtain es where "fileExtents t p = Ok es" "check_sizes t es (d, w) = (Ok c, s')"
    by (auto simp: checkCompleteFileSizes_def elim!: call_eqE split: if_splits)
  with check_sizes_complete [OF _ assms(3)] cached show ?thesis by fastforce
qed

theorem completion_sound_witness:
  "\<exists>c. piece_Completion (st_torrent [st_file ''a'' 2, st_file ''b'' 3]) 0 (st_full, st_restart) = (Ok c, st_full, st_restart) \<and>
    cmp_Complete c"
proof -
  let ?t = "st_torrent [st_file ''a'' 2, st_file ''b'' 3]"
  have "case fst (piece_Completion ?t 0 (st_full, st_restart)) of Ok c \<Rightarrow> cmp_Complete c | _ \<Rightarrow> False" by code_simp
  then obtain c s' where c: "piece_Completion ?t 0 (st_full, st_restart) = (Ok c, s')" "cmp_Complete c"
    by (cases "piece_Completion ?t 0 (st_full, st_restart)") (auto split: res.splits)
  have "fts_completion ?t = repo_completion"
    by (simp add: st_torrent_def Let_def st_opts_def NewFileWithCompletion_def)
  from completion_sound [OF this c] c show ?thesis by auto
qed

section \<open>Opening a torrent\<close>

text \<open>C18: Opening a torrent under an absolute data directory succeeds only with every file's path inside
  that directory. The part file beside it is strictly inside, unless the path is the directory itself
  (the name \<open>.\<close>), which is accepted: then the part file, to which all data is written, is outside.\<close>

theorem opened_paths:
  assumes "is_abs dir" "OpenTorrent (NewFileWithCompletion dir pc) io info h s = (Ok t, s')" "f \<in> set (fts_files t)"
  shows "under (Clean dir) f \<and> (f \<noteq> Clean dir \<longrightarrow> strictly_under (Clean dir) (partFilePath f)) \<and>
    (f = Clean dir \<and> f \<noteq> [slash] \<longrightarrow> \<not> under (Clean dir) (partFilePath f))"
proof -
  from assms(2) obtain d where "open_paths (NewFileWithCompletion dir pc) info dir 0 (UpvertedFiles info) (fst s) = (Ok (fts_files t), d)"
    by (auto simp: OpenTorrent_def on_disk_def NewFileWithCompletion_def defaultPathMaker_def Let_def
        elim!: call_eqE split: prod.splits if_splits)
  from open_paths_under [OF assms(1) this] assms(3) have f: "under (Clean dir) f" "Clean f = f" "is_abs f" by auto
  with part_strictly_under [OF f(3,2,1)] part_outside [OF f(3,2)] assms(1) show ?thesis by auto
qed

theorem opened_paths_witness:
  "\<exists>t s'. OpenTorrent st_opts (mmapFileIo st_Map) (st_info []\<lparr>info_Name := ''.'', info_Length := 7\<rparr>) [] (st_disk, st_store) = (Ok t, s') \<and>
    fts_files t = [''/d''] \<and> under ''/d'' ''/d'' \<and> \<not> under ''/d'' (partFilePath ''/d'')"
proof -
  let ?open = "OpenTorrent st_opts (mmapFileIo st_Map) (st_info []\<lparr>info_Name := ''.'', info_Length := 7\<rparr>) [] (st_disk, st_store)"
  have "case fst ?open of Ok t \<Rightarrow> fts_files t = [''/d''] | _ \<Rightarrow> False" by code_simp
  then obtain t s' where o': "?open = (Ok t, s')" "fts_files t = [''/d'']"
    by (cases ?open) (auto split: res.splits)
  have "is_abs ''/d''" "Clean ''/d'' = ''/d''" by code_simp+
  with opened_paths [OF _ o'(1) [unfolded st_opts_def], of "''/d''"] o' show ?thesis by auto
qed

text \<open>C15: After a torrent is opened with the piece repository, a piece is recorded as complete exactly
  when every file it touches is on disk under its final name with its full length. What the
  repository said before has no say: the pieces of a file that still has its part name are set
  back to not complete, and the pieces of a file of the right size are taken as complete.\<close>

theorem opened_completion:
  assumes "OpenTorrent (NewFileWithCompletion dir repo_completion) io info h (d, w) = (Ok t, d', w')"
    "0 \<le> k" "k < NumPieces info"
  shows "piece_cache w' (h, k) = Some True \<longleftrightarrow>
    (\<forall>i < length (fts_files t). file_begin t i \<le> k \<and> k < file_end t i \<longrightarrow>
       os_Stat (fts_files t ! i) d' = Ok (file_length t i))"
proof -
  have t: "fts_info t = info" "fts_infoHash t = h" "fts_completion t = repo_completion"
    and set': "setCompletionFromPartFiles t (d', w) = (Ok (), d', w')"
    using assms(1)
    by (auto simp: OpenTorrent_def on_disk_def NewFileWithCompletion_def fts_partFiles_def opts_partFiles_def Let_def
        setCompletionFromPartFiles_def on_store_def elim!: call_eqE split: prod.splits res.splits if_splits)
  let ?n = "nat (NumPieces info)"
  from set' t(1) assms(2,3) obtain nc where
    nc: "scan_files t d' [0..<length (fts_files t)] (replicate ?n False) = Ok nc"
    "each (tell_piece t) (enumerate 0 nc) w = (Ok (), w')"
    by (auto simp: setCompletionFromPartFiles_def on_store_def Let_def split: res.splits if_splits prod.splits)
  note sc = scan_files_Ok [OF nc(1)]
  from assms(2) obtain m where m: "k = int m" by (rule nonneg_int_cases)
  have k: "m < ?n" using assms(3) m by simp
  then have "piece_cache w' (h, k) = Some True \<longleftrightarrow> \<not> nc ! m"
    using tell_pieces_Ok [OF t(3) nc(2)] conjunct1 [OF sc] t(2) m by simp
  also have "\<dots> \<longleftrightarrow> (\<forall>i < length (fts_files t). file_begin t i \<le> k \<and> k < file_end t i \<longrightarrow>
       os_Stat (fts_files t ! i) d' = Ok (file_length t i))"
    using conjunct2 [OF sc] k m by (auto simp: missing_file_def)
  finally show ?thesis .
qed

theorem opened_completion_witness:
  "\<exists>t d' w'. OpenTorrent st_opts (mmapFileIo st_Map) (st_info [st_file ''a'' 2, st_file ''b'' 3]) [] (st_full, st_restart) = (Ok t, d', w') \<and>
    piece_cache w' ([], 0) \<noteq> Some True"
proof -
  let ?open = "OpenTorrent st_opts (mmapFileIo st_Map) (st_info [st_file ''a'' 2, st_file ''b'' 3]) [] (st_full, st_restart)"
  have "case ?open of (Ok t, d', w') \<Rightarrow> length (fts_files t) = 2 \<and> file_begin t 0 = 0 \<and> file_end t 0 = 1 \<and>
      os_Stat (fts_files t ! 0) d' \<noteq> Ok (file_length t 0) | _ \<Rightarrow> False" by code_simp
  then obtain t d' w' where o': "?open = (Ok t, d', w')" "length (fts_files t) = 2" "file_begin t 0 = 0" "file_end t 0 = 1"
      "os_Stat (fts_files t ! 0) d' \<noteq> Ok (file_length t 0)"
    by (auto split: prod.splits res.splits)
  have "0 < NumPieces (st_info [st_file ''a'' 2, st_file ''b'' 3])" by code_simp
  with opened_completion [OF o'(1) [unfolded st_opts_def], of 0] o' show ?thesis by force
qed

end
