(* ===== verification/Spec2Isabelle.thy ===== *)
theory Spec2Isabelle
  imports SystemSteps StoreProps ServerProps PeerProtocol TorrentFile StorageProps
begin

text \<open>
  A verification development of the torrents server: a daemon that manages BitTorrent downloads
  behind an HTTP API and a browser interface, the command line that talks to it, and the parts of the
  vendored torrent library that its answers depend on.

  \<^bold>\<open>The program and how its parts interact.\<close> \<open>main.go\<close> and \<open>cmd/\<close> turn arguments into calls of the HTTP
  client (\<open>pkg/client\<close>) or, for \<open>serve\<close>, into \<open>Run\<close> of \<open>internal/server/server.go\<close>. \<open>Run\<close> opens the
  database (\<open>database/database.go\<close>), loads the piece completions (\<open>database/piece.go\<close>), starts the
  torrent library (\<open>torrent/client.go\<close>), restores the torrents of the database
  (\<open>service/torrent.go\<close>) and serves the API (\<open>api/\<close>) and the pages (\<open>ui/\<close>), whose handlers call the
  service. The service coordinates three ports: the torrent repository (\<open>database/torrent.go\<close>), the
  engine (\<open>torrent/engine.go\<close>) and the piece repository. The engine drives the torrent library.

  \<^bold>\<open>Conventions.\<close> A Go call that may fail yields \<open>Ok\<close>, \<open>Err\<close> with an error value, or \<open>Panic\<close>; errors
  are trees as \<open>%w\<close> and \<open>errors.Join\<close> build them, so that \<open>errors.Is\<close> is a definition. State is passed
  explicitly: an operation takes the world and returns the result with the new world. What the
  environment decides (a database error at any statement, a cancelled context, what the network
  delivers, the clock) is a field of the world or a parameter of the operation. Integers that the source
  takes from the network or from a torrent file wrap around: bytes and 32-bit fields are words of their
  width, and the sums, differences, products and quotients of 64-bit lengths and offsets are \<open>int\<close> wrapped
  with \<open>i64\<close> (\<open>u32\<close> for the 32-bit lengths of pieces). Where a theorem needs that nothing wraps, the bound is
  one of its hypotheses. Counts of what is in memory or in the database are \<open>nat\<close> and \<open>int\<close>.

  \<^bold>\<open>Theories, in the order of their imports.\<close>

  \<^item> \<open>Prelude\<close>: error values, call results, contexts, facts on strings and association lists.
  \<^item> \<open>InfoHash\<close> (\<open>types/infohash/infohash.go\<close>), \<open>Paths\<close> (\<open>storage/safe-path.go\<close> and the path functions of
    the standard library), \<open>Timestamps\<close> (the time format of \<open>database.go\<close>).
  \<^item> \<open>Database\<close>, \<open>TorrentRepo\<close>, \<open>PieceRepo\<close>: the tables of the migrations with their statements, and the
    two repositories. \<open>TorrentStore\<close> states the contract of the torrent repository as the locale
    \<open>torrent_store\<close> and discharges it for the SQL model.
  \<^item> \<open>Engine\<close>: every method of \<open>engine.go\<close> over the library's interface; the locale \<open>torrent_client\<close> is what
    it relies on.
  \<^item> \<open>Service\<close>, \<open>ServiceFacts\<close>: the orchestration layer over records of operations, one per port, and what
    it guarantees in the locale \<open>torrent_service\<close>, which extends \<open>torrent_store\<close>.
  \<^item> \<open>Metainfo\<close>, \<open>Merkle\<close>, \<open>TorrentLib\<close>: the library's info dictionaries, files and pieces (\<open>metainfo/info.go\<close>,
    \<open>fileinfo.go\<close>, \<open>piece.go\<close>, \<open>file.go\<close>, \<open>misc.go\<close>), the hash trees and the check of piece layers
    (\<open>merkle/merkle.go\<close>, \<open>bep52.go\<close>), and the client as the engine sees it (\<open>client.go\<close>, \<open>t.go\<close>,
    \<open>torrent.go\<close>); \<open>TorrentLib\<close> interprets \<open>torrent_client\<close> on it.
  \<^item> \<open>System\<close>: the parts assembled as \<open>Run\<close> does, with the interpretation \<open>svc\<close> of \<open>torrent_service\<close> for caches
    that agree with the table, and \<open>sys\<close> of its extension \<open>covering_service\<close> for caches that cover it.
    \<open>SystemSteps\<close>: the server as a state machine of requests, events and restarts.
    \<open>Samples\<close>: concrete worlds for the witnesses.
  \<^item> \<open>Json\<close>, \<open>JsonFields\<close>, \<open>Http\<close>, \<open>Api\<close>: \<open>encoding/json\<close> as the server uses it, requests and responses, and
    the API with its middlewares. \<open>HttpClient\<close>, \<open>ClientFacts\<close>: the client and what it gets from the API.
  \<^item> \<open>View\<close>, \<open>Ui\<close>: the templ components, layout and pages as lists of writes, and the handlers of the
    browser interface.
  \<^item> \<open>Config\<close>, \<open>Server\<close>, \<open>Cli\<close>: the configuration, starting and stopping, the commands.
  \<^item> \<open>Url\<close>, \<open>Magnet\<close>: the parts of \<open>net/url\<close> that magnet links use, and the links themselves
    (\<open>metainfo/magnet.go\<close>, \<open>magnet-v2.go\<close>, \<open>spec.go\<close>), which the world of \<open>System\<close> runs.
  \<^item> \<open>Bencode\<close>, \<open>BencodeTyped\<close>: the decoder (\<open>bencode/decode.go\<close>, \<open>scanner.go\<close>) into interface values and
    into typed destinations, the copying of raw values, and the encoder on values (\<open>encode.go\<close>);
    \<open>BencodeFacts\<close> proves what they accept.
  \<^item> \<open>MetainfoFile\<close>, \<open>MetainfoFacts\<close>, \<open>LoadFacts\<close>: reading a torrent file into its structs
    (\<open>metainfo/metainfo.go\<close>, \<open>info.go\<close>, \<open>bep52.go\<close>) and what the reading keeps. \<open>TorrentFile\<close> composes it
    with the upload handler and the service.
  \<^item> \<open>Segments\<close> (\<open>segments/\<close>): the files a range of a torrent's bytes lies in. \<open>FileIo\<close>: the operating system's
    files, and the classic and the memory-mapped implementation of \<open>fileIo\<close> (\<open>storage/file-io*.go\<close>), each an
    interpretation of the locale \<open>file_io\<close>. \<open>FileStorage\<close>, \<open>FileStorageFacts\<close>, \<open>StorageProps\<close>: the storage the server
    configures (\<open>storage/file-*.go\<close>) over that locale and the piece repository.
  \<^item> \<open>PeerProtocol\<close>: the messages between peers and the handshake (\<open>peer_protocol/\<close>).

  \<^bold>\<open>What the theorems show.\<close> \<open>ServiceProps\<close> states each operation of the service on every outcome (add,
  remove, pause, resume, restore), over the assembled system. \<open>SystemSteps\<close> proves what holds in every
  reachable state: the tables are consistent (\<open>db_inv\<close>), the client tracks well-formed non-zero hashes
  (\<open>lib_inv\<close>), rows and piece records are filed under canonical spellings of hashes, and what the table
  records of a piece the cache answers. Rows and running torrents need not match in every state: adding a
  paused torrent again starts it before it is refused, and a torrent whose row could not be written goes
  on running; so what holds of them is stated per operation in \<open>ServiceProps\<close>. \<open>StoreProps\<close> relates
  the repositories to a map of torrents, the written forms of hashes and times to their values, the pieces
  of an accepted info to its length, the progress of a file to the bytes of its pieces, and bounds what a
  removal deletes on disk.
  \<open>ServerProps\<close> carries the service's guarantees through JSON and HTTP to the client, and covers the
  middlewares, configuration, start, stop and rendering. \<open>PeerProtocol\<close> has the round trip of messages,
  that decoding keeps to the announced length, and that two handshakes complete each other. \<open>Magnet\<close> has
  the round trip of links. \<open>BencodeFacts\<close> shows that the decoder accepts exactly the
  canonical text of the value it returns, \<open>MetainfoFacts\<close> that the readers of a torrent file end on every
  input and that the files of a version 2 info are laid out piece-aligned and disjoint, \<open>LoadFacts\<close>
  that an encoded file without the four structured fields loads back with the info's bytes verbatim (so
  that its hash is the hash of what was written), and \<open>TorrentFile\<close> what an upload does to the database and the client.
  \<open>StorageProps\<close> shows that the files of a torrent behave as one sequence of bytes under reads and writes,
  that marking pieces moves files and keeps those bytes, where the files of an opened torrent are and
  which completions it starts with, and that an empty file stops a write over memory maps.

  \<^bold>\<open>Fuel.\<close> The JSON parser recurses on the unread input and carries fuel; \<open>3 * length + 3\<close> is enough for
  every input (\<open>json_Decode_total\<close>), because each call either consumes a character or is one of at
  most two calls in a row that do not. The bencode parsers carry \<open>2 * length + 1\<close> (interface values and
  raw copies) and \<open>3 * length + 1\<close> (typed destinations), the reader of file trees the length of its
  input plus one; \<open>torrent_readers_end\<close> shows that none of them runs out. No other definition carries fuel.

  \<^bold>\<open>Not modelled.\<close> Log lines; the settings passed to the torrent library; cobra's argument parsing; the
  TOML decoder, the validation package, the SQL driver, the templ runtime, the hash functions, the
  decoding of multihashes, the mapping of files into memory and the parsing of a URL's authority,
  which are parameters; constant scripts. The connection between the client and the server is a parameter
  too; the theorems that span it use one that delivers every request and answer (\<open>loopback\<close>). Of the
  torrent library: a second index entry, and a second hash, of a torrent (\<open>hashInfoBytes\<close> is a definition, but
  in the world of the engine a torrent goes by the hash it was added under), the piece hashes that checked
  piece layers leave behind, the reflection of the bencode encoder over structs and the writing
  of torrent files, the locks of the storage, its search for holes in sparse files and its other back
  ends, peer connections, requests, trackers, the DHT and encryption, most of it concurrent network
  code that the server only configures.
\<close>

end
